(* ===== verification/Aether_Prelude.thy ===== *)
theory Aether_Prelude
  imports Main "HOL-Library.Word" "HOL-Library.Monad_Syntax"
begin

text \<open>
  What the components of the engine share: names for the machine types of the Rust code, the
  error type of \<^verbatim>\<open>error.rs\<close>, the slice accessors of the standard library (\<^verbatim>\<open>get\<close>,
  \<^verbatim>\<open>get(a..b)\<close>, \<^verbatim>\<open>checked_add\<close>), big-endian encoding of words, and the lemmas about lists,
  options and words that the component proofs use.

  Integers that the code stores at a width (\<^verbatim>\<open>u8\<close>, \<^verbatim>\<open>u16\<close>, \<^verbatim>\<open>u32\<close>, \<^verbatim>\<open>u64\<close>) are words of that
  width; lengths, offsets and counters of type \<^verbatim>\<open>usize\<close> are naturals, with \<^verbatim>\<open>checked_add\<close> and
  the saturating operations cut off at the 64-bit limit where the code uses them.
\<close>

unbundle bit_operations_syntax

subsection \<open>Machine types\<close>

type_synonym u8 = "8 word"
type_synonym u16 = "16 word"
type_synonym u32 = "32 word"
type_synonym u64 = "64 word"
type_synonym usize = nat
type_synonym bytes = "u8 list"

lemma unat_u8_less [simp]: "unat (b :: u8) < 256"
  using unsigned_less [of b] by simp

lemma unat_u16_less [simp]: "unat (w :: u16) < 65536"
  using unsigned_less [of w] by simp

lemma unat_u32_less [simp]: "unat (w :: u32) < 4294967296"
  using unsigned_less [of w] by simp

lemma unat_drop_bit_div: "unat (drop_bit n w) = unat w div 2 ^ n"
  by (subst unat_drop_bit_eq) (simp add: drop_bit_eq_div)

lemma find_upt_Some: "find P [0..<n] = Some i \<longleftrightarrow> i < n \<and> P i \<and> (\<forall>j < i. \<not> P j)"
  by (auto simp: find_Some_iff)

lemma remdups_snoc: "remdups (xs @ [x]) = filter (\<lambda>y. y \<noteq> x) (remdups xs) @ [x]"
  by (induction xs) auto

lemma prefix_split:
  assumes "x @ y = a @ z" and "length a \<le> length x"
  obtains x' where "x = a @ x'" and "x' @ y = z"
proof
  have "take (length a) (x @ y) = a" using assms(1) by simp
  then have "take (length a) x = a" using assms(2) by simp
  then show x: "x = a @ drop (length a) x" by (metis append_take_drop_id)
  then have "a @ drop (length a) x @ y = a @ z" using assms(1) by (metis append.assoc)
  then show "drop (length a) x @ y = z" by simp
qed

text \<open>The largest value of \<^verbatim>\<open>usize\<close> on a 64-bit target.\<close>

definition usize_max :: nat where
  "usize_max = 2 ^ 64 - 1"

definition checked_add :: "usize \<Rightarrow> usize \<Rightarrow> usize option" where
  "checked_add a b = (if a + b \<le> usize_max then Some (a + b) else None)"

definition saturating_add :: "usize \<Rightarrow> usize \<Rightarrow> usize" where
  "saturating_add a b = min (a + b) usize_max"

subsection \<open>Errors and results\<close>

text \<open>
  \<^verbatim>\<open>error.rs\<close>. The variants that wrap an error of another library carry its display text.
\<close>

datatype aether_error =
    Io string
  | Quic string
  | H3 string
  | Tls string
  | Ech string
  | Masque string
  | NoCleanEndpoint
  | Capsule string
  | Api string
  | IdentityRefused string
  | Cancelled
  | Other string

type_synonym 'a result = "aether_error + 'a"

text \<open>The question-mark operator on a \<^verbatim>\<open>Result\<close>: an error ends the function.\<close>

definition res_bind :: "'e + 'a \<Rightarrow> ('a \<Rightarrow> 'e + 'b) \<Rightarrow> 'e + 'b" where
  "res_bind r f = (case r of Inl e \<Rightarrow> Inl e | Inr a \<Rightarrow> f a)"

lemma res_bind_simps [simp]:
  "res_bind (Inl e) f = Inl e"
  "res_bind (Inr a) f = f a"
  by (simp_all add: res_bind_def)

lemma res_bind_Inr_iff: "res_bind r f = Inr b \<longleftrightarrow> (\<exists>a. r = Inr a \<and> f a = Inr b)"
  by (cases r) auto

text \<open>
  Code that can panic returns a value of type \<open>run\<close>; a panic ends the whole call.
\<close>

datatype 'a run = Panics | Returns 'a

definition run_bind :: "'a run \<Rightarrow> ('a \<Rightarrow> 'b run) \<Rightarrow> 'b run" where
  "run_bind r f = (case r of Panics \<Rightarrow> Panics | Returns a \<Rightarrow> f a)"

lemma run_bind_simps [simp]:
  "run_bind Panics f = Panics"
  "run_bind (Returns a) f = f a"
  by (simp_all add: run_bind_def)

lemma run_bind_Returns_iff: "run_bind r f = Returns b \<longleftrightarrow> (\<exists>a. r = Returns a \<and> f a = Returns b)"
  by (cases r) auto

text \<open>\<^verbatim>\<open>slice[i]\<close> and \<^verbatim>\<open>slice[a..b]\<close>, which panic out of range.\<close>

definition index :: "'a list \<Rightarrow> usize \<Rightarrow> 'a run" where
  "index xs i = (if i < length xs then Returns (xs ! i) else Panics)"

definition index_range :: "'a list \<Rightarrow> usize \<Rightarrow> usize \<Rightarrow> 'a list run" where
  "index_range xs a b = (if a \<le> b \<and> b \<le> length xs then Returns (take (b - a) (drop a xs)) else Panics)"

subsection \<open>Numbers as text\<close>

text \<open>What \<^verbatim>\<open>format!\<close> prints for an unsigned integer with \<^verbatim>\<open>{}\<close>.\<close>

definition digit_char :: "nat \<Rightarrow> char" where
  "digit_char d = char_of (48 + d)"

fun nat_dec :: "nat \<Rightarrow> string" where
  "nat_dec n = (if n < 10 then [digit_char n] else nat_dec (n div 10) @ [digit_char (n mod 10)])"

declare nat_dec.simps [simp del]

text \<open>A Rust string is its UTF-8 bytes; \<^verbatim>\<open>as_bytes\<close> reads them.\<close>

definition as_bytes :: "string \<Rightarrow> bytes" where
  "as_bytes s = map of_char s"

definition of_bytes :: "bytes \<Rightarrow> string" where
  "of_bytes bs = map (\<lambda>b. char_of (unat b)) bs"

lemma length_as_bytes [simp]: "length (as_bytes s) = length s"
  by (simp add: as_bytes_def)

lemma length_of_bytes [simp]: "length (of_bytes b) = length b"
  by (simp add: of_bytes_def)

lemma of_char_u8: "of_char c = (of_nat (of_char c) :: u8)"
  by (metis of_nat_of_char)

lemma unat_of_char [simp]: "unat (of_char c :: u8) = of_char c"
proof -
  have "(of_char c :: nat) < 256" by (rule nat_of_char_less_256)
  then show ?thesis
    by (subst of_char_u8) (simp add: unsigned_of_nat take_bit_nat_eq_self)
qed

lemma of_bytes_as_bytes [simp]: "of_bytes (as_bytes s) = s"
  by (simp add: as_bytes_def of_bytes_def comp_def)

lemma of_char_char_of_unat [simp]: "of_char (char_of (unat x) :: char) = (x :: u8)"
  by (subst of_char_u8) (simp add: of_char_mod_256)

lemma as_bytes_of_bytes [simp]: "as_bytes (of_bytes b) = b"
  by (simp add: as_bytes_def of_bytes_def comp_def)

subsection \<open>Slices\<close>

text \<open>\<^verbatim>\<open>slice.get(i)\<close> and \<^verbatim>\<open>slice.get(a..b)\<close>: None out of range, never a panic.\<close>

definition get_at :: "'a list \<Rightarrow> usize \<Rightarrow> 'a option" where
  "get_at xs i = (if i < length xs then Some (xs ! i) else None)"

definition get_range :: "'a list \<Rightarrow> usize \<Rightarrow> usize \<Rightarrow> 'a list option" where
  "get_range xs a b = (if a \<le> b \<and> b \<le> length xs then Some (take (b - a) (drop a xs)) else None)"

lemma get_at_Some_iff: "get_at xs i = Some x \<longleftrightarrow> i < length xs \<and> x = xs ! i"
  by (auto simp: get_at_def)

lemma get_at_None_iff: "get_at xs i = None \<longleftrightarrow> length xs \<le> i"
  by (auto simp: get_at_def)

lemma get_at_append_right [simp]: "get_at (xs @ ys) (length xs + i) = get_at ys i"
  by (simp add: get_at_def)

lemma get_at_append_left: "i < length xs \<Longrightarrow> get_at (xs @ ys) i = get_at xs i"
  by (simp add: get_at_def nth_append)

lemma get_at_Cons_0 [simp]: "get_at (x # xs) 0 = Some x"
  by (simp add: get_at_def)

lemma get_at_Cons_Suc [simp]: "get_at (x # xs) (Suc i) = get_at xs i"
  by (simp add: get_at_def)

lemma get_at_Nil [simp]: "get_at [] i = None"
  by (simp add: get_at_def)

lemma get_range_Some_iff:
  "get_range xs a b = Some ys \<longleftrightarrow> a \<le> b \<and> b \<le> length xs \<and> ys = take (b - a) (drop a xs)"
  by (auto simp: get_range_def)

lemma get_range_length: "get_range xs a b = Some ys \<Longrightarrow> length ys = b - a"
  by (auto simp: get_range_Some_iff)

lemma get_range_append_mid:
  "get_range (xs @ ys @ zs) (length xs) (length xs + length ys) = Some ys"
  by (simp add: get_range_def)

lemma get_range_append_shift:
  "get_range (xs @ ys) (length xs + a) (length xs + b) = get_range ys a b"
  by (auto simp: get_range_def)

lemma checked_add_Some_iff: "checked_add a b = Some c \<longleftrightarrow> c = a + b \<and> a + b \<le> usize_max"
  by (auto simp: checked_add_def)

subsection \<open>Big-endian words\<close>

text \<open>
  \<^verbatim>\<open>word_be n v\<close> is the last \<open>n\<close> bytes of \<^verbatim>\<open>v.to_be_bytes()\<close>, and \<^verbatim>\<open>be_word\<close> reads bytes as an
  unsigned big-endian number of the result's width (\<^verbatim>\<open>from_be_bytes\<close>, with zero bytes in front).
\<close>

fun word_be :: "nat \<Rightarrow> 'a::len word \<Rightarrow> bytes" where
  "word_be 0 v = []"
| "word_be (Suc n) v = word_be n (drop_bit 8 v) @ [ucast v]"

fun be_word_acc :: "'a::len word \<Rightarrow> bytes \<Rightarrow> 'a word" where
  "be_word_acc acc [] = acc"
| "be_word_acc acc (b # bs) = be_word_acc (push_bit 8 acc OR ucast b) bs"

definition be_word :: "bytes \<Rightarrow> 'a::len word" where
  "be_word bs = be_word_acc 0 bs"

text \<open>The same value as a natural number, for lengths the code widens to \<^verbatim>\<open>usize\<close>.\<close>

fun be_nat_acc :: "nat \<Rightarrow> bytes \<Rightarrow> nat" where
  "be_nat_acc acc [] = acc"
| "be_nat_acc acc (b # bs) = be_nat_acc (push_bit 8 acc OR unat b) bs"

definition be_nat :: "bytes \<Rightarrow> nat" where
  "be_nat bs = be_nat_acc 0 bs"

lemma length_word_be [simp]: "length (word_be n v) = n"
  by (induction n v rule: word_be.induct) auto

lemma word_be_2: "word_be 2 v = [ucast (drop_bit 8 v), ucast v]"
  by (simp add: numeral_2_eq_2)

lemma be_word_acc_append: "be_word_acc acc (xs @ ys) = be_word_acc (be_word_acc acc xs) ys"
  by (induction acc xs rule: be_word_acc.induct) auto

lemma be_word_snoc: "be_word (bs @ [b]) = push_bit 8 (be_word bs) OR ucast b"
  by (simp add: be_word_def be_word_acc_append)

lemma be_word_word_be: "be_word (word_be n v) = take_bit (8 * n) v"
proof (induction n arbitrary: v)
  case 0
  show ?case by (simp add: be_word_def)
next
  case (Suc n)
  have "be_word (word_be (Suc n) v) = push_bit 8 (take_bit (8 * n) (drop_bit 8 v)) OR ucast (ucast v :: u8)"
    by (simp add: be_word_snoc Suc)
  also have "\<dots> = take_bit (8 * Suc n) v"
    by (rule bit_eqI) (auto simp: bit_simps)
  finally show ?case .
qed

lemma push_or_byte_nat: "push_bit 8 acc OR unat (b :: u8) = 256 * acc + unat b"
proof -
  have "unat b < 256" using unsigned_less [of b] by simp
  then have tb: "take_bit 8 (unat b) = unat b" by (simp add: take_bit_nat_eq_self)
  have "push_bit 8 acc AND unat b = 0"
  proof (rule bit_eqI)
    fix n
    show "bit (push_bit 8 acc AND unat b) n = bit (0 :: nat) n"
      by (subst tb [symmetric]) (auto simp: bit_simps)
  qed
  then have "push_bit 8 acc + unat b = push_bit 8 acc OR unat b"
    by (rule disjunctive_add_eq_or)
  then show ?thesis
    by (simp add: push_bit_eq_mult mult.commute)
qed

lemma be_nat_acc_append: "be_nat_acc acc (xs @ ys) = be_nat_acc (be_nat_acc acc xs) ys"
  by (induction acc xs rule: be_nat_acc.induct) auto

lemma be_nat_Nil [simp]: "be_nat [] = 0"
  by (simp add: be_nat_def)

lemma be_nat_snoc: "be_nat (bs @ [b]) = 256 * be_nat bs + unat b"
  by (simp add: be_nat_def be_nat_acc_append push_or_byte_nat)

lemma be_nat_1 [simp]: "be_nat [a] = unat a"
  by (simp add: be_nat_def)

lemma be_nat_2: "be_nat [a, b] = 256 * unat a + unat b"
  using be_nat_snoc [of "[a]" b] by simp

lemma be_nat_less: "be_nat bs < 256 ^ length bs"
proof (induction bs rule: rev_induct)
  case Nil
  show ?case by simp
next
  case (snoc b bs)
  then have "256 * be_nat bs + unat b < 256 * 256 ^ length bs"
    using unat_u8_less [of b] by linarith
  then show ?case by (simp add: be_nat_snoc)
qed

lemma be_nat_word_be: "be_nat (word_be n v) = take_bit (8 * n) (unat v)"
proof (induction n arbitrary: v)
  case 0
  show ?case by simp
next
  case (Suc n)
  have "unat (drop_bit 8 v) = unat v div 256"
    by (subst unat_drop_bit_eq) (simp add: drop_bit_eq_div)
  then have "be_nat (word_be (Suc n) v) = 256 * take_bit (8 * n) (unat v div 256) + unat v mod 256"
    by (simp add: be_nat_snoc Suc unsigned_ucast_eq take_bit_eq_mod)
  also have "\<dots> = take_bit (8 * Suc n) (unat v)"
    by (simp add: take_bit_eq_mod power_add mod_mult2_eq [of _ 256] mult.commute)
  finally show ?case .
qed

lemma be_nat_u16 [simp]: "be_nat (word_be 2 (v :: u16)) = unat v"
  by (simp add: be_nat_word_be take_bit_nat_eq_self)

lemma be_nat_u32 [simp]: "be_nat (word_be 4 (v :: u32)) = unat v"
  by (simp add: be_nat_word_be take_bit_nat_eq_self)

lemma be_word_full:
  assumes "8 * n = LENGTH('a)"
  shows "be_word (word_be n v) = (v :: 'a::len word)"
  by (simp add: be_word_word_be assms take_bit_word_eq_self)

lemma be_word_u16 [simp]: "be_word (word_be 2 v) = (v :: u16)"
  by (rule be_word_full) simp

lemma be_word_u32 [simp]: "be_word (word_be 4 v) = (v :: u32)"
  by (rule be_word_full) simp

lemma be_word_u64 [simp]: "be_word (word_be 8 v) = (v :: u64)"
  by (rule be_word_full) simp

lemma push_or_byte_word:
  "push_bit 8 w OR ucast (b :: u8) = 256 * (w :: 'a::len word) + ucast b"
proof -
  have "push_bit 8 w AND ucast b = 0"
    by (rule bit_eqI) (auto simp: bit_simps dest: bit_imp_le_length)
  then have "push_bit 8 w + ucast b = push_bit 8 w OR ucast b"
    by (rule disjunctive_add_eq_or)
  then show ?thesis by (simp add: push_bit_eq_mult mult.commute)
qed

lemma be_word_of_nat: "be_word bs = of_nat (be_nat bs)"
proof (induction bs rule: rev_induct)
  case Nil
  show ?case by (simp add: be_word_def)
next
  case (snoc b bs)
  then show ?case by (simp add: be_word_snoc be_nat_snoc push_or_byte_word)
qed

lemma unat_be_word: "8 * length bs \<le> LENGTH('a) \<Longrightarrow> unat (be_word bs :: 'a::len word) = be_nat bs"
proof -
  assume "8 * length bs \<le> LENGTH('a)"
  then have "(2 :: nat) ^ (8 * length bs) \<le> 2 ^ LENGTH('a)" by simp
  moreover have "be_nat bs < 2 ^ (8 * length bs)"
    using be_nat_less [of bs] by (simp add: power_mult)
  ultimately have "be_nat bs < 2 ^ LENGTH('a)" by linarith
  then show ?thesis
    by (simp add: be_word_of_nat unsigned_of_nat take_bit_nat_eq_self)
qed

lemma ucast_be_word:
  "8 * length x \<le> LENGTH('a) \<Longrightarrow> ucast (be_word x :: 'a::len word) = (be_word x :: 'b::len word)"
  using unat_be_word [of x, where 'a = 'a] by (metis be_word_of_nat of_nat_unat)

end
