(* ===== verification/Octets.thy ===== *)
theory Octets
  imports Aether_Prelude
begin

text \<open>
  The byte cursor of \<^verbatim>\<open>quiche/octets/src/lib.rs\<close>, as far as the MASQUE code uses it: a buffer with
  an offset, fixed-width reads and writes in network order, and the QUIC variable-length integer.
  Reads and writes return the advanced cursor; on an error the cursor keeps its old value, because
  every operation checks the remaining space before it moves. The \<^verbatim>\<open>unreachable!\<close> and \<^verbatim>\<open>panic!\<close>
  arms of the writer are the value \<^const>\<open>Panics\<close>.
\<close>

datatype octets_error = BufferTooShortError

record octets =
  buf :: bytes
  off :: usize

definition with_slice :: "bytes \<Rightarrow> octets" where
  "with_slice b = \<lparr>buf = b, off = 0\<rparr>"

definition cap :: "octets \<Rightarrow> usize" where
  "cap b = length (buf b) - off b"

definition to_vec :: "octets \<Rightarrow> bytes" where
  "to_vec b = drop (off b) (buf b)"

text \<open>The macro \<^verbatim>\<open>peek_u!\<close>: \<open>len\<close> bytes from the offset as a big-endian integer.\<close>

definition peek_u :: "octets \<Rightarrow> nat \<Rightarrow> octets_error + 'a::len word" where
  "peek_u b len =
     (let src = drop (off b) (buf b)
      in if length src < len then Inl BufferTooShortError else Inr (be_word (take len src)))"

text \<open>The macro \<^verbatim>\<open>get_u!\<close>: the same, and the offset moves past the bytes.\<close>

definition get_u :: "octets \<Rightarrow> nat \<Rightarrow> octets_error + ('a::len word \<times> octets)" where
  "get_u b len = res_bind (peek_u b len) (\<lambda>out. Inr (out, b\<lparr>off := off b + len\<rparr>))"

text \<open>The macro \<^verbatim>\<open>put_u!\<close>: the low \<open>len\<close> bytes of \<open>v\<close> in network order.\<close>

definition overwrite :: "bytes \<Rightarrow> usize \<Rightarrow> bytes \<Rightarrow> bytes" where
  "overwrite dst at src = take at dst @ src @ drop (at + length src) dst"

definition put_u :: "octets \<Rightarrow> 'a::len word \<Rightarrow> nat \<Rightarrow> octets_error + octets" where
  "put_u b v len =
     (if length (buf b) < off b + len then Inl BufferTooShortError
      else Inr (b\<lparr>buf := overwrite (buf b) (off b) (word_be len v), off := off b + len\<rparr>))"

definition get_u8 :: "octets \<Rightarrow> octets_error + (u8 \<times> octets)" where
  "get_u8 b = get_u b 1"

definition peek_u8 :: "octets \<Rightarrow> octets_error + u8" where
  "peek_u8 b = peek_u b 1"

definition get_u16 :: "octets \<Rightarrow> octets_error + (u16 \<times> octets)" where
  "get_u16 b = get_u b 2"

definition get_u32 :: "octets \<Rightarrow> octets_error + (u32 \<times> octets)" where
  "get_u32 b = get_u b 4"

definition get_u64 :: "octets \<Rightarrow> octets_error + (u64 \<times> octets)" where
  "get_u64 b = get_u b 8"

definition put_u8 :: "octets \<Rightarrow> u8 \<Rightarrow> octets_error + octets" where
  "put_u8 b v = put_u b v 1"

definition put_u16 :: "octets \<Rightarrow> u16 \<Rightarrow> octets_error + octets" where
  "put_u16 b v = put_u b v 2"

definition put_u32 :: "octets \<Rightarrow> u32 \<Rightarrow> octets_error + octets" where
  "put_u32 b v = put_u b v 4"

definition put_u64 :: "octets \<Rightarrow> u64 \<Rightarrow> octets_error + octets" where
  "put_u64 b v = put_u b v 8"

subsection \<open>Variable-length integers\<close>

definition MAX_VAR_INT :: u64 where
  "MAX_VAR_INT = 4611686018427387903"

definition octets_varint_len :: "u64 \<Rightarrow> usize run" where
  "octets_varint_len v =
     (if v \<le> 63 then Returns 1
      else if v \<le> 16383 then Returns 2
      else if v \<le> 1073741823 then Returns 4
      else if v \<le> MAX_VAR_INT then Returns 8
      else Panics)"

definition varint_parse_len :: "u8 \<Rightarrow> usize" where
  "varint_parse_len first =
     (let top = drop_bit 6 first
      in if top = 0 then 1 else if top = 1 then 2 else if top = 2 then 4 else 8)"

definition get_varint :: "octets \<Rightarrow> octets_error + (u64 \<times> octets)" where
  "get_varint b =
     res_bind (peek_u8 b) (\<lambda>first.
       let len = varint_parse_len first
       in if len > cap b then Inl BufferTooShortError
          else if len = 1 then res_bind (get_u8 b) (\<lambda>(v, b'). Inr (ucast v, b'))
          else if len = 2 then res_bind (get_u16 b) (\<lambda>(v, b'). Inr (ucast (v AND 0x3fff), b'))
          else if len = 4 then res_bind (get_u32 b) (\<lambda>(v, b'). Inr (ucast (v AND 0x3fffffff), b'))
          else res_bind (get_u64 b) (\<lambda>(v, b'). Inr (v AND 0x3fffffffffffffff, b')))"

text \<open>
  \<^verbatim>\<open>put_varint_with_len\<close> writes the plain big-endian value and then sets the two length bits on
  the first byte it wrote (\<^verbatim>\<open>buf[0] |= 0x40\<close> and so on).
\<close>

definition or_byte :: "octets \<Rightarrow> usize \<Rightarrow> u8 \<Rightarrow> octets" where
  "or_byte b at m = b\<lparr>buf := (buf b)[at := (buf b ! at) OR m]\<rparr>"

definition put_varint_with_len :: "octets \<Rightarrow> u64 \<Rightarrow> usize \<Rightarrow> (octets_error + octets) run" where
  "put_varint_with_len b v len =
     (if cap b < len then Returns (Inl BufferTooShortError)
      else if len = 1 then Returns (put_u8 b (ucast v))
      else if len = 2 then
        Returns (res_bind (put_u16 b (ucast v)) (\<lambda>b'. Inr (or_byte b' (off b) 0x40)))
      else if len = 4 then
        Returns (res_bind (put_u32 b (ucast v)) (\<lambda>b'. Inr (or_byte b' (off b) 0x80)))
      else if len = 8 then
        Returns (res_bind (put_u64 b v) (\<lambda>b'. Inr (or_byte b' (off b) 0xc0)))
      else Panics)"

definition put_varint :: "octets \<Rightarrow> u64 \<Rightarrow> (octets_error + octets) run" where
  "put_varint b v = run_bind (octets_varint_len v) (put_varint_with_len b v)"

subsection \<open>Byte runs\<close>

definition get_bytes :: "octets \<Rightarrow> usize \<Rightarrow> octets_error + (octets \<times> octets)" where
  "get_bytes b len =
     (if cap b < len then Inl BufferTooShortError
      else Inr (\<lparr>buf = take len (drop (off b) (buf b)), off = 0\<rparr>, b\<lparr>off := off b + len\<rparr>))"

definition put_bytes :: "octets \<Rightarrow> bytes \<Rightarrow> octets_error + octets" where
  "put_bytes b v =
     (let len = length v
      in if cap b < len then Inl BufferTooShortError
         else if len = 0 then Inr b
         else Inr (b\<lparr>buf := overwrite (buf b) (off b) v, off := off b + len\<rparr>))"

subsection \<open>Cursors as a pair of written and remaining bytes\<close>

text \<open>
  A cursor whose offset is inside its buffer is the pair of the bytes before the offset and the
  bytes after it. Every operation has one equation over this view, which is what the clients use.
\<close>

definition cursor :: "bytes \<Rightarrow> bytes \<Rightarrow> octets" where
  "cursor w r = \<lparr>buf = w @ r, off = length w\<rparr>"

named_theorems cursor_simps

lemma with_slice_cursor [cursor_simps]: "with_slice b = cursor [] b"
  by (simp add: with_slice_def cursor_def)

lemma cap_cursor [cursor_simps]: "cap (cursor w r) = length r"
  by (simp add: cap_def cursor_def)

lemma to_vec_cursor [cursor_simps]: "to_vec (cursor w r) = r"
  by (simp add: to_vec_def cursor_def)

lemma buf_cursor [cursor_simps]: "buf (cursor w r) = w @ r"
  by (simp add: cursor_def)

lemma off_cursor [cursor_simps]: "off (cursor w r) = length w"
  by (simp add: cursor_def)

lemma cursor_surj: "off b \<le> length (buf b) \<Longrightarrow> b = cursor (take (off b) (buf b)) (drop (off b) (buf b))"
  by (simp add: cursor_def)

lemma peek_u_cursor:
  "peek_u (cursor w r) n = (if length r < n then Inl BufferTooShortError else Inr (be_word (take n r)))"
  by (simp add: peek_u_def cursor_def)

lemma get_u_cursor:
  "get_u (cursor w r) n =
     (if length r < n then Inl BufferTooShortError
      else Inr (be_word (take n r), cursor (w @ take n r) (drop n r)))"
  by (simp add: get_u_def peek_u_cursor) (simp add: cursor_def)

lemma overwrite_cursor:
  "length src \<le> length r \<Longrightarrow> overwrite (w @ r) (length w) src = w @ src @ drop (length src) r"
  by (simp add: overwrite_def)

lemma put_u_cursor:
  "put_u (cursor w r) v n =
     (if length r < n then Inl BufferTooShortError
      else Inr (cursor (w @ word_be n v) (drop n r)))"
  by (simp add: put_u_def cursor_def overwrite_cursor)

lemma get_bytes_cursor [cursor_simps]:
  "get_bytes (cursor w r) n =
     (if length r < n then Inl BufferTooShortError
      else Inr (cursor [] (take n r), cursor (w @ take n r) (drop n r)))"
  by (simp add: get_bytes_def cursor_def cap_def)

lemma put_bytes_cursor [cursor_simps]:
  "put_bytes (cursor w r) v =
     (if length r < length v then Inl BufferTooShortError
      else Inr (cursor (w @ v) (drop (length v) r)))"
  by (auto simp add: put_bytes_def cursor_def cap_def overwrite_cursor Let_def)

lemma get_u8_cursor [cursor_simps]:
  "get_u8 (cursor w r) = (case r of [] \<Rightarrow> Inl BufferTooShortError | b # bs \<Rightarrow> Inr (b, cursor (w @ [b]) bs))"
  by (cases r) (simp_all add: get_u8_def get_u_cursor be_word_def)

lemma peek_u8_cursor: "peek_u8 (cursor w (b # r)) = Inr b"
  by (simp add: peek_u8_def peek_u_cursor be_word_def)

lemma put_u8_cursor [cursor_simps]:
  "put_u8 (cursor w r) v =
     (case r of [] \<Rightarrow> Inl BufferTooShortError | b # bs \<Rightarrow> Inr (cursor (w @ [v]) bs))"
  by (cases r) (simp_all add: put_u8_def put_u_cursor)

subsection \<open>The wire form of a variable-length integer\<close>

text \<open>
  The format of RFC 9000, section 16: the two high bits of the first byte give the length, the
  remaining bits the value in network order.
\<close>

definition or_head :: "u8 \<Rightarrow> bytes \<Rightarrow> bytes" where
  "or_head m bs = (case bs of [] \<Rightarrow> [] | b # bs' \<Rightarrow> (b OR m) # bs')"

definition varint_bytes :: "u64 \<Rightarrow> bytes" where
  "varint_bytes v =
     (if v \<le> 63 then [ucast v]
      else if v \<le> 16383 then or_head 0x40 (word_be 2 (ucast v :: u16))
      else if v \<le> 1073741823 then or_head 0x80 (word_be 4 (ucast v :: u32))
      else or_head 0xc0 (word_be 8 v))"

lemma length_or_head [simp]: "length (or_head m bs) = length bs"
  by (simp add: or_head_def split: list.split)

lemma or_byte_cursor:
  "x \<noteq> [] \<Longrightarrow> or_byte (cursor (w @ x) r) (length w) m = cursor (w @ or_head m x) r"
  by (cases x) (simp_all add: or_byte_def cursor_def or_head_def)

lemma varint_len_bytes: "v \<le> MAX_VAR_INT \<Longrightarrow> octets_varint_len v = Returns (length (varint_bytes v))"
  by (simp add: octets_varint_len_def varint_bytes_def)

lemma put_varint_cursor [cursor_simps]:
  "put_varint (cursor w r) v =
     (if v > MAX_VAR_INT then Panics
      else if length r < length (varint_bytes v) then Returns (Inl BufferTooShortError)
      else Returns (Inr (cursor (w @ varint_bytes v) (drop (length (varint_bytes v)) r))))"
proof -
  have ne: "word_be 2 a \<noteq> []" "word_be 4 b \<noteq> []" "word_be 8 c \<noteq> []"
    for a :: u16 and b :: u32 and c :: u64
    by (metis length_word_be length_0_conv zero_neq_numeral)+
  have big: "1073741823 < v \<and> 16383 < v \<and> 63 < v" if "4611686018427387903 < v"
    using that by (auto elim: order.strict_trans [rotated])
  show ?thesis
    by (auto simp: put_varint_def octets_varint_len_def put_varint_with_len_def varint_bytes_def
        cap_cursor put_u8_cursor put_u16_def put_u32_def put_u64_def put_u_cursor off_cursor
        or_byte_cursor ne MAX_VAR_INT_def not_le dest: big split: list.splits)
qed

lemma be_word_acc_split: "be_word_acc acc bs = push_bit (8 * length bs) acc OR be_word_acc 0 bs"
proof (induction bs arbitrary: acc)
  case Nil
  show ?case by simp
next
  case (Cons b bs)
  have "be_word_acc acc (b # bs) = push_bit (8 * length bs) (push_bit 8 acc OR ucast b) OR be_word_acc 0 bs"
    by (simp add: Cons [of "push_bit 8 acc OR ucast b"])
  also have "\<dots> = push_bit (8 * Suc (length bs)) acc OR (push_bit (8 * length bs) (ucast b) OR be_word_acc 0 bs)"
    by (simp add: push_bit_or push_bit_push_bit ac_simps)
  also have "\<dots> = push_bit (8 * length (b # bs)) acc OR be_word_acc 0 (b # bs)"
    by (simp add: Cons [of "ucast b"])
  finally show ?case .
qed

lemma be_word_or_head:
  "bs \<noteq> [] \<Longrightarrow>
     (be_word (or_head m bs) :: 'a::len word) = push_bit (8 * (length bs - 1)) (ucast m) OR be_word bs"
proof (cases bs)
  case (Cons b bs')
  have "(be_word (or_head m bs) :: 'a word) = push_bit (8 * length bs') (ucast (b OR m)) OR be_word_acc 0 bs'"
    unfolding Cons or_head_def be_word_def by simp (rule be_word_acc_split)
  moreover have "(be_word bs :: 'a word) = push_bit (8 * length bs') (ucast b) OR be_word_acc 0 bs'"
    unfolding Cons be_word_def by simp (rule be_word_acc_split)
  ultimately show ?thesis
    by (simp add: Cons unsigned_or_eq push_bit_or ac_simps)
qed simp

text \<open>The first byte of a word in network order holds its highest eight bits.\<close>

lemma hd_word_be: "hd (word_be (Suc n) v) = ucast (drop_bit (8 * n) v)"
proof (induction n arbitrary: v)
  case 0
  show ?case by simp
next
  case (Suc n)
  have "hd (word_be (Suc (Suc n)) v) = hd (word_be (Suc n) (drop_bit 8 v))"
    by (subst word_be.simps(2)) (simp add: hd_append)
  also have "\<dots> = ucast (drop_bit (8 * n) (drop_bit 8 v))"
    by (rule Suc)
  finally show ?case by (simp add: drop_bit_drop_bit add.commute)
qed

lemma drop_bit_or_tag:
  assumes "drop_bit 6 x = (0 :: u8)"
  shows "drop_bit 6 (x OR m) = drop_bit 6 m"
  using assms by (simp add: drop_bit_or)

lemma low_bits_or:
  assumes "x < 2 ^ n" and "take_bit n m = 0" and "n < LENGTH('a)"
  shows "(m OR x) AND mask n = (x :: 'a::len word)"
proof -
  have "take_bit n x = x" using assms(1,3)
    by (metis less_mask_eq take_bit_eq_mask)
  then show ?thesis using assms(2) by (simp add: take_bit_or flip: take_bit_eq_mask)
qed

lemma get_varint_tagged:
  assumes "x \<noteq> []" and len: "varint_parse_len (hd x) = length x"
  shows "get_varint (cursor w (x @ r)) =
           Inr (take_bit (8 * length x - 2) (be_word x), cursor (w @ x) r)"
proof -
  have peek: "peek_u8 (cursor w (x @ r)) = Inr (hd x)"
    using assms(1) by (cases x) (simp_all add: peek_u8_cursor)
  have m: "(0x3fff :: u16) = mask 14" "(0x3fffffff :: u32) = mask 30" "(0x3fffffffffffffff :: u64) = mask 62"
    by (simp_all add: mask_eq_exp_minus_1)
  note get_varint_unfold = get_varint_def peek cap_cursor get_u8_def get_u16_def get_u32_def
    get_u64_def get_u_cursor m unsigned_take_bit_eq ucast_be_word
  consider "length x = 1" "drop_bit 6 (hd x) = 0" | "length x = 2" | "length x = 4" | "length x = 8"
    using len by (auto simp: varint_parse_len_def Let_def split: if_splits)
  then show ?thesis
  proof cases
    case 1
    then obtain b where x: "x = [b]" by (metis length_Suc_conv One_nat_def length_0_conv)
    then have "take_bit 6 b = b"
      using 1 by (simp add: take_bit_eq_self_iff_drop_bit_eq_0)
    then have "ucast b = (take_bit 6 (ucast b) :: u64)"
      by (metis unsigned_take_bit_eq)
    then show ?thesis
      using 1 len peek by (simp add: get_varint_def cap_cursor x get_u8_cursor be_word_def)
  qed (use len in \<open>simp_all add: get_varint_unfold flip: take_bit_eq_mask\<close>)
qed

text \<open>Reading back what \<^const>\<open>put_varint\<close> wrote.\<close>

lemma u64_less_of_le: "v \<le> 16383 \<Longrightarrow> unat v < 2 ^ 14" "v \<le> 1073741823 \<Longrightarrow> unat v < 2 ^ 30"
  "v \<le> 4611686018427387903 \<Longrightarrow> unat v < 2 ^ 62" for v :: u64
  by (simp_all add: word_le_nat_alt)

lemma take_bit_u64: "unat v < 2 ^ n \<Longrightarrow> take_bit n v = v" for v :: u64
  by (simp add: word_unat_eq_iff unsigned_take_bit_eq take_bit_nat_eq_self)

lemma drop_bit_u64: "unat v < 2 ^ n \<Longrightarrow> drop_bit n v = 0" for v :: u64
  using take_bit_u64 by (simp add: take_bit_eq_self_iff_drop_bit_eq_0)

lemma bit_u64_less:
  fixes v :: u64
  assumes "unat v < 2 ^ n" and "bit v k"
  shows "k < n"
  using assms(2) by (subst (asm) take_bit_u64 [OF assms(1), symmetric]) (simp add: bit_take_bit_iff)

lemma be_word_widen: "(be_word (word_be 2 x) :: u64) = ucast (x :: u16)"
    "(be_word (word_be 4 y) :: u64) = ucast (y :: u32)"
  using ucast_be_word [of "word_be 2 x", where 'a = 16 and 'b = 64]
    ucast_be_word [of "word_be 4 y", where 'a = 32 and 'b = 64]
  by simp_all

lemma varint_tag_case:
  fixes v :: u64
  assumes "x \<noteq> []" and "drop_bit 6 (hd x) = 0"
    and "be_word x = v" and "unat v < 2 ^ (8 * length x - 2)" and "length x \<le> 8"
    and "drop_bit 6 m = t" and "take_bit 6 m = 0"
    and "length x = (if t = 0 then 1 else if t = 1 then 2 else if t = 2 then 4 else 8)"
  shows "or_head m x \<noteq> [] \<and> varint_parse_len (hd (or_head m x)) = length (or_head m x) \<and>
         take_bit (8 * length (or_head m x) - 2) (be_word (or_head m x)) = v"
proof -
  have ne: "or_head m x \<noteq> []" using assms(1) by (cases x) (simp_all add: or_head_def)
  have "hd (or_head m x) = hd x OR m"
    using assms(1) by (cases x) (simp_all add: or_head_def)
  then have top: "drop_bit 6 (hd (or_head m x)) = t"
    using drop_bit_or_tag [OF assms(2)] assms(6) by (simp del: drop_bit_or)
  have no_low: "\<not> bit m k" if "k < 6" for k
    using assms(7) that by (metis bit_0_eq bit_take_bit_iff bot_apply bot_bool_def)
  have "be_word (or_head m x) = push_bit (8 * (length x - 1)) (ucast m) OR v"
    using be_word_or_head [OF assms(1), of m, where 'a = 64] assms(3) by simp
  moreover have "take_bit (8 * length x - 2) (push_bit (8 * (length x - 1)) (ucast m) :: u64) = 0"
    using no_low by (auto intro!: bit_eqI simp: bit_simps)
  ultimately have "take_bit (8 * length x - 2) (be_word (or_head m x)) = v"
    using take_bit_u64 [OF assms(4)] by (simp add: take_bit_or)
  then show ?thesis
    using ne top assms(8) by (simp add: varint_parse_len_def)
qed

lemma varint_tag_ok:
  assumes "v \<le> MAX_VAR_INT"
  shows "varint_bytes v \<noteq> [] \<and> varint_parse_len (hd (varint_bytes v)) = length (varint_bytes v) \<and>
         take_bit (8 * length (varint_bytes v) - 2) (be_word (varint_bytes v)) = v"
proof -
  have ne: "word_be (numeral n) a \<noteq> []" for n and a :: "'b::len word"
    by (metis length_word_be length_0_conv zero_neq_numeral)
  have hds: "hd (word_be 2 (ucast v :: u16)) = ucast (drop_bit 8 v)"
    "hd (word_be 4 (ucast v :: u32)) = ucast (drop_bit 24 v)"
    "hd (word_be 8 v) = ucast (drop_bit 56 v)"
    using hd_word_be [of 1 "ucast v :: u16"] hd_word_be [of 3 "ucast v :: u32"] hd_word_be [of 7 v]
    by (simp_all add: numeral_eq_Suc) (auto intro!: bit_eqI simp: bit_simps)
  consider "v \<le> 63" | "\<not> v \<le> 63" "v \<le> 16383" | "\<not> v \<le> 16383" "\<not> v \<le> 63" "v \<le> 1073741823"
    | "\<not> v \<le> 16383" "\<not> v \<le> 63" "\<not> v \<le> 1073741823"
    by blast
  then show ?thesis
  proof cases
    case 1
    then have small: "unat v < 2 ^ 6" by (simp add: word_le_nat_alt)
    have "drop_bit 6 (ucast v :: u8) = 0" "take_bit 6 (ucast (ucast v :: u8)) = v"
      by (rule bit_eqI; auto simp: bit_simps dest: bit_u64_less [OF small])+
    then show ?thesis
      using 1 by (simp add: varint_bytes_def varint_parse_len_def be_word_def)
  next
    case 2
    note small = u64_less_of_le(1) [OF 2(2)]
    have "drop_bit 6 (hd (word_be 2 (ucast v :: u16))) = 0" "ucast (ucast v :: u16) = v"
      unfolding hds by (rule bit_eqI; auto simp: bit_simps dest: bit_u64_less [OF small])+
    then show ?thesis
      using 2 small varint_tag_case [where x = "word_be 2 (ucast v :: u16)" and v = v and m = "0x40" and t = 1]
      by (simp add: varint_bytes_def ne be_word_widen)
  next
    case 3
    note small = u64_less_of_le(2) [OF 3(3)]
    have "drop_bit 6 (hd (word_be 4 (ucast v :: u32))) = 0" "ucast (ucast v :: u32) = v"
      unfolding hds by (rule bit_eqI; auto simp: bit_simps dest: bit_u64_less [OF small])+
    then show ?thesis
      using 3 small varint_tag_case [where x = "word_be 4 (ucast v :: u32)" and v = v and m = "0x80" and t = 2]
      by (simp add: varint_bytes_def ne be_word_widen)
  next
    case 4
    have small: "unat v < 2 ^ 62" using assms u64_less_of_le(3) by (simp add: MAX_VAR_INT_def)
    have "drop_bit 6 (hd (word_be 8 v)) = 0"
      unfolding hds by (rule bit_eqI; auto simp: bit_simps dest: bit_u64_less [OF small])+
    then show ?thesis
      using 4 small varint_tag_case [where x = "word_be 8 v" and v = v and m = "0xc0" and t = 3]
      by (simp add: varint_bytes_def ne)
  qed
qed

lemma get_varint_varint_bytes [cursor_simps]:
  "v \<le> MAX_VAR_INT \<Longrightarrow>
     get_varint (cursor w (varint_bytes v @ r)) = Inr (v, cursor (w @ varint_bytes v) r)"
  using varint_tag_ok by (simp add: get_varint_tagged)

text \<open>What \<^const>\<open>get_varint\<close> does on every input.\<close>

lemma varint_parse_len_bounds: "0 < varint_parse_len b" "varint_parse_len b \<le> 8"
  by (simp_all add: varint_parse_len_def Let_def)

lemma get_varint_cursor:
  "get_varint (cursor w r) =
     (case r of [] \<Rightarrow> Inl BufferTooShortError
      | b # _ \<Rightarrow> let n = varint_parse_len b
                  in if length r < n then Inl BufferTooShortError
                     else Inr (take_bit (8 * n - 2) (be_word (take n r)),
                               cursor (w @ take n r) (drop n r)))"
proof (cases r)
  case Nil
  then show ?thesis by (simp add: get_varint_def peek_u8_def peek_u_cursor)
next
  case (Cons b bs)
  let ?n = "varint_parse_len b"
  show ?thesis
  proof (cases "length r < ?n")
    case True
    then show ?thesis by (simp add: Cons get_varint_def peek_u8_cursor cap_cursor)
  next
    case False
    have "hd (take ?n r) = b" and "take ?n r \<noteq> []"
      using varint_parse_len_bounds [of b] by (simp_all add: Cons take_Cons split: nat.split)
    then have "get_varint (cursor w (take ?n r @ drop ?n r)) =
        Inr (take_bit (8 * ?n - 2) (be_word (take ?n r)), cursor (w @ take ?n r) (drop ?n r))"
      using get_varint_tagged [of "take ?n r" w "drop ?n r"] False by (simp add: min_def)
    then show ?thesis using False by (simp add: Cons Let_def)
  qed
qed

lemma get_varint_Inr:
  assumes "get_varint (cursor w r) = Inr (v, c)"
  obtains x r' where "r = x @ r'" and "c = cursor (w @ x) r'" and "x \<noteq> []"
    and "\<And>s. get_varint (cursor w (r @ s)) = Inr (v, cursor (w @ x) (r' @ s))"
proof -
  from assms obtain b bs where r: "r = b # bs"
    by (cases r) (simp_all add: get_varint_cursor)
  define n where "n = varint_parse_len b"
  have n: "n \<le> length r" and v: "v = take_bit (8 * n - 2) (be_word (take n r))"
    and c: "c = cursor (w @ take n r) (drop n r)"
    using assms by (auto simp: get_varint_cursor r n_def Let_def split: if_splits)
  have "take n r \<noteq> []" using varint_parse_len_bounds [of b] r by (simp add: n_def)
  moreover have "get_varint (cursor w (r @ s)) = Inr (v, cursor (w @ take n r) (drop n r @ s))" for s
  proof -
    have "take n (b # bs @ s) = take n (b # bs)" and "drop n (b # bs @ s) = drop n (b # bs) @ s"
      using n r take_append [of n "b # bs" s] drop_append [of n "b # bs" s] by simp_all
    then show ?thesis using n v by (simp add: get_varint_cursor r Let_def flip: n_def)
  qed
  ultimately show thesis using that [of "take n r" "drop n r"] c by simp
qed

lemma get_varint_le: "get_varint (cursor w r) = Inr (v, c) \<Longrightarrow> v \<le> MAX_VAR_INT"
proof -
  assume a: "get_varint (cursor w r) = Inr (v, c)"
  then obtain n where n: "n \<le> 8" and v: "v = take_bit (8 * n - 2) (be_word (take n r))"
    using varint_parse_len_bounds(2)
    by (auto simp: get_varint_cursor Let_def split: list.splits if_splits)
  have "unat v < 2 ^ (8 * n - 2)"
    by (simp add: v unsigned_take_bit_eq take_bit_nat_less_exp)
  also have "(2 :: nat) ^ (8 * n - 2) \<le> 2 ^ 62"
    using n by (intro power_increasing) auto
  finally show ?thesis by (simp add: word_le_nat_alt MAX_VAR_INT_def)
qed

end
