(* ===== verification/Net_Addr.thy ===== *)
theory Net_Addr
  imports Aether_Prelude
begin

text \<open>
  The address types of \<^verbatim>\<open>std::net\<close> as the engine uses them: an IPv4 address is a 32-bit word, an
  IPv6 address a 128-bit word, and \<^verbatim>\<open>octets()\<close> is the big-endian reading. A socket address is an
  address and a port (flow label and scope id are never set by the engine).
\<close>

type_synonym ipv4_addr = "32 word"
type_synonym ipv6_addr = "128 word"

datatype ip_addr = V4 ipv4_addr | V6 ipv6_addr

record socket_addr =
  sa_ip :: ip_addr
  sa_port :: u16

definition v4_octets :: "ipv4_addr \<Rightarrow> bytes" where
  "v4_octets a = word_be 4 a"

definition v6_octets :: "ipv6_addr \<Rightarrow> bytes" where
  "v6_octets a = word_be 16 a"

definition v4_new :: "u8 \<Rightarrow> u8 \<Rightarrow> u8 \<Rightarrow> u8 \<Rightarrow> ipv4_addr" where
  "v4_new a b c d = be_word [a, b, c, d]"

lemma length_v4_octets [simp]: "length (v4_octets a) = 4"
  by (simp add: v4_octets_def)

lemma length_v6_octets [simp]: "length (v6_octets a) = 16"
  by (simp add: v6_octets_def)

lemma be_word_v4_octets [simp]: "be_word (v4_octets a) = a"
  by (simp add: v4_octets_def)

lemma be_word_v6_octets [simp]: "be_word (v6_octets a) = a"
  unfolding v6_octets_def by (rule be_word_full) simp

lemma be_word_acc_inject:
  assumes "length xs = length ys" and "be_nat xs = be_nat ys"
  shows "xs = ys"
  using assms
proof (induction xs arbitrary: ys rule: rev_induct)
  case Nil
  then show ?case by simp
next
  case (snoc x xs)
  then obtain y ys' where ys: "ys = ys' @ [y]"
    by (metis length_append_singleton length_Suc_conv_rev)
  then have eq: "256 * be_nat xs + unat x = 256 * be_nat ys' + unat y"
    using snoc.prems by (simp add: be_nat_snoc)
  then have "unat x = unat y"
    by (metis mod_mult_self4 mod_less unat_u8_less)
  moreover from this eq have "be_nat xs = be_nat ys'" by simp
  ultimately show ?case
    using snoc ys by (simp add: word_unat_eq_iff)
qed

lemma word_be_be_word:
  assumes "8 * length xs = LENGTH('a)"
  shows "word_be (length xs) (be_word xs :: 'a::len word) = xs"
proof (rule be_word_acc_inject)
  have "be_nat xs < 2 ^ LENGTH('a)"
    using be_nat_less [of xs] by (simp add: power_mult flip: assms)
  then show "be_nat (word_be (length xs) (be_word xs :: 'a word)) = be_nat xs"
    by (simp add: be_nat_word_be unat_be_word take_bit_nat_eq_self assms)
qed simp

lemma v4_octets_be_word: "length xs = 4 \<Longrightarrow> v4_octets (be_word xs) = xs"
  using word_be_be_word [of xs, where 'a = 32] by (simp add: v4_octets_def)

lemma v6_octets_be_word: "length xs = 16 \<Longrightarrow> v6_octets (be_word xs) = xs"
  using word_be_be_word [of xs, where 'a = 128] by (simp add: v6_octets_def)

end
