(* ===== verification/Checksum.thy ===== *)
theory Checksum
  imports Aether_Prelude
begin

text \<open>
  The Internet checksum, as \<^verbatim>\<open>masque.rs\<close> computes it over an IPv4 header: a 32-bit sum of 16-bit
  words, carries folded back until none is left, complemented. The lemmas show that it is the one's
  complement sum, and that a header which carries its own checksum sums to zero.
\<close>

text \<open>The loop over pairs of bytes, and the odd byte at the end as the high half of a word.\<close>

fun sum_be16 :: "u32 \<Rightarrow> bytes \<Rightarrow> u32" where
  "sum_be16 s (a # b # bs) = sum_be16 (s + ucast (be_word [a, b] :: u16)) bs"
| "sum_be16 s [a] = s + push_bit 8 (ucast a)"
| "sum_be16 s [] = s"

text \<open>\<^verbatim>\<open>while (sum >> 16) != 0\<close>.\<close>

lemma fold_carry_step:
  fixes s :: u32
  shows "unat ((s AND 0xffff) + drop_bit 16 s) = unat s mod 65536 + unat s div 65536"
proof -
  have m: "unat (s AND 0xffff) = unat s mod 65536"
  proof -
    have "(0xffff :: u32) = mask 16" by (simp add: mask_eq_exp_minus_1)
    then have "s AND 0xffff = take_bit 16 s" by (simp add: take_bit_eq_mask)
    then show ?thesis by (simp only: unsigned_take_bit_eq) (simp add: take_bit_eq_mod)
  qed
  have d: "unat (drop_bit 16 s) = unat s div 65536"
    by (subst unat_drop_bit_eq) (simp add: drop_bit_eq_div)
  have "unat s div 65536 < 65536" by (rule less_mult_imp_div_less) simp
  moreover have "unat s mod 65536 < 65536" by simp
  ultimately have "unat s mod 65536 + unat s div 65536 < 2 ^ 32" by simp
  then show ?thesis
    by (subst unat_add_lem [THEN iffD1]) (simp_all add: m d)
qed

lemma drop_bit_16_nz: "drop_bit 16 (s :: u32) \<noteq> 0 \<longleftrightarrow> 65536 \<le> unat s"
proof -
  have "drop_bit 16 s = 0 \<longleftrightarrow> unat (drop_bit 16 s) = 0" by (simp add: unat_eq_0)
  also have "\<dots> \<longleftrightarrow> unat s div 65536 = 0"
    by (subst unat_drop_bit_eq) (simp add: drop_bit_eq_div)
  finally show ?thesis by (simp add: div_eq_0_iff) linarith
qed

lemma carry_less: "65536 \<le> n \<Longrightarrow> n mod 65536 + n div 65536 < (n :: nat)"
proof -
  assume "65536 \<le> n"
  then have "1 \<le> n div 65536" by (simp add: Suc_le_eq div_greater_zero_iff)
  then show ?thesis using div_mult_mod_eq [of n 65536] by linarith
qed

function fold_carries :: "u32 \<Rightarrow> u32" where
  "fold_carries s =
     (if drop_bit 16 s \<noteq> 0 then fold_carries ((s AND 0xffff) + drop_bit 16 s) else s)"
  by pat_completeness (simp only:)
termination
  by (relation "measure unat") (simp_all only: in_measure wf_measure drop_bit_16_nz fold_carry_step carry_less)

declare fold_carries.simps [simp del]

definition ipv4_header_checksum :: "bytes \<Rightarrow> u16" where
  "ipv4_header_checksum header = NOT (ucast (fold_carries (sum_be16 0 header)))"

subsection \<open>The one's complement sum\<close>

text \<open>The same sum in unbounded arithmetic.\<close>

fun word_sum :: "bytes \<Rightarrow> nat" where
  "word_sum (a # b # bs) = be_nat [a, b] + word_sum bs"
| "word_sum [a] = 256 * unat a"
| "word_sum [] = 0"

lemma word_sum_le: "word_sum bs \<le> 65535 * length bs"
proof (induction bs rule: word_sum.induct)
  case (1 a b bs)
  have "be_nat [a, b] < 65536" using be_nat_less [of "[a, b]"] by simp
  with 1 show ?case by simp
next
  case (2 a)
  have "unat a \<le> 255" using unat_u8_less [of a] by linarith
  then show ?case by simp
qed simp

lemma word_sum_append: "even (length xs) \<Longrightarrow> word_sum (xs @ ys) = word_sum xs + word_sum ys"
  by (induction xs rule: word_sum.induct) auto

lemma unat_sum_be16:
  "unat s + word_sum bs < 2 ^ 32 \<Longrightarrow> unat (sum_be16 s bs) = unat s + word_sum bs"
proof (induction s bs rule: sum_be16.induct)
  case (1 s a b bs)
  have w: "unat (ucast (be_word [a, b] :: u16) :: u32) = be_nat [a, b]"
    using ucast_be_word [of "[a, b]", where 'a = 16 and 'b = 32] unat_be_word [of "[a, b]", where 'a = 32]
    by simp
  have "unat (s + ucast (be_word [a, b] :: u16)) = unat s + be_nat [a, b]"
    using "1.prems" by (subst unat_add_lem [THEN iffD1]) (simp_all add: w)
  then show ?case using 1 by simp
next
  case (2 s a)
  have "unat a \<le> 255" using unat_u8_less [of a] by linarith
  then have w: "unat (push_bit 8 (ucast a) :: u32) = 256 * unat a"
    by (subst unsigned_push_bit_eq)
      (simp add: unsigned_ucast_eq push_bit_eq_mult take_bit_nat_eq_self mult.commute)
  then show ?case
    using "2.prems" by simp (subst unat_add_lem [THEN iffD1], simp_all add: w)
qed simp

text \<open>Folding the carries computes the representative modulo 65535 that is not zero.\<close>

definition ones_sum :: "nat \<Rightarrow> nat" where
  "ones_sum n = (if n = 0 then 0 else (n - 1) mod 65535 + 1)"

lemma ones_sum_carry: "ones_sum (n mod 65536 + n div 65536) = ones_sum n"
proof (cases "n = 0")
  case False
  have n: "n = 65535 * (n div 65536) + (n mod 65536 + n div 65536)"
    using div_mult_mod_eq [of n 65536] by linarith
  with False have pos: "0 < n mod 65536 + n div 65536" by linarith
  then have "n - 1 = n mod 65536 + n div 65536 - 1 + 65535 * (n div 65536)"
    using n by linarith
  then have "(n - 1) mod 65535 = (n mod 65536 + n div 65536 - 1) mod 65535"
    by (metis mod_mult_self2)
  then show ?thesis using False pos unfolding ones_sum_def by presburger
qed (simp add: ones_sum_def)

lemma ones_sum_small: "n < 65536 \<Longrightarrow> ones_sum n = n"
  by (auto simp: ones_sum_def)

lemma unat_fold_carries: "unat (fold_carries s) = ones_sum (unat s)"
proof (induction s rule: fold_carries.induct)
  case (1 s)
  show ?case
  proof (cases "drop_bit 16 s \<noteq> 0")
    case True
    then have "unat (fold_carries s) = ones_sum (unat ((s AND 0xffff) + drop_bit 16 s))"
      using 1 by (subst fold_carries.simps) simp
    then show ?thesis by (simp only: fold_carry_step ones_sum_carry)
  next
    case False
    then have "unat s < 65536" using drop_bit_16_nz by (metis not_le)
    then show ?thesis using False by (subst fold_carries.simps) (simp add: ones_sum_small)
  qed
qed

lemma ones_sum_le: "ones_sum n \<le> 65535"
proof -
  have "(n - 1) mod 65535 < 65535" by (rule mod_less_divisor) simp
  then have "(n - 1) mod 65535 + 1 \<le> 65535" by linarith
  then show ?thesis by (simp only: ones_sum_def split: if_split) simp
qed

lemma unat_checksum:
  assumes "length header \<le> 65536"
  shows "unat (ipv4_header_checksum header) = 65535 - ones_sum (word_sum header)"
proof -
  have "word_sum header < 2 ^ 32" using word_sum_le [of header] assms by simp
  then have "unat (fold_carries (sum_be16 0 header)) = ones_sum (word_sum header)"
    by (simp add: unat_fold_carries unat_sum_be16)
  moreover have "unat (NOT (ucast w :: u16)) = 65535 - unat w" if "unat w \<le> 65535" for w :: u32
  proof -
    have u: "unat (ucast w :: u16) = unat w"
      using that by (simp add: unsigned_ucast_eq take_bit_nat_eq_self)
    have "NOT (ucast w :: u16) = - 1 - ucast w" by (simp add: not_eq_complement)
    also have "unat \<dots> = unat (- 1 :: u16) - unat (ucast w :: u16)"
      by (rule unat_sub) simp
    finally show ?thesis by (simp add: u unsigned_minus_1_eq_mask mask_eq_exp_minus_1)
  qed
  ultimately show ?thesis using ones_sum_le by (simp add: ipv4_header_checksum_def)
qed

text \<open>
  A header whose checksum field was zero, with the computed checksum stored in that field, has
  checksum zero: this is the test a receiver makes.
\<close>

lemma checksum_verifies:
  assumes "even (length a)" and "length a + 2 + length b \<le> 65536"
  shows "ipv4_header_checksum
           (a @ word_be 2 (ipv4_header_checksum (a @ [0, 0] @ b)) @ b) = 0"
proof -
  let ?c = "ipv4_header_checksum (a @ [0, 0] @ b)"
  define n where "n = word_sum a + word_sum b"
  have two: "word_sum (word_be 2 c @ b) = unat c + word_sum b" for c :: u16
  proof -
    obtain x y where xy: "word_be 2 c = [x, y]"
      using word_be_2 by blast
    then show ?thesis using be_nat_u16 [of c] by simp
  qed
  have c: "unat ?c = 65535 - ones_sum n"
    using assms by (simp add: unat_checksum word_sum_append n_def be_nat_2)
  have "ones_sum (n + (65535 - ones_sum n)) = 65535"
  proof (cases "n = 0")
    case False
    define k where "k = (n - 1) mod 65535"
    have k: "k < 65535" unfolding k_def by (rule mod_less_divisor) simp
    have os: "ones_sum n = k + 1" using False by (simp add: ones_sum_def k_def)
    have "n - 1 = k + 65535 * ((n - 1) div 65535)"
      unfolding k_def by simp
    then have "n + (65535 - ones_sum n) - 1 = 65534 + 65535 * ((n - 1) div 65535)"
      using False k os by linarith
    then have "(n + (65535 - ones_sum n) - 1) mod 65535 = 65534 mod 65535"
      by (metis mod_mult_self2)
    then show ?thesis using False by (simp add: ones_sum_def)
  qed (simp add: ones_sum_def)
  moreover have "unat (ipv4_header_checksum (a @ word_be 2 ?c @ b)) =
      65535 - ones_sum (word_sum a + (unat ?c + word_sum b))"
    using assms by (subst unat_checksum) (simp_all add: word_sum_append two)
  ultimately have "unat (ipv4_header_checksum (a @ word_be 2 ?c @ b)) = 0"
    unfolding c by (simp add: n_def ac_simps)
  then show ?thesis by (simp add: unat_eq_0)
qed

end
