(* ===== verification/Masque_Proto.thy ===== *)
theory Masque_Proto
  imports Octets Net_Addr Checksum
begin

text \<open>
  \<^verbatim>\<open>aether/src/masque.rs\<close>: HTTP datagrams and the capsule stream of a CONNECT-IP request, and the
  DNS probe packet that the tunnel sends to validate its data plane. Random draws
  (\<^verbatim>\<open>rand::random\<close>, \<^verbatim>\<open>random_range\<close>) are arguments.
\<close>

subsection \<open>Capsule types\<close>

definition CAPSULE_DATAGRAM :: u64 where
  "CAPSULE_DATAGRAM = 0"

definition CAPSULE_ADDRESS_ASSIGN :: u64 where
  "CAPSULE_ADDRESS_ASSIGN = 1"

definition CAPSULE_ADDRESS_REQUEST :: u64 where
  "CAPSULE_ADDRESS_REQUEST = 2"

definition CAPSULE_ROUTE_ADVERTISEMENT :: u64 where
  "CAPSULE_ROUTE_ADVERTISEMENT = 3"

definition CONNECT_IP_CONTEXT_ID :: u64 where
  "CONNECT_IP_CONTEXT_ID = 0"

record assigned_address =
  aa_request_id :: u64
  aa_ip_version :: u8
  aa_address :: bytes
  aa_prefix_len :: u8

record route_advertisement =
  ra_ip_version :: u8
  ra_start :: bytes
  ra_end :: bytes
  ra_protocol :: u8

datatype capsule =
    AddressAssign "assigned_address list"
  | AddressRequest
  | Datagram bytes
  | RouteAdvertisement "route_advertisement list"
  | Unknown u64 bytes

subsection \<open>HTTP datagrams\<close>

definition quarter_stream_id :: "u64 \<Rightarrow> u64" where
  "quarter_stream_id stream_id = stream_id div 4"

definition masque_varint_len :: "u64 \<Rightarrow> usize" where
  "masque_varint_len v =
     (if v < 64 then 1 else if v < 16384 then 2 else if v < 1073741824 then 4 else 8)"

definition oct :: "octets_error \<Rightarrow> aether_error" where
  "oct e = (case e of BufferTooShortError \<Rightarrow> Capsule ''BufferTooShortError'')"

definition map_oct :: "octets_error + 'a \<Rightarrow> 'a result" where
  "map_oct r = (case r of Inl e \<Rightarrow> Inl (oct e) | Inr a \<Rightarrow> Inr a)"

definition encode_ip_datagram :: "u64 \<Rightarrow> bytes \<Rightarrow> bytes result run" where
  "encode_ip_datagram stream_id ip_packet =
     (let qsid = quarter_stream_id stream_id;
          ctx = CONNECT_IP_CONTEXT_ID;
          n = masque_varint_len qsid + masque_varint_len ctx + length ip_packet;
          b0 = with_slice (replicate n 0)
      in run_bind (put_varint b0 qsid) (\<lambda>r1.
         case map_oct r1 of Inl e \<Rightarrow> Returns (Inl e) | Inr b1 \<Rightarrow>
         run_bind (put_varint b1 ctx) (\<lambda>r2.
         case map_oct r2 of Inl e \<Rightarrow> Returns (Inl e) | Inr b2 \<Rightarrow>
         Returns (res_bind (map_oct (put_bytes b2 ip_packet)) (\<lambda>b3. Inr (buf b3))))))"

definition decode_ip_datagram :: "bytes \<Rightarrow> u64 \<Rightarrow> bytes option result" where
  "decode_ip_datagram datagram expect_stream_id =
     res_bind (map_oct (get_varint (with_slice datagram))) (\<lambda>(qsid, b1).
       if qsid \<noteq> quarter_stream_id expect_stream_id then Inr None
       else res_bind (map_oct (get_varint b1)) (\<lambda>(ctx, b2).
         if ctx \<noteq> CONNECT_IP_CONTEXT_ID then Inr None
         else res_bind (map_oct (get_bytes b2 (cap b2))) (\<lambda>(payload, b3).
           Inr (Some (to_vec payload)))))"

subsection \<open>Writing capsules\<close>

definition capsule_len :: "u64 \<Rightarrow> bytes \<Rightarrow> usize" where
  "capsule_len kind v = masque_varint_len kind + masque_varint_len (of_nat (length v)) + length v"

text \<open>
  \<^verbatim>\<open>let _ = b.put_varint(...)\<close>: an error leaves the cursor where it was and is dropped, a panic is
  not.
\<close>

definition ignore_err :: "octets \<Rightarrow> octets_error + octets \<Rightarrow> octets" where
  "ignore_err b r = (case r of Inl e \<Rightarrow> b | Inr b' \<Rightarrow> b')"

definition append_capsule :: "bytes \<Rightarrow> u64 \<Rightarrow> bytes \<Rightarrow> bytes run" where
  "append_capsule out kind v =
     (let b0 = with_slice (replicate (capsule_len kind v) 0)
      in run_bind (put_varint b0 kind) (\<lambda>r1. let b1 = ignore_err b0 r1 in
         run_bind (put_varint b1 (of_nat (length v))) (\<lambda>r2. let b2 = ignore_err b1 r2 in
         Returns (out @ buf (ignore_err b2 (put_bytes b2 v))))))"

definition encode_capsule :: "u64 \<Rightarrow> bytes \<Rightarrow> bytes run" where
  "encode_capsule kind v = append_capsule [] kind v"

definition encode_address_request :: "u64 \<Rightarrow> u8 \<Rightarrow> u8 \<Rightarrow> bytes run" where
  "encode_address_request request_id ip_version prefix_len =
     (let b0 = with_slice (replicate (masque_varint_len request_id + 1 + 1) 0)
      in run_bind (put_varint b0 request_id) (\<lambda>r1. let b1 = ignore_err b0 r1;
           b2 = ignore_err b1 (put_u8 b1 ip_version);
           b3 = ignore_err b2 (put_u8 b2 prefix_len)
         in encode_capsule CAPSULE_ADDRESS_REQUEST (buf b3)))"

definition encode_datagram_capsule :: "bytes \<Rightarrow> bytes run" where
  "encode_datagram_capsule ip_packet = encode_capsule CAPSULE_DATAGRAM ip_packet"

definition append_datagram_capsule :: "bytes \<Rightarrow> bytes \<Rightarrow> bytes run" where
  "append_datagram_capsule out ip_packet = append_capsule out CAPSULE_DATAGRAM ip_packet"

subsection \<open>Datagram payloads\<close>

definition looks_like_ip_packet :: "bytes \<Rightarrow> bool" where
  "looks_like_ip_packet data =
     (case data of [] \<Rightarrow> False
      | first # _ \<Rightarrow> (drop_bit 4 first = 4 \<or> drop_bit 4 first = 6) \<and> 20 \<le> length data)"

definition strip_datagram_context :: "bytes \<Rightarrow> bytes option" where
  "strip_datagram_context payload =
     (if payload = [] then None
      else let stripped =
             (case get_varint (with_slice payload) of
                Inl e \<Rightarrow> None
              | Inr (ctx, b) \<Rightarrow>
                  if ctx = CONNECT_IP_CONTEXT_ID then
                    let consumed = length payload - cap b;
                        inner = drop consumed payload
                    in if looks_like_ip_packet inner then Some inner else None
                  else None)
           in case stripped of
                Some inner \<Rightarrow> Some inner
              | None \<Rightarrow> if looks_like_ip_packet payload then Some payload else None)"

subsection \<open>Reading the capsule stream\<close>

definition MAX_CAPSULE_BUF :: usize where
  "MAX_CAPSULE_BUF = 256 * 1024"

record capsule_parser =
  cp_buf :: bytes

definition capsule_parser_new :: capsule_parser where
  "capsule_parser_new = \<lparr>cp_buf = []\<rparr>"

definition cp_push :: "capsule_parser \<Rightarrow> bytes \<Rightarrow> capsule_parser" where
  "cp_push p data =
     (if saturating_add (length (cp_buf p)) (length data) > MAX_CAPSULE_BUF
      then p\<lparr>cp_buf := []\<rparr>
      else p\<lparr>cp_buf := cp_buf p @ data\<rparr>)"

definition ip_version_len :: "u8 \<Rightarrow> usize result" where
  "ip_version_len ip_version =
     (if ip_version = 4 then Inr 4
      else if ip_version = 6 then Inr 16
      else Inl (Capsule (''bad ip version '' @ nat_dec (unat ip_version))))"

text \<open>One round of the loop of \<^verbatim>\<open>parse_address_assign\<close>.\<close>

definition parse_assigned :: "octets \<Rightarrow> (assigned_address \<times> octets) result" where
  "parse_assigned b =
     res_bind (map_oct (get_varint b)) (\<lambda>(request_id, b1).
     res_bind (map_oct (get_u8 b1)) (\<lambda>(ip_version, b2).
     res_bind (ip_version_len ip_version) (\<lambda>addr_len.
     res_bind (map_oct (get_bytes b2 addr_len)) (\<lambda>(address, b3).
     res_bind (map_oct (get_u8 b3)) (\<lambda>(prefix_len, b4).
       Inr (\<lparr>aa_request_id = request_id, aa_ip_version = ip_version,
             aa_address = to_vec address, aa_prefix_len = prefix_len\<rparr>, b4))))))"

text \<open>One round of the loop of \<^verbatim>\<open>parse_route_advertisement\<close>.\<close>

definition parse_route :: "octets \<Rightarrow> (route_advertisement \<times> octets) result" where
  "parse_route b =
     res_bind (map_oct (get_u8 b)) (\<lambda>(ip_version, b1).
     res_bind (ip_version_len ip_version) (\<lambda>addr_len.
     res_bind (map_oct (get_bytes b1 addr_len)) (\<lambda>(start, b2).
     res_bind (map_oct (get_bytes b2 addr_len)) (\<lambda>(end', b3).
     res_bind (map_oct (get_u8 b3)) (\<lambda>(protocol, b4).
       Inr (\<lparr>ra_ip_version = ip_version, ra_start = to_vec start,
             ra_end = to_vec end', ra_protocol = protocol\<rparr>, b4))))))"

lemma map_oct_simps [simp]:
  "map_oct (Inl BufferTooShortError) = Inl (Capsule ''BufferTooShortError'')"
  "map_oct (Inr a) = Inr a"
  by (simp_all add: map_oct_def oct_def)

lemma map_oct_Inr_iff [simp]: "map_oct r = Inr a \<longleftrightarrow> r = Inr a"
  by (cases r) (simp_all add: map_oct_def)

text \<open>Reading an entry consumes at least one byte, which is why both loops end.\<close>

lemma get_u8_Inr: "get_u8 (cursor w r) = Inr (v, c) \<longleftrightarrow> (\<exists>r'. r = v # r' \<and> c = cursor (w @ [v]) r')"
  by (auto simp: get_u8_cursor split: list.splits)

lemma get_bytes_Inr:
  "get_bytes (cursor w r) n = Inr (p, c) \<longleftrightarrow>
     n \<le> length r \<and> p = cursor [] (take n r) \<and> c = cursor (w @ take n r) (drop n r)"
  by (auto simp: get_bytes_cursor)

lemma parse_assigned_moves:
  assumes "parse_assigned (cursor w r) = Inr (a, c)"
  obtains x r' where "r = x @ r'" and "c = cursor (w @ x) r'" and "x \<noteq> []"
proof -
  from assms obtain v b1 where 1: "get_varint (cursor w r) = Inr (v, b1)"
    by (auto simp: parse_assigned_def res_bind_Inr_iff)
  from 1 obtain x1 r1 where r: "r = x1 @ r1" and b1: "b1 = cursor (w @ x1) r1" and ne: "x1 \<noteq> []"
    by (rule get_varint_Inr)
  from assms 1 obtain ver n r2 p r3 where 2: "r1 = ver # r2" and 3: "n \<le> length r2"
    and 4: "drop n r2 = p # r3" and c: "c = cursor (w @ x1 @ ver # take n r2 @ [p]) r3"
    by (auto simp: parse_assigned_def res_bind_Inr_iff b1 get_u8_Inr get_bytes_Inr)
  have "r = (x1 @ ver # take n r2 @ [p]) @ r3"
    using r 2 4 append_take_drop_id [of n r2] by (metis append.assoc append_Cons append_Nil)
  then show thesis by (rule that) (use c ne in auto)
qed

lemma parse_route_moves:
  assumes "parse_route (cursor w r) = Inr (a, c)"
  obtains x r' where "r = x @ r'" and "c = cursor (w @ x) r'" and "x \<noteq> []"
proof -
  from assms obtain ver n r1 p r3 where 1: "r = ver # r1" and 2: "n \<le> length r1"
    and 3: "n \<le> length (drop n r1)" and 4: "drop n (drop n r1) = p # r3"
    and c: "c = cursor (w @ ver # take n r1 @ take n (drop n r1) @ [p]) r3"
    by (auto simp: parse_route_def res_bind_Inr_iff get_u8_Inr get_bytes_Inr)
  have "r = (ver # take n r1 @ take n (drop n r1) @ [p]) @ r3"
    using 1 4 append_take_drop_id [of n r1] append_take_drop_id [of n "drop n r1"]
    by (metis append.assoc append_Cons append_Nil)
  then show thesis by (rule that) (use c in auto)
qed

lemma cursor_of_cap: "0 < cap b \<Longrightarrow> \<exists>w r. b = cursor w r"
  using cursor_surj [of b] by (metis cap_def less_imp_le_nat zero_less_diff)

lemma parse_assigned_less [termination_simp]:
  "0 < cap b \<Longrightarrow> parse_assigned b = Inr (a, c) \<Longrightarrow> cap c < cap b"
  by (drule cursor_of_cap) (auto elim!: parse_assigned_moves simp: cap_cursor)

lemma parse_route_less [termination_simp]:
  "0 < cap b \<Longrightarrow> parse_route b = Inr (a, c) \<Longrightarrow> cap c < cap b"
  by (drule cursor_of_cap) (auto elim!: parse_route_moves simp: cap_cursor)

function parse_address_assign_loop ::
    "octets \<Rightarrow> assigned_address list \<Rightarrow> assigned_address list result" where
  "parse_address_assign_loop b out =
     (if 0 < cap b then
        (case parse_assigned b of
           Inl e \<Rightarrow> Inl e
         | Inr (a, b') \<Rightarrow> parse_address_assign_loop b' (out @ [a]))
      else Inr out)"
  by pat_completeness auto
termination
  by (relation "measure (\<lambda>(b, out). cap b)") (auto simp: termination_simp)

definition parse_address_assign :: "bytes \<Rightarrow> assigned_address list result" where
  "parse_address_assign v = parse_address_assign_loop (with_slice v) []"

function parse_route_loop ::
    "octets \<Rightarrow> route_advertisement list \<Rightarrow> route_advertisement list result" where
  "parse_route_loop b out =
     (if 0 < cap b then
        (case parse_route b of
           Inl e \<Rightarrow> Inl e
         | Inr (a, b') \<Rightarrow> parse_route_loop b' (out @ [a]))
      else Inr out)"
  by pat_completeness auto
termination
  by (relation "measure (\<lambda>(b, out). cap b)") (auto simp: termination_simp)

definition parse_route_advertisement :: "bytes \<Rightarrow> route_advertisement list result" where
  "parse_route_advertisement v = parse_route_loop (with_slice v) []"

declare parse_address_assign_loop.simps [simp del] parse_route_loop.simps [simp del]

text \<open>
  \<^verbatim>\<open>CapsuleParser::next\<close>. The bytes of a complete capsule leave the buffer before its value is
  parsed, also when the value turns out to be malformed.
\<close>

definition decode_capsule :: "u64 \<Rightarrow> bytes \<Rightarrow> capsule result" where
  "decode_capsule kind v =
     (if kind = CAPSULE_ADDRESS_ASSIGN then
        res_bind (parse_address_assign v) (\<lambda>addrs. Inr (AddressAssign addrs))
      else if kind = CAPSULE_ADDRESS_REQUEST then Inr AddressRequest
      else if kind = CAPSULE_ROUTE_ADVERTISEMENT then
        res_bind (parse_route_advertisement v) (\<lambda>routes. Inr (RouteAdvertisement routes))
      else if kind = CAPSULE_DATAGRAM then Inr (Datagram v)
      else Inr (Unknown kind v))"

definition cp_next :: "capsule_parser \<Rightarrow> capsule option result \<times> capsule_parser" where
  "cp_next p =
     (case get_varint (with_slice (cp_buf p)) of
        Inl e \<Rightarrow> (Inr None, p)
      | Inr (kind, b1) \<Rightarrow>
          (case get_varint b1 of
             Inl e \<Rightarrow> (Inr None, p)
           | Inr (len, b2) \<Rightarrow>
               if cap b2 < unat len then (Inr None, p)
               else (case map_oct (get_bytes b2 (unat len)) of
                       Inl e \<Rightarrow> (Inl e, p)
                     | Inr (v, b3) \<Rightarrow>
                         (res_bind (decode_capsule kind (to_vec v)) (\<lambda>c. Inr (Some c)),
                          p\<lparr>cp_buf := drop (off b3) (cp_buf p)\<rparr>))))"

subsection \<open>The wire form of a capsule\<close>

definition capsule_wire :: "u64 \<Rightarrow> bytes \<Rightarrow> bytes" where
  "capsule_wire kind v = varint_bytes kind @ varint_bytes (of_nat (length v)) @ v"

text \<open>The length of a value that fits a capsule header.\<close>

abbreviation fits_capsule :: "bytes \<Rightarrow> bool" where
  "fits_capsule v \<equiv> length v < 2 ^ 62"

lemma masque_varint_len_bytes: "masque_varint_len v = length (varint_bytes v)"
proof -
  have "(v < 64) = (v \<le> 63)" "(v < 16384) = (v \<le> 16383)" "(v < 1073741824) = (v \<le> 1073741823)"
    by (simp_all add: word_less_nat_alt word_le_nat_alt) linarith+
  then show ?thesis by (simp add: masque_varint_len_def varint_bytes_def)
qed

lemma unat_of_nat_fits: "n < 2 ^ 62 \<Longrightarrow> unat (of_nat n :: u64) = n"
  by (simp add: unsigned_of_nat take_bit_nat_eq_self)

lemma of_nat_fits_le: "n < 2 ^ 62 \<Longrightarrow> (of_nat n :: u64) \<le> MAX_VAR_INT"
  using unat_of_nat_fits [of n] by (simp add: word_le_nat_alt MAX_VAR_INT_def)

lemma append_capsule_wire:
  assumes "kind \<le> MAX_VAR_INT" and "fits_capsule v"
  shows "append_capsule out kind v = Returns (out @ capsule_wire kind v)"
  using assms of_nat_fits_le [OF assms(2)]
  by (simp add: append_capsule_def capsule_len_def masque_varint_len_bytes cursor_simps
      ignore_err_def Let_def capsule_wire_def not_less)

text \<open>Reading a whole capsule off the front of the buffer, whatever follows it.\<close>

lemma cp_next_wire:
  assumes "kind \<le> MAX_VAR_INT" and "fits_capsule v" and "cp_buf p = capsule_wire kind v @ rest"
  shows "cp_next p = (res_bind (decode_capsule kind v) (\<lambda>c. Inr (Some c)), p\<lparr>cp_buf := rest\<rparr>)"
  using assms of_nat_fits_le [OF assms(2)] unat_of_nat_fits [OF assms(2)]
  by (simp add: cp_next_def capsule_wire_def cursor_simps)

text \<open>
  A capsule that could be read stays the same when more bytes arrive behind it, and a buffer that
  holds no whole capsule is left untouched.
\<close>

lemma cp_next_None: "fst (cp_next p) = Inr None \<Longrightarrow> snd (cp_next p) = p"
  by (auto simp: cp_next_def res_bind_def split: sum.splits prod.splits if_splits)

lemma cp_next_shape:
  obtains (wait) "cp_next p = (Inr None, p)"
  | (whole) kind v x rest where "cp_buf p = x @ rest" and "x \<noteq> []" and "fst (cp_next p) \<noteq> Inr None"
      and "\<And>q s. cp_buf q = cp_buf p @ s \<Longrightarrow>
             cp_next q = (res_bind (decode_capsule kind v) (\<lambda>c. Inr (Some c)), q\<lparr>cp_buf := rest @ s\<rparr>)"
proof (cases "cp_next p = (Inr None, p)")
  case False
  obtain kind b1 where g1: "get_varint (cursor [] (cp_buf p)) = Inr (kind, b1)"
    using False by (auto simp: cp_next_def with_slice_cursor split: sum.splits)
  from get_varint_Inr [OF g1] obtain x1 r1 where r1: "cp_buf p = x1 @ r1" and b1: "b1 = cursor x1 r1"
    and x1: "x1 \<noteq> []"
    and s1: "\<And>s. get_varint (cursor [] (cp_buf p @ s)) = Inr (kind, cursor x1 (r1 @ s))"
    by (metis append_Nil)
  obtain len b2 where g2: "get_varint (cursor x1 r1) = Inr (len, b2)"
    using False by (auto simp: cp_next_def with_slice_cursor g1 b1 split: sum.splits)
  from g2 obtain x2 r2 where r2: "r1 = x2 @ r2" and b2: "b2 = cursor (x1 @ x2) r2"
    and s2: "\<And>s. get_varint (cursor x1 (r1 @ s)) = Inr (len, cursor (x1 @ x2) (r2 @ s))"
    by (rule get_varint_Inr) blast
  have n: "unat len \<le> length r2"
    using False by (auto simp: cp_next_def with_slice_cursor g1 b1 g2 b2 cursor_simps split: if_splits)
  define v where "v = take (unat len) r2"
  define rest where "rest = drop (unat len) r2"
  have all: "cp_next q = (res_bind (decode_capsule kind v) (\<lambda>c. Inr (Some c)), q\<lparr>cp_buf := rest @ s\<rparr>)"
    if "cp_buf q = cp_buf p @ s" for q s
    using n r1 r2 s1 [of s] s2 [of s]
    by (simp add: cp_next_def that with_slice_cursor cursor_simps v_def rest_def)
  then have "fst (cp_next p) \<noteq> Inr None"
    using all [of p "[]"] by (cases "decode_capsule kind v") simp_all
  then show thesis
    using whole [of "x1 @ x2 @ v" rest kind v] all r1 r2 x1 by (simp add: v_def rest_def)
qed (rule wait)

subsection \<open>The DNS probe packet\<close>

definition dns_label :: "string \<Rightarrow> bytes" where
  "dns_label label = of_nat (length label) # as_bytes label"

definition probe_dns_query :: "u16 \<Rightarrow> bytes" where
  "probe_dns_query qid =
     word_be 2 qid @ [0x01, 0x00] @ [0x00, 0x01] @ [0x00, 0x00, 0x00, 0x00, 0x00, 0x00] @
     concat (map dns_label [''cloudflare'', ''com'']) @ [0x00] @ [0x00, 0x01] @ [0x00, 0x01]"

text \<open>
  \<^verbatim>\<open>build_dns_probe_packet\<close>: the draws are the identifier of the query, that of the IP header and
  the source port.
\<close>

definition build_dns_probe_packet :: "ipv4_addr \<Rightarrow> u16 \<Rightarrow> u16 \<Rightarrow> u16 \<Rightarrow> bytes" where
  "build_dns_probe_packet src dns_id ip_id sport =
     (let dns = probe_dns_query dns_id;
          udp_len = 8 + length dns;
          total_len = 20 + udp_len;
          pkt = [0x45, 0x00] @ word_be 2 (of_nat total_len :: u16) @ word_be 2 ip_id @ [0x00, 0x00] @
                [64, 17] @ [0x00, 0x00] @ v4_octets src @ v4_octets (v4_new 8 8 8 8);
          csum = ipv4_header_checksum (take 20 pkt);
          pkt = overwrite pkt 10 (word_be 2 csum)
      in pkt @ word_be 2 sport @ word_be 2 (53 :: u16) @ word_be 2 (of_nat udp_len :: u16) @
         [0x00, 0x00] @ dns)"

lemma length_probe_dns_query [simp]: "length (probe_dns_query qid) = 32"
  by (simp add: probe_dns_query_def dns_label_def)

text \<open>
  The header that is checksummed is ten bytes, the checksum field and eight bytes of addresses.
\<close>

lemma probe_packet_shape:
  "build_dns_probe_packet src dns_id ip_id sport =
     (let a = [0x45, 0x00] @ word_be 2 (60 :: u16) @ word_be 2 ip_id @ [0x00, 0x00, 64, 17];
          b = v4_octets src @ v4_octets (v4_new 8 8 8 8)
      in (a @ word_be 2 (ipv4_header_checksum (a @ [0, 0] @ b)) @ b) @
         word_be 2 sport @ word_be 2 (53 :: u16) @ word_be 2 (40 :: u16) @ [0x00, 0x00] @ probe_dns_query dns_id)"
proof -
  define a where "a = [0x45, 0x00] @ word_be 2 (60 :: u16) @ word_be 2 ip_id @ [0x00, 0x00, 64, 17]"
  define b where "b = v4_octets src @ v4_octets (v4_new 8 8 8 8)"
  have la: "length a = 10" and lb: "length b = 8" by (simp_all add: a_def b_def)
  have "overwrite (a @ [0, 0] @ b) 10 (word_be 2 c) = a @ word_be 2 c @ b" for c :: u16
    by (simp add: overwrite_def la)
  moreover have "take 20 (a @ [0, 0] @ b) = a @ [0, 0] @ b" by (simp add: la lb)
  moreover have "build_dns_probe_packet src dns_id ip_id sport =
      overwrite (a @ [0, 0] @ b) 10 (word_be 2 (ipv4_header_checksum (take 20 (a @ [0, 0] @ b)))) @
      word_be 2 sport @ word_be 2 (53 :: u16) @ word_be 2 (40 :: u16) @ [0x00, 0x00] @ probe_dns_query dns_id"
    by (simp add: build_dns_probe_packet_def Let_def a_def b_def)
  ultimately show ?thesis unfolding Let_def a_def [symmetric] b_def [symmetric] by simp
qed

subsection \<open>Properties\<close>

lemma quarter_stream_id_le: "quarter_stream_id sid \<le> MAX_VAR_INT"
proof -
  have "unat (sid div 4) = unat sid div 4" by (simp add: unat_div)
  moreover have "unat sid < 2 ^ 64" using unsigned_less [of sid] by simp
  ultimately show ?thesis
    by (simp add: quarter_stream_id_def MAX_VAR_INT_def word_le_nat_alt)
qed

lemma varint_bytes_0: "varint_bytes 0 = [0]"
  by (simp add: varint_bytes_def)

text \<open>
  A packet the tunnel carries: IPv4 or IPv6, at most 65535 bytes, and not starting with the byte
  0x40, which would be an IPv4 header of no length.
\<close>

definition ip_packet_ok :: "bytes \<Rightarrow> bool" where
  "ip_packet_ok pkt \<longleftrightarrow> looks_like_ip_packet pkt \<and> hd pkt \<noteq> 0x40 \<and> length pkt \<le> 65535"

lemma nibble_cases:
  assumes "drop_bit 4 (b :: u8) = 4 \<or> drop_bit 4 b = 6"
  shows "unat b div 16 = 4 \<or> unat b div 16 = 6"
proof -
  have "unat (drop_bit 4 b) = unat b div 16" using unat_drop_bit_div [of 4 b] by simp
  with assms show ?thesis by auto
qed

lemma ip_context_varint:
  assumes "drop_bit 4 b = 4 \<or> drop_bit 4 b = 6" and "b \<noteq> 0x40"
  shows "get_varint (cursor [] (b # c # r)) = Inr (ctx, b') \<Longrightarrow> ctx \<noteq> 0"
proof -
  assume g: "get_varint (cursor [] (b # c # r)) = Inr (ctx, b')"
  have "unat b \<noteq> unat (0x40 :: u8)" using assms(2) by (metis unsigned_word_eqI)
  then have "unat b \<noteq> 64" by simp
  then have b: "64 < unat b \<and> unat b < 128" using nibble_cases [OF assms(1)] by linarith
  have "unat (drop_bit 6 b) = unat b div 64" using unat_drop_bit_div [of 6 b] by simp
  moreover have "unat b div 64 = 1" using b by auto
  ultimately have "drop_bit 6 b = 1" by (metis unsigned_1 unsigned_word_eqI)
  then have "varint_parse_len b = 2" by (simp add: varint_parse_len_def)
  then have ctx: "ctx = take_bit 14 (be_word [b, c])"
    using g by (simp add: get_varint_cursor)
  have "unat (be_word [b, c] :: u64) = 256 * unat b + unat c"
    by (simp add: unat_be_word be_nat_2)
  then have "unat ctx = (256 * unat b + unat c) mod 16384"
    by (simp only: ctx unsigned_take_bit_eq) (simp add: take_bit_eq_mod)
  also have "256 * unat b + unat c = (256 * (unat b - 64) + unat c) + 16384" using b by linarith
  also have "\<dots> mod 16384 = 256 * (unat b - 64) + unat c"
    using b unat_u8_less [of c] by (simp only: mod_add_self2) (rule mod_less, linarith)
  finally show ?thesis using b by auto
qed

lemma looks_like_ip_split:
  assumes "looks_like_ip_packet pkt"
  obtains b c r where "pkt = b # c # r" and "drop_bit 4 b = 4 \<or> drop_bit 4 b = 6"
  using assms by (cases pkt rule: remdups_adj.cases) (auto simp: looks_like_ip_packet_def)

lemma strip_bare_packet:
  assumes "ip_packet_ok pkt"
  shows "strip_datagram_context pkt = Some pkt"
proof -
  have l: "looks_like_ip_packet pkt" using assms by (simp add: ip_packet_ok_def)
  then obtain b c r where p: "pkt = b # c # r" and b: "drop_bit 4 b = 4 \<or> drop_bit 4 b = 6"
    by (rule looks_like_ip_split)
  have "b \<noteq> 0x40" using assms p by (simp add: ip_packet_ok_def)
  from ip_context_varint [OF b this] l show ?thesis
    by (auto simp: strip_datagram_context_def with_slice_cursor p CONNECT_IP_CONTEXT_ID_def Let_def
        split: sum.splits)
qed

lemma datagram_wire_form:
  "encode_ip_datagram sid pkt = Returns (Inr (varint_bytes (quarter_stream_id sid) @ varint_bytes 0 @ pkt))"
  using quarter_stream_id_le [of sid]
  by (simp add: encode_ip_datagram_def CONNECT_IP_CONTEXT_ID_def masque_varint_len_bytes
      cursor_simps Let_def not_less)

lemma datagram_wire_decodes:
  "decode_ip_datagram (varint_bytes (quarter_stream_id sid) @ varint_bytes 0 @ pkt) sid' =
     Inr (if quarter_stream_id sid' = quarter_stream_id sid then Some pkt else None)"
  using quarter_stream_id_le [of sid]
  by (auto simp: decode_ip_datagram_def CONNECT_IP_CONTEXT_ID_def cursor_simps)

text \<open>
  An IP packet survives the trip through an HTTP datagram: encoding never fails and never
  panics, and decoding gives the packet back exactly for the stream it was sent on, and nothing for
  a stream with another quarter stream id.
\<close>

lemma ip_datagram_roundtrip:
  "\<exists>d. encode_ip_datagram sid pkt = Returns (Inr d) \<and>
       (\<forall>sid'. decode_ip_datagram d sid' =
          Inr (if quarter_stream_id sid' = quarter_stream_id sid then Some pkt else None))"
  using datagram_wire_form datagram_wire_decodes by blast

text \<open>
  The probe packet is a well-formed IPv4 and UDP datagram: its header passes the receiver's
  checksum test and its length fields are the lengths of the packet and of the UDP part.
\<close>

lemma probe_packet_valid:
  "ipv4_header_checksum (take 20 (build_dns_probe_packet src dns_id ip_id sport)) = 0 \<and>
   be_nat (take 2 (drop 2 (build_dns_probe_packet src dns_id ip_id sport))) =
     length (build_dns_probe_packet src dns_id ip_id sport) \<and>
   be_nat (take 2 (drop 24 (build_dns_probe_packet src dns_id ip_id sport))) =
     length (build_dns_probe_packet src dns_id ip_id sport) - 20"
proof -
  define a where "a = [0x45, 0x00] @ word_be 2 (60 :: u16) @ word_be 2 ip_id @ [0x00, 0x00, 64, 17 :: u8]"
  define b where "b = v4_octets src @ v4_octets (v4_new 8 8 8 8)"
  define h where "h = a @ word_be 2 (ipv4_header_checksum (a @ [0, 0] @ b)) @ b"
  define u where "u = word_be 2 sport @ word_be 2 (53 :: u16) @ word_be 2 (40 :: u16) @
    [0x00, 0x00 :: u8] @ probe_dns_query dns_id"
  have p: "build_dns_probe_packet src dns_id ip_id sport = h @ u"
    unfolding probe_packet_shape Let_def h_def u_def a_def b_def by simp
  have lens: "length a = 10" "length b = 8" "length h = 20" "length u = 40"
    by (simp_all add: a_def b_def h_def u_def)
  have "ipv4_header_checksum h = 0"
    unfolding h_def by (rule checksum_verifies) (simp_all add: lens)
  moreover have "take 2 (drop 2 h) = word_be 2 (60 :: u16)"
    by (simp add: h_def a_def word_be_2)
  moreover have "take 2 (drop 4 u) = word_be 2 (40 :: u16)"
    by (simp add: u_def word_be_2)
  moreover have "be_nat (word_be 2 (60 :: u16)) = 60" "be_nat (word_be 2 (40 :: u16)) = 40"
    by (simp_all only: be_nat_u16) simp_all
  ultimately show ?thesis by (simp add: p lens del: word_be.simps)
qed

text \<open>
  Both forms a datagram capsule is seen with, the bare packet and the packet behind the context
  identifier 0, are read as the packet itself, and what is returned for any payload is an IP packet.
\<close>

lemma strip_context_packets:
  "(ip_packet_ok pkt \<longrightarrow>
      strip_datagram_context pkt = Some pkt \<and> strip_datagram_context (0 # pkt) = Some pkt) \<and>
   (\<forall>payload inner. strip_datagram_context payload = Some inner \<longrightarrow> looks_like_ip_packet inner)"
proof -
  have "strip_datagram_context (0 # pkt) = Some pkt" if "ip_packet_ok pkt"
    using that get_varint_varint_bytes [of 0 "[]" pkt]
    by (simp add: strip_datagram_context_def with_slice_cursor varint_bytes_0 cap_cursor
        CONNECT_IP_CONTEXT_ID_def ip_packet_ok_def)
  moreover have "looks_like_ip_packet inner" if "strip_datagram_context payload = Some inner"
    for payload inner
    using that
    by (auto simp: strip_datagram_context_def Let_def split: sum.splits if_splits option.splits)
  ultimately show ?thesis using strip_bare_packet by blast
qed

lemma strip_context_packets_witness:
  "strip_datagram_context (0 # 0x45 # replicate 19 0) = Some (0x45 # replicate 19 0) \<and>
   looks_like_ip_packet (0x45 # replicate 19 0)"
  using strip_context_packets [of "0x45 # replicate 19 0"]
  by (simp add: ip_packet_ok_def looks_like_ip_packet_def)

end
