(* ===== verification/Channel.thy ===== *)
theory Channel
  imports Aether_Prelude
begin

text \<open>
  The bounded queue between two tasks (\<^verbatim>\<open>tokio::sync::mpsc\<close>): the standard vocabulary in which
  the tunnels, the netstack and the proxy hand packets and byte chunks to each other. The locale
  \<open>bounded_fifo\<close> is what the senders and receivers rely on; it is interpreted on the channel record
  that the component models use.
\<close>

subsection \<open>The channel\<close>

record 'a chan =
  ch_items :: "'a list"
  ch_cap :: nat
  ch_rx_closed :: bool
  ch_tx_closed :: bool

datatype send_outcome = Sent | Full | Closed

datatype 'a recv_outcome = Received 'a | Empty | Disconnected

definition chan_new :: "nat \<Rightarrow> 'a chan" where
  "chan_new n = \<lparr>ch_items = [], ch_cap = n, ch_rx_closed = False, ch_tx_closed = False\<rparr>"

definition try_send :: "'a chan \<Rightarrow> 'a \<Rightarrow> send_outcome \<times> 'a chan" where
  "try_send c x =
     (if ch_rx_closed c then (Closed, c)
      else if length (ch_items c) < ch_cap c then (Sent, c\<lparr>ch_items := ch_items c @ [x]\<rparr>)
      else (Full, c))"

definition try_recv :: "'a chan \<Rightarrow> 'a recv_outcome \<times> 'a chan" where
  "try_recv c =
     (case ch_items c of
        x # xs \<Rightarrow> (Received x, c\<lparr>ch_items := xs\<rparr>)
      | [] \<Rightarrow> (if ch_tx_closed c then Disconnected else Empty, c))"

text \<open>Free places; a channel whose receiver is gone has none.\<close>

definition chan_room :: "'a chan \<Rightarrow> nat" where
  "chan_room c = (if ch_rx_closed c then 0 else ch_cap c - length (ch_items c))"

definition chan_offer :: "'a chan \<Rightarrow> 'a \<Rightarrow> bool \<times> 'a chan" where
  "chan_offer c x = (case try_send c x of (r, c') \<Rightarrow> (r = Sent, c'))"

definition chan_poll :: "'a chan \<Rightarrow> 'a option \<times> 'a chan" where
  "chan_poll c =
     (case try_recv c of (Received x, c') \<Rightarrow> (Some x, c') | (_, c') \<Rightarrow> (None, c'))"

lemma chan_offer_snd: "snd (chan_offer c x) = snd (try_send c x)"
  by (simp add: chan_offer_def split: prod.splits)

lemma try_send_closed_iff: "fst (try_send c x) = Closed \<longleftrightarrow> ch_rx_closed c"
  by (simp add: try_send_def)

lemma try_send_keeps [simp]:
  "ch_rx_closed (snd (try_send c x)) = ch_rx_closed c"
  "ch_tx_closed (snd (try_send c x)) = ch_tx_closed c"
  "ch_cap (snd (try_send c x)) = ch_cap c"
  by (simp_all add: try_send_def)

subsection \<open>What the two ends rely on\<close>

locale bounded_fifo =
  fixes items :: "'c \<Rightarrow> 'a list"
    and room :: "'c \<Rightarrow> nat"
    and offer :: "'c \<Rightarrow> 'a \<Rightarrow> bool \<times> 'c"
    and poll :: "'c \<Rightarrow> 'a option \<times> 'c"
  assumes offer_accepts: "0 < room c \<Longrightarrow> fst (offer c x) \<and> items (snd (offer c x)) = items c @ [x]"
    and offer_room: "0 < room c \<Longrightarrow> room c = Suc (room (snd (offer c x)))"
    and offer_refuses: "room c = 0 \<Longrightarrow> offer c x = (False, c)"
    and poll_Nil: "items c = [] \<Longrightarrow> poll c = (None, c)"
    and poll_Cons: "items c = x # xs \<Longrightarrow> fst (poll c) = Some x \<and> items (snd (poll c)) = xs"
begin

text \<open>
  Offering a sequence keeps the order and drops exactly what comes after the last free place: a
  refused item never displaces one already queued.
\<close>

lemma offer_all_items:
  "items (foldl (\<lambda>c x. snd (offer c x)) c xs) = items c @ take (room c) xs"
proof (induction xs arbitrary: c)
  case (Cons x xs)
  show ?case
  proof (cases "room c")
    case (Suc n)
    then have "room (snd (offer c x)) = n" using offer_room [of c x] by simp
    then show ?thesis using Suc Cons offer_accepts [of c x] by simp
  qed (simp add: Cons offer_refuses)
qed simp

lemma offer_all_room:
  "room (foldl (\<lambda>c x. snd (offer c x)) c xs) = room c - length xs"
proof (induction xs arbitrary: c)
  case (Cons x xs)
  show ?case
  proof (cases "room c")
    case (Suc n)
    then have "room (snd (offer c x)) = n" using offer_room [of c x] by simp
    then show ?thesis using Suc Cons by simp
  qed (simp add: Cons offer_refuses)
qed simp

lemma poll_first_in:
  assumes "0 < room c" and "items c = []"
  shows "fst (poll (snd (offer c x))) = Some x"
  using poll_Cons [of "snd (offer c x)" x "[]"] offer_accepts [of c x] assms by simp

end

interpretation mpsc: bounded_fifo ch_items chan_room chan_offer chan_poll
  by unfold_locales
    (auto simp: chan_room_def chan_offer_def chan_poll_def try_send_def try_recv_def
      split: list.splits if_splits)

text \<open>A run of \<^verbatim>\<open>try_send\<close> whose refusals are dropped.\<close>

definition send_each :: "'a chan \<Rightarrow> 'a list \<Rightarrow> 'a chan" where
  "send_each c xs = foldl (\<lambda>c x. snd (try_send c x)) c xs"

lemma send_each_items: "ch_items (send_each c xs) = ch_items c @ take (chan_room c) xs"
  using mpsc.offer_all_items [of c xs] by (simp add: send_each_def chan_offer_snd)

lemma send_each_room: "chan_room (send_each c xs) = chan_room c - length xs"
  using mpsc.offer_all_room [of c xs] by (simp add: send_each_def chan_offer_snd)

lemma send_each_simps [simp]:
  "send_each c [] = c"
  "send_each c (x # xs) = send_each (snd (try_send c x)) xs"
  "send_each c (xs @ ys) = send_each (send_each c xs) ys"
  by (simp_all add: send_each_def)

lemma send_each_flags [simp]:
  "ch_rx_closed (send_each c xs) = ch_rx_closed c"
  "ch_tx_closed (send_each c xs) = ch_tx_closed c"
  "ch_cap (send_each c xs) = ch_cap c"
  by (induction xs arbitrary: c) simp_all

lemma send_each_closed: "ch_rx_closed c \<Longrightarrow> send_each c xs = c"
  by (induction xs) (simp_all add: try_send_def)

end
