(* ===== verification/Framing.thy ===== *)
theory Framing
  imports Aether_Prelude
begin

text \<open>
  Reading messages off a byte stream that arrives in pieces. The locale \<open>stream_parser\<close> is the
  interface of an incremental parser (what the buffer holds, what one call takes off its front);
  its lemmas say that the messages do not depend on how the stream was cut.
\<close>

subsection \<open>Taking every whole message off a buffer\<close>

function parse_all :: "('b list \<Rightarrow> ('m \<times> 'b list) option) \<Rightarrow> 'b list \<Rightarrow> 'm list \<times> 'b list" where
  "parse_all nxt b =
     (case nxt b of
        None \<Rightarrow> ([], b)
      | Some (m, r) \<Rightarrow>
          if length r < length b then (let (ms, r') = parse_all nxt r in (m # ms, r')) else ([m], r))"
  by pat_completeness auto
termination
  by (relation "measure (\<lambda>(nxt, b). length b)") auto

declare parse_all.simps [simp del]

text \<open>The buffer after a sequence of pieces, with every whole message taken off after each.\<close>

fun feed_all :: "('b list \<Rightarrow> ('m \<times> 'b list) option) \<Rightarrow> 'b list \<Rightarrow> 'b list list \<Rightarrow> 'm list \<times> 'b list" where
  "feed_all nxt b [] = ([], b)"
| "feed_all nxt b (c # cs) =
     (let (ms, r) = parse_all nxt (b @ c); (ms', r') = feed_all nxt r cs in (ms @ ms', r'))"

locale stream_parser =
  fixes nxt :: "'b list \<Rightarrow> ('m \<times> 'b list) option"
  assumes progress: "nxt b = Some (m, r) \<Longrightarrow> length r < length b"
    and stable: "nxt b = Some (m, r) \<Longrightarrow> nxt (b @ s) = Some (m, r @ s)"
begin

lemma parse_all_None: "nxt b = None \<Longrightarrow> parse_all nxt b = ([], b)"
  by (simp add: parse_all.simps [of nxt b])

lemma parse_all_Some:
  "nxt b = Some (m, r) \<Longrightarrow> parse_all nxt b = (m # fst (parse_all nxt r), snd (parse_all nxt r))"
  using progress [of b m r] by (simp add: parse_all.simps [of nxt b] split: prod.splits)

text \<open>What is left over is a part of a message only.\<close>

lemma parse_all_rest: "nxt (snd (parse_all nxt b)) = None"
proof (induction b rule: length_induct)
  case (1 b)
  show ?case
  proof (cases "nxt b")
    case None
    then show ?thesis by (simp add: parse_all_None)
  next
    case (Some p)
    obtain m r where p: "p = (m, r)" by (cases p)
    with Some 1 show ?thesis using progress [of b m r] by (simp add: parse_all_Some [of b m r])
  qed
qed

lemma parse_all_append:
  "parse_all nxt (b @ s) =
     (fst (parse_all nxt b) @ fst (parse_all nxt (snd (parse_all nxt b) @ s)),
      snd (parse_all nxt (snd (parse_all nxt b) @ s)))"
proof (induction b rule: length_induct)
  case (1 b)
  show ?case
  proof (cases "nxt b")
    case None
    then show ?thesis by (simp add: parse_all_None)
  next
    case (Some p)
    obtain m r where p: "p = (m, r)" by (cases p)
    with Some have b: "nxt b = Some (m, r)" and bs: "nxt (b @ s) = Some (m, r @ s)"
      by (simp_all add: stable)
    from 1 progress [OF b] have "parse_all nxt (r @ s) =
       (fst (parse_all nxt r) @ fst (parse_all nxt (snd (parse_all nxt r) @ s)),
        snd (parse_all nxt (snd (parse_all nxt r) @ s)))" by blast
    then show ?thesis by (simp add: parse_all_Some [OF b] parse_all_Some [OF bs])
  qed
qed

text \<open>The messages of a stream are the same however it is cut into pieces.\<close>

lemma feed_all_concat:
  assumes "nxt b = None"
  shows "feed_all nxt b cs = parse_all nxt (b @ concat cs)"
  using assms
proof (induction cs arbitrary: b)
  case Nil
  then show ?case by (simp add: parse_all_None)
next
  case (Cons c cs)
  let ?r = "snd (parse_all nxt (b @ c))"
  have "feed_all nxt ?r cs = parse_all nxt (?r @ concat cs)"
    by (rule Cons.IH) (rule parse_all_rest)
  then show ?case
    using parse_all_append [of "b @ c" "concat cs"] by (simp add: Let_def case_prod_beta)
qed

end

end
