(* ===== verification/Tunnel_H2.thy ===== *)
theory Tunnel_H2
  imports Masque_Proto Channel Framing
begin

text \<open>
  \<^verbatim>\<open>aether/src/masque_h2.rs\<close>: the CONNECT-IP tunnel over HTTP/2. The h2 crate is outside the
  repository: what its stream answers (free capacity, result of a send, a piece of the response
  body, a pong) is an argument of the operation that asks for it, and time is the argument \<open>now\<close>, in
  milliseconds. Setting up TCP, TLS and the request is I/O and not part of the model; the model
  starts with an established request stream.
\<close>

subsection \<open>Messages\<close>

datatype sender_msg = SendCapsule bytes | Finish

datatype control = Migrate | Close

record assigned_addr =
  as_ip :: ip_addr
  as_prefix :: u8

definition H2_MAX_FRAME_SIZE :: nat where
  "H2_MAX_FRAME_SIZE = 64 * 1024"

definition H2_SEND_BATCH_BYTES :: usize where
  "H2_SEND_BATCH_BYTES = 32 * 1024"

definition DATA_PROBE_REQUIRED_SUCCESSES :: nat where
  "DATA_PROBE_REQUIRED_SUCCESSES = 2"

definition bytes_to_ip :: "u8 \<Rightarrow> bytes \<Rightarrow> ip_addr option" where
  "bytes_to_ip version bs =
     (if version = 4 \<and> length bs = 4 then Some (V4 (be_word bs))
      else if version = 6 \<and> length bs = 16 then Some (V6 (be_word bs))
      else None)"

subsection \<open>Receiving\<close>

text \<open>The loop over the addresses of an address-assign capsule.\<close>

fun forward_assigned :: "assigned_addr chan option \<Rightarrow> assigned_address list \<Rightarrow> assigned_addr chan option" where
  "forward_assigned addr_tx [] = addr_tx"
| "forward_assigned addr_tx (a # as) =
     forward_assigned
       (case bytes_to_ip (aa_ip_version a) (aa_address a) of
          None \<Rightarrow> addr_tx
        | Some ip \<Rightarrow>
            (case addr_tx of
               None \<Rightarrow> None
             | Some tx \<Rightarrow> Some (snd (try_send tx \<lparr>as_ip = ip, as_prefix = aa_prefix_len a\<rparr>))))
       as"

lemma cp_next_less:
  assumes "cp_next p = (r, p')" and "r \<noteq> Inr None"
  shows "length (cp_buf p') < length (cp_buf p)"
proof (rule cp_next_shape [of p])
  fix kind v x rest
  assume "cp_buf p = x @ rest" and "x \<noteq> []"
    and "\<And>q s. cp_buf q = cp_buf p @ s \<Longrightarrow>
      cp_next q = (res_bind (decode_capsule kind v) (\<lambda>c. Inr (Some c)), q\<lparr>cp_buf := rest @ s\<rparr>)"
  from this(1,2) this(3) [of p "[]"] show ?thesis using assms by auto
qed (use assms in simp)

function drain_capsules ::
    "bool \<Rightarrow> capsule_parser \<Rightarrow> bytes chan \<Rightarrow> assigned_addr chan option \<Rightarrow>
     bool \<times> capsule_parser \<times> bytes chan \<times> assigned_addr chan option" where
  "drain_capsules delivered capsules inbound_tx addr_tx =
     (case cp_next capsules of
        (Inr (Some (Datagram payload)), capsules') \<Rightarrow>
          (case strip_datagram_context payload of
             None \<Rightarrow> drain_capsules delivered capsules' inbound_tx addr_tx
           | Some pkt \<Rightarrow>
               (case try_send inbound_tx pkt of
                  (Closed, inbound_tx') \<Rightarrow> (True, capsules', inbound_tx', addr_tx)
                | (_, inbound_tx') \<Rightarrow> drain_capsules True capsules' inbound_tx' addr_tx))
      | (Inr (Some (AddressAssign addrs)), capsules') \<Rightarrow>
          drain_capsules delivered capsules' inbound_tx (forward_assigned addr_tx addrs)
      | (Inr (Some _), capsules') \<Rightarrow> drain_capsules delivered capsules' inbound_tx addr_tx
      | (Inr None, capsules') \<Rightarrow> (delivered, capsules', inbound_tx, addr_tx)
      | (Inl e, capsules') \<Rightarrow> (delivered, capsules', inbound_tx, addr_tx))"
  by pat_completeness auto
termination
  by (relation "measure (\<lambda>(d, p, i, a). length (cp_buf p))") (auto intro: cp_next_less [OF sym])

declare drain_capsules.simps [simp del]

subsection \<open>Sending\<close>

text \<open>
  What the stream answers while \<^verbatim>\<open>send_capsule\<close> waits: each poll that succeeds comes with the
  capacity the stream reports afterwards.
\<close>

datatype capacity_poll = CapacityOk usize | CapacityErr string | CapacityEnd

record h2_answers =
  ha_capacity :: usize
  ha_polls :: "capacity_poll list"
  ha_send_data :: "string option"

text \<open>The frames given to \<^verbatim>\<open>send_data\<close>, with the end-of-stream flag.\<close>

type_synonym h2_frames = "(bytes \<times> bool) list"

text \<open>None: the answers have run out while the capacity is still short, so the call waits.\<close>

fun wait_capacity :: "usize \<Rightarrow> usize \<Rightarrow> capacity_poll list \<Rightarrow> unit result option" where
  "wait_capacity len capacity polls =
     (if len \<le> capacity then Some (Inr ())
      else (case polls of
              [] \<Rightarrow> None
            | CapacityOk c # ps \<Rightarrow> wait_capacity len c ps
            | CapacityErr e # ps \<Rightarrow> Some (Inl (Masque (''h2 capacity: '' @ e)))
            | CapacityEnd # ps \<Rightarrow> Some (Inl (Masque ''h2 stream closed''))))"

declare wait_capacity.simps [simp del]

definition send_capsule :: "h2_answers \<Rightarrow> h2_frames \<Rightarrow> bytes \<Rightarrow> (unit result \<times> h2_frames) option" where
  "send_capsule ans frames data =
     (if length data = 0 then Some (Inr (), frames)
      else (case wait_capacity (length data) (ha_capacity ans) (ha_polls ans) of
              None \<Rightarrow> None
            | Some (Inl e) \<Rightarrow> Some (Inl e, frames)
            | Some (Inr u) \<Rightarrow>
                (case ha_send_data ans of
                   Some e \<Rightarrow> Some (Inl (Masque (''h2 send_data: '' @ e)), frames)
                 | None \<Rightarrow> Some (Inr (), frames @ [(data, False)]))))"

text \<open>The inner loop of \<^verbatim>\<open>pump_outbound\<close>: what is queued behind a packet rides along.\<close>

function gather_batch :: "bytes \<Rightarrow> bytes chan \<Rightarrow> (bytes \<times> bytes chan) run" where
  "gather_batch batch outbound_rx =
     (if length batch < H2_SEND_BATCH_BYTES then
        (case try_recv outbound_rx of
           (Received next, outbound_rx') \<Rightarrow>
             run_bind (append_datagram_capsule batch next) (\<lambda>batch'. gather_batch batch' outbound_rx')
         | (_, outbound_rx') \<Rightarrow> Returns (batch, outbound_rx'))
      else Returns (batch, outbound_rx))"
  by pat_completeness auto
termination
  by (relation "measure (\<lambda>(b, c). length (ch_items c))")
    (auto simp: try_recv_def split: list.splits if_splits)

declare gather_batch.simps [simp del]

record h2_sender =
  sn_frames :: h2_frames
  sn_outbound :: "bytes chan"
  sn_control :: "sender_msg chan"

datatype pump_step =
    PumpIdle
  | PumpWaits h2_sender
  | PumpContinue h2_sender
  | PumpReturn "unit result" h2_sender

text \<open>
  One round of the loop of \<^verbatim>\<open>pump_outbound\<close>. The select is biased: a control message comes before a
  packet, and with neither queue ready the task sleeps. The closing frame is sent with its result
  ignored.
\<close>

definition pump_finish :: "h2_answers \<Rightarrow> h2_sender \<Rightarrow> pump_step" where
  "pump_finish ans s =
     PumpReturn (Inr ())
       (if ha_send_data ans = None then s\<lparr>sn_frames := sn_frames s @ [([], True)]\<rparr> else s)"

definition pump_send :: "h2_answers \<Rightarrow> h2_sender \<Rightarrow> bytes \<Rightarrow> pump_step" where
  "pump_send ans s data =
     (case send_capsule ans (sn_frames s) data of
        None \<Rightarrow> PumpWaits s
      | Some (Inl e, frames) \<Rightarrow> PumpReturn (Inl e) (s\<lparr>sn_frames := frames\<rparr>)
      | Some (Inr u, frames) \<Rightarrow> PumpContinue (s\<lparr>sn_frames := frames\<rparr>))"

definition pump_outbound_round :: "h2_answers \<Rightarrow> h2_sender \<Rightarrow> pump_step run" where
  "pump_outbound_round ans s =
     (case try_recv (sn_control s) of
        (Received (SendCapsule framed), control) \<Rightarrow>
          Returns (pump_send ans (s\<lparr>sn_control := control\<rparr>) framed)
      | (Received Finish, control) \<Rightarrow> Returns (pump_finish ans (s\<lparr>sn_control := control\<rparr>))
      | (Disconnected, control) \<Rightarrow> Returns (pump_finish ans s)
      | (Empty, control) \<Rightarrow>
          (case try_recv (sn_outbound s) of
             (Empty, _) \<Rightarrow> Returns PumpIdle
           | (Disconnected, _) \<Rightarrow> Returns (pump_finish ans s)
           | (Received packet, outbound) \<Rightarrow>
               run_bind (append_datagram_capsule [] packet) (\<lambda>batch.
               run_bind (gather_batch batch outbound) (\<lambda>(batch', outbound').
                 Returns (pump_send ans (s\<lparr>sn_outbound := outbound'\<rparr>) batch')))))"

text \<open>
  The loop, given what the stream answers in each round. None: the task is asleep or waits for
  capacity (or the answers have run out).
\<close>

fun pump_outbound :: "h2_answers list \<Rightarrow> h2_sender \<Rightarrow> (unit result option \<times> h2_sender) run" where
  "pump_outbound [] s = Returns (None, s)"
| "pump_outbound (a # as) s =
     run_bind (pump_outbound_round a s) (\<lambda>r.
       case r of
         PumpIdle \<Rightarrow> Returns (None, s)
       | PumpWaits s' \<Rightarrow> Returns (None, s')
       | PumpContinue s' \<Rightarrow> pump_outbound as s'
       | PumpReturn res s' \<Rightarrow> Returns (Some res, s'))"

subsection \<open>The capsule stream as a framed stream\<close>

definition capsule_nxt :: "bytes \<Rightarrow> (capsule result \<times> bytes) option" where
  "capsule_nxt b =
     (case cp_next \<lparr>cp_buf = b\<rparr> of
        (Inr None, p) \<Rightarrow> None
      | (Inr (Some c), p) \<Rightarrow> Some (Inr c, cp_buf p)
      | (Inl e, p) \<Rightarrow> Some (Inl e, cp_buf p))"

lemma capsule_nxt_shape:
  assumes "capsule_nxt b = Some (m, r)"
  obtains x where "b = x @ r" and "x \<noteq> []" and "\<And>s. capsule_nxt (b @ s) = Some (m, r @ s)"
proof (rule cp_next_shape [of "\<lparr>cp_buf = b\<rparr>"])
  assume "cp_next \<lparr>cp_buf = b\<rparr> = (Inr None, \<lparr>cp_buf = b\<rparr>)"
  with assms show thesis by (simp add: capsule_nxt_def)
next
  fix kind v x rest
  assume b: "cp_buf \<lparr>cp_buf = b\<rparr> = x @ rest" "x \<noteq> []" and n: "\<And>q s. cp_buf q = cp_buf \<lparr>cp_buf = b\<rparr> @ s \<Longrightarrow>
    cp_next q = (res_bind (decode_capsule kind v) (\<lambda>c. Inr (Some c)), q\<lparr>cp_buf := rest @ s\<rparr>)"
  have all: "capsule_nxt (b @ s) = Some (decode_capsule kind v, rest @ s)" for s
    using n [of "\<lparr>cp_buf = b @ s\<rparr>" s] by (cases "decode_capsule kind v") (simp_all add: capsule_nxt_def)
  with all [of "[]"] assms b show thesis by (intro that [of x]) simp_all
qed

interpretation capsules: stream_parser capsule_nxt
proof
  fix b m r s
  assume "capsule_nxt b = Some (m, r)"
  then show "length r < length b" and "capsule_nxt (b @ s) = Some (m, r @ s)"
    by (auto elim!: capsule_nxt_shape)
qed

lemma capsule_nxt_wire:
  assumes "fits_capsule v"
  shows "capsule_nxt (capsule_wire CAPSULE_DATAGRAM v @ r) = Some (Inr (Datagram v), r)"
  using cp_next_wire [of CAPSULE_DATAGRAM v "\<lparr>cp_buf = capsule_wire CAPSULE_DATAGRAM v @ r\<rparr>" r] assms
  by (simp add: capsule_nxt_def decode_capsule_def CAPSULE_DATAGRAM_def CAPSULE_ADDRESS_ASSIGN_def
      CAPSULE_ADDRESS_REQUEST_def CAPSULE_ROUTE_ADVERTISEMENT_def)

text \<open>The packets among a list of capsules, and the addresses it assigns.\<close>

definition packets_of :: "capsule result \<Rightarrow> bytes list" where
  "packets_of m =
     (case m of
        Inr (Datagram payload) \<Rightarrow>
          (case strip_datagram_context payload of None \<Rightarrow> [] | Some pkt \<Rightarrow> [pkt])
      | _ \<Rightarrow> [])"

lemma drain_capsules_step:
  assumes "\<not> ch_rx_closed inb" and "capsule_nxt (cp_buf p) = Some (Inr c, r)"
  shows "\<exists>addr'. drain_capsules d p inb addr =
    drain_capsules (d \<or> packets_of (Inr c) \<noteq> []) \<lparr>cp_buf = r\<rparr> (send_each inb (packets_of (Inr c))) addr'"
proof -
  obtain p' where p: "cp_next p = (Inr (Some c), p')" and r: "p' = \<lparr>cp_buf = r\<rparr>"
    using assms(2) by (cases p) (auto simp: capsule_nxt_def split: prod.splits sum.splits option.splits)
  have "try_send inb x \<noteq> (Closed, y)" for x y using assms(1) try_send_closed_iff [of inb x] by auto
  then show ?thesis
    by (cases c) (auto simp: drain_capsules.simps [of d p] p r packets_of_def
        split: option.splits prod.splits send_outcome.splits)
qed

lemma drain_capsules_parse:
  assumes "\<not> ch_rx_closed inb" and "\<forall>m \<in> set (fst (parse_all capsule_nxt (cp_buf p))). \<not> isl m"
  shows "\<exists>addr'. drain_capsules d p inb addr =
    (d \<or> concat (map packets_of (fst (parse_all capsule_nxt (cp_buf p)))) \<noteq> [],
     \<lparr>cp_buf = snd (parse_all capsule_nxt (cp_buf p))\<rparr>,
     send_each inb (concat (map packets_of (fst (parse_all capsule_nxt (cp_buf p))))), addr')"
  using assms
proof (induction "cp_buf p" arbitrary: p d inb addr rule: length_induct)
  case 1
  show ?case
  proof (cases "capsule_nxt (cp_buf p)")
    case None
    then have "cp_next p = (Inr None, p)"
      using cp_next_None [of p]
      by (cases p) (auto simp: capsule_nxt_def split: prod.splits sum.splits option.splits)
    then show ?thesis by (simp add: drain_capsules.simps [of d p] capsules.parse_all_None [OF None])
  next
    case (Some q)
    then obtain m r where q: "capsule_nxt (cp_buf p) = Some (m, r)" by (cases q) auto
    note pa = capsules.parse_all_Some [OF q]
    from 1(3) obtain c where m: "m = Inr c" by (cases m) (auto simp: pa)
    obtain addr' where st: "drain_capsules d p inb addr =
      drain_capsules (d \<or> packets_of m \<noteq> []) \<lparr>cp_buf = r\<rparr> (send_each inb (packets_of m)) addr'"
      using drain_capsules_step [OF 1(2)] q m by blast
    have "length (cp_buf \<lparr>cp_buf = r\<rparr>) < length (cp_buf p)" using capsules.progress [OF q] by simp
    from 1(1) [rule_format, OF this refl, of "send_each inb (packets_of m)" "d \<or> packets_of m \<noteq> []" addr'] 1(2,3)
    show ?thesis unfolding st pa by (auto simp: pa)
  qed
qed

subsection \<open>From one end of the stream to the other\<close>

text \<open>Receiving the body of the response piece by piece, as \<^verbatim>\<open>run\<close> does.\<close>

fun receive_chunks :: "capsule_parser \<Rightarrow> bytes chan \<Rightarrow> assigned_addr chan option \<Rightarrow> bytes list \<Rightarrow>
    capsule_parser \<times> bytes chan \<times> assigned_addr chan option" where
  "receive_chunks p inb addr [] = (p, inb, addr)"
| "receive_chunks p inb addr (c # cs) =
     (case drain_capsules False (cp_push p c) inb addr of
        (d, p', inb', addr') \<Rightarrow> receive_chunks p' inb' addr' cs)"

text \<open>A stream of datagram capsules: the first packet's and the rest.\<close>

abbreviation wire :: "bytes \<Rightarrow> bytes" where
  "wire \<equiv> capsule_wire CAPSULE_DATAGRAM"

lemma length_wire: "length v \<le> 65535 \<Longrightarrow> length (wire v) \<le> 65540"
  by (simp add: capsule_wire_def CAPSULE_DATAGRAM_def varint_bytes_0)
    (simp add: varint_bytes_def word_le_nat_alt unsigned_of_nat take_bit_nat_eq_self)

lemma ip_packet_fits: "ip_packet_ok v \<Longrightarrow> fits_capsule v"
  by (simp add: ip_packet_ok_def)

text \<open>
  However much of the stream has arrived, what was parsed is the first packets, and what is left
  over is less than one capsule.
\<close>

lemma parse_wire_prefix:
  assumes "x @ y = concat (map wire ps)" and "\<forall>v \<in> set ps. ip_packet_ok v"
  shows "\<exists>qs rs b. ps = qs @ rs \<and> parse_all capsule_nxt x = (map (Inr \<circ> Datagram) qs, b) \<and>
           b @ y = concat (map wire rs) \<and> length b \<le> 65540"
  using assms
proof (induction ps arbitrary: x)
  case Nil
  then have "x = []" "y = []" by auto
  moreover have "capsule_nxt [] = None" by (simp add: capsule_nxt_def cp_next_def with_slice_cursor get_varint_cursor)
  ultimately show ?case by (simp add: capsules.parse_all_None)
next
  case (Cons p ps)
  have fits: "fits_capsule p" and lw: "length (wire p) \<le> 65540"
    using Cons.prems(2) by (auto intro: ip_packet_fits length_wire simp: ip_packet_ok_def)
  show ?case
  proof (cases "length (wire p) \<le> length x")
    case True
    obtain x' where x: "x = wire p @ x'" and x': "x' @ y = concat (map wire ps)"
      using Cons.prems(1) True by (auto elim: prefix_split [of x y "wire p"])
    from Cons.IH [OF x'] Cons.prems(2) obtain qs rs b where
      "ps = qs @ rs" "parse_all capsule_nxt x' = (map (Inr \<circ> Datagram) qs, b)"
      "b @ y = concat (map wire rs)" "length b \<le> 65540" by auto
    moreover have "capsule_nxt x = Some (Inr (Datagram p), x')" by (simp add: x capsule_nxt_wire [OF fits])
    ultimately show ?thesis
      by (intro exI [of _ "p # qs"] exI [of _ rs] exI [of _ b]) (simp add: capsules.parse_all_Some)
  next
    case False
    have "capsule_nxt x = None"
    proof (rule ccontr)
      assume "capsule_nxt x \<noteq> None"
      then obtain m r where m: "capsule_nxt x = Some (m, r)" by auto
      have "capsule_nxt (x @ y) = Some (Inr (Datagram p), concat (map wire ps))"
        using Cons.prems(1) capsule_nxt_wire [OF fits] by simp
      with capsules.stable [OF m, of y] have "r @ y = concat (map wire ps)" by simp
      then have "length r + length y = length (concat (map wire ps))" by (metis length_append)
      moreover have "length x + length y = length (wire p) + length (concat (map wire ps))"
        using arg_cong [OF Cons.prems(1), of length] by simp
      ultimately show False using False by linarith
    qed
    then show ?thesis using Cons.prems(1) False lw
      by (intro exI [of _ "[]"] exI [of _ "p # ps"] exI [of _ x]) (simp add: capsules.parse_all_None)
  qed
qed

lemma packets_of_datagrams:
  "\<forall>v \<in> set qs. ip_packet_ok v \<Longrightarrow> concat (map packets_of (map (Inr \<circ> Datagram) qs)) = qs"
  by (induction qs) (simp_all add: packets_of_def strip_bare_packet)

lemma receive_wire:
  assumes "cp_buf p @ concat cs = concat (map wire ps)" and "\<forall>v \<in> set ps. ip_packet_ok v"
    and "\<forall>c \<in> set cs. length c \<le> H2_MAX_FRAME_SIZE" and "length (cp_buf p) \<le> 65540"
    and "\<not> ch_rx_closed inb" and "capsule_nxt (cp_buf p) = None"
  shows "\<exists>addr'. receive_chunks p inb addr cs = (capsule_parser_new, send_each inb ps, addr')"
  using assms
proof (induction cs arbitrary: p ps inb addr)
  case Nil
  then have "parse_all capsule_nxt (cp_buf p) = ([], cp_buf p)" by (simp add: capsules.parse_all_None)
  moreover have "ps = []"
  proof (rule ccontr)
    assume "ps \<noteq> []"
    then obtain v vs where "ps = v # vs" by (cases ps) auto
    then have "capsule_nxt (cp_buf p) \<noteq> None"
      using Nil capsule_nxt_wire [OF ip_packet_fits [of v]] by simp
    with Nil show False by simp
  qed
  ultimately show ?case using Nil by (cases p) (simp add: capsule_parser_new_def)
next
  case (Cons c cs)
  let ?x = "cp_buf p @ c"
  have push: "cp_push p c = \<lparr>cp_buf = ?x\<rparr>"
    using Cons.prems(3,4) by (cases p) (auto simp: cp_push_def saturating_add_def usize_max_def
        MAX_CAPSULE_BUF_def H2_MAX_FRAME_SIZE_def)
  obtain qs rs b where ps: "ps = qs @ rs" and pa: "parse_all capsule_nxt ?x = (map (Inr \<circ> Datagram) qs, b)"
    and b: "b @ concat cs = concat (map wire rs)" "length b \<le> 65540"
    using parse_wire_prefix [of ?x "concat cs" ps] Cons.prems(1,2) by auto
  have qs: "concat (map packets_of (map (Inr \<circ> Datagram) qs)) = qs"
    by (rule packets_of_datagrams) (use Cons.prems(2) ps in simp)
  obtain d addr1 where dr: "drain_capsules False \<lparr>cp_buf = ?x\<rparr> inb addr = (d, \<lparr>cp_buf = b\<rparr>, send_each inb qs, addr1)"
    using drain_capsules_parse [of inb "\<lparr>cp_buf = ?x\<rparr>" False addr] Cons.prems(5) pa qs by auto
  have "capsule_nxt b = None" using capsules.parse_all_rest [of ?x] pa by simp
  with Cons.IH [of "\<lparr>cp_buf = b\<rparr>" rs "send_each inb qs" addr1] b Cons.prems(2,3,5) ps
  show ?case by (auto simp: push dr)
qed

subsection \<open>Batching\<close>

lemma append_datagram_wire: "fits_capsule v \<Longrightarrow> append_datagram_capsule out v = Returns (out @ wire v)"
  by (simp add: append_datagram_capsule_def append_capsule_wire CAPSULE_DATAGRAM_def)

text \<open>
  A batch is the capsules of the packets taken off the front of the queue, in their order; it is
  closed early only when the queue is empty, and is never longer than the limit and one capsule.
\<close>

lemma gather_batch_takes:
  assumes "\<forall>v \<in> set (ch_items c). length v \<le> 65535" and "length batch < 98308"
  shows "\<exists>qs rs. ch_items c = qs @ rs \<and>
    gather_batch batch c = Returns (batch @ concat (map wire qs), c\<lparr>ch_items := rs\<rparr>) \<and>
    (rs = [] \<or> H2_SEND_BATCH_BYTES \<le> length (batch @ concat (map wire qs))) \<and>
    length (batch @ concat (map wire qs)) < 98308"
  using assms
proof (induction "ch_items c" arbitrary: c batch)
  case Nil
  then have "ch_items c = []" by simp
  then show ?case using Nil by (cases c) (simp add: gather_batch.simps try_recv_def)
next
  case (Cons v vs)
  show ?case
  proof (cases "length batch < H2_SEND_BATCH_BYTES")
    case False
    then show ?thesis using Cons.prems
      by (intro exI [of _ "[]"] exI [of _ "ch_items c"]) (simp add: gather_batch.simps)
  next
    case True
    let ?c = "c\<lparr>ch_items := vs\<rparr>"
    have c: "ch_items c = v # vs" using Cons by simp
    have v: "length v \<le> 65535" using Cons c by simp
    have "\<forall>v \<in> set (ch_items ?c). length v \<le> 65535" using Cons c by simp
    moreover have "length (batch @ wire v) < 98308"
      using True length_wire [OF v] by (simp add: H2_SEND_BATCH_BYTES_def)
    ultimately obtain qs rs where
      "vs = qs @ rs" "gather_batch (batch @ wire v) ?c = Returns ((batch @ wire v) @ concat (map wire qs), ?c\<lparr>ch_items := rs\<rparr>)"
      "rs = [] \<or> H2_SEND_BATCH_BYTES \<le> length ((batch @ wire v) @ concat (map wire qs))"
      "length ((batch @ wire v) @ concat (map wire qs)) < 98308"
      using Cons.hyps(1) [of ?c "batch @ wire v"] by auto
    moreover have "gather_batch batch c = gather_batch (batch @ wire v) ?c"
      using True v by (simp add: gather_batch.simps [of batch] try_recv_def c append_datagram_wire)
    ultimately show ?thesis using c by (intro exI [of _ "v # qs"] exI [of _ rs]) auto
  qed
qed

text \<open>What the stream answers when the edge takes data: the wait for room ends, and so does the send.\<close>

definition grants :: "h2_answers \<Rightarrow> bool" where
  "grants a \<longleftrightarrow> ha_send_data a = None \<and>
     (\<forall>n < 98308. wait_capacity n (ha_capacity a) (ha_polls a) = Some (Inr ()))"

definition quiet_control :: "h2_sender \<Rightarrow> bool" where
  "quiet_control s \<longleftrightarrow> ch_items (sn_control s) = [] \<and> \<not> ch_tx_closed (sn_control s) \<and>
     \<not> ch_tx_closed (sn_outbound s)"

lemma pump_round_sends:
  assumes "grants a" and "quiet_control s" and "ch_items (sn_outbound s) = v # vs"
    and "\<forall>w \<in> set (v # vs). length w \<le> 65535"
  shows "\<exists>qs rs. vs = qs @ rs \<and>
    pump_outbound_round a s = Returns (PumpContinue
      (s\<lparr>sn_outbound := (sn_outbound s)\<lparr>ch_items := rs\<rparr>,
         sn_frames := sn_frames s @ [(concat (map wire (v # qs)), False)]\<rparr>))"
proof -
  let ?c = "(sn_outbound s)\<lparr>ch_items := vs\<rparr>"
  have v: "length v \<le> 65535" using assms(4) by simp
  have "length (wire v) < 98308" using length_wire [OF v] by simp
  then obtain qs rs where vs: "vs = qs @ rs"
    and g: "gather_batch (wire v) ?c = Returns (wire v @ concat (map wire qs), ?c\<lparr>ch_items := rs\<rparr>)"
    and l: "length (wire v @ concat (map wire qs)) < 98308"
    using gather_batch_takes [of ?c "wire v"] assms(4) by auto
  have "wire v \<noteq> []" by (simp add: capsule_wire_def CAPSULE_DATAGRAM_def varint_bytes_0)
  with l assms(1) have "send_capsule a (sn_frames s) (wire v @ concat (map wire qs)) =
      Some (Inr (), sn_frames s @ [(wire v @ concat (map wire qs), False)])"
    by (simp add: send_capsule_def grants_def)
  then show ?thesis using assms(2,3) vs g v
    by (intro exI [of _ qs] exI [of _ rs]) (simp add: pump_outbound_round_def quiet_control_def try_recv_def append_datagram_wire pump_send_def)
qed

lemma pump_sends_all:
  assumes "\<forall>a \<in> set as. grants a" and "quiet_control s" and "\<forall>w \<in> set (ch_items (sn_outbound s)). length w \<le> 65535"
    and "length (ch_items (sn_outbound s)) \<le> length as"
  shows "\<exists>s'. pump_outbound as s = Returns (None, s') \<and> ch_items (sn_outbound s') = [] \<and>
    concat (map fst (sn_frames s')) =
      concat (map fst (sn_frames s)) @ concat (map wire (ch_items (sn_outbound s)))"
  using assms
proof (induction as arbitrary: s)
  case Nil
  then show ?case by simp
next
  case (Cons a as)
  show ?case
  proof (cases "ch_items (sn_outbound s)")
    case Nil
    then show ?thesis using Cons.prems(2)
      by (simp add: pump_outbound_round_def quiet_control_def try_recv_def)
  next
    case (Cons v vs)
    with Cons.prems obtain qs rs where vs: "vs = qs @ rs" and
      r: "pump_outbound_round a s = Returns (PumpContinue
        (s\<lparr>sn_outbound := (sn_outbound s)\<lparr>ch_items := rs\<rparr>,
           sn_frames := sn_frames s @ [(concat (map wire (v # qs)), False)]\<rparr>))"
      using pump_round_sends [of a s v vs] by auto
    with Cons.IH [of "s\<lparr>sn_outbound := (sn_outbound s)\<lparr>ch_items := rs\<rparr>,
        sn_frames := sn_frames s @ [(concat (map wire (v # qs)), False)]\<rparr>"] Cons.prems Cons
    show ?thesis by (simp add: quiet_control_def)
  qed
qed

text \<open>
  C1. From end to end: the packets queued for sending are framed and batched onto the request
  stream, and a peer that receives that stream cut into pieces of any size up to the largest DATA
  frame gets exactly these packets in their order, as far as its queue has room, and ends with an
  empty parser.
\<close>

theorem h2_stream_delivers:
  assumes "\<forall>v \<in> set ps. ip_packet_ok v" and "quiet_control s" and "ch_items (sn_outbound s) = ps"
    and "sn_frames s = []" and "\<forall>a \<in> set as. grants a" and "length ps \<le> length as"
    and "\<not> ch_rx_closed inb"
  shows "\<exists>s'. pump_outbound as s = Returns (None, s') \<and> ch_items (sn_outbound s') = [] \<and>
    (\<forall>chunks. concat chunks = concat (map fst (sn_frames s')) \<longrightarrow>
       (\<forall>c \<in> set chunks. length c \<le> H2_MAX_FRAME_SIZE) \<longrightarrow>
       (\<exists>inb' addr'. receive_chunks capsule_parser_new inb addr chunks = (capsule_parser_new, inb', addr') \<and>
          ch_items inb' = ch_items inb @ take (chan_room inb) ps))"
proof -
  have "\<forall>v \<in> set ps. length v \<le> 65535" using assms(1) by (simp add: ip_packet_ok_def)
  then obtain s' where p: "pump_outbound as s = Returns (None, s')" "ch_items (sn_outbound s') = []"
    and f: "concat (map fst (sn_frames s')) = concat (map wire ps)"
    using pump_sends_all [of as s] assms(2-6) by auto
  have "\<exists>inb' addr'. receive_chunks capsule_parser_new inb addr chunks = (capsule_parser_new, inb', addr') \<and>
          ch_items inb' = ch_items inb @ take (chan_room inb) ps"
    if "concat chunks = concat (map fst (sn_frames s'))" "\<forall>c \<in> set chunks. length c \<le> H2_MAX_FRAME_SIZE"
    for chunks
  proof -
    have "capsule_nxt [] = None"
      by (simp add: capsule_nxt_def cp_next_def with_slice_cursor get_varint_cursor)
    then have "\<exists>addr'. receive_chunks capsule_parser_new inb addr chunks =
        (capsule_parser_new, send_each inb ps, addr')"
      using receive_wire [of capsule_parser_new chunks ps inb addr] that f assms(1,7)
      by (simp add: capsule_parser_new_def)
    then show ?thesis by (auto simp: send_each_items)
  qed
  with p show ?thesis by blast
qed

definition sample_packet :: bytes where
  "sample_packet = 0x45 # replicate 19 0"

definition sample_sender :: h2_sender where
  "sample_sender = \<lparr>sn_frames = [], sn_outbound = (chan_new 4)\<lparr>ch_items := [sample_packet, sample_packet]\<rparr>,
     sn_control = chan_new 16\<rparr>"

definition sample_answers :: h2_answers where
  "sample_answers = \<lparr>ha_capacity = 1000, ha_polls = [CapacityOk 100000], ha_send_data = None\<rparr>"

theorem h2_stream_delivers_witness:
  "\<exists>s'. pump_outbound [sample_answers, sample_answers] sample_sender = Returns (None, s') \<and>
    ch_items (sn_outbound s') = [] \<and>
    (\<forall>chunks. concat chunks = concat (map fst (sn_frames s')) \<longrightarrow>
       (\<forall>c \<in> set chunks. length c \<le> H2_MAX_FRAME_SIZE) \<longrightarrow>
       (\<exists>inb' addr'. receive_chunks capsule_parser_new (chan_new 8) None chunks = (capsule_parser_new, inb', addr') \<and>
          ch_items inb' = [sample_packet, sample_packet]))"
proof -
  have "grants sample_answers" by (simp add: grants_def sample_answers_def wait_capacity.simps)
  moreover have "ip_packet_ok sample_packet"
    by (simp add: ip_packet_ok_def looks_like_ip_packet_def sample_packet_def)
  ultimately show ?thesis
    using h2_stream_delivers [of "[sample_packet, sample_packet]" sample_sender
        "[sample_answers, sample_answers]" "chan_new 8" None]
    by (simp add: sample_sender_def quiet_control_def chan_new_def chan_room_def)
qed

end
