(* ===== verification/Tunnel_H2_Loop.thy ===== *)
theory Tunnel_H2_Loop
  imports Tunnel_H2
begin

text \<open>
  The event loop of \<^verbatim>\<open>masque_h2.rs\<close>: \<^verbatim>\<open>run\<close> after the edge has accepted the request, and the
  data-plane check of \<^verbatim>\<open>verify_h2\<close>. An event is the branch of the select that fires, with what it
  yields; a branch with a guard fires only when its guard holds. The invariants are proved by rule
  induction over the states the loop reaches.
\<close>

subsection \<open>The state of \<^verbatim>\<open>run\<close>\<close>

record h2_config =
  hc_data_check :: bool
  hc_probe :: bytes
  hc_validation_timeout :: nat
  hc_keepalive_timeout :: nat

text \<open>
  \<open>hr_ready_tx\<close>: the one-shot sender is still held; \<open>hr_ready_signals\<close> counts the signals sent on it.
\<close>

record h2_run =
  hr_ready_fired :: bool
  hr_ready_tx :: bool
  hr_ready_signals :: nat
  hr_validate_successes :: nat
  hr_validate_deadline :: "nat option"
  hr_awaiting_pong :: bool
  hr_pong_deadline :: "nat option"
  hr_capsules :: capsule_parser
  hr_sender :: "sender_msg chan"
  hr_inbound :: "bytes chan"
  hr_addr :: "assigned_addr chan option"

datatype h2_event =
    KeepaliveTick "string option"
  | Pong "string option"
  | ProbeTick
  | PongDeadline
  | Ctrl "control option"
  | SenderOutcome "unit result option"
  | BodyData bytes
  | BodyError string
  | BodyEnd

datatype h2_step =
    H2Continue h2_run
  | H2Return "unit result" h2_run
  | H2Blocked h2_run

text \<open>\<^verbatim>\<open>ready_tx.take()\<close> and the send on it.\<close>

definition fire_ready :: "h2_run \<Rightarrow> h2_run" where
  "fire_ready s =
     (if hr_ready_tx s
      then s\<lparr>hr_ready_tx := False, hr_ready_signals := Suc (hr_ready_signals s)\<rparr> else s)"

definition send_probe :: "h2_config \<Rightarrow> h2_run \<Rightarrow> h2_run" where
  "send_probe cfg s = s\<lparr>hr_sender := snd (try_send (hr_sender s) (SendCapsule (hc_probe cfg)))\<rparr>"

definition h2_start :: "h2_config \<Rightarrow> nat \<Rightarrow> bool \<Rightarrow> bytes chan \<Rightarrow> assigned_addr chan option \<Rightarrow> h2_run" where
  "h2_start cfg now has_ready_tx inbound addr =
     (let s = \<lparr>hr_ready_fired = False, hr_ready_tx = has_ready_tx, hr_ready_signals = 0,
               hr_validate_successes = 0, hr_validate_deadline = None, hr_awaiting_pong = False,
               hr_pong_deadline = None, hr_capsules = capsule_parser_new, hr_sender = chan_new 16,
               hr_inbound = inbound, hr_addr = addr\<rparr>
      in if hc_data_check cfg
         then (send_probe cfg s)\<lparr>hr_validate_deadline := Some (now + hc_validation_timeout cfg)\<rparr>
         else (fire_ready s)\<lparr>hr_ready_fired := True\<rparr>)"

subsection \<open>Closing\<close>

text \<open>
  \<^verbatim>\<open>close_sender\<close> waits until the channel to the send task has room for the closing message, so it
  does not return while that channel is full and its receiver alive. The grace period for the
  answer changes no state.
\<close>

definition close_sender :: "sender_msg chan \<Rightarrow> sender_msg chan option" where
  "close_sender c =
     (case try_send c Finish of
        (Sent, c') \<Rightarrow> Some c'
      | (Closed, c') \<Rightarrow> Some c'
      | (Full, c') \<Rightarrow> None)"

definition close_and_return :: "h2_run \<Rightarrow> unit result \<Rightarrow> h2_step" where
  "close_and_return s r =
     (case close_sender (hr_sender s) of
        None \<Rightarrow> H2Blocked s
      | Some c \<Rightarrow> H2Return r (s\<lparr>hr_sender := c\<rparr>))"

subsection \<open>One round of the loop\<close>

definition h2_enabled :: "h2_config \<Rightarrow> h2_run \<Rightarrow> h2_event \<Rightarrow> bool" where
  "h2_enabled cfg s ev =
     (case ev of
        KeepaliveTick r \<Rightarrow> hr_ready_fired s \<and> \<not> hr_awaiting_pong s
      | Pong r \<Rightarrow> hr_awaiting_pong s
      | ProbeTick \<Rightarrow> hc_data_check cfg \<and> \<not> hr_ready_fired s
      | PongDeadline \<Rightarrow> hr_pong_deadline s \<noteq> None
      | _ \<Rightarrow> True)"

definition deadline_passed :: "nat option \<Rightarrow> nat \<Rightarrow> bool" where
  "deadline_passed d now = (case d of None \<Rightarrow> False | Some at \<Rightarrow> at \<le> now)"

definition h2_on_data :: "h2_config \<Rightarrow> h2_run \<Rightarrow> bytes \<Rightarrow> h2_run" where
  "h2_on_data cfg s chunk =
     (case drain_capsules False (cp_push (hr_capsules s) chunk) (hr_inbound s) (hr_addr s) of
        (got_data, capsules, inbound, addr) \<Rightarrow>
          let s1 = s\<lparr>hr_capsules := capsules, hr_inbound := inbound, hr_addr := addr\<rparr>
          in if got_data \<and> \<not> hr_ready_fired s1
             then let s2 = s1\<lparr>hr_validate_successes := Suc (hr_validate_successes s1)\<rparr>
                  in if DATA_PROBE_REQUIRED_SUCCESSES \<le> hr_validate_successes s2
                     then fire_ready (s2\<lparr>hr_ready_fired := True, hr_validate_deadline := None\<rparr>)
                     else send_probe cfg s2
             else s1)"

definition h2_on_event :: "h2_config \<Rightarrow> nat \<Rightarrow> h2_run \<Rightarrow> h2_event \<Rightarrow> h2_step" where
  "h2_on_event cfg now s ev =
     (case ev of
        KeepaliveTick None \<Rightarrow>
          H2Continue (s\<lparr>hr_awaiting_pong := True,
                        hr_pong_deadline := Some (now + hc_keepalive_timeout cfg)\<rparr>)
      | KeepaliveTick (Some e) \<Rightarrow> H2Continue s
      | Pong None \<Rightarrow> H2Continue (s\<lparr>hr_awaiting_pong := False, hr_pong_deadline := None\<rparr>)
      | Pong (Some e) \<Rightarrow> close_and_return s (Inl (Masque (''h2 keepalive: '' @ e)))
      | ProbeTick \<Rightarrow> H2Continue (send_probe cfg s)
      | PongDeadline \<Rightarrow> H2Continue s
      | Ctrl (Some Close) \<Rightarrow> close_and_return s (Inr ())
      | Ctrl None \<Rightarrow> close_and_return s (Inr ())
      | Ctrl (Some Migrate) \<Rightarrow> H2Continue s
      | SenderOutcome (Some r) \<Rightarrow> H2Return r s
      | SenderOutcome None \<Rightarrow> H2Return (Inl (Masque ''h2 send task stopped'')) s
      | BodyData chunk \<Rightarrow> H2Continue (h2_on_data cfg s chunk)
      | BodyError e \<Rightarrow> H2Return (Inl (Masque (''h2 body: '' @ e))) s
      | BodyEnd \<Rightarrow> H2Return (Inr ()) s)"

text \<open>
  The deadlines are looked at before the select; \<open>now\<close> is the clock there and \<open>later\<close> the clock when
  the branch runs.
\<close>

definition h2_round :: "h2_config \<Rightarrow> nat \<Rightarrow> nat \<Rightarrow> h2_run \<Rightarrow> h2_event \<Rightarrow> h2_step" where
  "h2_round cfg now later s ev =
     (if hc_data_check cfg \<and> \<not> hr_ready_fired s \<and> deadline_passed (hr_validate_deadline s) now
      then close_and_return s
        (Inl (Masque ''h2 data-plane validation timeout (handshake ok, no traffic)''))
      else if deadline_passed (hr_pong_deadline s) now
      then close_and_return s (Inl (Masque ''h2 keepalive timeout''))
      else h2_on_event cfg later s ev)"

subsection \<open>Reachable states\<close>

text \<open>
  Between rounds the send task may take messages off its channel or end, and the netstack may take
  packets off the inbound channel or go away.
\<close>

inductive h2_reach :: "h2_config \<Rightarrow> h2_run \<Rightarrow> bool" for cfg where
  start: "h2_reach cfg (h2_start cfg now has_ready_tx inbound addr)"
| round: "h2_reach cfg s \<Longrightarrow> h2_enabled cfg s ev \<Longrightarrow> h2_round cfg now later s ev = H2Continue s' \<Longrightarrow>
    h2_reach cfg s'"
| sender_takes: "h2_reach cfg s \<Longrightarrow> try_recv (hr_sender s) = (Received m, c) \<Longrightarrow>
    h2_reach cfg (s\<lparr>hr_sender := c\<rparr>)"
| sender_ends: "h2_reach cfg s \<Longrightarrow> h2_reach cfg (s\<lparr>hr_sender := (hr_sender s)\<lparr>ch_rx_closed := True\<rparr>\<rparr>)"
| inbound_takes: "h2_reach cfg s \<Longrightarrow> try_recv (hr_inbound s) = (Received pkt, c) \<Longrightarrow>
    h2_reach cfg (s\<lparr>hr_inbound := c\<rparr>)"
| inbound_ends: "h2_reach cfg s \<Longrightarrow> h2_reach cfg (s\<lparr>hr_inbound := (hr_inbound s)\<lparr>ch_rx_closed := True\<rparr>\<rparr>)"

definition h2_inv :: "h2_config \<Rightarrow> h2_run \<Rightarrow> bool" where
  "h2_inv cfg s \<longleftrightarrow>
     hr_ready_signals s + (if hr_ready_tx s then 1 else 0) \<le> 1 \<and>
     (\<not> hr_ready_fired s \<longrightarrow> hr_ready_signals s = 0) \<and>
     (hr_ready_fired s \<longrightarrow> \<not> hr_ready_tx s) \<and>
     hr_validate_successes s \<le> DATA_PROBE_REQUIRED_SUCCESSES \<and>
     (hc_data_check cfg \<longrightarrow>
        (hr_ready_fired s \<longleftrightarrow> hr_validate_successes s = DATA_PROBE_REQUIRED_SUCCESSES) \<and>
        (hr_ready_fired s \<longleftrightarrow> hr_validate_deadline s = None)) \<and>
     (\<not> hc_data_check cfg \<longrightarrow> hr_ready_fired s \<and> hr_validate_successes s = 0 \<and> hr_validate_deadline s = None) \<and>
     (hr_awaiting_pong s \<longleftrightarrow> hr_pong_deadline s \<noteq> None) \<and>
     (hr_awaiting_pong s \<longrightarrow> hr_ready_fired s) \<and>
     length (cp_buf (hr_capsules s)) \<le> MAX_CAPSULE_BUF \<and>
     ch_cap (hr_sender s) = 16 \<and> length (ch_items (hr_sender s)) \<le> 16"

subsection \<open>The invariant\<close>

lemma cp_push_bound: "length (cp_buf (cp_push p d)) \<le> MAX_CAPSULE_BUF"
  by (auto simp: cp_push_def saturating_add_def MAX_CAPSULE_BUF_def usize_max_def)

lemma drain_capsules_unfold:
  assumes "cp_next p = (r, q)"
  shows "(\<exists>d2 i2 a2. drain_capsules d p i a = (d2, q, i2, a2)) \<or>
    (r \<noteq> Inr None \<and> (\<exists>d2 i2 a2. drain_capsules d p i a = drain_capsules d2 q i2 a2))"
  using assms
  by (auto simp: drain_capsules.simps [of d p]
      split: sum.splits capsule.splits option.splits prod.splits send_outcome.splits) blast+

lemma drain_capsules_buf_le:
  "drain_capsules d p i a = (d', p', i', a') \<Longrightarrow> length (cp_buf p') \<le> length (cp_buf p)"
proof (induction "cp_buf p" arbitrary: p d i a rule: length_induct)
  case 1
  obtain r q where q: "cp_next p = (r, q)" by (cases "cp_next p")
  have le: "length (cp_buf q) \<le> length (cp_buf p)"
    using cp_next_less [OF q] cp_next_None [of p] q by (cases "r = Inr None") auto
  consider d2 i2 a2 where "drain_capsules d p i a = (d2, q, i2, a2)"
    | d2 i2 a2 where "r \<noteq> Inr None" and "drain_capsules d p i a = drain_capsules d2 q i2 a2"
    using drain_capsules_unfold [OF q, of d i a] by blast
  then show ?case
  proof cases
    case 1
    then show ?thesis using "1.prems" le by simp
  next
    case 2
    then have "length (cp_buf q) < length (cp_buf p)" using cp_next_less [OF q] by simp
    then have "length (cp_buf p') \<le> length (cp_buf q)"
      using "1.hyps" [rule_format, of "cp_buf q" q d2 i2 a2] "1.prems" 2 by simp
    then show ?thesis using le by simp
  qed
qed

lemma try_send_16:
  "ch_cap c = 16 \<Longrightarrow> length (ch_items c) \<le> 16 \<Longrightarrow> length (ch_items (snd (try_send c x))) \<le> 16"
  by (simp add: try_send_def)

lemma send_probe_inv: "h2_inv cfg s \<Longrightarrow> h2_inv cfg (send_probe cfg s)"
  by (auto simp: h2_inv_def send_probe_def try_send_16)

lemma h2_start_inv: "h2_inv cfg (h2_start cfg now b inbound addr)"
  by (simp add: h2_inv_def h2_start_def Let_def send_probe_def fire_ready_def chan_new_def
      try_send_def capsule_parser_new_def DATA_PROBE_REQUIRED_SUCCESSES_def)

lemma h2_on_data_inv:
  assumes "h2_inv cfg s"
  shows "h2_inv cfg (h2_on_data cfg s chunk)"
proof -
  obtain g p i a where d: "drain_capsules False (cp_push (hr_capsules s) chunk) (hr_inbound s) (hr_addr s) = (g, p, i, a)"
    by (metis prod_cases4)
  have "length (cp_buf p) \<le> MAX_CAPSULE_BUF"
    using drain_capsules_buf_le [OF d] cp_push_bound [of "hr_capsules s" chunk] by linarith
  then have "h2_inv cfg (s\<lparr>hr_capsules := p, hr_inbound := i, hr_addr := a\<rparr>)"
    using assms by (auto simp: h2_inv_def)
  then show ?thesis
    by (auto simp: h2_on_data_def d Let_def fire_ready_def DATA_PROBE_REQUIRED_SUCCESSES_def h2_inv_def
        send_probe_def try_send_16)
qed

lemma h2_round_inv:
  assumes "h2_inv cfg s" and "h2_enabled cfg s ev" and "h2_round cfg now later s ev = H2Continue s'"
  shows "h2_inv cfg s'"
proof -
  have "h2_on_event cfg later s ev = H2Continue s'"
    using assms(3) by (simp add: h2_round_def close_and_return_def split: if_splits option.splits)
  then show ?thesis using assms(1,2) send_probe_inv [OF assms(1)] h2_on_data_inv [OF assms(1)]
    by (cases ev rule: h2_event.exhaust)
      (auto simp: h2_on_event_def h2_enabled_def close_and_return_def
        split: option.splits control.splits; simp add: h2_inv_def)+
qed

lemma h2_reach_inv: "h2_reach cfg s \<Longrightarrow> h2_inv cfg s"
proof (induction rule: h2_reach.induct)
  case (start now b inbound addr)
  show ?case by (rule h2_start_inv)
next
  case (round s ev now later s')
  then show ?case by (blast intro: h2_round_inv)
next
  case (sender_takes s m c)
  then have "ch_cap c = ch_cap (hr_sender s)" "length (ch_items c) \<le> length (ch_items (hr_sender s))"
    by (auto simp: try_recv_def split: list.splits)
  with sender_takes(3) show ?case by (auto simp: h2_inv_def)
qed (auto simp: h2_inv_def)

subsection \<open>Properties of the loop\<close>

text \<open>
  What the loop has heard: \<open>bufs\<close> holds, for each piece of the body received so far, what the capsule parser
  held when the piece had been added to it.
\<close>

inductive h2_trace :: "h2_config \<Rightarrow> bool \<Rightarrow> bytes list \<Rightarrow> h2_run \<Rightarrow> bool" for cfg has_ready_tx where
  starts: "h2_trace cfg has_ready_tx [] (h2_start cfg now has_ready_tx inbound addr)"
| hears: "h2_trace cfg has_ready_tx bufs s \<Longrightarrow> h2_round cfg now later s (BodyData chunk) = H2Continue s' \<Longrightarrow>
    h2_trace cfg has_ready_tx (bufs @ [cp_buf (cp_push (hr_capsules s) chunk)]) s'"
| rounds: "h2_trace cfg has_ready_tx bufs s \<Longrightarrow> h2_enabled cfg s ev \<Longrightarrow> \<forall>chunk. ev \<noteq> BodyData chunk \<Longrightarrow>
    h2_round cfg now later s ev = H2Continue s' \<Longrightarrow> h2_trace cfg has_ready_tx bufs s'"
| sender_takes: "h2_trace cfg has_ready_tx bufs s \<Longrightarrow> try_recv (hr_sender s) = (Received m, c) \<Longrightarrow>
    h2_trace cfg has_ready_tx bufs (s\<lparr>hr_sender := c\<rparr>)"
| sender_ends: "h2_trace cfg has_ready_tx bufs s \<Longrightarrow>
    h2_trace cfg has_ready_tx bufs (s\<lparr>hr_sender := (hr_sender s)\<lparr>ch_rx_closed := True\<rparr>\<rparr>)"
| inbound_takes: "h2_trace cfg has_ready_tx bufs s \<Longrightarrow> try_recv (hr_inbound s) = (Received pkt, c) \<Longrightarrow>
    h2_trace cfg has_ready_tx bufs (s\<lparr>hr_inbound := c\<rparr>)"
| inbound_ends: "h2_trace cfg has_ready_tx bufs s \<Longrightarrow>
    h2_trace cfg has_ready_tx bufs (s\<lparr>hr_inbound := (hr_inbound s)\<lparr>ch_rx_closed := True\<rparr>\<rparr>)"

text \<open>
  The bytes carry a packet: one of the capsules in front of the first malformed one is a datagram with an IP
  packet. Assigned addresses, route advertisements, other capsules and half a capsule do not count.
\<close>

definition carries_packet :: "bytes \<Rightarrow> bool" where
  "carries_packet b \<longleftrightarrow>
     list_ex (\<lambda>m. packets_of m \<noteq> []) (takeWhile (\<lambda>m. \<not> isl m) (fst (parse_all capsule_nxt b)))"

lemma drain_capsules_delivered: "fst (drain_capsules d p i a) = (d \<or> carries_packet (cp_buf p))"
proof (induction "cp_buf p" arbitrary: p d i a rule: length_induct)
  case 1
  show ?case
  proof (cases "capsule_nxt (cp_buf p)")
    case None
    then have "cp_next p = (Inr None, p)"
      using cp_next_None [of p]
      by (cases p) (auto simp: capsule_nxt_def split: prod.splits sum.splits option.splits)
    then show ?thesis
      by (simp add: drain_capsules.simps [of d p] capsules.parse_all_None [OF None] carries_packet_def)
  next
    case (Some q)
    then obtain m r where q: "capsule_nxt (cp_buf p) = Some (m, r)" by (cases q) auto
    have carries: "carries_packet (cp_buf p) = (\<not> isl m \<and> (packets_of m \<noteq> [] \<or> carries_packet r))"
      by (cases "isl m") (simp_all add: carries_packet_def capsules.parse_all_Some [OF q])
    have IH: "fst (drain_capsules d' \<lparr>cp_buf = r\<rparr> i' a') = (d' \<or> carries_packet r)" for d' i' a'
      using 1(1) [rule_format, of r "\<lparr>cp_buf = r\<rparr>"] capsules.progress [OF q] by simp
    show ?thesis
    proof (cases m)
      case (Inl e)
      with q have "cp_next p = (Inl e, \<lparr>cp_buf = r\<rparr>)"
        by (cases p) (auto simp: capsule_nxt_def split: prod.splits sum.splits option.splits)
      then show ?thesis using carries Inl by (simp add: drain_capsules.simps [of d p])
    next
      case (Inr c)
      with q have "cp_next p = (Inr (Some c), \<lparr>cp_buf = r\<rparr>)"
        by (cases p) (auto simp: capsule_nxt_def split: prod.splits sum.splits option.splits)
      then show ?thesis using carries IH Inr
        by (cases c) (auto simp: drain_capsules.simps [of d p] packets_of_def
            split: option.splits prod.splits send_outcome.splits)
    qed
  qed
qed

lemma h2_trace_reach: "h2_trace cfg b bufs s \<Longrightarrow> h2_reach cfg s"
proof (induction rule: h2_trace.induct)
  case (hears bufs s now later chunk s')
  show ?case by (rule h2_reach.round [OF hears.IH _ hears.hyps(2)]) (simp add: h2_enabled_def)
qed (blast intro: h2_reach.intros)+

lemma h2_on_data_counts:
  fixes chunk :: bytes
  assumes "h2_inv cfg s"
  defines "heard \<equiv> carries_packet (cp_buf (cp_push (hr_capsules s) chunk)) \<and> \<not> hr_ready_fired s"
    and "s' \<equiv> h2_on_data cfg s chunk"
  shows "hr_validate_successes s' = hr_validate_successes s + (if heard then 1 else 0)"
    and "hr_ready_fired s' = (hr_ready_fired s \<or> heard \<and> DATA_PROBE_REQUIRED_SUCCESSES \<le> Suc (hr_validate_successes s))"
    and "hr_ready_signals s' = hr_ready_signals s + (if hr_ready_fired s' \<and> hr_ready_tx s then 1 else 0)"
    and "hr_ready_tx s' = (hr_ready_tx s \<and> \<not> hr_ready_fired s')"
proof -
  obtain g p i a where d: "drain_capsules False (cp_push (hr_capsules s) chunk) (hr_inbound s) (hr_addr s) = (g, p, i, a)"
    by (metis prod_cases4)
  then have g: "g = carries_packet (cp_buf (cp_push (hr_capsules s) chunk))"
    using drain_capsules_delivered [of False "cp_push (hr_capsules s) chunk" "hr_inbound s" "hr_addr s"] by simp
  have tx: "hr_ready_fired s \<Longrightarrow> \<not> hr_ready_tx s" using assms(1) by (simp add: h2_inv_def)
  note unfolds = s'_def heard_def h2_on_data_def d g Let_def fire_ready_def send_probe_def
  show "hr_validate_successes s' = hr_validate_successes s + (if heard then 1 else 0)" by (simp add: unfolds)
  show "hr_ready_fired s' = (hr_ready_fired s \<or> heard \<and> DATA_PROBE_REQUIRED_SUCCESSES \<le> Suc (hr_validate_successes s))"
    by (auto simp: unfolds)
  show "hr_ready_signals s' = hr_ready_signals s + (if hr_ready_fired s' \<and> hr_ready_tx s then 1 else 0)"
    and "hr_ready_tx s' = (hr_ready_tx s \<and> \<not> hr_ready_fired s')"
    using tx by (auto simp: unfolds)
qed

text \<open>A round that receives no piece of the body leaves the validation as it is.\<close>

lemma h2_round_keeps:
  assumes "h2_round cfg now later s ev = H2Continue s'" and "\<forall>chunk. ev \<noteq> BodyData chunk"
  shows "hr_validate_successes s' = hr_validate_successes s \<and> hr_ready_fired s' = hr_ready_fired s \<and>
    hr_ready_signals s' = hr_ready_signals s \<and> hr_ready_tx s' = hr_ready_tx s"
  using assms
  by (cases ev rule: h2_event.exhaust)
    (auto simp: h2_round_def h2_on_event_def close_and_return_def send_probe_def
      split: if_splits option.splits control.splits)

lemma h2_trace_counts:
  "h2_trace cfg b bufs s \<Longrightarrow>
   hr_validate_successes s =
     (if hc_data_check cfg then min DATA_PROBE_REQUIRED_SUCCESSES (length (filter carries_packet bufs)) else 0) \<and>
   hr_ready_signals s = (if b \<and> hr_ready_fired s then 1 else 0) \<and> hr_ready_tx s = (b \<and> \<not> hr_ready_fired s)"
proof (induction rule: h2_trace.induct)
  case (starts now inbound addr)
  show ?case by (simp add: h2_start_def Let_def send_probe_def fire_ready_def)
next
  case (hears bufs s now later chunk s')
  have inv: "h2_inv cfg s" by (rule h2_reach_inv [OF h2_trace_reach [OF hears.hyps(1)]])
  have "s' = h2_on_data cfg s chunk"
    using hears.hyps(2) by (simp add: h2_round_def h2_on_event_def close_and_return_def split: if_splits option.splits)
  with hears.IH h2_on_data_counts [OF inv, of chunk] inv show ?case
    by (auto simp: h2_inv_def split: if_splits)
next
  case (rounds bufs s ev now later s')
  then show ?case using h2_round_keeps [OF rounds.hyps(4,3)] by simp
qed simp_all

text \<open>
  C32. The tunnel is announced as ready at most once, and with the data check on never before the data plane was
  confirmed: whatever was received, the loop has counted exactly the pieces of the body that carried an IP packet,
  up to the two that are required, it is ready exactly when two of them did, and until then the
  validation deadline stays armed. An assigned address, an empty piece or half a capsule does not count. With the
  data check off the tunnel is ready from the start and nothing is counted. The signal is sent exactly when the
  tunnel is ready and somebody waits for it. A pong is awaited exactly while its deadline is armed.
\<close>

theorem h2_ready_only_when_validated:
  assumes "h2_trace cfg has_ready_tx bufs s"
  shows "hr_ready_signals s = (if has_ready_tx \<and> hr_ready_fired s then 1 else 0) \<and>
    hr_ready_fired s = (if hc_data_check cfg then 2 \<le> length (filter carries_packet bufs) else True) \<and>
    hr_validate_successes s = (if hc_data_check cfg then min 2 (length (filter carries_packet bufs)) else 0) \<and>
    (hr_validate_deadline s = None) = hr_ready_fired s \<and>
    hr_awaiting_pong s = (hr_pong_deadline s \<noteq> None) \<and>
    length (cp_buf (hr_capsules s)) \<le> MAX_CAPSULE_BUF"
proof -
  have inv: "h2_inv cfg s" by (rule h2_reach_inv [OF h2_trace_reach [OF assms]])
  show ?thesis using inv h2_trace_counts [OF assms]
    by (auto simp: h2_inv_def DATA_PROBE_REQUIRED_SUCCESSES_def)
qed

definition sample_h2_config :: h2_config where
  "sample_h2_config = \<lparr>hc_data_check = True, hc_probe = wire sample_packet,
     hc_validation_timeout = 10000, hc_keepalive_timeout = 20000\<rparr>"

definition sample_h2_run :: h2_run where
  "sample_h2_run = h2_start sample_h2_config 0 True (chan_new 8) None"

lemma sample_h2_reach: "h2_reach sample_h2_config sample_h2_run"
  unfolding sample_h2_run_def by (rule h2_reach.start)

text \<open>Two answers that carry a packet, with a piece between them that carries none.\<close>

definition listening :: "h2_run \<Rightarrow> bool" where
  "listening s \<longleftrightarrow> cp_buf (hr_capsules s) = [] \<and> \<not> ch_rx_closed (hr_inbound s) \<and> hr_pong_deadline s = None \<and>
     (hr_ready_fired s \<or> (\<exists>d. hr_validate_deadline s = Some d \<and> 0 < d))"

lemma capsule_nxt_empty: "capsule_nxt [] = None"
  using capsules.progress [of "[]"] by (cases "capsule_nxt []") auto

lemmas empty_parsed = capsules.parse_all_None [OF capsule_nxt_empty]

lemma sample_packet_ok: "ip_packet_ok sample_packet" "fits_capsule sample_packet"
  by (auto intro!: ip_packet_fits simp: ip_packet_ok_def looks_like_ip_packet_def sample_packet_def)

lemma wire_parsed: "parse_all capsule_nxt (wire sample_packet) = ([Inr (Datagram sample_packet)], [])"
proof -
  note n = capsule_nxt_wire [OF sample_packet_ok(2), of "[]"]
  show ?thesis using capsules.parse_all_Some [OF n] empty_parsed by simp
qed

lemma wire_heard:
  assumes "h2_trace cfg b bufs s" and "listening s" and "v = [] \<or> v = wire sample_packet"
  shows "\<exists>s'. h2_trace cfg b (bufs @ [v]) s' \<and> listening s'"
proof -
  have p: "parse_all capsule_nxt v = (if v = [] then [] else [Inr (Datagram sample_packet)], [])"
    using assms(3) wire_parsed empty_parsed by auto
  have len: "length v \<le> 65540"
    using assms(3) length_wire [of sample_packet] by (auto simp: sample_packet_def)
  then have buf: "cp_buf (cp_push (hr_capsules s) v) = v"
    using assms(2) by (simp add: listening_def cp_push_def saturating_add_def MAX_CAPSULE_BUF_def usize_max_def)
  obtain addr' where d: "drain_capsules False (cp_push (hr_capsules s) v) (hr_inbound s) (hr_addr s) =
      (concat (map packets_of (fst (parse_all capsule_nxt v))) \<noteq> [], \<lparr>cp_buf = []\<rparr>,
       send_each (hr_inbound s) (concat (map packets_of (fst (parse_all capsule_nxt v)))), addr')"
    using drain_capsules_parse [of "hr_inbound s" "cp_push (hr_capsules s) v" False "hr_addr s"] assms(2) p buf
    by (auto simp: listening_def split: if_splits)
  have "h2_round cfg 0 0 s (BodyData v) = H2Continue (h2_on_data cfg s v)"
    using assms(2) by (auto simp: listening_def h2_round_def h2_on_event_def deadline_passed_def split: option.splits)
  from h2_trace.hears [OF assms(1) this] buf have "h2_trace cfg b (bufs @ [v]) (h2_on_data cfg s v)" by simp
  moreover have "listening (h2_on_data cfg s v)"
    using assms(2) by (auto simp: listening_def h2_on_data_def d Let_def fire_ready_def send_probe_def)
  ultimately show ?thesis by blast
qed

theorem h2_ready_only_when_validated_witness:
  "\<exists>s bufs. h2_trace sample_h2_config True bufs s \<and> bufs = [wire sample_packet, [], wire sample_packet] \<and>
     hr_ready_fired s \<and> hr_ready_signals s = 1 \<and> hr_validate_deadline s = None \<and>
     (\<exists>s0. h2_trace sample_h2_config True [wire sample_packet, []] s0 \<and> \<not> hr_ready_fired s0 \<and>
        hr_validate_successes s0 = 1 \<and> hr_validate_deadline s0 \<noteq> None)"
proof -
  let ?p = "wire sample_packet"
  have "h2_trace sample_h2_config True [] sample_h2_run \<and> listening sample_h2_run"
    unfolding sample_h2_run_def
    by (intro conjI h2_trace.starts) (simp add: listening_def sample_h2_config_def h2_start_def Let_def send_probe_def
      capsule_parser_new_def chan_new_def)
  then obtain s1 where s1: "h2_trace sample_h2_config True [?p] s1" "listening s1"
    using wire_heard [of sample_h2_config True "[]" sample_h2_run ?p] by auto
  then obtain s2 where s2: "h2_trace sample_h2_config True [?p, []] s2" "listening s2"
    using wire_heard [OF s1, of "[]"] by auto
  then obtain s3 where s3: "h2_trace sample_h2_config True [?p, [], ?p] s3"
    using wire_heard [OF s2, of ?p] by auto
  have "looks_like_ip_packet sample_packet" "sample_packet \<noteq> []" by (simp_all add: looks_like_ip_packet_def sample_packet_def)
  then have c: "carries_packet ?p" "\<not> carries_packet []"
    by (auto simp: carries_packet_def wire_parsed empty_parsed packets_of_def strip_datagram_context_def Let_def
        split: option.splits)
  have check: "hc_data_check sample_h2_config" by (simp add: sample_h2_config_def)
  have r3: "hr_ready_fired s3" "hr_ready_signals s3 = 1" "hr_validate_deadline s3 = None"
    and r2: "\<not> hr_ready_fired s2" "hr_validate_successes s2 = 1" "hr_validate_deadline s2 \<noteq> None"
    using h2_ready_only_when_validated [OF s3] h2_ready_only_when_validated [OF s2(1)] c check by auto
  from s3 s2(1) r3 r2 show ?thesis by blast
qed

text \<open>
  C38. A silent edge is found out: a round that starts at or after the validation deadline (data
  check on, not yet ready) or the pong deadline does not go on. It returns an error, and it can be
  held up only while the channel to the send task is full.
\<close>

theorem h2_deadlines_end_the_loop:
  assumes "h2_reach cfg s"
    and "(hc_data_check cfg \<and> \<not> hr_ready_fired s \<and> deadline_passed (hr_validate_deadline s) now) \<or>
         deadline_passed (hr_pong_deadline s) now"
  shows "(\<exists>e s'. h2_round cfg now later s ev = H2Return (Inl (Masque e)) s') \<or>
    (h2_round cfg now later s ev = H2Blocked s \<and> length (ch_items (hr_sender s)) = 16 \<and>
     \<not> ch_rx_closed (hr_sender s))"
proof -
  have inv: "h2_inv cfg s" by (rule h2_reach_inv [OF assms(1)])
  have "(\<exists>s'. close_and_return s r = H2Return r s') \<or>
    (close_and_return s r = H2Blocked s \<and> length (ch_items (hr_sender s)) = 16 \<and> \<not> ch_rx_closed (hr_sender s))"
    for r
    using inv by (auto simp: close_and_return_def close_sender_def try_send_def h2_inv_def)
  then show ?thesis using assms(2) unfolding h2_round_def by (auto; meson)
qed

theorem h2_deadlines_end_the_loop_witness:
  "\<exists>e s'. h2_round sample_h2_config 10000 10000 sample_h2_run BodyEnd = H2Return (Inl (Masque e)) s'"
  using h2_deadlines_end_the_loop [OF sample_h2_reach, of 10000 10000 BodyEnd]
  by (simp add: sample_h2_run_def sample_h2_config_def h2_start_def Let_def send_probe_def
      deadline_passed_def try_send_def chan_new_def)

text \<open>
  The probes, one every 700 ms, that pile up on the channel while the send task waits for the edge to
  open its window.
\<close>

lemma probe_round:
  assumes "hc_data_check cfg" and "\<not> hr_ready_fired s" and "hr_validate_deadline s = Some d" and "t < d"
    and "hr_pong_deadline s = None"
  shows "h2_round cfg t t s ProbeTick = H2Continue (send_probe cfg s)"
  using assms by (simp add: h2_round_def deadline_passed_def h2_on_event_def)

definition probed :: "h2_config \<Rightarrow> nat \<Rightarrow> h2_run" where
  "probed cfg n = (send_probe cfg ^^ n) (h2_start cfg 0 True (chan_new 8) None)"

lemma probed_state:
  assumes "hc_data_check cfg"
  shows "\<not> hr_ready_fired (probed cfg n)"
    and "hr_validate_deadline (probed cfg n) = Some (hc_validation_timeout cfg)"
    and "hr_pong_deadline (probed cfg n) = None"
    and "\<not> ch_rx_closed (hr_sender (probed cfg n))" and "ch_cap (hr_sender (probed cfg n)) = 16"
    and "length (ch_items (hr_sender (probed cfg n))) = min 16 (Suc n)"
  using assms
  by (induction n) (simp_all add: probed_def h2_start_def Let_def send_probe_def chan_new_def try_send_def)

lemma probed_reach:
  assumes "hc_data_check cfg" and "700 * n < hc_validation_timeout cfg"
  shows "h2_reach cfg (probed cfg n)"
  using assms(2)
proof (induction n)
  case 0
  show ?case by (simp add: probed_def h2_reach.start)
next
  case (Suc n)
  have "h2_enabled cfg (probed cfg n) ProbeTick"
    using assms(1) probed_state(1) [OF assms(1)] by (simp add: h2_enabled_def)
  moreover have "h2_round cfg (700 * n) (700 * n) (probed cfg n) ProbeTick = H2Continue (probed cfg (Suc n))"
    using probe_round [OF assms(1) probed_state(1,2) [OF assms(1)] _ probed_state(3) [OF assms(1)], of "700 * n" n] Suc.prems
    by (simp add: probed_def)
  moreover have "h2_reach cfg (probed cfg n)" using Suc by simp
  ultimately show ?case by (blast intro: h2_reach.round)
qed

text \<open>
  The other case of the deadlines happens: when the send task is stuck waiting for the edge to
  open its window and the validation timeout is long, the probes fill its channel, and the round that finds the
  validation deadline passed waits in \<^verbatim>\<open>close_sender\<close> instead of reporting the timeout.
\<close>

lemma h2_validation_timeout_can_block:
  "\<exists>cfg s. h2_reach cfg s \<and> hc_data_check cfg \<and> \<not> hr_ready_fired s \<and>
     (\<forall>now later ev. hc_validation_timeout cfg \<le> now \<longrightarrow> h2_round cfg now later s ev = H2Blocked s)"
proof -
  let ?cfg = "sample_h2_config\<lparr>hc_validation_timeout := 60000\<rparr>"
  let ?s = "probed ?cfg 15"
  have c: "hc_data_check ?cfg" "700 * 15 < hc_validation_timeout ?cfg" by (simp_all add: sample_h2_config_def)
  have "h2_round ?cfg now later ?s ev = H2Blocked ?s" if "hc_validation_timeout ?cfg \<le> now" for now later ev
    using that c probed_state [OF c(1), of 15]
    by (simp add: h2_round_def deadline_passed_def close_and_return_def close_sender_def try_send_def)
  then show ?thesis using probed_reach [OF c] c probed_state(1) [OF c(1)] by blast
qed

lemma h2_validation_timeout_can_block_witness:
  "\<exists>cfg s. h2_reach cfg s \<and> h2_round cfg (hc_validation_timeout cfg) 0 s BodyEnd = H2Blocked s"
  using h2_validation_timeout_can_block by blast

end
