(* ===== verification/Tunnel_Quic.thy ===== *)
theory Tunnel_Quic
  imports Tunnel_H2
begin

text \<open>
  \<^verbatim>\<open>aether/src/quic.rs\<close>, the parts that are the engine's own: reading HTTP datagrams and the capsule
  stream of the CONNECT-IP request over HTTP/3, and the version-negotiation bait. The QUIC
  connection itself (quiche) is a library: what its polls return is an argument, in the order in
  which the code asks.
\<close>

subsection \<open>Capsules\<close>

text \<open>
  \<^verbatim>\<open>drain_capsules\<close> of this file only looks at assigned addresses: packets come as datagrams.
\<close>

function quic_drain_capsules ::
    "capsule_parser \<Rightarrow> assigned_addr chan option \<Rightarrow> capsule_parser \<times> assigned_addr chan option" where
  "quic_drain_capsules capsules addr_tx =
     (case cp_next capsules of
        (Inr (Some (AddressAssign addrs)), capsules') \<Rightarrow>
          quic_drain_capsules capsules' (forward_assigned addr_tx addrs)
      | (Inr (Some _), capsules') \<Rightarrow> quic_drain_capsules capsules' addr_tx
      | (Inr None, capsules') \<Rightarrow> (capsules', addr_tx)
      | (Inl e, capsules') \<Rightarrow> (capsules', addr_tx))"
  by pat_completeness auto
termination
  by (relation "measure (\<lambda>(p, a). length (cp_buf p))") (auto intro: cp_next_less [OF sym])

declare quic_drain_capsules.simps [simp del]

subsection \<open>The request stream\<close>

text \<open>
  An answer of \<^verbatim>\<open>h3c.poll\<close>. A data event comes with the byte runs that \<^verbatim>\<open>recv_body\<close> then returns
  before it fails or returns nothing.
\<close>

datatype h3_event =
    H3Headers u64 "(bytes \<times> bytes) list"
  | H3Data u64 "bytes list"
  | H3Finished u64
  | H3Reset u64 u64
  | H3Other
  | H3Done
  | H3Error string

definition status_name :: bytes where
  "status_name = as_bytes '':status''"

text \<open>The first header that makes the loop over the response headers return.\<close>

fun refused_status :: "(bytes \<times> bytes) list \<Rightarrow> bytes option" where
  "refused_status [] = None"
| "refused_status ((name, v) # hs) =
     (if name = status_name \<and> (v = [] \<or> hd v \<noteq> of_char (CHR ''2'')) then Some v
      else refused_status hs)"

text \<open>\<^verbatim>\<open>while let Ok(n) = h3c.recv_body(..)\<close>: an empty read ends the loop.\<close>

fun push_body :: "capsule_parser \<Rightarrow> bytes list \<Rightarrow> capsule_parser" where
  "push_body capsules [] = capsules"
| "push_body capsules (run # runs) =
     (if run = [] then capsules else push_body (cp_push capsules run) runs)"

text \<open>
  \<^verbatim>\<open>poll_h3\<close>. The text of a status that is not valid UTF-8 and of a reset code in the message is
  left to \<open>lossy\<close> and \<open>hex\<close>. The end of the list stands for the answer that nothing is left.
\<close>

fun poll_h3 :: "(bytes \<Rightarrow> string) \<Rightarrow> (u64 \<Rightarrow> string) \<Rightarrow> u64 \<Rightarrow> h3_event list \<Rightarrow> capsule_parser \<Rightarrow>
    assigned_addr chan option \<Rightarrow> unit result \<times> capsule_parser \<times> assigned_addr chan option" where
  "poll_h3 lossy hex req_stream [] capsules addr_tx = (Inr (), capsules, addr_tx)"
| "poll_h3 lossy hex req_stream (ev # evs) capsules addr_tx =
     (case ev of
        H3Headers stream_id headers \<Rightarrow>
          (case refused_status headers of
             Some status \<Rightarrow>
               if stream_id = req_stream
               then (Inl (Masque (''the edge refused connect-ip with status '' @ lossy status)), capsules, addr_tx)
               else poll_h3 lossy hex req_stream evs capsules addr_tx
           | None \<Rightarrow> poll_h3 lossy hex req_stream evs capsules addr_tx)
      | H3Data stream_id runs \<Rightarrow>
          if stream_id \<noteq> req_stream then poll_h3 lossy hex req_stream evs capsules addr_tx
          else (case quic_drain_capsules (push_body capsules runs) addr_tx of
                  (capsules', addr_tx') \<Rightarrow> poll_h3 lossy hex req_stream evs capsules' addr_tx')
      | H3Finished stream_id \<Rightarrow>
          if stream_id = req_stream
          then (Inl (Masque ''the edge closed the connect-ip stream''), capsules, addr_tx)
          else poll_h3 lossy hex req_stream evs capsules addr_tx
      | H3Reset stream_id code \<Rightarrow>
          if stream_id = req_stream
          then (Inl (Masque (''the edge reset the connect-ip stream (code 0x'' @ hex code @ '')'')), capsules, addr_tx)
          else poll_h3 lossy hex req_stream evs capsules addr_tx
      | H3Other \<Rightarrow> poll_h3 lossy hex req_stream evs capsules addr_tx
      | H3Done \<Rightarrow> (Inr (), capsules, addr_tx)
      | H3Error e \<Rightarrow> (Inl (H3 e), capsules, addr_tx))"

subsection \<open>Datagrams\<close>

datatype dgram_answer = DgramOk bytes | DgramDone | DgramError string

fun drain_datagrams_loop :: "u64 \<Rightarrow> bool \<Rightarrow> dgram_answer list \<Rightarrow> bytes chan \<Rightarrow> bool \<times> bytes chan" where
  "drain_datagrams_loop sid delivered [] inbound_tx = (delivered, inbound_tx)"
| "drain_datagrams_loop sid delivered (a # as) inbound_tx =
     (case a of
        DgramOk d \<Rightarrow>
          (case decode_ip_datagram d sid of
             Inr (Some ip_packet) \<Rightarrow>
               (case try_send inbound_tx ip_packet of
                  (Closed, inbound_tx') \<Rightarrow> (True, inbound_tx')
                | (_, inbound_tx') \<Rightarrow> drain_datagrams_loop sid True as inbound_tx')
           | Inr None \<Rightarrow> drain_datagrams_loop sid delivered as inbound_tx
           | Inl e \<Rightarrow> drain_datagrams_loop sid delivered as inbound_tx)
      | DgramDone \<Rightarrow> (delivered, inbound_tx)
      | DgramError e \<Rightarrow> (delivered, inbound_tx))"

definition drain_datagrams :: "u64 option \<Rightarrow> dgram_answer list \<Rightarrow> bytes chan \<Rightarrow> bool \<times> bytes chan" where
  "drain_datagrams req_stream answers inbound_tx =
     (case req_stream of
        None \<Rightarrow> (False, inbound_tx)
      | Some s \<Rightarrow> drain_datagrams_loop s False answers inbound_tx)"

subsection \<open>Version-negotiation bait\<close>

definition QUIC_V2_VERSION :: u32 where
  "QUIC_V2_VERSION = 0x6b3343cf"

definition QUIC_V2_BAIT_LEN :: usize where
  "QUIC_V2_BAIT_LEN = 1200"

definition quic_varint2 :: "u64 \<Rightarrow> bytes" where
  "quic_varint2 v = word_be 2 ((ucast (v AND 0x3fff) :: u16) OR 0x4000)"

text \<open>The draws are the two connection identifiers (8 bytes each) and the packet number (4 bytes).\<close>

definition build_version_bait :: "bytes \<Rightarrow> bytes \<Rightarrow> bytes \<Rightarrow> bytes" where
  "build_version_bait dcid scid pn =
     (let pkt = [0xc3] @ word_be 4 QUIC_V2_VERSION @ [of_nat (length dcid)] @ dcid @
                [of_nat (length scid)] @ scid @ [0x00];
          remaining = QUIC_V2_BAIT_LEN - length pkt - 2;
          pkt = pkt @ quic_varint2 (of_nat remaining) @ pn
      in take QUIC_V2_BAIT_LEN (pkt @ replicate (QUIC_V2_BAIT_LEN - length pkt) 0))"

subsection \<open>Properties\<close>

lemma encoded_datagram_decodes:
  assumes "encode_ip_datagram sid pkt = Returns (Inr d)"
  shows "decode_ip_datagram d sid' =
    Inr (if quarter_stream_id sid' = quarter_stream_id sid then Some pkt else None)"
  using assms datagram_wire_form [of sid pkt] datagram_wire_decodes [of sid pkt sid'] by simp

lemma drain_datagrams_loop_sends:
  assumes "list_all2 (\<lambda>(s, pkt) d. encode_ip_datagram s pkt = Returns (Inr d)) sent ds"
    and "\<not> ch_rx_closed inb"
  shows "drain_datagrams_loop sid b (map DgramOk ds @ [DgramDone]) inb =
    (b \<or> filter (\<lambda>(s, pkt). quarter_stream_id s = quarter_stream_id sid) sent \<noteq> [],
     send_each inb (map snd (filter (\<lambda>(s, pkt). quarter_stream_id s = quarter_stream_id sid) sent)))"
  using assms
proof (induction sent ds arbitrary: b inb rule: list_all2_induct)
  case Nil
  then show ?case by simp
next
  case (Cons x xs d ds)
  obtain s pkt where x: "x = (s, pkt)" by (cases x)
  have "decode_ip_datagram d sid =
      Inr (if quarter_stream_id sid = quarter_stream_id s then Some pkt else None)"
    using Cons(1) x by (simp add: encoded_datagram_decodes)
  moreover obtain r inb' where t: "try_send inb pkt = (r, inb')" by (cases "try_send inb pkt")
  moreover have "r \<noteq> Closed" and "\<not> ch_rx_closed inb'"
    using Cons.prems t try_send_closed_iff [of inb pkt] try_send_keeps(1) [of inb pkt] by auto
  ultimately show ?case using x Cons.IH Cons.prems by (cases r) auto
qed

text \<open>
  Datagrams to the netstack: of the packets that arrive, exactly those of the tunnel's own stream
  are handed over, in their order and as far as the queue has room, and the result says whether
  there was one. Without a request stream nothing is taken.
\<close>

lemma quic_datagrams_delivered:
  assumes "list_all2 (\<lambda>(s, pkt) d. encode_ip_datagram s pkt = Returns (Inr d)) sent ds"
    and "\<not> ch_rx_closed inb"
    and "mine = map snd (filter (\<lambda>(s, pkt). quarter_stream_id s = quarter_stream_id sid) sent)"
  shows "\<exists>inb'. drain_datagrams (Some sid) (map DgramOk ds @ [DgramDone]) inb = (mine \<noteq> [], inb') \<and>
    ch_items inb' = ch_items inb @ take (chan_room inb) mine \<and>
    drain_datagrams None (map DgramOk ds @ [DgramDone]) inb = (False, inb)"
  using drain_datagrams_loop_sends [OF assms(1,2), of sid False]
  by (simp add: drain_datagrams_def assms(3) send_each_items)

lemma quic_datagrams_delivered_witness:
  "\<exists>inb'. drain_datagrams (Some 0) [DgramOk [0, 0, 0x45], DgramOk [1, 0, 0x46], DgramDone] (chan_new 4) =
     (True, inb') \<and> ch_items inb' = [[0x45 :: u8]]"
proof -
  have "encode_ip_datagram 0 [0x45] = Returns (Inr [0, 0, 0x45])"
    and "encode_ip_datagram 4 [0x46] = Returns (Inr [1, 0, 0x46])"
    by code_simp+
  then have "list_all2 (\<lambda>(s, pkt) d. encode_ip_datagram s pkt = Returns (Inr d))
      [(0, [0x45]), (4, [0x46])] [[0, 0, 0x45], [1, 0, 0x46]]" by simp
  from quic_datagrams_delivered [OF this, of "chan_new 4" "[[0x45]]" 0]
  show ?thesis by (auto simp: chan_new_def chan_room_def quarter_stream_id_def)
qed

text \<open>
  The bait is a full-sized datagram, and its length field is the number of bytes that follow it,
  whatever identifiers were drawn.
\<close>

lemma version_bait_shape:
  assumes "length dcid = 8" and "length scid = 8" and "length pn = 4"
  shows "length (build_version_bait dcid scid pn) = QUIC_V2_BAIT_LEN \<and>
    get_varint (cursor [] (drop 24 (build_version_bait dcid scid pn))) =
      Inr (of_nat (QUIC_V2_BAIT_LEN - 26),
           cursor (take 2 (drop 24 (build_version_bait dcid scid pn))) (drop 26 (build_version_bait dcid scid pn)))"
proof -
  have v: "quic_varint2 1174 = varint_bytes 1174" by code_simp
  have lv: "length (quic_varint2 x) = 2" for x by (simp add: quic_varint2_def)
  let ?h = "[0xc3] @ word_be 4 QUIC_V2_VERSION @ [8] @ dcid @ [8] @ scid @ [0x00 :: u8]"
  have b: "build_version_bait dcid scid pn = ?h @ varint_bytes 1174 @ pn @ replicate 1170 0"
    using assms by (simp add: build_version_bait_def Let_def QUIC_V2_BAIT_LEN_def lv flip: v)
  have l: "length ?h = 24" using assms by simp
  have "(1174 :: u64) \<le> MAX_VAR_INT" by (simp add: MAX_VAR_INT_def)
  from get_varint_varint_bytes [OF this, of "[]" "pn @ replicate 1170 0"]
  show ?thesis using assms l lv [of 1174] unfolding b v by (simp add: QUIC_V2_BAIT_LEN_def)
qed

lemma version_bait_shape_witness:
  "length (build_version_bait (replicate 8 1) (replicate 8 2) [1, 2, 3, 4]) = QUIC_V2_BAIT_LEN"
  using version_bait_shape [of "replicate 8 1" "replicate 8 2" "[1, 2, 3, 4]"] by simp

end
