(* ===== verification/Netstack_Credit.thy ===== *)
theory Netstack_Credit
  imports Aether_Prelude Complex_Main
begin

text \<open>
  Uplink admission of \<^verbatim>\<open>aether/src/netstack.rs\<close>: the per-flow credit that bounds how many bytes an
  application may have inside the stack, and the drain-rate estimate the budget is computed from.

  Instants and durations are nanoseconds. The \<^verbatim>\<open>f64\<close> arithmetic of the estimate is exact arithmetic
  on rationals followed by the rounding \<open>fl\<close>, an argument; no value of the code is infinite or a NaN.
\<close>

subsection \<open>Constants\<close>

definition secs :: "nat \<Rightarrow> nat" where
  "secs n = n * 1000000000"

definition millis :: "nat \<Rightarrow> nat" where
  "millis n = n * 1000000"

definition UPLINK_QUEUE_BUDGET :: nat where
  "UPLINK_QUEUE_BUDGET = millis 500"

definition MIN_FLOW_QUEUE_BYTES :: usize where
  "MIN_FLOW_QUEUE_BYTES = 48 * 1024"

definition RATE_SAMPLE_WINDOW :: nat where
  "RATE_SAMPLE_WINDOW = millis 500"

definition CREDIT_WAIT_STEP :: nat where
  "CREDIT_WAIT_STEP = millis 2"

definition CREDIT_WAIT_MAX :: nat where
  "CREDIT_WAIT_MAX = secs 20"

subsection \<open>The credit of a flow\<close>

text \<open>
  The byte counters are \<^verbatim>\<open>u64\<close> counters of bytes that were really handed over, so they stay below
  \<open>2^64\<close>; they are naturals here and the saturating subtraction is that of naturals.
\<close>

record flow_credit =
  fc_sent :: nat
  fc_acked :: nat
  fc_cap :: usize
  fc_closed :: bool

definition flow_credit_new :: flow_credit where
  "flow_credit_new = \<lparr>fc_sent = 0, fc_acked = 0, fc_cap = MIN_FLOW_QUEUE_BYTES, fc_closed = False\<rparr>"

definition outstanding :: "flow_credit \<Rightarrow> nat" where
  "outstanding c = fc_sent c - fc_acked c"

definition budget :: "flow_credit \<Rightarrow> usize" where
  "budget c = fc_cap c"

definition publish :: "nat \<Rightarrow> usize \<Rightarrow> flow_credit \<Rightarrow> flow_credit" where
  "publish acked cap c =
     (let c = (if acked > fc_acked c then c\<lparr>fc_acked := acked\<rparr> else c)
      in c\<lparr>fc_cap := max cap MIN_FLOW_QUEUE_BYTES\<rparr>)"

definition credit_close :: "flow_credit \<Rightarrow> flow_credit" where
  "credit_close c = c\<lparr>fc_closed := True\<rparr>"

text \<open>
  \<^verbatim>\<open>reserve\<close>: one look at the credit per round of the loop. A round that does not end the wait
  sleeps; \<open>None\<close> says so. \<open>reserve_wait\<close> follows the rounds, given the credit and the clock that each
  one finds.
\<close>

definition reserve_admits :: "flow_credit \<Rightarrow> nat \<Rightarrow> bool" where
  "reserve_admits c len \<longleftrightarrow> outstanding c = 0 \<or> outstanding c + len \<le> budget c"

definition reserve_round :: "nat \<Rightarrow> nat \<Rightarrow> nat \<Rightarrow> flow_credit \<Rightarrow> flow_credit option" where
  "reserve_round deadline now len c =
     (if fc_closed c \<or> reserve_admits c len \<or> deadline \<le> now
      then Some (c\<lparr>fc_sent := fc_sent c + len\<rparr>) else None)"

fun reserve_wait :: "nat \<Rightarrow> nat \<Rightarrow> (nat \<times> flow_credit) list \<Rightarrow> (nat \<times> flow_credit) option" where
  "reserve_wait deadline len [] = None"
| "reserve_wait deadline len ((now, c) # seen) =
     (case reserve_round deadline now len c of
        Some c' \<Rightarrow> Some (now, c')
      | None \<Rightarrow> reserve_wait deadline len seen)"

definition reserve :: "nat \<Rightarrow> nat \<Rightarrow> (nat \<times> flow_credit) list \<Rightarrow> (nat \<times> flow_credit) option" where
  "reserve start len seen = reserve_wait (start + CREDIT_WAIT_MAX) len seen"

subsection \<open>The drain rate and the budget\<close>

record rate_est =
  re_mark :: nat
  re_base :: nat
  re_rate :: rat

definition f64_of_nat :: "(rat \<Rightarrow> rat) \<Rightarrow> nat \<Rightarrow> rat" where
  "f64_of_nat fl n = fl (of_nat n)"

definition as_secs_f64 :: "(rat \<Rightarrow> rat) \<Rightarrow> nat \<Rightarrow> rat" where
  "as_secs_f64 fl d = fl (fl (of_nat (d div 1000000000)) + fl (fl (of_nat (d mod 1000000000)) / 1000000000))"

text \<open>The cast of an \<^verbatim>\<open>f64\<close> to \<^verbatim>\<open>usize\<close> truncates and saturates.\<close>

definition f64_as_usize :: "rat \<Rightarrow> usize" where
  "f64_as_usize r = min (nat \<lfloor>r\<rfloor>) usize_max"

definition sample_rate :: "(rat \<Rightarrow> rat) \<Rightarrow> nat \<Rightarrow> nat \<Rightarrow> rate_est \<Rightarrow> rate_est" where
  "sample_rate fl now acked e =
     (let sample_for = now - re_mark e
      in if RATE_SAMPLE_WINDOW \<le> sample_for
         then let s = as_secs_f64 fl sample_for;
                  e = (if 0 < s
                       then let moved = f64_of_nat fl (acked - re_base e);
                                sample = fl (moved / s)
                            in e\<lparr>re_rate := (if re_rate e \<le> 0 then sample
                                              else fl (fl (re_rate e * fl (1 / 2)) + fl (sample * fl (1 / 2))))\<rparr>
                       else e)
              in e\<lparr>re_mark := now, re_base := acked\<rparr>
         else e)"

definition uplink_budget :: "(rat \<Rightarrow> rat) \<Rightarrow> usize \<Rightarrow> rat \<Rightarrow> usize" where
  "uplink_budget fl tx_buf rate =
     (let cmax = max tx_buf MIN_FLOW_QUEUE_BYTES
      in min (max (f64_as_usize (fl (rate * as_secs_f64 fl UPLINK_QUEUE_BUDGET))) MIN_FLOW_QUEUE_BYTES) cmax)"

subsection \<open>Both sides of a flow\<close>

text \<open>
  The one task that writes to a flow and the task of the stack share its credit. The writer begins to wait
  with its bytes and a deadline, looks at the credit in rounds and adds its bytes when a round lets it go on,
  for whatever reason, or it is dropped while it waits. The stack publishes any count of acknowledged bytes
  and a budget up to its limit, and closes the flow. Time passes between the steps. \<open>ga_overdue\<close> counts the
  writes that went on because their deadline had passed.
\<close>

record gate =
  ga_credit :: flow_credit
  ga_now :: nat
  ga_writer :: "(nat \<times> nat) option"
  ga_overdue :: nat

definition gate_new :: "nat \<Rightarrow> gate" where
  "gate_new start = \<lparr>ga_credit = flow_credit_new, ga_now = start, ga_writer = None, ga_overdue = 0\<rparr>"

definition gate_begin :: "nat \<Rightarrow> gate \<Rightarrow> gate" where
  "gate_begin len g = g\<lparr>ga_writer := Some (ga_now g + CREDIT_WAIT_MAX, len)\<rparr>"

definition gate_round :: "gate \<Rightarrow> gate" where
  "gate_round g =
     (case ga_writer g of
        None \<Rightarrow> g
      | Some (deadline, len) \<Rightarrow>
          (case reserve_round deadline (ga_now g) len (ga_credit g) of
             None \<Rightarrow> g
           | Some c \<Rightarrow>
               g\<lparr>ga_credit := c, ga_writer := None,
                 ga_overdue := ga_overdue g
                   + (if fc_closed (ga_credit g) \<or> reserve_admits (ga_credit g) len then 0 else 1)\<rparr>))"

inductive gate_reach :: "nat \<Rightarrow> usize \<Rightarrow> nat \<Rightarrow> gate \<Rightarrow> bool" for start cmax max_len where
  fresh: "gate_reach start cmax max_len (gate_new start)"
| waits: "gate_reach start cmax max_len g \<Longrightarrow> ga_writer g = None \<Longrightarrow> len \<le> max_len \<Longrightarrow>
    gate_reach start cmax max_len (gate_begin len g)"
| round: "gate_reach start cmax max_len g \<Longrightarrow> gate_reach start cmax max_len (gate_round g)"
| dropped: "gate_reach start cmax max_len g \<Longrightarrow> gate_reach start cmax max_len (g\<lparr>ga_writer := None\<rparr>)"
| time: "gate_reach start cmax max_len g \<Longrightarrow> ga_now g \<le> now \<Longrightarrow> gate_reach start cmax max_len (g\<lparr>ga_now := now\<rparr>)"
| publish: "gate_reach start cmax max_len g \<Longrightarrow> cap \<le> cmax \<Longrightarrow>
    gate_reach start cmax max_len (g\<lparr>ga_credit := publish acked cap (ga_credit g)\<rparr>)"
| close: "gate_reach start cmax max_len g \<Longrightarrow>
    gate_reach start cmax max_len (g\<lparr>ga_credit := credit_close (ga_credit g)\<rparr>)"

text \<open>Since when the writer has been waiting; the overdue writes before that took their full time, one after another.\<close>

definition waiting_since :: "gate \<Rightarrow> nat" where
  "waiting_since g = (case ga_writer g of None \<Rightarrow> ga_now g | Some (deadline, _) \<Rightarrow> deadline - CREDIT_WAIT_MAX)"

definition gate_times :: "nat \<Rightarrow> nat \<Rightarrow> gate \<Rightarrow> bool" where
  "gate_times start max_len g \<longleftrightarrow>
     start + ga_overdue g * CREDIT_WAIT_MAX \<le> waiting_since g \<and> waiting_since g \<le> ga_now g \<and>
     (case ga_writer g of None \<Rightarrow> True | Some (deadline, len) \<Rightarrow> CREDIT_WAIT_MAX \<le> deadline \<and> len \<le> max_len)"

definition gate_inv :: "usize \<Rightarrow> nat \<Rightarrow> gate \<Rightarrow> bool" where
  "gate_inv cmax max_len g \<longleftrightarrow>
     MIN_FLOW_QUEUE_BYTES \<le> budget (ga_credit g) \<and> budget (ga_credit g) \<le> max cmax MIN_FLOW_QUEUE_BYTES \<and>
     (fc_closed (ga_credit g) \<or>
      outstanding (ga_credit g) \<le> max (max cmax MIN_FLOW_QUEUE_BYTES) max_len + ga_overdue g * max_len)"

lemma publish_outstanding: "outstanding (publish acked cap c) \<le> outstanding c"
  by (auto simp: outstanding_def publish_def Let_def)

lemma publish_closed [simp]: "fc_closed (publish acked cap c) = fc_closed c"
  by (simp add: publish_def Let_def)

lemma publish_budget [simp]: "budget (publish acked cap c) = max cap MIN_FLOW_QUEUE_BYTES"
  by (simp add: publish_def budget_def Let_def)

lemma outstanding_add: "outstanding (c\<lparr>fc_sent := fc_sent c + len\<rparr>) \<le> outstanding c + len"
  by (simp add: outstanding_def)

lemma gate_round_cases:
  obtains (same) "gate_round g = g"
  | (adds) deadline len where "ga_writer g = Some (deadline, len)"
      "fc_closed (ga_credit g) \<or> reserve_admits (ga_credit g) len \<or> deadline \<le> ga_now g"
      "gate_round g = g\<lparr>ga_credit := (ga_credit g)\<lparr>fc_sent := fc_sent (ga_credit g) + len\<rparr>, ga_writer := None,
         ga_overdue := ga_overdue g + (if fc_closed (ga_credit g) \<or> reserve_admits (ga_credit g) len then 0 else 1)\<rparr>"
proof (cases "ga_writer g")
  case None
  then show ?thesis by (intro same) (simp add: gate_round_def)
next
  case (Some w)
  obtain deadline len where w: "ga_writer g = Some (deadline, len)" using Some by (cases w) simp
  show ?thesis
  proof (cases "fc_closed (ga_credit g) \<or> reserve_admits (ga_credit g) len \<or> deadline \<le> ga_now g")
    case True
    then show ?thesis using w by (intro adds) (auto simp: gate_round_def reserve_round_def)
  next
    case False
    then show ?thesis using w by (intro same) (simp add: gate_round_def reserve_round_def)
  qed
qed

lemma gate_reach_times: "gate_reach start cmax max_len g \<Longrightarrow> gate_times start max_len g"
proof (induction rule: gate_reach.induct)
  case (round g)
  then show ?case
    by (cases g rule: gate_round_cases) (auto simp: gate_times_def waiting_since_def split: option.splits if_splits)
qed (auto simp: gate_times_def waiting_since_def gate_new_def gate_begin_def split: option.splits)

lemma gate_reach_inv: "gate_reach start cmax max_len g \<Longrightarrow> gate_inv cmax max_len g"
proof (induction rule: gate_reach.induct)
  case (round g)
  show ?case
  proof (cases g rule: gate_round_cases)
    case (adds deadline len)
    have len: "len \<le> max_len"
      using gate_reach_times [OF round.hyps] adds(1) by (auto simp: gate_times_def)
    show ?thesis
      using round.IH len outstanding_add [of "ga_credit g" len]
      unfolding adds(3) gate_inv_def by (auto simp: budget_def reserve_admits_def)
  qed (use round in simp)
next
  case (publish g cap acked)
  then show ?case using publish_outstanding [of acked cap "ga_credit g"] by (auto simp: gate_inv_def)
next
  case (close g)
  then show ?case by (simp add: gate_inv_def credit_close_def budget_def)
qed (auto simp: gate_inv_def gate_new_def gate_begin_def flow_credit_new_def outstanding_def budget_def)

text \<open>
  C12. Admission bounds the uplink queue of a flow that is open: however waiting writes, deadlines that pass,
  dropped writes, acknowledgements and budgets interleave, the bytes inside the stack that the peer has not
  acknowledged are never more than the largest budget (or one single write), and one write more for every
  20 seconds that the flow is old, which is what a wait that reaches its deadline lets through. The budget
  stays between its floor and its ceiling.
\<close>

theorem outstanding_bounded:
  assumes "gate_reach start cmax max_len g" and "\<not> fc_closed (ga_credit g)"
  shows "outstanding (ga_credit g)
      \<le> max (max cmax MIN_FLOW_QUEUE_BYTES) max_len + ((ga_now g - start) div secs 20) * max_len \<and>
    MIN_FLOW_QUEUE_BYTES \<le> budget (ga_credit g) \<and> budget (ga_credit g) \<le> max cmax MIN_FLOW_QUEUE_BYTES"
proof -
  have "ga_overdue g * CREDIT_WAIT_MAX \<le> ga_now g - start"
    using gate_reach_times [OF assms(1)] by (auto simp: gate_times_def)
  then have "ga_overdue g \<le> (ga_now g - start) div secs 20"
    by (simp add: CREDIT_WAIT_MAX_def secs_def less_eq_div_iff_mult_less_eq)
  then have "ga_overdue g * max_len \<le> ((ga_now g - start) div secs 20) * max_len" by (rule mult_le_mono1)
  then show ?thesis using gate_reach_inv [OF assms(1)] assms(2) unfolding gate_inv_def by linarith
qed

theorem outstanding_bounded_witness:
  "\<exists>g. gate_reach 0 131072 65536 g \<and> outstanding (ga_credit g) = 65536 + 65536
     \<and> outstanding (ga_credit g) \<le> 131072 + ((ga_now g - 0) div secs 20) * 65536"
proof -
  let ?a = "gate_round (gate_begin 65536 (gate_new 0))"
  let ?b = "gate_round ((gate_begin 65536 ?a)\<lparr>ga_now := secs 20\<rparr>)"
  have late: "ga_now (gate_begin 65536 ?a) \<le> secs 20"
    by (simp add: gate_begin_def gate_round_def gate_new_def flow_credit_new_def reserve_round_def
        reserve_admits_def outstanding_def)
  have idle: "ga_writer (gate_new 0) = None" "ga_writer ?a = None"
    by (simp_all add: gate_begin_def gate_round_def gate_new_def flow_credit_new_def reserve_round_def
        reserve_admits_def outstanding_def)
  have first: "gate_reach 0 131072 65536 ?a"
    by (rule gate_reach.round, rule gate_reach.waits [OF gate_reach.fresh idle(1)]) simp
  have b: "gate_reach 0 131072 65536 ?b"
    by (rule gate_reach.round, rule gate_reach.time [OF gate_reach.waits [OF first idle(2)] late]) simp
  have "\<not> fc_closed (ga_credit ?b) \<and> outstanding (ga_credit ?b) = 65536 + 65536"
    by (simp add: gate_begin_def gate_round_def gate_new_def flow_credit_new_def reserve_round_def
        reserve_admits_def outstanding_def budget_def MIN_FLOW_QUEUE_BYTES_def CREDIT_WAIT_MAX_def secs_def)
  then show ?thesis using outstanding_bounded [OF b] b by (auto simp: MIN_FLOW_QUEUE_BYTES_def)
qed

text \<open>
  A writer is made to wait but never refused and never for good: it goes on in the first round
  that finds the flow closed, its bytes within the budget, or 20 s gone by, adds exactly its bytes
  once, and as long as it waits the flow is open and over its budget.
\<close>

lemma reserve_waits_then_adds:
  assumes "\<exists>(now, c) \<in> set seen. fc_closed c \<or> reserve_admits c len \<or> start + CREDIT_WAIT_MAX \<le> now"
  shows "\<exists>before now c after. seen = before @ (now, c) # after \<and>
    reserve start len seen = Some (now, c\<lparr>fc_sent := fc_sent c + len\<rparr>) \<and>
    (fc_closed c \<or> reserve_admits c len \<or> start + CREDIT_WAIT_MAX \<le> now) \<and>
    (\<forall>(t, d) \<in> set before. \<not> fc_closed d \<and> 0 < outstanding d \<and> budget d < outstanding d + len \<and>
       t < start + CREDIT_WAIT_MAX)"
  using assms
proof (induction seen)
  case Nil
  then show ?case by simp
next
  case (Cons x seen)
  obtain now c where x: "x = (now, c)" by (cases x)
  let ?go = "fc_closed c \<or> reserve_admits c len \<or> start + CREDIT_WAIT_MAX \<le> now"
  show ?case
  proof (cases ?go)
    case True
    then show ?thesis
      by (intro exI [of _ "[]"] exI [of _ now] exI [of _ c] exI [of _ seen])
        (auto simp: x reserve_def reserve_round_def)
  next
    case False
    with Cons x obtain before now' c' after where
      "seen = before @ (now', c') # after"
      "reserve start len seen = Some (now', c'\<lparr>fc_sent := fc_sent c' + len\<rparr>)"
      "fc_closed c' \<or> reserve_admits c' len \<or> start + CREDIT_WAIT_MAX \<le> now'"
      "\<forall>(t, d) \<in> set before. \<not> fc_closed d \<and> 0 < outstanding d \<and> budget d < outstanding d + len \<and>
         t < start + CREDIT_WAIT_MAX"
      by auto
    with False x show ?thesis
      by (intro exI [of _ "x # before"] exI [of _ now'] exI [of _ c'] exI [of _ after])
        (auto simp: reserve_def reserve_round_def reserve_admits_def)
  qed
qed

lemma reserve_waits_then_adds_witness:
  "\<exists>now c. reserve 0 100 [(1, flow_credit_new\<lparr>fc_sent := 60000\<rparr>),
      (2, flow_credit_new\<lparr>fc_sent := 60000, fc_acked := 60000\<rparr>)] = Some (now, c)"
proof -
  let ?seen = "[(1, flow_credit_new\<lparr>fc_sent := 60000\<rparr>),
      (2, flow_credit_new\<lparr>fc_sent := 60000, fc_acked := 60000\<rparr>)]"
  have "\<exists>(now, c) \<in> set ?seen. fc_closed c \<or> reserve_admits c 100 \<or> 0 + CREDIT_WAIT_MAX \<le> now"
    by (simp add: reserve_admits_def outstanding_def)
  from reserve_waits_then_adds [OF this] show ?thesis by blast
qed

end
