(* ===== verification/Netstack.thy ===== *)
theory Netstack
  imports Netstack_Credit Channel Net_Addr
begin

text \<open>
  State and data path of the user-space TCP/IP stack of \<^verbatim>\<open>aether/src/netstack.rs\<close>: the packet
  device, the flows, the backlog of application data, and opening flows.

  smoltcp is a library: its sockets and interface are a value of type \<^typ>\<open>'k\<close> that only the
  operations of the record \<open>smol\<close> read and change, an argument of every definition that calls them.
  A hash map is a partial function; where the code iterates over one, the order is an argument. A
  pass of the loop reads the clock once, as \<open>now\<close>.
\<close>

subsection \<open>What the code calls of smoltcp\<close>

datatype tcp_sock_state =
    SockClosed | SockListen | SockSynSent | SockSynReceived | SockEstablished | SockFinWait1
  | SockFinWait2 | SockCloseWait | SockClosing | SockLastAck | SockTimeWait

datatype ip_cidr = Cidr4 ipv4_addr u8 | Cidr6 ipv6_addr u8

text \<open>
  \<open>sm_connect\<close> makes a TCP socket with the given keepalive and timeout, connects it and adds it to the
  set; \<open>sm_udp_bind\<close> makes, binds and adds a UDP socket. Both give the handle, or the error text.
\<close>

record 'k smol =
  sm_state :: "'k \<Rightarrow> nat \<Rightarrow> tcp_sock_state"
  sm_can_send :: "'k \<Rightarrow> nat \<Rightarrow> bool"
  sm_send_slice :: "'k \<Rightarrow> nat \<Rightarrow> bytes \<Rightarrow> nat \<times> 'k"
  sm_send_queue :: "'k \<Rightarrow> nat \<Rightarrow> nat"
  sm_can_recv :: "'k \<Rightarrow> nat \<Rightarrow> bool"
  sm_recv :: "'k \<Rightarrow> nat \<Rightarrow> bytes option \<times> 'k"
  sm_close :: "'k \<Rightarrow> nat \<Rightarrow> 'k"
  sm_abort :: "'k \<Rightarrow> nat \<Rightarrow> 'k"
  sm_remove :: "'k \<Rightarrow> nat \<Rightarrow> 'k"
  sm_connect :: "'k \<Rightarrow> nat \<Rightarrow> nat \<Rightarrow> socket_addr \<Rightarrow> u16 \<Rightarrow> string + (nat \<times> 'k)"
  sm_udp_bind :: "'k \<Rightarrow> u16 \<Rightarrow> string + (nat \<times> 'k)"
  sm_udp_send :: "'k \<Rightarrow> nat \<Rightarrow> bytes \<Rightarrow> socket_addr \<Rightarrow> 'k"
  sm_udp_can_recv :: "'k \<Rightarrow> nat \<Rightarrow> bool"
  sm_udp_recv :: "'k \<Rightarrow> nat \<Rightarrow> (socket_addr \<times> bytes) option \<times> 'k"
  sm_ip_addrs :: "'k \<Rightarrow> ip_cidr list"
  sm_set_ip_addrs :: "'k \<Rightarrow> ip_cidr list \<Rightarrow> 'k"
  sm_default_v4_route :: "'k \<Rightarrow> ipv4_addr \<Rightarrow> 'k"
  sm_default_v6_route :: "'k \<Rightarrow> ipv6_addr \<Rightarrow> 'k"

subsection \<open>The device\<close>

definition MAX_TX_RETAINED :: usize where
  "MAX_TX_RETAINED = 256"

definition MAX_DEVICE_TX :: usize where
  "MAX_DEVICE_TX = 64"

definition MAX_DEVICE_TX_HARD :: usize where
  "MAX_DEVICE_TX_HARD = MAX_TX_RETAINED"

record stack_device =
  dv_rx :: "bytes list"
  dv_tx :: "bytes list"
  dv_mtu :: usize
  dv_tx_stalls :: usize
  dv_tx_shed :: usize
  dv_tx_peak :: usize

definition stack_device_new :: "usize \<Rightarrow> stack_device" where
  "stack_device_new mtu =
     \<lparr>dv_rx = [], dv_tx = [], dv_mtu = mtu, dv_tx_stalls = 0, dv_tx_shed = 0, dv_tx_peak = 0\<rparr>"

text \<open>
  The tokens: \<^verbatim>\<open>receive\<close> gives the packet and a token that may always send, \<^verbatim>\<open>transmit\<close> gives a
  token only while the queue is short. Consuming a token appends the packet that was written.
\<close>

definition dv_receive :: "stack_device \<Rightarrow> (bytes \<times> stack_device) option" where
  "dv_receive d = (case dv_rx d of [] \<Rightarrow> None | pkt # rest \<Rightarrow> Some (pkt, d\<lparr>dv_rx := rest\<rparr>))"

definition dv_transmit :: "stack_device \<Rightarrow> bool \<times> stack_device" where
  "dv_transmit d =
     (if MAX_DEVICE_TX \<le> length (dv_tx d)
      then (False, d\<lparr>dv_tx_stalls := saturating_add (dv_tx_stalls d) 1\<rparr>)
      else (True, d))"

definition dv_consume :: "stack_device \<Rightarrow> bytes \<Rightarrow> stack_device" where
  "dv_consume d pkt = d\<lparr>dv_tx := dv_tx d @ [pkt]\<rparr>"

subsection \<open>Flows\<close>

record tcp_limits =
  tl_connect :: nat
  tl_keepalive :: nat
  tl_dead_peer :: nat
  tl_orphan_linger :: nat

text \<open>
  What the code reads of the tuning profile of the device: \<^verbatim>\<open>tcp_tx_buf\<close> and \<^verbatim>\<open>app_queue\<close>.
\<close>

record tuning =
  tn_tcp_tx_buf :: usize
  tn_app_queue :: usize

definition max_tcp_pending :: "tuning \<Rightarrow> usize" where
  "max_tcp_pending t = max (min (tn_tcp_tx_buf t * 2) usize_max) (64 * 1024)"

text \<open>What the opener of a flow is told on its one-shot channel.\<close>

datatype open_answer = Opened nat | Refused string

text \<open>
  \<^verbatim>\<open>TcpState\<close>. \<open>tf_resp\<close>: the answer is still owed; \<open>tf_resp_closed\<close>: the opener is gone (what
  \<^verbatim>\<open>is_closed\<close> of the answer channel says); \<open>tf_rx_held\<close>: the receiving end of the channel to the
  application is still here. The credit, which the application's writer shares, is kept in \<open>ns_credits\<close>
  by flow and outlives the flow. The capacity of the pending vector is not part of the state.
\<close>

record tcp_flow =
  tf_handle :: nat
  tf_to_app :: "bytes chan"
  tf_rx_held :: bool
  tf_resp :: bool
  tf_resp_closed :: bool
  tf_pending :: bytes
  tf_established :: bool
  tf_half_closed :: bool
  tf_connect_deadline :: nat
  tf_orphaned_at :: "nat option"
  tf_aborted :: bool
  tf_last_progress :: nat
  tf_send_queue_high :: nat
  tf_accepted_total :: nat
  tf_acked_high :: nat
  tf_last_drain :: nat
  tf_drain_warned :: bool
  tf_rate :: rate_est
  tf_uplink_budget :: usize
  tf_outstanding_peak :: nat
  tf_pending_peak :: nat
  tf_send_queue_peak :: nat
  tf_stall_count :: nat
  tf_stall_mark :: nat

record udp_flow =
  uf_handle :: nat
  uf_to_app :: "(socket_addr \<times> bytes) chan"

text \<open>Data from the applications.\<close>

datatype data_in =
    TcpData nat bytes
  | TcpClose nat
  | UdpData nat socket_addr bytes
  | UdpClose nat

text \<open>
  \<^verbatim>\<open>NetStack\<close>. \<open>ns_data_in\<close> is the queue on which the applications' data arrives (the stack holds a
  sender of it too); \<open>ns_answers\<close> collects the answers that reached the openers, by flow.
\<close>

record 'k netstack =
  ns_sockets :: 'k
  ns_device :: stack_device
  ns_tcp :: "nat \<rightharpoonup> tcp_flow"
  ns_udp :: "nat \<rightharpoonup> udp_flow"
  ns_next_id :: nat
  ns_next_port :: u16
  ns_limits :: tcp_limits
  ns_credits :: "nat \<Rightarrow> flow_credit"
  ns_data_in :: "data_in chan"
  ns_answers :: "open_answer list"

abbreviation upd_tcp :: "nat \<Rightarrow> tcp_flow \<Rightarrow> 'k netstack \<Rightarrow> 'k netstack" where
  "upd_tcp flow_id st s \<equiv> s\<lparr>ns_tcp := (ns_tcp s)(flow_id \<mapsto> st)\<rparr>"

subsection \<open>Placing the applications' data\<close>

fun data_in_id :: "data_in \<Rightarrow> nat" where
  "data_in_id (TcpData i d) = i"
| "data_in_id (TcpClose i) = i"
| "data_in_id (UdpData i a d) = i"
| "data_in_id (UdpClose i) = i"

fun data_in_bytes :: "data_in \<Rightarrow> nat" where
  "data_in_bytes (TcpData i d) = length d"
| "data_in_bytes (TcpClose i) = 0"
| "data_in_bytes (UdpData i a d) = length d"
| "data_in_bytes (UdpClose i) = 0"

definition try_handle_data :: "'k smol \<Rightarrow> tuning \<Rightarrow> 'k netstack \<Rightarrow> data_in \<Rightarrow> data_in option \<times> 'k netstack" where
  "try_handle_data ops t s d =
     (case d of
        TcpData i data \<Rightarrow>
          (case ns_tcp s i of
             None \<Rightarrow> (None, s)
           | Some st \<Rightarrow>
               let lim = max_tcp_pending t
               in if lim \<le> length (tf_pending st) then (Some (TcpData i data), s)
                  else let space = lim - length (tf_pending st)
                       in if length data \<le> space
                          then (None, upd_tcp i (st\<lparr>tf_pending := tf_pending st @ data\<rparr>) s)
                          else (Some (TcpData i (drop space data)),
                                upd_tcp i (st\<lparr>tf_pending := tf_pending st @ take space data\<rparr>) s))
      | TcpClose i \<Rightarrow>
          (case ns_tcp s i of
             None \<Rightarrow> (None, s)
           | Some st \<Rightarrow> (None, upd_tcp i (st\<lparr>tf_half_closed := True\<rparr>) s))
      | UdpData i dst data \<Rightarrow>
          (case ns_udp s i of
             None \<Rightarrow> (None, s)
           | Some st \<Rightarrow> (None, s\<lparr>ns_sockets := sm_udp_send ops (ns_sockets s) (uf_handle st) data dst\<rparr>))
      | UdpClose i \<Rightarrow>
          (case ns_udp s i of
             None \<Rightarrow> (None, s)
           | Some st \<Rightarrow>
               (None, s\<lparr>ns_udp := (ns_udp s)(i := None),
                        ns_sockets := sm_remove ops (ns_sockets s) (uf_handle st)\<rparr>)))"

subsection \<open>The backlog\<close>

record backlog =
  bl_queue :: "data_in list"
  bl_blocked :: "nat set"
  bl_bytes :: usize

definition backlog_new :: backlog where
  "backlog_new = \<lparr>bl_queue = [], bl_blocked = {}, bl_bytes = 0\<rparr>"

definition bl_is_empty :: "backlog \<Rightarrow> bool" where
  "bl_is_empty b \<longleftrightarrow> bl_queue b = []"

definition bl_holds :: "backlog \<Rightarrow> nat \<Rightarrow> bool" where
  "bl_holds b i \<longleftrightarrow> i \<in> bl_blocked b"

definition bl_push :: "backlog \<Rightarrow> data_in \<Rightarrow> backlog" where
  "bl_push b d =
     b\<lparr>bl_bytes := saturating_add (bl_bytes b) (data_in_bytes d),
       bl_blocked := insert (data_in_id d) (bl_blocked b),
       bl_queue := bl_queue b @ [d]\<rparr>"

definition bl_purge :: "backlog \<Rightarrow> nat \<Rightarrow> backlog" where
  "bl_purge b i =
     (let q = filter (\<lambda>d. data_in_id d \<noteq> i) (bl_queue b)
      in \<lparr>bl_queue = q, bl_blocked = bl_blocked b - {i}, bl_bytes = sum_list (map data_in_bytes q)\<rparr>)"

text \<open>\<^verbatim>\<open>ingest\<close> and \<^verbatim>\<open>drain_backlog\<close> over the handler that places one item.\<close>

definition ingest_with :: "('s \<Rightarrow> data_in \<Rightarrow> data_in option \<times> 's) \<Rightarrow> 's \<Rightarrow> backlog \<Rightarrow> data_in \<Rightarrow> 's \<times> backlog" where
  "ingest_with handle s b d =
     (if bl_holds b (data_in_id d) then (s, bl_push b d)
      else (case handle s d of
              (None, s') \<Rightarrow> (s', b)
            | (Some back, s') \<Rightarrow> (s', bl_push b back)))"

fun drain_queue :: "('s \<Rightarrow> data_in \<Rightarrow> data_in option \<times> 's) \<Rightarrow> 's \<Rightarrow> data_in list \<Rightarrow> backlog \<Rightarrow> 's \<times> backlog" where
  "drain_queue handle s [] kept = (s, kept)"
| "drain_queue handle s (d # ds) kept =
     (if data_in_id d \<in> bl_blocked kept
      then drain_queue handle s ds
             (kept\<lparr>bl_bytes := saturating_add (bl_bytes kept) (data_in_bytes d),
                   bl_queue := bl_queue kept @ [d]\<rparr>)
      else (case handle s d of
              (None, s') \<Rightarrow> drain_queue handle s' ds kept
            | (Some back, s') \<Rightarrow>
                drain_queue handle s' ds
                  (kept\<lparr>bl_blocked := insert (data_in_id d) (bl_blocked kept),
                        bl_bytes := saturating_add (bl_bytes kept) (data_in_bytes back),
                        bl_queue := bl_queue kept @ [back]\<rparr>)))"

definition ingest :: "'k smol \<Rightarrow> tuning \<Rightarrow> 'k netstack \<Rightarrow> backlog \<Rightarrow> data_in \<Rightarrow> 'k netstack \<times> backlog" where
  "ingest ops t s b d = ingest_with (try_handle_data ops t) s b d"

definition drain_backlog :: "'k smol \<Rightarrow> tuning \<Rightarrow> 'k netstack \<Rightarrow> backlog \<Rightarrow> 'k netstack \<times> backlog" where
  "drain_backlog ops t s b =
     (if bl_queue b = [] then (s, b)
      else drain_queue (try_handle_data ops t) s (bl_queue b) backlog_new)"

end
