(* ===== verification/Netstack_Backlog.thy ===== *)
theory Netstack_Backlog
  imports Netstack
begin

text \<open>
  The backlog of application data keeps every flow's bytes in order and lets no flow hold up another.
  What the backlog relies on is the interface of the handler that places one item (the locales
  \<open>flow_sink\<close> and \<open>bounded_sink\<close>); the handler of the stack implements it.
\<close>

subsection \<open>The bytes of a flow\<close>

definition payload_of :: "nat \<Rightarrow> data_in \<Rightarrow> bytes" where
  "payload_of i d = (case d of TcpData j data \<Rightarrow> if j = i then data else [] | _ \<Rightarrow> [])"

definition waiting :: "nat \<Rightarrow> data_in list \<Rightarrow> bytes" where
  "waiting i q = concat (map (payload_of i) q)"

lemma waiting_simps [simp]:
  "waiting i [] = []"
  "waiting i (d # q) = payload_of i d @ waiting i q"
  "waiting i (q @ r) = waiting i q @ waiting i r"
  by (simp_all add: waiting_def)

lemma payload_of_other: "data_in_id d \<noteq> i \<Longrightarrow> payload_of i d = []"
  by (cases d) (auto simp: payload_of_def)

lemma waiting_none: "i \<notin> data_in_id ` set q \<Longrightarrow> waiting i q = []"
  by (induction q) (auto simp: payload_of_other)

lemma waiting_purge: "j \<noteq> i \<Longrightarrow> waiting j (filter (\<lambda>d. data_in_id d \<noteq> i) q) = waiting j q"
  by (induction q) (auto simp: payload_of_other)

text \<open>
  The bookkeeping of the backlog: the blocked flows are those with an item in the queue, and the byte
  count is the sum of the items (as long as that fits the counter).
\<close>

definition backlog_ok :: "backlog \<Rightarrow> bool" where
  "backlog_ok b \<longleftrightarrow>
     bl_blocked b = data_in_id ` set (bl_queue b) \<and>
     (sum_list (map data_in_bytes (bl_queue b)) \<le> usize_max \<longrightarrow>
        bl_bytes b = sum_list (map data_in_bytes (bl_queue b)))"

lemma backlog_ok_new [simp]: "backlog_ok backlog_new"
  by (simp add: backlog_ok_def backlog_new_def)

lemma backlog_new_sel [simp]: "bl_queue backlog_new = []" "bl_blocked backlog_new = {}" "bl_bytes backlog_new = 0"
  by (simp_all add: backlog_new_def)

lemma backlog_ok_push: "backlog_ok b \<Longrightarrow> backlog_ok (bl_push b d)"
  by (auto simp: backlog_ok_def bl_push_def saturating_add_def)

lemma backlog_ok_purge: "backlog_ok b \<Longrightarrow> backlog_ok (bl_purge b i)"
  by (auto simp: backlog_ok_def bl_purge_def Let_def)

lemma backlog_ok_keep:
  assumes "backlog_ok b"
  shows "backlog_ok (b\<lparr>bl_blocked := insert (data_in_id d) (bl_blocked b),
      bl_bytes := saturating_add (bl_bytes b) (data_in_bytes d), bl_queue := bl_queue b @ [d]\<rparr>)"
  using assms by (auto simp: backlog_ok_def saturating_add_def)

lemma backlog_ok_behind:
  assumes "backlog_ok b" and "data_in_id d \<in> bl_blocked b"
  shows "backlog_ok (b\<lparr>bl_bytes := saturating_add (bl_bytes b) (data_in_bytes d), bl_queue := bl_queue b @ [d]\<rparr>)"
  using assms by (auto simp: backlog_ok_def saturating_add_def)

subsection \<open>The interface of the handler\<close>

text \<open>
  \<open>accepted s i\<close> is what flow \<open>i\<close> has taken and not yet passed on, None when there is no such flow. An
  item that is given back is what is left of a data item of the same flow, the part before it taken.
\<close>

locale flow_sink =
  fixes handle :: "'s \<Rightarrow> data_in \<Rightarrow> data_in option \<times> 's"
    and accepted :: "'s \<Rightarrow> nat \<Rightarrow> bytes option"
  assumes other_flows: "handle s d = (r, s') \<Longrightarrow> i \<noteq> data_in_id d \<Longrightarrow> accepted s' i = accepted s i"
    and all_taken: "handle s d = (None, s') \<Longrightarrow>
      accepted s' (data_in_id d) = map_option (\<lambda>p. p @ payload_of (data_in_id d) d) (accepted s (data_in_id d))"
    and part_taken: "handle s d = (Some back, s') \<Longrightarrow>
      \<exists>i pre rest. d = TcpData i (pre @ rest) \<and> back = TcpData i rest \<and>
        accepted s' i = map_option (\<lambda>p. p @ pre) (accepted s i)"
begin

lemma back_id: "handle s d = (Some back, s') \<Longrightarrow> data_in_id back = data_in_id d"
  by (drule part_taken) auto

lemma handle_stream:
  assumes "handle s d = (r, s')" and "accepted s i = Some p"
  shows "\<exists>p'. accepted s' i = Some p' \<and>
    p' @ (case r of None \<Rightarrow> [] | Some back \<Rightarrow> payload_of i back) = p @ payload_of i d"
proof (cases "i = data_in_id d")
  case False
  then show ?thesis using assms other_flows [OF assms(1)] back_id [of s d]
    by (auto simp: payload_of_other split: option.splits)
next
  case True
  show ?thesis
  proof (cases r)
    case None
    then show ?thesis using assms True all_taken [of s d s'] by simp
  next
    case (Some bk)
    then show ?thesis using assms True part_taken [of s d bk s'] by (auto simp: payload_of_def)
  qed
qed

text \<open>A pass over the queue moves bytes from the front of what waits to the end of what is taken.\<close>

lemma drain_queue_stream:
  assumes "drain_queue handle s q kept = (s', b')" and "backlog_ok kept" and "accepted s i = Some p"
  shows "backlog_ok b' \<and> (\<exists>p'. accepted s' i = Some p' \<and>
    p' @ waiting i (bl_queue b') = p @ waiting i (bl_queue kept) @ waiting i q)"
  using assms
proof (induction q arbitrary: s kept p)
  case Nil
  then show ?case by auto
next
  case (Cons d q)
  show ?case
  proof (cases "data_in_id d \<in> bl_blocked kept")
    case True
    then show ?thesis using Cons.prems Cons.IH [OF _ backlog_ok_behind [OF Cons.prems(2) True]] by auto
  next
    case False
    obtain r s1 where h: "handle s d = (r, s1)" by (cases "handle s d")
    obtain p1 where p1: "accepted s1 i = Some p1"
      and st: "p1 @ (case r of None \<Rightarrow> [] | Some back \<Rightarrow> payload_of i back) = p @ payload_of i d"
      using handle_stream [OF h Cons.prems(3)] by blast
    have none: "waiting i (bl_queue kept) = []" if "i = data_in_id d"
      using False Cons.prems(2) that by (simp add: backlog_ok_def waiting_none)
    show ?thesis
    proof (cases r)
      case None
      with h False Cons.prems have "drain_queue handle s1 q kept = (s', b')" by simp
      from Cons.IH [OF this Cons.prems(2) p1] st None none show ?thesis
        by (cases "i = data_in_id d") (auto simp: payload_of_other)
    next
      case (Some bk)
      have eq: "data_in_id bk = data_in_id d" using h Some back_id by simp
      let ?k = "kept\<lparr>bl_blocked := insert (data_in_id d) (bl_blocked kept),
        bl_bytes := saturating_add (bl_bytes kept) (data_in_bytes bk), bl_queue := bl_queue kept @ [bk]\<rparr>"
      have "drain_queue handle s1 q ?k = (s', b')" using h False Some Cons.prems(1) by simp
      moreover have "backlog_ok ?k" using backlog_ok_keep [OF Cons.prems(2), of bk] eq by simp
      ultimately show ?thesis using Cons.IH [of s1 ?k p1] p1 st Some none eq
        by (cases "i = data_in_id d") (auto simp: payload_of_other)
    qed
  qed
qed

lemma drain_queue_ok: "backlog_ok kept \<Longrightarrow> backlog_ok (snd (drain_queue handle s q kept))"
proof (induction q arbitrary: s kept)
  case (Cons d q)
  obtain r s1 where h: "handle s d = (r, s1)" by (cases "handle s d")
  show ?case
    using Cons backlog_ok_behind [OF Cons.prems] backlog_ok_keep [OF Cons.prems] back_id [of s d] h
    by (cases r) (auto, metis)
qed simp

lemma ingest_ok: "backlog_ok b \<Longrightarrow> backlog_ok (snd (ingest_with handle s b d))"
  by (simp add: ingest_with_def backlog_ok_push split: prod.splits option.splits)

lemma ingest_stream:
  assumes "ingest_with handle s b d = (s', b')" and "backlog_ok b" and "accepted s i = Some p"
  shows "backlog_ok b' \<and> (\<exists>p'. accepted s' i = Some p' \<and>
    p' @ waiting i (bl_queue b') = p @ waiting i (bl_queue b) @ payload_of i d)"
proof (cases "bl_holds b (data_in_id d)")
  case True
  then show ?thesis using assms backlog_ok_push [OF assms(2)]
    by (auto simp: ingest_with_def bl_push_def)
next
  case False
  obtain r s1 where h: "handle s d = (r, s1)" by (cases "handle s d")
  obtain p1 where p1: "accepted s1 i = Some p1"
    and st: "p1 @ (case r of None \<Rightarrow> [] | Some back \<Rightarrow> payload_of i back) = p @ payload_of i d"
    using handle_stream [OF h assms(3)] by blast
  have none: "waiting i (bl_queue b) = []" if "i = data_in_id d"
    using False assms(2) that by (simp add: backlog_ok_def bl_holds_def waiting_none)
  show ?thesis
  proof (cases r)
    case None
    then show ?thesis using assms False h p1 st none
      by (cases "i = data_in_id d") (auto simp: ingest_with_def payload_of_other)
  next
    case (Some bk)
    have b': "b' = bl_push b bk" and s': "s' = s1" using assms(1) False h Some by (auto simp: ingest_with_def)
    have "data_in_id bk = data_in_id d" using h Some back_id by simp
    then have "p1 @ waiting i (bl_queue b') = p @ waiting i (bl_queue b) @ payload_of i d"
      using st none Some by (cases "i = data_in_id d") (auto simp: b' bl_push_def payload_of_other)
    then show ?thesis using p1 backlog_ok_push [OF assms(2)] by (simp add: b' s')
  qed
qed

end

text \<open>A handler that refuses a flow's data only when the flow holds \<open>lim\<close> bytes.\<close>

locale bounded_sink = flow_sink +
  fixes lim :: nat
  assumes takes_with_room: "accepted s i = Some p \<Longrightarrow> length p + length data < lim \<Longrightarrow>
      fst (handle s (TcpData i data)) = None"
begin

lemma takes_item:
  assumes "accepted s (data_in_id d) = Some p" and "length p + length (payload_of (data_in_id d) d) < lim"
  shows "fst (handle s d) = None"
proof (cases "handle s d")
  case (Pair r s')
  show ?thesis
  proof (cases r)
    case (Some bk)
    then obtain i pre rest where "d = TcpData i (pre @ rest)" using Pair part_taken by blast
    then show ?thesis using assms takes_with_room [of s i p "pre @ rest"] by (simp add: payload_of_def)
  qed (simp add: Pair)
qed

text \<open>A flow with room for all its waiting bytes gets them in one pass, whatever other flows do.\<close>

lemma drain_queue_no_hostage:
  assumes "drain_queue handle s q kept = (s', b')" and "accepted s i = Some p"
    and "length p + length (waiting i q) < lim" and "i \<notin> bl_blocked kept" and "backlog_ok kept"
  shows "accepted s' i = Some (p @ waiting i q) \<and> i \<notin> bl_blocked b'"
  using assms
proof (induction q arbitrary: s kept p)
  case Nil
  then show ?case by simp
next
  case (Cons d q)
  show ?case
  proof (cases "data_in_id d \<in> bl_blocked kept")
    case True
    then have ne: "i \<noteq> data_in_id d" using Cons.prems(4) by blast
    from Cons.IH [OF _ Cons.prems(2) _ _ backlog_ok_behind [OF Cons.prems(5) True]]
    show ?thesis using Cons.prems True ne by (auto simp: payload_of_other)
  next
    case False
    obtain r s1 where h: "handle s d = (r, s1)" by (cases "handle s d")
    show ?thesis
    proof (cases "i = data_in_id d")
      case True
      have "r = None" using takes_item [of s d p] Cons.prems(2,3) True h by simp
      moreover from this have "accepted s1 i = Some (p @ payload_of i d)"
        using all_taken h Cons.prems(2) True by auto
      ultimately show ?thesis
        using Cons.IH [of s1 kept "p @ payload_of i d"] Cons.prems h False by simp
    next
      case ne: False
      then have p1: "accepted s1 i = Some p" using other_flows [OF h] Cons.prems(2) by simp
      have po: "payload_of i d = []" using ne by (simp add: payload_of_other)
      show ?thesis
      proof (cases r)
        case None
        then show ?thesis using Cons.IH [of s1 kept p] Cons.prems h False p1 po by simp
      next
        case (Some bk)
        have eq: "data_in_id bk = data_in_id d" using h Some back_id by simp
        then show ?thesis
          using Cons.IH [OF _ p1 _ _ backlog_ok_keep [OF Cons.prems(5), of bk]] Cons.prems h False Some po ne
          by simp
      qed
    qed
  qed
qed

end

subsection \<open>The stack's handler\<close>

definition tcp_pending :: "'k netstack \<Rightarrow> nat \<Rightarrow> bytes option" where
  "tcp_pending s i = map_option tf_pending (ns_tcp s i)"

interpretation stack_sink: bounded_sink "try_handle_data ops t" tcp_pending "max_tcp_pending t"
  for ops :: "'k smol" and t :: tuning
proof
  fix s :: "'k netstack" and d r s' i
  assume "try_handle_data ops t s d = (r, s')" and "i \<noteq> data_in_id d"
  then show "tcp_pending s' i = tcp_pending s i"
    by (cases d) (auto simp: try_handle_data_def tcp_pending_def Let_def split: option.splits if_splits)
next
  fix s :: "'k netstack" and d s'
  assume "try_handle_data ops t s d = (None, s')"
  then show "tcp_pending s' (data_in_id d) =
      map_option (\<lambda>p. p @ payload_of (data_in_id d) d) (tcp_pending s (data_in_id d))"
    by (cases d) (auto simp: try_handle_data_def tcp_pending_def Let_def payload_of_def option.map_ident
        split: option.splits if_splits)
next
  fix s :: "'k netstack" and d bk s'
  assume h: "try_handle_data ops t s d = (Some bk, s')"
  then obtain i data where d: "d = TcpData i data"
    by (cases d) (auto simp: try_handle_data_def split: option.splits)
  obtain st where st: "ns_tcp s i = Some st" using h d by (auto simp: try_handle_data_def split: option.splits)
  show "\<exists>i pre rest. d = TcpData i (pre @ rest) \<and> bk = TcpData i rest \<and>
      tcp_pending s' i = map_option (\<lambda>p. p @ pre) (tcp_pending s i)"
  proof (cases "max_tcp_pending t \<le> length (tf_pending st)")
    case True
    with h d st show ?thesis
      by (intro exI [of _ i] exI [of _ "[]"] exI [of _ data]) (auto simp: try_handle_data_def tcp_pending_def)
  next
    case False
    let ?n = "max_tcp_pending t - length (tf_pending st)"
    from False h d st show ?thesis
      by (intro exI [of _ i] exI [of _ "take ?n data"] exI [of _ "drop ?n data"])
        (auto simp: try_handle_data_def tcp_pending_def Let_def split: if_splits)
  qed
next
  fix s :: "'k netstack" and i p and data :: bytes
  assume "tcp_pending s i = Some p" and "length p + length data < max_tcp_pending t"
  then show "fst (try_handle_data ops t s (TcpData i data)) = None"
    by (auto simp: try_handle_data_def tcp_pending_def Let_def)
qed

subsection \<open>Properties\<close>

text \<open>
  C2. No byte of a flow is lost, doubled or overtaken on its way through the backlog: what the flow
  holds followed by what waits for it is the same before and after a pass over the backlog, and
  taking in one more item adds exactly that item's bytes at the end. The bookkeeping stays right.
\<close>

theorem backlog_keeps_streams:
  assumes "backlog_ok b" and "ns_tcp s i = Some st"
  shows "\<exists>s1 b1 st1 s2 b2 st2.
    drain_backlog ops t s b = (s1, b1) \<and> backlog_ok b1 \<and> ns_tcp s1 i = Some st1 \<and>
    tf_pending st1 @ waiting i (bl_queue b1) = tf_pending st @ waiting i (bl_queue b) \<and>
    ingest ops t s b d = (s2, b2) \<and> backlog_ok b2 \<and> ns_tcp s2 i = Some st2 \<and>
    tf_pending st2 @ waiting i (bl_queue b2) = tf_pending st @ waiting i (bl_queue b) @ payload_of i d"
proof -
  have p: "tcp_pending s i = Some (tf_pending st)" using assms(2) by (simp add: tcp_pending_def)
  obtain s1 b1 where d1: "drain_backlog ops t s b = (s1, b1)" by (cases "drain_backlog ops t s b")
  obtain s2 b2 where d2: "ingest ops t s b d = (s2, b2)" by (cases "ingest ops t s b d")
  have "backlog_ok b1 \<and> (\<exists>p1. tcp_pending s1 i = Some p1 \<and>
      p1 @ waiting i (bl_queue b1) = tf_pending st @ waiting i (bl_queue b))"
    using stack_sink.drain_queue_stream [of ops t s "bl_queue b" backlog_new s1 b1 i, OF _ _ p] d1 p assms(1)
    by (auto simp: drain_backlog_def split: if_splits)
  moreover have "backlog_ok b2 \<and> (\<exists>p2. tcp_pending s2 i = Some p2 \<and>
      p2 @ waiting i (bl_queue b2) = tf_pending st @ waiting i (bl_queue b) @ payload_of i d)"
    using stack_sink.ingest_stream [of ops t s b d s2 b2 i, OF _ assms(1) p] d2 by (simp add: ingest_def)
  ultimately show ?thesis using d1 d2 by (auto simp: tcp_pending_def)
qed

text \<open>A socket set that never has anything to do, to evaluate the definitions on.\<close>

definition idle_smol :: "unit smol" where
  "idle_smol = \<lparr>sm_state = (\<lambda>k h. SockEstablished), sm_can_send = (\<lambda>k h. False),
     sm_send_slice = (\<lambda>k h d. (0, k)), sm_send_queue = (\<lambda>k h. 0), sm_can_recv = (\<lambda>k h. False),
     sm_recv = (\<lambda>k h. (None, k)), sm_close = (\<lambda>k h. k), sm_abort = (\<lambda>k h. k), sm_remove = (\<lambda>k h. k),
     sm_connect = (\<lambda>k ka to a p. Inr (0, k)), sm_udp_bind = (\<lambda>k p. Inr (0, k)),
     sm_udp_send = (\<lambda>k h d a. k), sm_udp_can_recv = (\<lambda>k h. False), sm_udp_recv = (\<lambda>k h. (None, k)),
     sm_ip_addrs = (\<lambda>k. []), sm_set_ip_addrs = (\<lambda>k a. k), sm_default_v4_route = (\<lambda>k a. k),
     sm_default_v6_route = (\<lambda>k a. k)\<rparr>"

definition sample_flow :: tcp_flow where
  "sample_flow = \<lparr>tf_handle = 0, tf_to_app = chan_new 4, tf_rx_held = False, tf_resp = False,
     tf_resp_closed = False, tf_pending = [1, 2], tf_established = True, tf_half_closed = False,
     tf_connect_deadline = 0, tf_orphaned_at = None, tf_aborted = False, tf_last_progress = 0,
     tf_send_queue_high = 0, tf_accepted_total = 0, tf_acked_high = 0, tf_last_drain = 0,
     tf_drain_warned = False,
     tf_rate = \<lparr>re_mark = 0, re_base = 0, re_rate = 0\<rparr>, tf_uplink_budget = MIN_FLOW_QUEUE_BYTES,
     tf_outstanding_peak = 0, tf_pending_peak = 0, tf_send_queue_peak = 0, tf_stall_count = 0,
     tf_stall_mark = 0\<rparr>"

definition sample_stack :: "unit netstack" where
  "sample_stack = \<lparr>ns_sockets = (), ns_device = stack_device_new 1280, ns_tcp = [1 \<mapsto> sample_flow],
     ns_udp = Map.empty, ns_next_id = 2, ns_next_port = 49152,
     ns_limits = \<lparr>tl_connect = secs 30, tl_keepalive = secs 15, tl_dead_peer = secs 90, tl_orphan_linger = secs 10\<rparr>,
     ns_credits = (\<lambda>i. flow_credit_new), ns_data_in = chan_new 4, ns_answers = []\<rparr>"

definition sample_tuning :: tuning where
  "sample_tuning = \<lparr>tn_tcp_tx_buf = 131072, tn_app_queue = 1024\<rparr>"

definition sample_backlog :: backlog where
  "sample_backlog = bl_push backlog_new (TcpData 1 [3, 4])"

lemma sample_backlog_ok: "backlog_ok sample_backlog"
  by (simp add: sample_backlog_def backlog_ok_push)

lemma sample_stack_flow: "ns_tcp sample_stack 1 = Some sample_flow"
  by (simp add: sample_stack_def)

theorem backlog_keeps_streams_witness:
  "\<exists>s2 b2 st2. ingest idle_smol sample_tuning sample_stack sample_backlog (TcpData 1 [5]) = (s2, b2) \<and>
     ns_tcp s2 1 = Some st2 \<and> tf_pending st2 @ waiting 1 (bl_queue b2) = [1, 2, 3, 4, 5]"
  using backlog_keeps_streams [OF sample_backlog_ok sample_stack_flow, of idle_smol sample_tuning "TcpData 1 [5]"]
  by (auto simp: sample_flow_def sample_backlog_def bl_push_def payload_of_def)

text \<open>
  C8. One flow cannot hold up another: when a flow has room for the bytes that wait for it, one pass
  over the backlog gives it all of them and leaves it unblocked, however many other flows refuse.
\<close>

theorem backlog_no_hostage:
  assumes "backlog_ok b" and "ns_tcp s i = Some st"
    and "length (tf_pending st) + length (waiting i (bl_queue b)) < max_tcp_pending t"
    and "drain_backlog ops t s b = (s', b')"
  shows "\<exists>st'. ns_tcp s' i = Some st' \<and> tf_pending st' = tf_pending st @ waiting i (bl_queue b) \<and>
    \<not> bl_holds b' i"
proof (cases "bl_queue b = []")
  case True
  then show ?thesis using assms by (auto simp: drain_backlog_def bl_holds_def backlog_ok_def)
next
  case False
  have "tcp_pending s i = Some (tf_pending st)" using assms(2) by (simp add: tcp_pending_def)
  then have "tcp_pending s' i = Some (tf_pending st @ waiting i (bl_queue b)) \<and> i \<notin> bl_blocked b'"
    using stack_sink.drain_queue_no_hostage [of ops t s "bl_queue b" backlog_new s' b' i "tf_pending st"]
      assms(3,4) False by (auto simp: drain_backlog_def)
  then show ?thesis by (auto simp: tcp_pending_def bl_holds_def)
qed

theorem backlog_no_hostage_witness:
  "\<exists>s' b' st'. drain_backlog idle_smol sample_tuning sample_stack sample_backlog = (s', b') \<and>
     ns_tcp s' 1 = Some st' \<and> tf_pending st' = [1, 2, 3, 4] \<and> \<not> bl_holds b' 1"
proof -
  obtain s' b' where "drain_backlog idle_smol sample_tuning sample_stack sample_backlog = (s', b')"
    by (cases "drain_backlog idle_smol sample_tuning sample_stack sample_backlog")
  with backlog_no_hostage [OF sample_backlog_ok sample_stack_flow _ this] show ?thesis
    by (simp add: sample_flow_def sample_backlog_def bl_push_def payload_of_def max_tcp_pending_def
        sample_tuning_def)
qed

end
