(* ===== verification/Netstack_Service.thy ===== *)
theory Netstack_Service
  imports Netstack_Backlog
begin

text \<open>
  The passes of the stack's task in \<^verbatim>\<open>netstack.rs\<close>: opening flows and setting addresses, serving TCP
  and UDP sockets, resetting dead flows, moving packets to the tunnel, and the bounded draining of
  the queues. The order in which a hash map or a hash set is walked is the argument \<open>ord\<close>.
\<close>

subsection \<open>Constants\<close>

definition MAX_INGEST_PER_TICK :: usize where
  "MAX_INGEST_PER_TICK = 512"

definition MAX_RECV_CHUNKS :: usize where
  "MAX_RECV_CHUNKS = 128"

definition MAX_APP_INGEST_PER_TICK :: usize where
  "MAX_APP_INGEST_PER_TICK = 512"

definition MAX_CMD_PER_TICK :: usize where
  "MAX_CMD_PER_TICK = 64"

definition MAX_BACKLOG_BYTES :: usize where
  "MAX_BACKLOG_BYTES = 512 * 1024"

definition TCP_WEDGE_TIMEOUT :: nat where
  "TCP_WEDGE_TIMEOUT = secs 30"

definition TCP_DRAIN_STALL_TIMEOUT :: nat where
  "TCP_DRAIN_STALL_TIMEOUT = secs 8"

definition TCP_DRAIN_STALL_WARN :: nat where
  "TCP_DRAIN_STALL_WARN = secs 3"

definition STALL_FLAP_WINDOW :: nat where
  "STALL_FLAP_WINDOW = secs 60"

definition STALL_FLAP_LIMIT :: nat where
  "STALL_FLAP_LIMIT = 2"

subsection \<open>Addresses\<close>

definition routable_prefix_v4 :: "u8 \<Rightarrow> u8" where
  "routable_prefix_v4 p = (if 31 \<le> p then 24 else p)"

definition routable_prefix_v6 :: "u8 \<Rightarrow> u8" where
  "routable_prefix_v6 p = (if 127 \<le> p then 64 else p)"

definition gateway_v4 :: "ipv4_addr \<Rightarrow> ipv4_addr" where
  "gateway_v4 ip =
     (let o4 = v4_octets ip; host = (if o4 ! 3 = 1 then 2 else 1)
      in v4_new (o4 ! 0) (o4 ! 1) (o4 ! 2) host)"

definition gateway_v6 :: "ipv6_addr \<Rightarrow> ipv6_addr" where
  "gateway_v6 ip = (let o16 = v6_octets ip in be_word (o16[15 := (if o16 ! 15 = 1 then 2 else 1)]))"

definition apply_addrs :: "'k smol \<Rightarrow> 'k \<Rightarrow> (ipv4_addr \<times> u8) option \<Rightarrow> (ipv6_addr \<times> u8) option \<Rightarrow> 'k" where
  "apply_addrs ops k v4 v6 =
     (let a4 = (case v4 of None \<Rightarrow> [] | Some (ip, p) \<Rightarrow> [Cidr4 ip (routable_prefix_v4 p)]);
          a6 = (case v6 of None \<Rightarrow> [] | Some (ip, p) \<Rightarrow> [Cidr6 ip (routable_prefix_v6 p)]);
          k = sm_set_ip_addrs ops k (a4 @ a6);
          k = (case v4 of None \<Rightarrow> k | Some (ip, p) \<Rightarrow> sm_default_v4_route ops k (gateway_v4 ip))
      in case v6 of None \<Rightarrow> k | Some (ip, p) \<Rightarrow> sm_default_v6_route ops k (gateway_v6 ip))"

text \<open>The last address of each family in the list.\<close>

fun current_addrs_of :: "ip_cidr list \<Rightarrow> (ipv4_addr \<times> u8) option \<times> (ipv6_addr \<times> u8) option \<Rightarrow>
    (ipv4_addr \<times> u8) option \<times> (ipv6_addr \<times> u8) option" where
  "current_addrs_of [] (v4, v6) = (v4, v6)"
| "current_addrs_of (Cidr4 a p # cs) (v4, v6) = current_addrs_of cs (Some (a, p), v6)"
| "current_addrs_of (Cidr6 a p # cs) (v4, v6) = current_addrs_of cs (v4, Some (a, p))"

definition current_addrs :: "'k smol \<Rightarrow> 'k \<Rightarrow> (ipv4_addr \<times> u8) option \<times> (ipv6_addr \<times> u8) option" where
  "current_addrs ops k = current_addrs_of (sm_ip_addrs ops k) (None, None)"

subsection \<open>Opening flows\<close>

definition alloc_port :: "u16 \<Rightarrow> u16 \<times> u16" where
  "alloc_port p = (p, if 65000 \<le> p then 49152 else p + 1)"

text \<open>
  A command; the flag of the two opening commands says that the opener has already gone away.
\<close>

datatype cmd =
    OpenTcp socket_addr bool
  | OpenUdp bool
  | SetAddrs "(ipv4_addr \<times> u8) option" "(ipv6_addr \<times> u8) option"

definition new_flow :: "tuning \<Rightarrow> tcp_limits \<Rightarrow> nat \<Rightarrow> nat \<Rightarrow> bool \<Rightarrow> tcp_flow" where
  "new_flow t lims now handle gone =
     \<lparr>tf_handle = handle, tf_to_app = chan_new (tn_app_queue t), tf_rx_held = True, tf_resp = True,
      tf_resp_closed = gone, tf_pending = [], tf_established = False, tf_half_closed = False,
      tf_connect_deadline = now + tl_connect lims, tf_orphaned_at = None, tf_aborted = False,
      tf_last_progress = now, tf_send_queue_high = 0, tf_accepted_total = 0, tf_acked_high = 0,
      tf_last_drain = now, tf_drain_warned = False,
      tf_rate = \<lparr>re_mark = now, re_base = 0, re_rate = 0\<rparr>, tf_uplink_budget = MIN_FLOW_QUEUE_BYTES,
      tf_outstanding_peak = 0, tf_pending_peak = 0, tf_send_queue_peak = 0, tf_stall_count = 0,
      tf_stall_mark = now\<rparr>"

text \<open>An answer to an opener that is gone is lost.\<close>

definition send_answer :: "bool \<Rightarrow> open_answer \<Rightarrow> 'k netstack \<Rightarrow> 'k netstack" where
  "send_answer gone a s = (if gone then s else s\<lparr>ns_answers := ns_answers s @ [a]\<rparr>)"

text \<open>Dropping an unsplit connection handle sends the closing message if the queue has room.\<close>

definition drop_conn :: "data_in \<Rightarrow> 'k netstack \<Rightarrow> 'k netstack" where
  "drop_conn msg s = s\<lparr>ns_data_in := snd (try_send (ns_data_in s) msg)\<rparr>"

definition handle_cmd :: "'k smol \<Rightarrow> tuning \<Rightarrow> nat \<Rightarrow> 'k netstack \<Rightarrow> cmd \<Rightarrow> 'k netstack" where
  "handle_cmd ops t now s c =
     (case c of
        OpenTcp dst gone \<Rightarrow>
          (case alloc_port (ns_next_port s) of (local_port, next_port) \<Rightarrow>
           let s = s\<lparr>ns_next_port := next_port\<rparr>
           in case sm_connect ops (ns_sockets s) (tl_keepalive (ns_limits s)) (tl_dead_peer (ns_limits s)) dst local_port of
                Inl e \<Rightarrow> send_answer gone (Refused (''connect: '' @ e)) s
              | Inr (handle, k) \<Rightarrow>
                  s\<lparr>ns_sockets := k, ns_next_id := ns_next_id s + 1,
                    ns_credits := (ns_credits s)(ns_next_id s := flow_credit_new),
                    ns_tcp := (ns_tcp s)(ns_next_id s \<mapsto> new_flow t (ns_limits s) now handle gone)\<rparr>)
      | OpenUdp gone \<Rightarrow>
          (case alloc_port (ns_next_port s) of (local_port, next_port) \<Rightarrow>
           let s = s\<lparr>ns_next_port := next_port\<rparr>
           in case sm_udp_bind ops (ns_sockets s) local_port of
                Inl e \<Rightarrow> send_answer gone (Refused (''bind: '' @ e)) s
              | Inr (handle, k) \<Rightarrow>
                  let i = ns_next_id s;
                      to_app = (chan_new (tn_app_queue t))\<lparr>ch_rx_closed := gone\<rparr>;
                      s = s\<lparr>ns_sockets := k, ns_next_id := i + 1,
                            ns_udp := (ns_udp s)(i \<mapsto> \<lparr>uf_handle = handle, uf_to_app = to_app\<rparr>)\<rparr>
                  in if gone then drop_conn (UdpClose i) s else send_answer gone (Opened i) s)
      | SetAddrs v4 v6 \<Rightarrow>
          (case current_addrs ops (ns_sockets s) of (current_v4, current_v6) \<Rightarrow>
             s\<lparr>ns_sockets := apply_addrs ops (ns_sockets s)
                 (if v4 = None then current_v4 else v4) (if v6 = None then current_v6 else v6)\<rparr>))"

subsection \<open>Draining the queues\<close>

text \<open>
  The three bounded drains share their loop: \<open>go\<close> is the extra condition, \<open>put\<close> places one item.
\<close>

function drain_with :: "('s \<Rightarrow> bool) \<Rightarrow> ('s \<Rightarrow> 'a \<Rightarrow> 's) \<Rightarrow> nat \<Rightarrow> nat \<Rightarrow> 's \<Rightarrow> 'a chan \<Rightarrow> (nat \<times> bool) \<times> 's \<times> 'a chan" where
  "drain_with go put cap moved s rx =
     (if moved < cap \<and> go s then
        (case try_recv rx of
           (Received x, rx') \<Rightarrow> drain_with go put cap (Suc moved) (put s x) rx'
         | (Empty, rx') \<Rightarrow> ((moved, False), s, rx')
         | (Disconnected, rx') \<Rightarrow> ((moved, True), s, rx'))
      else ((moved, False), s, rx))"
  by pat_completeness auto
termination
  by (relation "measure (\<lambda>(go, put, cap, moved, s, rx). cap - moved)") auto

declare drain_with.simps [simp del]

definition device_push :: "'k netstack \<Rightarrow> bytes \<Rightarrow> 'k netstack" where
  "device_push s pkt = s\<lparr>ns_device := (ns_device s)\<lparr>dv_rx := dv_rx (ns_device s) @ [pkt]\<rparr>\<rparr>"

definition drain_inbound :: "'k netstack \<Rightarrow> bytes chan \<Rightarrow> nat \<Rightarrow> (nat \<times> bool) \<times> 'k netstack \<times> bytes chan" where
  "drain_inbound s rx cap = drain_with (\<lambda>s. True) device_push cap 0 s rx"

definition drain_app_data :: "'k smol \<Rightarrow> tuning \<Rightarrow> 'k netstack \<Rightarrow> backlog \<Rightarrow> nat \<Rightarrow>
    (nat \<times> bool) \<times> 'k netstack \<times> backlog" where
  "drain_app_data ops t s b cap =
     (case drain_with (\<lambda>(s, b). bl_bytes b < MAX_BACKLOG_BYTES) (\<lambda>(s, b) d. ingest ops t s b d) cap 0 (s, b) (ns_data_in s) of
        (r, (s', b'), rx') \<Rightarrow> (r, s'\<lparr>ns_data_in := rx'\<rparr>, b'))"

definition drain_cmds :: "'k smol \<Rightarrow> tuning \<Rightarrow> nat \<Rightarrow> 'k netstack \<Rightarrow> cmd chan \<Rightarrow> nat \<Rightarrow> (nat \<times> bool) \<times> 'k netstack \<times> cmd chan" where
  "drain_cmds ops t now s rx cap = drain_with (\<lambda>s. True) (handle_cmd ops t now) cap 0 s rx"

subsection \<open>Moving packets to the tunnel\<close>

fun flush_loop :: "bytes list \<Rightarrow> bytes chan \<Rightarrow> bytes list \<times> bool \<times> bytes chan" where
  "flush_loop [] out = ([], False, out)"
| "flush_loop (pkt # tx) out =
     (case try_send out pkt of
        (Sent, out') \<Rightarrow> flush_loop tx out'
      | (Full, out') \<Rightarrow> (pkt # tx, True, out')
      | (Closed, out') \<Rightarrow> (tx, False, out'))"

definition flush_tx :: "'k netstack \<Rightarrow> bytes chan \<Rightarrow> (nat \<times> bool) \<times> 'k netstack \<times> bytes chan" where
  "flush_tx s outbound_tx =
     (let dev = ns_device s;
          dev = (if dv_tx_peak dev < length (dv_tx dev) then dev\<lparr>dv_tx_peak := length (dv_tx dev)\<rparr> else dev)
      in case flush_loop (dv_tx dev) outbound_tx of (tx, retained, out) \<Rightarrow>
           if retained \<and> MAX_DEVICE_TX_HARD < length tx
           then let excess = length tx - MAX_DEVICE_TX_HARD
                in ((excess, True),
                    s\<lparr>ns_device := dev\<lparr>dv_tx := drop excess tx, dv_tx_shed := saturating_add (dv_tx_shed dev) excess\<rparr>\<rparr>,
                    out)
           else ((0, retained), s\<lparr>ns_device := dev\<lparr>dv_tx := tx\<rparr>\<rparr>, out))"

subsection \<open>Resetting dead flows\<close>

definition close_credit :: "nat \<Rightarrow> 'k netstack \<Rightarrow> 'k netstack" where
  "close_credit i s = s\<lparr>ns_credits := (ns_credits s)(i := credit_close (ns_credits s i))\<rparr>"

definition reset_flow :: "'k smol \<Rightarrow> nat \<Rightarrow> 'k netstack \<Rightarrow> 'k netstack" where
  "reset_flow ops i s =
     (case ns_tcp s i of
        None \<Rightarrow> s
      | Some st \<Rightarrow>
          upd_tcp i (st\<lparr>tf_pending := []\<rparr>)
            (close_credit i (s\<lparr>ns_sockets := sm_abort ops (ns_sockets s) (tf_handle st)\<rparr>)))"

definition reset_all :: "'k smol \<Rightarrow> nat list \<Rightarrow> 'k netstack \<times> backlog \<Rightarrow> 'k netstack \<times> backlog" where
  "reset_all ops ids sb = foldl (\<lambda>(s, b) i. (reset_flow ops i s, bl_purge b i)) sb ids"

definition drain_stalled :: "nat \<Rightarrow> tcp_flow \<Rightarrow> bool" where
  "drain_stalled now st \<longleftrightarrow> 0 < tf_send_queue_high st \<and> TCP_DRAIN_STALL_TIMEOUT \<le> now - tf_last_drain st"

definition wedged :: "nat \<Rightarrow> 'k netstack \<Rightarrow> nat \<Rightarrow> bool" where
  "wedged now s i \<longleftrightarrow>
     (case ns_tcp s i of None \<Rightarrow> True | Some st \<Rightarrow> TCP_WEDGE_TIMEOUT \<le> now - tf_last_progress st)"

definition reap_wedged :: "'k smol \<Rightarrow> (nat set \<Rightarrow> nat list) \<Rightarrow> nat \<Rightarrow> 'k netstack \<Rightarrow> backlog \<Rightarrow> 'k netstack \<times> backlog" where
  "reap_wedged ops ord now s b =
     (let stalled = filter (\<lambda>i. case ns_tcp s i of None \<Rightarrow> False | Some st \<Rightarrow> drain_stalled now st) (ord (dom (ns_tcp s)))
      in case reset_all ops stalled (s, b) of (s1, b1) \<Rightarrow>
           if bl_blocked b1 = {} then (s1, b1)
           else reset_all ops (filter (wedged now s1) (ord (bl_blocked b1))) (s1, b1))"

end
