(* ===== verification/Netstack_Run.thy ===== *)
theory Netstack_Run
  imports Netstack_Service
begin

text \<open>
  \<^verbatim>\<open>service_tcp\<close>, \<^verbatim>\<open>service_udp\<close> and one pass of the loop \<^verbatim>\<open>run\<close> of \<^verbatim>\<open>netstack.rs\<close>. A flow is served in
  the stages the code has, each over the socket set and the flow's state.
\<close>

subsection \<open>Serving one TCP flow\<close>

definition try_reserve :: "'a chan \<Rightarrow> send_outcome" where
  "try_reserve c =
     (if ch_rx_closed c then Closed else if length (ch_items c) < ch_cap c then Sent else Full)"

text \<open>A flow is removed with its credit closed, so that a writer that waits on it goes on.\<close>

definition remove_flow :: "'k smol \<Rightarrow> nat \<Rightarrow> tcp_flow \<Rightarrow> 'k netstack \<Rightarrow> 'k netstack" where
  "remove_flow ops i st s =
     (close_credit i s)\<lparr>ns_sockets := sm_remove ops (ns_sockets s) (tf_handle st), ns_tcp := (ns_tcp s)(i := None)\<rparr>"

text \<open>
  The connection is established: the opener gets the handle. When the opener is gone the handle is
  dropped, which closes the channel to the application and sends the closing message.
\<close>

definition establish :: "nat \<Rightarrow> tcp_flow \<Rightarrow> 'k netstack \<Rightarrow> 'k netstack" where
  "establish i st s =
     (let st' = st\<lparr>tf_established := True, tf_resp := False, tf_rx_held := False\<rparr>
      in if tf_resp st \<and> tf_rx_held st
         then if tf_resp_closed st
              then drop_conn (TcpClose i) (upd_tcp i (st'\<lparr>tf_to_app := (tf_to_app st)\<lparr>ch_rx_closed := True\<rparr>\<rparr>) s)
              else send_answer False (Opened i) (upd_tcp i st' s)
         else upd_tcp i (st'\<lparr>tf_to_app := (tf_to_app st)\<lparr>ch_rx_closed := ch_rx_closed (tf_to_app st) \<or> tf_rx_held st\<rparr>\<rparr>) s)"

definition refuse :: "'k smol \<Rightarrow> nat \<Rightarrow> tcp_flow \<Rightarrow> string \<Rightarrow> 'k netstack \<Rightarrow> 'k netstack" where
  "refuse ops i st msg s =
     remove_flow ops i st (if tf_resp st then send_answer (tf_resp_closed st) (Refused msg) s else s)"

text \<open>Handing pending bytes to the socket.\<close>

definition flow_send :: "'k smol \<Rightarrow> nat \<Rightarrow> 'k \<Rightarrow> tcp_flow \<Rightarrow> 'k \<times> tcp_flow" where
  "flow_send ops now k st =
     (if tf_pending st = [] then (k, st\<lparr>tf_last_progress := now\<rparr>)
      else if sm_can_send ops k (tf_handle st)
      then (case sm_send_slice ops k (tf_handle st) (tf_pending st) of (sent, k') \<Rightarrow>
              if 0 < sent
              then (k', st\<lparr>tf_last_progress := now, tf_accepted_total := tf_accepted_total st + sent,
                           tf_pending := drop sent (tf_pending st)\<rparr>)
              else (k', st))
      else (k, st))"

text \<open>
  Liveness: whether the peer acknowledged anything, and whether stalls repeat. The first component
  asks for a reset.
\<close>

definition flow_liveness :: "nat \<Rightarrow> nat \<Rightarrow> nat \<Rightarrow> tcp_flow \<Rightarrow> bool \<times> tcp_flow" where
  "flow_liveness now queued acked st =
     (if queued = 0 \<or> tf_acked_high st < acked
      then (False, st\<lparr>tf_last_drain := now, tf_acked_high := acked, tf_drain_warned := False\<rparr>)
      else if \<not> tf_drain_warned st \<and> TCP_DRAIN_STALL_WARN \<le> now - tf_last_drain st
      then let count = (if STALL_FLAP_WINDOW \<le> now - tf_stall_mark st then 0 else tf_stall_count st);
               count = min (count + 1) (2 ^ 32 - 1)
           in (STALL_FLAP_LIMIT \<le> count,
               st\<lparr>tf_drain_warned := True, tf_stall_mark := now, tf_stall_count := count\<rparr>)
      else (False, st))"

definition flow_admission :: "(rat \<Rightarrow> rat) \<Rightarrow> tuning \<Rightarrow> nat \<Rightarrow> nat \<Rightarrow> nat \<Rightarrow> flow_credit \<Rightarrow> tcp_flow \<Rightarrow> flow_credit \<times> tcp_flow" where
  "flow_admission fl t now queued acked credit st =
     (let rate = sample_rate fl now acked (tf_rate st);
          bud = uplink_budget fl (tn_tcp_tx_buf t) (re_rate rate);
          credit = publish acked bud credit;
          out = min (outstanding credit) usize_max
      in (credit,
          st\<lparr>tf_send_queue_high := queued, tf_rate := rate, tf_uplink_budget := bud,
             tf_outstanding_peak := max (tf_outstanding_peak st) out,
             tf_pending_peak := max (tf_pending_peak st) (length (tf_pending st)),
             tf_send_queue_peak := max (tf_send_queue_peak st) queued\<rparr>))"

definition flap_reset :: "'k smol \<Rightarrow> bool \<Rightarrow> 'k \<Rightarrow> flow_credit \<Rightarrow> tcp_flow \<Rightarrow> 'k \<times> flow_credit \<times> tcp_flow" where
  "flap_reset ops flap k credit st =
     (if flap
      then (sm_abort ops k (tf_handle st), credit_close credit,
            st\<lparr>tf_pending := [], tf_stall_count := 0, tf_drain_warned := False\<rparr>)
      else (k, credit, st))"

definition flow_half_close :: "'k smol \<Rightarrow> 'k \<Rightarrow> tcp_flow \<Rightarrow> 'k" where
  "flow_half_close ops k st =
     (if tf_half_closed st \<and> tf_pending st = [] then sm_close ops k (tf_handle st) else k)"

text \<open>
  Bytes from the socket to the application: a place in the channel is reserved before anything is
  taken off the socket. The outcome says why the loop ended.
\<close>

fun deliver :: "'k smol \<Rightarrow> nat \<Rightarrow> 'k \<Rightarrow> nat \<Rightarrow> bytes chan \<Rightarrow> send_outcome \<times> 'k \<times> bytes chan" where
  "deliver ops 0 k h c = (Sent, k, c)"
| "deliver ops (Suc n) k h c =
     (case try_reserve c of
        Full \<Rightarrow> (Full, k, c)
      | Closed \<Rightarrow> (Closed, k, c)
      | Sent \<Rightarrow>
          if \<not> sm_can_recv ops k h then (Sent, k, c)
          else (case sm_recv ops k h of
                  (Some v, k') \<Rightarrow>
                    if v \<noteq> [] then deliver ops n k' h (snd (try_send c v)) else (Sent, k', c)
                | (None, k') \<Rightarrow> (Sent, k', c)))"

text \<open>The application side is gone; the flag is set when the flow is to be reaped in the next pass.\<close>

definition flow_orphan :: "'k smol \<Rightarrow> tcp_limits \<Rightarrow> nat \<Rightarrow> 'k \<Rightarrow> tcp_flow \<Rightarrow> bool \<times> 'k \<times> tcp_flow" where
  "flow_orphan ops lims now k st =
     (let since = (case tf_orphaned_at st of None \<Rightarrow> now | Some a \<Rightarrow> a);
          st = st\<lparr>tf_orphaned_at := Some since\<rparr>
      in if sm_can_recv ops k (tf_handle st) \<or> tl_orphan_linger lims \<le> now - since
         then (True,
               if sm_state ops k (tf_handle st) \<noteq> SockClosed then sm_abort ops k (tf_handle st) else k,
               st\<lparr>tf_aborted := True\<rparr>)
         else (False, sm_close ops k (tf_handle st), st))"

text \<open>The end of the round: a half-closed peer is answered, a finished flow removed.\<close>

definition flow_finish :: "'k smol \<Rightarrow> nat \<Rightarrow> tcp_flow \<Rightarrow> 'k netstack \<Rightarrow> 'k netstack" where
  "flow_finish ops i st s =
     (let h = tf_handle st;
          stt = sm_state ops (ns_sockets s) h;
          s = (if stt = SockCloseWait then s\<lparr>ns_sockets := sm_close ops (ns_sockets s) h\<rparr> else s);
          st = (if stt = SockTimeWait then st\<lparr>tf_pending := []\<rparr> else st)
      in if (stt = SockClosed \<or> stt = SockTimeWait) \<and> tf_established st
         then remove_flow ops i st s
         else upd_tcp i st s)"

text \<open>The stages of an established flow; the flag is set when the application's queue was full.\<close>

definition serve_established :: "'k smol \<Rightarrow> (rat \<Rightarrow> rat) \<Rightarrow> tuning \<Rightarrow> nat \<Rightarrow> nat \<Rightarrow> tcp_flow \<Rightarrow> 'k netstack \<Rightarrow> bool \<times> 'k netstack" where
  "serve_established ops fl t now i st s =
     (case flow_send ops now (ns_sockets s) st of (k, st) \<Rightarrow>
      let queued = sm_send_queue ops k (tf_handle st);
          acked = tf_accepted_total st - queued
      in case flow_liveness now queued acked st of (flap, st) \<Rightarrow>
      case flow_admission fl t now queued acked (ns_credits s i) st of (credit, st) \<Rightarrow>
      case flap_reset ops flap k credit st of (k, credit, st) \<Rightarrow>
      let k = flow_half_close ops k st;
          s = s\<lparr>ns_credits := (ns_credits s)(i := credit)\<rparr>
      in case deliver ops MAX_RECV_CHUNKS k (tf_handle st) (tf_to_app st) of (r, k, c) \<Rightarrow>
      let st = st\<lparr>tf_to_app := c\<rparr>
      in if r = Closed
         then (case flow_orphan ops (ns_limits s) now k st of (reap, k, st) \<Rightarrow>
                 if reap then (False, upd_tcp i st (s\<lparr>ns_sockets := k\<rparr>))
                 else (False, flow_finish ops i st (s\<lparr>ns_sockets := k\<rparr>)))
         else (r = Full, flow_finish ops i st (s\<lparr>ns_sockets := k\<rparr>)))"

definition sock_connected :: "tcp_sock_state \<Rightarrow> bool" where
  "sock_connected stt \<longleftrightarrow> stt = SockEstablished \<or> stt = SockCloseWait"

definition service_flow :: "'k smol \<Rightarrow> (rat \<Rightarrow> rat) \<Rightarrow> tuning \<Rightarrow> nat \<Rightarrow> nat \<Rightarrow> 'k netstack \<Rightarrow> bool \<times> 'k netstack" where
  "service_flow ops fl t now i s =
     (case ns_tcp s i of
        None \<Rightarrow> (False, s)
      | Some st \<Rightarrow>
          if tf_aborted st then (False, remove_flow ops i st s)
          else let stt = sm_state ops (ns_sockets s) (tf_handle st);
                   s = (if \<not> tf_established st \<and> sock_connected stt then establish i st s else s)
               in case ns_tcp s i of
                    None \<Rightarrow> (False, s)
                  | Some st \<Rightarrow>
                      if \<not> tf_established st \<and> (stt = SockClosed \<or> stt = SockTimeWait)
                      then (False, refuse ops i st ''connection refused'' s)
                      else if \<not> tf_established st
                      then if (\<not> tf_resp st \<or> tf_resp_closed st) \<or> tf_connect_deadline st \<le> now
                           then (False, refuse ops i st ''connection timed out'' s)
                           else (False, s)
                      else serve_established ops fl t now i st s)"

fun service_flows :: "'k smol \<Rightarrow> (rat \<Rightarrow> rat) \<Rightarrow> tuning \<Rightarrow> nat \<Rightarrow> nat list \<Rightarrow> bool \<Rightarrow> 'k netstack \<Rightarrow> bool \<times> 'k netstack" where
  "service_flows ops fl t now [] busy s = (busy, s)"
| "service_flows ops fl t now (i # is) busy s =
     (case service_flow ops fl t now i s of (b, s') \<Rightarrow> service_flows ops fl t now is (busy \<or> b) s')"

definition service_tcp :: "'k smol \<Rightarrow> (rat \<Rightarrow> rat) \<Rightarrow> tuning \<Rightarrow> (nat set \<Rightarrow> nat list) \<Rightarrow> nat \<Rightarrow> 'k netstack \<Rightarrow> bool \<times> 'k netstack" where
  "service_tcp ops fl t ord now s = service_flows ops fl t now (ord (dom (ns_tcp s))) False s"

subsection \<open>Serving UDP\<close>

fun deliver_udp :: "'k smol \<Rightarrow> nat \<Rightarrow> 'k \<Rightarrow> nat \<Rightarrow> (socket_addr \<times> bytes) chan \<Rightarrow> send_outcome \<times> 'k \<times> (socket_addr \<times> bytes) chan" where
  "deliver_udp ops 0 k h c = (Sent, k, c)"
| "deliver_udp ops (Suc n) k h c =
     (case try_reserve c of
        Full \<Rightarrow> (Full, k, c)
      | Closed \<Rightarrow> (Closed, k, c)
      | Sent \<Rightarrow>
          if \<not> sm_udp_can_recv ops k h then (Sent, k, c)
          else (case sm_udp_recv ops k h of
                  (Some d, k') \<Rightarrow> deliver_udp ops n k' h (snd (try_send c d))
                | (None, k') \<Rightarrow> (Sent, k', c)))"

definition service_udp_flow :: "'k smol \<Rightarrow> nat \<Rightarrow> 'k netstack \<Rightarrow> bool \<times> 'k netstack" where
  "service_udp_flow ops i s =
     (case ns_udp s i of
        None \<Rightarrow> (False, s)
      | Some st \<Rightarrow>
          (case deliver_udp ops MAX_RECV_CHUNKS (ns_sockets s) (uf_handle st) (uf_to_app st) of (r, k, c) \<Rightarrow>
             if r = Closed
             then (False, s\<lparr>ns_sockets := sm_remove ops k (uf_handle st), ns_udp := (ns_udp s)(i := None)\<rparr>)
             else (r = Full, s\<lparr>ns_sockets := k, ns_udp := (ns_udp s)(i \<mapsto> st\<lparr>uf_to_app := c\<rparr>)\<rparr>)))"

fun service_udp_flows :: "'k smol \<Rightarrow> nat list \<Rightarrow> bool \<Rightarrow> 'k netstack \<Rightarrow> bool \<times> 'k netstack" where
  "service_udp_flows ops [] busy s = (busy, s)"
| "service_udp_flows ops (i # is) busy s =
     (case service_udp_flow ops i s of (b, s') \<Rightarrow> service_udp_flows ops is (busy \<or> b) s')"

definition service_udp :: "'k smol \<Rightarrow> (nat set \<Rightarrow> nat list) \<Rightarrow> 'k netstack \<Rightarrow> bool \<times> 'k netstack" where
  "service_udp ops ord s = service_udp_flows ops (ord (dom (ns_udp s))) False s"

subsection \<open>One pass of the loop\<close>

definition STARVATION_REPORT_AFTER :: nat where
  "STARVATION_REPORT_AFTER = secs 2"

definition STARVATION_REPORT_GAP :: nat where
  "STARVATION_REPORT_GAP = secs 10"

definition STARVATION_MIN_INBOUND :: usize where
  "STARVATION_MIN_INBOUND = 32"

definition DROP_REPORT_STEP :: usize where
  "DROP_REPORT_STEP = 512"

definition TELEMETRY_INTERVAL :: nat where
  "TELEMETRY_INTERVAL = secs 15"

record 'k run_state =
  rs_stack :: "'k netstack"
  rs_backlog :: backlog
  rs_cmd_rx :: "cmd chan"
  rs_inbound_rx :: "bytes chan"
  rs_outbound_tx :: "bytes chan"
  rs_tx_dropped :: usize
  rs_next_drop_report :: usize
  rs_prefer_app_data :: bool
  rs_last_app_progress :: nat
  rs_last_starvation_report :: nat
  rs_last_telemetry :: nat
  rs_win_in :: usize
  rs_win_app :: usize
  rs_win_dropped :: usize

text \<open>
  \<open>poll\<close> is \<^verbatim>\<open>iface.poll\<close> of smoltcp over device and sockets; the flag says that it did not panic. A
  panic is caught and empties the device's queues.
\<close>

type_synonym 'k poller = "nat \<Rightarrow> stack_device \<Rightarrow> 'k \<Rightarrow> bool \<times> stack_device \<times> 'k"

definition poll_stack :: "'k poller \<Rightarrow> nat \<Rightarrow> 'k netstack \<Rightarrow> 'k netstack" where
  "poll_stack poll now s =
     (case poll now (ns_device s) (ns_sockets s) of (ok, dev, k) \<Rightarrow>
        s\<lparr>ns_device := (if ok then dev else dev\<lparr>dv_rx := [], dv_tx := []\<rparr>), ns_sockets := k\<rparr>)"

text \<open>The two data directions, in the order of this pass.\<close>

definition drain_directions :: "'k smol \<Rightarrow> tuning \<Rightarrow> bool \<Rightarrow> 'k netstack \<Rightarrow> backlog \<Rightarrow> bytes chan \<Rightarrow>
    (nat \<times> nat \<times> bool) \<times> 'k netstack \<times> backlog \<times> bytes chan" where
  "drain_directions ops t prefer s b inbound_rx =
     (if \<not> prefer
      then (case drain_app_data ops t s b MAX_APP_INGEST_PER_TICK of ((n, d1), s, b) \<Rightarrow>
            case drain_inbound s inbound_rx MAX_INGEST_PER_TICK of ((m, d2), s, rx) \<Rightarrow>
              ((n, m, d1 \<or> d2), s, b, rx))
      else (case drain_inbound s inbound_rx MAX_INGEST_PER_TICK of ((m, d2), s, rx) \<Rightarrow>
            case drain_app_data ops t s b MAX_APP_INGEST_PER_TICK of ((n, d1), s, b) \<Rightarrow>
              ((n, m, d2 \<or> d1), s, b, rx)))"

definition clear_peaks :: "tcp_flow \<Rightarrow> tcp_flow" where
  "clear_peaks st = st\<lparr>tf_outstanding_peak := 0, tf_pending_peak := 0, tf_send_queue_peak := 0\<rparr>"

definition report_telemetry :: "nat \<Rightarrow> 'k run_state \<Rightarrow> 'k run_state" where
  "report_telemetry now r =
     (if TELEMETRY_INTERVAL \<le> now - rs_last_telemetry r
      then let s = rs_stack r; dev = ns_device s
           in r\<lparr>rs_stack := s\<lparr>ns_tcp := (\<lambda>i. map_option clear_peaks (ns_tcp s i)),
                              ns_device := dev\<lparr>dv_tx_peak := length (dv_tx dev), dv_tx_stalls := 0\<rparr>\<rparr>,
                rs_last_telemetry := now, rs_win_in := 0, rs_win_app := 0, rs_win_dropped := 0\<rparr>
      else r)"

datatype 'k pass_outcome =
    PassReturns "'k run_state"
  | PassAgain "'k run_state"
  | PassWaits bool "'k run_state"

definition count_drops :: "nat \<Rightarrow> 'k run_state \<Rightarrow> 'k run_state" where
  "count_drops dropped r =
     (if 0 < dropped
      then let n = saturating_add (rs_tx_dropped r) dropped
           in r\<lparr>rs_tx_dropped := n,
                rs_next_drop_report := (if rs_next_drop_report r \<le> n then n + DROP_REPORT_STEP else rs_next_drop_report r)\<rparr>
      else r)"

definition note_progress :: "nat \<Rightarrow> nat \<Rightarrow> nat \<Rightarrow> nat \<Rightarrow> 'k run_state \<Rightarrow> 'k run_state" where
  "note_progress now moved_in moved_app dropped r =
     (let r = (if 0 < moved_app then r\<lparr>rs_last_app_progress := now\<rparr>
               else if STARVATION_MIN_INBOUND \<le> moved_in \<and> \<not> bl_is_empty (rs_backlog r) \<and>
                       STARVATION_REPORT_AFTER \<le> now - rs_last_app_progress r \<and>
                       STARVATION_REPORT_GAP \<le> now - rs_last_starvation_report r
               then r\<lparr>rs_last_starvation_report := now\<rparr> else r)
      in r\<lparr>rs_win_in := saturating_add (rs_win_in r) moved_in,
           rs_win_app := saturating_add (rs_win_app r) moved_app,
           rs_win_dropped := saturating_add (rs_win_dropped r) dropped\<rparr>)"

text \<open>
  A pass from \<^verbatim>\<open>poll\<close> to the decision what to do next: return (a queue is closed), go on at once, or
  wait; the flag of the last says that the wait is the short retry.
\<close>

definition netstack_pass :: "'k poller \<Rightarrow> 'k smol \<Rightarrow> (rat \<Rightarrow> rat) \<Rightarrow> tuning \<Rightarrow> (nat set \<Rightarrow> nat list) \<Rightarrow> nat \<Rightarrow> 'k run_state \<Rightarrow> 'k pass_outcome" where
  "netstack_pass poll ops fl t ord now r =
     (let s = poll_stack poll now (rs_stack r)
      in case service_tcp ops fl t ord now s of (tcp_busy, s) \<Rightarrow>
      case service_udp ops ord s of (udp_busy, s) \<Rightarrow>
      case flush_tx s (rs_outbound_tx r) of ((dropped, tx_busy), s, out) \<Rightarrow>
      let r = count_drops dropped (r\<lparr>rs_outbound_tx := out\<rparr>)
      in case drain_backlog ops t s (rs_backlog r) of (s, b) \<Rightarrow>
      case reap_wedged ops ord now s b of (s, b) \<Rightarrow>
      case drain_directions ops t (rs_prefer_app_data r) s b (rs_inbound_rx r) of ((moved_app, moved_in, ended), s, b, rx) \<Rightarrow>
      case drain_cmds ops t now s (rs_cmd_rx r) MAX_CMD_PER_TICK of ((moved_cmd, cmd_ended), s, crx) \<Rightarrow>
      let r = r\<lparr>rs_stack := s, rs_backlog := b, rs_inbound_rx := rx, rs_cmd_rx := crx,
                rs_prefer_app_data := \<not> rs_prefer_app_data r\<rparr>
      in if ended \<or> cmd_ended then PassReturns r
         else let r = report_telemetry now (note_progress now moved_in moved_app dropped r);
                  busy = (tcp_busy \<or> udp_busy \<or> tx_busy \<or> \<not> bl_is_empty (rs_backlog r))
              in if 0 < moved_in \<or> 0 < moved_app \<or> 0 < moved_cmd then PassAgain r else PassWaits busy r)"

text \<open>
  The branch of the final select that wakes the task; None when that branch cannot fire. The branch
  for application data is guarded by the memory bound of the backlog.
\<close>

datatype wake = WokeInbound | WokeCmd | WokeData | WokeTimer

definition netstack_wake :: "'k smol \<Rightarrow> tuning \<Rightarrow> nat \<Rightarrow> 'k run_state \<Rightarrow> wake \<Rightarrow> 'k pass_outcome option" where
  "netstack_wake ops t now r w =
     (case w of
        WokeInbound \<Rightarrow>
          (case try_recv (rs_inbound_rx r) of
             (Received pkt, rx) \<Rightarrow>
               Some (PassAgain (r\<lparr>rs_stack := device_push (rs_stack r) pkt, rs_inbound_rx := rx\<rparr>))
           | (Disconnected, rx) \<Rightarrow> Some (PassReturns r)
           | (Empty, rx) \<Rightarrow> None)
      | WokeCmd \<Rightarrow>
          (case try_recv (rs_cmd_rx r) of
             (Received c, rx) \<Rightarrow>
               Some (PassAgain (r\<lparr>rs_stack := handle_cmd ops t now (rs_stack r) c, rs_cmd_rx := rx\<rparr>))
           | (Disconnected, rx) \<Rightarrow> Some (PassReturns r)
           | (Empty, rx) \<Rightarrow> None)
      | WokeData \<Rightarrow>
          if bl_bytes (rs_backlog r) < MAX_BACKLOG_BYTES
          then (case try_recv (ns_data_in (rs_stack r)) of
                  (Received d, rx) \<Rightarrow>
                    (case ingest ops t ((rs_stack r)\<lparr>ns_data_in := rx\<rparr>) (rs_backlog r) d of (s, b) \<Rightarrow>
                       Some (PassAgain (r\<lparr>rs_stack := s, rs_backlog := b, rs_last_app_progress := now\<rparr>)))
                | (Disconnected, rx) \<Rightarrow> Some (PassReturns r)
                | (Empty, rx) \<Rightarrow> None)
          else None
      | WokeTimer \<Rightarrow> Some (PassAgain r))"

end
