(* ===== verification/Netstack_Props.thy ===== *)
theory Netstack_Props
  imports Netstack_Run
begin

text \<open>
  Properties of the stack's passes: every queue is served in every pass, packets leave in order, ports
  stay in their range, dead flows are reset and nothing else is touched, and the invariant of the
  whole loop.
\<close>

subsection \<open>The bounded drains\<close>

lemma drain_with_spec:
  assumes "drain_with go put cap moved s rx = ((m, c), s', rx')" and "moved \<le> cap"
  shows "\<exists>k. m = moved + k \<and> k \<le> length (ch_items rx) \<and> m \<le> cap \<and>
    s' = foldl put s (take k (ch_items rx)) \<and> rx' = rx\<lparr>ch_items := drop k (ch_items rx)\<rparr> \<and>
    (m = cap \<or> \<not> go s' \<or> k = length (ch_items rx)) \<and>
    (c \<longrightarrow> k = length (ch_items rx) \<and> ch_tx_closed rx)"
  using assms
proof (induction "cap - moved" arbitrary: moved s rx)
  case 0
  then have "moved = cap" by simp
  with 0 show ?case by (intro exI [of _ 0]) (auto simp: drain_with.simps [of go put cap cap])
next
  case (Suc n)
  show ?case
  proof (cases "go s")
    case False
    with Suc.prems show ?thesis
      by (intro exI [of _ 0]) (simp add: drain_with.simps [of go put cap moved])
  next
    case go: True
    have lt: "moved < cap" using Suc.hyps(2) by simp
    show ?thesis
    proof (cases "ch_items rx")
      case Nil
      with Suc.prems lt go show ?thesis
        by (intro exI [of _ 0]) (auto simp: drain_with.simps [of go put cap moved] try_recv_def split: if_splits)
    next
      case (Cons x xs)
      with Suc.prems lt go
      have "drain_with go put cap (Suc moved) (put s x) (rx\<lparr>ch_items := xs\<rparr>) = ((m, c), s', rx')"
        by (simp add: drain_with.simps [of go put cap moved] try_recv_def)
      moreover have "n = cap - Suc moved" using Suc.hyps(2) by simp
      ultimately obtain k where "m = Suc moved + k" "k \<le> length xs" "m \<le> cap"
        "s' = foldl put (put s x) (take k xs)" "rx' = rx\<lparr>ch_items := drop k xs\<rparr>"
        "m = cap \<or> \<not> go s' \<or> k = length xs" "c \<longrightarrow> k = length xs \<and> ch_tx_closed rx"
        using Suc.hyps(1) [of "Suc moved" "put s x" "rx\<lparr>ch_items := xs\<rparr>"] lt by auto
      then show ?thesis using Cons by (intro exI [of _ "Suc k"]) simp
    qed
  qed
qed

lemma ingest_data_in [simp]: "ns_data_in (fst (ingest ops t s b d)) = ns_data_in s"
  by (cases d) (auto simp: ingest_def ingest_with_def try_handle_data_def Let_def
      split: option.splits prod.splits if_splits)

lemma ingest_all_data_in:
  "ns_data_in (fst (foldl (\<lambda>(s, b) d. ingest ops t s b d) sb ds)) = ns_data_in (fst sb)"
proof (induction ds arbitrary: sb)
  case (Cons d ds)
  then show ?case using ingest_data_in [of ops t "fst sb" "snd sb" d] by (simp add: case_prod_beta)
qed simp

lemma device_push_all: "ns_data_in (foldl device_push s ps) = ns_data_in s"
  by (induction ps arbitrary: s) (simp_all add: device_push_def)

lemma drain_inbound_spec:
  "drain_inbound s rx cap = ((m, c), s', rx') \<Longrightarrow>
     m = min cap (length (ch_items rx)) \<and> rx' = rx\<lparr>ch_items := drop m (ch_items rx)\<rparr> \<and>
     s' = foldl device_push s (take m (ch_items rx))"
  unfolding drain_inbound_def by (drule drain_with_spec) auto

lemma drain_cmds_spec:
  "drain_cmds ops t now s rx cap = ((m, c), s', rx') \<Longrightarrow>
     m = min cap (length (ch_items rx)) \<and> rx' = rx\<lparr>ch_items := drop m (ch_items rx)\<rparr> \<and>
     s' = foldl (handle_cmd ops t now) s (take m (ch_items rx))"
  unfolding drain_cmds_def by (drule drain_with_spec) auto

lemma drain_app_data_spec:
  assumes "drain_app_data ops t s b cap = ((n, c), s', b')"
  shows "n \<le> length (ch_items (ns_data_in s)) \<and> n \<le> cap \<and>
    ns_data_in s' = (ns_data_in s)\<lparr>ch_items := drop n (ch_items (ns_data_in s))\<rparr> \<and>
    (n = cap \<or> n = length (ch_items (ns_data_in s)) \<or> MAX_BACKLOG_BYTES \<le> bl_bytes b')"
proof -
  obtain s1 b1 rx' where d: "drain_with (\<lambda>(s, b). bl_bytes b < MAX_BACKLOG_BYTES)
      (\<lambda>(s, b) d. ingest ops t s b d) cap 0 (s, b) (ns_data_in s) = ((n, c), (s1, b1), rx')"
    and s': "s' = s1\<lparr>ns_data_in := rx'\<rparr>" "b' = b1"
    using assms by (auto simp: drain_app_data_def split: prod.splits)
  from drain_with_spec [OF d] show ?thesis using s' by auto
qed

text \<open>
  C33. No direction starves another: whichever of the two goes first, a pass takes as many packets
  from the tunnel as its budget allows or as there are, and as many application messages, unless the
  backlog has reached its memory bound; what it takes is the front of each queue. Commands are
  served with a budget of their own.
\<close>

theorem pass_serves_every_queue:
  assumes "drain_directions ops t app_last s b rx = ((moved_app, moved_in, ended), s', b', rx')"
    and "drain_cmds ops t now s' crx MAX_CMD_PER_TICK = ((moved_cmd, cmd_ended), s'', crx')"
  shows "moved_in = min MAX_INGEST_PER_TICK (length (ch_items rx)) \<and>
    ch_items rx' = drop moved_in (ch_items rx) \<and>
    (moved_app = min MAX_APP_INGEST_PER_TICK (length (ch_items (ns_data_in s))) \<or>
     MAX_BACKLOG_BYTES \<le> bl_bytes b') \<and>
    ch_items (ns_data_in s') = drop moved_app (ch_items (ns_data_in s)) \<and>
    moved_cmd = min MAX_CMD_PER_TICK (length (ch_items crx)) \<and>
    ch_items crx' = drop moved_cmd (ch_items crx)"
proof (cases app_last)
  case False
  obtain d1 s1 b1 d2 where a: "drain_app_data ops t s b MAX_APP_INGEST_PER_TICK = ((moved_app, d1), s1, b')"
    and i: "drain_inbound s1 rx MAX_INGEST_PER_TICK = ((moved_in, d2), s', rx')"
    using assms(1) False by (auto simp: drain_directions_def split: prod.splits)
  have "ns_data_in s' = ns_data_in s1" using drain_inbound_spec [OF i] device_push_all by simp
  then show ?thesis using drain_app_data_spec [OF a] drain_inbound_spec [OF i] drain_cmds_spec [OF assms(2)]
    by (auto simp: min_def)
next
  case True
  obtain d1 s1 d2 where i: "drain_inbound s rx MAX_INGEST_PER_TICK = ((moved_in, d2), s1, rx')"
    and a: "drain_app_data ops t s1 b MAX_APP_INGEST_PER_TICK = ((moved_app, d1), s', b')"
    using assms(1) True by (auto simp: drain_directions_def split: prod.splits)
  have "ns_data_in s1 = ns_data_in s" using drain_inbound_spec [OF i] device_push_all by simp
  then show ?thesis using drain_app_data_spec [OF a] drain_inbound_spec [OF i] drain_cmds_spec [OF assms(2)]
    by (auto simp: min_def)
qed

theorem pass_serves_every_queue_witness:
  "\<exists>n m e s b rx. drain_directions idle_smol sample_tuning True sample_stack backlog_new
       ((chan_new 4)\<lparr>ch_items := [[1]]\<rparr>) = ((n, m, e), s, b, rx) \<and> m = 1 \<and> ch_items rx = []"
proof -
  let ?rx = "(chan_new 4)\<lparr>ch_items := [[1 :: u8]]\<rparr>"
  obtain n m e s b rx where d: "drain_directions idle_smol sample_tuning True sample_stack backlog_new ?rx =
      ((n, m, e), s, b, rx)" by (metis prod_cases4 surj_pair)
  obtain q c s2 crx where c: "drain_cmds idle_smol sample_tuning 0 s (chan_new 4) MAX_CMD_PER_TICK = ((q, c), s2, crx)"
    by (metis prod_cases3 surj_pair)
  from pass_serves_every_queue [OF d c] d show ?thesis
    by (auto simp: MAX_INGEST_PER_TICK_def)
qed

subsection \<open>Packets to the tunnel\<close>

lemma flush_loop_spec:
  assumes "flush_loop tx out = (tx', retained, out')" and "\<not> ch_rx_closed out"
  shows "\<exists>n. ch_items out' = ch_items out @ take n tx \<and> tx' = drop n tx \<and> \<not> ch_rx_closed out' \<and>
    (retained \<longrightarrow> tx' \<noteq> [] \<and> ch_cap out \<le> length (ch_items out')) \<and> (\<not> retained \<longrightarrow> tx' = [])"
  using assms
proof (induction tx arbitrary: out)
  case Nil
  then show ?case by auto
next
  case (Cons pkt tx)
  show ?case
  proof (cases "length (ch_items out) < ch_cap out")
    case True
    let ?o = "out\<lparr>ch_items := ch_items out @ [pkt]\<rparr>"
    have "flush_loop tx ?o = (tx', retained, out')" using Cons.prems True by (simp add: try_send_def)
    from Cons.IH [OF this] Cons.prems(2) obtain n where
      "ch_items out' = ch_items ?o @ take n tx \<and> tx' = drop n tx \<and> \<not> ch_rx_closed out' \<and>
       (retained \<longrightarrow> tx' \<noteq> [] \<and> ch_cap ?o \<le> length (ch_items out')) \<and> (\<not> retained \<longrightarrow> tx' = [])"
      by fastforce
    then show ?thesis by (intro exI [of _ "Suc n"]) auto
  next
    case False
    with Cons.prems show ?thesis by (intro exI [of _ 0]) (auto simp: try_send_def)
  qed
qed

text \<open>
  Flushing to the tunnel keeps the packets in order and loses none silently: what was queued is
  what went out, then what was dropped, then what stays; packets are dropped only from behind a full
  channel, exactly the count that is reported and added to the shed counter, and what stays is never
  more than the hard ceiling.
\<close>

lemma flush_tx_in_order:
  assumes "flush_tx s out = ((dropped, retained), s', out')" and "\<not> ch_rx_closed out"
    and "dv_tx_shed (ns_device s) + length (dv_tx (ns_device s)) \<le> usize_max"
  shows "\<exists>n. ch_items out' = ch_items out @ take n (dv_tx (ns_device s)) \<and>
    dv_tx (ns_device s') = drop (n + dropped) (dv_tx (ns_device s)) \<and>
    n + dropped \<le> length (dv_tx (ns_device s)) \<and>
    length (dv_tx (ns_device s')) \<le> MAX_DEVICE_TX_HARD \<and>
    dv_tx_shed (ns_device s') = dv_tx_shed (ns_device s) + dropped \<and>
    (0 < dropped \<longrightarrow> retained \<and> length (dv_tx (ns_device s')) = MAX_DEVICE_TX_HARD) \<and>
    (\<not> retained \<longrightarrow> dv_tx (ns_device s') = []) \<and>
    length (dv_tx (ns_device s)) \<le> dv_tx_peak (ns_device s')"
proof -
  let ?tx = "dv_tx (ns_device s)"
  obtain tx' ret o1 where l: "flush_loop ?tx out = (tx', ret, o1)" by (metis prod_cases3)
  obtain n where n: "ch_items o1 = ch_items out @ take n ?tx" "tx' = drop n ?tx"
    and r: "\<not> ret \<longrightarrow> tx' = []"
    using flush_loop_spec [OF l assms(2)] by blast
  show ?thesis
  proof (cases "ret \<and> MAX_DEVICE_TX_HARD < length tx'")
    case True
    let ?e = "length tx' - MAX_DEVICE_TX_HARD"
    have e: "dropped = ?e" "retained" "out' = o1" "dv_tx (ns_device s') = drop ?e tx'"
      "dv_tx_shed (ns_device s') = saturating_add (dv_tx_shed (ns_device s)) ?e"
      "length ?tx \<le> dv_tx_peak (ns_device s')"
      using assms(1) True l by (auto simp: flush_tx_def Let_def split: if_splits)
    have "?e \<le> length ?tx" using n(2) by simp
    then have "dv_tx_shed (ns_device s') = dv_tx_shed (ns_device s) + dropped"
      using e assms(3) by (simp add: saturating_add_def)
    then show ?thesis using e n True by (intro exI [of _ n]) (auto simp: add.commute)
  next
    case False
    then have e: "dropped = 0" "retained = ret" "out' = o1" "dv_tx (ns_device s') = tx'"
      "dv_tx_shed (ns_device s') = dv_tx_shed (ns_device s)" "length ?tx \<le> dv_tx_peak (ns_device s')"
      using assms(1) l by (auto simp: flush_tx_def Let_def split: if_splits)
    show ?thesis
    proof (cases "n \<le> length ?tx")
      case True
      then show ?thesis using e n r False by (intro exI [of _ n]) auto
    next
      case longer: False
      then show ?thesis using e n r False by (intro exI [of _ "length ?tx"]) auto
    qed
  qed
qed

lemma flush_tx_in_order_witness:
  "\<exists>d r s' out'. flush_tx (sample_stack\<lparr>ns_device := (stack_device_new 1280)\<lparr>dv_tx := [[1], [2]]\<rparr>\<rparr>) (chan_new 1) =
      ((d, r), s', out') \<and> length (dv_tx (ns_device s')) \<le> MAX_DEVICE_TX_HARD"
proof -
  let ?s = "sample_stack\<lparr>ns_device := (stack_device_new 1280)\<lparr>dv_tx := [[1], [2]]\<rparr>\<rparr>"
  obtain d r s' out' where f: "flush_tx ?s (chan_new 1) = ((d, r), s', out')" by (metis prod_cases3 surj_pair)
  from flush_tx_in_order [OF f] f show ?thesis
    by (auto simp: chan_new_def stack_device_new_def usize_max_def)
qed

subsection \<open>Local ports\<close>

fun alloc_ports :: "nat \<Rightarrow> u16 \<Rightarrow> u16 list" where
  "alloc_ports 0 p = []"
| "alloc_ports (Suc n) p = (case alloc_port p of (port, p') \<Rightarrow> port # alloc_ports n p')"

lemma unat_alloc_port:
  assumes "49152 \<le> unat p" and "unat p \<le> 65000"
  shows "unat (snd (alloc_port p)) = 49152 + (unat p - 49152 + 1) mod 15849"
proof (cases "unat p = 65000")
  case True
  then have "65000 \<le> p" by (simp add: word_le_nat_alt)
  then show ?thesis using True by (simp add: alloc_port_def)
next
  case False
  then have lt: "unat p < 65000" using assms by simp
  then have "\<not> 65000 \<le> p" by (simp add: word_le_nat_alt)
  moreover have "unat (p + 1) = unat p + 1" using lt by (simp add: unat_add_lem [THEN iffD1])
  ultimately show ?thesis using lt assms by (simp add: alloc_port_def)
qed

lemma alloc_ports_nth:
  assumes "49152 \<le> unat p" and "unat p \<le> 65000" and "k < n"
  shows "unat (alloc_ports n p ! k) = 49152 + (unat p - 49152 + k) mod 15849"
  using assms
proof (induction n arbitrary: p k)
  case (Suc n)
  show ?case
  proof (cases k)
    case 0
    then show ?thesis using Suc.prems by (simp add: alloc_port_def)
  next
    case (Suc j)
    let ?q = "snd (alloc_port p)"
    have q: "unat ?q = 49152 + (unat p - 49152 + 1) mod 15849"
      by (rule unat_alloc_port) (use Suc.prems in auto)
    then have "49152 \<le> unat ?q" "unat ?q \<le> 65000" using mod_less_divisor [of 15849 "unat p - 49152 + 1"] by simp_all
    then have "unat (alloc_ports n ?q ! j) = 49152 + (unat ?q - 49152 + j) mod 15849"
      using Suc.IH [of ?q j] Suc.prems Suc by simp
    also have "(unat ?q - 49152 + j) mod 15849 = (unat p - 49152 + k) mod 15849"
      using q Suc by (simp add: mod_add_left_eq)
    finally show ?thesis using Suc by (simp add: case_prod_beta)
  qed
qed simp

lemma length_alloc_ports [simp]: "length (alloc_ports n p) = n"
  by (induction n arbitrary: p) (simp_all split: prod.split)

text \<open>
  Local ports stay in the range from 49152 to 65000, and the counter comes round only after
  every port of it: any 15849 flows opened in a row get different ports.
\<close>

lemma alloc_ports_distinct:
  assumes "49152 \<le> p" and "p \<le> 65000" and "n \<le> 15849"
  shows "distinct (alloc_ports n p) \<and> (\<forall>q \<in> set (alloc_ports n p). 49152 \<le> q \<and> q \<le> 65000) \<and>
    49152 \<le> snd (alloc_port p) \<and> snd (alloc_port p) \<le> 65000"
proof -
  have p: "49152 \<le> unat p" "unat p \<le> 65000" using assms by (simp_all add: word_le_nat_alt)
  have "alloc_ports n p ! i \<noteq> alloc_ports n p ! j" if "i < n" "j < n" "i < j" for i j
  proof
    assume "alloc_ports n p ! i = alloc_ports n p ! j"
    then have "(unat p - 49152 + i) mod 15849 = (unat p - 49152 + j) mod 15849"
      using alloc_ports_nth [OF p, of i n] alloc_ports_nth [OF p, of j n] that by simp
    then have "i mod 15849 = j mod 15849" by (simp add: mod_add_cong nat_mod_eq_iff)
    then show False using that assms(3) by simp
  qed
  then have "distinct (alloc_ports n p)" by (auto simp: distinct_conv_nth) (metis nat_neq_iff)
  moreover have "49152 \<le> q \<and> q \<le> 65000" if "q \<in> set (alloc_ports n p)" for q
  proof -
    obtain k where "k < n" "q = alloc_ports n p ! k" using \<open>q \<in> set (alloc_ports n p)\<close> by (auto simp: in_set_conv_nth)
    then have "unat q = 49152 + (unat p - 49152 + k) mod 15849" using alloc_ports_nth [OF p] by simp
    moreover have "(unat p - 49152 + k) mod 15849 < 15849" by simp
    ultimately show ?thesis by (simp add: word_le_nat_alt)
  qed
  moreover have "49152 \<le> snd (alloc_port p) \<and> snd (alloc_port p) \<le> 65000"
    using unat_alloc_port [OF p] mod_less_divisor [of 15849 "unat p - 49152 + 1"]
    by (simp add: word_le_nat_alt)
  ultimately show ?thesis by blast
qed

lemma alloc_ports_distinct_witness: "distinct (alloc_ports 15849 49152)"
  using alloc_ports_distinct [of 49152 15849] by simp

subsection \<open>Resetting dead flows\<close>

text \<open>The order in which a hash map is walked is some enumeration of it.\<close>

definition enumerates :: "(nat set \<Rightarrow> nat list) \<Rightarrow> bool" where
  "enumerates ord \<longleftrightarrow> (\<forall>A. finite A \<longrightarrow> set (ord A) = A)"

lemma purge_sel:
  "bl_queue (bl_purge b i) = filter (\<lambda>d. data_in_id d \<noteq> i) (bl_queue b)"
  "bl_blocked (bl_purge b i) = bl_blocked b - {i}"
  by (simp_all add: bl_purge_def Let_def)

lemma reset_flow_sel:
  "ns_tcp (reset_flow ops j s) i =
     (if i = j then map_option (\<lambda>st. st\<lparr>tf_pending := []\<rparr>) (ns_tcp s i) else ns_tcp s i)"
  "ns_credits (reset_flow ops j s) i =
     (if i = j \<and> ns_tcp s i \<noteq> None then credit_close (ns_credits s i) else ns_credits s i)"
  by (auto simp: reset_flow_def close_credit_def split: option.splits)

lemma credit_close_idem [simp]: "credit_close (credit_close c) = credit_close c"
  by (simp add: credit_close_def)

lemma reset_all_spec:
  assumes "reset_all ops ids (s, b) = (s', b')" and "backlog_ok b"
  shows "ns_tcp s' i = (if i \<in> set ids then map_option (\<lambda>st. st\<lparr>tf_pending := []\<rparr>) (ns_tcp s i) else ns_tcp s i) \<and>
    ns_credits s' i = (if i \<in> set ids \<and> ns_tcp s i \<noteq> None then credit_close (ns_credits s i) else ns_credits s i) \<and>
    bl_queue b' = filter (\<lambda>d. data_in_id d \<notin> set ids) (bl_queue b) \<and>
    bl_blocked b' = bl_blocked b - set ids \<and> backlog_ok b'"
  using assms
proof (induction ids arbitrary: s b)
  case Nil
  then show ?case by (simp add: reset_all_def)
next
  case (Cons j ids)
  have "reset_all ops ids (reset_flow ops j s, bl_purge b j) = (s', b')"
    using Cons.prems(1) by (simp add: reset_all_def)
  note ih = Cons.IH [OF this backlog_ok_purge [OF Cons.prems(2)]]
  have "ns_tcp s' i = (if i \<in> set (j # ids) then map_option (\<lambda>st. st\<lparr>tf_pending := []\<rparr>) (ns_tcp s i) else ns_tcp s i)"
    using ih by (cases "i = j"; cases "ns_tcp s i") (simp_all add: reset_flow_sel)
  moreover have "ns_credits s' i = (if i \<in> set (j # ids) \<and> ns_tcp s i \<noteq> None then credit_close (ns_credits s i) else ns_credits s i)"
    using ih by (cases "i = j"; cases "ns_tcp s i") (simp_all add: reset_flow_sel)
  moreover have "bl_queue b' = filter (\<lambda>d. data_in_id d \<notin> set (j # ids)) (bl_queue b)"
    using ih by (simp add: purge_sel conj_commute)
  moreover have "bl_blocked b' = bl_blocked b - set (j # ids)" using ih by (auto simp: purge_sel)
  ultimately show ?case using ih by blast
qed

text \<open>
  A dead flow is reset and only a dead flow: a flow whose queued bytes have had no
  acknowledgement for 8 s, or that is blocked and has taken nothing for 30 s, loses its pending bytes
  and its backlog and its writer is released; every other flow keeps its bytes, its credit and its
  backlog, and no flow that stays blocked is wedged.
\<close>

lemma reap_resets_dead_flows:
  assumes "reap_wedged ops ord now s b = (s', b')" and "backlog_ok b" and "enumerates ord"
    and "finite (dom (ns_tcp s))" and "ns_tcp s i = Some st"
  shows "(drain_stalled now st \<or> bl_holds b i \<and> TCP_WEDGE_TIMEOUT \<le> now - tf_last_progress st \<longrightarrow>
      ns_tcp s' i = Some (st\<lparr>tf_pending := []\<rparr>) \<and> fc_closed (ns_credits s' i) \<and>
      waiting i (bl_queue b') = [] \<and> \<not> bl_holds b' i) \<and>
    (\<not> drain_stalled now st \<and> \<not> (bl_holds b i \<and> TCP_WEDGE_TIMEOUT \<le> now - tf_last_progress st) \<longrightarrow>
      ns_tcp s' i = Some st \<and> ns_credits s' i = ns_credits s i \<and>
      waiting i (bl_queue b') = waiting i (bl_queue b)) \<and>
    (\<forall>j. bl_holds b' j \<longrightarrow> \<not> wedged now s' j) \<and> backlog_ok b'"
proof -
  define stalled where "stalled = filter (\<lambda>i. case ns_tcp s i of None \<Rightarrow> False | Some st \<Rightarrow> drain_stalled now st) (ord (dom (ns_tcp s)))"
  obtain s1 b1 where r1: "reset_all ops stalled (s, b) = (s1, b1)" by (cases "reset_all ops stalled (s, b)")
  note f1 = reset_all_spec [OF r1 assms(2)]
  define wl where "wl = (if bl_blocked b1 = {} then [] else filter (wedged now s1) (ord (bl_blocked b1)))"
  have r2: "reset_all ops wl (s1, b1) = (s', b')"
    using assms(1) r1 by (simp add: reap_wedged_def Let_def stalled_def wl_def reset_all_def split: if_splits)
  have ok1: "backlog_ok b1" using f1 by blast
  note f2 = reset_all_spec [OF r2 ok1]
  have st: "j \<in> set stalled \<longleftrightarrow> (\<exists>u. ns_tcp s j = Some u \<and> drain_stalled now u)" for j
    using assms(3,4) by (auto simp: stalled_def enumerates_def split: option.splits)
  have fin: "finite (bl_blocked b1)" using ok1 by (simp add: backlog_ok_def)
  have wl: "j \<in> set wl \<longleftrightarrow> j \<in> bl_blocked b1 \<and> wedged now s1 j" for j
    using assms(3) fin by (auto simp: wl_def enumerates_def)
  have w1: "wedged now s1 i \<longleftrightarrow> TCP_WEDGE_TIMEOUT \<le> now - tf_last_progress st"
    using f1 assms(5) by (simp add: wedged_def)
  have w2: "wedged now s' j \<longleftrightarrow> wedged now s1 j" for j
    using reset_all_spec [OF r2 ok1, of j] by (auto simp: wedged_def split: option.splits if_splits)
  have keep: "i \<notin> set ids \<Longrightarrow> waiting i (filter (\<lambda>d. data_in_id d \<notin> set ids) q) = waiting i q" for ids q
    by (induction q) (auto intro!: payload_of_other)
  have gone: "i \<in> set ids \<Longrightarrow> waiting i (filter (\<lambda>d. data_in_id d \<notin> set ids) q) = []" for ids q
    by (rule waiting_none) auto
  have q: "bl_queue b' = filter (\<lambda>d. data_in_id d \<notin> set wl) (filter (\<lambda>d. data_in_id d \<notin> set stalled) (bl_queue b))"
    "bl_blocked b' = bl_blocked b - set stalled - set wl" "bl_blocked b1 = bl_blocked b - set stalled" "backlog_ok b'"
    using f1 [of i] f2 [of i] by simp_all
  have qs: "bl_queue b' = filter (\<lambda>d. data_in_id d \<notin> set (stalled @ wl)) (bl_queue b)" using q(1) by simp
  have out: "waiting i (bl_queue b') = []" if "i \<in> set (stalled @ wl)" unfolding qs by (rule gone [OF that])
  have same: "waiting i (bl_queue b') = waiting i (bl_queue b)" if "i \<notin> set (stalled @ wl)"
    unfolding qs by (rule keep [OF that])
  have last: "\<forall>j. bl_holds b' j \<longrightarrow> \<not> wedged now s' j" using q wl w2 by (auto simp: bl_holds_def)
  consider (stalled) "drain_stalled now st" | (wedge) "\<not> drain_stalled now st" "bl_holds b i" "TCP_WEDGE_TIMEOUT \<le> now - tf_last_progress st"
    | (alive) "\<not> drain_stalled now st" "\<not> (bl_holds b i \<and> TCP_WEDGE_TIMEOUT \<le> now - tf_last_progress st)" by blast
  then show ?thesis
  proof cases
    case stalled
    then have i: "i \<in> set stalled" "i \<notin> set wl" using st [of i] assms(5) wl [of i] q by auto
    then show ?thesis using stalled f1 [of i] f2 [of i] assms(5) last q(2-) out
      by (simp add: bl_holds_def credit_close_def)
  next
    case wedge
    then have i: "i \<notin> set stalled" "i \<in> set wl" using st [of i] assms(5) wl [of i] q w1 by (auto simp: bl_holds_def)
    then show ?thesis using wedge f1 [of i] f2 [of i] assms(5) last q(2-) out
      by (simp add: bl_holds_def credit_close_def)
  next
    case alive
    then have i: "i \<notin> set stalled" "i \<notin> set wl" using st [of i] assms(5) wl [of i] q w1 by (auto simp: bl_holds_def)
    then show ?thesis using alive f1 [of i] f2 [of i] assms(5) last q(2-) same by (simp add: bl_holds_def)
  qed
qed

lemma reap_resets_dead_flows_witness:
  "\<exists>s' b'. reap_wedged idle_smol sorted_list_of_set (secs 60)
      (sample_stack\<lparr>ns_tcp := [1 \<mapsto> sample_flow\<lparr>tf_send_queue_high := 5\<rparr>]\<rparr>) sample_backlog = (s', b') \<and>
      fc_closed (ns_credits s' 1) \<and> \<not> bl_holds b' 1"
proof -
  let ?s = "sample_stack\<lparr>ns_tcp := [1 \<mapsto> sample_flow\<lparr>tf_send_queue_high := 5\<rparr>]\<rparr>"
  obtain s' b' where r: "reap_wedged idle_smol sorted_list_of_set (secs 60) ?s sample_backlog = (s', b')"
    by (cases "reap_wedged idle_smol sorted_list_of_set (secs 60) ?s sample_backlog")
  have "enumerates sorted_list_of_set" by (simp add: enumerates_def)
  from reap_resets_dead_flows [OF r sample_backlog_ok this, of 1 "sample_flow\<lparr>tf_send_queue_high := 5\<rparr>"] r
  show ?thesis
    by (auto simp: drain_stalled_def sample_flow_def TCP_DRAIN_STALL_TIMEOUT_def secs_def)
qed

end
