(* ===== verification/Netstack_Invariant.thy ===== *)
theory Netstack_Invariant
  imports Netstack_Props
begin

text \<open>
  The invariant of the stack over every interleaving of its passes with the applications and the
  tunnel, by rule induction over the reachable states. Nothing is assumed of smoltcp.
\<close>

subsection \<open>The invariant\<close>

definition flow_ok :: "tuning \<Rightarrow> tcp_flow \<Rightarrow> bool" where
  "flow_ok t st \<longleftrightarrow>
     length (tf_pending st) \<le> max_tcp_pending t \<and>
     tf_resp st = (\<not> tf_established st) \<and> tf_rx_held st = (\<not> tf_established st)"

definition opened_ids :: "open_answer list \<Rightarrow> nat list" where
  "opened_ids as = List.map_filter (\<lambda>a. case a of Opened i \<Rightarrow> Some i | Refused m \<Rightarrow> None) as"

lemma opened_ids_simps [simp]:
  "opened_ids [] = []"
  "opened_ids (as @ [Opened i]) = opened_ids as @ [i]"
  "opened_ids (as @ [Refused m]) = opened_ids as"
  by (simp_all add: opened_ids_def List.map_filter_def)

definition ns_inv :: "tuning \<Rightarrow> 'k netstack \<Rightarrow> bool" where
  "ns_inv t s \<longleftrightarrow>
     finite (dom (ns_tcp s)) \<and> finite (dom (ns_udp s)) \<and>
     (\<forall>i st. ns_tcp s i = Some st \<longrightarrow> flow_ok t st \<and> i < ns_next_id s) \<and>
     (\<forall>i u. ns_udp s i = Some u \<longrightarrow> i < ns_next_id s) \<and>
     (\<forall>i. ns_tcp s i = None \<longrightarrow> ns_credits s i = flow_credit_new \<or> fc_closed (ns_credits s i)) \<and>
     49152 \<le> ns_next_port s \<and> ns_next_port s \<le> 65000 \<and>
     distinct (opened_ids (ns_answers s)) \<and>
     (\<forall>i \<in> set (opened_ids (ns_answers s)). i < ns_next_id s \<and>
        (\<forall>st. ns_tcp s i = Some st \<longrightarrow> tf_established st))"

lemma ns_inv_frame [simp]:
  "ns_inv t (s\<lparr>ns_sockets := k\<rparr>) = ns_inv t s"
  "ns_inv t (s\<lparr>ns_device := d\<rparr>) = ns_inv t s"
  "ns_inv t (s\<lparr>ns_data_in := c\<rparr>) = ns_inv t s"
  by (simp_all add: ns_inv_def)

lemma ns_inv_upd:
  assumes "ns_inv t s" and "ns_tcp s i = Some st0" and "flow_ok t st"
    and "tf_established st0 \<longrightarrow> tf_established st"
  shows "ns_inv t (upd_tcp i st s)"
  using assms by (fastforce simp: ns_inv_def)

lemma ns_inv_credit:
  assumes "ns_inv t s" and "ns_tcp s i \<noteq> None \<or> c = flow_credit_new \<or> fc_closed c"
  shows "ns_inv t (s\<lparr>ns_credits := (ns_credits s)(i := c)\<rparr>)"
  using assms by (auto simp: ns_inv_def)

lemma ns_inv_close_credit: "ns_inv t s \<Longrightarrow> ns_inv t (close_credit i s)"
  unfolding close_credit_def by (rule ns_inv_credit) (simp_all add: credit_close_def)

lemma ns_inv_remove: "ns_inv t s \<Longrightarrow> ns_inv t (remove_flow ops i st s)"
  by (auto simp: ns_inv_def remove_flow_def close_credit_def credit_close_def intro: rev_finite_subset)

subsection \<open>Each operation keeps it\<close>

lemma send_answer_inv:
  assumes "ns_inv t s"
  shows "ns_inv t (send_answer gone (Refused m) s)"
  using assms by (auto simp: send_answer_def ns_inv_def)

lemma drop_conn_inv [simp]: "ns_inv t (drop_conn m s) = ns_inv t s"
  by (simp add: drop_conn_def)

lemma alloc_port_range:
  assumes "49152 \<le> p" and "p \<le> 65000"
  shows "49152 \<le> snd (alloc_port p)" and "snd (alloc_port p) \<le> 65000"
proof -
  have "49152 \<le> unat p" "unat p \<le> 65000" using assms by (simp_all add: word_le_nat_alt)
  from unat_alloc_port [OF this] show "49152 \<le> snd (alloc_port p)" "snd (alloc_port p) \<le> 65000"
    using mod_less_divisor [of 15849 "unat p - 49152 + 1"] by (simp_all add: word_le_nat_alt)
qed

lemma port_inv: "ns_inv t s \<Longrightarrow> ns_inv t (s\<lparr>ns_next_port := snd (alloc_port (ns_next_port s))\<rparr>)"
  using alloc_port_range [of "ns_next_port s"] by (simp add: ns_inv_def)

lemma new_flow_ok: "flow_ok t (new_flow t lims now h gone)"
  by (simp add: flow_ok_def new_flow_def)

lemma open_tcp_inv:
  assumes "ns_inv t s"
  shows "ns_inv t (s\<lparr>ns_sockets := k, ns_next_id := ns_next_id s + 1,
      ns_credits := (ns_credits s)(ns_next_id s := flow_credit_new),
      ns_tcp := (ns_tcp s)(ns_next_id s \<mapsto> new_flow t lims now h gone)\<rparr>)"
  using assms new_flow_ok [of t lims now h gone] by (auto simp: ns_inv_def less_Suc_eq)

lemma open_udp_inv:
  assumes "ns_inv t s"
  shows "ns_inv t (s\<lparr>ns_sockets := k, ns_next_id := ns_next_id s + 1, ns_udp := (ns_udp s)(ns_next_id s \<mapsto> u)\<rparr>)"
    and "ns_inv t (s\<lparr>ns_sockets := k, ns_next_id := ns_next_id s + 1, ns_udp := (ns_udp s)(ns_next_id s \<mapsto> u),
      ns_answers := ns_answers s @ [Opened (ns_next_id s)]\<rparr>)"
  using assms by (fastforce simp: ns_inv_def)+

lemma handle_cmd_inv: "ns_inv t s \<Longrightarrow> ns_inv t (handle_cmd ops t now s c)"
proof (cases c)
  case (OpenTcp dst gone)
  assume "ns_inv t s"
  then have i: "ns_inv t (s\<lparr>ns_next_port := snd (alloc_port (ns_next_port s))\<rparr>)" by (rule port_inv)
  from send_answer_inv [OF i] open_tcp_inv [OF i] show ?thesis
    by (simp add: OpenTcp handle_cmd_def Let_def case_prod_beta split: sum.splits)
next
  case (OpenUdp gone)
  assume "ns_inv t s"
  then have i: "ns_inv t (s\<lparr>ns_next_port := snd (alloc_port (ns_next_port s))\<rparr>)" by (rule port_inv)
  from send_answer_inv [OF i] open_udp_inv [OF i] show ?thesis
    by (simp add: OpenUdp handle_cmd_def Let_def case_prod_beta send_answer_def split: sum.splits)
next
  case (SetAddrs v4 v6)
  assume "ns_inv t s"
  then show ?thesis by (simp add: SetAddrs handle_cmd_def case_prod_beta)
qed

lemma try_handle_inv: "ns_inv t s \<Longrightarrow> ns_inv t (snd (try_handle_data ops t s d))"
proof (cases d)
  case (TcpData i data)
  assume inv: "ns_inv t s"
  show ?thesis
  proof (cases "ns_tcp s i")
    case None
    then show ?thesis using inv by (simp add: TcpData try_handle_data_def)
  next
    case (Some st)
    then have ok: "flow_ok t st" using inv by (simp add: ns_inv_def)
    then have "flow_ok t (st\<lparr>tf_pending := tf_pending st @ take (max_tcp_pending t - length (tf_pending st)) data\<rparr>)"
      by (auto simp: flow_ok_def min_def)
    from ns_inv_upd [OF inv Some this] inv Some show ?thesis
      by (auto simp: TcpData try_handle_data_def Let_def)
  qed
next
  case (TcpClose i)
  assume inv: "ns_inv t s"
  show ?thesis
  proof (cases "ns_tcp s i")
    case None
    then show ?thesis using inv by (simp add: TcpClose try_handle_data_def)
  next
    case (Some st)
    then have "flow_ok t (st\<lparr>tf_half_closed := True\<rparr>)" using inv by (simp add: ns_inv_def flow_ok_def)
    from ns_inv_upd [OF inv Some this] Some show ?thesis by (simp add: TcpClose try_handle_data_def)
  qed
next
  case (UdpClose i)
  assume inv: "ns_inv t s"
  then show ?thesis
    by (auto simp: UdpClose try_handle_data_def ns_inv_def split: option.splits intro: rev_finite_subset)
qed (simp add: try_handle_data_def split: option.splits)

lemma ingest_inv: "ns_inv t s \<Longrightarrow> ns_inv t (fst (ingest ops t s b d))"
  using try_handle_inv [of t s ops d] by (auto simp: ingest_def ingest_with_def split: prod.splits option.splits)

lemma drain_queue_inv: "ns_inv t s \<Longrightarrow> ns_inv t (fst (drain_queue (try_handle_data ops t) s q kept))"
proof (induction q arbitrary: s kept)
  case (Cons d q)
  have "ns_inv t (snd (try_handle_data ops t s d))" by (rule try_handle_inv [OF Cons.prems])
  then show ?case using Cons by (auto split: prod.splits option.splits)
qed simp

lemma drain_backlog_inv: "ns_inv t s \<Longrightarrow> ns_inv t (fst (drain_backlog ops t s b))"
  by (simp add: drain_backlog_def drain_queue_inv)

lemma reset_flow_inv: "ns_inv t s \<Longrightarrow> ns_inv t (reset_flow ops i s)"
proof (cases "ns_tcp s i")
  case (Some st)
  assume inv: "ns_inv t s"
  let ?s = "close_credit i (s\<lparr>ns_sockets := sm_abort ops (ns_sockets s) (tf_handle st)\<rparr>)"
  have "ns_inv t ?s" by (rule ns_inv_close_credit) (simp add: inv)
  moreover have "ns_tcp ?s i = Some st" using Some by (simp add: close_credit_def)
  moreover have "flow_ok t (st\<lparr>tf_pending := []\<rparr>)" using inv Some by (auto simp: ns_inv_def flow_ok_def)
  ultimately have "ns_inv t (upd_tcp i (st\<lparr>tf_pending := []\<rparr>) ?s)" by (rule ns_inv_upd) simp
  then show ?thesis using Some by (simp add: reset_flow_def)
qed (simp add: reset_flow_def)

lemma reset_all_inv: "ns_inv t (fst sb) \<Longrightarrow> ns_inv t (fst (reset_all ops ids sb))"
proof (induction ids arbitrary: sb)
  case (Cons i ids)
  then show ?case using reset_flow_inv [of t "fst sb" ops i] by (simp add: reset_all_def case_prod_beta)
qed (simp add: reset_all_def)

lemma reap_wedged_inv: "ns_inv t s \<Longrightarrow> ns_inv t (fst (reap_wedged ops ord now s b))"
  using reset_all_inv [of t "(s, b)" ops] reset_all_inv [of t _ ops]
  by (auto simp: reap_wedged_def Let_def split: prod.splits) (metis fst_conv)+

subsection \<open>Serving a flow keeps it\<close>

text \<open>What the stages of \<^verbatim>\<open>service_tcp\<close> do to a flow as far as the invariant sees it.\<close>

definition evolves :: "tcp_flow \<Rightarrow> tcp_flow \<Rightarrow> bool" where
  "evolves st st' \<longleftrightarrow>
     tf_established st' = tf_established st \<and> tf_resp st' = tf_resp st \<and> tf_rx_held st' = tf_rx_held st \<and>
     length (tf_pending st') \<le> length (tf_pending st)"

lemma evolves_trans: "evolves a b \<Longrightarrow> evolves b c \<Longrightarrow> evolves a c"
  by (simp add: evolves_def)

lemma evolves_ok: "evolves a b \<Longrightarrow> flow_ok t a \<Longrightarrow> flow_ok t b"
  by (simp add: evolves_def flow_ok_def)

lemma evolves_upd: "ns_inv t s \<Longrightarrow> ns_tcp s i = Some a \<Longrightarrow> evolves a b \<Longrightarrow> ns_inv t (upd_tcp i b s)"
  by (rule ns_inv_upd) (auto intro: evolves_ok simp: ns_inv_def evolves_def)

lemma stage_evolves:
  "evolves st (snd (flow_send ops now k st))"
  "evolves st (snd (flow_liveness now q a st))"
  "evolves st (snd (flow_admission fl t now q a c st))"
  "evolves st (snd (snd (flap_reset ops flap k c st)))"
  "evolves st (st\<lparr>tf_to_app := ch\<rparr>)"
  "evolves st (snd (snd (flow_orphan ops lims now k st)))"
  by (auto simp: evolves_def flow_send_def flow_liveness_def flow_admission_def flap_reset_def
      flow_orphan_def Let_def split: prod.splits)

lemma ns_inv_if: "ns_inv t x \<Longrightarrow> ns_inv t y \<Longrightarrow> ns_inv t (if c then x else y)"
  by simp

lemma flow_finish_inv:
  assumes "ns_inv t s" and "ns_tcp s i = Some a" and "evolves a st"
  shows "ns_inv t (flow_finish ops i st s)"
proof -
  let ?s = "if sm_state ops (ns_sockets s) (tf_handle st) = SockCloseWait
            then s\<lparr>ns_sockets := sm_close ops (ns_sockets s) (tf_handle st)\<rparr> else s"
  let ?st = "if sm_state ops (ns_sockets s) (tf_handle st) = SockTimeWait then st\<lparr>tf_pending := []\<rparr> else st"
  have e: "evolves a ?st" using assms(3) by (simp add: evolves_def)
  have i: "ns_inv t ?s" "ns_tcp ?s i = Some a" using assms by simp_all
  show ?thesis unfolding flow_finish_def Let_def
    by (rule ns_inv_if [OF ns_inv_remove [OF i(1)] evolves_upd [OF i e]])
qed

lemma serve_established_inv:
  assumes "ns_inv t s" and "ns_tcp s i = Some st"
  shows "ns_inv t (snd (serve_established ops fl t now i st s))"
proof -
  obtain k1 st1 where s1: "flow_send ops now (ns_sockets s) st = (k1, st1)" by fastforce
  define q where "q = sm_send_queue ops k1 (tf_handle st1)"
  define a where "a = tf_accepted_total st1 - q"
  obtain fp st2 where s2: "flow_liveness now q a st1 = (fp, st2)" by fastforce
  obtain c3 st3 where s3: "flow_admission fl t now q a (ns_credits s i) st2 = (c3, st3)" by fastforce
  obtain k4 c4 st4 where s4: "flap_reset ops fp k1 c3 st3 = (k4, c4, st4)" by (metis prod_cases3)
  define k5 where "k5 = flow_half_close ops k4 st4"
  obtain r k6 ch where s6: "deliver ops MAX_RECV_CHUNKS k5 (tf_handle st4) (tf_to_app st4) = (r, k6, ch)"
    by (metis prod_cases3)
  define s' where "s' = s\<lparr>ns_credits := (ns_credits s)(i := c4)\<rparr>"
  define st5 where "st5 = st4\<lparr>tf_to_app := ch\<rparr>"
  obtain rp k7 st6 where s7: "flow_orphan ops (ns_limits s) now k6 st5 = (rp, k7, st6)" by (metis prod_cases3)
  have e: "evolves st st5" "evolves st st6"
  proof -
    have "evolves st st1" "evolves st1 st2" "evolves st2 st3" "evolves st3 st4"
      using stage_evolves(1) [of st ops now "ns_sockets s"] stage_evolves(2) [of st1 now q a]
        stage_evolves(3) [of st2 fl t now q a "ns_credits s i"] stage_evolves(4) [of st3 ops fp k1 c3]
      by (simp_all add: s1 s2 s3 s4)
    moreover have "evolves st4 st5" unfolding st5_def by (rule stage_evolves(5))
    moreover have "evolves st5 st6" using stage_evolves(6) [of st5 ops "ns_limits s" now k6] by (simp add: s7)
    ultimately show "evolves st st5" "evolves st st6" by (blast intro: evolves_trans)+
  qed
  have i1: "ns_inv t s'" unfolding s'_def by (rule ns_inv_credit) (use assms in simp_all)
  have i2: "ns_inv t (s'\<lparr>ns_sockets := k\<rparr>)" "ns_tcp (s'\<lparr>ns_sockets := k\<rparr>) i = Some st" for k
    using i1 assms(2) by (simp_all add: s'_def)
  have "serve_established ops fl t now i st s =
    (if r = Closed
     then (if rp then (False, upd_tcp i st6 (s'\<lparr>ns_sockets := k7\<rparr>))
           else (False, flow_finish ops i st6 (s'\<lparr>ns_sockets := k7\<rparr>)))
     else (r = Full, flow_finish ops i st5 (s'\<lparr>ns_sockets := k6\<rparr>)))"
    by (simp add: serve_established_def s1 s2 [unfolded q_def a_def] s3 [unfolded q_def a_def] s4 Let_def
        s6 [unfolded k5_def] s7 [unfolded st5_def] s'_def st5_def)
  then show ?thesis
    using evolves_upd [OF i2 e(2)] flow_finish_inv [OF i2 e(1)] flow_finish_inv [OF i2 e(2)] by simp
qed

lemma establish_inv:
  assumes "ns_inv t s" and "ns_tcp s i = Some st" and "\<not> tf_established st"
  shows "ns_inv t (establish i st s)"
proof -
  have ok: "flow_ok t st" "i < ns_next_id s" "i \<notin> set (opened_ids (ns_answers s))"
    using assms by (auto simp: ns_inv_def)
  let ?st = "\<lambda>ch. st\<lparr>tf_established := True, tf_resp := False, tf_rx_held := False, tf_to_app := ch\<rparr>"
  have "ns_inv t (upd_tcp i (?st ch) s)" for ch
    by (rule ns_inv_upd [OF assms(1,2)]) (use ok in \<open>simp_all add: flow_ok_def\<close>)
  moreover have "ns_inv t (send_answer False (Opened i) (upd_tcp i (?st (tf_to_app st)) s))"
    using ok calculation [of "tf_to_app st"] by (auto simp: send_answer_def ns_inv_def)
  moreover have "tf_resp st" "tf_rx_held st" using ok assms(3) by (simp_all add: flow_ok_def)
  ultimately show ?thesis by (simp add: establish_def Let_def)
qed

lemma refuse_inv: "ns_inv t s \<Longrightarrow> ns_inv t (refuse ops i st m s)"
  by (simp add: refuse_def ns_inv_remove send_answer_inv)

lemma service_flow_inv:
  assumes "ns_inv t s"
  shows "ns_inv t (snd (service_flow ops fl t now i s))"
proof (cases "ns_tcp s i")
  case None
  then show ?thesis using assms by (simp add: service_flow_def)
next
  case (Some st)
  define s1 where "s1 = (if \<not> tf_established st \<and> sock_connected (sm_state ops (ns_sockets s) (tf_handle st)) then establish i st s else s)"
  have i1: "ns_inv t s1" using establish_inv [OF assms Some] assms by (simp add: s1_def)
  define stt where "stt = sm_state ops (ns_sockets s) (tf_handle st)"
  have "service_flow ops fl t now i s =
    (if tf_aborted st then (False, remove_flow ops i st s)
     else case ns_tcp s1 i of
       None \<Rightarrow> (False, s1)
     | Some st \<Rightarrow>
         if \<not> tf_established st \<and> (stt = SockClosed \<or> stt = SockTimeWait)
         then (False, refuse ops i st ''connection refused'' s1)
         else if \<not> tf_established st
         then if (\<not> tf_resp st \<or> tf_resp_closed st) \<or> tf_connect_deadline st \<le> now
              then (False, refuse ops i st ''connection timed out'' s1) else (False, s1)
         else serve_established ops fl t now i st s1)"
    by (simp only: service_flow_def Some option.case Let_def s1_def stt_def)
  then show ?thesis
    using i1 ns_inv_remove [OF assms] refuse_inv [OF i1] serve_established_inv [OF i1]
    by (simp split: option.splits)
qed

lemma service_flows_inv: "ns_inv t s \<Longrightarrow> ns_inv t (snd (service_flows ops fl t now is b s))"
proof (induction "is" arbitrary: b s)
  case (Cons i "is")
  have "ns_inv t (snd (service_flow ops fl t now i s))" by (rule service_flow_inv [OF Cons.prems])
  then show ?case using Cons.IH by (simp add: case_prod_beta)
qed simp

lemma service_udp_flow_inv: "ns_inv t s \<Longrightarrow> ns_inv t (snd (service_udp_flow ops i s))"
  by (auto simp: service_udp_flow_def ns_inv_def split: option.splits prod.splits intro: rev_finite_subset)

lemma service_udp_flows_inv: "ns_inv t s \<Longrightarrow> ns_inv t (snd (service_udp_flows ops is b s))"
proof (induction "is" arbitrary: b s)
  case (Cons i "is")
  have "ns_inv t (snd (service_udp_flow ops i s))" by (rule service_udp_flow_inv [OF Cons.prems])
  then show ?case using Cons.IH by (simp add: case_prod_beta)
qed simp

lemma flush_tx_inv: "ns_inv t s \<Longrightarrow> ns_inv t (fst (snd (flush_tx s out)))"
  by (simp add: flush_tx_def Let_def split: prod.splits)

subsection \<open>The loop\<close>

definition run_inv :: "tuning \<Rightarrow> 'k run_state \<Rightarrow> bool" where
  "run_inv t r \<longleftrightarrow> ns_inv t (rs_stack r) \<and> backlog_ok (rs_backlog r)"

lemma foldl_inv: "P s \<Longrightarrow> (\<And>s x. P s \<Longrightarrow> P (f s x)) \<Longrightarrow> P (foldl f s xs)"
  by (induction xs arbitrary: s) auto

lemma drain_with_inv:
  assumes "P s" and "\<And>s x. P s \<Longrightarrow> P (put s x)"
  shows "P (fst (snd (drain_with go put cap moved s rx)))"
  using assms
proof (induction go put cap moved s rx rule: drain_with.induct)
  case (1 go put cap moved s rx)
  show ?case
  proof (cases "moved < cap \<and> go s")
    case True
    obtain r rx' where tr: "try_recv rx = (r, rx')" by (cases "try_recv rx")
    show ?thesis using 1 True tr by (cases r) (simp_all add: drain_with.simps [of go put cap moved])
  next
    case False
    then show ?thesis using 1 by (auto simp: drain_with.simps [of go put cap moved])
  qed
qed

lemma device_push_inv: "ns_inv t s \<Longrightarrow> ns_inv t (device_push s pkt)"
  by (simp add: device_push_def)

lemma drain_app_data_inv:
  assumes "ns_inv t s" and "backlog_ok b" and "drain_app_data ops t s b cap = (r, s', b')"
  shows "ns_inv t s' \<and> backlog_ok b'"
proof -
  let ?P = "\<lambda>(s, b). ns_inv t s \<and> backlog_ok b"
  have "?P (fst (snd (drain_with (\<lambda>(s, b). bl_bytes b < MAX_BACKLOG_BYTES) (\<lambda>(s, b) d. ingest ops t s b d) cap 0 (s, b) (ns_data_in s))))"
    by (rule drain_with_inv) (use assms ingest_inv [of t _ ops] stack_sink.ingest_ok [of _ ops t] in
        \<open>auto simp: ingest_def split: prod.splits\<close>, (metis fst_conv snd_conv)+)
  then show ?thesis using assms(3) by (auto simp: drain_app_data_def split: prod.splits)
qed

lemma drain_directions_inv:
  assumes "ns_inv t s" and "backlog_ok b"
    and "drain_directions ops t app_last s b rx = (c, s', b', rx')"
  shows "ns_inv t s' \<and> backlog_ok b'"
proof -
  have i: "ns_inv t s \<Longrightarrow> drain_inbound s rx n = (x, s2, y) \<Longrightarrow> ns_inv t s2" for s s2 :: "'a netstack" and x y n
    using drain_with_inv [of "ns_inv t" s device_push] device_push_inv [of t] by (metis drain_inbound_def fst_conv snd_conv)
  show ?thesis
  proof (cases app_last)
    case True
    then show ?thesis using assms by (auto simp: drain_directions_def split: prod.splits) (metis i drain_app_data_inv)+
  next
    case False
    then show ?thesis using assms by (auto simp: drain_directions_def split: prod.splits) (metis i drain_app_data_inv)+
  qed
qed

lemma drain_cmds_inv: "ns_inv t s \<Longrightarrow> ns_inv t (fst (snd (drain_cmds ops t now s rx cap)))"
  unfolding drain_cmds_def by (rule drain_with_inv) (simp_all add: handle_cmd_inv)

lemma reap_wedged_ok: "backlog_ok b \<Longrightarrow> backlog_ok (snd (reap_wedged ops ord now s b))"
proof -
  have r: "backlog_ok (snd sb) \<Longrightarrow> backlog_ok (snd (reset_all ops ids sb))" for ids and sb :: "'a netstack \<times> backlog"
    by (cases sb; cases "reset_all ops ids sb") (auto dest: reset_all_spec)
  assume "backlog_ok b"
  then show ?thesis using r [of "(s, b)"] r by (auto simp: reap_wedged_def Let_def split: prod.splits) (metis snd_conv)+
qed

lemma drain_backlog_ok: "backlog_ok b \<Longrightarrow> backlog_ok (snd (drain_backlog ops t s b))"
  by (simp add: drain_backlog_def stack_sink.drain_queue_ok)

lemma clear_peaks_inv: "ns_inv t s \<Longrightarrow> ns_inv t (s\<lparr>ns_tcp := (\<lambda>i. map_option clear_peaks (ns_tcp s i))\<rparr>)"
proof -
  assume "ns_inv t s"
  moreover have "dom (\<lambda>i. map_option clear_peaks (ns_tcp s i)) = dom (ns_tcp s)" by (auto simp: dom_def)
  moreover have "flow_ok t (clear_peaks st) = flow_ok t st" "tf_established (clear_peaks st) = tf_established st" for st
    by (simp_all add: flow_ok_def clear_peaks_def)
  ultimately show ?thesis by (auto simp: ns_inv_def)
qed

lemma telemetry_inv: "run_inv t r \<Longrightarrow> run_inv t (report_telemetry now r)"
  using clear_peaks_inv [of t "rs_stack r"] by (simp add: report_telemetry_def run_inv_def Let_def)

lemma progress_inv: "run_inv t r \<Longrightarrow> run_inv t (note_progress now a b c r)"
  by (simp add: note_progress_def run_inv_def Let_def)

fun outcome_state :: "'k pass_outcome \<Rightarrow> 'k run_state" where
  "outcome_state (PassReturns r) = r"
| "outcome_state (PassAgain r) = r"
| "outcome_state (PassWaits b r) = r"

lemma pass_inv:
  assumes "run_inv t r"
  shows "run_inv t (outcome_state (netstack_pass poll ops fl t ord now r))"
proof -
  define s0 where "s0 = poll_stack poll now (rs_stack r)"
  obtain b1 s1 where 1: "service_tcp ops fl t ord now s0 = (b1, s1)" by fastforce
  obtain b2 s2 where 2: "service_udp ops ord s1 = (b2, s2)" by fastforce
  obtain dr tb s3 out where 3: "flush_tx s2 (rs_outbound_tx r) = ((dr, tb), s3, out)" by (metis prod_cases3 surj_pair)
  define r1 where "r1 = count_drops dr (r\<lparr>rs_outbound_tx := out\<rparr>)"
  have r1: "rs_backlog r1 = rs_backlog r" by (simp add: r1_def count_drops_def Let_def)
  obtain s4 b4 where 4: "drain_backlog ops t s3 (rs_backlog r1) = (s4, b4)" by fastforce
  obtain s5 b5 where 5: "reap_wedged ops ord now s4 b4 = (s5, b5)" by fastforce
  obtain ma mi e s6 b6 rx where 6: "drain_directions ops t (rs_prefer_app_data r1) s5 b5 (rs_inbound_rx r1) = ((ma, mi, e), s6, b6, rx)"
    by (metis prod_cases4 prod_cases3)
  obtain mc ce s7 crx where 7: "drain_cmds ops t now s6 (rs_cmd_rx r1) MAX_CMD_PER_TICK = ((mc, ce), s7, crx)"
    by (metis prod_cases3 surj_pair)
  define r2 where "r2 = r1\<lparr>rs_stack := s7, rs_backlog := b6, rs_inbound_rx := rx, rs_cmd_rx := crx,
      rs_prefer_app_data := \<not> rs_prefer_app_data r1\<rparr>"
  have i0: "ns_inv t s0" using assms by (simp add: s0_def poll_stack_def run_inv_def split: prod.splits)
  have i1: "ns_inv t s1" using service_flows_inv [OF i0] 1 unfolding service_tcp_def by (metis snd_conv)
  have i2: "ns_inv t s2" using service_udp_flows_inv [OF i1] 2 unfolding service_udp_def by (metis snd_conv)
  have i3: "ns_inv t s3" using flush_tx_inv [OF i2, of "rs_outbound_tx r"] 3 by simp
  have i4: "ns_inv t s4" "backlog_ok b4"
    using drain_backlog_inv [OF i3, of ops "rs_backlog r1"] drain_backlog_ok [of "rs_backlog r1" ops t s3] 4 assms r1
    by (simp_all add: run_inv_def)
  have i5: "ns_inv t s5" "backlog_ok b5"
    using reap_wedged_inv [OF i4(1), of ops ord now b4] reap_wedged_ok [OF i4(2), of ops ord now s4] 5 by simp_all
  have i6: "ns_inv t s6" "backlog_ok b6" using drain_directions_inv [OF i5 6] by simp_all
  have "ns_inv t s7" using drain_cmds_inv [OF i6(1), of ops now "rs_cmd_rx r1"] 7 by (metis fst_conv snd_conv)
  then have i7: "run_inv t r2" using i6 by (simp add: run_inv_def r2_def)
  have "netstack_pass poll ops fl t ord now r =
    (if e \<or> ce then PassReturns r2
     else let r3 = report_telemetry now (note_progress now mi ma dr r2);
              busy = (b1 \<or> b2 \<or> tb \<or> \<not> bl_is_empty (rs_backlog r3))
          in if 0 < mi \<or> 0 < ma \<or> 0 < mc then PassAgain r3 else PassWaits busy r3)"
    unfolding netstack_pass_def s0_def [symmetric] Let_def 1 2 3 prod.case r1_def [symmetric] 4 5 6 7 r2_def [symmetric] ..
  then show ?thesis using i7 telemetry_inv [OF progress_inv [OF i7]] by (simp add: Let_def)
qed

lemma wake_inv:
  assumes "run_inv t r" and "netstack_wake ops t now r w = Some p"
  shows "run_inv t (outcome_state p)"
proof -
  have i: "ns_inv t (rs_stack r)" "backlog_ok (rs_backlog r)" using assms(1) by (simp_all add: run_inv_def)
  have j: "ns_inv t (fst (ingest ops t ((rs_stack r)\<lparr>ns_data_in := rx\<rparr>) (rs_backlog r) d))"
    "backlog_ok (snd (ingest ops t ((rs_stack r)\<lparr>ns_data_in := rx\<rparr>) (rs_backlog r) d))" for rx d
    using i ingest_inv [of t "(rs_stack r)\<lparr>ns_data_in := rx\<rparr>" ops "rs_backlog r" d]
      stack_sink.ingest_ok [OF i(2), of ops t "(rs_stack r)\<lparr>ns_data_in := rx\<rparr>" d]
    by (simp_all add: ingest_def)
  show ?thesis using assms(2) i j
    by (cases w; auto simp: netstack_wake_def run_inv_def device_push_inv handle_cmd_inv case_prod_beta
        split: prod.splits recv_outcome.splits if_splits; metis fst_conv snd_conv)
qed

text \<open>\<^verbatim>\<open>spawn_with_limits\<close> on parsed addresses; \<open>k\<close> is the fresh interface and socket set.\<close>

definition netstack_start :: "'k smol \<Rightarrow> tuning \<Rightarrow> tcp_limits \<Rightarrow> nat \<Rightarrow> usize \<Rightarrow> (ipv4_addr \<times> u8) option \<Rightarrow> (ipv6_addr \<times> u8) option \<Rightarrow>
    'k \<Rightarrow> bytes chan \<Rightarrow> bytes chan \<Rightarrow> 'k run_state" where
  "netstack_start ops t lims now mtu v4 v6 k inbound_rx outbound_tx =
     \<lparr>rs_stack = \<lparr>ns_sockets = apply_addrs ops k v4 v6, ns_device = stack_device_new mtu, ns_tcp = Map.empty,
                  ns_udp = Map.empty, ns_next_id = 1, ns_next_port = 49152, ns_limits = lims,
                  ns_credits = (\<lambda>i. flow_credit_new), ns_data_in = chan_new (tn_app_queue t), ns_answers = []\<rparr>,
      rs_backlog = backlog_new, rs_cmd_rx = chan_new 256, rs_inbound_rx = inbound_rx, rs_outbound_tx = outbound_tx,
      rs_tx_dropped = 0, rs_next_drop_report = DROP_REPORT_STEP, rs_prefer_app_data = False,
      rs_last_app_progress = now, rs_last_starvation_report = now - STARVATION_REPORT_GAP,
      rs_last_telemetry = now - (TELEMETRY_INTERVAL - secs 2), rs_win_in = 0, rs_win_app = 0, rs_win_dropped = 0\<rparr>"

text \<open>
  The states the loop reaches, with what happens outside it: traffic on the queues, an opener or an
  application that goes away or takes what was delivered to it, and a writer that is admitted.
\<close>

inductive netstack_reach :: "'k poller \<Rightarrow> 'k smol \<Rightarrow> (rat \<Rightarrow> rat) \<Rightarrow> tuning \<Rightarrow> (nat set \<Rightarrow> nat list) \<Rightarrow> 'k run_state \<Rightarrow> bool"
  for poll ops fl t ord where
  start: "netstack_reach poll ops fl t ord (netstack_start ops t lims now mtu v4 v6 k inb out)"
| pass: "netstack_reach poll ops fl t ord r \<Longrightarrow>
    netstack_reach poll ops fl t ord (outcome_state (netstack_pass poll ops fl t ord now r))"
| wake: "netstack_reach poll ops fl t ord r \<Longrightarrow> netstack_wake ops t now r w = Some p \<Longrightarrow>
    netstack_reach poll ops fl t ord (outcome_state p)"
| queues: "netstack_reach poll ops fl t ord r \<Longrightarrow>
    netstack_reach poll ops fl t ord
      (r\<lparr>rs_stack := (rs_stack r)\<lparr>ns_data_in := d\<rparr>, rs_cmd_rx := c, rs_inbound_rx := i, rs_outbound_tx := out\<rparr>)"
| app: "netstack_reach poll ops fl t ord r \<Longrightarrow> ns_tcp (rs_stack r) f = Some st \<Longrightarrow>
    netstack_reach poll ops fl t ord
      (r\<lparr>rs_stack := upd_tcp f (st\<lparr>tf_to_app := ch, tf_resp_closed := gone\<rparr>) (rs_stack r)\<rparr>)"
| udp_app: "netstack_reach poll ops fl t ord r \<Longrightarrow> ns_udp (rs_stack r) f = Some u \<Longrightarrow>
    netstack_reach poll ops fl t ord
      (r\<lparr>rs_stack := (rs_stack r)\<lparr>ns_udp := (ns_udp (rs_stack r))(f \<mapsto> u\<lparr>uf_to_app := uch\<rparr>)\<rparr>\<rparr>)"
| writer: "netstack_reach poll ops fl t ord r \<Longrightarrow>
    ns_tcp (rs_stack r) f \<noteq> None \<or> fc_closed (ns_credits (rs_stack r) f) \<Longrightarrow>
    netstack_reach poll ops fl t ord
      (r\<lparr>rs_stack := (rs_stack r)\<lparr>ns_credits := (ns_credits (rs_stack r))
          (f := (ns_credits (rs_stack r) f)\<lparr>fc_sent := fc_sent (ns_credits (rs_stack r) f) + len\<rparr>)\<rparr>\<rparr>)"

lemma start_inv: "run_inv t (netstack_start ops t lims now mtu v4 v6 k inb out)"
  by (simp add: run_inv_def netstack_start_def ns_inv_def)

lemma reach_inv: "netstack_reach poll ops fl t ord r \<Longrightarrow> run_inv t r"
proof (induction rule: netstack_reach.induct)
  case (start lims now mtu v4 v6 k inb out)
  show ?case by (rule start_inv)
next
  case (pass r now)
  then show ?case by (blast intro: pass_inv)
next
  case (wake r now w p)
  then show ?case by (blast intro: wake_inv)
next
  case (queues r d c i out)
  then show ?case by (simp add: run_inv_def)
next
  case (app r f st gone ch)
  have "flow_ok t (st\<lparr>tf_to_app := ch, tf_resp_closed := gone\<rparr>)"
    using app by (simp add: run_inv_def ns_inv_def flow_ok_def)
  with app show ?case using ns_inv_upd [of t "rs_stack r" f st] by (simp add: run_inv_def)
next
  case (udp_app r f u uch)
  then show ?case by (auto simp: run_inv_def ns_inv_def)
next
  case (writer r f len)
  let ?c = "(ns_credits (rs_stack r) f)\<lparr>fc_sent := fc_sent (ns_credits (rs_stack r) f) + len\<rparr>"
  show ?case using ns_inv_credit [of t "rs_stack r" f ?c] writer by (auto simp: run_inv_def)
qed

text \<open>
  C3. Whatever smoltcp, the tunnel and the applications do: no flow ever holds more than its limit of
  unsent bytes; an opener is answered with a connection at most once, and only for an established
  flow; the writer of a flow that is gone is never left waiting on its credit; flow numbers are not
  reused and ports stay in range; the backlog's bookkeeping is right.
\<close>

theorem netstack_invariant:
  assumes "netstack_reach poll ops fl t ord r"
  shows "(\<forall>i st. ns_tcp (rs_stack r) i = Some st \<longrightarrow>
      length (tf_pending st) \<le> max_tcp_pending t \<and> i < ns_next_id (rs_stack r) \<and>
      (i \<in> set (opened_ids (ns_answers (rs_stack r))) \<longrightarrow> tf_established st)) \<and>
    (\<forall>i. ns_tcp (rs_stack r) i = None \<and> ns_credits (rs_stack r) i \<noteq> flow_credit_new \<longrightarrow>
      fc_closed (ns_credits (rs_stack r) i)) \<and>
    distinct (opened_ids (ns_answers (rs_stack r))) \<and>
    49152 \<le> ns_next_port (rs_stack r) \<and> ns_next_port (rs_stack r) \<le> 65000 \<and>
    backlog_ok (rs_backlog r)"
  using reach_inv [OF assms] unfolding run_inv_def ns_inv_def flow_ok_def by blast

definition sample_run :: "unit run_state" where
  "sample_run = netstack_start idle_smol sample_tuning (ns_limits sample_stack) 0 1280 None None () (chan_new 8) (chan_new 8)"

theorem netstack_invariant_witness:
  "netstack_reach (\<lambda>now d k. (True, d, k)) idle_smol (\<lambda>x. x) sample_tuning sorted_list_of_set sample_run \<and>
   backlog_ok (rs_backlog sample_run) \<and> ns_next_port (rs_stack sample_run) \<le> 65000"
proof -
  have r: "netstack_reach (\<lambda>now d k. (True, d, k)) idle_smol (\<lambda>x. x) sample_tuning sorted_list_of_set sample_run"
    unfolding sample_run_def by (rule netstack_reach.start)
  then show ?thesis using netstack_invariant [OF r] by blast
qed

text \<open>
  An edge that names only one address family does not take the other off the interface: after
  the addresses are set, the interface has the named address (with a routable prefix) and keeps the
  family that was not named. The two hypotheses are smoltcp's: what is set is what is read back, and
  routes do not change addresses.
\<close>

lemma set_addrs_keeps_other_family:
  assumes "\<And>k a. sm_ip_addrs ops (sm_set_ip_addrs ops k a) = a"
    and "\<And>k g. sm_ip_addrs ops (sm_default_v4_route ops k g) = sm_ip_addrs ops k"
    and "\<And>k g. sm_ip_addrs ops (sm_default_v6_route ops k g) = sm_ip_addrs ops k"
    and "current_addrs ops (ns_sockets s) = (Some (a4, p4), Some (a6, p6))"
  shows "current_addrs ops (ns_sockets (handle_cmd ops t now s (SetAddrs (Some (b4, q4)) None))) =
      (Some (b4, routable_prefix_v4 q4), Some (a6, routable_prefix_v6 p6)) \<and>
    current_addrs ops (ns_sockets (handle_cmd ops t now s (SetAddrs None (Some (b6, q6))))) =
      (Some (a4, routable_prefix_v4 p4), Some (b6, routable_prefix_v6 q6))"
  using assms by (simp add: handle_cmd_def current_addrs_def apply_addrs_def)

text \<open>An interface that is nothing but its address list.\<close>

definition addr_smol :: "ip_cidr list smol" where
  "addr_smol = \<lparr>sm_state = (\<lambda>k h. SockEstablished), sm_can_send = (\<lambda>k h. False),
     sm_send_slice = (\<lambda>k h d. (0, k)), sm_send_queue = (\<lambda>k h. 0), sm_can_recv = (\<lambda>k h. False),
     sm_recv = (\<lambda>k h. (None, k)), sm_close = (\<lambda>k h. k), sm_abort = (\<lambda>k h. k), sm_remove = (\<lambda>k h. k),
     sm_connect = (\<lambda>k ka to a p. Inr (0, k)), sm_udp_bind = (\<lambda>k p. Inr (0, k)),
     sm_udp_send = (\<lambda>k h d a. k), sm_udp_can_recv = (\<lambda>k h. False), sm_udp_recv = (\<lambda>k h. (None, k)),
     sm_ip_addrs = (\<lambda>k. k), sm_set_ip_addrs = (\<lambda>k a. a), sm_default_v4_route = (\<lambda>k a. k),
     sm_default_v6_route = (\<lambda>k a. k)\<rparr>"

definition addr_stack :: "ip_cidr list netstack" where
  "addr_stack = \<lparr>ns_sockets = [Cidr4 1 24, Cidr6 2 64], ns_device = stack_device_new 1280, ns_tcp = Map.empty,
     ns_udp = Map.empty, ns_next_id = 1, ns_next_port = 49152, ns_limits = ns_limits sample_stack,
     ns_credits = (\<lambda>i. flow_credit_new), ns_data_in = chan_new 4, ns_answers = []\<rparr>"

lemma set_addrs_keeps_other_family_witness:
  "current_addrs addr_smol (ns_sockets (handle_cmd addr_smol sample_tuning 0 addr_stack (SetAddrs (Some (9, 32)) None))) =
     (Some (9, 24), Some (2, 64))"
  using set_addrs_keeps_other_family [of addr_smol addr_stack 1 24 2 64 sample_tuning 0 9 32 3 64]
  by (simp add: addr_smol_def addr_stack_def current_addrs_def routable_prefix_v4_def routable_prefix_v6_def)

end
