(* ===== verification/Text.thy ===== *)
theory Text
  imports Net_Addr
begin

text \<open>
  The string operations of the standard library that the engine uses. A \<^verbatim>\<open>str\<close> is its UTF-8 bytes,
  a \<^typ>\<open>string\<close>: searching, splitting, trimming white space (every code point that Unicode calls
  so) and reading unsigned numbers.
\<close>

subsection \<open>Characters\<close>

definition ascii_digit :: "char \<Rightarrow> bool" where
  "ascii_digit c \<longleftrightarrow> 48 \<le> (of_char c :: nat) \<and> (of_char c :: nat) \<le> 57"

definition ascii_upper :: "char \<Rightarrow> bool" where
  "ascii_upper c \<longleftrightarrow> 65 \<le> (of_char c :: nat) \<and> (of_char c :: nat) \<le> 90"

definition ascii_lower :: "char \<Rightarrow> bool" where
  "ascii_lower c \<longleftrightarrow> 97 \<le> (of_char c :: nat) \<and> (of_char c :: nat) \<le> 122"

definition ascii_alphanumeric :: "char \<Rightarrow> bool" where
  "ascii_alphanumeric c \<longleftrightarrow> ascii_digit c \<or> ascii_upper c \<or> ascii_lower c"

definition to_ascii_lowercase :: "char \<Rightarrow> char" where
  "to_ascii_lowercase c = (if ascii_upper c then char_of ((of_char c :: nat) + 32) else c)"

text \<open>
  \<^verbatim>\<open>to_lowercase\<close> on a string whose letters are ASCII. Of the other letters only the Kelvin sign has
  an ASCII lower case, so a comparison with a word without the letter k has the same result.
\<close>

definition to_lowercase :: "string \<Rightarrow> string" where
  "to_lowercase s = map to_ascii_lowercase s"

definition eq_ignore_ascii_case :: "string \<Rightarrow> string \<Rightarrow> bool" where
  "eq_ignore_ascii_case a b \<longleftrightarrow> map to_ascii_lowercase a = map to_ascii_lowercase b"

lemma of_char_less [simp]: "(of_char (c :: char) :: nat) < 256"
  by (rule nat_of_char_less_256)

lemma to_ascii_lowercase_idem [simp]: "to_ascii_lowercase (to_ascii_lowercase c) = to_ascii_lowercase c"
proof (cases "ascii_upper c")
  case True
  then have "(of_char c :: nat) + 32 \<le> 122" "97 \<le> (of_char c :: nat) + 32" by (simp_all add: ascii_upper_def)
  then have "(of_char (char_of ((of_char c :: nat) + 32) :: char) :: nat) = of_char c + 32" by simp
  then have "\<not> ascii_upper (char_of ((of_char c :: nat) + 32))"
    using \<open>97 \<le> (of_char c :: nat) + 32\<close> by (simp add: ascii_upper_def)
  then show ?thesis using True by (simp add: to_ascii_lowercase_def)
qed (simp add: to_ascii_lowercase_def)

lemma to_lowercase_idem [simp]: "to_lowercase (to_lowercase s) = to_lowercase s"
  by (simp add: to_lowercase_def)

subsection \<open>UTF-8\<close>

definition is_cont :: "u8 \<Rightarrow> bool" where
  "is_cont b \<longleftrightarrow> 0x80 \<le> b \<and> b \<le> 0xbf"

definition second_ok :: "u8 \<Rightarrow> u8 \<Rightarrow> bool" where
  "second_ok b c =
     (if b = 0xe0 then 0xa0 \<le> c \<and> c \<le> 0xbf
      else if b = 0xed then 0x80 \<le> c \<and> c \<le> 0x9f
      else if b = 0xf0 then 0x90 \<le> c \<and> c \<le> 0xbf
      else if b = 0xf4 then 0x80 \<le> c \<and> c \<le> 0x8f
      else is_cont c)"

text \<open>The first sequence of a non-empty byte string: whether it is valid, and how long it is.\<close>

fun utf8_step :: "bytes \<Rightarrow> bool \<times> nat" where
  "utf8_step [] = (True, 0)"
| "utf8_step (b # r) =
     (if b < 0x80 then (True, 1)
      else if 0xc2 \<le> b \<and> b \<le> 0xdf
      then (case r of c # _ \<Rightarrow> if is_cont c then (True, 2) else (False, 1) | [] \<Rightarrow> (False, 1))
      else if 0xe0 \<le> b \<and> b \<le> 0xef
      then (case r of [] \<Rightarrow> (False, 1) | c # r' \<Rightarrow>
             if \<not> second_ok b c then (False, 1)
             else (case r' of [] \<Rightarrow> (False, 2) | d # _ \<Rightarrow> if is_cont d then (True, 3) else (False, 2)))
      else if 0xf0 \<le> b \<and> b \<le> 0xf4
      then (case r of [] \<Rightarrow> (False, 1) | c # r' \<Rightarrow>
             if \<not> second_ok b c then (False, 1)
             else (case r' of [] \<Rightarrow> (False, 2) | d # r'' \<Rightarrow>
               if \<not> is_cont d then (False, 2)
               else (case r'' of [] \<Rightarrow> (False, 3) | e # _ \<Rightarrow> if is_cont e then (True, 4) else (False, 3))))
      else (False, 1))"

lemma utf8_step_pos: "0 < snd (utf8_step (b # r))"
  by (auto split: list.splits)

lemma utf8_step_len: "(ok, n) = utf8_step bs \<Longrightarrow> bs = [] \<or> 0 < n"
  by (cases bs) (simp, metis snd_conv utf8_step_pos)

function utf8_lossy :: "bytes \<Rightarrow> bytes" where
  "utf8_lossy bs =
     (if bs = [] then []
      else (case utf8_step bs of (ok, n) \<Rightarrow>
              (if ok then take n bs else [0xef, 0xbf, 0xbd]) @ utf8_lossy (drop n bs)))"
  by pat_completeness auto
termination
  by (relation "measure length") (auto dest!: utf8_step_len intro: diff_less)

function utf8_valid :: "bytes \<Rightarrow> bool" where
  "utf8_valid bs =
     (if bs = [] then True
      else (case utf8_step bs of (ok, n) \<Rightarrow> if ok then utf8_valid (drop n bs) else False))"
  by pat_completeness auto
termination
  by (relation "measure length") (auto dest!: utf8_step_len intro: diff_less)

declare utf8_lossy.simps [simp del] utf8_valid.simps [simp del]

text \<open>\<^verbatim>\<open>str::from_utf8\<close> and \<^verbatim>\<open>String::from_utf8_lossy\<close>.\<close>

definition from_utf8 :: "bytes \<Rightarrow> string option" where
  "from_utf8 bs = (if utf8_valid bs then Some (of_bytes bs) else None)"

definition from_utf8_lossy :: "bytes \<Rightarrow> string" where
  "from_utf8_lossy bs = of_bytes (utf8_lossy bs)"

lemma utf8_valid_Nil [simp]: "utf8_valid []"
  by (subst utf8_valid.simps) simp

lemma utf8_valid_ascii_Cons [simp]: "b < 0x80 \<Longrightarrow> utf8_valid (b # bs) = utf8_valid bs"
  by (subst utf8_valid.simps) simp

lemma utf8_ascii: "\<forall>b \<in> set bs. b < 0x80 \<Longrightarrow> utf8_valid bs"
  by (induction bs) simp_all

text \<open>Valid text is not changed by the lossy conversion.\<close>

lemma utf8_lossy_ascii: "\<forall>b \<in> set a. b < 0x80 \<Longrightarrow> utf8_lossy (a @ r) = a @ utf8_lossy r"
proof (induction a)
  case (Cons b a)
  then show ?case by (subst utf8_lossy.simps) simp
qed simp

lemma utf8_lossy_valid: "utf8_valid bs \<Longrightarrow> utf8_lossy bs = bs"
proof (induction bs rule: utf8_lossy.induct)
  case (1 bs)
  obtain ok n where step: "utf8_step bs = (ok, n)" by fastforce
  show ?case
  proof (cases "bs = []")
    case False
    then have ok: "ok" "utf8_valid (drop n bs)" using "1.prems" step by (subst (asm) utf8_valid.simps, simp split: if_splits)+
    then have "utf8_lossy (drop n bs) = drop n bs" using "1.IH" [OF False step [symmetric]] by simp
    then show ?thesis using False step ok by (subst utf8_lossy.simps) simp
  qed (simp add: utf8_lossy.simps)
qed

subsection \<open>Trimming\<close>

text \<open>The UTF-8 form of each code point with the property White\_Space.\<close>

definition white_space :: "bytes list" where
  "white_space =
     [[0x09], [0x0a], [0x0b], [0x0c], [0x0d], [0x20], [0xc2, 0x85], [0xc2, 0xa0], [0xe1, 0x9a, 0x80],
      [0xe2, 0x80, 0x80], [0xe2, 0x80, 0x81], [0xe2, 0x80, 0x82], [0xe2, 0x80, 0x83], [0xe2, 0x80, 0x84],
      [0xe2, 0x80, 0x85], [0xe2, 0x80, 0x86], [0xe2, 0x80, 0x87], [0xe2, 0x80, 0x88], [0xe2, 0x80, 0x89],
      [0xe2, 0x80, 0x8a], [0xe2, 0x80, 0xa8], [0xe2, 0x80, 0xa9], [0xe2, 0x80, 0xaf], [0xe2, 0x81, 0x9f],
      [0xe3, 0x80, 0x80]]"

definition starts_with :: "string \<Rightarrow> string \<Rightarrow> bool" where
  "starts_with s p \<longleftrightarrow> take (length p) s = p"

definition ends_with :: "string \<Rightarrow> string \<Rightarrow> bool" where
  "ends_with s p \<longleftrightarrow> length p \<le> length s \<and> drop (length s - length p) s = p"

definition leading_space :: "bytes list \<Rightarrow> string \<Rightarrow> nat" where
  "leading_space ws s =
     (case find (\<lambda>w. starts_with s (of_bytes w)) ws of None \<Rightarrow> 0 | Some w \<Rightarrow> length w)"

function trim_start_with :: "bytes list \<Rightarrow> string \<Rightarrow> string" where
  "trim_start_with ws s =
     (let n = leading_space ws s in if 0 < n \<and> s \<noteq> [] then trim_start_with ws (drop n s) else s)"
  by pat_completeness auto
termination
  by (relation "measure (\<lambda>(ws, s). length s)") auto

declare trim_start_with.simps [simp del]

definition trim_start :: "string \<Rightarrow> string" where
  "trim_start s = trim_start_with white_space s"

definition trim_end :: "string \<Rightarrow> string" where
  "trim_end s = rev (trim_start_with (map rev white_space) (rev s))"

definition trim :: "string \<Rightarrow> string" where
  "trim s = trim_end (trim_start s)"

lemma trim_Nil [simp]: "trim [] = []"
  by (simp add: trim_def trim_start_def trim_end_def trim_start_with.simps)

text \<open>Text that starts and ends with a printable ASCII character is not changed.\<close>

definition ascii_graphic :: "char \<Rightarrow> bool" where
  "ascii_graphic c \<longleftrightarrow> 33 \<le> (of_char c :: nat) \<and> (of_char c :: nat) \<le> 126"

lemma no_leading_space:
  assumes "ascii_graphic c" and "\<forall>w \<in> set ws. w \<noteq> [] \<and> \<not> ascii_graphic (char_of (unat (hd w)))"
  shows "leading_space ws (c # cs) = 0" and "trim_start_with ws (c # cs) = c # cs"
proof -
  have "\<not> starts_with (c # cs) (of_bytes w)" if "w \<in> set ws" for w
    using assms that by (cases w) (auto simp: starts_with_def of_bytes_def)
  then have "find (\<lambda>w. starts_with (c # cs) (of_bytes w)) ws = None"
    by (simp add: find_None_iff)
  then show "leading_space ws (c # cs) = 0" by (simp add: leading_space_def)
  then show "trim_start_with ws (c # cs) = c # cs" by (subst trim_start_with.simps) simp
qed

lemma leading_space_graphic: "ascii_graphic c \<Longrightarrow> leading_space white_space (c # cs) = 0"
  by (rule no_leading_space) (simp_all add: white_space_def ascii_graphic_def)

lemma leading_space_space: "leading_space white_space (CHR '' '' # cs) = 1"
  by (simp add: leading_space_def white_space_def starts_with_def of_bytes_def char_of_def bit_0)

lemma trim_start_graphic: "ascii_graphic c \<Longrightarrow> trim_start (c # cs) = c # cs"
  unfolding trim_start_def by (rule no_leading_space) (simp_all add: white_space_def ascii_graphic_def)

lemma trim_end_graphic: "ascii_graphic c \<Longrightarrow> trim_end (cs @ [c]) = cs @ [c]"
  using no_leading_space(2) [of c "map rev white_space" "rev cs"]
  by (simp add: trim_end_def white_space_def ascii_graphic_def)

lemma trim_graphic: "s \<noteq> [] \<Longrightarrow> ascii_graphic (hd s) \<Longrightarrow> ascii_graphic (last s) \<Longrightarrow> trim s = s"
  by (metis trim_def trim_start_graphic trim_end_graphic append_butlast_last_id list.exhaust_sel)

definition trim_end_matches :: "char \<Rightarrow> string \<Rightarrow> string" where
  "trim_end_matches c s = rev (dropWhile (\<lambda>x. x = c) (rev s))"

definition trim_start_matches :: "char \<Rightarrow> string \<Rightarrow> string" where
  "trim_start_matches c s = dropWhile (\<lambda>x. x = c) s"

subsection \<open>Splitting\<close>

fun split_once :: "char \<Rightarrow> string \<Rightarrow> (string \<times> string) option" where
  "split_once c [] = None"
| "split_once c (x # xs) =
     (if x = c then Some ([], xs)
      else (case split_once c xs of None \<Rightarrow> None | Some (a, b) \<Rightarrow> Some (x # a, b)))"

definition rsplit_once :: "char \<Rightarrow> string \<Rightarrow> (string \<times> string) option" where
  "rsplit_once c s = (case split_once c (rev s) of None \<Rightarrow> None | Some (a, b) \<Rightarrow> Some (rev b, rev a))"

lemma split_once_None: "split_once c s = None \<longleftrightarrow> c \<notin> set s"
  by (induction s) (auto split: option.splits)

lemma split_once_append [simp]: "c \<notin> set a \<Longrightarrow> split_once c (a @ c # b) = Some (a, b)"
  by (induction a) auto

lemma split_once_SomeD: "split_once c s = Some (a, b) \<Longrightarrow> s = a @ c # b \<and> c \<notin> set a"
  by (induction s arbitrary: a) (auto split: if_splits option.splits)

lemma split_once_Some: "split_once c s = Some (a, b) \<longleftrightarrow> s = a @ c # b \<and> c \<notin> set a"
  using split_once_SomeD [of c s a b] by auto

lemma rsplit_once_append [simp]: "c \<notin> set b \<Longrightarrow> rsplit_once c (a @ c # b) = Some (a, b)"
  by (simp add: rsplit_once_def)

lemma rsplit_once_SomeD:
  assumes "rsplit_once c s = Some (a, b)"
  shows "s = a @ c # b \<and> c \<notin> set b"
proof -
  have "split_once c (rev s) = Some (rev b, rev a)"
    using assms by (auto simp: rsplit_once_def split: option.splits)
  then have "rev s = rev b @ c # rev a" and fresh: "c \<notin> set (rev b)"
    using split_once_SomeD by fast+
  then have "rev (rev s) = rev (rev b @ c # rev a)" by simp
  with fresh show ?thesis by simp
qed

text \<open>\<^verbatim>\<open>split(sep)\<close> for a separator string; at least one piece.\<close>

function split_on :: "string \<Rightarrow> string \<Rightarrow> string \<Rightarrow> string list" where
  "split_on sep acc s =
     (case s of
        [] \<Rightarrow> [rev acc]
      | c # cs \<Rightarrow>
          if sep \<noteq> [] \<and> starts_with s sep then rev acc # split_on sep [] (drop (length sep) s)
          else split_on sep (c # acc) cs)"
  by pat_completeness auto
termination
  by (relation "measure (\<lambda>(sep, acc, s). length s)") auto

declare split_on.simps [simp del]

text \<open>\<^verbatim>\<open>split([..])\<close> at every character of a set, and \<^verbatim>\<open>lines()\<close>.\<close>

fun split_chars :: "(char \<Rightarrow> bool) \<Rightarrow> string \<Rightarrow> string list" where
  "split_chars P [] = [[]]"
| "split_chars P (c # s) =
     (if P c then [] # split_chars P s
      else (case split_chars P s of [] \<Rightarrow> [[c]] | l # ls \<Rightarrow> (c # l) # ls))"

definition strip_cr :: "string \<Rightarrow> string" where
  "strip_cr l = (if l \<noteq> [] \<and> last l = CHR 0x0D then butlast l else l)"

definition str_lines :: "string \<Rightarrow> string list" where
  "str_lines s =
     (let ps = split_chars (\<lambda>c. c = CHR 0x0A) s
      in map strip_cr (butlast ps) @ (if last ps = [] then [] else [last ps]))"

definition contains :: "string \<Rightarrow> string \<Rightarrow> bool" where
  "contains s p \<longleftrightarrow> (\<exists>i \<in> set [0..<Suc (length s)]. starts_with (drop i s) p)"

definition find_str :: "string \<Rightarrow> string \<Rightarrow> nat option" where
  "find_str s p = find (\<lambda>i. starts_with (drop i s) p) [0..<Suc (length s)]"

definition strip_prefix :: "string \<Rightarrow> string \<Rightarrow> string option" where
  "strip_prefix s p = (if starts_with s p then Some (drop (length p) s) else None)"

definition split_once_str :: "string \<Rightarrow> string \<Rightarrow> (string \<times> string) option" where
  "split_once_str sep s = map_option (\<lambda>i. (take i s, drop (i + length sep) s)) (find_str s sep)"

lemma find_str_first:
  assumes "x \<notin> set a"
  shows "find_str (a @ (x # xs) @ b) (x # xs) = Some (length a)"
proof -
  let ?s = "a @ (x # xs) @ b"
  have "\<not> starts_with (drop j ?s) (x # xs)" if "j < length a" for j
  proof -
    have "a ! j \<noteq> x" using assms that by (metis nth_mem)
    moreover have "drop j ?s = a ! j # drop (Suc j) ?s"
      using that by (simp add: Cons_nth_drop_Suc [symmetric] nth_append)
    ultimately show ?thesis by (simp add: starts_with_def)
  qed
  then show ?thesis
    by (simp add: find_str_def find_upt_Some del: upt_Suc) (simp add: starts_with_def)
qed

lemma split_once_str_first: "x \<notin> set a \<Longrightarrow> split_once_str (x # xs) (a @ (x # xs) @ b) = Some (a, b)"
  using find_str_first [of x a xs b] by (simp add: split_once_str_def)

lemma contains_char: "contains s [c] \<longleftrightarrow> c \<in> set s"
proof -
  have "starts_with (drop i s) [c] \<longleftrightarrow> i < length s \<and> s ! i = c" for i
    by (cases "i < length s") (auto simp: starts_with_def Cons_nth_drop_Suc [symmetric])
  then show ?thesis by (auto simp: contains_def in_set_conv_nth simp del: upt_Suc)
qed

text \<open>\<^verbatim>\<open>split_whitespace\<close>: the pieces between runs of white space.\<close>

function split_ws :: "string \<Rightarrow> string \<Rightarrow> string list" where
  "split_ws acc s =
     (case s of
        [] \<Rightarrow> [rev acc]
      | c # cs \<Rightarrow>
          let n = leading_space white_space s
          in if 0 < n then rev acc # split_ws [] (drop n s) else split_ws (c # acc) cs)"
  by pat_completeness auto
termination
  by (relation "measure (\<lambda>(acc, s). length s)") auto

declare split_ws.simps [simp del]

definition split_whitespace :: "string \<Rightarrow> string list" where
  "split_whitespace s = filter (\<lambda>p. p \<noteq> []) (split_ws [] s)"

lemma split_ws_word:
  "list_all ascii_graphic w \<Longrightarrow> split_ws acc (w @ CHR '' '' # r) = (rev acc @ w) # split_ws [] r"
proof (induction w arbitrary: acc)
  case Nil
  show ?case by (subst split_ws.simps) (simp add: leading_space_space Let_def)
next
  case (Cons c w)
  then show ?case by (subst split_ws.simps) (simp add: leading_space_graphic Let_def)
qed

lemma split_ws_last: "list_all ascii_graphic w \<Longrightarrow> split_ws acc w = [rev acc @ w]"
proof (induction w arbitrary: acc)
  case Nil
  show ?case by (subst split_ws.simps) simp
next
  case (Cons c w)
  then show ?case by (subst split_ws.simps) (simp add: leading_space_graphic Let_def)
qed

lemma split_whitespace_3:
  assumes "list_all (\<lambda>w. w \<noteq> [] \<and> list_all ascii_graphic w) [a, b, c]"
  shows "split_whitespace (a @ '' '' @ b @ '' '' @ c) = [a, b, c]"
  using assms by (simp add: split_whitespace_def split_ws_word split_ws_last)

subsection \<open>Numbers\<close>

fun digit_val :: "nat \<Rightarrow> char \<Rightarrow> nat option" where
  "digit_val radix c =
     (let n = (of_char c :: nat);
          v = (if ascii_digit c then Some (n - 48)
               else if ascii_lower c then Some (n - 87)
               else if ascii_upper c then Some (n - 55) else None)
      in case v of None \<Rightarrow> None | Some d \<Rightarrow> if d < radix then Some d else None)"

declare digit_val.simps [simp del]

fun parse_digits :: "nat \<Rightarrow> string \<Rightarrow> nat option" where
  "parse_digits acc [] = Some acc"
| "parse_digits acc (c # cs) =
     (case digit_val 10 c of None \<Rightarrow> None | Some d \<Rightarrow> parse_digits (10 * acc + d) cs)"

text \<open>
  \<^verbatim>\<open>parse\<close> of an unsigned integer with the largest value \<open>m\<close>: a plus sign is allowed, the digits are
  not empty, too large a value is an error.
\<close>

definition parse_uint :: "nat \<Rightarrow> string \<Rightarrow> nat option" where
  "parse_uint m s =
     (let ds = (case s of c # d # r \<Rightarrow> if c = CHR ''+'' then d # r else s | _ \<Rightarrow> s)
      in if ds = [] then None
         else (case parse_digits 0 ds of None \<Rightarrow> None | Some n \<Rightarrow> if n \<le> m then Some n else None))"

text \<open>Decimal numbers are read back.\<close>

lemma of_char_digit: "d < 10 \<Longrightarrow> of_char (digit_char d) = 48 + d"
  by (simp add: digit_char_def)

lemma digit_val_digit_char: "d < 10 \<Longrightarrow> digit_val 10 (digit_char d) = Some d"
  by (simp add: digit_val.simps ascii_digit_def of_char_digit)

lemma parse_digits_snoc:
  "parse_digits acc (ds @ [c]) =
     (case parse_digits acc ds of None \<Rightarrow> None | Some n \<Rightarrow> (case digit_val 10 c of None \<Rightarrow> None | Some d \<Rightarrow> Some (10 * n + d)))"
  by (induction ds arbitrary: acc) (simp_all split: option.split)

lemma parse_digits_nat_dec: "parse_digits 0 (nat_dec n) = Some n"
proof (induction n rule: nat_dec.induct)
  case (1 n)
  show ?case
  proof (cases "n < 10")
    case True
    then show ?thesis by (simp add: nat_dec.simps digit_val_digit_char)
  next
    case False
    then have "parse_digits 0 (nat_dec (n div 10)) = Some (n div 10)" using 1 by simp
    then show ?thesis using False
      by (subst nat_dec.simps) (simp add: parse_digits_snoc digit_val_digit_char)
  qed
qed

lemma nat_dec_chars: "c \<in> set (nat_dec n) \<Longrightarrow> \<exists>d < 10. c = digit_char d"
proof (induction n rule: nat_dec.induct)
  case (1 n)
  then show ?case
    by (cases "n < 10") (subst (asm) (2) nat_dec.simps, auto intro: exI [of _ "n mod 10"])+
qed

lemma nat_dec_nonempty [simp]: "nat_dec n \<noteq> []"
  by (subst nat_dec.simps) simp

lemma nat_dec_digit: "c \<in> set (nat_dec n) \<Longrightarrow> ascii_digit c"
  using nat_dec_chars [of c n] by (auto simp: ascii_digit_def of_char_digit)

lemma parse_uint_nat_dec: "n \<le> m \<Longrightarrow> parse_uint m (nat_dec n) = Some n"
proof -
  assume "n \<le> m"
  have "CHR ''+'' \<notin> set (nat_dec n)" using nat_dec_digit [of "CHR ''+''" n] by (auto simp: ascii_digit_def)
  then have "(case nat_dec n of c # d # r \<Rightarrow> if c = CHR ''+'' then d # r else nat_dec n | _ \<Rightarrow> nat_dec n) = nat_dec n"
    by (auto split: list.split)
  then show ?thesis using \<open>n \<le> m\<close> by (simp add: parse_uint_def Let_def parse_digits_nat_dec)
qed

end
