(* ===== verification/Ip_Text.thy ===== *)
theory Ip_Text
  imports Text
begin

text \<open>
  Reading IP addresses from text, the parser of \<^verbatim>\<open>core::net\<close> that \<^verbatim>\<open>str::parse\<close> uses for
  \<^verbatim>\<open>Ipv4Addr\<close>, \<^verbatim>\<open>Ipv6Addr\<close> and \<^verbatim>\<open>IpAddr\<close>. A reader takes the text that is left and
  returns a value and the rest; when it fails, nothing is consumed.
\<close>

type_synonym 'a reader = "string \<Rightarrow> ('a \<times> string) option"

definition read_given_char :: "char \<Rightarrow> unit reader" where
  "read_given_char c s = (case s of [] \<Rightarrow> None | x # r \<Rightarrow> if x = c then Some ((), r) else None)"

definition read_separator :: "char \<Rightarrow> nat \<Rightarrow> 'a reader \<Rightarrow> 'a reader" where
  "read_separator sep i f s =
     (if 0 < i then (case read_given_char sep s of None \<Rightarrow> None | Some (_, r) \<Rightarrow> f r) else f s)"

text \<open>The digits in front, and their value.\<close>

fun read_digits :: "nat \<Rightarrow> nat \<Rightarrow> nat \<Rightarrow> string \<Rightarrow> nat \<times> nat \<times> string" where
  "read_digits radix n acc [] = (n, acc, [])"
| "read_digits radix n acc (c # cs) =
     (case digit_val radix c of
        None \<Rightarrow> (n, acc, c # cs)
      | Some d \<Rightarrow> read_digits radix (Suc n) (acc * radix + d) cs)"

text \<open>
  \<^verbatim>\<open>read_number\<close>: at most so many digits when there is a limit, a value of the result type, and
  no leading zero where none is allowed.
\<close>

definition read_number :: "nat \<Rightarrow> nat option \<Rightarrow> bool \<Rightarrow> nat \<Rightarrow> nat reader" where
  "read_number radix max_digits allow_zero_prefix max_value s =
     (case read_digits radix 0 0 s of (n, v, r) \<Rightarrow>
        if (case max_digits of None \<Rightarrow> False | Some k \<Rightarrow> k < n) then None
        else if n = 0 then None
        else if \<not> allow_zero_prefix \<and> take 1 s = ''0'' \<and> 1 < n then None
        else if max_value < v then None
        else Some (v, r))"

definition read_octet :: "nat \<Rightarrow> nat reader" where
  "read_octet i = read_separator (CHR ''.'') i (read_number 10 (Some 3) False 255)"

definition read_ipv4_addr :: "ipv4_addr reader" where
  "read_ipv4_addr s =
     do { (a, s1) \<leftarrow> read_octet 0 s;
          (b, s2) \<leftarrow> read_octet 1 s1;
          (c, s3) \<leftarrow> read_octet 2 s2;
          (d, s4) \<leftarrow> read_octet 3 s3;
          Some (v4_new (of_nat a) (of_nat b) (of_nat c) (of_nat d), s4) }"

text \<open>
  \<^verbatim>\<open>read_groups\<close>: group \<open>i\<close> of at most \<open>lim\<close>, with \<open>k\<close> groups still to read; the groups read, and
  whether the last two are an IPv4 address.
\<close>

fun read_groups :: "nat \<Rightarrow> nat \<Rightarrow> nat \<Rightarrow> string \<Rightarrow> (u16 list \<times> bool) \<times> string" where
  "read_groups lim i 0 s = (([], False), s)"
| "read_groups lim i (Suc k) s =
     (case (if i < lim - 1 then read_separator (CHR '':'') i read_ipv4_addr s else None) of
        Some (a, r) \<Rightarrow> (([be_word (take 2 (v4_octets a)), be_word (drop 2 (v4_octets a))], True), r)
      | None \<Rightarrow>
          (case read_separator (CHR '':'') i (read_number 16 (Some 4) True 65535) s of
             None \<Rightarrow> (([], False), s)
           | Some (g, r) \<Rightarrow>
               (case read_groups lim (Suc i) k r of ((gs, v4), r') \<Rightarrow> ((of_nat g # gs, v4), r'))))"

definition v6_of_groups :: "u16 list \<Rightarrow> ipv6_addr" where
  "v6_of_groups gs = be_word (concat (map (word_be 2) gs))"

definition read_ipv6_addr :: "ipv6_addr reader" where
  "read_ipv6_addr s =
     (case read_groups 8 0 8 s of ((h, h4), r) \<Rightarrow>
        if length h = 8 then Some (v6_of_groups h, r)
        else if h4 then None
        else do { (_, r1) \<leftarrow> read_given_char (CHR '':'') r;
                  (_, r2) \<leftarrow> read_given_char (CHR '':'') r1;
                  let lim = 8 - (length h + 1);
                  let ((t, _), r3) = read_groups lim 0 lim r2;
                  Some (v6_of_groups (h @ replicate (8 - length h - length t) 0 @ t), r3) })"

definition whole :: "'a reader \<Rightarrow> string \<Rightarrow> 'a option" where
  "whole f s = (case f s of Some (a, []) \<Rightarrow> Some a | _ \<Rightarrow> None)"

definition parse_ipv4 :: "string \<Rightarrow> ipv4_addr option" where
  "parse_ipv4 s = (if 15 < length s then None else whole read_ipv4_addr s)"

definition parse_ipv6 :: "string \<Rightarrow> ipv6_addr option" where
  "parse_ipv6 s = whole read_ipv6_addr s"

definition read_ip_addr :: "ip_addr reader" where
  "read_ip_addr s =
     (case read_ipv4_addr s of
        Some (a, r) \<Rightarrow> Some (V4 a, r)
      | None \<Rightarrow> map_option (map_prod V6 id) (read_ipv6_addr s))"

definition parse_ip :: "string \<Rightarrow> ip_addr option" where
  "parse_ip s = whole read_ip_addr s"

text \<open>Socket addresses; the scope id of an IPv6 address is read and not kept.\<close>

definition read_port :: "u16 reader" where
  "read_port s =
     do { (_, r) \<leftarrow> read_given_char (CHR '':'') s;
          (p, r') \<leftarrow> read_number 10 None True 65535 r;
          Some (of_nat p, r') }"

definition skip_scope_id :: "unit reader" where
  "skip_scope_id s =
     (case (do { (_, r) \<leftarrow> read_given_char (CHR ''%'') s; read_number 10 None True 4294967295 r }) of
        Some (_, r) \<Rightarrow> Some ((), r)
      | None \<Rightarrow> Some ((), s))"

definition read_socket_addr :: "socket_addr reader" where
  "read_socket_addr s =
     (case (do { (a, r) \<leftarrow> read_ipv4_addr s; (p, r') \<leftarrow> read_port r; Some (\<lparr>sa_ip = V4 a, sa_port = p\<rparr>, r') }) of
        Some x \<Rightarrow> Some x
      | None \<Rightarrow>
          do { (_, r1) \<leftarrow> read_given_char (CHR ''['') s;
               (a, r2) \<leftarrow> read_ipv6_addr r1;
               (_, r3) \<leftarrow> skip_scope_id r2;
               (_, r4) \<leftarrow> read_given_char (CHR '']'') r3;
               (p, r5) \<leftarrow> read_port r4;
               Some (\<lparr>sa_ip = V6 a, sa_port = p\<rparr>, r5) })"

definition parse_socket_addr :: "string \<Rightarrow> socket_addr option" where
  "parse_socket_addr s = whole read_socket_addr s"

subsection \<open>Printing\<close>

text \<open>What \<^verbatim>\<open>to_string\<close> gives; the longest run of at least two zero groups of an IPv6 address is shortened.\<close>

fun join :: "string \<Rightarrow> string list \<Rightarrow> string" where
  "join sep [] = []"
| "join sep [x] = x"
| "join sep (x # xs) = x @ sep @ join sep xs"

definition hex_char :: "nat \<Rightarrow> char" where
  "hex_char d = (if d < 10 then char_of (48 + d) else char_of (87 + d))"

fun nat_hex :: "nat \<Rightarrow> string" where
  "nat_hex n = (if n < 16 then [hex_char n] else nat_hex (n div 16) @ [hex_char (n mod 16)])"

declare nat_hex.simps [simp del]

definition v4_to_string :: "ipv4_addr \<Rightarrow> string" where
  "v4_to_string a = join ''.'' (map (\<lambda>b. nat_dec (unat b)) (v4_octets a))"

fun pair_up :: "bytes \<Rightarrow> u16 list" where
  "pair_up (a # b # r) = be_word [a, b] # pair_up r"
| "pair_up r = []"

definition v6_segments :: "ipv6_addr \<Rightarrow> u16 list" where
  "v6_segments a = pair_up (v6_octets a)"

definition v6_to_ipv4_mapped :: "ipv6_addr \<Rightarrow> ipv4_addr option" where
  "v6_to_ipv4_mapped a =
     (if take 12 (v6_octets a) = replicate 10 0 @ [0xff, 0xff] then Some (be_word (drop 12 (v6_octets a))) else None)"

fun zero_run :: "u16 list \<Rightarrow> nat \<Rightarrow> nat \<times> nat \<Rightarrow> nat \<times> nat \<Rightarrow> nat \<times> nat" where
  "zero_run [] i cur best = best"
| "zero_run (g # gs) i cur best =
     (if g = 0 then
        (let cur = (if snd cur = 0 then i else fst cur, snd cur + 1)
         in zero_run gs (i + 1) cur (if snd best < snd cur then cur else best))
      else zero_run gs (i + 1) (0, 0) best)"

definition v6_to_string :: "ipv6_addr \<Rightarrow> string" where
  "v6_to_string a =
     (case v6_to_ipv4_mapped a of
        Some v4 \<Rightarrow> ''::ffff:'' @ v4_to_string v4
      | None \<Rightarrow>
          (let gs = v6_segments a; hex = (\<lambda>l. join '':'' (map (\<lambda>g. nat_hex (unat g)) l))
           in case zero_run gs 0 (0, 0) (0, 0) of (start, n) \<Rightarrow>
                if 1 < n then hex (take start gs) @ ''::'' @ hex (drop (start + n) gs) else hex gs))"

definition ip_to_string :: "ip_addr \<Rightarrow> string" where
  "ip_to_string a = (case a of V4 v \<Rightarrow> v4_to_string v | V6 v \<Rightarrow> v6_to_string v)"

definition socket_addr_to_string :: "socket_addr \<Rightarrow> string" where
  "socket_addr_to_string a =
     (case sa_ip a of
        V4 v \<Rightarrow> v4_to_string v @ '':'' @ nat_dec (unat (sa_port a))
      | V6 v \<Rightarrow> ''['' @ v6_to_string v @ '']:'' @ nat_dec (unat (sa_port a)))"

subsection \<open>Examples\<close>

lemma v4_octets_4: "v4_octets a = [ucast (drop_bit 24 a), ucast (drop_bit 16 a), ucast (drop_bit 8 a), ucast a]"
  by (simp add: v4_octets_def numeral_eq_Suc)

lemmas read_groups_numeral = read_groups.simps(2) [of _ _ "pred_numeral k" for k, folded numeral_eq_Suc]

lemmas replicate_numeral = replicate.simps(2) [of "pred_numeral k" for k, folded numeral_eq_Suc]

lemmas ip_read = digit_val.simps ascii_digit_def ascii_lower_def ascii_upper_def read_octet_def
  read_separator_def read_number_def read_given_char_def read_ipv4_addr_def read_ipv6_addr_def
  read_ip_addr_def parse_ipv4_def v4_octets_4 parse_ipv6_def parse_ip_def whole_def v4_new_def be_word_def
  v6_of_groups_def replicate_numeral read_groups_numeral

lemma parse_ipv4_example: "parse_ipv4 ''10.0.0.1'' = Some 0x0a000001"
  by (simp add: ip_read)

lemma parse_ipv6_example: "parse_ipv6 ''fe80::1'' = Some 0xfe800000000000000000000000000001"
  by (simp add: ip_read word_be_2)

lemma parse_ipv6_mapped: "parse_ipv6 ''::ffff:1.2.3.4'' = Some 0xffff01020304"
  by (simp add: ip_read word_be_2)

lemma parse_ip_bad: "parse_ip ''1.2.3'' = None" "parse_ip ''01.2.3.4'' = None" "parse_ip ''1::2::3'' = None"
  by (simp_all add: ip_read word_be_2)

end
