(* ===== verification/Sniff.thy ===== *)
theory Sniff
  imports Ip_Text
begin

text \<open>
  \<^verbatim>\<open>sniff.rs\<close>: the host name a connection asks for, read from its first bytes, a TLS ClientHello
  or an HTTP/1 request head. Every read is bounds-checked; a malformed or truncated prefix gives
  None.
\<close>

subsection \<open>Constants and integer readers\<close>

definition TLS_HANDSHAKE :: u8 where "TLS_HANDSHAKE = 0x16"
definition TLS_CLIENT_HELLO :: u8 where "TLS_CLIENT_HELLO = 0x01"
definition EXT_SERVER_NAME :: nat where "EXT_SERVER_NAME = 0"
definition SNI_HOST_NAME :: u8 where "SNI_HOST_NAME = 0"
definition MAX_HOST_LEN :: nat where "MAX_HOST_LEN = 253"
definition PEEK_BUDGET :: nat where "PEEK_BUDGET = 4096"

definition be16 :: "bytes \<Rightarrow> usize \<Rightarrow> usize option" where
  "be16 buf p =
     do { hi \<leftarrow> get_at buf p;
          lo \<leftarrow> get_at buf (p + 1);
          Some (push_bit 8 (unat hi) OR unat lo) }"

definition be24 :: "bytes \<Rightarrow> usize \<Rightarrow> usize option" where
  "be24 buf p =
     do { a \<leftarrow> get_at buf p;
          b \<leftarrow> get_at buf (p + 1);
          c \<leftarrow> get_at buf (p + 2);
          Some (push_bit 16 (unat a) OR push_bit 8 (unat b) OR unat c) }"

subsection \<open>Host names\<close>

definition host_byte :: "char \<Rightarrow> bool" where
  "host_byte c \<longleftrightarrow> ascii_alphanumeric c \<or> c = CHR ''-'' \<or> c = CHR ''.'' \<or> c = CHR ''_''"

definition plausible_host :: "bytes \<Rightarrow> string option" where
  "plausible_host raw =
     (if raw = [] \<or> MAX_HOST_LEN < length raw then None
      else do {
        text \<leftarrow> from_utf8 raw;
        let name = trim_end_matches (CHR ''.'') (trim text);
        if name = [] \<or> MAX_HOST_LEN < length name then None
        else if \<not> list_all host_byte name \<or> CHR ''.'' \<notin> set name then None
        else if parse_ip name \<noteq> None then None
        else Some (to_lowercase name) })"

subsection \<open>The server name of a ClientHello\<close>

function sni_entries :: "bytes \<Rightarrow> usize \<Rightarrow> usize \<Rightarrow> string option" where
  "sni_entries data list_end p =
     (if p + 3 \<le> list_end then
        (case get_at data p of
           None \<Rightarrow> None
         | Some kind \<Rightarrow>
             (case be16 data (p + 1) of
                None \<Rightarrow> None
              | Some len \<Rightarrow>
                  (case checked_add (p + 3) len of
                     None \<Rightarrow> None
                   | Some stop \<Rightarrow>
                       if list_end < stop then None
                       else if kind = SNI_HOST_NAME
                       then do { raw \<leftarrow> get_range data (p + 3) stop; plausible_host raw }
                       else sni_entries data list_end stop)))
      else None)"
  by pat_completeness auto
termination
  by (relation "measure (\<lambda>(data, list_end, p). list_end - p)") (auto simp: checked_add_Some_iff)

definition first_server_name :: "bytes \<Rightarrow> string option" where
  "first_server_name data =
     do { list_len \<leftarrow> be16 data 0;
          stop \<leftarrow> checked_add 2 list_len;
          sni_entries data (min stop (length data)) 2 }"

function sni_extensions :: "bytes \<Rightarrow> usize \<Rightarrow> usize \<Rightarrow> string option" where
  "sni_extensions hello extensions_end p =
     (if p + 4 \<le> extensions_end then
        (case be16 hello p of
           None \<Rightarrow> None
         | Some kind \<Rightarrow>
             (case be16 hello (p + 2) of
                None \<Rightarrow> None
              | Some len \<Rightarrow>
                  (case checked_add (p + 4) len of
                     None \<Rightarrow> None
                   | Some data_end \<Rightarrow>
                       if extensions_end < data_end then None
                       else if kind = EXT_SERVER_NAME
                       then do { data \<leftarrow> get_range hello (p + 4) data_end; first_server_name data }
                       else sni_extensions hello extensions_end data_end)))
      else None)"
  by pat_completeness auto
termination
  by (relation "measure (\<lambda>(hello, extensions_end, p). extensions_end - p)") (auto simp: checked_add_Some_iff)

declare sni_entries.simps [simp del] sni_extensions.simps [simp del]

definition tls_sni :: "bytes \<Rightarrow> string option" where
  "tls_sni buf =
     do { b0 \<leftarrow> get_at buf 0;
          if b0 \<noteq> TLS_HANDSHAKE then None else do {
          record_len \<leftarrow> be16 buf 3;
          record_stop \<leftarrow> checked_add 5 record_len;
          body \<leftarrow> get_range buf 5 (min record_stop (length buf));
          h0 \<leftarrow> get_at body 0;
          if h0 \<noteq> TLS_CLIENT_HELLO then None else do {
          hello_len \<leftarrow> be24 body 1;
          hello_stop \<leftarrow> checked_add 4 hello_len;
          hello \<leftarrow> get_range body 4 (min hello_stop (length body));
          session_len \<leftarrow> get_at hello (2 + 32);
          p1 \<leftarrow> checked_add (2 + 32) (1 + unat session_len);
          cipher_len \<leftarrow> be16 hello p1;
          p2 \<leftarrow> checked_add p1 (2 + cipher_len);
          compression_len \<leftarrow> get_at hello p2;
          p3 \<leftarrow> checked_add p2 (1 + unat compression_len);
          extensions_len \<leftarrow> be16 hello p3;
          p4 \<leftarrow> checked_add p3 2;
          stop \<leftarrow> checked_add p4 extensions_len;
          sni_extensions hello (min stop (length hello)) p4 } } }"

subsection \<open>The Host header of an HTTP/1 request\<close>

definition HTTP_METHODS :: "string list" where
  "HTTP_METHODS =
     [''GET '', ''POST '', ''PUT '', ''HEAD '', ''DELETE '', ''OPTIONS '', ''PATCH '', ''TRACE '', ''CONNECT '']"

definition looks_like_http :: "string \<Rightarrow> bool" where
  "looks_like_http line \<longleftrightarrow>
     list_ex (\<lambda>m. starts_with line m) HTTP_METHODS \<and> contains line ''HTTP/''"

definition without_port :: "string \<Rightarrow> string" where
  "without_port value =
     (case rsplit_once (CHR '':'') value of
        Some (host, port) \<Rightarrow> if list_all ascii_digit port then host else value
      | None \<Rightarrow> value)"

fun host_header :: "string list \<Rightarrow> string option" where
  "host_header [] = None"
| "host_header (line # lines) =
     (if line = [] then None
      else (case split_once (CHR '':'') line of
              None \<Rightarrow> host_header lines
            | Some (name, value) \<Rightarrow>
                if \<not> eq_ignore_ascii_case name ''host'' then host_header lines
                else plausible_host (as_bytes (without_port (trim value)))))"

definition crlf :: string where
  "crlf = [CHR 0x0D, CHR 0x0A]"

definition http_host :: "bytes \<Rightarrow> string option" where
  "http_host buf =
     do { head \<leftarrow> get_range buf 0 (min (length buf) PEEK_BUDGET);
          case split_on crlf [] (from_utf8_lossy head) of
            [] \<Rightarrow> None
          | request_line # lines \<Rightarrow>
              if \<not> looks_like_http request_line then None else host_header lines }"

definition hostname :: "bytes \<Rightarrow> string option" where
  "hostname buf = (case tls_sni buf of Some h \<Rightarrow> Some h | None \<Rightarrow> http_host buf)"

end
