(* ===== verification/Tls_Hello.thy ===== *)
theory Tls_Hello
  imports Sniff
begin

text \<open>
  A TLS ClientHello as RFC 8446 and RFC 6066 lay it out, with every length field consistent: the
  reference against which the two readers of the engine (\<^verbatim>\<open>sniff::tls_sni\<close> and
  \<^verbatim>\<open>fragment::sni_host_range\<close>) are proved. Here \<^verbatim>\<open>tls_sni\<close> is shown to find the server name.
\<close>

record client_hello =
  ch_version :: bytes
  ch_random :: bytes
  ch_session :: bytes
  ch_ciphers :: bytes
  ch_compression :: bytes
  ch_before :: "(u16 \<times> bytes) list"
  ch_host :: bytes
  ch_after :: "(u16 \<times> bytes) list"

definition ext_bytes :: "u16 \<times> bytes \<Rightarrow> bytes" where
  "ext_bytes e = word_be 2 (fst e) @ word_be 2 (of_nat (length (snd e)) :: u16) @ snd e"

definition sni_body :: "bytes \<Rightarrow> bytes" where
  "sni_body host = word_be 2 (of_nat (length host + 3) :: u16) @ [0] @ word_be 2 (of_nat (length host) :: u16) @ host"

definition exts_bytes :: "(u16 \<times> bytes) list \<Rightarrow> bytes" where
  "exts_bytes es = concat (map ext_bytes es)"

definition ch_exts :: "client_hello \<Rightarrow> bytes" where
  "ch_exts h = exts_bytes (ch_before h) @ ext_bytes (0, sni_body (ch_host h)) @ exts_bytes (ch_after h)"

text \<open>What stands in front of the extensions.\<close>

definition ch_prefix :: "client_hello \<Rightarrow> bytes" where
  "ch_prefix h =
     (ch_version h @ ch_random h) @ [of_nat (length (ch_session h))] @ ch_session h
       @ word_be 2 (of_nat (length (ch_ciphers h)) :: u16) @ ch_ciphers h
       @ [of_nat (length (ch_compression h))] @ ch_compression h"

definition ch_body :: "client_hello \<Rightarrow> bytes" where
  "ch_body h = ch_prefix h @ word_be 2 (of_nat (length (ch_exts h)) :: u16) @ ch_exts h"

definition ch_record :: "bytes \<Rightarrow> client_hello \<Rightarrow> bytes" where
  "ch_record ver h =
     0x16 # ver @ word_be 2 (of_nat (length (ch_body h) + 4) :: u16)
       @ 0x01 # word_be 3 (of_nat (length (ch_body h)) :: u32) @ ch_body h"

text \<open>The sizes the format allows, and one server name extension.\<close>

definition ch_wf :: "client_hello \<Rightarrow> bool" where
  "ch_wf h \<longleftrightarrow>
     length (ch_version h) = 2 \<and> length (ch_random h) = 32 \<and> length (ch_session h) < 256
     \<and> length (ch_ciphers h) < 65536 \<and> length (ch_compression h) < 256
     \<and> list_all (\<lambda>e. fst e \<noteq> 0 \<and> length (snd e) < 65536) (ch_before h)
     \<and> ch_host h \<noteq> [] \<and> length (ch_body h) + 4 < 65536"

subsection \<open>Reading a field behind a known prefix\<close>

lemma unat_of_nat_u16: "n < 65536 \<Longrightarrow> unat (of_nat n :: u16) = n"
  by (simp add: unsigned_of_nat take_bit_nat_eq_self)

lemma unat_of_nat_u8: "n < 256 \<Longrightarrow> unat (of_nat n :: u8) = n"
  by (simp add: unsigned_of_nat take_bit_nat_eq_self)

lemma be16_be_nat: "be16 buf p = map_option be_nat (get_range buf p (p + 2))"
proof (cases "p + 2 \<le> length buf")
  case True
  then have "take 2 (drop p buf) = [buf ! p, buf ! (p + 1)]"
    by (simp add: Cons_nth_drop_Suc [symmetric] numeral_2_eq_2)
  with True show ?thesis
    by (simp add: be16_def get_at_def get_range_def be_nat_2 push_or_byte_nat)
next
  case False
  then show ?thesis by (auto simp: be16_def get_at_def get_range_def)
qed

lemma be16_behind [simp]:
  assumes "p = length xs"
  shows "be16 (xs @ word_be 2 w @ ys) p = Some (unat (w :: u16))"
  using get_range_append_mid [of xs "word_be 2 w" ys] by (simp add: be16_be_nat assms)

lemma be24_behind:
  assumes "p = length xs" and "unat w < 2 ^ 24"
  shows "be24 (xs @ word_be 3 (w :: u32) @ ys) p = Some (unat w)"
proof -
  obtain a b c where abc: "word_be 3 w = [a, b, c]"
    by (simp add: numeral_3_eq_3)
  have "be_nat [a, b, c] = unat w"
    using be_nat_word_be [of 3 w] assms(2) by (simp add: abc take_bit_nat_eq_self)
  moreover have "be_nat [a, b, c] = push_bit 16 (unat a) OR push_bit 8 (unat b) OR unat c"
    by (simp add: be_nat_def push_bit_or or.assoc)
  ultimately show ?thesis
    using assms(1) by (simp add: be24_def abc get_at_def nth_append)
qed

lemma get_at_behind [simp]: "p = length xs \<Longrightarrow> get_at (xs @ y # ys) p = Some y"
  by (simp add: get_at_def)

lemma length_ext_bytes [simp]: "length (ext_bytes e) = 4 + length (snd e)"
  by (simp add: ext_bytes_def)

lemma length_sni_body [simp]: "length (sni_body host) = 5 + length host"
  by (simp add: sni_body_def)

lemma length_ch_prefix:
  "ch_wf h \<Longrightarrow> length (ch_prefix h) = 38 + length (ch_session h) + length (ch_ciphers h) + length (ch_compression h)"
  by (simp add: ch_prefix_def ch_wf_def)

subsection \<open>The server name list\<close>

lemma first_server_name_sni_body:
  assumes "length host + 5 < 65536"
  shows "first_server_name (sni_body host) = plausible_host host"
proof -
  let ?n = "length host"
  let ?d = "sni_body host"
  have len: "be16 ?d 0 = Some (?n + 3)"
    using be16_behind [of 0 "[]" "of_nat (?n + 3)"] assms
    by (simp add: sni_body_def unat_of_nat_u16 del: of_nat_add)
  have kind: "get_at ?d 2 = Some 0"
    using get_at_behind [of 2 "word_be 2 (of_nat (?n + 3) :: u16)"] by (simp add: sni_body_def)
  have hlen: "be16 ?d 3 = Some ?n"
    using be16_behind [of 3 "word_be 2 (of_nat (?n + 3) :: u16) @ [0]" "of_nat ?n :: u16" host] assms
    by (simp add: sni_body_def unat_of_nat_u16)
  have host: "get_range ?d 5 (5 + ?n) = Some host"
    by (simp add: sni_body_def get_range_def)
  show ?thesis
    using assms
    by (simp add: first_server_name_def len sni_entries.simps [of _ _ 2] kind hlen host checked_add_def
        usize_max_def SNI_HOST_NAME_def)
qed

subsection \<open>The extensions\<close>

text \<open>
  A loop over type-length-value fields that passes over the fields it does not look for. Three
  parsers of the engine have this shape; the law is one iteration, the lemma the whole run.
\<close>

locale tlv_scan =
  fixes scan :: "bytes \<Rightarrow> usize \<Rightarrow> usize \<Rightarrow> 'r" and wanted :: u16
  assumes step: "fst e \<noteq> wanted \<Longrightarrow> length (snd e) < 65536 \<Longrightarrow> stop < 2 ^ 32 \<Longrightarrow>
    length pre + 4 + length (snd e) \<le> stop \<Longrightarrow>
    scan (pre @ ext_bytes e @ rest) stop (length pre)
      = scan (pre @ ext_bytes e @ rest) stop (length pre + 4 + length (snd e))"
begin

lemma skip:
  assumes "list_all (\<lambda>e. fst e \<noteq> wanted \<and> length (snd e) < 65536) es"
    and "length pre + length (exts_bytes es) \<le> stop" and "stop < 2 ^ 32"
  shows "scan (pre @ exts_bytes es @ rest) stop (length pre)
       = scan (pre @ exts_bytes es @ rest) stop (length pre + length (exts_bytes es))"
  using assms
proof (induction es arbitrary: pre)
  case Nil
  then show ?case by (simp add: exts_bytes_def)
next
  case (Cons e es)
  let ?h = "pre @ exts_bytes (e # es) @ rest"
  have h: "?h = pre @ ext_bytes e @ exts_bytes es @ rest" "?h = (pre @ ext_bytes e) @ exts_bytes es @ rest"
    by (simp_all add: exts_bytes_def)
  have total: "length (exts_bytes (e # es)) = 4 + length (snd e) + length (exts_bytes es)"
    by (simp add: exts_bytes_def)
  have "scan ?h stop (length pre) = scan ?h stop (length (pre @ ext_bytes e))"
    using step [of e stop pre "exts_bytes es @ rest"] Cons.prems total unfolding h(1) by (simp add: add.assoc)
  also have "\<dots> = scan ?h stop (length (pre @ ext_bytes e) + length (exts_bytes es))"
    using Cons.IH [of "pre @ ext_bytes e"] Cons.prems total unfolding h(2) by simp
  finally show ?case
    by (simp add: total add.assoc)
qed

end

lemma tlv_fields:
  "be16 (pre @ ext_bytes e @ rest) (length pre) = Some (unat (fst e))"
  "length (snd e) < 65536 \<Longrightarrow> be16 (pre @ ext_bytes e @ rest) (length pre + 2) = Some (length (snd e))"
  using be16_behind [of "length pre" pre "fst e"]
    be16_behind [of "length pre + 2" "pre @ word_be 2 (fst e)" "of_nat (length (snd e))" "snd e @ rest"]
  by (simp_all add: ext_bytes_def unat_of_nat_u16)

interpretation sni_scan: tlv_scan sni_extensions 0
proof
  fix e :: "u16 \<times> bytes" and stop and pre rest :: bytes
  assume "fst e \<noteq> 0" and len: "length (snd e) < 65536" "stop < 2 ^ 32" "length pre + 4 + length (snd e) \<le> stop"
  then have "unat (fst e) \<noteq> EXT_SERVER_NAME" by (simp add: EXT_SERVER_NAME_def unat_eq_zero)
  then show "sni_extensions (pre @ ext_bytes e @ rest) stop (length pre)
      = sni_extensions (pre @ ext_bytes e @ rest) stop (length pre + 4 + length (snd e))"
    using len by (subst sni_extensions.simps) (simp add: tlv_fields checked_add_def usize_max_def del: add_2_eq_Suc')
qed

lemma sni_extensions_found:
  assumes "length pre + 9 + length host \<le> stop" and "stop < 65536"
  shows "sni_extensions (pre @ ext_bytes (0, sni_body host) @ rest) stop (length pre) = plausible_host host"
proof -
  let ?b = "sni_body host"
  let ?h = "pre @ ext_bytes (0, ?b) @ rest"
  have kind: "be16 ?h (length pre) = Some 0"
    using be16_behind [of "length pre" pre 0] by (simp add: ext_bytes_def)
  have len: "be16 ?h (length pre + 2) = Some (5 + length host)"
    using be16_behind [of "length pre + 2" "pre @ word_be 2 0" "of_nat (length ?b)" "?b @ rest"] assms
    by (simp add: ext_bytes_def unat_of_nat_u16 del: of_nat_add)
  have data: "get_range ?h (length pre + 4) (9 + (length pre + length host)) = Some ?b"
    using get_range_append_mid [of "pre @ word_be 2 0 @ word_be 2 (of_nat (length ?b) :: u16)" ?b rest]
    by (simp add: ext_bytes_def algebra_simps del: of_nat_add)
  show ?thesis
    using assms
    by (subst sni_extensions.simps)
      (simp add: kind len data checked_add_def usize_max_def EXT_SERVER_NAME_def first_server_name_sni_body
          del: add_2_eq_Suc')
qed

subsection \<open>The whole record\<close>

lemma ch_body_fields:
  assumes "ch_wf h"
  defines "s \<equiv> length (ch_session h)" and "c \<equiv> length (ch_ciphers h)" and "k \<equiv> length (ch_compression h)"
  shows "get_at (ch_body h) 34 = Some (of_nat s)"
    and "be16 (ch_body h) (35 + s) = Some c"
    and "get_at (ch_body h) (37 + s + c) = Some (of_nat k)"
    and "be16 (ch_body h) (38 + s + c + k) = Some (length (ch_exts h))"
proof -
  let ?c = "of_nat c :: u16" and ?e = "word_be 2 (of_nat (length (ch_exts h)) :: u16) @ ch_exts h"
  let ?a = "ch_version h @ ch_random h @ [of_nat s] @ ch_session h"
  let ?b = "?a @ word_be 2 ?c @ ch_ciphers h"
  have len: "length (ch_version h) = 2" "length (ch_random h) = 32" "c < 65536"
    using assms by (simp_all add: ch_wf_def)
  have body: "ch_body h = ?b @ of_nat k # ch_compression h @ ?e"
    by (simp add: ch_body_def ch_prefix_def s_def c_def k_def)
  have "length (ch_exts h) < 65536"
    using assms(1) by (simp add: ch_wf_def ch_body_def)
  then show "be16 (ch_body h) (38 + s + c + k) = Some (length (ch_exts h))"
    using be16_behind [of "38 + s + c + k" "ch_prefix h" "of_nat (length (ch_exts h))" "ch_exts h"]
    by (simp add: ch_body_def length_ch_prefix [OF assms(1)] s_def c_def k_def unat_of_nat_u16)
  show "get_at (ch_body h) 34 = Some (of_nat s)"
    using get_at_behind [of 34 "ch_version h @ ch_random h"] len by (simp add: body)
  show "be16 (ch_body h) (35 + s) = Some c"
    using be16_behind [of "35 + s" ?a ?c] len by (simp add: body s_def unat_of_nat_u16)
  show "get_at (ch_body h) (37 + s + c) = Some (of_nat k)"
    using get_at_behind [of "37 + s + c" ?b] len by (simp add: body s_def c_def)
qed

lemma sni_extensions_ch_body:
  assumes "ch_wf h"
  shows "sni_extensions (ch_body h) (length (ch_body h)) (length (ch_prefix h) + 2) = plausible_host (ch_host h)"
proof -
  let ?pre = "ch_prefix h @ word_be 2 (of_nat (length (ch_exts h)) :: u16)"
  let ?x = "exts_bytes (ch_before h)" and ?sni = "ext_bytes (0, sni_body (ch_host h))"
  let ?n = "length (ch_body h)"
  have body: "ch_body h = ?pre @ ?x @ ?sni @ exts_bytes (ch_after h)"
    by (simp add: ch_body_def ch_exts_def)
  have fits: "length ?pre + length ?x + 9 + length (ch_host h) \<le> ?n" and small: "?n < 65536"
    using assms by (simp_all add: body ch_wf_def)
  have "sni_extensions (?pre @ ?x @ ?sni @ exts_bytes (ch_after h)) ?n (length ?pre)
      = sni_extensions (?pre @ ?x @ ?sni @ exts_bytes (ch_after h)) ?n (length ?pre + length ?x)"
    by (rule sni_scan.skip) (use assms fits small in \<open>simp_all add: ch_wf_def\<close>)
  moreover have "sni_extensions ((?pre @ ?x) @ ?sni @ exts_bytes (ch_after h)) ?n (length (?pre @ ?x))
      = plausible_host (ch_host h)"
    by (rule sni_extensions_found) (use fits small in simp_all)
  ultimately show ?thesis
    using body by (metis append.assoc length_append length_word_be)
qed

lemma ch_record_fields:
  fixes more_data :: bytes
  assumes "ch_wf h" and "length ver = 2"
  defines "n \<equiv> length (ch_body h)" and "hs \<equiv> 0x01 # word_be 3 (of_nat (length (ch_body h)) :: u32) @ ch_body h"
    and "buf \<equiv> ch_record ver h @ more_data"
  shows "get_at buf 0 = Some TLS_HANDSHAKE" and "be16 buf 3 = Some (n + 4)"
    and "get_range buf 5 (9 + n) = Some hs" and "get_at hs 0 = Some TLS_CLIENT_HELLO"
    and "be24 hs 1 = Some n" and "get_range hs 4 (n + 4) = Some (ch_body h)"
    and "9 + n \<le> length buf" and "length hs = n + 4"
proof -
  have n: "n + 4 < 65536" using assms(1) by (simp add: ch_wf_def n_def)
  then have "unat (of_nat n :: u32) = n"
    by (simp add: unsigned_of_nat take_bit_nat_eq_self)
  then show "be24 hs 1 = Some n"
    using be24_behind [of 1 "[0x01]" "of_nat n" "ch_body h"] n by (simp add: hs_def n_def)
  show "get_at buf 0 = Some TLS_HANDSHAKE" and "get_at hs 0 = Some TLS_CLIENT_HELLO"
    by (simp_all add: buf_def hs_def ch_record_def TLS_HANDSHAKE_def TLS_CLIENT_HELLO_def)
  show "be16 buf 3 = Some (n + 4)"
    using be16_behind [of 3 "0x16 # ver" "of_nat (n + 4)" "hs @ more_data"] assms(2) n
    by (simp add: buf_def hs_def n_def ch_record_def unat_of_nat_u16 del: of_nat_add)
  show "get_range buf 5 (9 + n) = Some hs"
    using get_range_append_mid [of "0x16 # ver @ word_be 2 (of_nat (n + 4) :: u16)" hs more_data] assms(2)
    by (simp add: buf_def hs_def n_def ch_record_def del: of_nat_add)
  show "get_range hs 4 (n + 4) = Some (ch_body h)"
    by (simp add: get_range_def hs_def n_def)
  show "9 + n \<le> length buf" and "length hs = n + 4"
    using assms(2) by (simp_all add: ch_record_def n_def hs_def buf_def)
qed

lemma tls_sni_record:
  assumes "ch_wf h" and "length ver = 2"
  shows "tls_sni (ch_record ver h @ more_data) = plausible_host (ch_host h)"
proof -
  let ?n = "length (ch_body h)"
  let ?hs = "0x01 # word_be 3 (of_nat ?n :: u32) @ ch_body h"
  let ?buf = "ch_record ver h @ more_data"
  note fields = ch_record_fields [OF assms]
  have exts: "length (ch_prefix h) + (2 + length (ch_exts h)) = ?n"
    by (simp add: ch_body_def)
  have n: "?n + 4 < 65536" and small: "unat (of_nat (length (ch_session h)) :: u8) = length (ch_session h)"
    "unat (of_nat (length (ch_compression h)) :: u8) = length (ch_compression h)"
    using assms(1) by (simp_all add: ch_wf_def unat_of_nat_u8)
  let ?s = "length (ch_session h)" and ?c = "length (ch_ciphers h)" and ?k = "length (ch_compression h)"
  have add: "checked_add a b = Some (a + b)" if "a + b \<le> 200000" for a b
    using that by (simp add: checked_add_def usize_max_def)
  have pre: "length (ch_prefix h) = 38 + ?s + ?c + ?k"
    by (rule length_ch_prefix [OF assms(1)])
  have sizes: "?s < 256" "?c < 65536" "?k < 256"
    using assms(1) by (simp_all add: ch_wf_def)
  have stops: "min (5 + (?n + 4)) (length ?buf) = 9 + ?n" "min (4 + ?n) (length ?hs) = ?n + 4"
    "min (length (ch_prefix h) + 2 + length (ch_exts h)) ?n = ?n"
    using fields(7) [of more_data] fields(8) exts by simp_all
  have adds: "checked_add 5 (?n + 4) = Some (5 + (?n + 4))" "checked_add 4 ?n = Some (4 + ?n)"
    "checked_add (2 + 32) (1 + ?s) = Some (35 + ?s)" "checked_add (35 + ?s) (2 + ?c) = Some (37 + ?s + ?c)"
    "checked_add (37 + ?s + ?c) (1 + ?k) = Some (38 + ?s + ?c + ?k)"
    "checked_add (38 + ?s + ?c + ?k) 2 = Some (length (ch_prefix h) + 2)"
    "checked_add (length (ch_prefix h) + 2) (length (ch_exts h)) = Some (length (ch_prefix h) + 2 + length (ch_exts h))"
    using n exts sizes by (simp_all add: add pre)
  have at34: "get_at (ch_body h) (2 + 32) = Some (of_nat ?s)"
    using ch_body_fields(1) [OF assms(1)] by simp
  show ?thesis
    unfolding tls_sni_def
    by (simp only: fields(1-6) adds stops at34 ch_body_fields(2-4) [OF assms(1)] small
        sni_extensions_ch_body [OF assms(1)] bind.bind_lunit not_True_eq_False simp_thms if_False)
qed

text \<open>
  C35. For every well-formed ClientHello record, whatever its session id, cipher suites, other
  extensions and the bytes that follow the record, \<^verbatim>\<open>tls_sni\<close> returns the name of its server name
  extension, cleaned by \<^verbatim>\<open>plausible_host\<close>.
\<close>

theorem tls_sni_client_hello:
  assumes "ch_wf h" and "length ver = 2"
  shows "tls_sni (ch_record ver h @ more_data) = plausible_host (ch_host h)"
  using assms by (rule tls_sni_record)

definition sample_hello :: client_hello where
  "sample_hello = \<lparr>ch_version = [3, 3], ch_random = replicate 32 7, ch_session = [9, 9], ch_ciphers = [0x13, 0x01],
     ch_compression = [0], ch_before = [(0xff01, [0])], ch_host = as_bytes ''A.io'', ch_after = [(43, [2, 3, 4])]\<rparr>"

lemma sample_hello_wf: "ch_wf sample_hello"
  by (simp add: ch_wf_def sample_hello_def ch_body_def ch_prefix_def ch_exts_def exts_bytes_def as_bytes_def)

lemma plausible_host_sample: "plausible_host (as_bytes ''A.io'') = Some ''a.io''"
proof -
  have utf8: "from_utf8 (as_bytes ''A.io'') = Some ''A.io''"
    by (simp add: from_utf8_def) (simp add: as_bytes_def)
  have trim: "trim ''A.io'' = ''A.io''"
    by (rule trim_graphic) (simp_all add: ascii_graphic_def)
  show ?thesis
    by (simp add: plausible_host_def utf8 trim trim_end_matches_def host_byte_def ascii_alphanumeric_def
        to_lowercase_def to_ascii_lowercase_def ip_read MAX_HOST_LEN_def) (simp add: as_bytes_def char_of_def bit_0)
qed

theorem tls_sni_client_hello_witness: "tls_sni (ch_record [3, 1] sample_hello @ [1, 2]) = Some ''a.io''"
  using tls_sni_client_hello [OF sample_hello_wf, of "[3, 1]" "[1, 2]"]
  by (simp add: plausible_host_sample sample_hello_def)

end
