(* ===== verification/Sniff_Props.thy ===== *)
theory Sniff_Props
  imports Tls_Hello
begin

text \<open>
  What the sniffer promises about the names it returns, and that it finds the Host header of an
  HTTP/1 request.
\<close>

subsection \<open>Reading an address does not depend on letter case\<close>

abbreviation lower :: "string \<Rightarrow> string" where
  "lower \<equiv> map to_ascii_lowercase"

definition caseless :: "'a reader \<Rightarrow> bool" where
  "caseless f \<longleftrightarrow> (\<forall>s. f (lower s) = map_option (map_prod id lower) (f s))"

lemma caselessD: "caseless f \<Longrightarrow> f (lower s) = map_option (map_prod id lower) (f s)"
  by (simp add: caseless_def)

lemma of_char_lower: "(of_char (to_ascii_lowercase c) :: nat) = (if ascii_upper c then of_char c + 32 else of_char c)"
proof (cases "ascii_upper c")
  case True
  then have "(of_char c :: nat) + 32 < 256" by (simp add: ascii_upper_def)
  with True show ?thesis by (simp add: to_ascii_lowercase_def)
qed (simp add: to_ascii_lowercase_def)

lemma digit_val_lower [simp]: "digit_val r (to_ascii_lowercase c) = digit_val r c"
  by (auto simp: digit_val.simps ascii_digit_def ascii_lower_def ascii_upper_def of_char_lower Let_def)

lemma lower_eq_symbol: "\<not> ascii_lower d \<Longrightarrow> \<not> ascii_upper d \<Longrightarrow> to_ascii_lowercase c = d \<longleftrightarrow> c = d"
proof (cases "ascii_upper c")
  case True
  assume d: "\<not> ascii_lower d" "\<not> ascii_upper d"
  have "ascii_lower (to_ascii_lowercase c)"
    using True by (simp add: ascii_lower_def of_char_lower) (simp add: ascii_upper_def)
  with d True show ?thesis by auto
qed (simp add: to_ascii_lowercase_def)

lemma caseless_return: "caseless (\<lambda>s. Some (a, s))"
  by (simp add: caseless_def)

lemma caseless_bind:
  assumes "caseless f" and "\<And>a. caseless (g a)"
  shows "caseless (\<lambda>s. f s \<bind> (\<lambda>(a, s'). g a s'))"
  unfolding caseless_def
proof
  fix s
  show "f (lower s) \<bind> (\<lambda>(a, s'). g a s') = map_option (map_prod id lower) (f s \<bind> (\<lambda>(a, s'). g a s'))"
    using caselessD [OF assms(1), of s] caselessD [OF assms(2)] by (cases "f s") auto
qed

lemma caseless_given_char: "\<not> ascii_lower d \<Longrightarrow> \<not> ascii_upper d \<Longrightarrow> caseless (read_given_char d)"
  by (auto simp: caseless_def read_given_char_def lower_eq_symbol split: list.splits)

lemma caseless_separator:
  assumes "\<not> ascii_lower d" "\<not> ascii_upper d" "caseless f"
  shows "caseless (read_separator d i f)"
  using caseless_given_char [OF assms(1,2)] assms(3)
  by (auto simp: caseless_def read_separator_def split: option.splits)

lemma read_digits_lower:
  "read_digits r n a (lower s) = (case read_digits r n a s of (m, v, t) \<Rightarrow> (m, v, lower t))"
  by (induction r n a s rule: read_digits.induct) (auto split: option.splits)

lemma caseless_number: "caseless (read_number r k z m)"
proof -
  have "take 1 (lower s) = ''0'' \<longleftrightarrow> take 1 s = ''0''" for s
    using lower_eq_symbol [of "CHR ''0''"] by (cases s) (simp_all add: ascii_lower_def ascii_upper_def)
  then show ?thesis
    by (cases k) (simp_all add: caseless_def read_number_def read_digits_lower split: prod.splits)
qed

lemma separators: "\<not> ascii_lower (CHR '':'')" "\<not> ascii_upper (CHR '':'')" "\<not> ascii_lower (CHR ''.'')" "\<not> ascii_upper (CHR ''.'')"
  by (simp_all add: ascii_lower_def ascii_upper_def)

lemma caseless_ipv4: "caseless read_ipv4_addr"
proof -
  have "caseless (read_octet i)" for i
    unfolding read_octet_def by (intro caseless_separator separators caseless_number)
  then have "caseless (\<lambda>s. read_ipv4_addr s)"
    unfolding read_ipv4_addr_def by (intro caseless_bind caseless_return)
  then show ?thesis .
qed

lemma read_groups_lower:
  "read_groups l i k (lower s) = (case read_groups l i k s of (g, t) \<Rightarrow> (g, lower t))"
proof (induction l i k s rule: read_groups.induct)
  case (2 l i k s)
  have v4: "caseless (read_separator (CHR '':'') i read_ipv4_addr)"
    and num: "caseless (read_separator (CHR '':'') i (read_number 16 (Some 4) True 65535))"
    by (intro caseless_separator separators caseless_number caseless_ipv4)+
  show ?case
    using 2 by (auto simp: caselessD [OF v4] caselessD [OF num] split: option.splits prod.splits)
qed simp

lemma caseless_groups:
  "caseless (\<lambda>s. let ((t, _), r) = read_groups l i k s in Some (f t, r))"
  by (simp add: caseless_def read_groups_lower split: prod.splits)

lemma caseless_ipv6: "caseless read_ipv6_addr"
  unfolding caseless_def
proof
  fix s
  obtain h h4 r where hr: "read_groups 8 0 8 s = ((h, h4), r)" by (metis prod.exhaust)
  let ?l = "8 - (length h + 1)"
  have colon: "caseless (read_given_char (CHR '':''))" by (intro caseless_given_char separators)
  have "caseless (\<lambda>r. do { (_, r1) \<leftarrow> read_given_char (CHR '':'') r;
                  (_, r2) \<leftarrow> read_given_char (CHR '':'') r1;
                  let ((t, _), r3) = read_groups ?l 0 ?l r2;
                  Some (v6_of_groups (h @ replicate (8 - length h - length t) 0 @ t), r3) })"
    by (intro caseless_bind caseless_groups colon)
  note rest = caselessD [OF this, of r]
  show "read_ipv6_addr (lower s) = map_option (map_prod id lower) (read_ipv6_addr s)"
    using rest by (simp add: read_ipv6_addr_def read_groups_lower hr Let_def)
qed

lemma parse_ip_lower [simp]: "parse_ip (to_lowercase s) = parse_ip s"
proof -
  have "caseless read_ip_addr"
    by (auto simp: caseless_def read_ip_addr_def caselessD [OF caseless_ipv4] caselessD [OF caseless_ipv6]
        option.map_comp prod.map_comp comp_def split: option.splits)
  then show ?thesis
    by (auto simp: parse_ip_def whole_def to_lowercase_def caseless_def split: option.splits list.splits)
qed

subsection \<open>The names that are returned\<close>

text \<open>A host name in the canonical form of the routing rules.\<close>

definition canonical_host :: "string \<Rightarrow> bool" where
  "canonical_host h \<longleftrightarrow>
     h \<noteq> [] \<and> length h \<le> MAX_HOST_LEN \<and> list_all host_byte h \<and> CHR ''.'' \<in> set h
     \<and> last h \<noteq> CHR ''.'' \<and> to_lowercase h = h \<and> parse_ip h = None"

lemma last_trim_end_matches: "trim_end_matches c s \<noteq> [] \<Longrightarrow> last (trim_end_matches c s) \<noteq> c"
  by (metis (full_types) hd_dropWhile last_rev rev_is_Nil_conv trim_end_matches_def)

lemma host_byte_lower: "host_byte c \<Longrightarrow> host_byte (to_ascii_lowercase c)"
proof (cases "ascii_upper c")
  case True
  then have "ascii_lower (to_ascii_lowercase c)"
    by (simp add: ascii_lower_def of_char_lower) (simp add: ascii_upper_def)
  then show ?thesis by (simp add: host_byte_def ascii_alphanumeric_def)
qed (simp add: to_ascii_lowercase_def)

lemma canonical_lower:
  assumes "n \<noteq> []" "length n \<le> MAX_HOST_LEN" "list_all host_byte n" "CHR ''.'' \<in> set n" "last n \<noteq> CHR ''.''" "parse_ip n = None"
  shows "canonical_host (to_lowercase n)"
proof -
  have dot: "to_ascii_lowercase c = CHR ''.'' \<longleftrightarrow> c = CHR ''.''" for c
    using lower_eq_symbol separators by blast
  have "last (lower n) \<noteq> CHR ''.''" using assms(1,5) by (simp add: last_map dot)
  moreover have "CHR ''.'' \<in> set (lower n)" using assms(4) dot by (metis image_eqI set_map)
  ultimately show ?thesis
    using assms host_byte_lower unfolding canonical_host_def
    by (simp add: list_all_iff) (simp add: to_lowercase_def)
qed

lemma plausible_host_canonical: "plausible_host raw = Some h \<Longrightarrow> canonical_host h"
  by (auto simp: plausible_host_def Let_def bind_eq_Some_conv split: if_splits
      intro!: canonical_lower dest: last_trim_end_matches)

lemma sni_entries_canonical: "sni_entries d e p = Some h \<Longrightarrow> canonical_host h"
proof (induction d e p rule: sni_entries.induct)
  case (1 d e p)
  show ?case
    using 1(2) by (subst (asm) sni_entries.simps)
      (auto split: if_splits option.splits simp: bind_eq_Some_conv intro: plausible_host_canonical 1(1))
qed

lemma sni_extensions_canonical: "sni_extensions d e p = Some h \<Longrightarrow> canonical_host h"
proof (induction d e p rule: sni_extensions.induct)
  case (1 d e p)
  show ?case
    using 1(2) by (subst (asm) sni_extensions.simps)
      (auto split: if_splits option.splits simp: bind_eq_Some_conv first_server_name_def
        intro: sni_entries_canonical 1(1))
qed

lemma host_header_canonical: "host_header ls = Some h \<Longrightarrow> canonical_host h"
  by (induction ls) (auto split: if_splits option.splits prod.splits intro: plausible_host_canonical)

lemma http_host_canonical:
  assumes "http_host buf = Some h"
  shows "canonical_host h"
proof -
  obtain y where y: "(case split_on crlf [] (from_utf8_lossy y) of [] \<Rightarrow> None
      | r # ls \<Rightarrow> if \<not> looks_like_http r then None else host_header ls) = Some h"
    using assms by (auto simp: http_host_def bind_eq_Some_conv)
  then show ?thesis
    by (cases "split_on crlf [] (from_utf8_lossy y)") (auto split: if_splits intro: host_header_canonical)
qed

text \<open>
  Whatever the first bytes of a connection are, a name that \<^verbatim>\<open>hostname\<close> returns is a canonical
  host name: non-empty, at most 253 bytes, lower case, made of letters, digits, hyphens, underscores
  and at least one dot, without a final dot, and not the text of an IP address.
\<close>

lemma hostname_canonical:
  assumes "hostname buf = Some h"
  shows "canonical_host h"
proof (cases "tls_sni buf")
  case None
  then show ?thesis
    using assms by (simp add: hostname_def http_host_canonical)
next
  case (Some n)
  then have "canonical_host n"
    by (auto simp: tls_sni_def bind_eq_Some_conv split: if_splits intro: sni_extensions_canonical)
  then show ?thesis using assms Some by (simp add: hostname_def)
qed

lemma hostname_canonical_witness: "canonical_host ''a.io''"
proof -
  have "tls_sni (ch_record [3, 1] sample_hello @ []) = Some ''a.io''"
    using tls_sni_record [OF sample_hello_wf, of "[3, 1]" "[]"]
    by (simp add: plausible_host_sample) (simp add: sample_hello_def plausible_host_sample)
  then show ?thesis by (intro hostname_canonical [of "ch_record [3, 1] sample_hello"]) (simp add: hostname_def)
qed

subsection \<open>The Host header\<close>

definition ascii_line :: "string \<Rightarrow> bool" where
  "ascii_line l \<longleftrightarrow> list_all (\<lambda>c. (of_char c :: nat) < 128 \<and> c \<noteq> CHR 0x0D) l"

definition other_header :: "string \<Rightarrow> bool" where
  "other_header l \<longleftrightarrow>
     l \<noteq> [] \<and> (case split_once (CHR '':'') l of None \<Rightarrow> True | Some (n, _) \<Rightarrow> \<not> eq_ignore_ascii_case n ''host'')"

definition http_lines :: "string list \<Rightarrow> string" where
  "http_lines ls = concat (map (\<lambda>l. l @ crlf) ls)"

lemma ascii_byte: "(of_char c :: nat) < 128 \<Longrightarrow> (of_char c :: u8) < 0x80"
  by (simp add: word_less_nat_alt)

lemma from_utf8_lossy_ascii:
  "list_all (\<lambda>c. (of_char c :: nat) < 128) s \<Longrightarrow> from_utf8_lossy (as_bytes s @ rest) = s @ from_utf8_lossy rest"
  using utf8_lossy_ascii [of "as_bytes s" rest] ascii_byte
  by (auto simp: from_utf8_lossy_def as_bytes_def list_all_iff of_bytes_def comp_def)

lemma split_on_line:
  "ascii_line l \<Longrightarrow> split_on crlf acc (l @ crlf @ rest) = (rev acc @ l) # split_on crlf [] rest"
proof (induction l arbitrary: acc)
  case Nil
  show ?case by (subst split_on.simps) (simp add: crlf_def starts_with_def)
next
  case (Cons c l)
  then show ?case
    by (subst split_on.simps) (simp add: ascii_line_def crlf_def starts_with_def)
qed

lemma split_on_lines:
  "list_all ascii_line ls \<Longrightarrow> split_on crlf [] (http_lines ls @ rest) = ls @ split_on crlf [] rest"
  by (induction ls) (simp_all add: http_lines_def split_on_line)

lemma host_header_skip: "list_all other_header ls \<Longrightarrow> host_header (ls @ rest) = host_header rest"
  by (induction ls) (auto simp: other_header_def split: option.splits)

text \<open>
  For an HTTP/1 request whose request line and header lines, up to a Host line, are ASCII and
  fit in the first 4096 bytes, \<^verbatim>\<open>http_host\<close> returns the value of that line, without white space and
  port, cleaned by \<^verbatim>\<open>plausible_host\<close>; the case of the header name and what follows do not matter.
\<close>

lemma http_host_finds_host:
  assumes "looks_like_http request" and "list_all other_header before"
    and "eq_ignore_ascii_case name ''host''" and "CHR '':'' \<notin> set name"
    and "list_all ascii_line (request # before @ [name @ CHR '':'' # value])"
    and "length (http_lines (request # before @ [name @ CHR '':'' # value])) \<le> PEEK_BUDGET"
  shows "http_host (as_bytes (http_lines (request # before @ [name @ CHR '':'' # value])) @ rest)
       = plausible_host (as_bytes (without_port (trim value)))"
proof -
  let ?ls = "request # before @ [name @ CHR '':'' # value]"
  let ?k = "min (length (http_lines ?ls) + length rest) PEEK_BUDGET - length (http_lines ?ls)"
  have head: "get_range (as_bytes (http_lines ?ls) @ rest) 0 (min (length (as_bytes (http_lines ?ls) @ rest)) PEEK_BUDGET)
      = Some (as_bytes (http_lines ?ls) @ take ?k rest)"
    using assms(6) by (simp add: get_range_def)
  have "list_all (\<lambda>c. (of_char c :: nat) < 128) (http_lines ?ls)"
    using assms(5) by (simp add: http_lines_def list_all_iff ascii_line_def crlf_def) blast
  then have lines: "split_on crlf [] (from_utf8_lossy (as_bytes (http_lines ?ls) @ take ?k rest))
      = ?ls @ split_on crlf [] (from_utf8_lossy (take ?k rest))"
    using split_on_lines [OF assms(5)] by (simp add: from_utf8_lossy_ascii)
  have "name @ CHR '':'' # value \<noteq> []" by simp
  then have "host_header ((before @ [name @ CHR '':'' # value]) @ r) = plausible_host (as_bytes (without_port (trim value)))" for r
    using assms(2,3,4) by (simp add: host_header_skip)
  then show ?thesis
    unfolding http_host_def head using assms(1) lines by simp
qed

lemma trim_sample: "trim '' A.io:80'' = ''A.io:80''"
proof -
  have "trim_start '' A.io:80'' = trim_start ''A.io:80''"
    unfolding trim_start_def
    by (subst trim_start_with.simps) (simp add: leading_space_def white_space_def starts_with_def of_bytes_def char_of_def bit_0)
  also have "\<dots> = ''A.io:80''"
    by (rule trim_start_graphic) (simp add: ascii_graphic_def)
  finally show ?thesis
    using trim_end_graphic [of "CHR ''0''" "''A.io:8''"] by (simp add: trim_def ascii_graphic_def)
qed

lemma http_host_finds_host_witness:
  "http_host (as_bytes (http_lines [''GET / HTTP/1.1'', ''Accept: x'', ''HOST: A.io:80'']) @ [0xff]) = Some ''a.io''"
proof -
  have split: "rsplit_once (CHR '':'') ''A.io:80'' = Some (''A.io'', ''80'')"
    by (simp add: rsplit_once_def)
  have "http_host (as_bytes (http_lines (''GET / HTTP/1.1'' # [''Accept: x''] @ [''HOST'' @ CHR '':'' # '' A.io:80''])) @ [0xff])
      = plausible_host (as_bytes (without_port (trim '' A.io:80'')))"
  proof (rule http_host_finds_host)
    show "looks_like_http ''GET / HTTP/1.1''"
      by (simp add: looks_like_http_def HTTP_METHODS_def starts_with_def contains_def)
    show "eq_ignore_ascii_case ''HOST'' ''host''"
      by (simp add: eq_ignore_ascii_case_def to_ascii_lowercase_def ascii_upper_def char_of_def bit_0)
    show "list_all other_header [''Accept: x'']"
      by (simp add: other_header_def eq_ignore_ascii_case_def)
    show "list_all ascii_line (''GET / HTTP/1.1'' # [''Accept: x''] @ [''HOST'' @ CHR '':'' # '' A.io:80''])"
      by (simp add: ascii_line_def)
  qed (simp_all add: http_lines_def crlf_def PEEK_BUDGET_def)
  then show ?thesis
    by (simp add: trim_sample without_port_def split ascii_digit_def plausible_host_sample)
qed

end
