(* ===== verification/Fragment.thy ===== *)
theory Fragment
  imports Tls_Hello
begin

text \<open>
  \<^verbatim>\<open>fragment.rs\<close>: the stream that breaks the TLS handshake of the HTTP/2 carrier into small delayed
  writes, so that the server name never leaves in one segment. The inner stream is a parameter, its
  \<^verbatim>\<open>poll_write\<close> and \<^verbatim>\<open>poll_read\<close> arguments of the operations; \<^verbatim>\<open>random_range\<close> of the crate
  \<^verbatim>\<open>rand\<close> is the argument \<open>pick\<close>; the clock is in milliseconds.
\<close>

subsection \<open>Configuration\<close>

record fragment_config =
  fc_enabled :: bool
  fc_size_min :: usize
  fc_size_max :: usize
  fc_delay_min_ms :: nat
  fc_delay_max_ms :: nat
  fc_sni_split :: bool

definition fragment_disabled :: fragment_config where
  "fragment_disabled = \<lparr>fc_enabled = False, fc_size_min = 1, fc_size_max = 1, fc_delay_min_ms = 0,
     fc_delay_max_ms = 0, fc_sni_split = False\<rparr>"

definition is_truthy :: "string \<Rightarrow> bool" where
  "is_truthy v \<longleftrightarrow> to_lowercase (trim v) \<in> set [''1'', ''true'', ''yes'', ''on'']"

definition u64_max :: nat where
  "u64_max = 2 ^ 64 - 1"

definition parse_or :: "string \<Rightarrow> nat \<Rightarrow> nat" where
  "parse_or s d = (case parse_uint u64_max s of Some n \<Rightarrow> n | None \<Rightarrow> d)"

definition parse_range :: "string \<Rightarrow> nat \<times> nat \<Rightarrow> nat \<times> nat" where
  "parse_range raw dflt =
     (let spec = trim raw in
      if spec = [] then dflt
      else (case split_once (CHR ''-'') spec of
              Some (a, b) \<Rightarrow>
                (let lo = parse_or (trim a) (fst dflt);
                     hi = parse_or (trim b) (snd dflt)
                 in if hi < lo then (hi, lo) else (lo, hi))
            | None \<Rightarrow> (let v = parse_or spec (fst dflt) in (v, v))))"

text \<open>The environment: the value of a variable that is set and is valid Unicode.\<close>

type_synonym env = "string \<Rightarrow> string option"

definition var_or :: "env \<Rightarrow> string \<Rightarrow> string" where
  "var_or env k = (case env k of Some v \<Rightarrow> v | None \<Rightarrow> [])"

definition fragment_from_env :: "env \<Rightarrow> fragment_config" where
  "fragment_from_env env =
     (let enabled = (case env ''AETHER_MASQUE_H2_FRAGMENT'' of Some v \<Rightarrow> is_truthy v | None \<Rightarrow> False);
          (size_min0, size_max0) = parse_range (var_or env ''AETHER_MASQUE_H2_FRAGMENT_SIZE'') (16, 32);
          (delay_min_ms, delay_max_ms) = parse_range (var_or env ''AETHER_MASQUE_H2_FRAGMENT_DELAY'') (2, 10);
          size_min = max size_min0 1;
          size_max = max size_max0 size_min;
          sni_split = (case env ''AETHER_MASQUE_H2_FRAGMENT_SNI'' of Some v \<Rightarrow> is_truthy v | None \<Rightarrow> True)
      in \<lparr>fc_enabled = enabled, fc_size_min = size_min, fc_size_max = size_max,
          fc_delay_min_ms = delay_min_ms, fc_delay_max_ms = max delay_max_ms delay_min_ms,
          fc_sni_split = sni_split\<rparr>)"

subsection \<open>Choices\<close>

type_synonym pick = "nat \<Rightarrow> nat \<Rightarrow> nat"

definition pick_chunk_len :: "fragment_config \<Rightarrow> pick \<Rightarrow> usize \<Rightarrow> usize" where
  "pick_chunk_len cfg pick remaining =
     (let hi = min (max (fc_size_max cfg) 1) remaining;
          lo = min (max (fc_size_min cfg) 1) hi
      in if hi \<le> lo then hi else pick lo hi)"

definition pick_delay :: "fragment_config \<Rightarrow> pick \<Rightarrow> nat" where
  "pick_delay cfg pick =
     (if fc_delay_max_ms cfg = 0 then 0
      else if fc_delay_max_ms cfg \<le> fc_delay_min_ms cfg then fc_delay_min_ms cfg
      else pick (fc_delay_min_ms cfg) (fc_delay_max_ms cfg))"

subsection \<open>The place of the server name\<close>

definition take_be :: "bytes \<Rightarrow> usize \<Rightarrow> usize \<Rightarrow> usize option" where
  "take_be buf p n =
     do { stop \<leftarrow> checked_add p n;
          slice \<leftarrow> get_range buf p stop;
          Some (fold (\<lambda>b acc. push_bit 8 acc OR unat b) slice 0) }"

function host_range_scan :: "bytes \<Rightarrow> usize \<Rightarrow> usize \<Rightarrow> (usize \<times> usize) option" where
  "host_range_scan buf extensions_end p =
     (if p + 4 \<le> extensions_end then
        (case take_be buf p 2 of
           None \<Rightarrow> None
         | Some kind \<Rightarrow>
             (case take_be buf (p + 2) 2 of
                None \<Rightarrow> None
              | Some len \<Rightarrow>
                  if kind = 0 then
                    (let entry = p + 4 + 2 in
                     do { name_type \<leftarrow> take_be buf entry 1;
                          if name_type \<noteq> 0 then None else do {
                          host_len \<leftarrow> take_be buf (entry + 1) 2;
                          let host = entry + 3;
                          if host_len = 0 \<or> length buf < host + host_len then None
                          else Some (host, host + host_len) } })
                  else host_range_scan buf extensions_end (p + 4 + len)))
      else None)"
  by pat_completeness auto
termination
  by (relation "measure (\<lambda>(buf, extensions_end, p). extensions_end - p)") auto

declare host_range_scan.simps [simp del]

definition sni_host_range :: "bytes \<Rightarrow> (usize \<times> usize) option" where
  "sni_host_range buf =
     do { b0 \<leftarrow> get_at buf 0;
          if b0 \<noteq> 0x16 then None else do {
          b5 \<leftarrow> get_at buf 5;
          if b5 \<noteq> 0x01 then None else do {
          session_len \<leftarrow> take_be buf 43 1;
          let p1 = 43 + (1 + session_len);
          cipher_len \<leftarrow> take_be buf p1 2;
          let p2 = p1 + (2 + cipher_len);
          compression_len \<leftarrow> take_be buf p2 1;
          let p3 = p2 + (1 + compression_len);
          extensions_len \<leftarrow> take_be buf p3 2;
          host_range_scan buf (p3 + 2 + extensions_len) (p3 + 2) } } }"

subsection \<open>The stream\<close>

datatype 'a poll = Pending | Ready 'a

type_synonym io_write = "(string + usize) poll"
type_synonym 's poll_writer = "'s \<Rightarrow> bytes \<Rightarrow> io_write \<times> 's"

text \<open>\<open>fs_pending_delay\<close> is the deadline of the pending sleep.\<close>

record 's fragmenting_stream =
  fs_inner :: 's
  fs_cfg :: fragment_config
  fs_fragmenting :: bool
  fs_first_write :: bool
  fs_pending_delay :: "nat option"

definition fragmenting_new :: "'s \<Rightarrow> fragment_config \<Rightarrow> 's fragmenting_stream" where
  "fragmenting_new inner cfg = \<lparr>fs_inner = inner, fs_cfg = cfg, fs_fragmenting = fc_enabled cfg,
     fs_first_write = True, fs_pending_delay = None\<rparr>"

definition frag_poll_read ::
  "('s \<Rightarrow> 'r \<times> 's) \<Rightarrow> 's fragmenting_stream \<Rightarrow> 'r \<times> 's fragmenting_stream" where
  "frag_poll_read inner_read this =
     (let this = this\<lparr>fs_fragmenting := False\<rparr>
      in case inner_read (fs_inner this) of (r, i) \<Rightarrow> (r, this\<lparr>fs_inner := i\<rparr>))"

text \<open>The length of the next chunk: half way into the server name, or a random size.\<close>

definition chunk_len :: "pick \<Rightarrow> 's fragmenting_stream \<Rightarrow> bytes \<Rightarrow> usize" where
  "chunk_len pick this buf =
     (let targeted = (if fs_first_write this \<and> fc_sni_split (fs_cfg this)
                      then map_option (\<lambda>(start, stop). start + (stop - start) div 2) (sni_host_range buf)
                      else None)
      in case targeted of
           Some split \<Rightarrow> if 0 < split \<and> split < length buf then split
                          else pick_chunk_len (fs_cfg this) pick (length buf)
         | None \<Rightarrow> pick_chunk_len (fs_cfg this) pick (length buf))"

text \<open>
  \<^verbatim>\<open>poll_write\<close> at the time \<open>now\<close>; \<open>pick\<close> stands for the random choices of this call.
\<close>

definition frag_poll_write ::
  "'s poll_writer \<Rightarrow> nat \<Rightarrow> pick \<Rightarrow> 's fragmenting_stream \<Rightarrow> bytes \<Rightarrow> io_write \<times> 's fragmenting_stream" where
  "frag_poll_write inner_write now pick this buf =
     (if buf = [] \<or> \<not> fs_fragmenting this
      then (case inner_write (fs_inner this) buf of (r, i) \<Rightarrow> (r, this\<lparr>fs_inner := i\<rparr>))
      else if (case fs_pending_delay this of Some deadline \<Rightarrow> now < deadline | None \<Rightarrow> False)
      then (Pending, this)
      else
        (let this = this\<lparr>fs_pending_delay := None\<rparr>
         in case inner_write (fs_inner this) (take (chunk_len pick this buf) buf) of
              (Ready (Inr n), i) \<Rightarrow>
                (let this = this\<lparr>fs_inner := i\<rparr>;
                     delay = pick_delay (fs_cfg this) pick
                 in (Ready (Inr n),
                     if 0 < n
                     then this\<lparr>fs_first_write := False,
                               fs_pending_delay := (if delay = 0 then None else Some (now + delay))\<rparr>
                     else this))
            | (other, i) \<Rightarrow> (other, this\<lparr>fs_inner := i\<rparr>)))"

definition frag_poll_flush ::
  "('s \<Rightarrow> 'r \<times> 's) \<Rightarrow> 's fragmenting_stream \<Rightarrow> 'r \<times> 's fragmenting_stream" where
  "frag_poll_flush inner_flush this =
     (case inner_flush (fs_inner this) of (r, i) \<Rightarrow> (r, this\<lparr>fs_inner := i\<rparr>))"

definition frag_poll_shutdown ::
  "('s \<Rightarrow> 'r \<times> 's) \<Rightarrow> 's fragmenting_stream \<Rightarrow> 'r \<times> 's fragmenting_stream" where
  "frag_poll_shutdown inner_shutdown this =
     (case inner_shutdown (fs_inner this) of (r, i) \<Rightarrow> (r, this\<lparr>fs_inner := i\<rparr>))"

end
