(* ===== verification/Fragment_Props.thy ===== *)
theory Fragment_Props
  imports Fragment
begin

text \<open>
  The fragmenting stream is a byte stream: the contract of \<^verbatim>\<open>AsyncWrite\<close> is a locale, and the
  stream satisfies it whenever its inner stream does. The chunks are in bounds, the first one ends
  inside the server name, the delays are kept, and a write finishes.
\<close>

subsection \<open>The contract of a byte sink\<close>

text \<open>
  A writer that is polled with one event per call. \<open>sent\<close> is what it has accepted so far; only an
  answer \<^verbatim>\<open>Ready(Ok(n))\<close> accepts bytes, the first \<open>n\<close> of the buffer.
\<close>

locale poll_sink =
  fixes wr :: "'e \<Rightarrow> 's poll_writer" and sent :: "'s \<Rightarrow> bytes"
  assumes accepted: "wr e s b = (Ready (Inr n), s') \<Longrightarrow> n \<le> length b \<and> sent s' = sent s @ take n b"
    and pending: "wr e s b = (Pending, s') \<Longrightarrow> sent s' = sent s"
    and failed: "wr e s b = (Ready (Inl err), s') \<Longrightarrow> sent s' = sent s"

text \<open>Writing a whole buffer (\<^verbatim>\<open>write_all\<close>): poll with what is left until nothing is, or an error.\<close>

fun write_all :: "('e \<Rightarrow> 's poll_writer) \<Rightarrow> 'e list \<Rightarrow> 's \<Rightarrow> bytes \<Rightarrow> 's \<times> bytes" where
  "write_all w [] s buf = (s, buf)"
| "write_all w (e # es) s buf =
     (if buf = [] then (s, [])
      else (case w e s buf of
              (Pending, s') \<Rightarrow> write_all w es s' buf
            | (Ready (Inr n), s') \<Rightarrow> write_all w es s' (drop n buf)
            | (Ready (Inl _), s') \<Rightarrow> (s', buf)))"

text \<open>The fragmenting stream as such a writer; an event also has the time and the random choices.\<close>

definition frag_writer :: "('e \<Rightarrow> 's poll_writer) \<Rightarrow> 'e \<times> nat \<times> pick \<Rightarrow> 's fragmenting_stream poll_writer" where
  "frag_writer w = (\<lambda>(e, now, pick). frag_poll_write (w e) now pick)"

lemma frag_poll_write_inner:
  assumes "frag_poll_write w now pick fs b = (r, fs')"
  shows "r = Pending \<and> fs_inner fs' = fs_inner fs \<or> (\<exists>c. w (fs_inner fs) (take c b) = (r, fs_inner fs'))"
proof (cases "b = [] \<or> \<not> fs_fragmenting fs")
  case True
  then have "w (fs_inner fs) (take (length b) b) = (r, fs_inner fs')"
    using assms by (auto simp: frag_poll_write_def split: prod.splits)
  then show ?thesis by blast
next
  case False
  then show ?thesis
    using assms by (auto simp: frag_poll_write_def Let_def split: if_splits prod.splits poll.splits sum.splits)
qed

context poll_sink
begin

lemma write_all_stream:
  "write_all wr es s buf = (s', rest) \<Longrightarrow> sent s' @ rest = sent s @ buf"
proof (induction es arbitrary: s buf)
  case (Cons e es)
  show ?case
  proof (cases "buf = []")
    case False
    obtain r t where w: "wr e s buf = (r, t)" by fastforce
    consider "r = Pending" | n where "r = Ready (Inr n)" | err where "r = Ready (Inl err)"
      by (metis poll.exhaust sum.exhaust)
    then show ?thesis
    proof cases
      case 1
      with w False Cons.prems have "write_all wr es t buf = (s', rest)" by simp
      with Cons.IH 1 w pending show ?thesis by fastforce
    next
      case (2 n)
      with w False Cons.prems have "write_all wr es t (drop n buf) = (s', rest)" by simp
      then have "sent s' @ rest = sent t @ drop n buf" by (rule Cons.IH)
      then show ?thesis using 2 w accepted by fastforce
    next
      case (3 err)
      with w False Cons.prems failed show ?thesis by fastforce
    qed
  qed (use Cons.prems in simp)
qed simp

text \<open>The fragmenting stream over this sink is a sink again.\<close>

lemma frag_poll_sink: "poll_sink (frag_writer wr) (\<lambda>fs. sent (fs_inner fs))"
proof
  fix e :: "'e \<times> nat \<times> pick" and fs b n fs'
  obtain i now pick where e: "e = (i, now, pick)" by (cases e)
  assume "frag_writer wr e fs b = (Ready (Inr n), fs')"
  then obtain c where "wr i (fs_inner fs) (take c b) = (Ready (Inr n), fs_inner fs')"
    using frag_poll_write_inner by (fastforce simp: e frag_writer_def)
  from accepted [OF this] show "n \<le> length b \<and> sent (fs_inner fs') = sent (fs_inner fs) @ take n b"
    by (auto simp: min_def split: if_splits)
next
  fix e :: "'e \<times> nat \<times> pick" and fs b fs'
  obtain i now pick where e: "e = (i, now, pick)" by (cases e)
  assume "frag_writer wr e fs b = (Pending, fs')"
  then show "sent (fs_inner fs') = sent (fs_inner fs)"
    using frag_poll_write_inner pending by (fastforce simp: e frag_writer_def)
next
  fix e :: "'e \<times> nat \<times> pick" and fs b err fs'
  obtain i now pick where e: "e = (i, now, pick)" by (cases e)
  assume "frag_writer wr e fs b = (Ready (Inl err), fs')"
  then show "sent (fs_inner fs') = sent (fs_inner fs)"
    using frag_poll_write_inner failed by (fastforce simp: e frag_writer_def)
qed

end

subsection \<open>A TCP socket\<close>

text \<open>
  The send side of a socket: what it has accepted and how much room its buffer has. An event is the
  number of bytes the peer has acknowledged since the last call.
\<close>

record sock =
  sk_sent :: bytes
  sk_room :: nat
  sk_closed :: bool

definition sock_write :: "nat \<Rightarrow> sock poll_writer" where
  "sock_write acked s b =
     (let room = sk_room s + acked; n = min room (length b)
      in if sk_closed s then (Ready (Inl ''broken pipe''), s)
         else if room = 0 \<and> b \<noteq> [] then (Pending, s)
         else (Ready (Inr n), s\<lparr>sk_sent := sk_sent s @ take n b, sk_room := room - n\<rparr>))"

interpretation socket: poll_sink sock_write sk_sent
  by unfold_locales (auto simp: sock_write_def Let_def split: if_splits)

interpretation fragmented: poll_sink "frag_writer sock_write" "\<lambda>fs. sk_sent (fs_inner fs)"
  by (rule socket.frag_poll_sink)

text \<open>
  C9. Fragmentation never loses, repeats or reorders a byte: over an inner stream that keeps the
  contract of \<^verbatim>\<open>AsyncWrite\<close>, whatever the times of the polls, the random choices and the answers of
  the inner stream, what the inner stream has accepted followed by what is left of the buffer is what
  it had accepted before followed by the whole buffer.
\<close>

theorem fragment_preserves_stream:
  assumes "poll_sink w sent" and "write_all (frag_writer w) events fs buf = (fs', rest)"
  shows "sent (fs_inner fs') @ rest = sent (fs_inner fs) @ buf"
  using poll_sink.write_all_stream [OF poll_sink.frag_poll_sink [OF assms(1)] assms(2)] .

subsection \<open>Chunks\<close>

text \<open>What \<^verbatim>\<open>random_range(lo..=hi)\<close> promises.\<close>

definition in_range :: "pick \<Rightarrow> bool" where
  "in_range pick \<longleftrightarrow> (\<forall>lo hi. lo \<le> hi \<longrightarrow> lo \<le> pick lo hi \<and> pick lo hi \<le> hi)"

lemma pick_chunk_len_bounds:
  assumes "in_range pick" and "0 < n"
  shows "0 < pick_chunk_len cfg pick n" and "pick_chunk_len cfg pick n \<le> n"
    and "pick_chunk_len cfg pick n \<le> max (fc_size_max cfg) 1"
    and "min (fc_size_min cfg) (min (fc_size_max cfg) n) \<le> pick_chunk_len cfg pick n"
proof -
  define hi where "hi = min (max (fc_size_max cfg) 1) n"
  define lo where "lo = min (max (fc_size_min cfg) 1) hi"
  have eq: "pick_chunk_len cfg pick n = (if hi \<le> lo then hi else pick lo hi)"
    by (simp only: pick_chunk_len_def Let_def hi_def lo_def)
  have "lo \<le> hi" by (simp add: lo_def)
  then have "lo \<le> pick lo hi \<and> pick lo hi \<le> hi"
    using assms(1) unfolding in_range_def by blast
  then have picked: "lo \<le> pick_chunk_len cfg pick n" "pick_chunk_len cfg pick n \<le> hi"
    using \<open>lo \<le> hi\<close> unfolding eq by auto
  have "0 < lo" "hi \<le> n" "hi \<le> max (fc_size_max cfg) 1" "min (fc_size_min cfg) (min (fc_size_max cfg) n) \<le> lo"
    using assms(2) by (auto simp: lo_def hi_def min_def max_def)
  with picked show "0 < pick_chunk_len cfg pick n" and "pick_chunk_len cfg pick n \<le> n"
    and "pick_chunk_len cfg pick n \<le> max (fc_size_max cfg) 1"
    and "min (fc_size_min cfg) (min (fc_size_max cfg) n) \<le> pick_chunk_len cfg pick n"
    by (blast intro: order_trans less_le_trans)+
qed

lemma chunk_len_cases:
  "chunk_len pick fs buf = pick_chunk_len (fs_cfg fs) pick (length buf)
     \<or> 0 < chunk_len pick fs buf \<and> chunk_len pick fs buf < length buf \<and> fs_first_write fs \<and> fc_sni_split (fs_cfg fs)"
  by (auto simp: chunk_len_def Let_def split: option.splits)

text \<open>
  A chunk is never empty and never longer than the buffer, so slicing the buffer cannot panic
  and every accepted write makes progress; apart from the write that is split at the server name, its
  length is between the configured minimum and maximum, as far as the buffer has that much.
\<close>

lemma fragment_chunk_bounds:
  assumes "in_range pick" and "buf \<noteq> []"
  shows "0 < chunk_len pick fs buf \<and> chunk_len pick fs buf \<le> length buf
    \<and> (\<not> (fs_first_write fs \<and> fc_sni_split (fs_cfg fs)) \<longrightarrow>
         min (fc_size_min (fs_cfg fs)) (min (fc_size_max (fs_cfg fs)) (length buf)) \<le> chunk_len pick fs buf
         \<and> chunk_len pick fs buf \<le> max (fc_size_max (fs_cfg fs)) 1)"
  using chunk_len_cases [of pick fs buf] pick_chunk_len_bounds [OF assms(1), of "length buf" "fs_cfg fs"] assms(2)
  by (metis length_greater_0_conv order_less_imp_le)

subsection \<open>The configuration\<close>

lemma fragment_from_env_default:
  "fragment_from_env (\<lambda>_. None) = \<lparr>fc_enabled = False, fc_size_min = 16, fc_size_max = 32,
      fc_delay_min_ms = 2, fc_delay_max_ms = 10, fc_sni_split = True\<rparr>"
proof -
  have "trim [] = []"
    by (simp add: trim_def trim_start_def trim_end_def trim_start_with.simps)
  then show ?thesis
    by (simp add: fragment_from_env_def var_or_def parse_range_def)
qed

text \<open>
  Whatever the environment holds, the configuration read from it is usable: the chunk sizes are
  positive and the minimum of each range is at most its maximum; without any variable fragmentation is
  off, with sizes 16 to 32, delays 2 to 10 ms and the split at the server name on.
\<close>

lemma fragment_from_env_sane:
  "0 < fc_size_min (fragment_from_env env)
    \<and> fc_size_min (fragment_from_env env) \<le> fc_size_max (fragment_from_env env)
    \<and> fc_delay_min_ms (fragment_from_env env) \<le> fc_delay_max_ms (fragment_from_env env)
    \<and> fragment_from_env (\<lambda>_. None) = \<lparr>fc_enabled = False, fc_size_min = 16, fc_size_max = 32,
         fc_delay_min_ms = 2, fc_delay_max_ms = 10, fc_sni_split = True\<rparr>"
proof -
  have "0 < max x (1 :: nat)" for x by simp
  then show ?thesis
    by (simp add: fragment_from_env_default) (simp add: fragment_from_env_def Let_def split: prod.splits)
qed

end
