(* ===== verification/Fragment_Split.thy ===== *)
theory Fragment_Split
  imports Fragment_Props
begin

text \<open>
  Where the first chunk of a ClientHello ends: \<^verbatim>\<open>sni_host_range\<close> finds the bytes of the server name
  in the record, at the place where \<^verbatim>\<open>sniff::tls_sni\<close> reads it, and the split is inside them.
\<close>

subsection \<open>Reading fields\<close>

lemma fold_be_nat: "fold (\<lambda>b acc. push_bit 8 acc OR unat b) bs acc = be_nat_acc acc bs"
  by (induction acc bs rule: be_nat_acc.induct) simp_all

lemma take_be_2: "p + 2 \<le> usize_max \<Longrightarrow> take_be buf p 2 = be16 buf p"
  by (cases "get_range buf p (p + 2)") (auto simp: take_be_def checked_add_def be16_be_nat fold_be_nat be_nat_def)

lemma take_be_1: "p + 1 \<le> usize_max \<Longrightarrow> take_be buf p 1 = map_option unat (get_at buf p)"
proof (cases "p < length buf")
  case True
  assume "p + 1 \<le> usize_max"
  with True show ?thesis
    by (simp add: take_be_def checked_add_def get_range_def get_at_def take_Suc_conv_app_nth)
qed (auto simp: take_be_def get_range_def get_at_def bind_eq_None_conv checked_add_def)

lemma get_at_shift: "get_at ys p = Some v \<Longrightarrow> get_at (xs @ ys @ zs) (length xs + p) = Some v"
  by (auto simp: get_at_def nth_append split: if_splits)

lemma be16_shift: "be16 ys p = Some v \<Longrightarrow> be16 (xs @ ys @ zs) (length xs + p) = Some v"
  using get_at_shift [of ys p] get_at_shift [of ys "p + 1"]
  by (auto simp: be16_def bind_eq_Some_conv)

lemma drop_behind: "drop (length xs) (xs @ ys) = ys"
  by simp

subsection \<open>The extensions\<close>

interpretation host_scan: tlv_scan host_range_scan 0
proof
  fix e :: "u16 \<times> bytes" and stop and pre rest :: bytes
  assume "fst e \<noteq> 0" and len: "length (snd e) < 65536" "stop < 2 ^ 32" "length pre + 4 + length (snd e) \<le> stop"
  then have "unat (fst e) \<noteq> 0" "length pre + 4 \<le> usize_max" by (simp_all add: unat_eq_zero usize_max_def)
  then show "host_range_scan (pre @ ext_bytes e @ rest) stop (length pre)
      = host_range_scan (pre @ ext_bytes e @ rest) stop (length pre + 4 + length (snd e))"
    using len by (subst host_range_scan.simps) (simp add: take_be_2 tlv_fields del: add_2_eq_Suc')
qed

lemma host_range_found:
  assumes "length pre + 9 + length host \<le> stop" and "stop < 70000" and "host \<noteq> []" and "length host < 65536"
  shows "host_range_scan (pre @ ext_bytes (0, sni_body host) @ rest) stop (length pre)
       = Some (length pre + 9, length pre + 9 + length host)"
proof -
  let ?n = "length host"
  let ?l = "of_nat (length (sni_body host)) :: u16" and ?k = "of_nat (?n + 3) :: u16"
  let ?h = "pre @ ext_bytes (0, sni_body host) @ rest"
  let ?a = "pre @ word_be 2 (0 :: u16) @ word_be 2 ?l @ word_be 2 ?k"
  have h: "?h = ?a @ 0 # word_be 2 (of_nat ?n :: u16) @ host @ rest"
    by (simp add: ext_bytes_def sni_body_def)
  have small: "length pre + 10 \<le> usize_max" using assms by (simp add: usize_max_def)
  have kind: "take_be ?h (length pre) 2 = Some 0"
    using be16_behind [of "length pre" pre 0] small by (simp add: take_be_2 ext_bytes_def)
  have len: "take_be ?h (length pre + 2) 2 = Some (unat ?l)"
    using be16_behind [of "length pre + 2" "pre @ word_be 2 0" ?l "sni_body host @ rest"] small
    by (simp add: take_be_2 ext_bytes_def del: of_nat_add)
  have type: "take_be ?h (length pre + 4 + 2) 1 = Some 0"
  proof -
    have "get_at ?h (length pre + 4 + 2) = Some 0"
      unfolding h by (rule get_at_behind) simp
    with small show ?thesis by (subst take_be_1) simp_all
  qed
  have hlen: "take_be ?h (length pre + 4 + 2 + 1) 2 = Some ?n"
    using be16_behind [of "7 + length pre" "?a @ [0]" "of_nat ?n" "host @ rest"] small assms(4)
    by (subst take_be_2) (simp_all add: h unat_of_nat_u16 del: of_nat_add)
  have inside: "(length pre + 4 \<le> stop) = True" using assms(1) by simp
  have fits: "(?n = 0 \<or> length ?h < length pre + 4 + 2 + 3 + ?n) = False" using assms(3) by simp
  have "host_range_scan ?h stop (length pre) = Some (length pre + 4 + 2 + 3, length pre + 4 + 2 + 3 + ?n)"
    by (subst host_range_scan.simps)
      (simp only: inside fits kind len type hlen Let_def option.case bind.bind_lunit simp_thms if_True if_False)
  then show ?thesis by simp
qed

subsection \<open>The record\<close>

definition host_start :: "client_hello \<Rightarrow> nat" where
  "host_start h = 9 + length (ch_prefix h) + 2 + length (exts_bytes (ch_before h)) + 9"

lemma sni_host_range_record:
  assumes "ch_wf h" and "length ver = 2"
  shows "sni_host_range (ch_record ver h @ rest) = Some (host_start h, host_start h + length (ch_host h))"
proof -
  let ?n = "length (ch_body h)"
  let ?s = "length (ch_session h)" and ?c = "length (ch_ciphers h)" and ?k = "length (ch_compression h)"
  let ?hd = "0x16 # ver @ word_be 2 (of_nat (?n + 4) :: u16) @ 0x01 # word_be 3 (of_nat ?n :: u32)"
  let ?buf = "?hd @ ch_body h @ rest"
  have buf: "ch_record ver h @ rest = ?buf" by (simp add: ch_record_def)
  have hd: "length ?hd = 9" using assms(2) by simp
  have n: "?n < 65532" "?s < 256" "?c < 65536" "?k < 256" using assms(1) by (simp_all add: ch_wf_def)
  note body = ch_body_fields [OF assms(1)]
  have f0: "get_at ?buf 0 = Some 0x16" and f5: "get_at ?buf 5 = Some 0x01"
    using assms(2) by (simp_all add: get_at_def nth_append nth_Cons')
  have f1: "take_be ?buf 43 1 = Some ?s"
    using get_at_shift [OF body(1), of ?hd rest] hd n
    by (subst take_be_1) (simp_all add: usize_max_def unat_of_nat_u8)
  have f2: "take_be ?buf (43 + (1 + ?s)) 2 = Some ?c"
    using be16_shift [OF body(2), of ?hd rest] hd n by (subst take_be_2) (simp_all add: usize_max_def)
  have f3: "take_be ?buf (43 + (1 + ?s) + (2 + ?c)) 1 = Some ?k"
    using get_at_shift [OF body(3), of ?hd rest] hd n
    by (subst take_be_1) (simp_all add: usize_max_def unat_of_nat_u8)
  have f4: "take_be ?buf (43 + (1 + ?s) + (2 + ?c) + (1 + ?k)) 2 = Some (length (ch_exts h))"
    using be16_shift [OF body(4), of ?hd rest] hd n by (subst take_be_2) (simp_all add: usize_max_def)
  let ?pre = "?hd @ ch_prefix h @ word_be 2 (of_nat (length (ch_exts h)) :: u16)"
  let ?x = "exts_bytes (ch_before h)" and ?sni = "ext_bytes (0, sni_body (ch_host h))"
  let ?rest = "exts_bytes (ch_after h) @ rest" and ?stop = "43 + (1 + ?s) + (2 + ?c) + (1 + ?k) + 2 + length (ch_exts h)"
  have split: "?buf = ?pre @ ?x @ ?sni @ ?rest" "?buf = (?pre @ ?x) @ ?sni @ ?rest"
    by (simp_all add: ch_body_def ch_exts_def)
  have pre: "length ?pre = 43 + (1 + ?s) + (2 + ?c) + (1 + ?k) + 2" "length ?pre = 11 + length (ch_prefix h)"
    using hd length_ch_prefix [OF assms(1)] by simp_all
  have fits: "length ?pre + length ?x + 9 + length (ch_host h) \<le> ?stop" "?stop < 70000" "length (ch_host h) < 65536"
    using n pre length_ch_prefix [OF assms(1)] by (simp_all add: ch_body_def ch_exts_def)
  have "host_range_scan ?buf ?stop (length ?pre) = host_range_scan ?buf ?stop (length ?pre + length ?x)"
    unfolding split(1) by (rule host_scan.skip) (use assms(1) fits in \<open>simp_all add: ch_wf_def\<close>)
  also have "\<dots> = Some (length (?pre @ ?x) + 9, length (?pre @ ?x) + 9 + length (ch_host h))"
    unfolding split(2) length_append [of ?pre ?x, symmetric]
    by (rule host_range_found) (use assms(1) fits in \<open>simp_all add: ch_wf_def\<close>)
  finally have scan: "host_range_scan ?buf ?stop (length ?pre) = Some (host_start h, host_start h + length (ch_host h))"
    unfolding host_start_def length_append pre(2) by (simp add: assms(2))
  show ?thesis
    unfolding buf sni_host_range_def
    by (simp only: f0 f5 f1 f2 f3 f4 Let_def scan [unfolded pre(1)] bind.bind_lunit simp_thms if_False not_True_eq_False)
qed

text \<open>
  C34. When the first write is a ClientHello with a server name of at least two bytes, followed by
  anything, the chunk that \<^verbatim>\<open>poll_write\<close> gives to the inner stream ends strictly inside the server
  name, so no segment that starts the connection carries the whole name.
\<close>

theorem first_chunk_splits_server_name:
  assumes "ch_wf h" and "length ver = 2" and "2 \<le> length (ch_host h)"
    and "fs_first_write fs" and "fc_sni_split (fs_cfg fs)"
  shows "take (length (ch_host h)) (drop (host_start h) (ch_record ver h @ rest)) = ch_host h
    \<and> host_start h < chunk_len pick fs (ch_record ver h @ rest)
    \<and> chunk_len pick fs (ch_record ver h @ rest) < host_start h + length (ch_host h)"
proof -
  let ?buf = "ch_record ver h @ rest"
  let ?hd = "0x16 # ver @ word_be 2 (of_nat (length (ch_body h) + 4) :: u16) @ 0x01 # word_be 3 (of_nat (length (ch_body h)) :: u32)"
  let ?pre = "?hd @ ch_prefix h @ word_be 2 (of_nat (length (ch_exts h)) :: u16) @ exts_bytes (ch_before h)
      @ word_be 2 (0 :: u16) @ word_be 2 (of_nat (length (sni_body (ch_host h))) :: u16)
      @ word_be 2 (of_nat (length (ch_host h) + 3) :: u16) @ [0] @ word_be 2 (of_nat (length (ch_host h)) :: u16)"
  let ?split = "host_start h + length (ch_host h) div 2"
  have buf: "?buf = ?pre @ ch_host h @ exts_bytes (ch_after h) @ rest"
    by (simp add: ch_record_def ch_body_def ch_exts_def ext_bytes_def sni_body_def)
  have start: "length ?pre = host_start h" using assms(2) by (simp add: host_start_def)
  have "drop (host_start h) ?buf = ch_host h @ exts_bytes (ch_after h) @ rest"
    unfolding buf start [symmetric] by (rule drop_behind)
  moreover have "?split < length ?buf"
    unfolding buf length_append [of ?pre] start using assms(3) by simp
  then have "chunk_len pick fs ?buf = ?split"
    using assms(3-5) by (simp add: chunk_len_def sni_host_range_record [OF assms(1,2)])
  ultimately show ?thesis using assms(3) by simp
qed

theorem first_chunk_splits_server_name_witness:
  "host_start sample_hello < chunk_len (\<lambda>lo hi. lo) (fragmenting_new () (fragment_from_env (\<lambda>_. None))) (ch_record [3, 1] sample_hello)"
  using first_chunk_splits_server_name [OF sample_hello_wf, of "[3, 1]" "fragmenting_new () (fragment_from_env (\<lambda>_. None))" "[]" "\<lambda>lo hi. lo"]
    fragment_from_env_default
  by (simp add: fragmenting_new_def) (simp add: sample_hello_def as_bytes_def)

end
