(* ===== verification/Fragment_Time.thy ===== *)
theory Fragment_Time
  imports Fragment_Split
begin

text \<open>The delays between fragments, and that a write over a socket that takes bytes finishes.\<close>

definition sample_pick :: pick where
  "sample_pick lo hi = lo"

lemma sample_pick_in_range: "in_range sample_pick"
  by (simp add: in_range_def sample_pick_def)

definition sample_cfg :: fragment_config where
  "sample_cfg = \<lparr>fc_enabled = True, fc_size_min = 2, fc_size_max = 3, fc_delay_min_ms = 2, fc_delay_max_ms = 5, fc_sni_split = True\<rparr>"

definition sample_stream :: "sock fragmenting_stream" where
  "sample_stream = fragmenting_new \<lparr>sk_sent = [9], sk_room = 1, sk_closed = False\<rparr> sample_cfg"

theorem fragment_preserves_stream_witness:
  "\<exists>fs' rest. write_all (frag_writer sock_write) [(1, 0, sample_pick), (0, 1, sample_pick), (0, 9, sample_pick), (3, 10, sample_pick)]
       sample_stream [1, 2, 3, 4] = (fs', rest) \<and> sk_sent (fs_inner fs') @ rest = [9, 1, 2, 3, 4]"
  using fragment_preserves_stream [OF socket.poll_sink_axioms, of "[(1, 0, sample_pick), (0, 1, sample_pick), (0, 9, sample_pick), (3, 10, sample_pick)]"
      sample_stream "[1, 2, 3, 4]"]
  by (cases "write_all (frag_writer sock_write) [(1, 0, sample_pick), (0, 1, sample_pick), (0, 9, sample_pick), (3, 10, sample_pick)]
      sample_stream [1, 2, 3, 4]") (simp add: sample_stream_def fragmenting_new_def)

theorem fragment_chunk_bounds_witness:
  "0 < chunk_len sample_pick sample_stream [1, 2, 3, 4] \<and> chunk_len sample_pick sample_stream [1, 2, 3, 4] \<le> 4"
  using fragment_chunk_bounds [OF sample_pick_in_range, of "[1, 2, 3, 4]" sample_stream] by simp

subsection \<open>Delays\<close>

lemma pick_delay_bounds:
  assumes "in_range pick" and "fc_delay_min_ms cfg \<le> fc_delay_max_ms cfg"
  shows "fc_delay_min_ms cfg \<le> pick_delay cfg pick" and "pick_delay cfg pick \<le> fc_delay_max_ms cfg"
  using assms by (auto simp: pick_delay_def in_range_def)

lemma frag_write_deadline:
  assumes "frag_poll_write w now pick fs buf = (Ready (Inr n), fs')" and "0 < n"
    and "buf \<noteq> []" and "fs_fragmenting fs"
  shows "fs_pending_delay fs' = (if pick_delay (fs_cfg fs) pick = 0 then None else Some (now + pick_delay (fs_cfg fs) pick))
    \<and> fs_fragmenting fs' \<and> fs_cfg fs' = fs_cfg fs"
  using assms by (auto simp: frag_poll_write_def Let_def split: if_splits prod.splits poll.splits sum.splits)

text \<open>
  After a fragment has been accepted, every poll of the next \<^verbatim>\<open>delay_min_ms\<close> milliseconds
  returns Pending and does not touch the inner stream, and a poll at least \<^verbatim>\<open>delay_max_ms\<close> later is
  not held back.
\<close>

lemma fragment_delay_kept:
  assumes "frag_poll_write w now pick fs buf = (Ready (Inr n), fs')" and "0 < n"
    and "buf \<noteq> []" and "fs_fragmenting fs" and "in_range pick"
    and "fc_delay_min_ms (fs_cfg fs) \<le> fc_delay_max_ms (fs_cfg fs)" and "buf2 \<noteq> []"
  shows "(now \<le> now2 \<and> now2 < now + fc_delay_min_ms (fs_cfg fs) \<longrightarrow> frag_poll_write w now2 pick2 fs' buf2 = (Pending, fs'))
    \<and> (now + fc_delay_max_ms (fs_cfg fs) \<le> now2 \<longrightarrow>
         frag_poll_write w now2 pick2 fs' buf2 = frag_poll_write w now2 pick2 (fs'\<lparr>fs_pending_delay := None\<rparr>) buf2)"
  using frag_write_deadline [OF assms(1-4)] pick_delay_bounds [OF assms(5,6)] assms(7)
  by (auto simp: frag_poll_write_def split: if_splits)

lemma fragment_delay_kept_witness:
  "frag_poll_write (sock_write 8) 101 sample_pick (snd (frag_poll_write (sock_write 8) 100 sample_pick sample_stream [1, 2, 3])) [3]
     = (Pending, snd (frag_poll_write (sock_write 8) 100 sample_pick sample_stream [1, 2, 3]))"
proof -
  have "chunk_len sample_pick sample_stream [1, 2, 3] = 2"
    by (simp add: chunk_len_def sample_stream_def fragmenting_new_def sni_host_range_def pick_chunk_len_def
        sample_cfg_def sample_pick_def)
  then have "fst (frag_poll_write (sock_write 8) 100 sample_pick sample_stream [1, 2, 3]) = Ready (Inr 2)"
    by (simp add: frag_poll_write_def sample_stream_def fragmenting_new_def sample_cfg_def sock_write_def Let_def)
  then have "frag_poll_write (sock_write 8) 100 sample_pick sample_stream [1, 2, 3]
      = (Ready (Inr 2), snd (frag_poll_write (sock_write 8) 100 sample_pick sample_stream [1, 2, 3]))"
    by (metis prod.collapse)
  from fragment_delay_kept [OF this, of "[3]" 101 sample_pick] show ?thesis
    by (simp add: sample_stream_def fragmenting_new_def sample_cfg_def sample_pick_in_range)
qed

subsection \<open>A write finishes\<close>

text \<open>Polls at these times, each at least \<open>D\<close> after the one before and the first not before \<open>t\<close>.\<close>

fun spaced :: "nat \<Rightarrow> nat \<Rightarrow> nat list \<Rightarrow> bool" where
  "spaced D t [] = True"
| "spaced D t (x # xs) = (t \<le> x \<and> spaced D (x + D) xs)"

text \<open>An inner stream that is never full.\<close>

definition eager :: "('e \<Rightarrow> 's poll_writer) \<Rightarrow> bool" where
  "eager w \<longleftrightarrow> (\<forall>e s b. b \<noteq> [] \<longrightarrow> (\<exists>n s'. w e s b = (Ready (Inr n), s') \<and> 0 < n))"

lemma eager_step:
  assumes "eager w" and "in_range pick" and "buf \<noteq> []" and "\<forall>d. fs_pending_delay fs = Some d \<longrightarrow> d \<le> now"
    and "fc_delay_min_ms (fs_cfg fs) \<le> fc_delay_max_ms (fs_cfg fs)"
  obtains n fs' where "frag_poll_write (w e) now pick fs buf = (Ready (Inr n), fs')" and "0 < n"
    and "fs_cfg fs' = fs_cfg fs"
    and "\<forall>d. fs_pending_delay fs' = Some d \<longrightarrow> d \<le> now + fc_delay_max_ms (fs_cfg fs)"
proof (cases "fs_fragmenting fs")
  case False
  obtain n i where "w e (fs_inner fs) buf = (Ready (Inr n), i)" "0 < n"
    using assms(1,3) unfolding eager_def by blast
  with False show thesis
    using assms(4) by (intro that [of n "fs\<lparr>fs_inner := i\<rparr>"]) (auto simp: frag_poll_write_def)
next
  case True
  let ?fs = "fs\<lparr>fs_pending_delay := None\<rparr>"
  have "0 < chunk_len pick ?fs buf"
    using chunk_len_cases [of pick ?fs buf] pick_chunk_len_bounds(1) [OF assms(2), of "length buf"] assms(3)
    by (metis length_greater_0_conv)
  then have "take (chunk_len pick ?fs buf) buf \<noteq> []" using assms(3) by simp
  then obtain n i where w: "w e (fs_inner fs) (take (chunk_len pick ?fs buf) buf) = (Ready (Inr n), i)" "0 < n"
    using assms(1) unfolding eager_def by blast
  have ready: "\<not> (case fs_pending_delay fs of Some d \<Rightarrow> now < d | None \<Rightarrow> False)"
    using assms(4) by (auto split: option.splits)
  have "\<exists>fs'. frag_poll_write (w e) now pick fs buf = (Ready (Inr n), fs')"
    using True assms(3) w ready by (simp add: frag_poll_write_def Let_def)
  then obtain fs' where fs': "frag_poll_write (w e) now pick fs buf = (Ready (Inr n), fs')" ..
  show thesis
    using frag_write_deadline [OF fs' w(2) assms(3) True] pick_delay_bounds(2) [OF assms(2,5)]
    by (intro that [OF fs' w(2)]) (auto split: if_splits)
qed

text \<open>
  A write through the fragmenting stream finishes: when the inner stream takes at least a byte
  per call, as many polls as the buffer has bytes, each \<^verbatim>\<open>delay_max_ms\<close> after the one before, write
  the whole buffer.
\<close>

lemma fragment_write_finishes:
  assumes "poll_sink w sent" and "eager w" and "\<forall>(e, now, pick) \<in> set events. in_range pick"
    and "spaced (fc_delay_max_ms (fs_cfg fs)) t (map (\<lambda>(e, now, pick). now) events)"
    and "\<forall>d. fs_pending_delay fs = Some d \<longrightarrow> d \<le> t"
    and "fc_delay_min_ms (fs_cfg fs) \<le> fc_delay_max_ms (fs_cfg fs)" and "length buf \<le> length events"
  shows "\<exists>fs'. write_all (frag_writer w) events fs buf = (fs', []) \<and> sent (fs_inner fs') = sent (fs_inner fs) @ buf"
proof -
  have "\<exists>fs'. write_all (frag_writer w) events fs buf = (fs', [])"
    using assms(3-7)
  proof (induction events arbitrary: fs buf t)
    case (Cons ev evs)
    obtain e now pick where ev: "ev = (e, now, pick)" by (cases ev)
    show ?case
    proof (cases "buf = []")
      case False
      have ready: "\<forall>d. fs_pending_delay fs = Some d \<longrightarrow> d \<le> now"
        using Cons.prems(2,3) by (fastforce simp: ev)
      obtain n fs' where step: "frag_poll_write (w e) now pick fs buf = (Ready (Inr n), fs')" "0 < n"
        and cfg: "fs_cfg fs' = fs_cfg fs"
        and delay: "\<forall>d. fs_pending_delay fs' = Some d \<longrightarrow> d \<le> now + fc_delay_max_ms (fs_cfg fs)"
        using eager_step [OF assms(2) _ False ready Cons.prems(4), of pick e] Cons.prems(1) by (auto simp: ev)
      have "\<exists>fs''. write_all (frag_writer w) evs fs' (drop n buf) = (fs'', [])"
        using Cons.prems step(2) delay cfg by (intro Cons.IH) (auto simp: ev)
      then show ?thesis using step False by (simp add: ev frag_writer_def)
    qed simp
  qed simp
  then obtain fs' where fin: "write_all (frag_writer w) events fs buf = (fs', [])" ..
  from poll_sink.write_all_stream [OF poll_sink.frag_poll_sink [OF assms(1)] fin] fin show ?thesis by auto
qed

text \<open>A \<^verbatim>\<open>Vec<u8>\<close> as a sink takes everything.\<close>

definition vec_write :: "unit \<Rightarrow> bytes poll_writer" where
  "vec_write e s b = (Ready (Inr (length b)), s @ b)"

interpretation vec: poll_sink vec_write "\<lambda>s. s"
  by unfold_locales (auto simp: vec_write_def)

lemma fragment_write_finishes_witness:
  "\<exists>fs'. write_all (frag_writer vec_write) [((), 0, sample_pick), ((), 5, sample_pick), ((), 10, sample_pick)]
      (fragmenting_new [] sample_cfg) [1, 2, 3] = (fs', []) \<and> fs_inner fs' = [1, 2, 3]"
proof -
  have "eager vec_write" by (simp add: eager_def vec_write_def)
  from fragment_write_finishes [OF vec.poll_sink_axioms this,
      of "[((), 0, sample_pick), ((), 5, sample_pick), ((), 10, sample_pick)]" "fragmenting_new [] sample_cfg" 0 "[1, 2, 3]"]
  show ?thesis by (simp add: sample_pick_in_range fragmenting_new_def sample_cfg_def)
qed

end
