(* ===== verification/Dns.thy ===== *)
theory Dns
  imports Sniff
begin

text \<open>
  \<^verbatim>\<open>dns.rs\<close>: fetching the ECH configuration of the front from an HTTPS record: the query, the check
  that a reply belongs to it, and the parser of the answer. The parser indexes the message directly,
  so its result says whether it panics. Sending and receiving are parameters.
\<close>

definition BOOTSTRAP_DNS :: "string list" where
  "BOOTSTRAP_DNS = [''1.1.1.1:53'', ''1.0.0.1:53'', ''8.8.8.8:53'']"

definition ECH_HOSTS :: "string list" where
  "ECH_HOSTS = [''cloudflare-ech.com'', ''crypto.cloudflare.com'']"

definition RR_HTTPS :: u16 where "RR_HTTPS = 65"
definition SVCPARAM_ECH :: u16 where "SVCPARAM_ECH = 5"

subsection \<open>Queries and replies\<close>

definition name_labels :: "string \<Rightarrow> string list" where
  "name_labels name = filter (\<lambda>l. l \<noteq> []) (split_on ''.'' [] name)"

definition encode_label :: "string \<Rightarrow> bytes" where
  "encode_label l = of_nat (length l) # as_bytes l"

text \<open>\<open>id\<close> is what \<^verbatim>\<open>rand::random\<close> returns.\<close>

definition build_query :: "u16 \<Rightarrow> string \<Rightarrow> u16 \<Rightarrow> bytes \<times> u16" where
  "build_query qid name qtype =
     (word_be 2 qid @ [0x01, 0x00] @ [0x00, 0x01] @ [0x00, 0x00, 0x00, 0x00, 0x00, 0x00]
        @ concat (map encode_label (name_labels name))
        @ [0x00] @ word_be 2 qtype @ [0x00, 0x01], qid)"

definition index16 :: "bytes \<Rightarrow> usize \<Rightarrow> u16 run" where
  "index16 msg p = run_bind (index msg p) (\<lambda>hi. run_bind (index msg (p + 1)) (\<lambda>lo. Returns (be_word [hi, lo])))"

text \<open>The loop over the labels: the position behind them, or None where it returns false.\<close>

fun match_labels :: "bytes \<Rightarrow> usize \<Rightarrow> string list \<Rightarrow> usize option run" where
  "match_labels msg pos [] = Returns (Some pos)"
| "match_labels msg pos (label # ls) =
     (case get_at msg pos of
        None \<Rightarrow> Returns None
      | Some v \<Rightarrow>
          if unat v \<noteq> length label then Returns None
          else (case checked_add (pos + 1) (unat v) of
                  None \<Rightarrow> Returns None
                | Some stop \<Rightarrow>
                    if length msg < stop then Returns None
                    else run_bind (index_range msg (pos + 1) stop) (\<lambda>raw.
                           if \<not> eq_ignore_ascii_case (of_bytes raw) label then Returns None
                           else match_labels msg stop ls)))"

definition response_matches :: "bytes \<Rightarrow> u16 \<Rightarrow> string \<Rightarrow> u16 \<Rightarrow> bool run" where
  "response_matches msg expected_id expected_name expected_qtype =
     (if length msg < 12 then Returns False
      else run_bind (index16 msg 0) (\<lambda>rid.
        if rid \<noteq> expected_id then Returns False
        else run_bind (index msg 2) (\<lambda>flags.
        if flags AND 0x80 = 0 then Returns False
        else run_bind (index16 msg 4) (\<lambda>questions.
        if questions \<noteq> 1 then Returns False
        else run_bind (match_labels msg 12 (name_labels expected_name)) (\<lambda>labels.
        case labels of
          None \<Rightarrow> Returns False
        | Some pos \<Rightarrow>
            if get_at msg pos \<noteq> Some 0 then Returns False
            else if length msg < pos + 1 + 4 then Returns False
            else run_bind (index16 msg (pos + 1)) (\<lambda>t. Returns (t = expected_qtype)))))))"

subsection \<open>The answer\<close>

function skip_name :: "bytes \<Rightarrow> usize \<Rightarrow> usize option" where
  "skip_name buf pos =
     (case get_at buf pos of
        None \<Rightarrow> None
      | Some len \<Rightarrow>
          if len AND 0xc0 = 0xc0 then Some (pos + 2)
          else if len = 0 then Some (pos + 1)
          else skip_name buf (pos + (1 + unat len)))"
  by pat_completeness auto
termination
  by (relation "measure (\<lambda>(buf, pos). length buf - pos)") (auto simp: get_at_Some_iff)

declare skip_name.simps [simp del]

function svcparams_scan :: "bytes \<Rightarrow> usize \<Rightarrow> usize \<Rightarrow> bytes option run" where
  "svcparams_scan msg stop p =
     (if p + 4 \<le> stop then
        run_bind (index16 msg p) (\<lambda>key.
        run_bind (index16 msg (p + 2)) (\<lambda>len.
          if stop < p + 4 + unat len then Returns None
          else if key = SVCPARAM_ECH
          then run_bind (index_range msg (p + 4) (p + 4 + unat len)) (\<lambda>ech. Returns (Some ech))
          else svcparams_scan msg stop (p + 4 + unat len)))
      else Returns None)"
  by pat_completeness auto
termination
  by (relation "measure (\<lambda>(msg, stop, p). stop - p)") auto

declare svcparams_scan.simps [simp del]

definition parse_svcparams_ech :: "bytes \<Rightarrow> usize \<Rightarrow> usize \<Rightarrow> bytes option run" where
  "parse_svcparams_ech msg rdata_start rdlen =
     (let stop = rdata_start + rdlen in
      if stop < rdata_start + 2 then Returns None
      else (case skip_name msg (rdata_start + 2) of
              None \<Rightarrow> Returns None
            | Some p \<Rightarrow> svcparams_scan msg stop p))"

fun skip_questions :: "bytes \<Rightarrow> nat \<Rightarrow> usize \<Rightarrow> usize option" where
  "skip_questions msg 0 pos = Some pos"
| "skip_questions msg (Suc k) pos =
     do { p \<leftarrow> skip_name msg pos; p' \<leftarrow> checked_add p 4; skip_questions msg k p' }"

fun scan_answers :: "bytes \<Rightarrow> nat \<Rightarrow> usize \<Rightarrow> bytes option run" where
  "scan_answers msg 0 pos = Returns None"
| "scan_answers msg (Suc k) pos0 =
     (case skip_name msg pos0 of
        None \<Rightarrow> Returns None
      | Some pos \<Rightarrow>
          if length msg < pos + 10 then Returns None
          else run_bind (index16 msg pos) (\<lambda>rtype.
               run_bind (index16 msg (pos + 8)) (\<lambda>rdlen.
                 if length msg < pos + 10 + unat rdlen then Returns None
                 else run_bind (if rtype = RR_HTTPS then parse_svcparams_ech msg (pos + 10) (unat rdlen) else Returns None)
                        (\<lambda>found. case found of
                           Some ech \<Rightarrow> Returns (Some ech)
                         | None \<Rightarrow> scan_answers msg k (pos + 10 + unat rdlen)))))"

definition parse_https_ech :: "bytes \<Rightarrow> bytes option run" where
  "parse_https_ech msg =
     (if length msg < 12 then Returns None
      else run_bind (index16 msg 4) (\<lambda>qd.
           run_bind (index16 msg 6) (\<lambda>an.
             case skip_questions msg (unat qd) 12 of
               None \<Rightarrow> Returns None
             | Some pos \<Rightarrow> scan_answers msg (unat an) pos)))"

subsection \<open>Asking the servers\<close>

text \<open>What each \<^verbatim>\<open>timeout_at(deadline, sock.recv(..))\<close> of a query gives, in order.\<close>

datatype recv_answer = RecvTimeout | RecvError string | RecvBytes bytes

fun ech_replies :: "u16 \<Rightarrow> string \<Rightarrow> recv_answer list \<Rightarrow> bytes result run option" where
  "ech_replies qid host [] = None"
| "ech_replies qid host (RecvTimeout # rs) = Some (Returns (Inl (Ech ''dns timeout'')))"
| "ech_replies qid host (RecvError e # rs) = Some (Returns (Inl (Io e)))"
| "ech_replies qid host (RecvBytes b # rs) =
     (case response_matches b qid host RR_HTTPS of
        Panics \<Rightarrow> Some Panics
      | Returns False \<Rightarrow> ech_replies qid host rs
      | Returns True \<Rightarrow>
          Some (run_bind (parse_https_ech b) (\<lambda>r.
            Returns (case r of Some ech \<Rightarrow> Inr ech | None \<Rightarrow> Inl (Ech ''no ech svcparam'')))))"

text \<open>
  \<^verbatim>\<open>fetch_ech_config\<close>, with the outcome of \<^verbatim>\<open>query_ech\<close> for a server and a host: the first
  non-empty configuration, host by host and server by server.
\<close>

fun first_ech :: "(socket_addr \<Rightarrow> string \<Rightarrow> bytes result) \<Rightarrow> (string \<times> string) list \<Rightarrow> bytes result" where
  "first_ech query [] = Inl (Ech ''no ECHConfigList resolved'')"
| "first_ech query ((host, server) # rest) =
     (case parse_socket_addr server of
        None \<Rightarrow> first_ech query rest
      | Some addr \<Rightarrow>
          (case query addr host of
             Inr ech \<Rightarrow> if ech \<noteq> [] then Inr ech else first_ech query rest
           | Inl _ \<Rightarrow> first_ech query rest))"

definition fetch_ech_config :: "(socket_addr \<Rightarrow> string \<Rightarrow> bytes result) \<Rightarrow> bytes result" where
  "fetch_ech_config query = first_ech query (concat (map (\<lambda>h. map (\<lambda>s. (h, s)) BOOTSTRAP_DNS) ECH_HOSTS))"

end
