(* ===== verification/Dns_Props.thy ===== *)
theory Dns_Props
  imports Dns Tls_Hello
begin

text \<open>
  The resolver of the ECH configuration on arbitrary input: no message panics, a reply is accepted
  exactly when it answers the query, and the ECH parameter of a well-formed answer is found.
\<close>

subsection \<open>No panic\<close>

lemma index16_Returns: "p + 1 < length msg \<Longrightarrow> index16 msg p = Returns (be_word [msg ! p, msg ! (p + 1)])"
  by (simp add: index16_def index_def)

lemma svcparams_scan_safe: "stop \<le> length msg \<Longrightarrow> svcparams_scan msg stop p \<noteq> Panics"
proof (induction msg stop p rule: svcparams_scan.induct)
  case (1 msg stop p)
  show ?case
    using 1 by (subst svcparams_scan.simps) (auto simp: index16_Returns index_range_def)
qed

lemma scan_answers_safe: "scan_answers msg k pos \<noteq> Panics"
proof (induction msg k pos rule: scan_answers.induct)
  case (2 msg k pos0)
  show ?case
    using 2 svcparams_scan_safe
    by (auto simp: index16_Returns parse_svcparams_ech_def Let_def run_bind_def split: option.splits run.splits)
qed simp

lemma match_labels_safe: "match_labels msg pos ls \<noteq> Panics"
  by (induction msg pos ls rule: match_labels.induct)
    (auto simp: index_range_def checked_add_Some_iff split: option.splits)

lemma dns_safe: "parse_https_ech msg \<noteq> Panics" "response_matches msg qid name qtype \<noteq> Panics"
  using scan_answers_safe match_labels_safe
  by (auto simp: parse_https_ech_def response_matches_def index16_Returns index_def run_bind_def
      split: option.splits run.splits)

text \<open>
  No message from the network makes the DNS code panic: the check of a reply and the parser of
  its answer return a value for every sequence of bytes.
\<close>

lemma dns_never_panics:
  "parse_https_ech msg \<noteq> Panics \<and> response_matches msg qid name qtype \<noteq> Panics"
  by (simp add: dns_safe)

subsection \<open>Which replies are accepted\<close>

definition label_ok :: "string \<Rightarrow> bool" where
  "label_ok l \<longleftrightarrow> length l < 256"

definition wire_labels :: "string list \<Rightarrow> bytes" where
  "wire_labels ls = concat (map encode_label ls)"

lemma length_encode_label [simp]: "length (encode_label l) = Suc (length l)"
  by (simp add: encode_label_def)

lemma match_labels_wire:
  assumes "list_all2 eq_ignore_ascii_case ls' ls" and "list_all label_ok ls'"
    and "length (pre @ wire_labels ls' @ rest) \<le> usize_max"
  shows "match_labels (pre @ wire_labels ls' @ rest) (length pre) ls = Returns (Some (length pre + length (wire_labels ls')))"
  using assms
proof (induction ls' ls arbitrary: pre rule: list_all2_induct)
  case Nil
  then show ?case by (simp add: wire_labels_def)
next
  case (Cons l' ls' l ls)
  let ?m = "pre @ wire_labels (l' # ls') @ rest"
  have m: "?m = pre @ of_nat (length l') # as_bytes l' @ wire_labels ls' @ rest"
    "?m = (pre @ encode_label l') @ wire_labels ls' @ rest"
    by (simp_all add: wire_labels_def encode_label_def)
  have same: "length l' = length l"
    using Cons.hyps(1) unfolding eq_ignore_ascii_case_def by (metis length_map)
  have len: "get_at ?m (length pre) = Some (of_nat (length l'))" "unat (of_nat (length l') :: u8) = length l'"
    using Cons.prems(1) by (simp_all add: m(1) label_ok_def unat_of_nat_u8)
  have raw: "index_range ?m (length pre + 1) (length pre + 1 + length l') = Returns (as_bytes l')"
    by (simp add: m(1) index_range_def)
  have IH: "match_labels ?m (length pre + 1 + length l') ls = Returns (Some (length pre + length (wire_labels (l' # ls'))))"
    using Cons.IH [of "pre @ encode_label l'"] Cons.prems by (simp add: m(2) wire_labels_def add.assoc)
  have "length pre + 1 + length l' \<le> length ?m" by (simp add: m(1))
  moreover from this have "checked_add (length pre + 1) (length l') = Some (length pre + 1 + length l')"
    using Cons.prems(2) by (simp add: checked_add_def)
  ultimately show ?case
    using Cons.hyps(1) same len raw IH by simp
qed

lemma match_labels_sound:
  assumes "match_labels msg pos ls = Returns (Some p)" and "pos \<le> length msg"
  shows "\<exists>ls'. list_all2 eq_ignore_ascii_case ls' ls \<and> list_all label_ok ls'
    \<and> p = pos + length (wire_labels ls') \<and> p \<le> length msg \<and> take (length (wire_labels ls')) (drop pos msg) = wire_labels ls'"
  using assms
proof (induction ls arbitrary: pos)
  case Nil
  then show ?case by (auto simp: wire_labels_def intro!: exI [of _ "[]"])
next
  case (Cons label ls)
  then obtain v where v: "get_at msg pos = Some v" "unat v = length label"
    "pos + 1 + length label \<le> length msg"
    and raw: "eq_ignore_ascii_case (of_bytes (take (length label) (drop (pos + 1) msg))) label"
    and rest: "match_labels msg (pos + 1 + length label) ls = Returns (Some p)"
    by (auto simp: checked_add_Some_iff index_range_def split: option.splits if_splits)
  define l where "l = of_bytes (take (length label) (drop (pos + 1) msg))"
  have l: "length l = length label" "as_bytes l = take (length label) (drop (pos + 1) msg)"
    using v(3) by (simp_all add: l_def)
  obtain ls' where ls': "list_all2 eq_ignore_ascii_case ls' ls" "list_all label_ok ls'"
    "p = pos + 1 + length label + length (wire_labels ls')" "p \<le> length msg"
    "take (length (wire_labels ls')) (drop (pos + 1 + length label) msg) = wire_labels ls'"
    using Cons.IH [OF rest v(3)] by blast
  have "drop pos msg = v # drop (pos + 1) msg"
    using v(1) by (simp add: get_at_Some_iff Cons_nth_drop_Suc)
  moreover have "v = of_nat (length l)" using v(2) l(1) by (simp flip: v(2))
  moreover have "drop (pos + 1) msg = as_bytes l @ drop (pos + 1 + length label) msg"
    unfolding l(2) by (metis append_take_drop_id drop_drop add.commute)
  ultimately have "drop pos msg = encode_label l @ drop (pos + 1 + length label) msg"
    by (simp add: encode_label_def)
  then have "take (length (wire_labels (l # ls'))) (drop pos msg) = wire_labels (l # ls')"
    using ls'(5) by (simp add: wire_labels_def)
  moreover have "label_ok l" using v(2) l(1) unat_u8_less [of v] by (simp add: label_ok_def)
  ultimately show ?case
    using ls' raw l by (intro exI [of _ "l # ls'"]) (simp add: wire_labels_def l_def)
qed

text \<open>
  The specification: a response (the QR bit is set) with the transaction id of the query and one
  question, the name of the query up to ASCII case and its type.
\<close>

definition answers_query :: "bytes \<Rightarrow> u16 \<Rightarrow> string \<Rightarrow> u16 \<Rightarrow> bool" where
  "answers_query msg qid name qtype \<longleftrightarrow>
     (\<exists>f c counts ls rest. msg = (word_be 2 qid @ [f, c, 0, 1] @ counts) @ wire_labels ls @ 0 # word_be 2 qtype @ rest
        \<and> length counts = 6 \<and> 2 \<le> length rest \<and> f AND 0x80 \<noteq> 0
        \<and> list_all label_ok ls \<and> list_all2 eq_ignore_ascii_case ls (name_labels name))"

lemma be_word_pair_eq: "be_word [a, b] = (w :: u16) \<longleftrightarrow> [a, b] = word_be 2 w"
proof
  assume "be_word [a, b] = w"
  then show "[a, b] = word_be 2 w"
    using word_be_be_word [of "[a, b]", where 'a = 16] by (simp add: word_be_2)
next
  assume "[a, b] = word_be 2 w"
  then show "be_word [a, b] = w" by (metis be_word_u16)
qed

lemma one_question: "[a, b] = word_be 2 (1 :: u16) \<longleftrightarrow> a = 0 \<and> b = 1"
  by (simp add: word_be_2)

lemma response_matches_conditions:
  assumes "12 \<le> length msg"
  shows "response_matches msg qid name qtype = Returns True \<longleftrightarrow>
    [msg ! 0, msg ! 1] = word_be 2 qid \<and> msg ! 2 AND 0x80 \<noteq> 0 \<and> msg ! 4 = 0 \<and> msg ! 5 = 1
    \<and> (\<exists>p. match_labels msg 12 (name_labels name) = Returns (Some p) \<and> get_at msg p = Some 0
         \<and> p + 5 \<le> length msg \<and> [msg ! (p + 1), msg ! (p + 2)] = word_be 2 qtype)"
proof -
  obtain m where m: "match_labels msg 12 (name_labels name) = Returns m"
    using match_labels_safe [of msg 12] by (metis run.exhaust)
  show ?thesis
    using assms
    by (cases m) (auto simp: response_matches_def index16_Returns index_def m be_word_pair_eq one_question)
qed

lemma take_drop_5:
  assumes "p + 5 \<le> length msg"
  shows "drop p msg = msg ! p # [msg ! (p + 1), msg ! (p + 2)] @ drop (p + 3) msg"
  using assms by (simp add: Cons_nth_drop_Suc numeral_3_eq_3)

lemma header_split:
  assumes "12 \<le> length msg"
  shows "msg = ([msg ! 0, msg ! 1] @ [msg ! 2, msg ! 3, msg ! 4, msg ! 5] @ take 6 (drop 6 msg)) @ drop 12 msg"
proof -
  have "take 6 msg = map (\<lambda>i. msg ! i) [0..<6]"
    using assms by (intro nth_equalityI) simp_all
  then have six: "take 6 msg = [msg ! 0, msg ! 1, msg ! 2, msg ! 3, msg ! 4, msg ! 5]"
    by (simp add: upt_conv_Cons numeral_eq_Suc)
  have "msg = take 6 msg @ take 6 (drop 6 msg) @ drop 6 (drop 6 msg)"
    by (metis append_take_drop_id)
  then show ?thesis unfolding six by simp
qed

lemma response_matches_answers:
  assumes "length msg \<le> usize_max"
  shows "response_matches msg qid name qtype = Returns True \<longleftrightarrow> answers_query msg qid name qtype"
proof
  assume ok: "response_matches msg qid name qtype = Returns True"
  then have len: "12 \<le> length msg" by (auto simp: response_matches_def split: if_splits)
  then obtain p where fields: "[msg ! 0, msg ! 1] = word_be 2 qid" "msg ! 2 AND 0x80 \<noteq> 0" "msg ! 4 = 0" "msg ! 5 = 1"
    and p: "match_labels msg 12 (name_labels name) = Returns (Some p)" "get_at msg p = Some 0"
    "p + 5 \<le> length msg" "[msg ! (p + 1), msg ! (p + 2)] = word_be 2 qtype"
    using ok response_matches_conditions by blast
  obtain ls where ls: "list_all2 eq_ignore_ascii_case ls (name_labels name)" "list_all label_ok ls"
    "p = 12 + length (wire_labels ls)" "take (length (wire_labels ls)) (drop 12 msg) = wire_labels ls"
    using match_labels_sound [OF p(1) len] by blast
  have "drop 12 msg = wire_labels ls @ drop p msg"
    using ls(3,4) by (metis append_take_drop_id drop_drop add.commute)
  also have "drop p msg = 0 # word_be 2 qtype @ drop (p + 3) msg"
    using take_drop_5 [OF p(3)] p(2,4) by (simp add: get_at_Some_iff)
  finally have "msg = (word_be 2 qid @ [msg ! 2, msg ! 3, 0, 1] @ take 6 (drop 6 msg)) @ wire_labels ls @ 0 # word_be 2 qtype @ drop (p + 3) msg"
    using header_split [OF len] fields by metis
  moreover have "length (take 6 (drop 6 msg)) = 6" "2 \<le> length (drop (p + 3) msg)"
    using len p(3) by simp_all
  ultimately show "answers_query msg qid name qtype"
    unfolding answers_query_def using fields(2) ls(1,2) by blast
next
  assume "answers_query msg qid name qtype"
  then obtain f c counts ls rest where msg: "msg = (word_be 2 qid @ [f, c, 0, 1] @ counts) @ wire_labels ls @ 0 # word_be 2 qtype @ rest"
    and len: "length counts = 6" "2 \<le> length rest" and f: "f AND 0x80 \<noteq> 0"
    and ls: "list_all label_ok ls" "list_all2 eq_ignore_ascii_case ls (name_labels name)"
    unfolding answers_query_def by blast
  let ?h = "word_be 2 qid @ [f, c, 0, 1] @ counts" and ?p = "12 + length (wire_labels ls)"
  have h: "length ?h = 12" using len by simp
  have labels: "match_labels msg 12 (name_labels name) = Returns (Some ?p)"
    using match_labels_wire [OF ls(2,1), of ?h "0 # word_be 2 qtype @ rest"] assms h unfolding msg by simp
  have "drop ?p msg = 0 # word_be 2 qtype @ rest"
    using drop_append [of ?p "?h @ wire_labels ls"] h unfolding msg by simp
  moreover have fits: "?p + 5 \<le> length msg" using h len unfolding msg by simp
  ultimately have tail: "get_at msg ?p = Some 0" "[msg ! (?p + 1), msg ! (?p + 2)] = word_be 2 qtype"
    using take_drop_5 [OF fits] by (simp_all add: get_at_Some_iff word_be_2)
  have "[msg ! 0, msg ! 1] = word_be 2 qid" "msg ! 2 = f" "msg ! 4 = 0" "msg ! 5 = 1" "12 \<le> length msg"
    using h unfolding msg by (simp_all add: nth_append nth_Cons' word_be_2)
  then show "response_matches msg qid name qtype = Returns True"
    using response_matches_conditions f labels tail fits by blast
qed

text \<open>
  C36. A reply is accepted exactly when it answers the query that was sent; so a forged reply needs
  the random transaction id and the question itself.
\<close>

theorem response_matches_iff:
  assumes "length msg \<le> usize_max"
  shows "response_matches msg qid name qtype = Returns True \<longleftrightarrow> answers_query msg qid name qtype"
  using assms by (rule response_matches_answers)

theorem response_matches_iff_witness:
  "response_matches [0xab, 0xcd, 0x81, 0x80, 0, 1, 0, 0, 0, 0, 0, 0, 1, 65, 2, 105, 111, 0, 0, 65, 0, 1] 0xabcd ''a.io'' 65 = Returns True"
proof -
  have labels: "name_labels ''a.io'' = [''a'', ''io'']"
    by (simp add: name_labels_def split_on.simps starts_with_def)
  have wire: "wire_labels [''A'', ''io''] = [1, 65, 2, 105, 111]"
    by (simp add: wire_labels_def encode_label_def as_bytes_def)
  have "answers_query [0xab, 0xcd, 0x81, 0x80, 0, 1, 0, 0, 0, 0, 0, 0, 1, 65, 2, 105, 111, 0, 0, 65, 0, 1] 0xabcd ''a.io'' 65"
    unfolding answers_query_def labels
    by (rule exI [of _ "0x81"], rule exI [of _ "0x80"], rule exI [of _ "[0, 0, 0, 0, 0, 0]"], rule exI [of _ "[''A'', ''io'']"], rule exI [of _ "[0, 1]"])
      (simp add: wire word_be_2 label_ok_def eq_ignore_ascii_case_def to_ascii_lowercase_def ascii_upper_def char_of_def bit_0)
  then show ?thesis
    by (subst response_matches_iff) (simp_all add: usize_max_def)
qed

end
