(* ===== verification/Dns_Ech.thy ===== *)
theory Dns_Ech
  imports Dns_Props
begin

text \<open>
  The ECH parameter of a well-formed answer is found. The wire format of RFC 1035 (names of labels
  that end with the root or a compression pointer, resource records) and RFC 9460 (service
  parameters) is the specification.
\<close>

type_synonym wire_name = "string list \<times> bytes"

definition name_ok :: "wire_name \<Rightarrow> bool" where
  "name_ok n \<longleftrightarrow> list_all (\<lambda>l. 0 < length l \<and> length l < 64) (fst n)
     \<and> (snd n = [0] \<or> (\<exists>a b. snd n = [a, b] \<and> a AND 0xc0 = 0xc0))"

definition name_bytes :: "wire_name \<Rightarrow> bytes" where
  "name_bytes n = wire_labels (fst n) @ snd n"

record wire_rr =
  rr_name :: wire_name
  rr_type :: u16
  rr_class_ttl :: bytes
  rr_data :: bytes

definition rr_bytes :: "wire_rr \<Rightarrow> bytes" where
  "rr_bytes r = name_bytes (rr_name r) @ word_be 2 (rr_type r) @ rr_class_ttl r
     @ word_be 2 (of_nat (length (rr_data r)) :: u16) @ rr_data r"

definition rr_ok :: "wire_rr \<Rightarrow> bool" where
  "rr_ok r \<longleftrightarrow> name_ok (rr_name r) \<and> length (rr_class_ttl r) = 6 \<and> length (rr_data r) < 65536"

definition param_bytes :: "u16 \<times> bytes \<Rightarrow> bytes" where
  "param_bytes = ext_bytes"

definition https_data :: "bytes \<Rightarrow> wire_name \<Rightarrow> (u16 \<times> bytes) list \<Rightarrow> bytes" where
  "https_data priority target params = priority @ name_bytes target @ exts_bytes params"

subsection \<open>Names\<close>

lemma short_label_not_pointer:
  assumes "n < 64"
  shows "(of_nat n :: u8) AND 0xc0 \<noteq> 0xc0"
proof
  assume *: "(of_nat n :: u8) AND 0xc0 = 0xc0"
  have "unat ((of_nat n :: u8) AND 0xc0) \<le> unat (of_nat n :: u8)"
    using word_and_le2 word_le_nat_alt by blast
  with * assms show False by (simp add: unat_of_nat_u8)
qed

lemma skip_name_wire:
  assumes "name_ok (ls, t)"
  shows "skip_name (pre @ name_bytes (ls, t) @ rest) (length pre) = Some (length pre + length (name_bytes (ls, t)))"
  using assms
proof (induction ls arbitrary: pre)
  case Nil
  then show ?case
    by (subst skip_name.simps) (auto simp: name_ok_def name_bytes_def wire_labels_def)
next
  case (Cons l ls)
  let ?m = "pre @ name_bytes (l # ls, t) @ rest"
  have m: "?m = (pre @ encode_label l) @ name_bytes (ls, t) @ rest"
    "?m = pre @ of_nat (length l) # as_bytes l @ name_bytes (ls, t) @ rest"
    by (simp_all add: name_bytes_def wire_labels_def encode_label_def)
  have l: "0 < length l" "length l < 64" "name_ok (ls, t)" using Cons.prems by (simp_all add: name_ok_def)
  have len: "unat (of_nat (length l) :: u8) = length l" using l(2) by (simp add: unat_of_nat_u8)
  then have nz: "(of_nat (length l) :: u8) \<noteq> 0" using l(1) by (metis less_numeral_extra(3) unsigned_0)
  have at: "get_at ?m (length pre) = Some (of_nat (length l))" by (simp add: m(2))
  have "skip_name ?m (length pre) = skip_name ?m (length (pre @ encode_label l))"
    using at short_label_not_pointer [OF l(2)] nz by (subst skip_name.simps) (simp add: len add.commute)
  also have "\<dots> = Some (length pre + length (name_bytes (l # ls, t)))"
    using Cons.IH [OF l(3), of "pre @ encode_label l"] unfolding m(1)
    by (simp add: name_bytes_def wire_labels_def)
  finally show ?case .
qed

lemma skip_name_behind:
  "name_ok n \<Longrightarrow> p = length pre \<Longrightarrow> skip_name (pre @ name_bytes n @ rest) p = Some (p + length (name_bytes n))"
  using skip_name_wire [of "fst n" "snd n"] by simp

subsection \<open>Service parameters\<close>

lemma index16_be16: "be16 msg p = Some v \<Longrightarrow> index16 msg p = Returns (of_nat v)"
  by (auto simp: be16_be_nat get_range_Some_iff index16_Returns be_word_of_nat Cons_nth_drop_Suc [symmetric] numeral_2_eq_2)

lemma index16_behind: "p = length xs \<Longrightarrow> index16 (xs @ word_be 2 w @ ys) p = Returns w"
  using index16_be16 [OF be16_behind, of p xs w ys] by simp

interpretation svc_scan: tlv_scan svcparams_scan SVCPARAM_ECH
proof
  fix e :: "u16 \<times> bytes" and stop and pre rest :: bytes
  assume e: "fst e \<noteq> SVCPARAM_ECH" "length (snd e) < 65536" "length pre + 4 + length (snd e) \<le> stop"
  then have "index16 (pre @ ext_bytes e @ rest) (length pre) = Returns (fst e)"
    "index16 (pre @ ext_bytes e @ rest) (length pre + 2) = Returns (of_nat (length (snd e)))"
    by (simp_all add: index16_be16 [OF tlv_fields(1)] index16_be16 [OF tlv_fields(2)] del: add_2_eq_Suc')
  then show "svcparams_scan (pre @ ext_bytes e @ rest) stop (length pre)
      = svcparams_scan (pre @ ext_bytes e @ rest) stop (length pre + 4 + length (snd e))"
    using e by (subst svcparams_scan.simps) (simp add: unat_of_nat_u16 del: add_2_eq_Suc')
qed

lemma svcparams_found:
  assumes "length pre + 4 + length ech \<le> stop" and "length ech < 65536"
  shows "svcparams_scan (pre @ ext_bytes (SVCPARAM_ECH, ech) @ rest) stop (length pre) = Returns (Some ech)"
proof -
  let ?h = "pre @ ext_bytes (SVCPARAM_ECH, ech) @ rest"
  have kind: "index16 ?h (length pre) = Returns SVCPARAM_ECH"
    using index16_behind [of "length pre" pre SVCPARAM_ECH] by (simp add: ext_bytes_def)
  have len: "index16 ?h (length pre + 2) = Returns (of_nat (length ech))"
    using index16_behind [of "length pre + 2" "pre @ word_be 2 SVCPARAM_ECH"] by (simp add: ext_bytes_def)
  have "index_range ?h (length pre + 4) (length pre + 4 + length ech) = Returns ech"
    by (simp add: ext_bytes_def index_range_def)
  then show ?thesis
    using assms by (subst svcparams_scan.simps) (simp add: kind len unat_of_nat_u16 del: add_2_eq_Suc')
qed

subsection \<open>Resource records\<close>

lemma rr_fields:
  assumes "rr_ok r" and "p = length pre + length (name_bytes (rr_name r))"
  shows "skip_name (pre @ rr_bytes r @ rest) (length pre) = Some p"
    and "index16 (pre @ rr_bytes r @ rest) p = Returns (rr_type r)"
    and "index16 (pre @ rr_bytes r @ rest) (p + 8) = Returns (of_nat (length (rr_data r)))"
    and "length (rr_bytes r) = length (name_bytes (rr_name r)) + 10 + length (rr_data r)"
    and "unat (of_nat (length (rr_data r)) :: u16) = length (rr_data r)"
proof -
  let ?n = "name_bytes (rr_name r)"
  show "skip_name (pre @ rr_bytes r @ rest) (length pre) = Some p"
    using skip_name_behind [of "rr_name r" "length pre" pre] assms by (simp add: rr_bytes_def rr_ok_def)
  show "index16 (pre @ rr_bytes r @ rest) p = Returns (rr_type r)"
    using index16_behind [of p "pre @ ?n" "rr_type r"] assms(2) by (simp add: rr_bytes_def)
  show "index16 (pre @ rr_bytes r @ rest) (p + 8) = Returns (of_nat (length (rr_data r)))"
    using index16_behind [of "p + 8" "pre @ ?n @ word_be 2 (rr_type r) @ rr_class_ttl r"] assms
    by (simp add: rr_bytes_def rr_ok_def)
  show "length (rr_bytes r) = length ?n + 10 + length (rr_data r)"
    using assms(1) by (simp add: rr_bytes_def rr_ok_def)
  show "unat (of_nat (length (rr_data r)) :: u16) = length (rr_data r)"
    using assms(1) by (simp add: rr_ok_def unat_of_nat_u16)
qed

text \<open>
  A loop over the records of the answer section that passes over the records it does not want; the
  two resolvers of the engine have one each.
\<close>

locale rr_scan =
  fixes scan :: "bytes \<Rightarrow> nat \<Rightarrow> usize \<Rightarrow> 'r" and passes :: "wire_rr \<Rightarrow> bool"
  assumes pass: "rr_ok r \<Longrightarrow> passes r \<Longrightarrow>
    scan (pre @ rr_bytes r @ rest) (Suc k) (length pre) = scan (pre @ rr_bytes r @ rest) k (length (pre @ rr_bytes r))"
begin

lemma skip:
  assumes "list_all (\<lambda>r. rr_ok r \<and> passes r) rs"
  shows "scan (pre @ concat (map rr_bytes rs) @ rest) (length rs + k) (length pre)
       = scan (pre @ concat (map rr_bytes rs) @ rest) k (length pre + length (concat (map rr_bytes rs)))"
  using assms
proof (induction rs arbitrary: pre)
  case (Cons r rs)
  let ?m = "pre @ rr_bytes r @ concat (map rr_bytes rs) @ rest"
  have "scan ?m (Suc (length rs + k)) (length pre) = scan ?m (length rs + k) (length (pre @ rr_bytes r))"
    using Cons.prems by (intro pass) simp_all
  also have "\<dots> = scan ?m k (length (pre @ rr_bytes r) + length (concat (map rr_bytes rs)))"
    using Cons.IH [of "pre @ rr_bytes r"] Cons.prems by simp
  finally show ?case by (simp add: add.assoc)
qed simp

end

interpretation https_scan: rr_scan scan_answers "\<lambda>r. rr_type r \<noteq> RR_HTTPS"
proof
  fix r pre rest k
  assume r: "rr_ok r" "rr_type r \<noteq> RR_HTTPS"
  then show "scan_answers (pre @ rr_bytes r @ rest) (Suc k) (length pre)
      = scan_answers (pre @ rr_bytes r @ rest) k (length (pre @ rr_bytes r))"
    by (simp add: rr_fields [OF r(1) refl]) (simp add: add.assoc)
qed

lemma parse_svcparams_found:
  assumes "length pri = 2" and "name_ok target" and "list_all (\<lambda>e. fst e \<noteq> SVCPARAM_ECH \<and> length (snd e) < 65536) ps"
    and "d = https_data pri target (ps @ (SVCPARAM_ECH, ech) # qs)" and "length d < 65536" and "length pre < 2 ^ 20"
  shows "parse_svcparams_ech (pre @ d @ rest) (length pre) (length d) = Returns (Some ech)"
proof -
  let ?pre = "pre @ pri @ name_bytes target" and ?e = "ext_bytes (SVCPARAM_ECH, ech)"
  let ?stop = "length pre + length d"
  have d: "d = pri @ name_bytes target @ exts_bytes ps @ ?e @ exts_bytes qs"
    by (simp add: assms(4) https_data_def exts_bytes_def)
  have name: "skip_name (pre @ d @ rest) (length pre + 2) = Some (length ?pre)"
    using skip_name_behind [OF assms(2), of "length pre + 2" "pre @ pri"] assms(1) by (simp add: d)
  have fits: "length ?pre + length (exts_bytes ps) + 4 + length ech \<le> ?stop" "?stop < 2 ^ 32" "length ech < 65536"
    using assms(1,5,6) by (simp_all add: d)
  have "svcparams_scan (?pre @ exts_bytes ps @ ?e @ exts_bytes qs @ rest) ?stop (length ?pre)
      = svcparams_scan (?pre @ exts_bytes ps @ ?e @ exts_bytes qs @ rest) ?stop (length ?pre + length (exts_bytes ps))"
    by (rule svc_scan.skip) (use assms(3) fits in simp_all)
  also have "\<dots> = Returns (Some ech)"
    using svcparams_found [of "?pre @ exts_bytes ps" ech ?stop "exts_bytes qs @ rest"] fits by (simp add: add.assoc)
  finally have "svcparams_scan (pre @ d @ rest) ?stop (length ?pre) = Returns (Some ech)"
    by (simp add: d)
  moreover have "2 \<le> length d" using assms(1) by (simp add: d)
  ultimately show ?thesis by (simp add: parse_svcparams_ech_def name del: add_2_eq_Suc')
qed

lemma scan_https_record:
  assumes "rr_ok r" and "rr_type r = RR_HTTPS" and "rr_data r = https_data pri target (ps @ (SVCPARAM_ECH, ech) # qs)"
    and "length pri = 2" and "name_ok target"
    and "list_all (\<lambda>e. fst e \<noteq> SVCPARAM_ECH \<and> length (snd e) < 65536) ps" and "length (pre @ rr_bytes r) < 2 ^ 20"
  shows "scan_answers (pre @ rr_bytes r @ rest) (Suc k) (length pre) = Returns (Some ech)"
proof -
  let ?m = "pre @ rr_bytes r @ rest" and ?d = "rr_data r"
  let ?p = "pre @ name_bytes (rr_name r) @ word_be 2 (rr_type r) @ rr_class_ttl r @ word_be 2 (of_nat (length ?d) :: u16)"
  have p: "length ?p = length pre + length (name_bytes (rr_name r)) + 10"
    using assms(1) by (simp add: rr_ok_def)
  have "parse_svcparams_ech (?p @ ?d @ rest) (length ?p) (length ?d) = Returns (Some ech)"
    by (rule parse_svcparams_found) (use assms rr_fields(4) [OF assms(1) refl] p in \<open>simp_all add: rr_ok_def\<close>)
  moreover have "?p @ ?d @ rest = ?m" by (simp add: rr_bytes_def)
  ultimately have "parse_svcparams_ech ?m (length pre + length (name_bytes (rr_name r)) + 10) (length ?d) = Returns (Some ech)"
    by (metis p)
  then show ?thesis
    using assms(2) by (simp add: rr_fields [OF assms(1) refl])
qed

subsection \<open>The message\<close>

definition question_bytes :: "wire_name \<times> bytes \<Rightarrow> bytes" where
  "question_bytes q = name_bytes (fst q) @ snd q"

lemma skip_questions_wire:
  assumes "list_all (\<lambda>q. name_ok (fst q) \<and> length (snd q) = 4) qs"
    and "length (pre @ concat (map question_bytes qs)) \<le> usize_max"
  shows "skip_questions (pre @ concat (map question_bytes qs) @ rest) (length qs) (length pre)
       = Some (length pre + length (concat (map question_bytes qs)))"
  using assms
proof (induction qs arbitrary: pre)
  case (Cons q qs)
  let ?m = "pre @ question_bytes q @ concat (map question_bytes qs) @ rest"
  have name: "skip_name ?m (length pre) = Some (length pre + length (name_bytes (fst q)))"
    using skip_name_behind [of "fst q" "length pre" pre] Cons.prems(1) by (simp add: question_bytes_def)
  have "length (question_bytes q) = length (name_bytes (fst q)) + 4"
    using Cons.prems(1) by (simp add: question_bytes_def)
  then have "checked_add (length pre + length (name_bytes (fst q))) 4 = Some (length (pre @ question_bytes q))"
    using Cons.prems(2) by (simp add: checked_add_def)
  with name show ?case
    using Cons.IH [of "pre @ question_bytes q"] Cons.prems by (simp add: add.assoc)
qed simp

record dns_answer =
  da_id_flags :: bytes
  da_other_counts :: bytes
  da_questions :: "(wire_name \<times> bytes) list"
  da_before :: "wire_rr list"
  da_https :: wire_rr
  da_after :: "wire_rr list"

definition answer_bytes :: "dns_answer \<Rightarrow> bytes" where
  "answer_bytes a =
     da_id_flags a @ word_be 2 (of_nat (length (da_questions a)) :: u16)
       @ word_be 2 (of_nat (length (da_before a) + Suc (length (da_after a))) :: u16) @ da_other_counts a
       @ concat (map question_bytes (da_questions a)) @ concat (map rr_bytes (da_before a))
       @ rr_bytes (da_https a) @ concat (map rr_bytes (da_after a))"

definition answer_ok :: "dns_answer \<Rightarrow> bool" where
  "answer_ok a \<longleftrightarrow>
     length (da_id_flags a) = 4 \<and> length (da_other_counts a) = 4
     \<and> length (da_questions a) < 65536 \<and> length (da_before a) + Suc (length (da_after a)) < 65536
     \<and> list_all (\<lambda>q. name_ok (fst q) \<and> length (snd q) = 4) (da_questions a)
     \<and> list_all (\<lambda>r. rr_ok r \<and> rr_type r \<noteq> RR_HTTPS) (da_before a)
     \<and> rr_ok (da_https a) \<and> rr_type (da_https a) = RR_HTTPS \<and> length (answer_bytes a) < 2 ^ 20"

text \<open>
  In a well-formed response whose first HTTPS record carries an ECH parameter, whatever the
  questions, the compression of the names, the records in front of it and the other parameters, the
  parser returns exactly that parameter.
\<close>

lemma ech_parameter_found:
  assumes "answer_ok a" and "rr_data (da_https a) = https_data pri target (ps @ (SVCPARAM_ECH, ech) # qs)"
    and "length pri = 2" and "name_ok target"
    and "list_all (\<lambda>e. fst e \<noteq> SVCPARAM_ECH \<and> length (snd e) < 65536) ps"
  shows "parse_https_ech (answer_bytes a @ extra) = Returns (Some ech)"
proof -
  define q where "q = concat (map question_bytes (da_questions a))"
  define rs where "rs = concat (map rr_bytes (da_before a))"
  define qd where "qd = (of_nat (length (da_questions a)) :: u16)"
  define an where "an = (of_nat (length (da_before a) + Suc (length (da_after a))) :: u16)"
  define h where "h = da_id_flags a @ word_be 2 qd @ word_be 2 an @ da_other_counts a"
  define tail where "tail = concat (map rr_bytes (da_after a)) @ extra"
  define m where "m = answer_bytes a @ extra"
  have m: "m = h @ q @ rs @ rr_bytes (da_https a) @ tail"
    by (simp add: m_def answer_bytes_def h_def q_def rs_def tail_def qd_def an_def)
  have h: "length h = 12" and sizes: "unat qd = length (da_questions a)"
    "unat an = length (da_before a) + Suc (length (da_after a))" "length h + length q + length rs + length (rr_bytes (da_https a)) < 2 ^ 20"
    using assms(1) by (simp_all add: answer_ok_def answer_bytes_def h_def qd_def an_def q_def rs_def unat_of_nat_u16
        del: of_nat_add of_nat_Suc)
  have counts: "index16 m 4 = Returns qd" "index16 m 6 = Returns an"
    using index16_behind [of 4 "da_id_flags a" qd] index16_behind [of 6 "da_id_flags a @ word_be 2 qd" an] assms(1)
    by (simp_all add: m h_def answer_ok_def)
  have questions: "skip_questions m (length (da_questions a)) 12 = Some (length (h @ q))"
    using skip_questions_wire [of "da_questions a" h "rs @ rr_bytes (da_https a) @ tail"] assms(1) sizes(3)
    by (simp add: m h q_def answer_ok_def usize_max_def)
  have "scan_answers m (length (da_before a) + Suc (length (da_after a))) (length (h @ q))
      = scan_answers m (Suc (length (da_after a))) (length ((h @ q) @ rs))"
    using https_scan.skip [of "da_before a" "h @ q" "rr_bytes (da_https a) @ tail" "Suc (length (da_after a))"] assms(1)
    by (simp only: m rs_def answer_ok_def append.assoc length_append simp_thms add.assoc)
  also have "\<dots> = Returns (Some ech)"
  proof -
    have "scan_answers ((h @ q @ rs) @ rr_bytes (da_https a) @ tail) (Suc (length (da_after a))) (length (h @ q @ rs)) = Returns (Some ech)"
      by (rule scan_https_record) (use assms sizes(3) in \<open>simp_all add: answer_ok_def\<close>)
    then show ?thesis by (simp only: m append.assoc)
  qed
  finally show ?thesis
    using counts questions sizes h m by (simp add: parse_https_ech_def flip: m_def)
qed

definition sample_rr :: wire_rr where
  "sample_rr = \<lparr>rr_name = ([], [0xc0, 12]), rr_type = RR_HTTPS, rr_class_ttl = [0, 1, 0, 0, 1, 0],
     rr_data = https_data [0, 1] ([], [0]) ([(1, [2, 104, 50])] @ (SVCPARAM_ECH, [7, 8, 9]) # [])\<rparr>"

definition sample_answer :: dns_answer where
  "sample_answer = \<lparr>da_id_flags = [0xab, 0xcd, 0x81, 0x80], da_other_counts = [0, 0, 0, 0],
     da_questions = [(([''a'', ''io''], [0]), [0, 65, 0, 1])],
     da_before = [\<lparr>rr_name = ([''a''], [0xc0, 14]), rr_type = 5, rr_class_ttl = [0, 1, 0, 0, 1, 0], rr_data = [0]\<rparr>],
     da_https = sample_rr, da_after = []\<rparr>"

lemma sample_answer_ok: "answer_ok sample_answer"
  by (simp add: answer_ok_def sample_answer_def sample_rr_def rr_ok_def name_ok_def RR_HTTPS_def answer_bytes_def
      question_bytes_def rr_bytes_def name_bytes_def wire_labels_def https_data_def exts_bytes_def)

lemma ech_parameter_found_witness: "parse_https_ech (answer_bytes sample_answer @ [0]) = Returns (Some [7, 8, 9])"
  by (rule ech_parameter_found [OF sample_answer_ok, of "[0, 1]" "([], [0])" "[(1, [2, 104, 50])]" "[7, 8, 9]" "[]"])
    (simp_all add: sample_answer_def sample_rr_def name_ok_def SVCPARAM_ECH_def)

subsection \<open>Asking the servers\<close>

lemma first_ech_ok: "first_ech query ts = Inr ech \<Longrightarrow>
  ech \<noteq> [] \<and> (\<exists>(h, s) \<in> set ts. \<exists>a. parse_socket_addr s = Some a \<and> query a h = Inr ech)"
  by (induction query ts rule: first_ech.induct) (auto split: option.splits sum.splits if_splits)

lemma first_ech_complete:
  "(h, s) \<in> set ts \<Longrightarrow> parse_socket_addr s = Some a \<Longrightarrow> query a h = Inr e \<Longrightarrow> e \<noteq> [] \<Longrightarrow> \<exists>ech. first_ech query ts = Inr ech"
  by (induction query ts rule: first_ech.induct) (auto split: option.splits sum.splits)

lemma first_ech_error: "first_ech query ts = Inl e \<Longrightarrow> e = Ech ''no ECHConfigList resolved''"
  by (induction query ts rule: first_ech.induct) (auto split: option.splits sum.splits if_splits)

text \<open>A server gives a usable configuration for a host.\<close>

definition ech_offered :: "(socket_addr \<Rightarrow> string \<Rightarrow> bytes result) \<Rightarrow> string \<Rightarrow> string \<Rightarrow> bytes \<Rightarrow> bool" where
  "ech_offered query host server ech \<longleftrightarrow>
     (case parse_socket_addr server of None \<Rightarrow> False | Some a \<Rightarrow> query a host = Inr ech \<and> ech \<noteq> [])"

text \<open>
  \<^verbatim>\<open>fetch_ech_config\<close> returns a configuration that some bootstrap server gave for some of the
  hosts and that is not empty, and fails only when no server gives one for any host: every server is
  asked for every host before it gives up.
\<close>

lemma fetch_ech_config_complete:
  "case fetch_ech_config query of
     Inr ech \<Rightarrow> (\<exists>h s. h \<in> set ECH_HOSTS \<and> s \<in> set BOOTSTRAP_DNS \<and> ech_offered query h s ech)
   | Inl e \<Rightarrow> e = Ech ''no ECHConfigList resolved''
       \<and> \<not> (\<exists>h s ech. h \<in> set ECH_HOSTS \<and> s \<in> set BOOTSTRAP_DNS \<and> ech_offered query h s ech)"
proof -
  let ?ts = "concat (map (\<lambda>h. map (\<lambda>s. (h, s)) BOOTSTRAP_DNS) ECH_HOSTS)"
  have ts: "(h, s) \<in> set ?ts \<longleftrightarrow> h \<in> set ECH_HOSTS \<and> s \<in> set BOOTSTRAP_DNS" for h s by auto
  show ?thesis
  proof (cases "first_ech query ?ts")
    case (Inr ech)
    from first_ech_ok [OF this] obtain h s a where "(h, s) \<in> set ?ts" "parse_socket_addr s = Some a" "query a h = Inr ech" "ech \<noteq> []"
      by blast
    then have "ech_offered query h s ech" and "h \<in> set ECH_HOSTS \<and> s \<in> set BOOTSTRAP_DNS"
      using ts by (simp_all add: ech_offered_def)
    then show ?thesis unfolding fetch_ech_config_def Inr by auto
  next
    case (Inl e)
    then have "\<not> ech_offered query h s ech" if "(h, s) \<in> set ?ts" for h s ech
      using first_ech_complete [OF that] by (fastforce simp: ech_offered_def split: option.splits)
    then show ?thesis
      unfolding fetch_ech_config_def Inl using first_ech_error [OF Inl] ts by auto
  qed
qed

end
