(* ===== verification/Routing.thy ===== *)
theory Routing
  imports Sniff Fragment
begin

text \<open>
  \<^verbatim>\<open>routing.rs\<close>: the rules that send a connection through the tunnel, directly or nowhere. The
  crates \<^verbatim>\<open>ipnet\<close> and \<^verbatim>\<open>regex\<close> and the Unicode tables behind \<^verbatim>\<open>to_lowercase\<close> are parameters,
  gathered in the record \<open>route_lib\<close>; so is the file system.
\<close>

datatype action = Proxy | Direct | Block

definition action_label :: "action \<Rightarrow> string" where
  "action_label a = (case a of Proxy \<Rightarrow> ''proxy'' | Direct \<Rightarrow> ''direct'' | Block \<Rightarrow> ''block'')"

datatype host = Domain string | HostIp ip_addr

record ('n, 'r) route_lib =
  rl_ipnet_parse :: "string \<Rightarrow> 'n option"
  rl_ipnet_from :: "ip_addr \<Rightarrow> 'n"
  rl_ipnet_contains :: "'n \<Rightarrow> ip_addr \<Rightarrow> bool"
  rl_regex_new :: "string \<Rightarrow> 'r option"
  rl_regex_match :: "'r \<Rightarrow> string \<Rightarrow> bool"
  rl_lowercase :: "string \<Rightarrow> string"

datatype ('n, 'r) matcher =
    DomainSuffix string
  | DomainFull string
  | DomainKeyword string
  | DomainRegex 'r
  | Net 'n
  | Ports u16 u16
  | Private

subsection \<open>Addresses of the local network\<close>

definition v4_in :: "ipv4_addr \<Rightarrow> nat \<Rightarrow> ipv4_addr \<Rightarrow> bool" where
  "v4_in net len a \<longleftrightarrow> drop_bit (32 - len) a = drop_bit (32 - len) net"

definition v4_is_private :: "ipv4_addr \<Rightarrow> bool" where
  "v4_is_private a \<longleftrightarrow> v4_in 0x0a000000 8 a \<or> v4_in 0xac100000 12 a \<or> v4_in 0xc0a80000 16 a"

definition v4_is_loopback :: "ipv4_addr \<Rightarrow> bool" where
  "v4_is_loopback a \<longleftrightarrow> v4_in 0x7f000000 8 a"

definition v4_is_link_local :: "ipv4_addr \<Rightarrow> bool" where
  "v4_is_link_local a \<longleftrightarrow> v4_in 0xa9fe0000 16 a"

definition v4_is_documentation :: "ipv4_addr \<Rightarrow> bool" where
  "v4_is_documentation a \<longleftrightarrow> v4_in 0xc0000200 24 a \<or> v4_in 0xc6336400 24 a \<or> v4_in 0xcb007100 24 a"

definition v6_segment0 :: "ipv6_addr \<Rightarrow> u16" where
  "v6_segment0 a = be_word (take 2 (v6_octets a))"

definition is_private :: "ip_addr \<Rightarrow> bool" where
  "is_private ip =
     (case ip of
        V4 v4 \<Rightarrow>
          v4_is_private v4 \<or> v4_is_loopback v4 \<or> v4_is_link_local v4 \<or> v4 = 0xffffffff
          \<or> v4_is_documentation v4 \<or> v4 = 0
          \<or> (v4_octets v4 ! 0 = 100 \<and> 64 \<le> v4_octets v4 ! 1 \<and> v4_octets v4 ! 1 < 128)
      | V6 v6 \<Rightarrow>
          v6 = 1 \<or> v6 = 0 \<or> v6_segment0 v6 AND 0xfe00 = 0xfc00 \<or> v6_segment0 v6 AND 0xffc0 = 0xfe80)"

subsection \<open>Parsing a rule\<close>

definition normalize_domain :: "('n, 'r) route_lib \<Rightarrow> string \<Rightarrow> string option" where
  "normalize_domain lib value =
     (let cleaned = rl_lowercase lib (trim_end_matches (CHR ''.'')
            (trim_start_matches (CHR ''.'') (trim_start_matches (CHR ''*'') (trim value))))
      in if cleaned = [] then None else Some cleaned)"

definition parse_net :: "('n, 'r) route_lib \<Rightarrow> string \<Rightarrow> 'n option" where
  "parse_net lib raw =
     (let value = trim raw in
      case rl_ipnet_parse lib value of
        Some net \<Rightarrow> Some net
      | None \<Rightarrow> map_option (rl_ipnet_from lib) (parse_ip value))"

definition parse_u16 :: "string \<Rightarrow> u16 option" where
  "parse_u16 s = map_option of_nat (parse_uint 65535 s)"

definition parse_ports :: "string \<Rightarrow> (u16 \<times> u16) option" where
  "parse_ports raw =
     (let value = trim raw in
      case split_once (CHR ''-'') value of
        Some (a, b) \<Rightarrow>
          do { lo \<leftarrow> parse_u16 (trim a);
               hi \<leftarrow> parse_u16 (trim b);
               Some (if hi < lo then (hi, lo) else (lo, hi)) }
      | None \<Rightarrow> do { single \<leftarrow> parse_u16 value; Some (single, single) })"

definition entry_kind :: "('n, 'r) route_lib \<Rightarrow> string \<Rightarrow> string \<times> string" where
  "entry_kind lib entry =
     (case split_once (CHR '':'') entry of
        Some (kind, value) \<Rightarrow>
          if CHR ''.'' \<notin> set kind \<and> CHR ''/'' \<notin> set kind
          then (rl_lowercase lib (trim kind), trim value)
          else ([], entry)
      | None \<Rightarrow> ([], entry))"

definition matcher_parse :: "('n, 'r) route_lib \<Rightarrow> string \<Rightarrow> ('n, 'r) matcher option" where
  "matcher_parse lib raw =
     (let entry = trim raw in
      if entry = [] \<or> starts_with entry ''#'' then None
      else (case entry_kind lib entry of (kind, value) \<Rightarrow>
        if kind = ''domain'' \<or> kind = ''suffix'' then map_option DomainSuffix (normalize_domain lib value)
        else if kind = ''full'' \<or> kind = ''exact'' then map_option DomainFull (normalize_domain lib value)
        else if kind = ''keyword'' then
          (let needle = rl_lowercase lib (trim value) in if needle = [] then None else Some (DomainKeyword needle))
        else if kind = ''regexp'' \<or> kind = ''regex'' then map_option DomainRegex (rl_regex_new lib value)
        else if kind = ''ip'' \<or> kind = ''cidr'' then map_option Net (parse_net lib value)
        else if kind = ''port'' then map_option (\<lambda>(lo, hi). Ports lo hi) (parse_ports value)
        else if kind = ''geoip'' \<or> kind = ''geosite'' then
          (if eq_ignore_ascii_case value ''private'' then Some Private else None)
        else if kind = [] then
          (if eq_ignore_ascii_case value ''private'' then Some Private
           else (case parse_net lib value of
                   Some net \<Rightarrow> Some (Net net)
                 | None \<Rightarrow> map_option DomainSuffix (normalize_domain lib value)))
        else None))"

subsection \<open>Matching\<close>

fun matcher_matches :: "('n, 'r) route_lib \<Rightarrow> ('n, 'r) matcher \<Rightarrow> host \<Rightarrow> u16 \<Rightarrow> bool" where
  "matcher_matches lib (Ports lo hi) h port = (lo \<le> port \<and> port \<le> hi)"
| "matcher_matches lib Private h port =
     (case h of HostIp ip \<Rightarrow> is_private ip | Domain name \<Rightarrow> eq_ignore_ascii_case name ''localhost'')"
| "matcher_matches lib (Net net) h port =
     (case h of HostIp ip \<Rightarrow> rl_ipnet_contains lib net ip | Domain _ \<Rightarrow> False)"
| "matcher_matches lib (DomainSuffix suffix) h port =
     (case h of
        Domain name \<Rightarrow>
          (let name = rl_lowercase lib name in name = suffix \<or> ends_with name (CHR ''.'' # suffix))
      | HostIp _ \<Rightarrow> False)"
| "matcher_matches lib (DomainFull full) h port =
     (case h of Domain name \<Rightarrow> eq_ignore_ascii_case name full | HostIp _ \<Rightarrow> False)"
| "matcher_matches lib (DomainKeyword needle) h port =
     (case h of Domain name \<Rightarrow> contains (rl_lowercase lib name) needle | HostIp _ \<Rightarrow> False)"
| "matcher_matches lib (DomainRegex pattern) h port =
     (case h of Domain name \<Rightarrow> rl_regex_match lib pattern name | HostIp _ \<Rightarrow> False)"

subsection \<open>Rule sets\<close>

record ('n, 'r) rule_set =
  rs_block :: "('n, 'r) matcher list"
  rs_direct :: "('n, 'r) matcher list"

definition list_separator :: "char \<Rightarrow> bool" where
  "list_separator c \<longleftrightarrow> c = CHR 0x0A \<or> c = CHR '','' \<or> c = CHR '';''"

definition parse_list :: "('n, 'r) route_lib \<Rightarrow> string \<Rightarrow> ('n, 'r) matcher list" where
  "parse_list lib raw = List.map_filter (matcher_parse lib) (split_chars list_separator raw)"

definition push_list :: "string \<Rightarrow> string \<Rightarrow> string" where
  "push_list target extra =
     (if trim extra = [] then target
      else (if trim target \<noteq> [] then target @ [CHR 0x0A] else target) @ extra)"

datatype route_section = NoSection | BlockSection | DirectSection

fun split_lines :: "('n, 'r) route_lib \<Rightarrow> route_section \<Rightarrow> string list \<Rightarrow> string \<times> string \<Rightarrow> string \<times> string" where
  "split_lines lib cur [] acc = acc"
| "split_lines lib cur (line # lines) (block, direct) =
     (let trimmed = trim line in
      if trimmed = [] \<or> starts_with trimmed ''#'' then split_lines lib cur lines (block, direct)
      else (let lowered = rl_lowercase lib trimmed in
        if lowered = ''[block]'' then split_lines lib BlockSection lines (block, direct)
        else if lowered = ''[direct]'' then split_lines lib DirectSection lines (block, direct)
        else if starts_with lowered ''['' then split_lines lib NoSection lines (block, direct)
        else split_lines lib cur lines
          (case cur of
             NoSection \<Rightarrow> (block, direct)
           | BlockSection \<Rightarrow> (block @ trimmed @ [CHR 0x0A], direct)
           | DirectSection \<Rightarrow> (block, direct @ trimmed @ [CHR 0x0A]))))"

definition split_sections :: "('n, 'r) route_lib \<Rightarrow> string \<Rightarrow> string \<times> string" where
  "split_sections lib text = split_lines lib NoSection (str_lines text) ([], [])"

definition rule_set_parse :: "('n, 'r) route_lib \<Rightarrow> string \<Rightarrow> string \<Rightarrow> ('n, 'r) rule_set" where
  "rule_set_parse lib block direct = \<lparr>rs_block = parse_list lib block, rs_direct = parse_list lib direct\<rparr>"

text \<open>\<open>read_file\<close> is \<^verbatim>\<open>std::fs::read_to_string\<close>, None for an error.\<close>

definition rule_set_from_env ::
  "('n, 'r) route_lib \<Rightarrow> env \<Rightarrow> (string \<Rightarrow> string option) \<Rightarrow> ('n, 'r) rule_set" where
  "rule_set_from_env lib env read_file =
     (let block = var_or env ''AETHER_ROUTE_BLOCK'';
          direct = var_or env ''AETHER_ROUTE_DIRECT''
      in case env ''AETHER_ROUTES_FILE'' of
           None \<Rightarrow> rule_set_parse lib block direct
         | Some path \<Rightarrow>
             (case read_file path of
                None \<Rightarrow> rule_set_parse lib block direct
              | Some text \<Rightarrow>
                  (case split_sections lib text of (file_block, file_direct) \<Rightarrow>
                     rule_set_parse lib (push_list block file_block) (push_list direct file_direct))))"

definition rules_empty :: "('n, 'r) rule_set \<Rightarrow> bool" where
  "rules_empty rules \<longleftrightarrow> rs_block rules = [] \<and> rs_direct rules = []"

definition is_domain_rule :: "('n, 'r) matcher \<Rightarrow> bool" where
  "is_domain_rule m =
     (case m of DomainSuffix _ \<Rightarrow> True | DomainFull _ \<Rightarrow> True | DomainKeyword _ \<Rightarrow> True | DomainRegex _ \<Rightarrow> True | _ \<Rightarrow> False)"

definition has_domain_rules :: "('n, 'r) rule_set \<Rightarrow> bool" where
  "has_domain_rules rules \<longleftrightarrow> list_ex is_domain_rule (rs_block rules @ rs_direct rules)"

definition decide :: "('n, 'r) route_lib \<Rightarrow> ('n, 'r) rule_set \<Rightarrow> host \<Rightarrow> u16 \<Rightarrow> action" where
  "decide lib rules h port =
     (if list_ex (\<lambda>r. matcher_matches lib r h port) (rs_block rules) then Block
      else if list_ex (\<lambda>r. matcher_matches lib r h port) (rs_direct rules) then Direct
      else Proxy)"

end
