(* ===== verification/Routing_Props.thy ===== *)
theory Routing_Props
  imports Routing Sniff_Props
begin

text \<open>
  The rule sets: blank text has no rules, the rules of the environment and of the routing file are
  all loaded and in order, and a domain rule covers exactly the domain and its subdomains.
\<close>

subsection \<open>White space\<close>

definition blank :: "string \<Rightarrow> bool" where
  "blank s \<longleftrightarrow> (\<exists>ws. set ws \<subseteq> set white_space \<and> s = concat (map of_bytes ws))"

lemma white_space_prefix_free:
  "v \<in> set white_space \<Longrightarrow> w \<in> set white_space \<Longrightarrow> take (length v) w = v \<Longrightarrow> v = w"
proof -
  have "list_all (\<lambda>v. list_all (\<lambda>w. take (length v) w = v \<longrightarrow> v = w) white_space) white_space"
    by (simp add: white_space_def)
  then show "v \<in> set white_space \<Longrightarrow> w \<in> set white_space \<Longrightarrow> take (length v) w = v \<Longrightarrow> v = w"
    by (simp add: list_all_iff)
qed

lemma white_space_nonempty: "w \<in> set white_space \<Longrightarrow> w \<noteq> []"
  by (auto simp: white_space_def)

lemma starts_with_space:
  assumes "v \<in> set white_space" "w \<in> set white_space" "starts_with (of_bytes w @ s) (of_bytes v)"
  shows "v = w"
proof -
  have eq: "take (length v) (of_bytes w @ s) = of_bytes v" using assms(3) by (simp add: starts_with_def)
  show ?thesis
  proof (cases "length v \<le> length w")
    case True
    with eq have "of_bytes (take (length v) w) = of_bytes v" by (simp add: of_bytes_def take_map)
    then have "take (length v) w = v" by (metis as_bytes_of_bytes)
    with white_space_prefix_free assms show ?thesis by blast
  next
    case False
    have "take (length w) (of_bytes v) = take (length w) (take (length v) (of_bytes w @ s))" using eq by simp
    with False have "of_bytes (take (length w) v) = of_bytes w" by (simp add: of_bytes_def take_map)
    then have "take (length w) v = w" by (metis as_bytes_of_bytes)
    with white_space_prefix_free assms show ?thesis by blast
  qed
qed

lemma trim_start_space:
  assumes "w \<in> set white_space"
  shows "trim_start (of_bytes w @ s) = trim_start s"
proof -
  let ?P = "\<lambda>v. starts_with (of_bytes w @ s) (of_bytes v)"
  have "?P w" by (simp add: starts_with_def)
  then have "\<exists>v. find ?P white_space = Some v"
    using assms by (metis find_None_iff option.exhaust)
  then obtain v where v: "find ?P white_space = Some v" ..
  then have "v \<in> set white_space" "?P v" by (auto simp: find_Some_iff)
  then have "v = w" using starts_with_space assms by blast
  then have "leading_space white_space (of_bytes w @ s) = length w"
    using v by (simp add: leading_space_def)
  moreover have "0 < length w" using white_space_nonempty [OF assms] by simp
  ultimately show ?thesis
    unfolding trim_start_def by (subst trim_start_with.simps) (auto simp: of_bytes_def)
qed

lemma trim_start_blank_append: "blank t \<Longrightarrow> trim_start (t @ s) = trim_start s"
proof -
  have "set ws \<subseteq> set white_space \<Longrightarrow> trim_start (concat (map of_bytes ws) @ s) = trim_start s" for ws
    by (induction ws) (simp_all add: trim_start_space)
  then show "blank t \<Longrightarrow> trim_start (t @ s) = trim_start s" by (auto simp: blank_def)
qed

lemma trim_blank_append: "blank t \<Longrightarrow> trim (t @ s) = trim s"
  by (simp add: trim_def trim_start_blank_append)

lemma trim_blank: "blank t \<Longrightarrow> trim t = []"
  using trim_blank_append [of t "[]"] by simp

lemma blank_append: "blank s \<Longrightarrow> blank t \<Longrightarrow> blank (s @ t)"
  unfolding blank_def by (metis concat_append le_sup_iff map_append set_append)

lemma trim_start_with_cut:
  "\<exists>l. set l \<subseteq> set W \<and> s = concat (map of_bytes l) @ trim_start_with W s"
proof (induction W s rule: trim_start_with.induct)
  case (1 W s)
  show ?case
  proof (cases "0 < leading_space W s \<and> s \<noteq> []")
    case True
    then obtain w where w: "w \<in> set W" "starts_with s (of_bytes w)" "leading_space W s = length w"
      by (auto simp: leading_space_def find_Some_iff split: option.splits dest: nth_mem)
    then have cut: "s = of_bytes w @ drop (length w) s"
      by (metis starts_with_def append_take_drop_id length_of_bytes)
    obtain l where "set l \<subseteq> set W" "drop (length w) s = concat (map of_bytes l) @ trim_start_with W (drop (length w) s)"
      using "1.IH" True w(3) by auto
    moreover have "trim_start_with W s = trim_start_with W (drop (length w) s)"
      using True w(3) by (subst trim_start_with.simps) simp
    ultimately show ?thesis
      using cut w(1) by (intro exI [of _ "w # l"]) simp
  next
    case False
    then have "trim_start_with W s = s" by (subst trim_start_with.simps) auto
    then show ?thesis by (intro exI [of _ "[]"]) simp
  qed
qed

lemma rev_of_bytes: "rev (of_bytes b) = of_bytes (rev b)"
  by (simp add: of_bytes_def rev_map)

lemma blank_if_trim_end:
  assumes "trim_end s = []"
  shows "blank s"
proof -
  obtain l where l: "set l \<subseteq> set (map rev white_space)" "rev s = concat (map of_bytes l)"
    using trim_start_with_cut [of "map rev white_space" "rev s"] assms by (auto simp: trim_end_def)
  then have "s = rev (concat (map of_bytes l))" by (metis rev_rev_ident)
  then have "s = concat (map of_bytes (map rev (rev l)))"
    by (simp add: rev_concat rev_map comp_def rev_of_bytes)
  moreover have "set (map rev (rev l)) \<subseteq> set white_space" using l(1) by auto
  ultimately show ?thesis unfolding blank_def by blast
qed

lemma blank_iff: "blank s \<longleftrightarrow> trim s = []"
proof
  assume "trim s = []"
  then have "blank (trim_start s)" by (intro blank_if_trim_end) (simp add: trim_def)
  moreover have "\<exists>t. blank t \<and> s = t @ trim_start s"
    using trim_start_with_cut [of white_space s] unfolding blank_def trim_start_def by blast
  ultimately show "blank s" by (metis blank_append)
qed (rule trim_blank)

subsection \<open>Splitting a list of rules\<close>

lemma split_chars_nonempty [simp]: "split_chars P s \<noteq> []"
  by (induction s) (auto split: list.splits)

lemma split_chars_append:
  "split_chars P (a @ b) = butlast (split_chars P a) @ (last (split_chars P a) @ hd (split_chars P b)) # tl (split_chars P b)"
proof (induction a)
  case Nil
  then show ?case by simp
next
  case (Cons c a)
  then show ?case
    by (cases "split_chars P a") (auto simp: neq_Nil_conv)
qed

lemma split_chars_separator: "P c \<Longrightarrow> split_chars P (a @ c # b) = split_chars P a @ split_chars P b"
  using split_chars_append [of P a "c # b"] by simp

lemma split_chars_none: "\<forall>c \<in> set a. \<not> P c \<Longrightarrow> split_chars P a = [a]"
  by (induction a) auto

lemma white_space_separators:
  assumes "w \<in> set white_space"
  shows "split_chars list_separator (of_bytes w) = (if w = [0x0a] then [[], []] else [of_bytes w])"
proof (cases "w = [0x0a]")
  case True
  then show ?thesis by (simp add: of_bytes_def list_separator_def char_of_def bit_0)
next
  case False
  then have "\<forall>b \<in> set w. b \<noteq> 0x0a \<and> b \<noteq> 0x2c \<and> b \<noteq> 0x3b"
    using assms by (auto simp: white_space_def)
  moreover have "char_of (unat b) = c \<longleftrightarrow> b = of_char c" for b :: u8 and c
    using of_char_char_of_unat [of b] by (metis of_bytes_as_bytes of_bytes_def as_bytes_def list.map(1) list.map(2) list.inject)
  ultimately show ?thesis
    using False by (simp add: split_chars_none of_bytes_def list_separator_def)
qed

lemma blank_Nil [simp]: "blank []"
  by (simp add: blank_iff)

lemma blank_pieces: "blank s \<Longrightarrow> \<forall>p \<in> set (split_chars list_separator s). blank p"
proof -
  have "set ws \<subseteq> set white_space \<Longrightarrow> \<forall>p \<in> set (split_chars list_separator (concat (map of_bytes ws))). blank p" for ws
  proof (induction ws)
    case (Cons w ws)
    let ?r = "split_chars list_separator (concat (map of_bytes ws))"
    have w: "blank (of_bytes w)" using Cons.prems by (auto simp: blank_def intro!: exI [of _ "[w]"])
    have pieces: "\<forall>p \<in> set ?r. blank p" using Cons by simp
    have hd: "blank (hd ?r)" and tl: "\<forall>p \<in> set (tl ?r). blank p"
      using pieces by (metis hd_in_set split_chars_nonempty, metis list.set_sel(2) split_chars_nonempty)
    show ?case
      using Cons.prems white_space_separators [of w] w hd tl
      by (auto simp: split_chars_append blank_append)
  qed simp
  then show "blank s \<Longrightarrow> \<forall>p \<in> set (split_chars list_separator s). blank p" by (auto simp: blank_def)
qed

lemma matcher_parse_trim: "trim a = trim b \<Longrightarrow> matcher_parse lib a = matcher_parse lib b"
  by (simp add: matcher_parse_def)

lemma matcher_parse_blank: "blank p \<Longrightarrow> matcher_parse lib p = None"
  by (simp add: matcher_parse_def blank_iff)

lemma map_filter_append: "List.map_filter f (xs @ ys) = List.map_filter f xs @ List.map_filter f ys"
  by (induction xs) (simp_all split: option.splits)

lemma map_filter_none: "\<forall>x \<in> set xs. f x = None \<Longrightarrow> List.map_filter f xs = []"
  by (induction xs) (simp_all split: option.splits)

lemma parse_list_blank: "blank s \<Longrightarrow> parse_list lib s = []"
  using blank_pieces by (auto simp: parse_list_def matcher_parse_blank intro!: map_filter_none)

lemma parse_list_newline: "parse_list lib (a @ CHR 0x0A # b) = parse_list lib a @ parse_list lib b"
  by (simp add: parse_list_def split_chars_separator list_separator_def map_filter_append)

lemma parse_list_blank_prefix:
  assumes "blank t"
  shows "parse_list lib (t @ e) = parse_list lib e"
proof -
  let ?t = "split_chars list_separator t" and ?e = "split_chars list_separator e"
  obtain h r where e: "?e = h # r" by (cases ?e) simp_all
  have "List.map_filter (matcher_parse lib) (butlast ?t) = []"
    using blank_pieces [OF assms] by (auto dest!: in_set_butlastD intro!: map_filter_none matcher_parse_blank)
  moreover have "blank (last ?t)" using blank_pieces [OF assms] by simp
  then have "matcher_parse lib (last ?t @ h) = matcher_parse lib h"
    by (intro matcher_parse_trim trim_blank_append)
  ultimately show ?thesis
    unfolding parse_list_def split_chars_append map_filter_append e by simp
qed

lemma parse_list_push: "parse_list lib (push_list t e) = parse_list lib t @ parse_list lib e"
  by (cases "blank e"; cases "blank t")
    (simp_all add: push_list_def parse_list_newline parse_list_blank parse_list_blank_prefix flip: blank_iff)

text \<open>
  Every rule is loaded: the rules are those of the environment variables followed by those of the
  two sections of the routing file, whatever blank lines and separators either text has; a file that
  cannot be read adds none.
\<close>

lemma routes_all_loaded:
  "rule_set_from_env lib env read_file =
     (case (case env ''AETHER_ROUTES_FILE'' of
              None \<Rightarrow> ([], [])
            | Some path \<Rightarrow> (case read_file path of None \<Rightarrow> ([], []) | Some text \<Rightarrow> split_sections lib text)) of
        (file_block, file_direct) \<Rightarrow>
          \<lparr>rs_block = parse_list lib (var_or env ''AETHER_ROUTE_BLOCK'') @ parse_list lib file_block,
           rs_direct = parse_list lib (var_or env ''AETHER_ROUTE_DIRECT'') @ parse_list lib file_direct\<rparr>)"
  by (simp add: rule_set_from_env_def Let_def rule_set_parse_def parse_list_push parse_list_blank split: option.split prod.split)

subsection \<open>Domain rules\<close>

text \<open>What the engine relies on of the Unicode tables: ASCII letters are lowered as in ASCII.\<close>

definition ascii_string :: "string \<Rightarrow> bool" where
  "ascii_string s \<longleftrightarrow> list_all (\<lambda>c. (of_char c :: nat) < 128) s"

definition lowers_ascii :: "('n, 'r) route_lib \<Rightarrow> bool" where
  "lowers_ascii lib \<longleftrightarrow> (\<forall>s. ascii_string s \<longrightarrow> rl_lowercase lib s = to_lowercase s)"

lemma host_byte_graphic: "host_byte c \<Longrightarrow> ascii_graphic c \<and> (of_char c :: nat) < 128"
  by (auto simp: host_byte_def ascii_alphanumeric_def ascii_digit_def ascii_upper_def ascii_lower_def ascii_graphic_def)

lemma canonical_ascii: "canonical_host d \<Longrightarrow> ascii_string d"
  using host_byte_graphic by (auto simp: canonical_host_def ascii_string_def list_all_iff)

lemma trim_host:
  assumes "canonical_host d" and "p = [] \<or> ascii_graphic (hd p)"
  shows "trim (p @ d) = p @ d"
proof (rule trim_graphic)
  have d: "d \<noteq> []" "list_all host_byte d" using assms(1) by (simp_all add: canonical_host_def)
  then show "p @ d \<noteq> []" by simp
  have "ascii_graphic (hd d)" "ascii_graphic (last d)"
    using d host_byte_graphic by (auto simp: list_all_iff)
  then show "ascii_graphic (hd (p @ d))" "ascii_graphic (last (p @ d))"
    using assms(2) d(1) by (cases p; simp)+
qed

lemma normalize_domain_forms:
  assumes "lowers_ascii lib" and "canonical_host d" and "hd d \<noteq> CHR ''.''" and "p \<in> {[], ''.'', ''*.''}"
  shows "normalize_domain lib (p @ d) = Some d"
proof -
  obtain c cs where d: "d = c # cs" using assms(2) by (cases d) (simp_all add: canonical_host_def)
  have c: "c \<noteq> CHR ''.''" "c \<noteq> CHR ''*''"
    using assms(2,3) by (auto simp: d canonical_host_def host_byte_def ascii_alphanumeric_def ascii_digit_def ascii_upper_def ascii_lower_def)
  have "last d \<noteq> CHR ''.''" using assms(2) by (simp add: canonical_host_def)
  then have ends: "trim_end_matches (CHR ''.'') d = d"
    by (cases d rule: rev_cases) (simp_all add: trim_end_matches_def)
  have "trim (p @ d) = p @ d"
    using assms(4) by (intro trim_host assms) (auto simp: ascii_graphic_def)
  moreover have "trim_start_matches (CHR ''.'') (trim_start_matches (CHR ''*'') (p @ d)) = d"
    using assms(4) c by (auto simp: trim_start_matches_def d)
  moreover have "rl_lowercase lib d = d" "d \<noteq> []"
    using assms(1,2) canonical_ascii by (auto simp: lowers_ascii_def canonical_host_def)
  ultimately show ?thesis by (simp add: normalize_domain_def ends)
qed

lemma ends_with_iff: "ends_with s p \<longleftrightarrow> (\<exists>q. s = q @ p)"
proof
  assume "ends_with s p"
  then have "s = take (length s - length p) s @ p" by (metis ends_with_def append_take_drop_id)
  then show "\<exists>q. s = q @ p" by blast
qed (auto simp: ends_with_def)

text \<open>
  A domain rule covers the domain and its subdomains and nothing else: however the entry writes a
  canonical domain (bare, with a leading dot or with a wildcard label), it matches a host name exactly
  when the name in lower case is the domain or ends with a dot and the domain, and never an address.
\<close>

lemma domain_rule_covers_subdomains:
  assumes "lowers_ascii lib" and "canonical_host d" and "hd d \<noteq> CHR ''.''" and "p \<in> {[], ''.'', ''*.''}"
    and "ascii_string name"
  shows "\<exists>m. matcher_parse lib (''domain:'' @ p @ d) = Some m
    \<and> (matcher_matches lib m (Domain name) port \<longleftrightarrow> to_lowercase name = d \<or> (\<exists>q. to_lowercase name = q @ CHR ''.'' # d))
    \<and> \<not> matcher_matches lib m (HostIp ip) port"
proof -
  have "trim ((''domain:'' @ p) @ d) = (''domain:'' @ p) @ d"
    by (intro trim_host assms) (simp add: ascii_graphic_def)
  then have entry: "trim (''domain:'' @ p @ d) = ''domain:'' @ p @ d" by simp
  have "split_once (CHR '':'') (''domain'' @ CHR '':'' # p @ d) = Some (''domain'', p @ d)"
    by (rule split_once_append) simp
  then have colon: "split_once (CHR '':'') (''domain:'' @ p @ d) = Some (''domain'', p @ d)" by simp
  have val: "trim (p @ d) = p @ d"
    using assms(4) by (intro trim_host assms) (auto simp: ascii_graphic_def)
  have "trim ''domain'' = ''domain''" by (rule trim_graphic) (simp_all add: ascii_graphic_def)
  moreover have "rl_lowercase lib ''domain'' = ''domain''"
    using assms(1) by (simp add: lowers_ascii_def ascii_string_def to_lowercase_def to_ascii_lowercase_def ascii_upper_def)
  ultimately have "entry_kind lib (''domain:'' @ p @ d) = (''domain'', p @ d)"
    by (simp add: entry_kind_def colon val)
  then have "matcher_parse lib (''domain:'' @ p @ d) = Some (DomainSuffix d)"
    unfolding matcher_parse_def entry Let_def
    by (simp add: starts_with_def normalize_domain_forms [OF assms(1-4)])
  moreover have "rl_lowercase lib name = to_lowercase name"
    using assms(1,5) by (simp add: lowers_ascii_def)
  ultimately show ?thesis by (simp add: ends_with_iff Let_def)
qed

definition plain_lib :: "(ip_addr, string) route_lib" where
  "plain_lib = \<lparr>rl_ipnet_parse = (\<lambda>_. None), rl_ipnet_from = (\<lambda>a. a), rl_ipnet_contains = (\<lambda>n a. n = a),
     rl_regex_new = (\<lambda>r. Some r), rl_regex_match = (\<lambda>r s. contains s r), rl_lowercase = to_lowercase\<rparr>"

lemma canonical_sample: "canonical_host ''a.io''"
  by (simp add: canonical_host_def MAX_HOST_LEN_def host_byte_def ascii_alphanumeric_def to_lowercase_def
      to_ascii_lowercase_def ip_read)

lemma domain_rule_covers_subdomains_witness:
  "\<exists>m. matcher_parse plain_lib ''domain:*.a.io'' = Some m \<and> matcher_matches plain_lib m (Domain ''X.a.io'') 443"
proof -
  have "lowers_ascii plain_lib" by (simp add: lowers_ascii_def plain_lib_def)
  moreover have "ascii_string ''X.a.io''" by (simp add: ascii_string_def)
  moreover have "to_lowercase ''X.a.io'' = ''x'' @ CHR ''.'' # ''a.io''"
    by (simp add: to_lowercase_def to_ascii_lowercase_def ascii_upper_def char_of_def bit_0)
  ultimately show ?thesis
    using domain_rule_covers_subdomains [OF _ canonical_sample, of plain_lib "''*.''" "''X.a.io''" 443] by auto
qed

end
