(* ===== verification/Socks_Proto.thy ===== *)
theory Socks_Proto
  imports Routing
begin

text \<open>
  The SOCKS5 messages of \<^verbatim>\<open>socks.rs\<close>: the greeting and the request a client sends, the replies, and
  the header of the datagrams of a UDP association. What the client sends is a byte string;
  \<^verbatim>\<open>read_exact\<close> takes its first bytes or fails at its end.
\<close>

definition VER :: u8 where "VER = 0x05"
definition CMD_CONNECT :: u8 where "CMD_CONNECT = 0x01"
definition CMD_UDP_ASSOCIATE :: u8 where "CMD_UDP_ASSOCIATE = 0x03"
definition ATYP_V4 :: u8 where "ATYP_V4 = 0x01"
definition ATYP_DOMAIN :: u8 where "ATYP_DOMAIN = 0x03"
definition ATYP_V6 :: u8 where "ATYP_V6 = 0x04"
definition REP_OK :: u8 where "REP_OK = 0x00"
definition REP_GENERAL :: u8 where "REP_GENERAL = 0x01"
definition REP_NOT_ALLOWED :: u8 where "REP_NOT_ALLOWED = 0x02"
definition REP_NOT_SUPPORTED :: u8 where "REP_NOT_SUPPORTED = 0x07"

lemmas socks_consts = VER_def CMD_CONNECT_def CMD_UDP_ASSOCIATE_def ATYP_V4_def ATYP_DOMAIN_def ATYP_V6_def
  REP_OK_def REP_GENERAL_def REP_NOT_ALLOWED_def REP_NOT_SUPPORTED_def

datatype target = TargetIp ip_addr | TargetDomain string

definition host_of :: "target \<Rightarrow> host" where
  "host_of t = (case t of TargetDomain name \<Rightarrow> Domain name | TargetIp ip \<Rightarrow> HostIp ip)"

definition target_to_string :: "target \<Rightarrow> string" where
  "target_to_string t = (case t of TargetIp ip \<Rightarrow> ip_to_string ip | TargetDomain name \<Rightarrow> name)"

subsection \<open>Reading\<close>

definition read_exact :: "nat \<Rightarrow> bytes \<Rightarrow> (bytes \<times> bytes) result" where
  "read_exact n s = (if n \<le> length s then Inr (take n s, drop n s) else Inl (Io ''early eof''))"

text \<open>The greeting; the second value is what is written to the client.\<close>

definition handshake :: "bytes \<Rightarrow> (bytes \<times> bytes) result" where
  "handshake s =
     res_bind (read_exact 2 s) (\<lambda>(prefix, s1).
     if prefix ! 0 \<noteq> VER then Inl (Other ''bad greeting version'')
     else res_bind (read_exact (unat (prefix ! 1)) s1) (\<lambda>(methods, s2). Inr (s2, [VER, 0x00])))"

definition read_target :: "u8 \<Rightarrow> bytes \<Rightarrow> ((target \<times> u16) \<times> bytes) result" where
  "read_target atyp s =
     res_bind
       (if atyp = ATYP_V4 then res_bind (read_exact 4 s) (\<lambda>(b, r). Inr (TargetIp (V4 (be_word b)), r))
        else if atyp = ATYP_V6 then res_bind (read_exact 16 s) (\<lambda>(b, r). Inr (TargetIp (V6 (be_word b)), r))
        else if atyp = ATYP_DOMAIN then
          res_bind (read_exact 1 s) (\<lambda>(len, r).
          res_bind (read_exact (unat (len ! 0)) r) (\<lambda>(name, r'). Inr (TargetDomain (from_utf8_lossy name), r')))
        else Inl (Other ''bad atyp''))
       (\<lambda>(t, r). res_bind (read_exact 2 r) (\<lambda>(port, r'). Inr ((t, be_word port), r')))"

text \<open>The request behind the greeting; the second component is what has been written to the client.\<close>

definition read_request :: "bytes \<Rightarrow> ((u8 \<times> target \<times> u16) \<times> bytes) result \<times> bytes" where
  "read_request s =
     (case handshake s of
        Inl e \<Rightarrow> (Inl e, [])
      | Inr (s1, written) \<Rightarrow>
          (res_bind (read_exact 4 s1) (\<lambda>(head, s2).
           if head ! 0 \<noteq> VER then Inl (Other ''bad socks version'')
           else res_bind (read_target (head ! 3) s2) (\<lambda>((t, port), s3). Inr ((head ! 1, t, port), s3))), written))"

subsection \<open>Replies\<close>

definition reply_bytes :: "u8 \<Rightarrow> bytes" where
  "reply_bytes code = [VER, code, 0x00, ATYP_V4, 0, 0, 0, 0, 0, 0]"

definition addr_bytes :: "socket_addr \<Rightarrow> bytes" where
  "addr_bytes a =
     (case sa_ip a of V4 v4 \<Rightarrow> ATYP_V4 # v4_octets v4 | V6 v6 \<Rightarrow> ATYP_V6 # v6_octets v6)
       @ word_be 2 (sa_port a)"

definition reply_bound_bytes :: "socket_addr \<Rightarrow> bytes" where
  "reply_bound_bytes bound = [VER, REP_OK, 0x00] @ addr_bytes bound"

subsection \<open>Datagrams of an association\<close>

definition udp_target :: "u8 \<Rightarrow> bytes \<Rightarrow> (target \<times> usize) option run" where
  "udp_target atyp buf =
     (if atyp = ATYP_V4 then
        (if length buf < 4 + 4 then Returns None
         else run_bind (index_range buf 4 8) (\<lambda>b. Returns (Some (TargetIp (V4 (be_word b)), 8))))
      else if atyp = ATYP_V6 then
        (if length buf < 4 + 16 then Returns None
         else run_bind (index_range buf 4 20) (\<lambda>b. Returns (Some (TargetIp (V6 (be_word b)), 20))))
      else if atyp = ATYP_DOMAIN then
        (case get_at buf 4 of
           None \<Rightarrow> Returns None
         | Some len \<Rightarrow>
             if length buf < 5 + unat len then Returns None
             else run_bind (index_range buf 5 (5 + unat len)) (\<lambda>b.
                    Returns (Some (TargetDomain (from_utf8_lossy b), 5 + unat len))))
      else Returns None)"

definition parse_udp_request :: "bytes \<Rightarrow> (target \<times> u16 \<times> bytes) option run" where
  "parse_udp_request buf =
     (if length buf < 4 then Returns None
      else run_bind (index buf 2) (\<lambda>frag.
        if frag \<noteq> 0 then Returns None
        else run_bind (index buf 3) (\<lambda>atyp.
        run_bind (udp_target atyp buf) (\<lambda>found.
        case found of
          None \<Rightarrow> Returns None
        | Some (t, pos) \<Rightarrow>
            if length buf < pos + 2 then Returns None
            else run_bind (index_range buf pos (pos + 2)) (\<lambda>port.
                 run_bind (index_range buf (pos + 2) (length buf)) (\<lambda>payload.
                   Returns (Some (t, be_word port, payload))))))))"

definition build_udp_reply :: "socket_addr \<Rightarrow> bytes \<Rightarrow> bytes" where
  "build_udp_reply src dat = [0x00, 0x00, 0x00] @ addr_bytes src @ dat"

subsection \<open>Facts about the messages\<close>

lemma parse_udp_request_total: "parse_udp_request buf \<noteq> Panics"
  by (auto simp: parse_udp_request_def udp_target_def index_def index_range_def split: option.splits)

lemma index_range_behind: "a = length xs \<Longrightarrow> b = a + length ys \<Longrightarrow> index_range (xs @ ys @ zs) a b = Returns ys"
  by (simp add: index_range_def)

lemma udp_header_v4:
  "parse_udp_request ([r0, r1, 0, ATYP_V4] @ v4_octets a @ word_be 2 p @ dat) = Returns (Some (TargetIp (V4 a), p, dat))"
proof -
  let ?buf = "[r0, r1, 0, ATYP_V4] @ v4_octets a @ word_be 2 p @ dat"
  have "index_range ?buf 4 8 = Returns (v4_octets a)" "index_range ?buf 8 10 = Returns (word_be 2 p)"
    "index_range ?buf 10 (length ?buf) = Returns dat"
    using index_range_behind [of 4 "[r0, r1, 0, ATYP_V4]" 8 "v4_octets a" "word_be 2 p @ dat"]
      index_range_behind [of 8 "[r0, r1, 0, ATYP_V4] @ v4_octets a" 10 "word_be 2 p" dat]
      index_range_behind [of 10 "[r0, r1, 0, ATYP_V4] @ v4_octets a @ word_be 2 p" _ dat "[]"]
    by simp_all
  then show ?thesis
    by (simp add: parse_udp_request_def udp_target_def index_def)
qed

lemma udp_header_v6:
  "parse_udp_request ([r0, r1, 0, ATYP_V6] @ v6_octets a @ word_be 2 p @ dat) = Returns (Some (TargetIp (V6 a), p, dat))"
proof -
  let ?buf = "[r0, r1, 0, ATYP_V6] @ v6_octets a @ word_be 2 p @ dat"
  have "index_range ?buf 4 20 = Returns (v6_octets a)" "index_range ?buf 20 22 = Returns (word_be 2 p)"
    "index_range ?buf 22 (length ?buf) = Returns dat"
    using index_range_behind [of 4 "[r0, r1, 0, ATYP_V6]" 20 "v6_octets a" "word_be 2 p @ dat"]
      index_range_behind [of 20 "[r0, r1, 0, ATYP_V6] @ v6_octets a" 22 "word_be 2 p" dat]
      index_range_behind [of 22 "[r0, r1, 0, ATYP_V6] @ v6_octets a @ word_be 2 p" _ dat "[]"]
    by simp_all
  then show ?thesis
    by (simp add: parse_udp_request_def udp_target_def index_def ATYP_V4_def ATYP_V6_def)
qed

text \<open>
  The datagram header round-trips: what \<^verbatim>\<open>build_udp_reply\<close> writes for a source address, IPv4 or
  IPv6, is read back by \<^verbatim>\<open>parse_udp_request\<close> as that address, that port and the same payload; and no
  datagram of a client makes the parser panic.
\<close>

lemma udp_datagram_roundtrip:
  "parse_udp_request (build_udp_reply src dat) = Returns (Some (TargetIp (sa_ip src), sa_port src, dat))
    \<and> parse_udp_request buf \<noteq> Panics"
  using udp_header_v4 [of 0 0] udp_header_v6 [of 0 0] parse_udp_request_total
  by (cases "sa_ip src") (simp_all add: build_udp_reply_def addr_bytes_def)

end
