(* ===== verification/Socks_Dns.thy ===== *)
theory Socks_Dns
  imports Dns_Ech Socks_Proto
begin

text \<open>
  The resolver of \<^verbatim>\<open>socks.rs\<close>, which asks for an A record through the tunnel: the query, the check of
  a reply, the parser of the answer, the servers to ask and the exchange with them. What sending and
  receiving give is an argument of the exchange.
\<close>

definition QTYPE_A :: u16 where "QTYPE_A = 1"

subsection \<open>Servers\<close>

definition parse_resolver :: "string \<Rightarrow> socket_addr option" where
  "parse_resolver entry =
     (case parse_socket_addr entry of
        Some a \<Rightarrow> Some a
      | None \<Rightarrow> map_option (\<lambda>ip. \<lparr>sa_ip = ip, sa_port = 53\<rparr>) (parse_ip entry))"

fun collect_resolvers :: "string list \<Rightarrow> socket_addr list \<Rightarrow> socket_addr list" where
  "collect_resolvers [] servers = servers"
| "collect_resolvers (token # ts) servers =
     (let entry = trim token in
      if entry = [] then collect_resolvers ts servers
      else (case parse_resolver entry of
              None \<Rightarrow> collect_resolvers ts servers
            | Some server \<Rightarrow>
                collect_resolvers ts (if server \<in> set servers then servers else servers @ [server])))"

definition resolver_separator :: "char \<Rightarrow> bool" where
  "resolver_separator c \<longleftrightarrow> c = CHR '','' \<or> c = CHR '' '' \<or> c = CHR '';''"

definition resolver_addresses :: "env \<Rightarrow> socket_addr list" where
  "resolver_addresses env =
     (let servers = collect_resolvers (split_chars resolver_separator (var_or env ''AETHER_DNS'')) []
      in if servers = []
         then [\<lparr>sa_ip = V4 (v4_new 1 1 1 1), sa_port = 53\<rparr>, \<lparr>sa_ip = V4 (v4_new 1 0 0 1), sa_port = 53\<rparr>]
         else servers)"

subsection \<open>Messages\<close>

definition build_dns_query :: "u16 \<Rightarrow> string \<Rightarrow> u16 \<Rightarrow> bytes \<times> u16" where
  "build_dns_query qid name qtype =
     (word_be 2 qid @ [0x01, 0x00] @ [0x00, 0x01] @ [0x00, 0x00, 0x00, 0x00, 0x00, 0x00]
        @ concat (map encode_label (split_on ''.'' [] name))
        @ [0x00] @ word_be 2 qtype @ [0x00, 0x01], qid)"

definition dns_response_matches :: "bytes \<Rightarrow> u16 \<Rightarrow> string \<Rightarrow> u16 \<Rightarrow> bool run" where
  "dns_response_matches resp expected_id expected_name expected_qtype =
     (if length resp < 12 then Returns False
      else run_bind (index16 resp 0) (\<lambda>rid.
        if rid \<noteq> expected_id then Returns False
        else run_bind (index resp 2) (\<lambda>flags.
        if flags AND 0x80 = 0 then Returns False
        else run_bind (index16 resp 4) (\<lambda>questions.
        if questions \<noteq> 1 then Returns False
        else run_bind (match_labels resp 12 (filter (\<lambda>l. l \<noteq> []) (split_on ''.'' [] expected_name))) (\<lambda>labels.
        case labels of
          None \<Rightarrow> Returns False
        | Some pos \<Rightarrow>
            if get_at resp pos \<noteq> Some 0 then Returns False
            else if length resp < pos + 1 + 4 then Returns False
            else run_bind (index16 resp (pos + 1)) (\<lambda>t. Returns (t = expected_qtype)))))))"

fun scan_a :: "bytes \<Rightarrow> nat \<Rightarrow> usize \<Rightarrow> ip_addr option run" where
  "scan_a resp 0 pos = Returns None"
| "scan_a resp (Suc k) pos0 =
     (case skip_name resp pos0 of
        None \<Rightarrow> Returns None
      | Some pos \<Rightarrow>
          if length resp < pos + 10 then Returns None
          else run_bind (index16 resp pos) (\<lambda>rtype.
               run_bind (index16 resp (pos + 8)) (\<lambda>rdlen.
                 if length resp < pos + 10 + unat rdlen then Returns None
                 else if rtype = 1 \<and> unat rdlen = 4
                 then run_bind (index_range resp (pos + 10) (pos + 14)) (\<lambda>b. Returns (Some (V4 (be_word b))))
                 else scan_a resp k (pos + 10 + unat rdlen))))"

definition parse_dns_a :: "bytes \<Rightarrow> ip_addr option run" where
  "parse_dns_a resp =
     (if length resp < 12 then Returns None
      else run_bind (index16 resp 4) (\<lambda>qd.
           run_bind (index16 resp 6) (\<lambda>an.
             case skip_questions resp (unat qd) 12 of
               None \<Rightarrow> Returns None
             | Some pos \<Rightarrow> scan_a resp (unat an) pos)))"

subsection \<open>The exchange\<close>

text \<open>What the next \<^verbatim>\<open>timeout_at(deadline, from_stack.recv())\<close> gives.\<close>

datatype dns_recv = DnsTimeout | DnsClosed | DnsData bytes

datatype dns_wait = Answered "ip_addr result" | TimedOut

fun dns_replies :: "u16 \<Rightarrow> string \<Rightarrow> dns_recv list \<Rightarrow> dns_wait run option" where
  "dns_replies qid name [] = None"
| "dns_replies qid name (DnsTimeout # rs) = Some (Returns TimedOut)"
| "dns_replies qid name (DnsClosed # rs) = Some (Returns (Answered (Inl (Other ''dns channel closed''))))"
| "dns_replies qid name (DnsData b # rs) =
     (case dns_response_matches b qid name QTYPE_A of
        Panics \<Rightarrow> Some Panics
      | Returns False \<Rightarrow> dns_replies qid name rs
      | Returns True \<Rightarrow>
          Some (run_bind (parse_dns_a b) (\<lambda>r. Returns (Answered
            (case r of Some ip \<Rightarrow> Inr ip | None \<Rightarrow> Inl (Other (''no A record for '' @ name)))))))"

text \<open>
  One round per server: the random id, what \<^verbatim>\<open>send_to\<close> gives and what is received. The result is
  None while the exchange still waits.
\<close>

record dns_round =
  dr_server :: socket_addr
  dr_id :: u16
  dr_send :: "aether_error option"
  dr_recv :: "dns_recv list"

fun dns_exchange :: "string \<Rightarrow> aether_error \<Rightarrow> dns_round list \<Rightarrow> ip_addr result run option" where
  "dns_exchange name last_err [] = Some (Returns (Inl last_err))"
| "dns_exchange name last_err (r # rs) =
     (case dr_send r of
        Some err \<Rightarrow> dns_exchange name err rs
      | None \<Rightarrow>
          (case dns_replies (dr_id r) name (dr_recv r) of
             None \<Rightarrow> None
           | Some Panics \<Rightarrow> Some Panics
           | Some (Returns (Answered a)) \<Rightarrow> Some (Returns a)
           | Some (Returns TimedOut) \<Rightarrow>
               dns_exchange name (Other (''dns timeout from '' @ socket_addr_to_string (dr_server r))) rs))"

definition dns_resolve :: "string \<Rightarrow> dns_round list \<Rightarrow> ip_addr result run option" where
  "dns_resolve name rounds = dns_exchange name (Other ''dns timeout'') rounds"

definition resolve :: "target \<Rightarrow> dns_round list \<Rightarrow> ip_addr result run option" where
  "resolve t rounds =
     (case t of
        TargetIp ip \<Rightarrow> Some (Returns (Inr ip))
      | TargetDomain name \<Rightarrow>
          (case parse_ip name of
             Some ip \<Rightarrow> Some (Returns (Inr ip))
           | None \<Rightarrow> dns_resolve name rounds))"

subsection \<open>Facts\<close>

text \<open>The reply check is the one of \<^verbatim>\<open>dns.rs\<close>.\<close>

lemma dns_response_matches_eq: "dns_response_matches = response_matches"
  by (intro ext) (simp only: dns_response_matches_def response_matches_def name_labels_def)

lemma scan_a_safe: "scan_a resp k pos \<noteq> Panics"
  by (induction resp k pos rule: scan_a.induct)
    (auto simp: index16_Returns index_range_def split: option.splits)

lemma parse_dns_a_safe: "parse_dns_a resp \<noteq> Panics"
  using scan_a_safe by (auto simp: parse_dns_a_def index16_Returns run_bind_def split: option.splits)

interpretation a_scan: rr_scan scan_a "\<lambda>r. \<not> (rr_type r = 1 \<and> length (rr_data r) = 4)"
proof
  fix r pre rest k
  assume r: "rr_ok r" "\<not> (rr_type r = 1 \<and> length (rr_data r) = 4)"
  then show "scan_a (pre @ rr_bytes r @ rest) (Suc k) (length pre) = scan_a (pre @ rr_bytes r @ rest) k (length (pre @ rr_bytes r))"
    by (simp add: rr_fields [OF r(1) refl]) (auto simp: add.assoc)
qed

subsection \<open>The question as it is sent\<close>

text \<open>A reply that repeats the header and the question of the query, as every server does.\<close>

definition echo_reply :: "bytes \<Rightarrow> u8 \<Rightarrow> u8 \<Rightarrow> bytes \<Rightarrow> bytes" where
  "echo_reply q f c rest = take 2 q @ [f, c] @ drop 4 q @ rest"

lemma echo_reply_query:
  "echo_reply (fst (build_dns_query qid name qtype)) f c rest
     = (word_be 2 qid @ [f, c, 0, 1] @ [0, 0, 0, 0, 0, 0]) @ wire_labels (split_on ''.'' [] name) @ 0 # word_be 2 qtype @ [0, 1] @ rest"
  by (simp add: echo_reply_def build_dns_query_def wire_labels_def word_be_2)

lemma echo_accepted:
  assumes "split_on ''.'' [] name = ls" and "list_all (\<lambda>l. l \<noteq> [] \<and> label_ok l) ls" and "f AND 0x80 \<noteq> 0"
    and "length (echo_reply (fst (build_dns_query qid name qtype)) f c rest) \<le> usize_max"
  shows "dns_response_matches (echo_reply (fst (build_dns_query qid name qtype)) f c rest) qid name qtype = Returns True"
proof -
  have "name_labels name = ls" using assms(1,2) by (simp add: name_labels_def filter_id_conv list_all_iff)
  then have "answers_query (echo_reply (fst (build_dns_query qid name qtype)) f c rest) qid name qtype"
    unfolding answers_query_def echo_reply_query
    using assms(2,3) by (intro exI [of _ f] exI [of _ c] exI [of _ "[0, 0, 0, 0, 0, 0]"] exI [of _ ls] exI [of _ "[0, 1] @ rest"])
      (simp add: assms(1) list_all_iff list_all2_same eq_ignore_ascii_case_def)
  then show ?thesis
    unfolding dns_response_matches_eq using response_matches_answers [OF assms(4)] by blast
qed

lemma echo_refused:
  assumes "split_on ''.'' [] name = ls @ [[]]" and "list_all (\<lambda>l. l \<noteq> [] \<and> label_ok l) ls"
    and "length (echo_reply (fst (build_dns_query qid name QTYPE_A)) f c rest) \<le> usize_max"
  shows "dns_response_matches (echo_reply (fst (build_dns_query qid name QTYPE_A)) f c rest) qid name QTYPE_A = Returns False"
proof -
  let ?m = "echo_reply (fst (build_dns_query qid name QTYPE_A)) f c rest"
  let ?h = "word_be 2 qid @ [f, c, 0, 1] @ [0, 0, 0, 0, 0, 0]" and ?p = "12 + length (wire_labels ls)"
  let ?t = "0 # 0 # word_be 2 QTYPE_A @ [0, 1] @ rest"
  have m: "?m = ?h @ wire_labels ls @ ?t"
    by (simp add: echo_reply_query assms(1)) (simp add: wire_labels_def encode_label_def as_bytes_def)
  have "name_labels name = ls"
    using assms(1,2) by (simp add: name_labels_def filter_id_conv list_all_iff)
  moreover have "list_all2 eq_ignore_ascii_case ls ls" by (simp add: list_all2_same eq_ignore_ascii_case_def)
  moreover have "list_all label_ok ls" using assms(2) by (simp add: list_all_iff)
  ultimately have labels: "match_labels ?m 12 (name_labels name) = Returns (Some ?p)"
    using match_labels_wire [of ls ls ?h ?t] assms(3) unfolding m by simp
  have "?m ! (?p + 2) = 0"
    unfolding m by (simp add: nth_append word_be_2 QTYPE_A_def)
  then have "[?m ! (?p + 1), ?m ! (?p + 2)] \<noteq> word_be 2 QTYPE_A"
    by (simp add: word_be_2 QTYPE_A_def)
  moreover have "12 \<le> length ?m" unfolding m by simp
  ultimately have "response_matches ?m qid name QTYPE_A \<noteq> Returns True"
    using labels by (subst response_matches_conditions) simp_all
  moreover have "response_matches ?m qid name QTYPE_A \<noteq> Panics"
    using dns_safe by blast
  ultimately show ?thesis
    unfolding dns_response_matches_eq by (metis (full_types) run.exhaust)
qed

text \<open>
  The query for a name without empty labels is answered: a reply that repeats its question is
  accepted. For a fully qualified name, one that ends with a dot, the query has a second root label,
  and a reply that repeats the question as it was sent is refused, so the name never resolves. (The
  query builder of \<^verbatim>\<open>dns.rs\<close> leaves empty labels out; the one of \<^verbatim>\<open>socks.rs\<close> does not.)
\<close>

lemma dns_query_echo:
  assumes "split_on ''.'' [] name = ls @ (if trailing_dot then [[]] else [])"
    and "list_all (\<lambda>l. l \<noteq> [] \<and> label_ok l) ls" and "f AND 0x80 \<noteq> 0"
    and "length (echo_reply (fst (build_dns_query qid name QTYPE_A)) f c rest) \<le> usize_max"
  shows "dns_response_matches (echo_reply (fst (build_dns_query qid name QTYPE_A)) f c rest) qid name QTYPE_A
       = Returns (\<not> trailing_dot)"
  using assms echo_refused [of name ls qid f c rest] echo_accepted [of name ls f qid QTYPE_A c rest]
  by (cases trailing_dot) auto

lemma dns_query_echo_witness:
  "dns_response_matches (echo_reply (fst (build_dns_query 7 ''a.io.'' QTYPE_A)) 0x81 0x80 []) 7 ''a.io.'' QTYPE_A = Returns False"
proof -
  have "split_on ''.'' [] ''a.io.'' = [''a'', ''io''] @ [[]]"
    by (simp add: split_on.simps starts_with_def)
  then show ?thesis
    using dns_query_echo [of "''a.io.''" "[''a'', ''io'']" True "0x81" 7 "0x80" "[]"]
    by (simp add: label_ok_def echo_reply_def build_dns_query_def usize_max_def)
qed

end
