(* ===== verification/Socks_Connect.thy ===== *)
theory Socks_Connect
  imports Socks_Proto
begin

text \<open>
  A SOCKS5 CONNECT of \<^verbatim>\<open>socks.rs\<close>: routing the request (with a name read from the first bytes when
  the client gave an address), the gateway proxy inside the tunnel, direct connections, and what the
  client is told. The stack, the system resolver and the kernel are arguments; what is written to the
  client is recorded in order.
\<close>

subsection \<open>The gateway proxy\<close>

record gateway =
  gw_proxy :: "socket_addr option"
  gw_healthy :: bool

definition set_gateway_proxy :: "string \<Rightarrow> gateway \<Rightarrow> gateway" where
  "set_gateway_proxy address gw =
     (let trimmed = trim address in
      if trimmed = [] then gw
      else (case parse_socket_addr trimmed of
              Some parsed \<Rightarrow> (case gw_proxy gw of None \<Rightarrow> gw\<lparr>gw_proxy := Some parsed\<rparr> | Some _ \<Rightarrow> gw)
            | None \<Rightarrow> gw))"

definition gateway_proxy :: "gateway \<Rightarrow> socket_addr option" where
  "gateway_proxy gw = (if \<not> gw_healthy gw then None else gw_proxy gw)"

definition retire_gateway :: "gateway \<Rightarrow> gateway" where
  "retire_gateway gw = gw\<lparr>gw_healthy := False\<rparr>"

definition should_use_gateway :: "u16 \<Rightarrow> bool" where
  "should_use_gateway port \<longleftrightarrow> port = 80 \<or> port = 443"

definition UA_REGISTER :: string where "UA_REGISTER = ''WARP for Android''"

definition build_proxy_connect :: "string \<Rightarrow> u16 \<Rightarrow> bytes" where
  "build_proxy_connect t port =
     (let p = nat_dec (unat port);
          authority = (if contains t '':'' \<and> \<not> starts_with t ''['' then ''['' @ t @ '']:'' @ p else t @ '':'' @ p)
      in as_bytes (''CONNECT '' @ authority @ '' HTTP/1.1'' @ crlf @ ''Host: '' @ authority @ crlf
           @ ''User-Agent: '' @ UA_REGISTER @ crlf @ crlf))"

definition proxy_connect_succeeded :: "bytes \<Rightarrow> bool option" where
  "proxy_connect_succeeded head =
     (let text = from_utf8_lossy head in
      do { line_end \<leftarrow> find_str text crlf;
           word \<leftarrow> get_at (split_whitespace (take line_end text)) 1;
           status \<leftarrow> parse_uint 65535 word;
           Some (200 \<le> status \<and> status < 300) })"

definition find_head_end :: "bytes \<Rightarrow> usize option" where
  "find_head_end buffer =
     map_option (\<lambda>p. p + 4) (find (\<lambda>i. take 4 (drop i buffer) = [0x0d, 0x0a, 0x0d, 0x0a]) [0..<Suc (length buffer) - 4])"

definition GATEWAY_HEAD_LIMIT :: usize where "GATEWAY_HEAD_LIMIT = 8192"

text \<open>What the next \<^verbatim>\<open>timeout(GATEWAY_PROBE_TIMEOUT, from_stack.recv())\<close> gives; no more means the timeout.\<close>

datatype gw_recv = GwTimeout | GwClosed | GwChunk bytes

definition first_status :: "bytes \<Rightarrow> string" where
  "first_status head = trim (case str_lines (from_utf8_lossy head) of [] \<Rightarrow> ''no status'' | l # _ \<Rightarrow> l)"

fun gateway_answer :: "socket_addr \<Rightarrow> string \<Rightarrow> u16 \<Rightarrow> bytes \<Rightarrow> gw_recv list \<Rightarrow> bytes result" where
  "gateway_answer proxy authority port head [] =
     Inl (Other (''gateway '' @ socket_addr_to_string proxy @ '' did not answer in time''))"
| "gateway_answer proxy authority port head (GwTimeout # rs) =
     Inl (Other (''gateway '' @ socket_addr_to_string proxy @ '' did not answer in time''))"
| "gateway_answer proxy authority port head (GwClosed # rs) =
     Inl (Other (''gateway '' @ socket_addr_to_string proxy @ '' closed the connection''))"
| "gateway_answer proxy authority port head0 (GwChunk chunk # rs) =
     (let head = head0 @ chunk in
      case find_head_end head of
        Some p \<Rightarrow>
          (case proxy_connect_succeeded head of
             None \<Rightarrow> Inl (Other (''gateway '' @ socket_addr_to_string proxy @ '' sent a malformed response''))
           | Some False \<Rightarrow>
               Inl (Other (''gateway refused '' @ authority @ '':'' @ nat_dec (unat port) @ '' (''
                 @ first_status (take p head) @ '')''))
           | Some True \<Rightarrow> Inr (drop p head))
      | None \<Rightarrow>
          if GATEWAY_HEAD_LIMIT < length head
          then Inl (Other (''gateway '' @ socket_addr_to_string proxy @ '' sent an oversized response head''))
          else gateway_answer proxy authority port head rs)"

text \<open>The way to the gateway: opening the connection (None for the timeout), sending, receiving.\<close>

record 'c gw_io =
  gi_open :: "socket_addr \<Rightarrow> 'c result option"
  gi_send :: "bytes \<Rightarrow> unit result"
  gi_recv :: "gw_recv list"

definition open_through_gateway :: "'c gw_io \<Rightarrow> socket_addr \<Rightarrow> string \<Rightarrow> u16 \<Rightarrow> ('c \<times> bytes) result" where
  "open_through_gateway io proxy authority port =
     (case gi_open io proxy of
        None \<Rightarrow> Inl (Other (''gateway '' @ socket_addr_to_string proxy @ '' did not accept a connection''))
      | Some opened \<Rightarrow>
          res_bind opened (\<lambda>c.
          res_bind (gi_send io (build_proxy_connect authority port)) (\<lambda>_.
          res_bind (gateway_answer proxy authority port [] (gi_recv io)) (\<lambda>leftover. Inr (c, leftover)))))"

subsection \<open>Routing a request\<close>

definition decide_route ::
  "('n, 'r) route_lib \<Rightarrow> ('n, 'r) rule_set \<Rightarrow> target \<Rightarrow> string option \<Rightarrow> u16 \<Rightarrow> action" where
  "decide_route lib rules t sniffed port =
     (case sniffed of
        Some name \<Rightarrow>
          (case decide lib rules (Domain name) port of
             Proxy \<Rightarrow> decide lib rules (host_of t) port
           | decided \<Rightarrow> decided)
      | None \<Rightarrow> decide lib rules (host_of t) port)"

definition sniff_enabled :: "env \<Rightarrow> bool" where
  "sniff_enabled env \<longleftrightarrow>
     \<not> (env ''AETHER_ROUTE_SNIFF'' = Some ''0'' \<or> env ''AETHER_ROUTE_SNIFF'' = Some ''off''
        \<or> env ''AETHER_ROUTE_SNIFF'' = Some ''false'')"

definition sniff_window :: "env \<Rightarrow> nat" where
  "sniff_window env =
     (case Option.bind (env ''AETHER_ROUTE_SNIFF_MS'') (\<lambda>v. parse_uint u64_max (trim v)) of
        Some ms \<Rightarrow> if 0 < ms then ms else 400
      | None \<Rightarrow> 400)"

text \<open>What the first read of at most 4096 bytes gives within the sniff window.\<close>

datatype sniff_read = SniffRead bytes | SniffError | SniffTimeout

definition read_sniff_head :: "sniff_read \<Rightarrow> bytes option" where
  "read_sniff_head r =
     (case r of
        SniffRead b \<Rightarrow> if b = [] then None else Some (take PEEK_BUDGET b)
      | SniffError \<Rightarrow> None
      | SniffTimeout \<Rightarrow> Some [])"

subsection \<open>Direct connections\<close>

definition ip_is_loopback :: "ip_addr \<Rightarrow> bool" where
  "ip_is_loopback ip = (case ip of V4 a \<Rightarrow> v4_is_loopback a | V6 a \<Rightarrow> a = 1)"

definition ip_is_unspecified :: "ip_addr \<Rightarrow> bool" where
  "ip_is_unspecified ip = (case ip of V4 a \<Rightarrow> a = 0 | V6 a \<Rightarrow> a = 0)"

definition normalize_ip :: "ip_addr \<Rightarrow> ip_addr" where
  "normalize_ip ip =
     (case ip of
        V6 v6 \<Rightarrow> (case v6_to_ipv4_mapped v6 of Some v4 \<Rightarrow> V4 v4 | None \<Rightarrow> V6 v6)
      | other \<Rightarrow> other)"

definition direct_target_allowed :: "ip_addr \<Rightarrow> ip_addr \<Rightarrow> bool" where
  "direct_target_allowed client address0 =
     (let address = normalize_ip address0 in
      if ip_is_loopback address \<or> ip_is_unspecified address then ip_is_loopback (normalize_ip client) else True)"

datatype io_kind = PermissionDenied | NotFound | OtherKind
type_synonym io_error = "io_kind \<times> string"

fun try_addresses ::
  "(socket_addr \<Rightarrow> io_error + 'c) \<Rightarrow> ip_addr \<Rightarrow> socket_addr list \<Rightarrow> io_error option \<Rightarrow> io_error option + 'c" where
  "try_addresses tcp client [] last_error = Inl last_error"
| "try_addresses tcp client (address # rest) last_error =
     (if \<not> direct_target_allowed client (sa_ip address)
      then try_addresses tcp client rest (Some (PermissionDenied,
             socket_addr_to_string address @ '' is this machine's own loopback, which only local clients may reach''))
      else (case tcp address of
              Inr stream \<Rightarrow> Inr stream
            | Inl err \<Rightarrow> try_addresses tcp client rest (Some err)))"

text \<open>The system: \<^verbatim>\<open>lookup_host\<close>, \<^verbatim>\<open>tcp_connect\<close> and whether the ten seconds pass first.\<close>

record 'c host_io =
  hi_lookup :: "string \<Rightarrow> io_error + ip_addr list"
  hi_tcp :: "socket_addr \<Rightarrow> io_error + 'c"
  hi_late :: bool

definition connect_direct :: "'c host_io \<Rightarrow> string \<Rightarrow> u16 \<Rightarrow> ip_addr \<Rightarrow> io_error + 'c" where
  "connect_direct io host port client =
     (case hi_lookup io host of
        Inl e \<Rightarrow> Inl e
      | Inr ips \<Rightarrow>
          (case try_addresses (hi_tcp io) client (map (\<lambda>ip. \<lparr>sa_ip = ip, sa_port = port\<rparr>) ips) None of
             Inr stream \<Rightarrow> Inr stream
           | Inl (Some e) \<Rightarrow> Inl e
           | Inl None \<Rightarrow> Inl (NotFound, host @ '' did not resolve to any address'')))"

end
