(* ===== verification/Socks_Client.thy ===== *)
theory Socks_Client
  imports Socks_Connect Sniff_Props
begin

text \<open>
  \<^verbatim>\<open>handle_connect\<close> and \<^verbatim>\<open>handle_direct\<close> of \<^verbatim>\<open>socks.rs\<close>: a whole CONNECT request from routing to the
  relay, with every early return, and what it promises.
\<close>

subsection \<open>A session\<close>

text \<open>
  What the handler meets: whether each write to the client succeeds, the address of the client, its
  first bytes, the gateway, the resolver and the stack of the tunnel, the system, and whether sending
  the first bytes to the far end succeeds.
\<close>

record 'c connect_io =
  cx_client_ok :: "nat \<Rightarrow> bool"
  cx_peer :: "ip_addr result"
  cx_sniff :: sniff_read
  cx_gateway :: "'c gw_io"
  cx_resolve :: "target \<Rightarrow> ip_addr result"
  cx_open :: "socket_addr \<Rightarrow> 'c result"
  cx_host :: "'c host_io"
  cx_remote_ok :: "'c \<Rightarrow> bytes \<Rightarrow> bool"

record 'c session =
  ss_client :: "bytes list"
  ss_remote :: "bytes list"
  ss_relay :: "'c option"
  ss_gateway :: gateway

definition client_write :: "'c connect_io \<Rightarrow> bytes \<Rightarrow> 'c session \<Rightarrow> unit result \<times> 'c session" where
  "client_write io b s =
     (if cx_client_ok io (length (ss_client s)) then (Inr (), s\<lparr>ss_client := ss_client s @ [b]\<rparr>)
      else (Inl (Io ''broken pipe''), s))"

definition unbound_reply :: bytes where
  "unbound_reply = reply_bound_bytes \<lparr>sa_ip = V4 0, sa_port = 0\<rparr>"

subsection \<open>Direct\<close>

definition refuse :: "'c connect_io \<Rightarrow> bool \<Rightarrow> u8 \<Rightarrow> 'c session \<Rightarrow> 'c session" where
  "refuse io replied code s = (if \<not> replied then snd (client_write io (reply_bytes code) s) else s)"

definition handle_direct ::
  "'c connect_io \<Rightarrow> target \<Rightarrow> u16 \<Rightarrow> bytes \<Rightarrow> bool \<Rightarrow> 'c session \<Rightarrow> unit result \<times> 'c session" where
  "handle_direct io t port head replied s =
     (case cx_peer io of
        Inl e \<Rightarrow> (Inl e, s)
      | Inr client \<Rightarrow>
          if hi_late (cx_host io) then (Inr (), refuse io replied REP_GENERAL s)
          else (case connect_direct (cx_host io) (target_to_string t) port client of
                  Inl (kind, _) \<Rightarrow>
                    (Inr (), refuse io replied (if kind = PermissionDenied then REP_NOT_ALLOWED else REP_GENERAL) s)
                | Inr upstream \<Rightarrow>
                    if head \<noteq> [] \<and> \<not> cx_remote_ok io upstream head then (Inr (), s)
                    else (let s1 = (if head \<noteq> [] then s\<lparr>ss_remote := ss_remote s @ [head]\<rparr> else s)
                          in if replied then (Inr (), s1\<lparr>ss_relay := Some upstream\<rparr>)
                             else (case client_write io unbound_reply s1 of
                                     (Inl e, s2) \<Rightarrow> (Inl e, s2)
                                   | (Inr _, s2) \<Rightarrow> (Inr (), s2\<lparr>ss_relay := Some upstream\<rparr>)))))"

subsection \<open>Through the tunnel\<close>

definition tunnel_open :: "'c connect_io \<Rightarrow> target \<Rightarrow> u16 \<Rightarrow> 'c session \<Rightarrow> ('c \<times> bytes) result \<times> 'c session" where
  "tunnel_open io t port s =
     (case cx_resolve io t of
        Inl e \<Rightarrow> (Inl e, snd (client_write io (reply_bytes REP_GENERAL) s))
      | Inr ip \<Rightarrow>
          (case cx_open io \<lparr>sa_ip = ip, sa_port = port\<rparr> of
             Inr c \<Rightarrow> (Inr (c, []), s)
           | Inl e \<Rightarrow> (Inl e, snd (client_write io (reply_bytes REP_GENERAL) s))))"

definition open_conn :: "'c connect_io \<Rightarrow> target \<Rightarrow> u16 \<Rightarrow> 'c session \<Rightarrow> ('c \<times> bytes) result \<times> 'c session" where
  "open_conn io t port s =
     (case (if should_use_gateway port then gateway_proxy (ss_gateway s) else None) of
        Some proxy \<Rightarrow>
          (case open_through_gateway (cx_gateway io) proxy (target_to_string t) port of
             Inr conn \<Rightarrow> (Inr conn, s)
           | Inl e \<Rightarrow> tunnel_open io t port (s\<lparr>ss_gateway := retire_gateway (ss_gateway s)\<rparr>))
      | None \<Rightarrow> tunnel_open io t port s)"

definition start_relay ::
  "'c connect_io \<Rightarrow> bytes \<Rightarrow> bool \<Rightarrow> 'c \<times> bytes \<Rightarrow> 'c session \<Rightarrow> unit result \<times> 'c session" where
  "start_relay io head replied conn s =
     (case (if replied then (Inr (), s) else client_write io unbound_reply s) of
        (Inl e, s1) \<Rightarrow> (Inl e, s1)
      | (Inr _, s1) \<Rightarrow>
          (case conn of (c, leftover) \<Rightarrow>
             if head \<noteq> [] \<and> \<not> cx_remote_ok io c head then (Inr (), s1)
             else (let s2 = (if head \<noteq> [] then s1\<lparr>ss_remote := ss_remote s1 @ [head]\<rparr> else s1)
                   in if leftover = [] then (Inr (), s2\<lparr>ss_relay := Some c\<rparr>)
                      else (case client_write io leftover s2 of
                              (Inl _, s3) \<Rightarrow> (Inr (), s3)
                            | (Inr _, s3) \<Rightarrow> (Inr (), s3\<lparr>ss_relay := Some c\<rparr>)))))"

subsection \<open>The request\<close>

text \<open>The routing configuration of the process.\<close>

record ('n, 'r) route_cfg =
  rc_lib :: "('n, 'r) route_lib"
  rc_rules :: "('n, 'r) rule_set"
  rc_env :: env

definition wants_sniff :: "('n, 'r) route_cfg \<Rightarrow> target \<Rightarrow> bool" where
  "wants_sniff cfg t \<longleftrightarrow>
     (case t of TargetIp _ \<Rightarrow> True | TargetDomain _ \<Rightarrow> False) \<and> sniff_enabled (rc_env cfg) \<and> has_domain_rules (rc_rules cfg)"

definition carry_out ::
  "'c connect_io \<Rightarrow> action \<Rightarrow> target \<Rightarrow> u16 \<Rightarrow> bytes \<Rightarrow> bool \<Rightarrow> 'c session \<Rightarrow> unit result \<times> 'c session" where
  "carry_out io act t port head replied s =
     (case act of
        Block \<Rightarrow> (Inr (), refuse io replied REP_NOT_ALLOWED s)
      | Direct \<Rightarrow> handle_direct io t port head replied s
      | Proxy \<Rightarrow>
          (case open_conn io t port s of
             (Inl e, s1) \<Rightarrow> (Inl e, s1)
           | (Inr conn, s1) \<Rightarrow> start_relay io head replied conn s1))"

definition handle_connect ::
  "('n, 'r) route_cfg \<Rightarrow> 'c connect_io \<Rightarrow> target \<Rightarrow> u16 \<Rightarrow> 'c session \<Rightarrow> unit result \<times> 'c session" where
  "handle_connect cfg io t port s =
     (if wants_sniff cfg t then
        (case client_write io unbound_reply s of
           (Inl e, s1) \<Rightarrow> (Inl e, s1)
         | (Inr _, s1) \<Rightarrow>
             (case read_sniff_head (cx_sniff io) of
                None \<Rightarrow> (Inr (), s1)
              | Some head \<Rightarrow>
                  (let named = (if head = [] then None else hostname head)
                   in carry_out io (decide_route (rc_lib cfg) (rc_rules cfg) t named port) t port head True s1)))
      else carry_out io (decide_route (rc_lib cfg) (rc_rules cfg) t None port) t port [] False s)"

text \<open>
  \<^verbatim>\<open>handle_client\<close>: the request, then the command. \<open>input\<close> is what the client sends; \<open>late\<close> says that it
  then stays silent instead of closing, so the ten seconds of the handshake pass. An UDP association
  is the argument \<open>associate\<close>.
\<close>

definition handle_client ::
  "('n, 'r) route_cfg \<Rightarrow> 'c connect_io \<Rightarrow> (target \<Rightarrow> 'c session \<Rightarrow> unit result \<times> 'c session)
   \<Rightarrow> bool \<Rightarrow> bytes \<Rightarrow> 'c session \<Rightarrow> unit result \<times> 'c session" where
  "handle_client cfg io associate late input s =
     (case read_request input of (request, written) \<Rightarrow>
      case (if written = [] then (Inr (), s) else client_write io written s) of
        (Inl e, s1) \<Rightarrow> (Inl e, s1)
      | (Inr _, s1) \<Rightarrow>
          (case request of
             Inl (Io e) \<Rightarrow>
               (Inl (if late then Other ''the client did not finish the socks5 handshake in time'' else Io e), s1)
           | Inl e \<Rightarrow> (Inl e, s1)
           | Inr ((cmd, t, port), _) \<Rightarrow>
               if cmd = CMD_CONNECT then handle_connect cfg io t port s1
               else if cmd = CMD_UDP_ASSOCIATE then associate t s1
               else (case client_write io (reply_bytes REP_NOT_SUPPORTED) s1 of
                       (Inl e, s2) \<Rightarrow> (Inl e, s2)
                     | (Inr _, s2) \<Rightarrow> (Inl (Other ''unsupported socks command''), s2))))"

subsection \<open>What a request may do\<close>

lemma try_addresses_allowed:
  "try_addresses tcp client as err = Inr c \<Longrightarrow> \<exists>a \<in> set as. direct_target_allowed client (sa_ip a) \<and> tcp a = Inr c"
  by (induction tcp client as err rule: try_addresses.induct) (auto split: if_splits sum.splits)

lemma connect_direct_allowed:
  assumes "connect_direct io host port client = Inr c"
  shows "\<exists>a. direct_target_allowed client (sa_ip a) \<and> hi_tcp io a = Inr c"
proof (cases "hi_lookup io host")
  case (Inr ips)
  then obtain addrs where "try_addresses (hi_tcp io) client addrs None = Inr c"
    using assms by (auto simp: connect_direct_def split: sum.splits option.splits)
  from try_addresses_allowed [OF this] show ?thesis by blast
qed (use assms in \<open>simp add: connect_direct_def\<close>)

lemma client_write_relay [simp]: "ss_relay (snd (client_write io b s)) = ss_relay s"
  by (simp add: client_write_def)

lemma client_write_relay' [simp]: "client_write io b s = (r, s') \<Longrightarrow> ss_relay s' = ss_relay s"
  by (auto simp: client_write_def split: if_splits)

lemma refuse_relay [simp]: "ss_relay (refuse io replied code s) = ss_relay s"
  by (simp add: refuse_def)

lemma handle_direct_relay:
  assumes "handle_direct io t port head replied s = (r, s')" and "ss_relay s = None" and "ss_relay s' = Some c"
  shows "\<exists>client a. cx_peer io = Inr client \<and> direct_target_allowed client (sa_ip a) \<and> hi_tcp (cx_host io) a = Inr c"
proof (cases "cx_peer io")
  case (Inr client)
  then have "connect_direct (cx_host io) (target_to_string t) port client = Inr c"
    using assms by (auto simp: handle_direct_def Let_def split: if_splits sum.splits prod.splits)
  from connect_direct_allowed [OF this] Inr show ?thesis by auto
qed (use assms in \<open>simp add: handle_direct_def\<close>)

lemma carry_out_relay:
  assumes "carry_out io act t port head replied s = (r, s')" and "ss_relay s = None" and "ss_relay s' = Some c"
  shows "act \<noteq> Block \<and> (act = Direct \<longrightarrow>
    (\<exists>client a. cx_peer io = Inr client \<and> direct_target_allowed client (sa_ip a) \<and> hi_tcp (cx_host io) a = Inr c))"
  using assms handle_direct_relay [of io t port head replied s r s' c]
  by (cases act) (auto simp: carry_out_def)

text \<open>The decision for a request, with the name that was read from its first bytes.\<close>

definition sniffed_name :: "('n, 'r) route_cfg \<Rightarrow> 'c connect_io \<Rightarrow> target \<Rightarrow> string option" where
  "sniffed_name cfg io t =
     (if wants_sniff cfg t then (case read_sniff_head (cx_sniff io) of
        None \<Rightarrow> None | Some head \<Rightarrow> if head = [] then None else hostname head) else None)"

definition route_of :: "('n, 'r) route_cfg \<Rightarrow> 'c connect_io \<Rightarrow> target \<Rightarrow> u16 \<Rightarrow> action" where
  "route_of cfg io t port = decide_route (rc_lib cfg) (rc_rules cfg) t (sniffed_name cfg io t) port"

text \<open>
  C10. A request is relayed only where its route allows it: never when the rules block it, and a
  direct connection only to an address that the client may reach, so a client from the network never
  gets to the loopback of this machine, also not by a name or an IPv4-mapped address.
\<close>

theorem connect_respects_route:
  assumes "handle_connect cfg io t port s = (r, s')" and "ss_relay s = None" and "ss_relay s' = Some c"
  shows "route_of cfg io t port \<noteq> Block \<and> (route_of cfg io t port = Direct \<longrightarrow>
    (\<exists>client a. cx_peer io = Inr client \<and> direct_target_allowed client (sa_ip a) \<and> hi_tcp (cx_host io) a = Inr c))"
proof (cases "wants_sniff cfg t")
  case True
  then obtain s1 head where w: "client_write io unbound_reply s = (Inr (), s1)" and head: "read_sniff_head (cx_sniff io) = Some head"
    and act: "carry_out io (decide_route (rc_lib cfg) (rc_rules cfg) t (if head = [] then None else hostname head) port)
        t port head True s1 = (r, s')"
    using assms client_write_relay' [of io unbound_reply s] by (auto simp: handle_connect_def Let_def split: prod.splits sum.splits option.splits)
  have "route_of cfg io t port = decide_route (rc_lib cfg) (rc_rules cfg) t (if head = [] then None else hostname head) port"
    using True head by (simp add: route_of_def sniffed_name_def)
  then show ?thesis
    using carry_out_relay [OF act] w assms(2,3) by simp
next
  case False
  then have "carry_out io (route_of cfg io t port) t port [] False s = (r, s')"
    using assms(1) by (simp add: handle_connect_def route_of_def sniffed_name_def)
  from carry_out_relay [OF this assms(2,3)] show ?thesis .
qed

subsection \<open>A client of the network\<close>

definition sample_cfg_direct :: "(ip_addr, string) route_cfg" where
  "sample_cfg_direct = \<lparr>rc_lib = \<lparr>rl_ipnet_parse = (\<lambda>_. None), rl_ipnet_from = (\<lambda>a. a), rl_ipnet_contains = (\<lambda>n a. n = a),
       rl_regex_new = (\<lambda>r. Some r), rl_regex_match = (\<lambda>r s. contains s r), rl_lowercase = to_lowercase\<rparr>,
     rc_rules = \<lparr>rs_block = [], rs_direct = [Ports 80 80, DomainSuffix ''a.io'']\<rparr>, rc_env = (\<lambda>_. None)\<rparr>"

definition sample_io :: "nat connect_io" where
  "sample_io = \<lparr>cx_client_ok = (\<lambda>_. True), cx_peer = Inr (V4 0x0a000002), cx_sniff = SniffRead [1, 2, 3],
     cx_gateway = \<lparr>gi_open = (\<lambda>_. Some (Inr 5)), gi_send = (\<lambda>_. Inr ()),
       gi_recv = [GwChunk (as_bytes (''X 403'' @ crlf @ crlf))]\<rparr>,
     cx_resolve = (\<lambda>t. case t of TargetIp ip \<Rightarrow> Inr ip | TargetDomain _ \<Rightarrow> Inr (V4 1)),
     cx_open = (\<lambda>a. if sa_port a = 9 then Inl (Other ''refused'') else Inr 6),
     cx_host = \<lparr>hi_lookup = (\<lambda>_. Inr [V4 0x7f000001, V4 0x08080808]), hi_tcp = (\<lambda>a. if sa_ip a = V4 0x7f000001 then Inr 0 else Inr 7), hi_late = False\<rparr>,
     cx_remote_ok = (\<lambda>_ _. True)\<rparr>"

definition sample_session :: "nat session" where
  "sample_session = \<lparr>ss_client = [], ss_remote = [], ss_relay = None, ss_gateway = \<lparr>gw_proxy = Some \<lparr>sa_ip = V4 1, sa_port = 80\<rparr>, gw_healthy = True\<rparr>\<rparr>"

lemmas sample_session_defs = sample_cfg_direct_def sample_io_def sample_session_def

lemma sample_io_sel [simp]:
  "cx_client_ok sample_io n" "cx_resolve sample_io (TargetIp ip) = Inr ip"
  "cx_resolve sample_io (TargetDomain d) = Inr (V4 1)"
  "cx_open sample_io a = (if sa_port a = 9 then Inl (Other ''refused'') else Inr 6)"
  by (simp_all add: sample_io_def)

lemmas connect_eval = handle_connect_def wants_sniff_def sniff_enabled_def has_domain_rules_def is_domain_rule_def
  carry_out_def decide_route_def decide_def host_of_def handle_direct_def connect_direct_def direct_target_allowed_def
  normalize_ip_def ip_is_loopback_def ip_is_unspecified_def v4_is_loopback_def v4_in_def client_write_def

theorem connect_respects_route_witness:
  "\<exists>a. direct_target_allowed (V4 0x0a000002) (sa_ip a) \<and> hi_tcp (cx_host sample_io) a = Inr 7"
proof -
  let ?t = "TargetDomain ''b.org''"
  have "handle_connect sample_cfg_direct sample_io ?t 80 sample_session
      = (Inr (), sample_session\<lparr>ss_client := [unbound_reply], ss_relay := Some 7\<rparr>)"
    by (simp add: connect_eval sample_session_defs)
  moreover have "route_of sample_cfg_direct sample_io ?t 80 = Direct"
    by (simp add: route_of_def sniffed_name_def connect_eval sample_session_defs)
  moreover have peer: "cx_peer sample_io = Inr (V4 0x0a000002)" by (simp add: sample_io_def)
  ultimately show ?thesis
    using connect_respects_route [of sample_cfg_direct sample_io ?t 80 sample_session "Inr ()"
        "sample_session\<lparr>ss_client := [unbound_reply], ss_relay := Some 7\<rparr>" 7]
      peer by (auto simp: sample_session_def)
qed

subsection \<open>Failures\<close>

text \<open>
  When the name of an IP target is to be read from its first bytes, the client has been told that
  the connection is open before anything is connected; if the tunnel then cannot resolve or open the
  target, the handler still writes a second, failing reply, which the client takes for the first bytes
  of the far end.
\<close>

lemma sniffed_failure_replies_twice:
  assumes "wants_sniff cfg t" and "read_sniff_head (cx_sniff io) = Some head"
    and "route_of cfg io t port = Proxy" and "gateway_proxy (ss_gateway s) = None"
    and "\<And>n. cx_client_ok io n"
    and "res_bind (cx_resolve io t) (\<lambda>ip. cx_open io \<lparr>sa_ip = ip, sa_port = port\<rparr>) = Inl e"
  shows "\<exists>s'. handle_connect cfg io t port s = (Inl e, s') \<and> ss_relay s' = ss_relay s
    \<and> ss_client s' = ss_client s @ [reply_bound_bytes \<lparr>sa_ip = V4 0, sa_port = 0\<rparr>, reply_bytes REP_GENERAL]"
proof -
  let ?s1 = "s\<lparr>ss_client := ss_client s @ [unbound_reply]\<rparr>"
  have "decide_route (rc_lib cfg) (rc_rules cfg) t (if head = [] then None else hostname head) port = Proxy"
    using assms(1-3) by (simp add: route_of_def sniffed_name_def)
  moreover have "open_conn io t port ?s1 = (Inl e, ?s1\<lparr>ss_client := ss_client ?s1 @ [reply_bytes REP_GENERAL]\<rparr>)"
    using assms(4-6) by (cases "cx_resolve io t") (auto simp: open_conn_def tunnel_open_def client_write_def)
  ultimately have "handle_connect cfg io t port s = (Inl e, ?s1\<lparr>ss_client := ss_client ?s1 @ [reply_bytes REP_GENERAL]\<rparr>)"
    using assms(1,2,5) by (simp add: handle_connect_def client_write_def carry_out_def Let_def)
  then show ?thesis by (simp add: unbound_reply_def)
qed

text \<open>
  A target that the gateway refuses is opened all the same: any answer of the gateway that is not
  a success, a refusal of this one target included, makes the handler open the target through the
  tunnel without the gateway, and retires the gateway for every later request of the process.
\<close>

lemma gateway_refusal_bypassed:
  assumes "route_of cfg io t port = Proxy" and "\<not> wants_sniff cfg t" and "port = 80 \<or> port = 443"
    and "gateway_proxy (ss_gateway s) = Some proxy"
    and "open_through_gateway (cx_gateway io) proxy (target_to_string t) port = Inl refusal"
    and "cx_resolve io t = Inr ip" and "cx_open io \<lparr>sa_ip = ip, sa_port = port\<rparr> = Inr c" and "\<And>n. cx_client_ok io n"
  shows "\<exists>s'. handle_connect cfg io t port s = (Inr (), s') \<and> ss_relay s' = Some c
    \<and> gateway_proxy (ss_gateway s') = None"
proof -
  have route: "decide_route (rc_lib cfg) (rc_rules cfg) t None port = Proxy"
    using assms(1,2) by (simp add: route_of_def sniffed_name_def)
  define s1 where "s1 = s\<lparr>ss_gateway := retire_gateway (ss_gateway s)\<rparr>"
  have "should_use_gateway port" using assms(3) by (simp add: should_use_gateway_def)
  then have "open_conn io t port s = tunnel_open io t port s1"
    by (simp add: open_conn_def assms(4,5) s1_def)
  also have "\<dots> = (Inr (c, []), s1)"
    by (simp add: tunnel_open_def assms(6,7))
  finally have opened: "open_conn io t port s = (Inr (c, []), s1)" .
  have "start_relay io [] False (c, []) s1 = (Inr (), s1\<lparr>ss_client := ss_client s1 @ [unbound_reply], ss_relay := Some c\<rparr>)"
    by (simp add: start_relay_def client_write_def assms(8))
  then have "handle_connect cfg io t port s = (Inr (), s1\<lparr>ss_client := ss_client s1 @ [unbound_reply], ss_relay := Some c\<rparr>)"
    using assms(2) opened route by (simp add: handle_connect_def carry_out_def)
  then show ?thesis by (simp add: s1_def gateway_proxy_def retire_gateway_def)
qed

lemma sniffed_failure_replies_twice_witness:
  "\<exists>s'. handle_connect sample_cfg_direct sample_io (TargetIp (V4 0x08080808)) 9 (sample_session\<lparr>ss_gateway := \<lparr>gw_proxy = None, gw_healthy = True\<rparr>\<rparr>)
       = (Inl (Other ''refused''), s')
     \<and> ss_client s' = [reply_bound_bytes \<lparr>sa_ip = V4 0, sa_port = 0\<rparr>, reply_bytes REP_GENERAL]"
proof -
  let ?s = "sample_session\<lparr>ss_gateway := \<lparr>gw_proxy = None, gw_healthy = True\<rparr>\<rparr>" and ?t = "TargetIp (V4 0x08080808)"
  have head: "read_sniff_head (cx_sniff sample_io) = Some [1, 2, 3]"
    by (simp add: read_sniff_head_def sample_io_def PEEK_BUDGET_def)
  have "from_utf8_lossy (as_bytes [CHR 0x01, CHR 0x02, CHR 0x03] @ []) = [CHR 0x01, CHR 0x02, CHR 0x03]"
    by (subst from_utf8_lossy_ascii) (simp_all add: from_utf8_lossy_def utf8_lossy.simps of_bytes_def)
  then have "from_utf8_lossy [1, 2, 3] = [CHR 0x01, CHR 0x02, CHR 0x03]" by (simp add: as_bytes_def)
  then have name: "hostname [1, 2, 3] = None"
    by (simp add: hostname_def tls_sni_def TLS_HANDSHAKE_def http_host_def PEEK_BUDGET_def get_range_def
        split_on.simps crlf_def starts_with_def looks_like_http_def HTTP_METHODS_def)
  have wants: "wants_sniff sample_cfg_direct ?t"
    by (simp add: connect_eval sample_cfg_direct_def)
  have "route_of sample_cfg_direct sample_io ?t 9 = Proxy"
    using wants by (simp add: route_of_def sniffed_name_def head name) (simp add: connect_eval sample_cfg_direct_def)
  then show ?thesis
    using sniffed_failure_replies_twice [OF wants head, of 9 ?s "Other ''refused''"]
    by (auto simp: gateway_proxy_def sample_session_def)
qed

lemma sample_gateway_refusal: "\<exists>e. open_through_gateway (cx_gateway sample_io) proxy a p = Inl e"
proof -
  let ?head = "as_bytes (''X 403'' @ crlf @ crlf)"
  have "from_utf8_lossy (?head @ []) = ''X 403'' @ crlf @ crlf"
    by (subst from_utf8_lossy_ascii) (simp_all add: crlf_def from_utf8_lossy_def utf8_lossy.simps of_bytes_def)
  then have str: "from_utf8_lossy ?head = ''X 403'' @ crlf @ crlf" by simp
  have line: "find_str (''X 403'' @ crlf @ crlf) crlf = Some 5"
    by (simp add: find_str_def crlf_def starts_with_def)
  have words: "split_whitespace ''X 403'' = [''X'', ''403'']"
    by (simp add: split_whitespace_def split_ws.simps leading_space_space leading_space_graphic ascii_graphic_def)
  have "parse_uint 65535 ''403'' = Some 403"
    by (simp add: parse_uint_def digit_val.simps ascii_digit_def)
  then have "proxy_connect_succeeded ?head = Some False"
    unfolding proxy_connect_succeeded_def Let_def str line by (simp add: words)
  moreover have "find_head_end ?head = Some 9"
    by (simp add: find_head_end_def crlf_def as_bytes_def)
  ultimately show ?thesis
    by (simp add: open_through_gateway_def sample_io_def)
qed

lemma gateway_refusal_bypassed_witness:
  "\<exists>s'. handle_connect sample_cfg_direct sample_io (TargetDomain ''b.org'') 443 sample_session = (Inr (), s') \<and> ss_relay s' = Some 6"
proof -
  let ?t = "TargetDomain ''b.org''" and ?proxy = "\<lparr>sa_ip = V4 1, sa_port = 80\<rparr>"
  obtain e where refusal: "open_through_gateway (cx_gateway sample_io) ?proxy (target_to_string ?t) 443 = Inl e"
    using sample_gateway_refusal by blast
  have wants: "\<not> wants_sniff sample_cfg_direct ?t" by (simp add: wants_sniff_def)
  have lower: "to_lowercase ''b.org'' = ''b.org''"
    by (simp add: to_lowercase_def to_ascii_lowercase_def ascii_upper_def)
  have "route_of sample_cfg_direct sample_io ?t 443 = Proxy"
    by (simp add: route_of_def sniffed_name_def wants decide_route_def)
      (simp add: decide_def host_of_def sample_cfg_direct_def lower ends_with_def Let_def)
  then show ?thesis
    using gateway_refusal_bypassed [OF _ wants _ _ refusal, of sample_session "V4 1" 6]
    by (auto simp: sample_session_def gateway_proxy_def)
qed

end
