(* ===== verification/Socks_Udp.thy ===== *)
theory Socks_Udp
  imports Socks_Client
begin

text \<open>
  The UDP associations of \<^verbatim>\<open>socks.rs\<close>: \<^verbatim>\<open>handle_udp_associate\<close>, which relays datagrams through the
  tunnel or directly, and \<^verbatim>\<open>handle_udp_over_connector\<close>, which carries DNS over TCP. Each is a loop over
  a \<^verbatim>\<open>select\<close>; an event is the branch that fires, with what it gives. What is sent is recorded.
\<close>

subsection \<open>Who may use an association\<close>

definition expected_udp_source :: "ip_addr \<Rightarrow> target \<Rightarrow> ip_addr" where
  "expected_udp_source control_peer requested =
     (case requested of
        TargetIp ip \<Rightarrow> if \<not> ip_is_unspecified ip then normalize_ip ip else normalize_ip control_peer
      | TargetDomain _ \<Rightarrow> normalize_ip control_peer)"

definition udp_source_allowed :: "ip_addr \<Rightarrow> socket_addr option \<Rightarrow> socket_addr \<Rightarrow> bool" where
  "udp_source_allowed expected_ip latched from =
     (case latched of
        Some known \<Rightarrow> known = from
      | None \<Rightarrow> normalize_ip (sa_ip from) = normalize_ip expected_ip)"

lemma normalize_ip_idem [simp]: "normalize_ip (normalize_ip ip) = normalize_ip ip"
  by (auto simp: normalize_ip_def split: ip_addr.splits option.splits)

subsection \<open>The tunnel association\<close>

datatype udp_out =
    ToTunnel target u16 socket_addr bytes
  | ToDirect target u16 socket_addr bytes
  | ToClient socket_addr bytes

record udp_assoc =
  ua_peer :: ip_addr
  ua_expected :: ip_addr
  ua_client :: "socket_addr option"
  ua_refused :: nat
  ua_out :: "udp_out list"
  ua_done :: bool

definition udp_start :: "ip_addr \<Rightarrow> target \<Rightarrow> udp_assoc" where
  "udp_start control_peer requested = \<lparr>ua_peer = control_peer, ua_expected = expected_udp_source control_peer requested,
     ua_client = None, ua_refused = 0, ua_out = [], ua_done = False\<rparr>"

text \<open>
  A datagram of the client comes with what the two resolvers would say of its name: the system's for a
  direct route, the tunnel's for a proxied one.
\<close>

datatype udp_event =
    FromRelay socket_addr bytes "ip_addr option" "ip_addr option"
  | RelayError
  | FromStack "(socket_addr \<times> bytes) option"
  | FromDirect "(socket_addr \<times> bytes) option"
  | Control bool

definition send_direct :: "target \<Rightarrow> u16 \<Rightarrow> bytes \<Rightarrow> ip_addr option \<Rightarrow> udp_assoc \<Rightarrow> udp_assoc" where
  "send_direct t port payload looked_up a =
     (let outside = (case t of TargetIp ip \<Rightarrow> Some ip | TargetDomain _ \<Rightarrow> looked_up)
      in case outside of
           None \<Rightarrow> a
         | Some ip \<Rightarrow>
             if \<not> direct_target_allowed (ua_peer a) ip then a
             else a\<lparr>ua_out := ua_out a @ [ToDirect t port \<lparr>sa_ip = ip, sa_port = port\<rparr> payload]\<rparr>)"

definition send_tunnel :: "target \<Rightarrow> u16 \<Rightarrow> bytes \<Rightarrow> ip_addr option \<Rightarrow> udp_assoc \<Rightarrow> udp_assoc" where
  "send_tunnel t port payload resolved a =
     (case (case t of TargetIp ip \<Rightarrow> Some ip | TargetDomain _ \<Rightarrow> resolved) of
        None \<Rightarrow> a
      | Some ip \<Rightarrow> a\<lparr>ua_out := ua_out a @ [ToTunnel t port \<lparr>sa_ip = ip, sa_port = port\<rparr> payload]\<rparr>)"

definition from_client ::
  "('n, 'r) route_cfg \<Rightarrow> bytes \<Rightarrow> ip_addr option \<Rightarrow> ip_addr option \<Rightarrow> udp_assoc \<Rightarrow> udp_assoc" where
  "from_client cfg datagram looked_up resolved a =
     (case parse_udp_request datagram of
        Returns (Some (dst, dst_port, payload)) \<Rightarrow>
          (case decide (rc_lib cfg) (rc_rules cfg) (host_of dst) dst_port of
             Block \<Rightarrow> a
           | Direct \<Rightarrow> send_direct dst dst_port payload looked_up a
           | Proxy \<Rightarrow> send_tunnel dst dst_port payload resolved a)
      | _ \<Rightarrow> a)"

definition to_client :: "(socket_addr \<times> bytes) \<Rightarrow> udp_assoc \<Rightarrow> udp_assoc" where
  "to_client dat a =
     (case ua_client a of
        None \<Rightarrow> a
      | Some c \<Rightarrow> a\<lparr>ua_out := ua_out a @ [ToClient c (build_udp_reply (fst dat) (snd dat))]\<rparr>)"

definition udp_step :: "('n, 'r) route_cfg \<Rightarrow> udp_event \<Rightarrow> udp_assoc \<Rightarrow> udp_assoc" where
  "udp_step cfg ev a =
     (if ua_done a then a
      else case ev of
        FromRelay from datagram looked_up resolved \<Rightarrow>
          if \<not> udp_source_allowed (ua_expected a) (ua_client a) from
          then a\<lparr>ua_refused := ua_refused a + 1\<rparr>
          else from_client cfg datagram looked_up resolved
                 (case ua_client a of None \<Rightarrow> a\<lparr>ua_client := Some from\<rparr> | Some _ \<Rightarrow> a)
      | RelayError \<Rightarrow> a\<lparr>ua_done := True\<rparr>
      | FromStack None \<Rightarrow> a\<lparr>ua_done := True\<rparr>
      | FromStack (Some dat) \<Rightarrow> to_client dat a
      | FromDirect None \<Rightarrow> a
      | FromDirect (Some dat) \<Rightarrow> to_client dat a
      | Control closed \<Rightarrow> if closed then a\<lparr>ua_done := True\<rparr> else a)"

subsection \<open>DNS over a connector\<close>

definition DNS_PORT :: u16 where "DNS_PORT = 53"
definition DNS_MAX_IN_FLIGHT :: nat where "DNS_MAX_IN_FLIGHT = 32"

text \<open>\<^verbatim>\<open>dns_over_stream\<close> over what the far end sends back: what is written, and the answer.\<close>

definition dns_over_stream :: "bytes \<Rightarrow> bytes \<Rightarrow> bytes \<times> (string + bytes)" where
  "dns_over_stream query stream =
     (if 65535 < length query then ([], Inl ''dns query is too long to frame'')
      else (word_be 2 (of_nat (length query) :: u16) @ query,
            if length stream < 2 then Inl ''early eof''
            else (let n = unat (be_word (take 2 stream) :: u16); rest = drop 2 stream
                  in if length rest < n then Inl ''early eof'' else Inr (take n rest))))"

record dns_assoc =
  da_expected :: ip_addr
  da_client :: "socket_addr option"
  da_refused :: nat
  da_dropped :: nat
  da_in_flight :: "(socket_addr \<times> bytes) list"
  da_answers :: "(socket_addr \<times> bytes) list"
  da_sent :: "(socket_addr \<times> bytes) list"
  da_done :: bool

definition dns_start :: "ip_addr \<Rightarrow> target \<Rightarrow> dns_assoc" where
  "dns_start control_peer requested = \<lparr>da_expected = expected_udp_source control_peer requested, da_client = None,
     da_refused = 0, da_dropped = 0, da_in_flight = [], da_answers = [], da_sent = [], da_done = False\<rparr>"

text \<open>
  Events: a datagram at the relay, the end of the lookup at a place of the list of lookups (with the
  stream it got, or None for a failure or the timeout), a waiting answer, the control connection.
\<close>

datatype dns_event = DnsFrom socket_addr bytes | DnsRelayError | LookupDone nat "bytes option" | AnswerReady | DnsControl bool

definition start_lookup :: "bytes \<Rightarrow> dns_assoc \<Rightarrow> dns_assoc" where
  "start_lookup datagram a =
     (case parse_udp_request datagram of
        Returns (Some (dst, dst_port, payload)) \<Rightarrow>
          if dst_port \<noteq> DNS_PORT then a\<lparr>da_dropped := da_dropped a + 1\<rparr>
          else (case dst of
                  TargetDomain _ \<Rightarrow> a
                | TargetIp ip \<Rightarrow>
                    if length (da_in_flight a) < DNS_MAX_IN_FLIGHT
                    then a\<lparr>da_in_flight := da_in_flight a @ [(\<lparr>sa_ip = ip, sa_port = dst_port\<rparr>, payload)]\<rparr>
                    else a)
      | _ \<Rightarrow> a)"

text \<open>The answers wait in a channel of 64 places; a lookup that finds it full keeps its permit.\<close>

definition DNS_ANSWERS_CAPACITY :: nat where "DNS_ANSWERS_CAPACITY = 64"

definition finish_lookup :: "nat \<Rightarrow> bytes option \<Rightarrow> dns_assoc \<Rightarrow> dns_assoc" where
  "finish_lookup i stream a =
     (if i < length (da_in_flight a) then
        (let (resolver, query) = da_in_flight a ! i;
             rest = take i (da_in_flight a) @ drop (Suc i) (da_in_flight a);
             answer = (case stream of None \<Rightarrow> None
                       | Some str \<Rightarrow> (case snd (dns_over_stream query str) of Inr b \<Rightarrow> Some b | Inl _ \<Rightarrow> None))
         in case answer of
              None \<Rightarrow> a\<lparr>da_in_flight := rest\<rparr>
            | Some b \<Rightarrow>
                if length (da_answers a) < DNS_ANSWERS_CAPACITY
                then a\<lparr>da_in_flight := rest, da_answers := da_answers a @ [(resolver, b)]\<rparr>
                else a)
      else a)"

definition deliver_answer :: "dns_assoc \<Rightarrow> dns_assoc" where
  "deliver_answer a =
     (case da_answers a of
        [] \<Rightarrow> a
      | (src, answer) # rest \<Rightarrow>
          (case da_client a of
             None \<Rightarrow> a\<lparr>da_answers := rest\<rparr>
           | Some c \<Rightarrow> a\<lparr>da_answers := rest, da_sent := da_sent a @ [(c, build_udp_reply src answer)]\<rparr>))"

definition dns_step :: "dns_event \<Rightarrow> dns_assoc \<Rightarrow> dns_assoc" where
  "dns_step ev a =
     (if da_done a then a
      else case ev of
        DnsFrom from datagram \<Rightarrow>
          if \<not> udp_source_allowed (da_expected a) (da_client a) from
          then a\<lparr>da_refused := da_refused a + 1\<rparr>
          else start_lookup datagram (case da_client a of None \<Rightarrow> a\<lparr>da_client := Some from\<rparr> | Some _ \<Rightarrow> a)
      | DnsRelayError \<Rightarrow> a\<lparr>da_done := True\<rparr>
      | LookupDone i stream \<Rightarrow> finish_lookup i stream a
      | AnswerReady \<Rightarrow> deliver_answer a
      | DnsControl closed \<Rightarrow> if closed then a\<lparr>da_done := True\<rparr> else a)"

subsection \<open>One client per association\<close>

text \<open>
  What both loops promise of their client: once a source has been latched it stays, the first one has
  the expected address, and replies go to the latched source only.
\<close>

locale latched_relay =
  fixes step :: "'e \<Rightarrow> 's \<Rightarrow> 's" and client :: "'s \<Rightarrow> socket_addr option"
    and replies :: "'s \<Rightarrow> socket_addr set" and expected :: "'s \<Rightarrow> ip_addr"
  assumes latch: "client s = Some c \<Longrightarrow> client (step e s) = Some c"
    and first: "client s = None \<Longrightarrow> client (step e s) = Some c \<Longrightarrow> normalize_ip (sa_ip c) = normalize_ip (expected s)"
    and fixed: "expected (step e s) = expected s"
    and sends: "replies (step e s) \<subseteq> replies s \<union> set_option (client s)"
begin

lemma run_client:
  assumes "replies s \<subseteq> set_option (client s)"
    and "\<forall>c. client s = Some c \<longrightarrow> normalize_ip (sa_ip c) = normalize_ip (expected s)"
  shows "replies (fold step es s) \<subseteq> set_option (client (fold step es s))
    \<and> (\<forall>c. client (fold step es s) = Some c \<longrightarrow> normalize_ip (sa_ip c) = normalize_ip (expected s))
    \<and> expected (fold step es s) = expected s"
  using assms
proof (induction es arbitrary: s)
  case (Cons e es)
  have "set_option (client s) \<subseteq> set_option (client (step e s))"
    using latch by (cases "client s") auto
  then have 1: "replies (step e s) \<subseteq> set_option (client (step e s))"
    using sends [of e s] Cons.prems(1) by blast
  have 2: "normalize_ip (sa_ip c) = normalize_ip (expected (step e s))" if "client (step e s) = Some c" for c
    using that Cons.prems(2) latch [of s _ e] first [of s e] by (cases "client s") (auto simp: fixed)
  from Cons.IH [OF 1] 2 show ?case by (simp add: fixed)
qed simp

end

definition replied_to :: "udp_out list \<Rightarrow> socket_addr set" where
  "replied_to outs = {c. \<exists>b. ToClient c b \<in> set outs}"

lemma replied_to_append [simp]: "replied_to (xs @ ys) = replied_to xs \<union> replied_to ys"
  by (auto simp: replied_to_def)

lemma replied_to_single [simp]:
  "replied_to [ToTunnel t p a b] = {}" "replied_to [ToDirect t p a b] = {}" "replied_to [ToClient c b] = {c}"
  by (auto simp: replied_to_def)

lemma from_client_keeps [simp]:
  "ua_client (from_client cfg d l r a) = ua_client a" "ua_expected (from_client cfg d l r a) = ua_expected a"
  "replied_to (ua_out (from_client cfg d l r a)) = replied_to (ua_out a)" "ua_peer (from_client cfg d l r a) = ua_peer a"
  by (auto simp: from_client_def send_direct_def send_tunnel_def Let_def
      split: run.splits option.splits action.splits target.splits)

lemma to_client_keeps [simp]:
  "ua_client (to_client d a) = ua_client a" "ua_expected (to_client d a) = ua_expected a" "ua_peer (to_client d a) = ua_peer a"
  "replied_to (ua_out (to_client d a)) = replied_to (ua_out a) \<union> set_option (ua_client a)"
  by (auto simp: to_client_def split: option.splits)

interpretation tunnel_udp: latched_relay "udp_step cfg" ua_client "\<lambda>a. replied_to (ua_out a)" ua_expected
  by unfold_locales
    (auto simp: udp_step_def udp_source_allowed_def split: udp_event.splits option.splits if_splits)

lemma start_lookup_keeps [simp]:
  "da_client (start_lookup d a) = da_client a" "da_expected (start_lookup d a) = da_expected a" "da_sent (start_lookup d a) = da_sent a"
  by (auto simp: start_lookup_def split: run.splits option.splits target.splits)

lemma finish_lookup_keeps [simp]:
  "da_client (finish_lookup i str a) = da_client a" "da_expected (finish_lookup i str a) = da_expected a"
  "da_sent (finish_lookup i str a) = da_sent a"
  by (auto simp: finish_lookup_def Let_def split: prod.splits option.splits sum.splits)

lemma deliver_answer_keeps [simp]:
  "da_client (deliver_answer a) = da_client a" "da_expected (deliver_answer a) = da_expected a"
  "fst ` set (da_sent (deliver_answer a)) \<subseteq> fst ` set (da_sent a) \<union> set_option (da_client a)"
  by (auto simp: deliver_answer_def split: list.splits option.splits)

interpretation dns_udp: latched_relay dns_step da_client "\<lambda>a. fst ` set (da_sent a)" da_expected
proof
  fix a e
  show "fst ` set (da_sent (dns_step e a)) \<subseteq> fst ` set (da_sent a) \<union> set_option (da_client a)"
    using deliver_answer_keeps(3) [of a] by (auto simp: dns_step_def split: dns_event.splits option.splits if_splits)
qed (auto simp: dns_step_def udp_source_allowed_def split: dns_event.splits option.splits if_splits)

subsection \<open>Where datagrams go\<close>

text \<open>A datagram that leaves follows its route, and a direct one goes where the client may go.\<close>

fun out_routed :: "('n, 'r) route_cfg \<Rightarrow> ip_addr \<Rightarrow> udp_out \<Rightarrow> bool" where
  "out_routed cfg peer (ToTunnel t p a b) = (decide (rc_lib cfg) (rc_rules cfg) (host_of t) p = Proxy)"
| "out_routed cfg peer (ToDirect t p a b) =
     (decide (rc_lib cfg) (rc_rules cfg) (host_of t) p = Direct \<and> direct_target_allowed peer (sa_ip a))"
| "out_routed cfg peer (ToClient c b) = True"

definition all_routed :: "('n, 'r) route_cfg \<Rightarrow> udp_assoc \<Rightarrow> bool" where
  "all_routed cfg a \<longleftrightarrow> list_all (out_routed cfg (ua_peer a)) (ua_out a)"

lemma all_routed_step: "all_routed cfg a \<Longrightarrow> all_routed cfg (udp_step cfg e a)"
  by (auto simp: udp_step_def all_routed_def to_client_def from_client_def send_direct_def send_tunnel_def Let_def
      split: udp_event.splits option.splits run.splits action.splits target.splits)

lemma udp_step_peer [simp]: "ua_peer (udp_step cfg e a) = ua_peer a"
  by (auto simp: udp_step_def split: udp_event.splits option.splits)

lemma all_routed_run: "all_routed cfg a \<Longrightarrow> all_routed cfg (fold (udp_step cfg) es a) \<and> ua_peer (fold (udp_step cfg) es a) = ua_peer a"
  by (induction es arbitrary: a) (auto simp: all_routed_step)

text \<open>
  C11. Over every sequence of events of a UDP association: what leaves for the tunnel is routed through
  the tunnel and what leaves directly is routed directly, to an address the client may reach; nothing
  that the rules block leaves; and every reply goes to the one latched client, whose address is the
  one the request announced or the control connection has.
\<close>

theorem udp_association_safe:
  "list_all (\<lambda>out. out_routed cfg control_peer out
      \<and> (case out of
           ToClient c b \<Rightarrow> ua_client (fold (udp_step cfg) events (udp_start control_peer requested)) = Some c
             \<and> normalize_ip (sa_ip c) = expected_udp_source control_peer requested
         | _ \<Rightarrow> True))
     (ua_out (fold (udp_step cfg) events (udp_start control_peer requested)))"
proof -
  let ?start = "udp_start control_peer requested"
  let ?a = "fold (udp_step cfg) events ?start"
  have routed: "list_all (out_routed cfg control_peer) (ua_out ?a)"
    using all_routed_run [of cfg ?start events] by (auto simp: all_routed_def udp_start_def)
  have norm: "normalize_ip (expected_udp_source control_peer requested) = expected_udp_source control_peer requested"
    by (simp add: expected_udp_source_def split: target.split)
  have "replied_to (ua_out ?a) \<subseteq> set_option (ua_client ?a)
      \<and> (\<forall>c. ua_client ?a = Some c \<longrightarrow> normalize_ip (sa_ip c) = normalize_ip (ua_expected ?start))"
    using tunnel_udp.run_client [of ?start cfg events] by (simp add: udp_start_def replied_to_def)
  then have "ua_client ?a = Some c \<and> normalize_ip (sa_ip c) = expected_udp_source control_peer requested"
    if "ToClient c b \<in> set (ua_out ?a)" for c b
    using that norm by (auto simp: replied_to_def udp_start_def subset_iff)
  with routed show ?thesis
    by (auto simp: list_all_iff split: udp_out.split)
qed

lemma dns_bounds_step:
  assumes "length (da_in_flight a) \<le> DNS_MAX_IN_FLIGHT \<and> length (da_answers a) \<le> DNS_ANSWERS_CAPACITY"
  shows "length (da_in_flight (dns_step e a)) \<le> DNS_MAX_IN_FLIGHT \<and> length (da_answers (dns_step e a)) \<le> DNS_ANSWERS_CAPACITY"
  using assms
  by (auto simp: dns_step_def start_lookup_def finish_lookup_def deliver_answer_def Let_def
      split: dns_event.splits run.splits option.splits target.splits prod.splits list.splits sum.splits)

text \<open>
  The association that carries DNS over a connector has at most 32 lookups under way and 64
  answers waiting, whatever its client sends, and answers only the client it is latched to.
\<close>

lemma dns_association_bounded:
  "length (da_in_flight (fold dns_step events (dns_start control_peer requested))) \<le> DNS_MAX_IN_FLIGHT
    \<and> length (da_answers (fold dns_step events (dns_start control_peer requested))) \<le> DNS_ANSWERS_CAPACITY
    \<and> list_all (\<lambda>(c, b). da_client (fold dns_step events (dns_start control_peer requested)) = Some c
          \<and> normalize_ip (sa_ip c) = expected_udp_source control_peer requested)
        (da_sent (fold dns_step events (dns_start control_peer requested)))"
proof -
  let ?start = "dns_start control_peer requested"
  have bounds: "length (da_in_flight a) \<le> DNS_MAX_IN_FLIGHT \<and> length (da_answers a) \<le> DNS_ANSWERS_CAPACITY \<Longrightarrow>
      length (da_in_flight (fold dns_step es a)) \<le> DNS_MAX_IN_FLIGHT
      \<and> length (da_answers (fold dns_step es a)) \<le> DNS_ANSWERS_CAPACITY" for es a
    by (induction es arbitrary: a) (use dns_bounds_step in auto)
  have norm: "normalize_ip (expected_udp_source control_peer requested) = expected_udp_source control_peer requested"
    by (simp add: expected_udp_source_def split: target.split)
  have "fst ` set (da_sent (fold dns_step events ?start)) \<subseteq> set_option (da_client (fold dns_step events ?start))
      \<and> (\<forall>c. da_client (fold dns_step events ?start) = Some c \<longrightarrow> normalize_ip (sa_ip c) = normalize_ip (da_expected ?start))"
    using dns_udp.run_client [of ?start events] by (simp add: dns_start_def)
  then have "list_all (\<lambda>(c, b). da_client (fold dns_step events ?start) = Some c
      \<and> normalize_ip (sa_ip c) = expected_udp_source control_peer requested) (da_sent (fold dns_step events ?start))"
    using norm by (fastforce simp: list_all_iff dns_start_def)
  then show ?thesis using bounds [of ?start events] by (simp add: dns_start_def)
qed

end
