(* ===== verification/Upstream.thy ===== *)
theory Upstream
  imports Socks_Udp
begin

text \<open>
  \<^verbatim>\<open>upstream.rs\<close>: dialling out through a proxy of the user, SOCKS5 or HTTP. The setting and its
  address, the handshakes, the datagram header of a UDP relay, the table of detours and the loop that
  pumps a detour. Connecting, resolving, \<^verbatim>\<open>to_lowercase\<close> and base64 are arguments.
\<close>

definition AUTH_NONE :: u8 where "AUTH_NONE = 0x00"
definition AUTH_USERPASS :: u8 where "AUTH_USERPASS = 0x02"
definition AUTH_REJECTED :: u8 where "AUTH_REJECTED = 0xff"

datatype up_kind = Socks5 | Http

definition up_label :: "up_kind \<Rightarrow> string" where
  "up_label k = (case k of Socks5 \<Rightarrow> ''socks5'' | Http \<Rightarrow> ''http'')"

record upstream =
  up_kind :: up_kind
  up_host :: string
  up_port :: u16
  up_user :: "string option"
  up_password :: "string option"

subsection \<open>The setting\<close>

definition endpoint_error :: "string \<Rightarrow> aether_error" where
  "endpoint_error e = Other (e @ '' is not a host and port an upstream proxy can live at'')"

definition checked_endpoint :: "string \<Rightarrow> string \<Rightarrow> string \<Rightarrow> (string \<times> u16) result" where
  "checked_endpoint e host port_text =
     (case parse_u16 port_text of
        None \<Rightarrow> Inl (endpoint_error e)
      | Some port \<Rightarrow> if host = [] \<or> port = 0 then Inl (endpoint_error e) else Inr (host, port))"

definition split_endpoint :: "string \<Rightarrow> (string \<times> u16) result" where
  "split_endpoint e =
     (case strip_prefix e ''['' of
        Some rest \<Rightarrow>
          (case split_once (CHR '']'') rest of
             None \<Rightarrow> Inl (endpoint_error e)
           | Some (host, tail) \<Rightarrow>
               (case strip_prefix tail '':'' of
                  None \<Rightarrow> Inl (endpoint_error e)
                | Some port_text \<Rightarrow> checked_endpoint e host port_text))
      | None \<Rightarrow>
          (case rsplit_once (CHR '':'') e of
             None \<Rightarrow> Inl (endpoint_error e)
           | Some (host, port_text) \<Rightarrow> checked_endpoint e host port_text))"

text \<open>\<^verbatim>\<open>u8::from_str_radix\<close> of two characters; a plus sign in front is allowed.\<close>

definition hex_byte :: "char \<Rightarrow> char \<Rightarrow> u8 option" where
  "hex_byte a b =
     (if a = CHR ''+'' then map_option of_nat (digit_val 16 b)
      else (case (digit_val 16 a, digit_val 16 b) of
              (Some x, Some y) \<Rightarrow> Some (of_nat (16 * x + y))
            | _ \<Rightarrow> None))"

fun percent_bytes :: "string \<Rightarrow> bytes" where
  "percent_bytes [] = []"
| "percent_bytes (c # a # b # r) =
     (if c = CHR ''%'' then (case hex_byte a b of Some x \<Rightarrow> x # percent_bytes r | None \<Rightarrow> of_char c # percent_bytes (a # b # r))
      else of_char c # percent_bytes (a # b # r))"
| "percent_bytes (c # r) = of_char c # percent_bytes r"

definition percent_decode :: "string \<Rightarrow> string" where
  "percent_decode v = from_utf8_lossy (percent_bytes v)"

definition https_password_error :: string where
  "https_password_error = ''an https:// upstream with a password is refused: aether talks to its upstream over plain http, which would send the password in the clear; use http:// only if that is acceptable, or socks5://''"

definition upstream_parse :: "(string \<Rightarrow> string) \<Rightarrow> string \<Rightarrow> upstream result" where
  "upstream_parse lowercase raw0 =
     (let raw = trim raw0;
          (scheme, rest) = (case split_once_str ''://'' raw of Some (s, r) \<Rightarrow> (lowercase s, r) | None \<Rightarrow> (''socks5'', raw));
          kind = (if scheme \<in> set [''socks5'', ''socks5h'', ''socks''] then Inr Socks5
                  else if scheme \<in> set [''http'', ''https''] then Inr Http
                  else Inl (Other (scheme @ '' is not an upstream proxy kind aether understands'')))
      in res_bind kind (\<lambda>k.
         let (credentials, endp) = (case rsplit_once (CHR ''@'') rest of Some (c, e) \<Rightarrow> (Some c, e) | None \<Rightarrow> (None, rest))
         in if scheme = ''https'' \<and> credentials \<noteq> None then Inl (Other https_password_error)
            else res_bind (split_endpoint (trim_end_matches (CHR ''/'') endp)) (\<lambda>(host, port).
              let (user, password) =
                    (case credentials of
                       None \<Rightarrow> (None, None)
                     | Some pair \<Rightarrow>
                         (case split_once (CHR '':'') pair of
                            Some (u, p) \<Rightarrow> (Some (percent_decode u), Some (percent_decode p))
                          | None \<Rightarrow> (Some (percent_decode pair), None)))
              in Inr \<lparr>up_kind = k, up_host = host, up_port = port, up_user = user, up_password = password\<rparr>)))"

definition upstream_from_env :: "(string \<Rightarrow> string) \<Rightarrow> env \<Rightarrow> upstream option" where
  "upstream_from_env lowercase env =
     (case env ''AETHER_UPSTREAM'' of
        None \<Rightarrow> None
      | Some raw \<Rightarrow>
          (let trimmed = trim raw
           in if trimmed = [] then None
              else (case upstream_parse lowercase trimmed of Inr u \<Rightarrow> Some u | Inl _ \<Rightarrow> None)))"

definition upstream_endpoint :: "upstream \<Rightarrow> string" where
  "upstream_endpoint u = up_host u @ '':'' @ nat_dec (unat (up_port u))"

definition upstream_url :: "upstream \<Rightarrow> string" where
  "upstream_url u =
     (let host = (if CHR '':'' \<in> set (up_host u) then ''['' @ up_host u @ '']'' else up_host u);
          scheme = (case up_kind u of Socks5 \<Rightarrow> ''socks5h'' | Http \<Rightarrow> ''http'')
      in scheme @ ''://'' @ host @ '':'' @ nat_dec (unat (up_port u)))"

subsection \<open>Messages\<close>

definition encode_address :: "socket_addr \<Rightarrow> bytes" where
  "encode_address t =
     (case sa_ip t of V4 v4 \<Rightarrow> ATYP_V4 # v4_octets v4 | V6 v6 \<Rightarrow> ATYP_V6 # v6_octets v6) @ word_be 2 (sa_port t)"

definition encode_request :: "u8 \<Rightarrow> socket_addr \<Rightarrow> bytes" where
  "encode_request command t = [VER, command, 0x00] @ encode_address t"

definition encode_udp_header :: "socket_addr \<Rightarrow> bytes" where
  "encode_udp_header t = [0x00, 0x00, 0x00] @ encode_address t"

definition decode_udp_header :: "bytes \<Rightarrow> (socket_addr \<times> usize) option" where
  "decode_udp_header buf =
     (if length buf < 4 \<or> buf ! 2 \<noteq> 0 then None
      else if buf ! 3 = ATYP_V4 then
        (if length buf < 10 then None
         else Some (\<lparr>sa_ip = V4 (be_word (take 4 (drop 4 buf))), sa_port = be_word (take 2 (drop 8 buf))\<rparr>, 10))
      else if buf ! 3 = ATYP_V6 then
        (if length buf < 22 then None
         else Some (\<lparr>sa_ip = V6 (be_word (take 16 (drop 4 buf))), sa_port = be_word (take 2 (drop 20 buf))\<rparr>, 22))
      else if buf ! 3 = ATYP_DOMAIN then
        do { len \<leftarrow> get_at buf 4;
             let stop = 5 + unat len;
             if length buf < stop + 2 then None
             else do {
               name \<leftarrow> from_utf8 (take (unat len) (drop 5 buf));
               ip \<leftarrow> parse_ip name;
               Some (\<lparr>sa_ip = ip, sa_port = be_word (take 2 (drop stop buf))\<rparr>, stop + 2) } }
      else None)"

definition http_status :: "bytes \<Rightarrow> nat option" where
  "http_status head =
     (case str_lines (from_utf8_lossy head) of
        [] \<Rightarrow> None
      | line # _ \<Rightarrow>
          (case split_whitespace line of
             version # code # _ \<Rightarrow> if \<not> starts_with version ''HTTP/'' then None else parse_uint 65535 code
           | _ \<Rightarrow> None))"

end
