(* ===== verification/Head_End.thy ===== *)
theory Head_End
  imports Socks_Connect
begin

text \<open>
  The end of an HTTP head. Three loops of the program look for the first empty line of what a peer
  sends: the gateway reader and the proxy listener of \<^verbatim>\<open>socks.rs\<close> take chunks, the one searching the
  whole buffer and the other only around the new chunk, and the upstream dialler takes single bytes.
  Their searches have one contract, under which the head does not depend on how the stream is cut.
\<close>

definition CRLF2 :: bytes where "CRLF2 = [0x0d, 0x0a, 0x0d, 0x0a]"

lemma length_CRLF2 [simp]: "length CRLF2 = 4"
  by (simp add: CRLF2_def)

subsection \<open>The first end\<close>

definition ends_at :: "bytes \<Rightarrow> nat \<Rightarrow> bool" where
  "ends_at b n \<longleftrightarrow> 4 \<le> n \<and> n \<le> length b \<and> take 4 (drop (n - 4) b) = CRLF2"

lemma find_head_end_Some: "find_head_end b = Some n \<longleftrightarrow> ends_at b n \<and> (\<forall>m < n. \<not> ends_at b m)"
proof
  assume "find_head_end b = Some n"
  then obtain p where p: "n = p + 4" "p < Suc (length b) - 4" "take 4 (drop p b) = CRLF2"
    and first: "\<forall>j < p. take 4 (drop j b) \<noteq> CRLF2"
    by (auto simp: find_head_end_def find_upt_Some CRLF2_def)
  have "\<not> ends_at b m" if "m < n" for m
    using first that p(1) by (auto simp: ends_at_def)
  then show "ends_at b n \<and> (\<forall>m < n. \<not> ends_at b m)"
    using p by (auto simp: ends_at_def)
next
  assume h: "ends_at b n \<and> (\<forall>m < n. \<not> ends_at b m)"
  have "take 4 (drop j b) \<noteq> CRLF2" if "j < n - 4" for j
    using h that by (auto simp: ends_at_def dest: spec [of _ "j + 4"])
  then have "find (\<lambda>i. take 4 (drop i b) = CRLF2) [0..<Suc (length b) - 4] = Some (n - 4)"
    using h by (auto simp: find_upt_Some ends_at_def)
  then show "find_head_end b = Some n"
    using h by (simp add: find_head_end_def ends_at_def CRLF2_def)
qed

lemma find_head_end_None: "find_head_end b = None \<longleftrightarrow> (\<forall>n. \<not> ends_at b n)"
proof -
  have "find_head_end b \<noteq> None" if "ends_at b n" for n
  proof -
    have "find_head_end b = Some (LEAST m. ends_at b m)"
      using that by (auto simp: find_head_end_Some intro: LeastI dest: not_less_Least)
    then show ?thesis by simp
  qed
  moreover have "\<exists>n. ends_at b n" if "find_head_end b \<noteq> None"
    using that by (auto simp: find_head_end_Some)
  ultimately show ?thesis by blast
qed

lemma find_head_end_bounds: "find_head_end b = Some n \<Longrightarrow> 4 \<le> n \<and> n \<le> length b"
  by (simp add: find_head_end_Some ends_at_def)

lemma ends_at_append: "n \<le> length a \<Longrightarrow> ends_at (a @ b) n = ends_at a n"
  by (auto simp: ends_at_def)

lemma ends_at_drop: "ends_at (drop k b) n \<longleftrightarrow> 4 \<le> n \<and> ends_at b (n + k)"
  by (auto simp: ends_at_def add.commute algebra_simps)

lemma find_head_end_append: "find_head_end a = Some n \<Longrightarrow> find_head_end (a @ b) = Some n"
  by (auto simp: find_head_end_Some ends_at_append) (auto simp: ends_at_def ends_at_append)

lemma ends_after_None: "find_head_end a = None \<Longrightarrow> ends_at (a @ b) n \<Longrightarrow> length a < n"
  by (metis ends_at_append find_head_end_None not_le_imp_less)

text \<open>Searching the last three bytes and the new chunk only misses nothing.\<close>

lemma find_head_end_incremental:
  assumes "find_head_end a = None"
  shows "find_head_end (a @ b) = map_option (\<lambda>p. p + (length a - 3)) (find_head_end (drop (length a - 3) (a @ b)))"
proof (cases "find_head_end (drop (length a - 3) (a @ b))")
  case None
  have "\<not> ends_at (a @ b) n" for n
  proof
    assume h: "ends_at (a @ b) n"
    then have "length a < n" "4 \<le> n" using ends_after_None [OF assms] by (auto simp: ends_at_def)
    then have "ends_at (drop (length a - 3) (a @ b)) (n - (length a - 3))"
      using h by (simp add: ends_at_drop del: drop_append)
    then show False using None by (simp add: find_head_end_None del: drop_append)
  qed
  then have "find_head_end (a @ b) = None" by (simp add: find_head_end_None)
  then show ?thesis using None by (simp del: drop_append)
next
  case (Some p)
  then have p: "ends_at (a @ b) (p + (length a - 3))" "4 \<le> p"
    and first: "\<And>m. m < p \<Longrightarrow> \<not> ends_at (drop (length a - 3) (a @ b)) m"
    by (auto simp: find_head_end_Some ends_at_drop simp del: drop_append)
  have "\<not> ends_at (a @ b) m" if "m < p + (length a - 3)" for m
  proof
    assume h: "ends_at (a @ b) m"
    then have "length a < m" "4 \<le> m" using ends_after_None [OF assms] by (auto simp: ends_at_def)
    moreover from this have "m - (length a - 3) < p" "4 \<le> m - (length a - 3)" using that by linarith+
    ultimately show False
      using first [of "m - (length a - 3)"] h by (simp add: ends_at_drop del: drop_append)
  qed
  then have "find_head_end (a @ b) = Some (p + (length a - 3))" using p by (simp add: find_head_end_Some)
  then show ?thesis using Some by (simp del: drop_append)
qed

subsection \<open>Readers\<close>

text \<open>
  A reader keeps a buffer in which the search has found nothing, adds the next chunk and searches
  again, until it finds the end or the buffer is longer than the limit. The result is the head, the
  bytes of the last chunk behind it and the chunks that have not been read.
\<close>

fun read_until :: "(bytes \<Rightarrow> bytes \<Rightarrow> nat option) \<Rightarrow> nat \<Rightarrow> bytes \<Rightarrow> bytes list \<Rightarrow> (bytes \<times> bytes \<times> bytes list) option" where
  "read_until search limit buf [] = None"
| "read_until search limit buf (c # cs) =
     (case search buf c of
        Some n \<Rightarrow> Some (take n (buf @ c), drop n (buf @ c), cs)
      | None \<Rightarrow> if limit < length (buf @ c) then None else read_until search limit (buf @ c) cs)"

locale head_search =
  fixes search :: "bytes \<Rightarrow> bytes \<Rightarrow> nat option" and chunk_ok :: "bytes \<Rightarrow> bool"
  assumes search_eq: "chunk_ok chunk \<Longrightarrow> find_head_end buf = None \<Longrightarrow> search buf chunk = find_head_end (buf @ chunk)"
begin

lemma read_until_sound:
  assumes "list_all chunk_ok cs" and "find_head_end buf = None" and "read_until search limit buf cs = Some (head, early, rest)"
  shows "find_head_end (buf @ concat cs) = Some (length head) \<and> head @ early @ concat rest = buf @ concat cs"
  using assms
proof (induction cs arbitrary: buf)
  case (Cons c cs)
  show ?case
  proof (cases "search buf c")
    case None
    then have "find_head_end (buf @ c) = None" using search_eq [of c buf] Cons.prems(1,2) by simp
    moreover have "read_until search limit (buf @ c) cs = Some (head, early, rest)"
      using Cons.prems(3) None by (simp split: if_splits)
    ultimately show ?thesis using Cons.IH [of "buf @ c"] Cons.prems(1) by simp
  next
    case (Some n)
    then have found: "find_head_end (buf @ c) = Some n" using search_eq [of c buf] Cons.prems(1,2) by simp
    then have "n \<le> length (buf @ c)" using find_head_end_bounds [of "buf @ c" n] by simp
    moreover have "head = take n (buf @ c)" "early = drop n (buf @ c)" "rest = cs"
      using Cons.prems(3) Some by auto
    ultimately have "length head = n" "head @ early = buf @ c" "rest = cs"
      by (simp_all del: take_append drop_append)
    then show ?thesis using find_head_end_append [OF found, of "concat cs"]
      by (metis append_assoc concat.simps(2))
  qed
qed simp

text \<open>The reading stops with the chunk that completes the head.\<close>

lemma read_until_stops:
  assumes "list_all chunk_ok cs" and "find_head_end buf = None" and "read_until search limit buf cs = Some (head, early, rest)"
  shows "\<exists>k < length cs. rest = drop (Suc k) cs \<and> length (buf @ concat (take k cs)) < length head"
  using assms
proof (induction cs arbitrary: buf)
  case (Cons c cs)
  show ?case
  proof (cases "search buf c")
    case None
    then have "find_head_end (buf @ c) = None" using search_eq [of c buf] Cons.prems(1,2) by simp
    moreover have "read_until search limit (buf @ c) cs = Some (head, early, rest)"
      using Cons.prems(3) None by (simp split: if_splits)
    ultimately obtain k where "k < length cs" "rest = drop (Suc k) cs" "length ((buf @ c) @ concat (take k cs)) < length head"
      using Cons.IH [of "buf @ c"] Cons.prems(1) by auto
    then show ?thesis by (intro exI [of _ "Suc k"]) simp
  next
    case (Some n)
    then have found: "find_head_end (buf @ c) = Some n" using search_eq [of c buf] Cons.prems(1,2) by simp
    then have "length buf < n" "n \<le> length (buf @ c)"
      using ends_after_None [OF Cons.prems(2), of c n] find_head_end_bounds [OF found] by (simp_all add: find_head_end_Some)
    moreover have "head = take n (buf @ c)" "rest = cs" using Cons.prems(3) Some by auto
    ultimately show ?thesis by (intro exI [of _ 0]) simp
  qed
qed simp

lemma read_until_complete:
  assumes "list_all chunk_ok cs" and "find_head_end buf = None" and "find_head_end (buf @ concat cs) = Some n" and "n \<le> Suc limit"
  shows "\<exists>early rest. read_until search limit buf cs = Some (take n (buf @ concat cs), early, rest)"
  using assms
proof (induction cs arbitrary: buf)
  case (Cons c cs)
  show ?case
  proof (cases "search buf c")
    case None
    then have none: "find_head_end (buf @ c) = None" using search_eq [of c buf] Cons.prems(1,2) by simp
    then have "length (buf @ c) < n"
      using Cons.prems(3) ends_after_None [of "buf @ c" "concat cs" n] by (simp add: find_head_end_Some)
    then have "\<not> limit < length (buf @ c)" using Cons.prems(4) by simp
    then show ?thesis using Cons.IH [of "buf @ c"] none Cons.prems None by simp
  next
    case (Some m)
    then have found: "find_head_end (buf @ c) = Some m" using search_eq [of c buf] Cons.prems(1,2) by simp
    then have "m = n" using find_head_end_append [OF found, of "concat cs"] Cons.prems(3) by simp
    moreover have "m \<le> length (buf @ c)" using find_head_end_bounds [OF found] by simp
    ultimately show ?thesis using Some by simp
  qed
qed simp

end

lemma find_head_end_Nil [simp]: "find_head_end [] = None"
  by (simp add: find_head_end_def)

text \<open>The upstream dialler adds one byte and looks at the last four.\<close>

definition tail_is :: "bytes \<Rightarrow> bytes \<Rightarrow> bool" where
  "tail_is b p \<longleftrightarrow> length p \<le> length b \<and> drop (length b - length p) b = p"

definition tail_search :: "bytes \<Rightarrow> bytes \<Rightarrow> nat option" where
  "tail_search buf chunk = (if tail_is (buf @ chunk) CRLF2 then Some (length (buf @ chunk)) else None)"

interpretation byte_search: head_search tail_search "\<lambda>c. length c = 1"
proof
  fix chunk buf :: bytes
  assume "length chunk = 1" and none: "find_head_end buf = None"
  then obtain x where x: "chunk = [x]" by (auto simp: length_Suc_conv)
  have only: "n = length (buf @ chunk)" if "ends_at (buf @ chunk) n" for n
    using ends_after_None [OF none that] that x by (simp add: ends_at_def)
  have "ends_at (buf @ chunk) (length (buf @ chunk)) \<longleftrightarrow> tail_is (buf @ chunk) CRLF2"
    by (auto simp: ends_at_def tail_is_def simp del: drop_append)
  moreover have "find_head_end (buf @ chunk) = Some (length (buf @ chunk))" if "ends_at (buf @ chunk) (length (buf @ chunk))"
    using only that unfolding find_head_end_Some by (metis less_irrefl)
  moreover have "find_head_end (buf @ chunk) = None" if "\<not> ends_at (buf @ chunk) (length (buf @ chunk))"
    using only that unfolding find_head_end_None by metis
  ultimately show "tail_search buf chunk = find_head_end (buf @ chunk)"
    by (simp add: tail_search_def)
qed

text \<open>The gateway reader searches the whole buffer.\<close>

interpretation gateway_search: head_search "\<lambda>buf chunk. find_head_end (buf @ chunk)" "\<lambda>_. True"
  by unfold_locales simp

lemma gateway_answer_reads:
  assumes "gateway_answer proxy authority port buf (map GwChunk cs @ rs) = Inr leftover"
    and "read_until (\<lambda>buf chunk. find_head_end (buf @ chunk)) GATEWAY_HEAD_LIMIT buf cs = Some (head, early, rest)"
  shows "leftover = early"
  using assms by (induction cs arbitrary: buf) (auto simp: Let_def split: option.splits if_splits bool.splits)

text \<open>What the gateway sends behind its answer is not lost: it is handed on as the first bytes of the far end.\<close>

lemma gateway_keeps_leftover:
  assumes "gateway_answer proxy authority port [] (map GwChunk cs @ rs) = Inr leftover"
    and "find_head_end (concat cs) = Some n" and "n \<le> GATEWAY_HEAD_LIMIT"
  shows "\<exists>rest. take n (concat cs) @ leftover @ concat rest = concat cs"
proof -
  have every: "list_all (\<lambda>_. True) cs" by (simp add: list_all_iff)
  obtain early rest where r: "read_until (\<lambda>buf chunk. find_head_end (buf @ chunk)) GATEWAY_HEAD_LIMIT [] cs
      = Some (take n (concat cs), early, rest)"
    using gateway_search.read_until_complete [OF every, of "[]" n GATEWAY_HEAD_LIMIT] assms(2,3) by auto
  then have "take n (concat cs) @ early @ concat rest = concat cs"
    using gateway_search.read_until_sound [OF every _ r] by simp
  then show ?thesis using gateway_answer_reads [OF assms(1) r] by blast
qed

end
