(* ===== verification/Upstream_Dial.thy ===== *)
theory Upstream_Dial
  imports Upstream Head_End
begin

text \<open>
  The handshakes of \<^verbatim>\<open>upstream.rs\<close>: \<^verbatim>\<open>socks_greet\<close>, \<^verbatim>\<open>socks_authenticate\<close>, \<^verbatim>\<open>http_connect\<close>, \<^verbatim>\<open>read_reply\<close>,
  \<^verbatim>\<open>connect\<close>, \<^verbatim>\<open>associate\<close> and the datagrams of a \<^verbatim>\<open>UdpRelay\<close>, as dialogues over a wire, and that both
  ends of the SOCKS protocol in the repository agree: what this client writes is what the server of
  \<^verbatim>\<open>socks.rs\<close> reads, and what that server answers is what this client reads.
\<close>

subsection \<open>Dialogues\<close>

text \<open>
  The wire to the proxy: what it still sends, whether it then stays silent instead of closing, what
  has been written, and which writes succeed. A dialogue has no result when it waits for ever.
\<close>

record proxy_wire =
  w_in :: bytes
  w_silent :: bool
  w_out :: "bytes list"
  w_ok :: "nat \<Rightarrow> bool"

type_synonym 'a dialogue = "proxy_wire \<Rightarrow> 'a result option \<times> proxy_wire"

definition dlg_ok :: "'a \<Rightarrow> 'a dialogue" where
  "dlg_ok x w = (Some (Inr x), w)"

definition dlg_fail :: "aether_error \<Rightarrow> 'a dialogue" where
  "dlg_fail e w = (Some (Inl e), w)"

definition dlg_bind :: "'a dialogue \<Rightarrow> ('a \<Rightarrow> 'b dialogue) \<Rightarrow> 'b dialogue" where
  "dlg_bind m f w =
     (case m w of
        (None, w') \<Rightarrow> (None, w')
      | (Some (Inl e), w') \<Rightarrow> (Some (Inl e), w')
      | (Some (Inr x), w') \<Rightarrow> f x w')"

definition dlg_write :: "bytes \<Rightarrow> unit dialogue" where
  "dlg_write b w =
     (if w_ok w (length (w_out w)) then (Some (Inr ()), w\<lparr>w_out := w_out w @ [b]\<rparr>)
      else (Some (Inl (Io ''broken pipe'')), w))"

definition dlg_read :: "nat \<Rightarrow> bytes dialogue" where
  "dlg_read n w =
     (if n \<le> length (w_in w) then (Some (Inr (take n (w_in w))), w\<lparr>w_in := drop n (w_in w)\<rparr>)
      else if w_silent w then (None, w\<lparr>w_in := []\<rparr>)
      else (Some (Inl (Io ''early eof'')), w\<lparr>w_in := []\<rparr>))"

lemma dlg_bind_ok: "m w = (Some (Inr x), w') \<Longrightarrow> dlg_bind m f w = f x w'"
  by (simp add: dlg_bind_def)

lemma dlg_bind_fail: "m w = (Some (Inl e), w') \<Longrightarrow> dlg_bind m f w = (Some (Inl e), w')"
  by (simp add: dlg_bind_def)

lemma dlg_read_append: "n = length a \<Longrightarrow> w_in w = a @ r \<Longrightarrow> dlg_read n w = (Some (Inr a), w\<lparr>w_in := r\<rparr>)"
  by (simp add: dlg_read_def)

lemma dlg_write_ok: "w_ok w (length (w_out w)) \<Longrightarrow> dlg_write b w = (Some (Inr ()), w\<lparr>w_out := w_out w @ [b]\<rparr>)"
  by (simp add: dlg_write_def)

lemma dlg_bind_write:
  "w_ok w (length (w_out w)) \<Longrightarrow> dlg_bind (dlg_write b) f w = f () (w\<lparr>w_out := w_out w @ [b]\<rparr>)"
  by (simp add: dlg_bind_def dlg_write_ok)

lemma dlg_bind_read: "w_in w = a @ r \<Longrightarrow> n = length a \<Longrightarrow> dlg_bind (dlg_read n) f w = f a (w\<lparr>w_in := r\<rparr>)"
  by (simp add: dlg_bind_def dlg_read_append)

subsection \<open>SOCKS\<close>

definition opt_string :: "string option \<Rightarrow> string" where
  "opt_string s = (case s of None \<Rightarrow> [] | Some x \<Rightarrow> x)"

definition socks_authenticate :: "upstream \<Rightarrow> unit dialogue" where
  "socks_authenticate u =
     (let user = opt_string (up_user u); password = opt_string (up_password u)
      in if 255 < length user \<or> 255 < length password
         then dlg_fail (Other ''the upstream proxy credentials are longer than socks5 allows'')
         else dlg_bind (dlg_write ([0x01, of_nat (length user)] @ as_bytes user @ [of_nat (length password)] @ as_bytes password)) (\<lambda>_.
              dlg_bind (dlg_read 2) (\<lambda>answer.
              if answer ! 0 \<noteq> 0x01
              then dlg_fail (Other ''the upstream proxy answered the password negotiation with the wrong version'')
              else if answer ! 1 \<noteq> 0x00 then dlg_fail (Other ''the upstream proxy refused the credentials supplied'')
              else dlg_ok ())))"

definition socks_greet :: "upstream \<Rightarrow> unit dialogue" where
  "socks_greet u =
     (let wants_auth = (up_user u \<noteq> None);
          greeting = (if wants_auth then [VER, 1, AUTH_USERPASS] else [VER, 1, AUTH_NONE])
      in dlg_bind (dlg_write greeting) (\<lambda>_.
         dlg_bind (dlg_read 2) (\<lambda>answer.
         if answer ! 0 \<noteq> VER then dlg_fail (Other ''the upstream proxy did not speak socks5'')
         else if answer ! 1 = AUTH_NONE then
           (if wants_auth then dlg_fail (Other ''the upstream proxy skipped authentication even though credentials are configured'')
            else dlg_ok ())
         else if answer ! 1 = AUTH_USERPASS then socks_authenticate u
         else if answer ! 1 = AUTH_REJECTED
           then dlg_fail (Other ''the upstream proxy rejected every authentication method offered'')
         else dlg_fail (Other (''the upstream proxy asked for authentication method '' @ nat_dec (unat (answer ! 1))
                @ '', which aether cannot do'')))))"

definition read_reply_ip :: "u8 \<Rightarrow> ip_addr dialogue" where
  "read_reply_ip atyp =
     (if atyp = ATYP_V4 then dlg_bind (dlg_read 4) (\<lambda>b. dlg_ok (V4 (be_word b)))
      else if atyp = ATYP_V6 then dlg_bind (dlg_read 16) (\<lambda>b. dlg_ok (V6 (be_word b)))
      else if atyp = ATYP_DOMAIN then
        dlg_bind (dlg_read 1) (\<lambda>len.
        dlg_bind (dlg_read (unat (len ! 0))) (\<lambda>name.
        dlg_ok (case parse_ip (from_utf8_lossy name) of Some ip \<Rightarrow> ip | None \<Rightarrow> V4 0)))
      else dlg_fail (Other (''the upstream proxy sent address type '' @ nat_dec (unat atyp) @ '', which aether cannot read'')))"

definition read_reply :: "socket_addr dialogue" where
  "read_reply =
     dlg_bind (dlg_read 4) (\<lambda>head.
     if head ! 0 \<noteq> VER then dlg_fail (Other ''the upstream proxy answered with something other than socks5'')
     else if head ! 1 \<noteq> REP_OK
       then dlg_fail (Other (''the upstream proxy refused the request with code '' @ nat_dec (unat (head ! 1))))
     else dlg_bind (read_reply_ip (head ! 3)) (\<lambda>ip.
          dlg_bind (dlg_read 2) (\<lambda>port. dlg_ok \<lparr>sa_ip = ip, sa_port = be_word port\<rparr>)))"

subsection \<open>HTTP\<close>



definition HTTP_ANSWER_LIMIT :: nat where "HTTP_ANSWER_LIMIT = 8192"

definition oversized_answer :: aether_error where
  "oversized_answer = Other ''the upstream proxy sent an oversized answer''"

text \<open>The head of the answer, read one byte at a time, and what is left on the wire.\<close>

fun read_answer :: "bool \<Rightarrow> bytes \<Rightarrow> bytes \<Rightarrow> bytes result option \<times> bytes" where
  "read_answer silent head [] =
     (if HTTP_ANSWER_LIMIT < length head then (Some (Inl oversized_answer), [])
      else if silent then (None, [])
      else (Some (Inl (Other ''the upstream proxy closed before answering the connect'')), []))"
| "read_answer silent head (b # r) =
     (if HTTP_ANSWER_LIMIT < length head then (Some (Inl oversized_answer), b # r)
      else if tail_is (head @ [b]) CRLF2 then (Some (Inr (head @ [b])), r)
      else read_answer silent (head @ [b]) r)"

definition dlg_answer :: "bytes dialogue" where
  "dlg_answer w = (case read_answer (w_silent w) [] (w_in w) of (r, rest) \<Rightarrow> (r, w\<lparr>w_in := rest\<rparr>))"

definition connect_request :: "(string \<Rightarrow> string) \<Rightarrow> upstream \<Rightarrow> socket_addr \<Rightarrow> string" where
  "connect_request base64 u t =
     (let authority = socket_addr_to_string t
      in ''CONNECT '' @ authority @ '' HTTP/1.1'' @ [CHR 13, CHR 10] @ ''Host: '' @ authority @ [CHR 13, CHR 10]
         @ ''Proxy-Connection: Keep-Alive'' @ [CHR 13, CHR 10]
         @ (case up_user u of
              None \<Rightarrow> []
            | Some user \<Rightarrow> ''Proxy-Authorization: Basic '' @ base64 (user @ '':'' @ opt_string (up_password u)) @ [CHR 13, CHR 10])
         @ [CHR 13, CHR 10])"

definition http_connect :: "(string \<Rightarrow> string) \<Rightarrow> upstream \<Rightarrow> socket_addr \<Rightarrow> unit dialogue" where
  "http_connect base64 u t =
     dlg_bind (dlg_write (as_bytes (connect_request base64 u t))) (\<lambda>_.
     dlg_bind dlg_answer (\<lambda>head.
     case http_status head of
       None \<Rightarrow> dlg_fail (Other ''the upstream proxy answer was not http'')
     | Some status \<Rightarrow>
         if status < 200 \<or> 300 \<le> status
         then dlg_fail (Other (''the upstream proxy answered '' @ nat_dec status @ '' to the connect''))
         else dlg_ok ()))"

subsection \<open>Connecting\<close>

text \<open>
  \<^verbatim>\<open>connect\<close> and \<^verbatim>\<open>associate\<close>: \<open>dial\<close> gives the wire of a new connection to the proxy; a dialogue that
  waits for ever meets the timeout of ten seconds.
\<close>

definition with_timeout :: "aether_error \<Rightarrow> ('a \<times> proxy_wire) result option \<Rightarrow> ('a \<times> proxy_wire) result" where
  "with_timeout e r = (case r of None \<Rightarrow> Inl e | Some x \<Rightarrow> x)"

definition on_wire :: "proxy_wire result \<Rightarrow> 'a dialogue \<Rightarrow> ('a \<times> proxy_wire) result option" where
  "on_wire dialled m =
     (case dialled of
        Inl e \<Rightarrow> Some (Inl e)
      | Inr w \<Rightarrow> (case m w of (r, w') \<Rightarrow> map_option (\<lambda>x. res_bind x (\<lambda>a. Inr (a, w'))) r))"

definition dial_socks :: "upstream \<Rightarrow> u8 \<Rightarrow> socket_addr \<Rightarrow> socket_addr dialogue" where
  "dial_socks u command t =
     dlg_bind (socks_greet u) (\<lambda>_. dlg_bind (dlg_write (encode_request command t)) (\<lambda>_. read_reply))"

definition upstream_connect ::
  "(string \<Rightarrow> string) \<Rightarrow> (string \<Rightarrow> u16 \<Rightarrow> proxy_wire result) \<Rightarrow> upstream \<Rightarrow> socket_addr \<Rightarrow> (unit \<times> proxy_wire) result" where
  "upstream_connect base64 dial u t =
     with_timeout (Other (''the upstream proxy at '' @ upstream_endpoint u @ '' did not answer in time''))
       (on_wire (dial (up_host u) (up_port u))
         (case up_kind u of
            Socks5 \<Rightarrow> dlg_bind (dial_socks u CMD_CONNECT t) (\<lambda>_. dlg_ok ())
          | Http \<Rightarrow> http_connect base64 u t))"

definition relay_address :: "(string \<Rightarrow> u16 \<Rightarrow> socket_addr list result) \<Rightarrow> socket_addr \<Rightarrow> string \<Rightarrow> u16 \<Rightarrow> socket_addr result" where
  "relay_address lookup bound hst port =
     (if \<not> ip_is_unspecified (sa_ip bound) \<and> sa_port bound \<noteq> 0 then Inr bound
      else (let relay_port = (if sa_port bound = 0 then port else sa_port bound)
            in case parse_ip hst of
                 Some ip \<Rightarrow> Inr \<lparr>sa_ip = ip, sa_port = relay_port\<rparr>
               | None \<Rightarrow>
                   res_bind (lookup hst relay_port) (\<lambda>found.
                   case found of
                     [] \<Rightarrow> Inl (Other (hst @ '' does not resolve to a usable relay address''))
                   | a # _ \<Rightarrow> Inr a)))"

text \<open>\<open>open_relay\<close> binds a socket of the family of the relay and connects it.\<close>

definition associate ::
  "(string \<Rightarrow> u16 \<Rightarrow> proxy_wire result) \<Rightarrow> (string \<Rightarrow> u16 \<Rightarrow> socket_addr list result) \<Rightarrow> (socket_addr \<Rightarrow> unit result)
   \<Rightarrow> upstream \<Rightarrow> (socket_addr \<times> proxy_wire) result" where
  "associate dial lookup open_relay u =
     (if up_kind u \<noteq> Socks5 then Inl (Other ''only a socks5 proxy can carry udp, an http proxy cannot'')
      else with_timeout (Other (''the upstream proxy at '' @ upstream_endpoint u @ '' never opened a udp relay''))
        (on_wire (dial (up_host u) (up_port u))
          (dlg_bind (dial_socks u CMD_UDP_ASSOCIATE \<lparr>sa_ip = V4 0, sa_port = 0\<rparr>) (\<lambda>bound w.
             (Some (res_bind (relay_address lookup bound (up_host u) (up_port u)) (\<lambda>relay.
                    res_bind (open_relay relay) (\<lambda>_. Inr relay))), w)))))"

subsection \<open>Datagrams\<close>

definition relay_send :: "bytes \<Rightarrow> socket_addr \<Rightarrow> bytes" where
  "relay_send payload t = encode_udp_header t @ payload"

text \<open>\<open>relay_recv n d\<close> receives the datagram \<open>d\<close> into a buffer of \<open>n\<close> bytes; None is \<^verbatim>\<open>InvalidData\<close>.\<close>

definition relay_recv :: "nat \<Rightarrow> bytes \<Rightarrow> (bytes \<times> socket_addr) option" where
  "relay_recv out_len datagram =
     (let framed = take (max out_len 2048 + 512) datagram
      in map_option (\<lambda>(origin, offset). (take out_len (drop offset framed), origin)) (decode_udp_header framed))"

subsection \<open>The answer of an HTTP proxy\<close>

lemma read_answer_reads:
  assumes "read_until tail_search HTTP_ANSWER_LIMIT head (map (\<lambda>b. [b]) bs) = Some (h, early, rest)"
    and "length head \<le> HTTP_ANSWER_LIMIT"
  shows "read_answer silent head bs = (Some (Inr h), early @ concat rest)"
  using assms
proof (induction bs arbitrary: head)
  case (Cons b bs)
  show ?case
  proof (cases "tail_is (head @ [b]) CRLF2")
    case True
    then have "tail_search head [b] = Some (length (head @ [b]))" by (simp add: tail_search_def)
    then show ?thesis using Cons.prems True by (auto simp: concat_map_singleton)
  next
    case False
    then have "tail_search head [b] = None" by (simp add: tail_search_def)
    then show ?thesis using Cons False by (simp split: if_splits)
  qed
qed simp

lemma read_answer_complete:
  assumes "find_head_end (answer @ rest) = Some (length answer)" and "length answer \<le> Suc HTTP_ANSWER_LIMIT"
  shows "read_answer silent [] (answer @ rest) = (Some (Inr answer), rest)"
proof -
  let ?cs = "map (\<lambda>b. [b]) (answer @ rest)"
  have "list_all (\<lambda>c. length c = 1) ?cs" by (auto simp: list_all_iff)
  moreover have "concat ?cs = answer @ rest" by (simp only: concat_map_singleton) simp
  ultimately obtain early more where r: "read_until tail_search HTTP_ANSWER_LIMIT [] ?cs = Some (answer, early, more)"
    and "answer @ early @ concat more = answer @ rest"
    using byte_search.read_until_complete [of ?cs "[]" "length answer" HTTP_ANSWER_LIMIT]
      byte_search.read_until_sound [of ?cs "[]" HTTP_ANSWER_LIMIT] assms
    by fastforce
  then show ?thesis using read_answer_reads [OF r, of silent] by simp
qed

lemma dlg_answer_complete:
  assumes "w_in w = answer @ rest" and "find_head_end (answer @ rest) = Some (length answer)"
    and "length answer \<le> Suc HTTP_ANSWER_LIMIT"
  shows "dlg_answer w = (Some (Inr answer), w\<lparr>w_in := rest\<rparr>)"
  using assms by (simp add: dlg_answer_def read_answer_complete)

text \<open>
  A connection through an HTTP proxy takes the answer and not a byte more: whatever follows the
  first empty line stays on the wire for the tunnelled stream, and the connection is handed over exactly
  when the status is a success.
\<close>

lemma http_upstream_exact:
  assumes "up_kind u = Http" and "dial (up_host u) (up_port u) = Inr w" and "w_in w = answer @ rest"
    and "find_head_end (answer @ rest) = Some (length answer)" and "length answer \<le> Suc HTTP_ANSWER_LIMIT"
    and "w_ok w (length (w_out w))"
  shows "upstream_connect base64 dial u t =
     (case http_status answer of
        None \<Rightarrow> Inl (Other ''the upstream proxy answer was not http'')
      | Some status \<Rightarrow>
          if 200 \<le> status \<and> status < 300
          then Inr ((), w\<lparr>w_in := rest, w_out := w_out w @ [as_bytes (connect_request base64 u t)]\<rparr>)
          else Inl (Other (''the upstream proxy answered '' @ nat_dec status @ '' to the connect'')))"
proof -
  let ?w1 = "w\<lparr>w_out := w_out w @ [as_bytes (connect_request base64 u t)]\<rparr>"
  have "dlg_answer ?w1 = (Some (Inr answer), ?w1\<lparr>w_in := rest\<rparr>)"
    using assms(3-5) by (intro dlg_answer_complete) simp_all
  then show ?thesis
    using assms(1,2,6)
    by (auto simp: upstream_connect_def on_wire_def http_connect_def with_timeout_def dlg_bind_write dlg_bind_ok dlg_ok_def
        dlg_fail_def split: option.split)
qed

subsection \<open>Both ends of SOCKS\<close>

lemma encode_address_eq: "encode_address t = addr_bytes t"
  by (simp add: encode_address_def addr_bytes_def)

lemma read_exact_append: "n = length a \<Longrightarrow> read_exact n (a @ r) = Inr (a, r)"
  by (simp add: read_exact_def)

text \<open>The messages of this client, read by the server of \<^verbatim>\<open>socks.rs\<close>.\<close>

lemma server_reads_target:
  "addr_bytes t = atyp # octets @ word_be 2 (sa_port t) \<and> read_target atyp (octets @ word_be 2 (sa_port t) @ behind)
     = Inr ((TargetIp (sa_ip t), sa_port t), behind)"
  if "atyp = (case sa_ip t of V4 _ \<Rightarrow> ATYP_V4 | V6 _ \<Rightarrow> ATYP_V6)"
    and "octets = (case sa_ip t of V4 a \<Rightarrow> v4_octets a | V6 a \<Rightarrow> v6_octets a)"
  using that by (cases "sa_ip t")
    (simp_all add: addr_bytes_def read_target_def read_exact_append ATYP_V4_def ATYP_V6_def)

lemma server_reads_request:
  "read_request ([VER, 1, AUTH_NONE] @ encode_request command t @ behind) =
     (Inr ((command, TargetIp (sa_ip t), sa_port t), behind), [VER, 0])"
proof -
  obtain atyp octets where a: "addr_bytes t = atyp # octets @ word_be 2 (sa_port t)"
    and t: "read_target atyp (octets @ word_be 2 (sa_port t) @ behind) = Inr ((TargetIp (sa_ip t), sa_port t), behind)"
    using server_reads_target by blast
  have "handshake ([VER, 1, AUTH_NONE] @ r) = Inr (r, [VER, 0])" for r
    by (simp add: handshake_def read_exact_def)
  moreover have "read_exact 4 ([VER, command, 0, atyp] @ r) = Inr ([VER, command, 0, atyp], r)" for r
    by (rule read_exact_append) simp
  ultimately show ?thesis
    using t by (simp add: read_request_def encode_request_def encode_address_eq a)
qed

text \<open>The answers of that server, read by this client.\<close>

lemma client_greets:
  assumes "up_user u = None" and "w_in w = [VER, 0] @ r" and "w_ok w (length (w_out w))"
  shows "socks_greet u w = (Some (Inr ()), w\<lparr>w_in := r, w_out := w_out w @ [[VER, 1, AUTH_NONE]]\<rparr>)"
  using assms by (simp add: socks_greet_def Let_def dlg_bind_write dlg_bind_read [of _ "[VER, 0]" r]
      dlg_ok_def AUTH_NONE_def)

lemma client_reads_ip:
  assumes "w_in w = (case ip of V4 a \<Rightarrow> v4_octets a | V6 a \<Rightarrow> v6_octets a) @ r"
  shows "read_reply_ip (case ip of V4 _ \<Rightarrow> ATYP_V4 | V6 _ \<Rightarrow> ATYP_V6) w = (Some (Inr ip), w\<lparr>w_in := r\<rparr>)"
  using assms by (cases ip) (simp_all add: read_reply_ip_def dlg_bind_read dlg_ok_def ATYP_V4_def ATYP_V6_def)

lemma client_reads_reply:
  assumes "w_in w = reply_bound_bytes bound @ r"
  shows "read_reply w = (Some (Inr bound), w\<lparr>w_in := r\<rparr>)"
proof -
  let ?ip = "sa_ip bound"
  let ?atyp = "case ?ip of V4 _ \<Rightarrow> ATYP_V4 | V6 _ \<Rightarrow> ATYP_V6"
  let ?octets = "case ?ip of V4 a \<Rightarrow> v4_octets a | V6 a \<Rightarrow> v6_octets a"
  let ?w1 = "w\<lparr>w_in := ?octets @ word_be 2 (sa_port bound) @ r\<rparr>"
  have "w_in w = [VER, REP_OK, 0, ?atyp] @ ?octets @ word_be 2 (sa_port bound) @ r"
    using assms by (cases ?ip) (simp_all add: reply_bound_bytes_def addr_bytes_def)
  then have head: "dlg_read 4 w = (Some (Inr [VER, REP_OK, 0, ?atyp]), ?w1)"
    by (simp add: dlg_read_append)
  have ip: "read_reply_ip ?atyp ?w1 = (Some (Inr ?ip), ?w1\<lparr>w_in := word_be 2 (sa_port bound) @ r\<rparr>)"
    by (rule client_reads_ip) simp
  show ?thesis
    by (simp add: read_reply_def dlg_bind_def [of "dlg_read 4"] head dlg_bind_def [of "read_reply_ip _"] ip
        dlg_bind_read dlg_ok_def)
qed

text \<open>The datagrams.\<close>

lemma server_reads_datagram: "parse_udp_request (relay_send dat t) = Returns (Some (TargetIp (sa_ip t), sa_port t, dat))"
  using udp_header_v4 [of 0 0] udp_header_v6 [of 0 0]
  by (cases "sa_ip t") (simp_all add: relay_send_def encode_udp_header_def encode_address_def)

lemma client_decodes_header:
  assumes "n = length (addr_bytes src) + 3"
  shows "decode_udp_header (build_udp_reply src dat) = Some (src, n)"
  using assms by (cases src; cases "sa_ip src")
    (auto simp: decode_udp_header_def build_udp_reply_def addr_bytes_def ATYP_V4_def ATYP_V6_def nth_append)

lemma client_reads_datagram:
  assumes "length dat \<le> n"
  shows "relay_recv n (build_udp_reply src dat) = Some (dat, src)"
proof -
  have "length (addr_bytes src) \<le> 19" by (simp add: addr_bytes_def split: ip_addr.split)
  then have "take (max n 2048 + 512) (build_udp_reply src dat) = build_udp_reply src dat"
    using assms by (simp add: build_udp_reply_def)
  moreover have "drop (length (addr_bytes src) + 3) (build_udp_reply src dat) = dat"
    by (simp add: build_udp_reply_def numeral_3_eq_3)
  ultimately show ?thesis
    using assms client_decodes_header [OF refl, of src dat] by (simp add: relay_recv_def Let_def)
qed

lemma dial_socks_ok:
  assumes "up_user u = None" and "w_in w = [VER, 0] @ reply_bound_bytes bound @ r" and "\<And>n. w_ok w n"
  shows "dial_socks u command t w =
    (Some (Inr bound), w\<lparr>w_in := r, w_out := w_out w @ [[VER, 1, AUTH_NONE], encode_request command t]\<rparr>)"
proof -
  have "socks_greet u w = (Some (Inr ()), w\<lparr>w_in := reply_bound_bytes bound @ r, w_out := w_out w @ [[VER, 1, AUTH_NONE]]\<rparr>)"
    using assms by (rule client_greets)
  then show ?thesis
    using assms(3) by (simp add: dial_socks_def dlg_bind_ok dlg_bind_write client_reads_reply)
qed

text \<open>
  C5. The two ends of the SOCKS protocol agree. A client without credentials and the server of
  \<^verbatim>\<open>socks.rs\<close>, each reading what the other writes: the server reads the request of the client as the
  command and the target asked for, answering the greeting on the way, the client takes the answer to
  the greeting and the reply of the server as a success, and both leave what follows on the wire. In an
  association each end reads the address, the port and the whole payload of the datagrams of the other.
\<close>

theorem socks_ends_agree:
  assumes "up_kind u = Socks5" and "up_user u = None" and "dial (up_host u) (up_port u) = Inr w" and "\<And>n. w_ok w n"
    and "w_out w = []" and "w_in w = [VER, 0] @ reply_bound_bytes bound @ stream" and "length dat \<le> n"
  shows "\<exists>w'. upstream_connect base64 dial u t = Inr ((), w') \<and> w_in w' = stream
      \<and> read_request (concat (w_out w') @ early) = (Inr ((CMD_CONNECT, TargetIp (sa_ip t), sa_port t), early), [VER, 0])
      \<and> parse_udp_request (relay_send dat t) = Returns (Some (TargetIp (sa_ip t), sa_port t, dat))
      \<and> relay_recv n (build_udp_reply src dat) = Some (dat, src)"
proof -
  let ?w = "w\<lparr>w_in := stream, w_out := [[VER, 1, AUTH_NONE], encode_request CMD_CONNECT t]\<rparr>"
  have "upstream_connect base64 dial u t = Inr ((), ?w)"
    using dial_socks_ok [OF assms(2,6,4)] assms(1,3,5)
    by (simp add: upstream_connect_def on_wire_def with_timeout_def dlg_bind_ok dlg_ok_def)
  moreover have "read_request (concat (w_out ?w) @ early) =
      (Inr ((CMD_CONNECT, TargetIp (sa_ip t), sa_port t), early), [VER, 0])"
    using server_reads_request [of CMD_CONNECT t early] by simp
  moreover have "parse_udp_request (relay_send dat t) = Returns (Some (TargetIp (sa_ip t), sa_port t, dat))"
    using server_reads_datagram by simp
  moreover have "relay_recv n (build_udp_reply src dat) = Some (dat, src)"
    using client_reads_datagram [OF assms(7)] by simp
  ultimately show ?thesis by fastforce
qed

subsection \<open>Examples\<close>

definition sample_upstream :: "up_kind \<Rightarrow> upstream" where
  "sample_upstream k = \<lparr>up_kind = k, up_host = ''10.0.0.1'', up_port = 1080, up_user = None, up_password = None\<rparr>"

definition sample_wire :: "bytes \<Rightarrow> proxy_wire" where
  "sample_wire b = \<lparr>w_in = b, w_silent = True, w_out = [], w_ok = (\<lambda>_. True)\<rparr>"

lemma sample_sel [simp]:
  "up_kind (sample_upstream k) = k" "up_host (sample_upstream k) = ''10.0.0.1''" "up_port (sample_upstream k) = 1080"
  "up_user (sample_upstream k) = None" "w_in (sample_wire b) = b" "w_out (sample_wire b) = []" "w_ok (sample_wire b) n"
  by (simp_all add: sample_upstream_def sample_wire_def)

theorem socks_ends_agree_witness:
  "\<exists>w'. upstream_connect id (\<lambda>_ _. Inr (sample_wire ([VER, 0] @ reply_bound_bytes \<lparr>sa_ip = V4 0, sa_port = 0\<rparr> @ [7, 8])))
       (sample_upstream Socks5) \<lparr>sa_ip = V4 0x01010101, sa_port = 443\<rparr> = Inr ((), w') \<and> w_in w' = [7, 8]
    \<and> read_request (concat (w_out w') @ [9]) = (Inr ((CMD_CONNECT, TargetIp (V4 0x01010101), 443), [9]), [VER, 0])"
  using socks_ends_agree [of "sample_upstream Socks5"
      "\<lambda>_ _. Inr (sample_wire ([VER, 0] @ reply_bound_bytes \<lparr>sa_ip = V4 0, sa_port = 0\<rparr> @ [7, 8]))"
      "sample_wire ([VER, 0] @ reply_bound_bytes \<lparr>sa_ip = V4 0, sa_port = 0\<rparr> @ [7, 8])"
      "\<lparr>sa_ip = V4 0, sa_port = 0\<rparr>" "[7, 8]" "[1]" 1 id "\<lparr>sa_ip = V4 0x01010101, sa_port = 443\<rparr>" "[9]"]
  by fastforce

lemma sample_status: "http_status (as_bytes (''HTTP/1.1 407'' @ crlf @ crlf)) = Some 407"
proof -
  have "from_utf8_lossy (as_bytes (''HTTP/1.1 407'' @ crlf @ crlf) @ []) = ''HTTP/1.1 407'' @ crlf @ crlf"
    by (subst from_utf8_lossy_ascii) (simp_all add: crlf_def from_utf8_lossy_def utf8_lossy.simps of_bytes_def)
  moreover have "str_lines (''HTTP/1.1 407'' @ crlf @ crlf) = [''HTTP/1.1 407'', []]"
    by (simp add: str_lines_def crlf_def strip_cr_def)
  moreover have "split_whitespace ''HTTP/1.1 407'' = [''HTTP/1.1'', ''407'']"
    by (simp add: split_whitespace_def split_ws.simps leading_space_space leading_space_graphic ascii_graphic_def)
  moreover have "parse_uint 65535 ''407'' = Some 407"
    by (simp add: parse_uint_def digit_val.simps ascii_digit_def)
  ultimately show ?thesis by (simp add: http_status_def starts_with_def)
qed

definition sample_reply :: bytes where
  "sample_reply = as_bytes (''HTTP/1.1 407'' @ crlf @ crlf)"

lemma http_upstream_exact_witness:
  "upstream_connect id (\<lambda>_ _. Inr (sample_wire (sample_reply @ [1, 2])))
      (sample_upstream Http) \<lparr>sa_ip = V4 0x01010101, sa_port = 443\<rparr>
    = Inl (Other ''the upstream proxy answered 407 to the connect'')"
proof -
  have e: "find_head_end (sample_reply @ [1, 2]) = Some (length sample_reply)"
    by (simp add: find_head_end_def as_bytes_def crlf_def sample_reply_def)
  have "length sample_reply \<le> Suc HTTP_ANSWER_LIMIT" by (simp add: HTTP_ANSWER_LIMIT_def crlf_def sample_reply_def)
  moreover have "http_status sample_reply = Some 407" unfolding sample_reply_def by (rule sample_status)
  moreover have "nat_dec 407 = ''407''" by code_simp
  ultimately show ?thesis
    using http_upstream_exact [OF _ _ _ e, of "sample_upstream Http" "\<lambda>_ _. Inr (sample_wire (sample_reply @ [1, 2]))"
        "sample_wire (sample_reply @ [1, 2])" id "\<lparr>sa_ip = V4 0x01010101, sa_port = 443\<rparr>"]
    by simp
qed

end
