(* ===== verification/Upstream_Detour.thy ===== *)
theory Upstream_Detour
  imports Upstream_Dial
begin

text \<open>
  The detours of \<^verbatim>\<open>upstream.rs\<close>: the table from a local socket to the relay that carries its datagrams,
  the guards that take entries out again, and the loop \<^verbatim>\<open>pump\<close> behind one detour. The table is refined
  from a list of sessions, in which the detour of a socket is the last one attached, while it lives.
\<close>

subsection \<open>The table\<close>

record detour =
  dt_id :: u64
  dt_shim :: socket_addr
  dt_peer :: socket_addr

record detour_table =
  dt_map :: "socket_addr \<rightharpoonup> detour"
  dt_next :: u64

definition no_detours :: detour_table where
  "no_detours = \<lparr>dt_map = Map.empty, dt_next = 1\<rparr>"

definition forget_detour :: "socket_addr \<Rightarrow> u64 \<Rightarrow> detour_table \<Rightarrow> detour_table" where
  "forget_detour client i tab =
     (case dt_map tab client of
        Some d \<Rightarrow> if dt_id d = i then tab\<lparr>dt_map := (dt_map tab)(client := None)\<rparr> else tab
      | None \<Rightarrow> tab)"

definition next_detour_id :: "detour_table \<Rightarrow> u64 \<times> detour_table" where
  "next_detour_id tab = (dt_next tab, tab\<lparr>dt_next := dt_next tab + 1\<rparr>)"

definition relay_target :: "detour_table \<Rightarrow> socket_addr \<Rightarrow> socket_addr \<Rightarrow> socket_addr" where
  "relay_target tab local intended = (case dt_map tab local of Some d \<Rightarrow> dt_shim d | None \<Rightarrow> intended)"

definition real_source :: "detour_table \<Rightarrow> socket_addr \<Rightarrow> socket_addr \<Rightarrow> socket_addr" where
  "real_source tab local observed =
     (case dt_map tab local of
        Some d \<Rightarrow> if dt_shim d = observed then dt_peer d else observed
      | None \<Rightarrow> observed)"

text \<open>
  A guard holds the socket and the number of its detour; one without a detour holds nothing. Dropping
  it stops the pump and forgets the detour, as the pump does itself when it ends.
\<close>

type_synonym detour_guard = "(socket_addr \<times> u64) option"

definition drop_guard :: "detour_guard \<Rightarrow> detour_table \<Rightarrow> detour_table" where
  "drop_guard g tab = (case g of None \<Rightarrow> tab | Some (client, i) \<Rightarrow> forget_detour client i tab)"

definition loopback_for :: "socket_addr \<Rightarrow> ip_addr" where
  "loopback_for client = (case sa_ip client of V4 _ \<Rightarrow> V4 0x7f000001 | V6 _ \<Rightarrow> V6 1)"

definition attach_detour_via ::
  "socket_addr result \<Rightarrow> socket_addr result \<Rightarrow> (ip_addr \<Rightarrow> socket_addr result) \<Rightarrow> socket_addr \<Rightarrow> detour_table
   \<Rightarrow> detour_guard result \<times> detour_table" where
  "attach_detour_via associated local_addr bind_shim peer tab =
     (if is_private (sa_ip peer) then (Inr None, tab)
      else case res_bind associated (\<lambda>_. res_bind local_addr (\<lambda>client.
                  res_bind (bind_shim (loopback_for client)) (\<lambda>shim. Inr (client, shim)))) of
             Inl e \<Rightarrow> (Inl e, tab)
           | Inr (client, shim) \<Rightarrow>
               (case next_detour_id tab of (i, tab1) \<Rightarrow>
                  (Inr (Some (client, i)),
                   tab1\<lparr>dt_map := (dt_map tab1)(client \<mapsto> \<lparr>dt_id = i, dt_shim = shim, dt_peer = peer\<rparr>)\<rparr>)))"

definition attach_detour ::
  "bool \<Rightarrow> socket_addr result \<Rightarrow> socket_addr result \<Rightarrow> (ip_addr \<Rightarrow> socket_addr result) \<Rightarrow> socket_addr \<Rightarrow> detour_table
   \<Rightarrow> detour_guard result \<times> detour_table" where
  "attach_detour configured associated local_addr bind_shim peer tab =
     (if configured then attach_detour_via associated local_addr bind_shim peer tab else (Inr None, tab))"

text \<open>
  \<^verbatim>\<open>bind_via_upstream\<close>: a bound socket is connected to its peer or to the shim of its detour; the guard is
  dropped when connecting fails.
\<close>

definition bind_via_upstream ::
  "bool \<Rightarrow> socket_addr result \<Rightarrow> socket_addr result \<Rightarrow> (ip_addr \<Rightarrow> socket_addr result) \<Rightarrow> (socket_addr \<Rightarrow> unit result)
   \<Rightarrow> socket_addr \<Rightarrow> detour_table \<Rightarrow> (socket_addr \<times> detour_guard) result \<times> detour_table" where
  "bind_via_upstream configured bound associated bind_shim connect peer tab =
     (case bound of
        Inl e \<Rightarrow> (Inl e, tab)
      | Inr local \<Rightarrow>
          (case attach_detour configured associated (Inr local) bind_shim peer tab of
             (Inl e, tab1) \<Rightarrow> (Inl e, tab1)
           | (Inr g, tab1) \<Rightarrow>
               (let t = relay_target tab1 local peer
                in case connect t of
                     Inl e \<Rightarrow> (Inl e, drop_guard g tab1)
                   | Inr _ \<Rightarrow> (Inr (t, g), tab1))))"

subsection \<open>The pump\<close>

definition from_detoured_socket :: "socket_addr \<Rightarrow> socket_addr \<Rightarrow> bool" where
  "from_detoured_socket client origin \<longleftrightarrow>
     sa_port origin = sa_port client
       \<and> (sa_ip origin = sa_ip client \<or> (ip_is_unspecified (sa_ip client) \<and> ip_is_loopback (sa_ip origin)))"

record pump_state =
  pm_reply_to :: "socket_addr option"
  pm_to_relay :: "bytes list"
  pm_to_shim :: "(socket_addr \<times> bytes) list"
  pm_error :: "aether_error option"

definition pump_start :: pump_state where
  "pump_start = \<lparr>pm_reply_to = None, pm_to_relay = [], pm_to_shim = [], pm_error = None\<rparr>"

text \<open>The branch of the \<^verbatim>\<open>select\<close> that fires, with what it receives and what the send behind it gives.\<close>

datatype pump_event =
    ShimRecv "(bytes \<times> socket_addr) result" "unit result"
  | RelayRecv "bytes result" "unit result"

definition PUMP_BUFFER :: nat where "PUMP_BUFFER = 65535"

definition pump_step :: "socket_addr \<Rightarrow> socket_addr \<Rightarrow> pump_event \<Rightarrow> pump_state \<Rightarrow> pump_state" where
  "pump_step client peer ev p =
     (if pm_error p \<noteq> None then p
      else case ev of
        ShimRecv (Inl e) _ \<Rightarrow> p\<lparr>pm_error := Some e\<rparr>
      | ShimRecv (Inr (dat, origin)) sent \<Rightarrow>
          if \<not> from_detoured_socket client origin then p
          else (case sent of
                  Inl e \<Rightarrow> p\<lparr>pm_reply_to := Some origin, pm_error := Some e\<rparr>
                | Inr _ \<Rightarrow> p\<lparr>pm_reply_to := Some origin,
                             pm_to_relay := pm_to_relay p @ [relay_send (take PUMP_BUFFER dat) peer]\<rparr>)
      | RelayRecv (Inl e) _ \<Rightarrow> p\<lparr>pm_error := Some e\<rparr>
      | RelayRecv (Inr framed) sent \<Rightarrow>
          (case relay_recv PUMP_BUFFER framed of
             None \<Rightarrow> p
           | Some (dat, _) \<Rightarrow>
               (case pm_reply_to p of
                  None \<Rightarrow> p
                | Some to \<Rightarrow>
                    (case sent of
                       Inl e \<Rightarrow> p\<lparr>pm_error := Some e\<rparr>
                     | Inr _ \<Rightarrow> p\<lparr>pm_to_shim := pm_to_shim p @ [(to, dat)]\<rparr>))))"

subsection \<open>The specification: sessions\<close>

record detour_session =
  ds_client :: socket_addr
  ds_shim :: socket_addr
  ds_peer :: socket_addr
  ds_alive :: bool

datatype detour_event =
    Attach "socket_addr result" "socket_addr result" "ip_addr \<Rightarrow> socket_addr result" socket_addr
  | Ended nat

definition attached :: "socket_addr result \<Rightarrow> socket_addr result \<Rightarrow> (ip_addr \<Rightarrow> socket_addr result) \<Rightarrow> (socket_addr \<times> socket_addr) option" where
  "attached associated local_addr bind_shim =
     (case (associated, local_addr) of
        (Inr _, Inr client) \<Rightarrow> (case bind_shim (loopback_for client) of Inr shim \<Rightarrow> Some (client, shim) | Inl _ \<Rightarrow> None)
      | _ \<Rightarrow> None)"

fun session_step :: "detour_event \<Rightarrow> detour_session list \<Rightarrow> detour_session list" where
  "session_step (Attach associated local_addr bind_shim peer) ss =
     (if is_private (sa_ip peer) then ss
      else case attached associated local_addr bind_shim of
             None \<Rightarrow> ss
           | Some (client, shim) \<Rightarrow> ss @ [\<lparr>ds_client = client, ds_shim = shim, ds_peer = peer, ds_alive = True\<rparr>])"
| "session_step (Ended n) ss = (if n < length ss then ss[n := (ss ! n)\<lparr>ds_alive := False\<rparr>] else ss)"

definition last_session :: "detour_session list \<Rightarrow> socket_addr \<Rightarrow> nat option" where
  "last_session ss c = find (\<lambda>i. ds_client (ss ! i) = c) (rev [0..<length ss])"

definition live_session :: "detour_session list \<Rightarrow> socket_addr \<Rightarrow> detour_session option" where
  "live_session ss c =
     (case last_session ss c of None \<Rightarrow> None | Some i \<Rightarrow> if ds_alive (ss ! i) then Some (ss ! i) else None)"

text \<open>The program under the same events; the guards are kept in the order in which they were given out.\<close>

fun detour_step :: "detour_event \<Rightarrow> detour_table \<times> detour_guard list \<Rightarrow> detour_table \<times> detour_guard list" where
  "detour_step (Attach associated local_addr bind_shim peer) (tab, gs) =
     (case attach_detour_via associated local_addr bind_shim peer tab of
        (Inr (Some g), tab') \<Rightarrow> (tab', gs @ [Some g])
      | (_, tab') \<Rightarrow> (tab', gs))"
| "detour_step (Ended n) (tab, gs) = (if n < length gs then (drop_guard (gs ! n) tab, gs) else (tab, gs))"

subsection \<open>The last session\<close>

lemma last_session_snoc: "last_session (ss @ [s]) c = (if ds_client s = c then Some (length ss) else last_session ss c)"
proof -
  have "find (\<lambda>i. ds_client ((ss @ [s]) ! i) = c) (rev [0..<length ss]) = find (\<lambda>i. ds_client (ss ! i) = c) (rev [0..<length ss])"
    by (rule find_cong) (auto simp: nth_append)
  then show ?thesis by (simp add: last_session_def nth_append)
qed

lemma client_dead [simp]: "ds_client (ss[n := (ss ! n)\<lparr>ds_alive := b\<rparr>] ! i) = ds_client (ss ! i)"
  by (cases "n < length ss"; cases "i = n") (simp_all add: list_update_beyond)

lemma last_session_dead: "last_session (ss[n := (ss ! n)\<lparr>ds_alive := b\<rparr>]) c = last_session ss c"
  by (simp add: last_session_def)

lemma last_session_Some: "last_session ss c = Some i \<Longrightarrow> i < length ss \<and> ds_client (ss ! i) = c"
  by (auto simp: last_session_def find_Some_iff rev_nth)

subsection \<open>The simulation\<close>

definition session_detour :: "detour_session list \<Rightarrow> socket_addr \<Rightarrow> detour option" where
  "session_detour ss c =
     (case last_session ss c of
        None \<Rightarrow> None
      | Some i \<Rightarrow> if ds_alive (ss ! i)
                  then Some \<lparr>dt_id = of_nat (Suc i), dt_shim = ds_shim (ss ! i), dt_peer = ds_peer (ss ! i)\<rparr> else None)"

definition simulates :: "detour_table \<times> detour_guard list \<Rightarrow> detour_session list \<Rightarrow> bool" where
  "simulates x ss \<longleftrightarrow>
     dt_map (fst x) = session_detour ss \<and> dt_next (fst x) = of_nat (Suc (length ss))
     \<and> snd x = map (\<lambda>i. Some (ds_client (ss ! i), of_nat (Suc i))) [0..<length ss]"

lemma simulates_attach:
  assumes "simulates (tab, gs) ss"
  shows "simulates (detour_step (Attach r l b peer) (tab, gs)) (session_step (Attach r l b peer) ss)"
proof (cases "is_private (sa_ip peer) \<or> attached r l b = None")
  case True
  then show ?thesis using assms
    by (auto simp: attach_detour_via_def attached_def res_bind_def split: sum.splits)
next
  case False
  then obtain client shim where a: "attached r l b = Some (client, shim)" by auto
  let ?s = "\<lparr>ds_client = client, ds_shim = shim, ds_peer = peer, ds_alive = True\<rparr>"
  have step: "detour_step (Attach r l b peer) (tab, gs) =
      (tab\<lparr>dt_next := dt_next tab + 1, dt_map := (dt_map tab)(client \<mapsto> \<lparr>dt_id = dt_next tab, dt_shim = shim, dt_peer = peer\<rparr>)\<rparr>,
       gs @ [Some (client, dt_next tab)])"
    using False a by (auto simp: attach_detour_via_def attached_def next_detour_id_def split: sum.splits)
  have "session_detour (ss @ [?s]) = (session_detour ss)(client \<mapsto> \<lparr>dt_id = of_nat (Suc (length ss)), dt_shim = shim, dt_peer = peer\<rparr>)"
    by (rule ext) (auto simp: session_detour_def last_session_snoc nth_append dest: last_session_Some split: option.split)
  moreover have "map (\<lambda>i. Some (ds_client ((ss @ [?s]) ! i), of_nat (Suc i) :: u64)) [0..<length ss]
      = map (\<lambda>i. Some (ds_client (ss ! i), of_nat (Suc i))) [0..<length ss]"
    by (simp add: nth_append)
  ultimately show ?thesis
    using False a assms unfolding step by (simp add: simulates_def nth_append)
qed

lemma of_nat_Suc_u64_eq: "i < 2 ^ 64 - 1 \<Longrightarrow> j < 2 ^ 64 - 1 \<Longrightarrow> (of_nat (Suc i) :: u64) = of_nat (Suc j) \<longleftrightarrow> i = j"
  by (simp add: word_of_nat_eq_iff take_bit_nat_eq_self del: of_nat_Suc)

lemma simulates_ended:
  assumes "simulates (tab, gs) ss" and "length ss < 2 ^ 64"
  shows "simulates (detour_step (Ended n) (tab, gs)) (session_step (Ended n) ss)"
proof (cases "n < length ss")
  case True
  let ?c = "ds_client (ss ! n)" and ?ss = "ss[n := (ss ! n)\<lparr>ds_alive := False\<rparr>]"
  have inj: "(of_nat (Suc i) :: u64) = of_nat (Suc n) \<longleftrightarrow> i = n" if "i < length ss" for i
    using that True assms(2) by (intro of_nat_Suc_u64_eq) linarith+
  have gs: "gs = map (\<lambda>i. Some (ds_client (ss ! i), of_nat (Suc i))) [0..<length ss]"
    and tab: "dt_map tab = session_detour ss" "dt_next tab = of_nat (Suc (length ss))"
    using assms(1) by (auto simp: simulates_def)
  have other: "session_detour ?ss c = session_detour ss c" if "last_session ss c \<noteq> Some n" for c
    using that by (auto simp: session_detour_def last_session_dead nth_list_update dest: last_session_Some split: option.split)
  have dead: "session_detour ?ss ?c = None" if "last_session ss ?c = Some n"
    using that True by (simp add: session_detour_def last_session_dead)
  have "dt_map (forget_detour ?c (of_nat (Suc n)) tab) = session_detour ?ss"
  proof (cases "last_session ss ?c = Some n")
    case last: True
    have "session_detour ?ss c = ((session_detour ss)(?c := None)) c" for c
      using other [of c] dead [OF last] last_session_Some [of ss c n] by fastforce
    then show ?thesis
      using last by (auto simp: forget_detour_def tab session_detour_def fun_eq_iff)
  next
    case False
    have "session_detour ?ss = session_detour ss"
      using other False last_session_Some [of ss _ n] by blast
    moreover have "forget_detour ?c (of_nat (Suc n)) tab = tab"
    proof (cases "last_session ss ?c")
      case (Some i)
      then have "(of_nat (Suc i) :: u64) \<noteq> of_nat (Suc n)" using False inj [of i] last_session_Some [OF Some] by simp
      then show ?thesis by (simp add: forget_detour_def tab session_detour_def Some)
    qed (simp add: forget_detour_def tab session_detour_def)
    ultimately show ?thesis by (simp add: tab)
  qed
  moreover have "dt_next (forget_detour ?c i tab) = dt_next tab" for i
    by (simp add: forget_detour_def split: option.split)
  moreover have "map (\<lambda>i. Some (ds_client (?ss ! i), of_nat (Suc i) :: u64)) [0..<length ss] = gs"
    by (auto simp: gs nth_list_update)
  ultimately show ?thesis
    using True by (simp add: simulates_def drop_guard_def gs tab del: of_nat_Suc)
qed (use assms in \<open>auto simp: simulates_def\<close>)

lemma simulates_run:
  assumes "length events < 2 ^ 64"
  shows "simulates (fold detour_step events (no_detours, [])) (fold session_step events [])
    \<and> length (fold session_step events []) \<le> length events"
  using assms
proof (induction events rule: rev_induct)
  case Nil
  then show ?case by (simp add: simulates_def no_detours_def session_detour_def last_session_def fun_eq_iff)
next
  case (snoc ev events)
  obtain tab gs where x: "fold detour_step events (no_detours, []) = (tab, gs)" by fastforce
  let ?ss = "fold session_step events []"
  have sim: "simulates (tab, gs) ?ss" and len: "length ?ss \<le> length events" using snoc x by simp_all
  have "simulates (detour_step ev (tab, gs)) (session_step ev ?ss)"
    using simulates_attach [OF sim] simulates_ended [OF sim] len snoc.prems by (cases ev) simp_all
  moreover have "length (session_step ev ?ss) \<le> Suc (length ?ss)"
    by (cases ev) (auto split: option.split)
  ultimately show ?case using len x by simp
qed

text \<open>
  C4. The table of detours implements its specification over every history of attaching, dropping
  guards and pumps that end: a socket is diverted exactly when the last detour attached to it still
  lives, to the shim of that detour, and what comes from that shim is taken for its peer. A guard or a
  pump of an older detour never takes a newer one away, private peers are never diverted, and a failed
  attachment leaves the table as it was. (The numbers of the detours have 64 bits.)
\<close>

theorem detour_table_refines:
  assumes "length events < 2 ^ 64" and "fold detour_step events (no_detours, []) = (tab, guards)"
    and "fold session_step events [] = sessions"
  shows "relay_target tab local intended =
      (case live_session sessions local of Some s \<Rightarrow> ds_shim s | None \<Rightarrow> intended)
    \<and> real_source tab local observed =
      (case live_session sessions local of
         Some s \<Rightarrow> if ds_shim s = observed then ds_peer s else observed
       | None \<Rightarrow> observed)"
proof -
  have "dt_map tab = session_detour sessions"
    using simulates_run [OF assms(1)] assms(2,3) by (simp add: simulates_def)
  then show ?thesis
    by (simp add: relay_target_def real_source_def live_session_def session_detour_def split: option.split)
qed

definition sample_local :: socket_addr where "sample_local = \<lparr>sa_ip = V4 0, sa_port = 9\<rparr>"
definition sample_shim :: "u16 \<Rightarrow> socket_addr" where "sample_shim p = \<lparr>sa_ip = V4 0x7f000001, sa_port = p\<rparr>"
definition sample_peer :: socket_addr where "sample_peer = \<lparr>sa_ip = V4 0x08080808, sa_port = 443\<rparr>"

definition sample_history :: "detour_event list" where
  "sample_history = [Attach (Inr sample_peer) (Inr sample_local) (\<lambda>_. Inr (sample_shim 1)) sample_peer,
                     Attach (Inr sample_peer) (Inr sample_local) (\<lambda>_. Inr (sample_shim 2)) sample_peer, Ended 0]"

theorem detour_table_refines_witness:
  "relay_target (fst (fold detour_step sample_history (no_detours, []))) sample_local sample_peer = sample_shim 2"
proof -
  have public: "\<not> is_private (sa_ip sample_peer)" by (simp add: sample_peer_def) code_simp
  have "fold session_step sample_history [] =
      [\<lparr>ds_client = sample_local, ds_shim = sample_shim 1, ds_peer = sample_peer, ds_alive = False\<rparr>,
       \<lparr>ds_client = sample_local, ds_shim = sample_shim 2, ds_peer = sample_peer, ds_alive = True\<rparr>]"
    using public by (simp add: sample_history_def attached_def)
  then show ?thesis
    using detour_table_refines [OF _ surjective_pairing refl, of sample_history sample_local sample_peer]
    by (simp add: sample_history_def live_session_def last_session_def)
qed

subsection \<open>What a pump forwards\<close>

definition pump_ok :: "socket_addr \<Rightarrow> socket_addr \<Rightarrow> pump_state \<Rightarrow> bool" where
  "pump_ok client peer p \<longleftrightarrow>
     (case pm_reply_to p of None \<Rightarrow> pm_to_shim p = [] | Some to \<Rightarrow> from_detoured_socket client to)
     \<and> list_all (\<lambda>f. \<exists>dat. f = relay_send dat peer) (pm_to_relay p)
     \<and> list_all (\<lambda>(to, _). from_detoured_socket client to) (pm_to_shim p)"

lemma pump_ok_step: "pump_ok client peer p \<Longrightarrow> pump_ok client peer (pump_step client peer ev p)"
  by (auto simp: pump_step_def pump_ok_def split: pump_event.splits sum.splits option.splits prod.splits)

lemma pump_ok_run: "pump_ok client peer p \<Longrightarrow> pump_ok client peer (fold (pump_step client peer) evs p)"
  by (induction evs arbitrary: p) (simp_all add: pump_ok_step)

text \<open>
  Whatever arrives at a detour, its pump sends to the relay only datagrams that the SOCKS server
  reads as going to the one peer of the detour, and sends what the relay returns only to the socket
  that is diverted: a stranger on the shim port neither reaches the peer nor receives from it.
\<close>

lemma pump_serves_one_socket:
  "list_all (\<lambda>f. \<exists>dat. parse_udp_request f = Returns (Some (TargetIp (sa_ip peer), sa_port peer, dat)))
      (pm_to_relay (fold (pump_step client peer) events pump_start))
   \<and> list_all (\<lambda>(to, dat). from_detoured_socket client to) (pm_to_shim (fold (pump_step client peer) events pump_start))"
proof -
  have "pump_ok client peer (fold (pump_step client peer) events pump_start)"
    by (rule pump_ok_run) (simp add: pump_ok_def pump_start_def)
  then show ?thesis
    using server_reads_datagram [of _ peer] by (fastforce simp: pump_ok_def list_all_iff)
qed

end
