(* ===== verification/Upstream_Url.thy ===== *)
theory Upstream_Url
  imports Upstream
begin

text \<open>
  The address of an upstream proxy as text: what \<^verbatim>\<open>url\<close> prints, \<^verbatim>\<open>parse\<close> reads back.
\<close>

subsection \<open>Ports\<close>

lemma parse_u16_nat_dec: "parse_u16 (nat_dec (unat p)) = Some p"
  by (simp add: parse_u16_def parse_uint_nat_dec unat_u16_less less_Suc_eq_le [symmetric])

subsection \<open>Round trip\<close>

text \<open>A host as a setting has it: an address in digits and colons or a name, without delimiters.\<close>

definition plain_host :: "string \<Rightarrow> bool" where
  "plain_host h \<longleftrightarrow> h \<noteq> [] \<and> (\<forall>c \<in> set h. c \<notin> {CHR ''@'', CHR ''['', CHR '']''})"

lemma split_endpoint_plain:
  assumes "plain_host h" and "p \<noteq> 0" and "CHR '':'' \<notin> set h"
  shows "split_endpoint (h @ '':'' @ nat_dec (unat p)) = Inr (h, p)"
proof -
  have "CHR '':'' \<notin> set (nat_dec (unat p))" using nat_dec_digit by (fastforce simp: ascii_digit_def)
  moreover have "strip_prefix (h @ '':'' @ nat_dec (unat p)) ''['' = None"
    using assms(1) by (cases h) (auto simp: strip_prefix_def starts_with_def plain_host_def)
  ultimately show ?thesis
    using assms by (simp add: split_endpoint_def checked_endpoint_def parse_u16_nat_dec plain_host_def)
qed

lemma split_endpoint_bracketed:
  assumes "plain_host h" and "p \<noteq> 0"
  shows "split_endpoint (''['' @ h @ '']'' @ '':'' @ nat_dec (unat p)) = Inr (h, p)"
proof -
  have "CHR '']'' \<notin> set h" using assms(1) by (auto simp: plain_host_def)
  then show ?thesis
    using assms by (simp add: split_endpoint_def strip_prefix_def starts_with_def checked_endpoint_def parse_u16_nat_dec
        plain_host_def)
qed

lemma trim_end_digit: "ascii_digit (last s) \<Longrightarrow> s \<noteq> [] \<Longrightarrow> trim_end_matches (CHR ''/'') s = s"
  by (cases s rule: rev_cases) (auto simp: trim_end_matches_def ascii_digit_def)

lemma digit_graphic: "ascii_digit c \<Longrightarrow> ascii_graphic c"
  by (simp add: ascii_digit_def ascii_graphic_def)

text \<open>
  The address of an upstream proxy survives being printed and read: for every host without
  delimiters, name, IPv4 or IPv6, and every port but 0, parsing what \<^verbatim>\<open>url\<close> prints gives the kind, the host
  and the port back, and no credentials, which \<^verbatim>\<open>url\<close> leaves out.
\<close>

lemma upstream_url_roundtrip:
  assumes "plain_host (up_host u)" and "up_port u \<noteq> 0"
    and "lowercase ''socks5h'' = ''socks5h''" and "lowercase ''http'' = ''http''"
  shows "upstream_parse lowercase (upstream_url u) = Inr (u\<lparr>up_user := None, up_password := None\<rparr>)"
proof -
  let ?h = "up_host u" and ?p = "nat_dec (unat (up_port u))"
  define scheme where "scheme = (case up_kind u of Socks5 \<Rightarrow> ''socks5h'' | Http \<Rightarrow> ''http'')"
  define endp where "endp = (if CHR '':'' \<in> set ?h then ''['' @ ?h @ '']'' @ '':'' @ ?p else ?h @ '':'' @ ?p)"
  have url: "upstream_url u = scheme @ ''://'' @ endp"
    by (simp add: upstream_url_def endp_def scheme_def Let_def)
  have last: "last endp = last ?p" "endp \<noteq> []" by (simp_all add: endp_def)
  then have digit: "ascii_digit (last endp)" using nat_dec_digit [OF last_in_set] by simp
  have hd: "scheme \<noteq> []" "ascii_graphic (hd scheme)" "CHR '':'' \<notin> set scheme"
    by (simp_all add: scheme_def ascii_graphic_def split: up_kind.split)
  then have "ascii_graphic (hd (upstream_url u))" "ascii_graphic (last (upstream_url u))"
    using digit_graphic [OF digit] last(2) by (simp_all add: url)
  then have trimmed: "trim (upstream_url u) = upstream_url u"
    using hd(1) by (intro trim_graphic) (simp_all add: url)
  have "CHR ''@'' \<notin> set ?p" using nat_dec_digit by (fastforce simp: ascii_digit_def)
  then have "CHR ''@'' \<notin> set (rev endp)"
    using assms(1) by (auto simp: endp_def plain_host_def)
  then have "split_once (CHR ''@'') (rev endp) = None" by (rule split_once_None [THEN iffD2])
  then have at_none: "rsplit_once (CHR ''@'') endp = None" by (simp add: rsplit_once_def)
  have "split_endpoint (trim_end_matches (CHR ''/'') endp) = Inr (?h, up_port u)"
    using trim_end_digit [OF digit last(2)] split_endpoint_plain [OF assms(1,2)] split_endpoint_bracketed [OF assms(1,2)]
    by (simp add: endp_def)
  moreover have "split_once_str ''://'' (upstream_url u) = Some (scheme, endp)"
    using split_once_str_first [OF hd(3), of "''//''" endp] by (simp add: url)
  moreover have "\<lparr>up_kind = up_kind u, up_host = ?h, up_port = up_port u, up_user = None, up_password = None\<rparr>
      = u\<lparr>up_user := None, up_password := None\<rparr>" by simp
  ultimately show ?thesis
    using assms(3,4) at_none by (cases "up_kind u") (simp_all add: upstream_parse_def trimmed scheme_def)
qed

lemma upstream_url_roundtrip_witness:
  "upstream_parse to_lowercase (upstream_url \<lparr>up_kind = Http, up_host = ''fe80::1'', up_port = 8080, up_user = Some ''me'', up_password = None\<rparr>)
    = Inr \<lparr>up_kind = Http, up_host = ''fe80::1'', up_port = 8080, up_user = None, up_password = None\<rparr>"
  using upstream_url_roundtrip [of "\<lparr>up_kind = Http, up_host = ''fe80::1'', up_port = 8080, up_user = Some ''me'', up_password = None\<rparr>"
      to_lowercase]
  by (simp add: plain_host_def to_lowercase_def to_ascii_lowercase_def ascii_upper_def)

end
