(* ===== verification/Http_Proxy.thy ===== *)
theory Http_Proxy
  imports Socks_Client Head_End
begin

text \<open>
  The HTTP proxy listener of \<^verbatim>\<open>socks.rs\<close>: reading the head of a request from chunks, the request line,
  and the handlers \<^verbatim>\<open>handle_http_client\<close> and \<^verbatim>\<open>handle_http_through\<close> from the head to the relay, with
  every early return. Sessions and what they meet are those of the SOCKS listener.
\<close>

definition HTTP_HEAD_LIMIT :: usize where "HTTP_HEAD_LIMIT = 16 * 1024"

subsection \<open>The request line\<close>

record http_request_line =
  hl_method :: string
  hl_authority :: string
  hl_port :: u16
  hl_rewritten :: "string option"

definition parse_authority :: "string \<Rightarrow> u16 \<Rightarrow> (string \<times> u16) option" where
  "parse_authority raw0 default_port =
     (let raw = trim raw0
      in if raw = [] then None
         else case strip_prefix raw ''['' of
           Some rest \<Rightarrow>
             (case split_once (CHR '']'') rest of
                None \<Rightarrow> None
              | Some (hst, tail) \<Rightarrow>
                  if hst = [] then None
                  else (case strip_prefix tail '':'' of
                          Some v \<Rightarrow> map_option (\<lambda>p. (hst, p)) (parse_u16 v)
                        | None \<Rightarrow> Some (hst, default_port)))
         | None \<Rightarrow>
             (case rsplit_once (CHR '':'') raw of
                Some (hst, port) \<Rightarrow>
                  if contains hst '':'' then Some (raw, default_port)
                  else if hst = [] then None
                  else map_option (\<lambda>p. (hst, p)) (parse_u16 port)
              | None \<Rightarrow> Some (raw, default_port)))"

definition split_path :: "string \<Rightarrow> string \<times> string" where
  "split_path s =
     (case find_str s ''/'' of Some i \<Rightarrow> (take i s, drop i s) | None \<Rightarrow> (s, ''/''))"

definition parse_request_line :: "string \<Rightarrow> http_request_line option" where
  "parse_request_line line =
     (case split_whitespace line of
        meth # tgt # more_words \<Rightarrow>
          (let version = (case more_words of v # _ \<Rightarrow> v | [] \<Rightarrow> ''HTTP/1.1'')
           in if eq_ignore_ascii_case meth ''CONNECT'' then
                map_option (\<lambda>(a, p). \<lparr>hl_method = meth, hl_authority = a, hl_port = p, hl_rewritten = None\<rparr>)
                  (parse_authority tgt 443)
              else (case (case strip_prefix tgt ''http://'' of Some r \<Rightarrow> Some r | None \<Rightarrow> strip_prefix tgt ''HTTP://'') of
                      None \<Rightarrow> None
                    | Some without_scheme \<Rightarrow>
                        (case split_path without_scheme of (authority_part, path) \<Rightarrow>
                           map_option (\<lambda>(a, p). \<lparr>hl_method = meth, hl_authority = a, hl_port = p,
                               hl_rewritten = Some (meth @ '' '' @ path @ '' '' @ version @ crlf)\<rparr>)
                             (parse_authority authority_part 80))))
      | _ \<Rightarrow> None)"

subsection \<open>The head\<close>

text \<open>What each \<^verbatim>\<open>read\<close> of the client gives; when they run out the client stays silent.\<close>

fun read_head :: "bytes \<Rightarrow> bytes result list \<Rightarrow> (bytes \<times> bytes) result option" where
  "read_head buf [] = None"
| "read_head buf (Inl e # rs) = Some (Inl e)"
| "read_head buf (Inr chunk # rs) =
     (if chunk = [] then Some (Inl (Other ''the http client closed before sending a request''))
      else (let search_from = length buf - 3; buf' = buf @ chunk
            in case find_head_end (drop search_from buf') of
                 Some e \<Rightarrow> Some (Inr (take (search_from + e) buf', drop (search_from + e) buf'))
               | None \<Rightarrow>
                   if HTTP_HEAD_LIMIT < length buf' then Some (Inl (Other ''http request head too large''))
                   else read_head buf' rs))"

subsection \<open>Answers\<close>

definition bad_request :: bytes where
  "bad_request = as_bytes (''HTTP/1.1 400 Bad Request'' @ crlf @ ''Connection: close'' @ crlf @ crlf)"
definition forbidden :: bytes where
  "forbidden = as_bytes (''HTTP/1.1 403 Forbidden'' @ crlf @ ''Connection: close'' @ crlf @ crlf)"
definition bad_gateway :: bytes where
  "bad_gateway = as_bytes (''HTTP/1.1 502 Bad Gateway'' @ crlf @ ''Connection: close'' @ crlf @ crlf)"
definition established :: bytes where
  "established = as_bytes (''HTTP/1.1 200 Connection established'' @ crlf @ crlf)"

definition remote_send :: "'c connect_io \<Rightarrow> 'c \<Rightarrow> bytes \<Rightarrow> 'c session \<Rightarrow> bool \<times> 'c session" where
  "remote_send io c b s = (if cx_remote_ok io c b then (True, s\<lparr>ss_remote := ss_remote s @ [b]\<rparr>) else (False, s))"

definition rewritten_head :: "string \<Rightarrow> bytes \<Rightarrow> bytes" where
  "rewritten_head line head =
     as_bytes (line @ (case split_once_str crlf (from_utf8_lossy head) of Some (_, tail) \<Rightarrow> tail | None \<Rightarrow> []))"

subsection \<open>Handlers\<close>

definition open_tunneled :: "'c connect_io \<Rightarrow> target \<Rightarrow> u16 \<Rightarrow> 'c session \<Rightarrow> ('c \<times> bytes) result \<times> 'c session" where
  "open_tunneled io t port s =
     (let plain = (\<lambda>s. (res_bind (cx_resolve io t) (\<lambda>ip.
                        res_bind (cx_open io \<lparr>sa_ip = ip, sa_port = port\<rparr>) (\<lambda>c. Inr (c, []))), s))
      in case (if should_use_gateway port then gateway_proxy (ss_gateway s) else None) of
           Some proxy \<Rightarrow>
             (case open_through_gateway (cx_gateway io) proxy (target_to_string t) port of
                Inr conn \<Rightarrow> (Inr conn, s)
              | Inl e \<Rightarrow> plain (s\<lparr>ss_gateway := retire_gateway (ss_gateway s)\<rparr>))
         | None \<Rightarrow> plain s)"

text \<open>What both handlers over a stream do once it is open; a failed write ends them with its error.\<close>

definition remote_write :: "'c connect_io \<Rightarrow> 'c \<Rightarrow> bytes \<Rightarrow> 'c session \<Rightarrow> unit result \<times> 'c session" where
  "remote_write io c b s =
     (case remote_send io c b s of (True, s1) \<Rightarrow> (Inr (), s1) | (False, s1) \<Rightarrow> (Inl (Io ''broken pipe''), s1))"

definition start_stream :: "'c connect_io \<Rightarrow> http_request_line \<Rightarrow> bytes \<Rightarrow> bytes \<Rightarrow> 'c \<Rightarrow> 'c session \<Rightarrow> unit result \<times> 'c session" where
  "start_stream io rq head early c s =
     (case (case hl_rewritten rq of
              Some line \<Rightarrow> remote_write io c (rewritten_head line head) s
            | None \<Rightarrow> client_write io established s) of
        (Inl e, s1) \<Rightarrow> (Inl e, s1)
      | (Inr _, s1) \<Rightarrow>
          (case (if early = [] then (Inr (), s1) else remote_write io c early s1) of
             (Inl e, s2) \<Rightarrow> (Inl e, s2)
           | (Inr _, s2) \<Rightarrow> (Inr (), s2\<lparr>ss_relay := Some c\<rparr>)))"

definition relay_http_direct :: "'c connect_io \<Rightarrow> http_request_line \<Rightarrow> bytes \<Rightarrow> bytes \<Rightarrow> 'c session \<Rightarrow> unit result \<times> 'c session" where
  "relay_http_direct io rq head early s =
     (case cx_peer io of
        Inl e \<Rightarrow> (Inl e, s)
      | Inr client \<Rightarrow>
          (case (if hi_late (cx_host io)
                 then Inl (OtherKind, ''direct connect to '' @ hl_authority rq @ '':'' @ nat_dec (unat (hl_port rq)) @ '' timed out'')
                 else connect_direct (cx_host io) (hl_authority rq) (hl_port rq) client) of
             Inl (kind, msg) \<Rightarrow>
               (Inl (Io msg), snd (client_write io (if kind = PermissionDenied then forbidden else bad_gateway) s))
           | Inr upstream \<Rightarrow> start_stream io rq head early upstream s))"

definition start_tunneled ::
  "'c connect_io \<Rightarrow> http_request_line \<Rightarrow> bytes \<Rightarrow> bytes \<Rightarrow> 'c \<times> bytes \<Rightarrow> 'c session \<Rightarrow> unit result \<times> 'c session" where
  "start_tunneled io rq head early conn s =
     (case conn of (c, leftover) \<Rightarrow>
      case (if hl_rewritten rq = None then client_write io established s else (Inr (), s)) of
        (Inl e, s1) \<Rightarrow> (Inl e, s1)
      | (Inr _, s1) \<Rightarrow>
          (case (if leftover = [] then (Inr (), s1) else client_write io leftover s1) of
             (Inl _, s2) \<Rightarrow> (Inr (), s2)
           | (Inr _, s2) \<Rightarrow>
               (case (case hl_rewritten rq of Some line \<Rightarrow> remote_send io c (rewritten_head line head) s2 | None \<Rightarrow> (True, s2)) of
                  (False, s3) \<Rightarrow> (Inr (), s3)
                | (True, s3) \<Rightarrow>
                    (case (if early = [] then (True, s3) else remote_send io c early s3) of
                       (False, s4) \<Rightarrow> (Inr (), s4)
                     | (True, s4) \<Rightarrow> (Inr (), s4\<lparr>ss_relay := Some c\<rparr>)))))"

definition http_target :: "http_request_line \<Rightarrow> target" where
  "http_target rq = (case parse_ip (hl_authority rq) of Some ip \<Rightarrow> TargetIp ip | None \<Rightarrow> TargetDomain (hl_authority rq))"

text \<open>The common beginning of the two handlers: the head, the request and its route.\<close>

definition with_http_request ::
  "('n, 'r) route_cfg \<Rightarrow> 'c connect_io \<Rightarrow> bytes result list
   \<Rightarrow> (http_request_line \<Rightarrow> bytes \<Rightarrow> bytes \<Rightarrow> 'c session \<Rightarrow> unit result \<times> 'c session) \<Rightarrow> 'c session \<Rightarrow> unit result \<times> 'c session" where
  "with_http_request cfg io reads proxied s =
     (case read_head [] reads of
        None \<Rightarrow> (Inl (Other ''the client did not send a request head in time''), s)
      | Some (Inl e) \<Rightarrow> (Inl e, s)
      | Some (Inr (head, early)) \<Rightarrow>
          (let first_line = (case str_lines (from_utf8_lossy head) of l # _ \<Rightarrow> l | [] \<Rightarrow> [])
           in case parse_request_line first_line of
                None \<Rightarrow> (Inl (Other (''unsupported http proxy request: '' @ first_line)), snd (client_write io bad_request s))
              | Some rq \<Rightarrow>
                  (case decide (rc_lib cfg) (rc_rules cfg) (host_of (http_target rq)) (hl_port rq) of
                     Block \<Rightarrow> (Inr (), snd (client_write io forbidden s))
                   | Direct \<Rightarrow> relay_http_direct io rq head early s
                   | Proxy \<Rightarrow> proxied rq head early s)))"

definition handle_http_client ::
  "('n, 'r) route_cfg \<Rightarrow> 'c connect_io \<Rightarrow> bytes result list \<Rightarrow> 'c session \<Rightarrow> unit result \<times> 'c session" where
  "handle_http_client cfg io reads =
     with_http_request cfg io reads (\<lambda>rq head early s.
       case open_tunneled io (http_target rq) (hl_port rq) s of
         (Inl e, s1) \<Rightarrow> (Inl e, snd (client_write io bad_gateway s1))
       | (Inr conn, s1) \<Rightarrow> start_tunneled io rq head early conn s1)"

definition handle_http_through ::
  "('n, 'r) route_cfg \<Rightarrow> 'c connect_io \<Rightarrow> (string \<Rightarrow> u16 \<Rightarrow> string + 'c) \<Rightarrow> bytes result list \<Rightarrow> 'c session \<Rightarrow> unit result \<times> 'c session" where
  "handle_http_through cfg io connect reads =
     with_http_request cfg io reads (\<lambda>rq head early s.
       case connect (hl_authority rq) (hl_port rq) of
         Inl msg \<Rightarrow> (Inl (Other (hl_authority rq @ '':'' @ nat_dec (unat (hl_port rq)) @ '': '' @ msg)),
                     snd (client_write io bad_gateway s))
       | Inr c \<Rightarrow> start_stream io rq head early c s)"

text \<open>The SOCKS listener over a connector; an UDP association is the argument \<open>associate_udp\<close>.\<close>

definition serve_one_through ::
  "'c connect_io \<Rightarrow> (string \<Rightarrow> u16 \<Rightarrow> string + 'c) \<Rightarrow> (target \<Rightarrow> 'c session \<Rightarrow> unit result \<times> 'c session)
   \<Rightarrow> (u8 \<times> target \<times> u16) result \<Rightarrow> 'c session \<Rightarrow> unit result \<times> 'c session" where
  "serve_one_through io connect associate_udp request s =
     (case request of
        Inl e \<Rightarrow> (Inl e, s)
      | Inr (cmd, t, port) \<Rightarrow>
          if cmd = CMD_UDP_ASSOCIATE then associate_udp t s
          else if cmd \<noteq> CMD_CONNECT
            then (Inl (Other ''only connect and udp associate are carried on this listener''),
                  snd (client_write io (reply_bytes REP_NOT_SUPPORTED) s))
          else (case connect (target_to_string t) port of
                  Inl msg \<Rightarrow> (Inl (Other (target_to_string t @ '':'' @ nat_dec (unat port) @ '': '' @ msg)),
                              snd (client_write io (reply_bytes REP_GENERAL) s))
                | Inr c \<Rightarrow>
                    (case client_write io unbound_reply s of
                       (Inl e, s1) \<Rightarrow> (Inl e, s1)
                     | (Inr _, s1) \<Rightarrow> (Inr (), s1\<lparr>ss_relay := Some c\<rparr>))))"

end
