(* ===== verification/Http_Proxy_Props.thy ===== *)
theory Http_Proxy_Props
  imports Http_Proxy Upstream_Url Routing_Props
begin

text \<open>
  What the HTTP proxy listener promises: the head of a request is found however the stream is cut, a
  plain request reaches the far end rewritten and complete, and the routing rules hold as they do for
  SOCKS.
\<close>

subsection \<open>The head does not depend on the chunks\<close>

definition near_search :: "bytes \<Rightarrow> bytes \<Rightarrow> nat option" where
  "near_search buf chunk =
     map_option (\<lambda>e. length buf - 3 + e) (find_head_end (drop (length buf - 3) (buf @ chunk)))"

interpretation near_search: head_search near_search "\<lambda>_. True"
proof
  fix chunk buf :: bytes
  assume "find_head_end buf = None"
  then show "near_search buf chunk = find_head_end (buf @ chunk)"
    using find_head_end_incremental [of buf chunk] by (simp add: near_search_def add.commute)
qed

lemma read_head_reads:
  assumes "read_until near_search HTTP_HEAD_LIMIT buf cs = Some (head, early, rest)" and "[] \<notin> set cs"
  shows "read_head buf (map Inr cs @ silence) = Some (Inr (head, early))"
  using assms
proof (induction cs arbitrary: buf)
  case (Cons c cs)
  show ?case
  proof (cases "near_search buf c")
    case None
    then have none: "find_head_end (drop (length buf - 3) (buf @ c)) = None" by (simp add: near_search_def)
    have "c \<noteq> []" "[] \<notin> set cs" using Cons.prems(2) by auto
    then show ?thesis using Cons.prems(1) Cons.IH [of "buf @ c"] None none by (simp add: Let_def split: if_splits)
  next
    case (Some n)
    then obtain e where "find_head_end (drop (length buf - 3) (buf @ c)) = Some e" "n = length buf - 3 + e"
      by (auto simp: near_search_def)
    moreover have "c \<noteq> []" using Cons.prems(2) by auto
    ultimately show ?thesis using Cons.prems(1) Some by (simp add: Let_def)
  qed
qed simp

text \<open>
  What was read when the head is complete: \<open>k\<close> reads do not complete it, the next one does, and \<open>early\<close> is
  what that read brought beyond the head.
\<close>

definition read_beyond :: "bytes list \<Rightarrow> bytes \<Rightarrow> nat \<Rightarrow> bytes \<Rightarrow> bool" where
  "read_beyond cs head k early \<longleftrightarrow>
     k < length cs \<and> length (concat (take k cs)) < length head \<and> concat (take (Suc k) cs) = head @ early"

lemma read_head_complete:
  assumes "concat cs = head @ body" and "[] \<notin> set cs"
    and "find_head_end (head @ body) = Some (length head)" and "length head \<le> Suc HTTP_HEAD_LIMIT"
  shows "\<exists>early k. read_head [] (map Inr cs @ silence) = Some (Inr (head, early)) \<and> read_beyond cs head k early
    \<and> early @ concat (drop (Suc k) cs) = body"
proof -
  have every: "list_all (\<lambda>_. True) cs" by (simp add: list_all_iff)
  obtain early rest where r: "read_until near_search HTTP_HEAD_LIMIT [] cs = Some (head, early, rest)"
    using near_search.read_until_complete [OF every, of "[]" "length head" HTTP_HEAD_LIMIT] assms by auto
  then have all: "head @ early @ concat rest = head @ body"
    using near_search.read_until_sound [OF every _ r] assms(1) by simp
  obtain k where k: "k < length cs" "rest = drop (Suc k) cs" "length (concat (take k cs)) < length head"
    using near_search.read_until_stops [OF every _ r] by auto
  have "concat (take (Suc k) cs) @ concat rest = (head @ early) @ concat rest"
    unfolding k(2) concat_append [symmetric] append_take_drop_id using all assms(1) k(2) by simp
  then have "read_beyond cs head k early" using k by (simp add: read_beyond_def)
  then show ?thesis using read_head_reads [OF r assms(2), of silence] all k(2) by auto
qed

text \<open>
  However the network cuts a request into reads, the head that is found is the one that ends at
  the first empty line of the whole stream, though each read only searches the last three bytes and
  what it added; what was read beyond it is the beginning of what follows. A head of up to 16 KiB is
  never refused as too large.
\<close>

lemma http_head_any_chunks:
  assumes "concat cs = head @ body" and "[] \<notin> set cs"
    and "find_head_end (head @ body) = Some (length head)" and "length head \<le> HTTP_HEAD_LIMIT"
  shows "\<exists>early rest. read_head [] (map Inr cs @ silence) = Some (Inr (head, early)) \<and> early @ rest = body"
  using read_head_complete [OF assms(1-3), of silence] assms(4) by auto

lemma http_head_any_chunks_witness:
  "\<exists>early rest. read_head [] (map Inr [[71, 13, 10], [13], [10, 7, 8]] @ []) = Some (Inr ([71, 13, 10, 13, 10], early))
     \<and> early @ rest = [7, 8]"
  by (rule http_head_any_chunks) (simp_all add: find_head_end_def HTTP_HEAD_LIMIT_def)

subsection \<open>Request lines\<close>

definition graphic_word :: "string \<Rightarrow> bool" where
  "graphic_word w \<longleftrightarrow> w \<noteq> [] \<and> list_all ascii_graphic w"

text \<open>A host name or an IPv4 address, with or without a port.\<close>

definition name_host :: "string \<Rightarrow> bool" where
  "name_host h \<longleftrightarrow> graphic_word h \<and> (\<forall>c \<in> set h. c \<notin> {CHR '':'', CHR ''/'', CHR ''[''})"

definition authority_text :: "string \<Rightarrow> u16 option \<Rightarrow> string" where
  "authority_text h p = h @ (case p of None \<Rightarrow> [] | Some x \<Rightarrow> '':'' @ nat_dec (unat x))"

lemma nat_dec_graphic: "list_all ascii_graphic (nat_dec n)"
  using nat_dec_digit digit_graphic by (auto simp: list_all_iff)

lemma graphic_authority: "name_host h \<Longrightarrow> graphic_word (authority_text h p)"
  by (auto simp: name_host_def graphic_word_def authority_text_def nat_dec_graphic ascii_graphic_def split: option.split)

lemma graphic_trim: "graphic_word w \<Longrightarrow> trim w = w"
  by (intro trim_graphic) (auto simp: graphic_word_def list_all_iff)

lemma parse_authority_text:
  assumes "name_host h"
  shows "parse_authority (authority_text h p) d = Some (h, case p of None \<Rightarrow> d | Some x \<Rightarrow> x)"
proof -
  let ?a = "authority_text h p"
  have h: "h \<noteq> []" "CHR '':'' \<notin> set h" "CHR ''['' \<notin> set h" using assms by (auto simp: name_host_def graphic_word_def)
  then have bracket: "strip_prefix ?a ''['' = None"
    by (cases h) (auto simp: authority_text_def strip_prefix_def starts_with_def)
  have word: "trim ?a = ?a" "?a \<noteq> []"
    using graphic_trim [OF graphic_authority [OF assms]] h(1) by (simp_all add: authority_text_def)
  show ?thesis
  proof (cases p)
    case None
    have "split_once (CHR '':'') (rev h) = None" using h(2) by (simp add: split_once_None)
    then have "rsplit_once (CHR '':'') ?a = None" using None by (simp add: authority_text_def rsplit_once_def)
    then show ?thesis using None bracket word by (simp add: parse_authority_def Let_def) (simp add: authority_text_def)
  next
    case (Some x)
    have "CHR '':'' \<notin> set (nat_dec (unat x))" using nat_dec_digit by (fastforce simp: ascii_digit_def)
    then have "rsplit_once (CHR '':'') ?a = Some (h, nat_dec (unat x))" using Some by (simp add: authority_text_def)
    then show ?thesis using Some bracket word h by (simp add: parse_authority_def Let_def contains_char parse_u16_nat_dec)
  qed
qed

lemma split_path_text:
  assumes "name_host h" and "path = CHR ''/'' # p'"
  shows "split_path (authority_text h p @ path) = (authority_text h p, path)"
proof -
  have "CHR ''/'' \<notin> set (nat_dec n)" for n using nat_dec_digit by (fastforce simp: ascii_digit_def)
  then have "CHR ''/'' \<notin> set (authority_text h p)"
    using assms(1) by (auto simp: authority_text_def name_host_def split: option.split)
  then show ?thesis using find_str_first [of "CHR ''/''" "authority_text h p" "[]" p'] assms(2) by (simp add: split_path_def)
qed

lemma parse_plain_request:
  assumes "graphic_word meth" and "\<not> eq_ignore_ascii_case meth ''CONNECT''" and "name_host h"
    and "path = CHR ''/'' # p'" and "list_all ascii_graphic p'" and "graphic_word version"
  shows "parse_request_line (meth @ '' '' @ (''http://'' @ authority_text h p @ path) @ '' '' @ version) =
    Some \<lparr>hl_method = meth, hl_authority = h, hl_port = (case p of None \<Rightarrow> 80 | Some x \<Rightarrow> x),
      hl_rewritten = Some (meth @ '' '' @ path @ '' '' @ version @ crlf)\<rparr>"
proof -
  let ?t = "''http://'' @ authority_text h p @ path"
  have "graphic_word ?t" using graphic_authority [OF assms(3), of p] assms(4,5) by (simp add: graphic_word_def ascii_graphic_def)
  then have "split_whitespace (meth @ '' '' @ ?t @ '' '' @ version) = [meth, ?t, version]"
    using assms(1,6) by (intro split_whitespace_3) (simp add: graphic_word_def)
  moreover have "strip_prefix ?t ''http://'' = Some (authority_text h p @ path)"
    by (simp add: strip_prefix_def starts_with_def)
  ultimately show ?thesis
    using assms(2) split_path_text [OF assms(3,4), of p] parse_authority_text [OF assms(3), of p 80]
    by (simp add: parse_request_line_def)
qed

lemma first_line:
  assumes "list_all ascii_graphic (filter (\<lambda>c. c \<noteq> CHR '' '') l)"
  shows "\<exists>ls. str_lines (l @ crlf @ rest) = l # ls" and "split_once_str crlf (l @ crlf @ rest) = Some (l, rest)"
proof -
  have no: "CHR 0x0A \<notin> set l" "CHR 0x0D \<notin> set l"
    using assms by (auto simp: list_all_iff ascii_graphic_def)
  have "split_chars (\<lambda>c. c = CHR 0x0A) ((l @ [CHR 0x0D]) @ CHR 0x0A # rest) =
      (l @ [CHR 0x0D]) # split_chars (\<lambda>c. c = CHR 0x0A) rest"
    using no(1) split_chars_none [of "l @ [CHR 0x0D]" "\<lambda>c. c = CHR 0x0A"] by (subst split_chars_separator) auto
  then show "\<exists>ls. str_lines (l @ crlf @ rest) = l # ls"
    by (simp add: str_lines_def crlf_def Let_def strip_cr_def)
  show "split_once_str crlf (l @ crlf @ rest) = Some (l, rest)"
    using split_once_str_first [OF no(2), of "[CHR 0x0A]" rest] by (simp add: crlf_def)
qed

subsection \<open>Forwarding\<close>

definition ascii_text :: "string \<Rightarrow> bool" where
  "ascii_text s \<longleftrightarrow> list_all (\<lambda>c. (of_char c :: nat) < 128) s"

lemma lossy_ascii: "ascii_text s \<Longrightarrow> from_utf8_lossy (as_bytes s) = s"
proof -
  assume "ascii_text s"
  then have "from_utf8_lossy (as_bytes s @ []) = s @ from_utf8_lossy []"
    unfolding ascii_text_def by (rule from_utf8_lossy_ascii)
  then show ?thesis by (simp add: from_utf8_lossy_def utf8_lossy.simps of_bytes_def)
qed

lemma graphic_ascii: "list_all ascii_graphic w \<Longrightarrow> ascii_text w"
  by (auto simp: ascii_text_def list_all_iff ascii_graphic_def)

lemma start_tunneled_plain:
  assumes "hl_rewritten rq = Some line" and "\<And>b. cx_remote_ok io c b"
  shows "\<exists>s'. start_tunneled io rq head early (c, []) s = (Inr (), s') \<and> ss_relay s' = Some c \<and> ss_client s' = ss_client s
    \<and> concat (ss_remote s') = concat (ss_remote s) @ rewritten_head line head @ early"
  using assms by (cases "early = []") (simp_all add: start_tunneled_def remote_send_def)

text \<open>
  C6. A plain request is forwarded completely. For a request in absolute form whose host is a name or
  an IPv4 address, with or without a port, that the rules send through the tunnel and for which the
  tunnel opens a connection, and however its bytes arrive: the far end receives the same method, path,
  version and header fields with the scheme and the host taken out of the request line, followed by
  exactly the bytes of the body that the read which completed the head brought with it, the rest of the
  body being in the reads that are left to the relay; the relay starts on that connection, and the client
  receives nothing from the proxy itself.
\<close>

theorem http_request_forwarded:
  assumes "graphic_word meth" and "\<not> eq_ignore_ascii_case meth ''CONNECT''" and "name_host h"
    and "path = CHR ''/'' # p'" and "list_all ascii_graphic p'" and "graphic_word version" and "ascii_text hdrs"
    and "concat cs = as_bytes (meth @ '' http://'' @ authority_text h p @ path @ '' '' @ version @ crlf @ hdrs) @ body"
    and "[] \<notin> set cs"
    and "find_head_end (concat cs) = Some (length (meth @ '' http://'' @ authority_text h p @ path @ '' '' @ version @ crlf @ hdrs))"
    and "length (meth @ '' http://'' @ authority_text h p @ path @ '' '' @ version @ crlf @ hdrs) \<le> HTTP_HEAD_LIMIT"
    and "t = (case parse_ip h of Some ip \<Rightarrow> TargetIp ip | None \<Rightarrow> TargetDomain h)"
    and "port = (case p of None \<Rightarrow> 80 | Some x \<Rightarrow> x)"
    and "decide (rc_lib cfg) (rc_rules cfg) (host_of t) port = Proxy"
    and "open_tunneled io t port s = (Inr (c, []), s1)" and "\<And>b. cx_remote_ok io c b"
  shows "\<exists>s' early k. handle_http_client cfg io (map Inr cs) s = (Inr (), s')
    \<and> read_beyond cs (as_bytes (meth @ '' http://'' @ authority_text h p @ path @ '' '' @ version @ crlf @ hdrs)) k early
    \<and> early @ concat (drop (Suc k) cs) = body
    \<and> ss_relay s' = Some c \<and> ss_client s' = ss_client s1
    \<and> concat (ss_remote s') = concat (ss_remote s1) @ as_bytes (meth @ '' '' @ path @ '' '' @ version @ crlf @ hdrs) @ early"
proof -
  let ?line = "meth @ '' '' @ (''http://'' @ authority_text h p @ path) @ '' '' @ version"
  let ?head = "as_bytes (?line @ crlf @ hdrs)"
  let ?new = "meth @ '' '' @ path @ '' '' @ version @ crlf"
  define rq where "rq = \<lparr>hl_method = meth, hl_authority = h, hl_port = port, hl_rewritten = Some ?new\<rparr>"
  have graphic: "list_all ascii_graphic (filter (\<lambda>c. c \<noteq> CHR '' '') ?line)"
    using assms(1,3-6) graphic_authority [OF assms(3), of p]
    by (auto simp: graphic_word_def list_all_iff ascii_graphic_def)
  obtain early k where head: "read_head [] (map Inr cs @ []) = Some (Inr (?head, early))"
    and beyond: "read_beyond cs ?head k early" and rest: "early @ concat (drop (Suc k) cs) = body"
    using read_head_complete [of cs ?head body "[]"] assms(8-11) by auto
  have "ascii_text (?line @ crlf @ hdrs)"
    using assms(1,4-7) graphic_authority [OF assms(3), of p]
    by (auto simp: ascii_text_def graphic_word_def list_all_iff ascii_graphic_def crlf_def)
  then have str: "from_utf8_lossy ?head = ?line @ crlf @ hdrs" by (rule lossy_ascii)
  obtain ls where lines: "str_lines (?line @ crlf @ hdrs) = ?line # ls"
    using first_line(1) [OF graphic, of hdrs] by blast
  have parsed: "parse_request_line ?line = Some rq"
    using parse_plain_request [OF assms(1-6), of p] assms(13) by (simp add: rq_def)
  have new: "rewritten_head ?new ?head = as_bytes (?new @ hdrs)"
    by (simp only: rewritten_head_def str first_line(2) [OF graphic] option.case prod.case)
  obtain s' where "start_tunneled io rq ?head early (c, []) s1 = (Inr (), s')" "ss_relay s' = Some c" "ss_client s' = ss_client s1"
    "concat (ss_remote s') = concat (ss_remote s1) @ rewritten_head ?new ?head @ early"
    using start_tunneled_plain [of rq ?new io c ?head early s1] assms(16) by (auto simp: rq_def)
  moreover have "http_target rq = t" "hl_port rq = port" by (simp_all add: rq_def http_target_def assms(12) split: option.split)
  then have "handle_http_client cfg io (map Inr cs) s = start_tunneled io rq ?head early (c, []) s1"
    using head lines parsed assms(14,15)
    by (simp only: handle_http_client_def with_http_request_def append_Nil2 str Let_def option.case sum.case prod.case list.case action.case)
  ultimately show ?thesis using rest new beyond by (intro exI [of _ s'] exI [of _ early] exI [of _ k]) simp
qed

definition open_cfg :: "(ip_addr, string) route_cfg" where
  "open_cfg = \<lparr>rc_lib = plain_lib, rc_rules = \<lparr>rs_block = [], rs_direct = []\<rparr>, rc_env = (\<lambda>_. None)\<rparr>"

definition sample_request :: string where
  "sample_request = ''GET http://a.io:8080/x HTTP/1.1'' @ crlf @ ''A: b'' @ crlf @ crlf"

theorem http_request_forwarded_witness:
  "\<exists>s'. handle_http_client open_cfg sample_io (map Inr [as_bytes sample_request @ [1, 2]]) sample_session = (Inr (), s')
     \<and> ss_relay s' = Some 6
     \<and> concat (ss_remote s') = as_bytes (''GET /x HTTP/1.1'' @ crlf @ ''A: b'' @ crlf @ crlf) @ [1, 2]"
proof -
  have dec: "nat_dec 8080 = ''8080''"
    by (simp add: nat_dec.simps [of 8080] nat_dec.simps [of 808] nat_dec.simps [of 80] nat_dec.simps [of 8] digit_char_def)
      (simp flip: of_char_eq_iff [where 'a = nat])
  have req: "''GET'' @ '' http://'' @ authority_text ''a.io'' (Some 8080) @ ''/x'' @ '' '' @ ''HTTP/1.1'' @ crlf @ (''A: b'' @ crlf @ crlf)
      = sample_request" by (simp add: sample_request_def authority_text_def dec)
  have words: "graphic_word ''GET''" "\<not> eq_ignore_ascii_case ''GET'' ''CONNECT''" "name_host ''a.io''"
    "''/x'' = CHR ''/'' # ''x''" "list_all ascii_graphic ''x''" "graphic_word ''HTTP/1.1''" "ascii_text (''A: b'' @ crlf @ crlf)"
    by (simp_all add: graphic_word_def name_host_def ascii_graphic_def ascii_text_def crlf_def eq_ignore_ascii_case_def)
  have ip: "TargetDomain ''a.io'' = (case parse_ip ''a.io'' of Some ip \<Rightarrow> TargetIp ip | None \<Rightarrow> TargetDomain ''a.io'')"
    by (simp add: ip_read)
  have route: "decide (rc_lib open_cfg) (rc_rules open_cfg) (host_of (TargetDomain ''a.io'')) 8080 = Proxy" by (simp add: open_cfg_def decide_def)
  have opened: "open_tunneled sample_io (TargetDomain ''a.io'') 8080 sample_session = (Inr (6, []), sample_session)"
    by (simp add: open_tunneled_def should_use_gateway_def)
  have ends: "find_head_end (as_bytes sample_request @ [1, 2]) = Some (length sample_request)"
    by (simp add: find_head_end_def sample_request_def crlf_def as_bytes_def)
  have limit: "length sample_request \<le> HTTP_HEAD_LIMIT" by (simp add: sample_request_def crlf_def HTTP_HEAD_LIMIT_def)
  have "\<And>b. cx_remote_ok sample_io 6 b" by (simp add: sample_io_def)
  from http_request_forwarded [OF words, of "[as_bytes sample_request @ [1, 2]]" "Some 8080" "[1, 2]",
      unfolded req, OF _ _ _ limit ip refl _ _ this, of open_cfg sample_session sample_session] ends route opened
  obtain s' early k where run: "handle_http_client open_cfg sample_io (map Inr [as_bytes sample_request @ [1, 2]]) sample_session = (Inr (), s')"
    "read_beyond [as_bytes sample_request @ [1, 2]] (as_bytes sample_request) k early" "ss_relay s' = Some 6"
    "concat (ss_remote s') = concat (ss_remote sample_session) @ as_bytes (''GET'' @ '' '' @ ''/x'' @ '' '' @ ''HTTP/1.1'' @ crlf @ (''A: b'' @ crlf @ crlf)) @ early"
    by auto
  have "early = [1, 2]" using run(2) by (simp add: read_beyond_def)
  then show ?thesis using run by (intro exI [of _ s']) (simp add: sample_session_def)
qed

subsection \<open>Routes\<close>

definition http_request_of :: "bytes result list \<Rightarrow> http_request_line option" where
  "http_request_of reads =
     (case read_head [] reads of
        Some (Inr (head, _)) \<Rightarrow> parse_request_line (case str_lines (from_utf8_lossy head) of l # _ \<Rightarrow> l | [] \<Rightarrow> [])
      | _ \<Rightarrow> None)"

lemma start_stream_relay:
  "ss_relay (snd (start_stream io rq head early c s)) = ss_relay s \<or> ss_relay (snd (start_stream io rq head early c s)) = Some c"
  by (cases "hl_rewritten rq"; cases "early = []")
    (simp_all add: start_stream_def remote_write_def remote_send_def client_write_def del: client_write_relay')

lemma relay_http_direct_relay:
  assumes "relay_http_direct io rq head early s = (r, s')" and "ss_relay s = None" and "ss_relay s' = Some c"
  shows "\<exists>client a. cx_peer io = Inr client \<and> direct_target_allowed client (sa_ip a) \<and> hi_tcp (cx_host io) a = Inr c"
proof (cases "cx_peer io")
  case (Inr client)
  then have "connect_direct (cx_host io) (hl_authority rq) (hl_port rq) client = Inr c"
    using assms start_stream_relay [of io rq head early _ s]
    by (auto simp: relay_http_direct_def split: if_splits sum.splits prod.splits) (metis option.distinct(1) option.inject snd_conv)
  from connect_direct_allowed [OF this] Inr show ?thesis by auto
qed (use assms in \<open>simp add: relay_http_direct_def\<close>)

text \<open>
  The connection \<open>c\<close> is one that the rules allow for the request in \<open>reads\<close>: a request for the tunnel has one
  of the tunnel, given by \<open>tunneled\<close>.
\<close>

definition relay_allowed :: "('n, 'r) route_cfg \<Rightarrow> 'c connect_io \<Rightarrow> bytes result list
    \<Rightarrow> (http_request_line \<Rightarrow> 'c \<Rightarrow> bool) \<Rightarrow> 'c \<Rightarrow> bool" where
  "relay_allowed cfg io reads tunneled c \<longleftrightarrow>
     (case http_request_of reads of
        None \<Rightarrow> False
      | Some rq \<Rightarrow>
          (case decide (rc_lib cfg) (rc_rules cfg) (host_of (http_target rq)) (hl_port rq) of
             Block \<Rightarrow> False
           | Direct \<Rightarrow> \<exists>client a. cx_peer io = Inr client \<and> direct_target_allowed client (sa_ip a) \<and> hi_tcp (cx_host io) a = Inr c
           | Proxy \<Rightarrow> tunneled rq c))"

text \<open>
  A connection of the tunnel: opened by the stack of the tunnel to the address that the tunnel resolves, or by
  the gateway that is reached through the tunnel, which is asked for the same target.
\<close>

definition by_tunnel :: "'c connect_io \<Rightarrow> gateway \<Rightarrow> http_request_line \<Rightarrow> 'c \<Rightarrow> bool" where
  "by_tunnel io g rq c \<longleftrightarrow>
     (\<exists>ip. cx_resolve io (http_target rq) = Inr ip \<and> cx_open io \<lparr>sa_ip = ip, sa_port = hl_port rq\<rparr> = Inr c)
     \<or> (\<exists>proxy leftover. should_use_gateway (hl_port rq) \<and> gateway_proxy g = Some proxy
          \<and> open_through_gateway (cx_gateway io) proxy (target_to_string (http_target rq)) (hl_port rq) = Inr (c, leftover))"

lemma open_tunneled_by_tunnel:
  assumes "open_tunneled io (http_target rq) (hl_port rq) s = (Inr (c, leftover), s')"
  shows "by_tunnel io (ss_gateway s) rq c"
  using assms
  by (auto simp: open_tunneled_def by_tunnel_def Let_def res_bind_def split: option.splits sum.splits if_splits)

lemma start_tunneled_relay:
  "ss_relay (snd (start_tunneled io rq head early (c, leftover) s)) = ss_relay s
   \<or> ss_relay (snd (start_tunneled io rq head early (c, leftover) s)) = Some c"
  by (cases "hl_rewritten rq"; cases "leftover = []"; cases "early = []")
    (simp_all add: start_tunneled_def remote_send_def client_write_def del: client_write_relay')

lemma open_tunneled_relay: "ss_relay (snd (open_tunneled io t port s)) = ss_relay s"
  by (simp add: open_tunneled_def Let_def split: option.split sum.split)

lemma with_http_request_relay:
  assumes "with_http_request cfg io reads k s = (r, s')" and "ss_relay s = None" and "ss_relay s' = Some c"
    and "\<And>rq head early. ss_relay (snd (k rq head early s)) = Some c \<Longrightarrow> tunneled rq c"
  shows "relay_allowed cfg io reads tunneled c"
proof -
  obtain head early rq where rq: "read_head [] reads = Some (Inr (head, early))"
      "parse_request_line (case str_lines (from_utf8_lossy head) of l # _ \<Rightarrow> l | [] \<Rightarrow> []) = Some rq"
    using assms(1-3)
    by (auto simp: with_http_request_def Let_def simp del: client_write_relay' split: option.splits sum.splits prod.splits)
  then have req: "http_request_of reads = Some rq" by (simp add: http_request_of_def)
  have run: "(r, s') = (case decide (rc_lib cfg) (rc_rules cfg) (host_of (http_target rq)) (hl_port rq) of
      Block \<Rightarrow> (Inr (), snd (client_write io forbidden s))
    | Direct \<Rightarrow> relay_http_direct io rq head early s
    | Proxy \<Rightarrow> k rq head early s)"
    using assms(1) rq by (simp add: with_http_request_def)
  show ?thesis
  proof (cases "decide (rc_lib cfg) (rc_rules cfg) (host_of (http_target rq)) (hl_port rq)")
    case Block
    then show ?thesis using run assms(2,3) by (simp del: client_write_relay')
  next
    case Direct
    then show ?thesis using run relay_http_direct_relay [OF _ assms(2,3), of io rq head early r] req by (simp add: relay_allowed_def)
  next
    case Proxy
    then have "k rq head early s = (r, s')" using run by (simp del: client_write_relay')
    then have "ss_relay (snd (k rq head early s)) = Some c" using assms(3) by simp
    then show ?thesis using assms(4) req Proxy by (simp add: relay_allowed_def)
  qed
qed

text \<open>
  C37. The HTTP listener, over the tunnel or over a connector, relays a request only where the rules
  allow it: never a blocked one, a direct one only to an address its client may reach, and one for the
  tunnel only over a connection that the tunnel, its gateway or the connector opened for that target,
  never around it.
\<close>

theorem http_respects_route:
  "(case ss_relay (snd (handle_http_client cfg io reads (s\<lparr>ss_relay := None\<rparr>))) of
      None \<Rightarrow> True | Some c \<Rightarrow> relay_allowed cfg io reads (by_tunnel io (ss_gateway s)) c)
   \<and> (case ss_relay (snd (handle_http_through cfg io connect reads (s\<lparr>ss_relay := None\<rparr>))) of
        None \<Rightarrow> True
      | Some c \<Rightarrow> relay_allowed cfg io reads (\<lambda>rq c. connect (hl_authority rq) (hl_port rq) = Inr c) c)"
proof -
  let ?s = "s\<lparr>ss_relay := None\<rparr>"
  have tunnel: "by_tunnel io (ss_gateway s) rq c"
    if relayed: "ss_relay (snd (case open_tunneled io (http_target rq) (hl_port rq) ?s of
          (Inl e, s1) \<Rightarrow> (Inl e, snd (client_write io bad_gateway s1))
        | (Inr conn, s1) \<Rightarrow> start_tunneled io rq head early conn s1)) = Some c" for rq head early c
  proof -
    obtain x s1 where o: "open_tunneled io (http_target rq) (hl_port rq) ?s = (x, s1)" by fastforce
    then have none: "ss_relay s1 = None" using open_tunneled_relay [of io "http_target rq" "hl_port rq" ?s] by simp
    then obtain d leftover where x: "x = Inr (d, leftover)" using relayed o by (cases x) (auto simp del: client_write_relay')
    then have "d = c" using relayed o none start_tunneled_relay [of io rq head early d leftover s1] by (auto simp del: client_write_relay')
    then show ?thesis using open_tunneled_by_tunnel [OF o [unfolded x]] by simp
  qed
  have through: "connect (hl_authority rq) (hl_port rq) = Inr c"
    if "ss_relay (snd (case connect (hl_authority rq) (hl_port rq) of
          Inl msg \<Rightarrow> (Inl (Other (hl_authority rq @ '':'' @ nat_dec (unat (hl_port rq)) @ '': '' @ msg)),
                      snd (client_write io bad_gateway ?s))
        | Inr c \<Rightarrow> start_stream io rq head early c ?s)) = Some c" for rq head early c
  proof (cases "connect (hl_authority rq) (hl_port rq)")
    case (Inr d)
    then show ?thesis using that start_stream_relay [of io rq head early d ?s] by (simp del: client_write_relay')
  qed (use that in \<open>simp del: client_write_relay'\<close>)
  have "relay_allowed cfg io reads (by_tunnel io (ss_gateway s)) c"
    if "ss_relay (snd (handle_http_client cfg io reads ?s)) = Some c" for c
    by (rule with_http_request_relay [OF surjective_pairing _ that [unfolded handle_http_client_def]])
      (simp, rule tunnel)
  moreover have "relay_allowed cfg io reads (\<lambda>rq c. connect (hl_authority rq) (hl_port rq) = Inr c) c"
    if "ss_relay (snd (handle_http_through cfg io connect reads ?s)) = Some c" for c
    by (rule with_http_request_relay [OF surjective_pairing _ that [unfolded handle_http_through_def]])
      (simp, rule through)
  ultimately show ?thesis by (simp split: option.split)
qed

end
