(* ===== verification/Sysprofile.thy ===== *)
theory Sysprofile
  imports Fragment
begin

text \<open>
  \<^verbatim>\<open>sysprofile.rs\<close> and \<^verbatim>\<open>stats.rs\<close>: the performance tier of the machine, the sizes that follow from it,
  and the traffic counters. What the system reports (processors, memory, open files) is an argument.
\<close>

datatype tier = Low | Medium | High

fun tier_rank :: "tier \<Rightarrow> nat" where
  "tier_rank Low = 0"
| "tier_rank Medium = 1"
| "tier_rank High = 2"

instantiation tier :: linorder
begin

definition less_eq_tier :: "tier \<Rightarrow> tier \<Rightarrow> bool" where
  "less_eq_tier a b \<longleftrightarrow> tier_rank a \<le> tier_rank b"

definition less_tier :: "tier \<Rightarrow> tier \<Rightarrow> bool" where
  "less_tier a b \<longleftrightarrow> tier_rank a < tier_rank b"

instance
proof
  fix a b :: tier
  show "a \<le> b \<Longrightarrow> b \<le> a \<Longrightarrow> a = b" by (cases a; cases b) (simp_all add: less_eq_tier_def)
qed (auto simp: less_eq_tier_def less_tier_def)

end

record sys_tuning =
  tn_tier :: tier
  tn_cpus :: usize
  tn_mem_mb :: "nat option"
  tn_scan_concurrency_cap :: usize
  tn_udp_socket_rcv_buf :: usize
  tn_udp_socket_snd_buf :: usize
  tn_netstack_tcp_tx_buf :: usize
  tn_netstack_tcp_rx_buf :: usize
  tn_netstack_udp_buf :: usize
  tn_channel_capacity :: usize
  tn_h2_stream_window :: u32
  tn_h2_connection_window :: u32

subsection \<open>Detection\<close>

text \<open>\<^verbatim>\<open>total_mem_mb\<close> on Linux and Android, over the lines of \<^verbatim>\<open>/proc/meminfo\<close>.\<close>

function trim_end_str :: "string \<Rightarrow> string \<Rightarrow> string" where
  "trim_end_str p s = (if p \<noteq> [] \<and> s \<noteq> [] \<and> ends_with s p then trim_end_str p (take (length s - length p) s) else s)"
  by pat_completeness auto
termination
  by (relation "measure (\<lambda>(p, s). length s)") auto

declare trim_end_str.simps [simp del]

fun meminfo_lines :: "string list \<Rightarrow> nat option" where
  "meminfo_lines [] = None"
| "meminfo_lines (line # ls) =
     (case strip_prefix line ''MemTotal:'' of
        Some rest \<Rightarrow> map_option (\<lambda>kb. kb div 1024) (parse_uint (2 ^ 64 - 1) (trim (trim_end_str ''kB'' (trim rest))))
      | None \<Rightarrow> meminfo_lines ls)"

definition total_mem_mb :: "string option \<Rightarrow> nat option" where
  "total_mem_mb meminfo = (case meminfo of None \<Rightarrow> None | Some t \<Rightarrow> meminfo_lines (str_lines t))"

definition named_tier :: "string \<Rightarrow> tier option" where
  "named_tier v =
     (if v = ''low'' then Some Low
      else if v \<in> set [''medium'', ''mid''] then Some Medium
      else if v = ''high'' then Some High else None)"

definition measured_tier :: "usize \<Rightarrow> nat option \<Rightarrow> tier" where
  "measured_tier cpus mem_mb =
     (let mem_low = (case mem_mb of Some m \<Rightarrow> m \<le> 384 | None \<Rightarrow> False);
          mem_medium = (case mem_mb of Some m \<Rightarrow> m \<le> 1536 | None \<Rightarrow> False)
      in if cpus \<le> 2 \<or> mem_low then Low else if cpus \<le> 4 \<or> mem_medium then Medium else High)"

definition detect_tier :: "(string \<Rightarrow> string) \<Rightarrow> env \<Rightarrow> usize \<Rightarrow> nat option \<Rightarrow> tier" where
  "detect_tier lowercase env cpus mem_mb =
     (case env ''AETHER_PERF_PROFILE'' of
        None \<Rightarrow> measured_tier cpus mem_mb
      | Some v \<Rightarrow> (case named_tier (lowercase (trim v)) of Some t \<Rightarrow> t | None \<Rightarrow> measured_tier cpus mem_mb))"

subsection \<open>Sizes\<close>

definition buffer_override :: "env \<Rightarrow> string \<Rightarrow> usize \<Rightarrow> usize" where
  "buffer_override env key fallback =
     (case env key of
        None \<Rightarrow> fallback
      | Some v \<Rightarrow>
          (case parse_uint usize_max (trim v) of
             None \<Rightarrow> fallback
           | Some b \<Rightarrow> if 16 * 1024 \<le> b \<and> b \<le> 64 * 1024 * 1024 then b else fallback))"

definition build_tuning :: "(string \<Rightarrow> string) \<Rightarrow> env \<Rightarrow> usize \<Rightarrow> nat option \<Rightarrow> sys_tuning" where
  "build_tuning lowercase env cpus mem_mb =
     (let t = detect_tier lowercase env cpus mem_mb;
          (cap, rcv, snd', tx, rx, udp, chan) =
            (case t of
               Low \<Rightarrow> (4, 256 * 1024, 48 * 1024, 64 * 1024, 64 * 1024, 32 * 1024, 128)
             | Medium \<Rightarrow> (10, 2 * 1024 * 1024, 96 * 1024, 96 * 1024, 128 * 1024, 64 * 1024, 512)
             | High \<Rightarrow> (usize_max, 7 * 1024 * 1024, 128 * 1024, 128 * 1024, 192 * 1024, 128 * 1024, 1024));
          (stream, conn) =
            (case t of
               Low \<Rightarrow> (2 * 1024 * 1024, 4 * 1024 * 1024)
             | Medium \<Rightarrow> (8 * 1024 * 1024, 16 * 1024 * 1024)
             | High \<Rightarrow> (16 * 1024 * 1024, 32 * 1024 * 1024))
      in \<lparr>tn_tier = t, tn_cpus = cpus, tn_mem_mb = mem_mb, tn_scan_concurrency_cap = cap,
          tn_udp_socket_rcv_buf = rcv, tn_udp_socket_snd_buf = snd',
          tn_netstack_tcp_tx_buf = buffer_override env ''AETHER_NETSTACK_TCP_TX'' tx,
          tn_netstack_tcp_rx_buf = buffer_override env ''AETHER_NETSTACK_TCP_RX'' rx,
          tn_netstack_udp_buf = udp, tn_channel_capacity = chan,
          tn_h2_stream_window = stream, tn_h2_connection_window = conn\<rparr>)"

definition cap_concurrency :: "sys_tuning \<Rightarrow> usize \<Rightarrow> usize" where
  "cap_concurrency t requested = min requested (tn_scan_concurrency_cap t)"

definition client_limit :: "env \<Rightarrow> sys_tuning \<Rightarrow> usize option \<Rightarrow> usize" where
  "client_limit env t open_file_limit =
     (let by_tier = (case tn_tier t of Low \<Rightarrow> 512 | Medium \<Rightarrow> 2048 | High \<Rightarrow> 8192);
          by_files = (case open_file_limit of Some files \<Rightarrow> min by_tier (max ((files - 64) div 2) 32) | None \<Rightarrow> by_tier)
      in case env ''AETHER_MAX_CLIENTS'' of
           None \<Rightarrow> by_files
         | Some v \<Rightarrow>
             (case parse_uint usize_max (trim v) of
                Some n \<Rightarrow> if 0 < n then n else by_files
              | None \<Rightarrow> by_files))"

subsection \<open>Counters\<close>

record stats =
  st_up :: u64
  st_down :: u64
  st_enabled :: bool

definition stats_init :: "env \<Rightarrow> stats \<Rightarrow> stats" where
  "stats_init env s =
     s\<lparr>st_enabled := (case env ''AETHER_STATS'' of
                        None \<Rightarrow> False
                      | Some v \<Rightarrow> to_lowercase (trim v) \<in> set [''1'', ''true'', ''yes'', ''on''])\<rparr>"

definition add_up :: "usize \<Rightarrow> stats \<Rightarrow> stats" where
  "add_up n s = (if st_enabled s then s\<lparr>st_up := st_up s + of_nat n\<rparr> else s)"

definition add_down :: "usize \<Rightarrow> stats \<Rightarrow> stats" where
  "add_down n s = (if st_enabled s then s\<lparr>st_down := st_down s + of_nat n\<rparr> else s)"

definition capped_secs :: "env \<Rightarrow> string \<Rightarrow> nat \<Rightarrow> nat" where
  "capped_secs env key dflt =
     (case env key of
        None \<Rightarrow> dflt
      | Some v \<Rightarrow>
          (case parse_uint (2 ^ 64 - 1) v of
             Some n \<Rightarrow> if 0 < n then min n 86400 else dflt
           | None \<Rightarrow> dflt))"

definition DEFAULT_REPORT_SECS :: nat where "DEFAULT_REPORT_SECS = 60"

definition report_interval :: "env \<Rightarrow> nat" where
  "report_interval env = capped_secs env ''AETHER_STATS_SECS'' DEFAULT_REPORT_SECS"

definition pad2 :: "nat \<Rightarrow> string" where
  "pad2 n = (if n < 10 then ''0'' @ nat_dec n else nat_dec n)"

definition format_uptime :: "nat \<Rightarrow> string" where
  "format_uptime secs =
     (let days = secs div 86400; hours = (secs mod 86400) div 3600;
          minutes = (secs mod 3600) div 60; seconds = secs mod 60;
          clock = pad2 hours @ '':'' @ pad2 minutes @ '':'' @ pad2 seconds
      in if 0 < days then nat_dec days @ ''d '' @ clock else clock)"

subsection \<open>What the sizes keep\<close>

lemma buffer_override_range:
  assumes "16 * 1024 \<le> fallback" and "fallback \<le> 64 * 1024 * 1024"
  shows "16 * 1024 \<le> buffer_override env key fallback \<and> buffer_override env key fallback \<le> 64 * 1024 * 1024"
  using assms by (simp add: buffer_override_def split: option.split)

text \<open>
  Whatever the machine and the environment say, the sizes keep their purpose: the send buffer of a
  data-plane socket, the last queue before the radio, is at most 128 KiB and never larger than the
  receive buffer, the TCP buffers lie between 16 KiB and 64 MiB, the HTTP/2 windows are ones that HTTP/2
  allows, with the stream's inside the connection's, every channel has a place and at least one
  client is served.
\<close>

lemma tuning_bounds:
  "tn_udp_socket_snd_buf (build_tuning lc env cpus mem) \<le> 128 * 1024
    \<and> tn_udp_socket_snd_buf (build_tuning lc env cpus mem) \<le> tn_udp_socket_rcv_buf (build_tuning lc env cpus mem)
    \<and> tn_netstack_tcp_rx_buf (build_tuning lc env cpus mem) \<in> {16 * 1024..64 * 1024 * 1024}
    \<and> tn_netstack_tcp_tx_buf (build_tuning lc env cpus mem) \<in> {16 * 1024..64 * 1024 * 1024}
    \<and> 65535 \<le> unat (tn_h2_stream_window (build_tuning lc env cpus mem))
    \<and> unat (tn_h2_stream_window (build_tuning lc env cpus mem)) \<le> unat (tn_h2_connection_window (build_tuning lc env cpus mem))
    \<and> unat (tn_h2_connection_window (build_tuning lc env cpus mem)) < 2 ^ 31
    \<and> 0 < tn_channel_capacity (build_tuning lc env cpus mem)
    \<and> 0 < client_limit env' (build_tuning lc env cpus mem) files"
proof -
  have "0 < client_limit env' t files" for t
    by (simp add: client_limit_def Let_def less_max_iff_disj split: option.split tier.split)
  then show ?thesis
    using buffer_override_range [of _ env]
    by (cases "detect_tier lc env cpus mem") (simp_all add: build_tuning_def)
qed

text \<open>A stronger machine is never placed in a lower tier, and a higher tier never has a smaller size.\<close>

lemma measured_tier_mono:
  assumes "cpus \<le> cpus'" and "mem \<le> mem'"
  shows "measured_tier cpus (Some mem) \<le> measured_tier cpus' (Some mem')"
  using assms by (simp add: measured_tier_def less_eq_tier_def)

lemma sizes_mono:
  assumes "detect_tier lc env cpus mem \<le> detect_tier lc env cpus' mem'"
  shows "tn_channel_capacity (build_tuning lc env cpus mem) \<le> tn_channel_capacity (build_tuning lc env cpus' mem')
    \<and> tn_udp_socket_rcv_buf (build_tuning lc env cpus mem) \<le> tn_udp_socket_rcv_buf (build_tuning lc env cpus' mem')
    \<and> tn_udp_socket_snd_buf (build_tuning lc env cpus mem) \<le> tn_udp_socket_snd_buf (build_tuning lc env cpus' mem')
    \<and> tn_h2_stream_window (build_tuning lc env cpus mem) \<le> tn_h2_stream_window (build_tuning lc env cpus' mem')"
  using assms
  by (cases "detect_tier lc env cpus mem"; cases "detect_tier lc env cpus' mem'")
    (simp_all add: build_tuning_def less_eq_tier_def)

end
