(* ===== verification/Relay.thy ===== *)
theory Relay
  imports Sysprofile
begin

text \<open>
  The relays of \<^verbatim>\<open>socks.rs\<close>: \<^verbatim>\<open>Activity\<close>, \<^verbatim>\<open>relay_halves\<close> and the loops that copy one direction, and the
  listener behind them with its limit of clients. Instants are nanoseconds. Two directions run until
  the download ends; once the upload has ended, the download is given up when it has been quiet for
  the linger time.
\<close>

definition RELAY_CHUNK :: nat where "RELAY_CHUNK = 16384"

definition half_close_linger :: "env \<Rightarrow> nat" where
  "half_close_linger env = 1000000000 * capped_secs env ''AETHER_HALF_CLOSE_SECS'' 30"

subsection \<open>Activity\<close>

definition MS :: nat where "MS = 1000000"

record activity =
  ac_started :: nat
  ac_last_ms :: nat

definition activity_new :: "nat \<Rightarrow> activity" where
  "activity_new now = \<lparr>ac_started = now, ac_last_ms = 0\<rparr>"

definition touch :: "nat \<Rightarrow> activity \<Rightarrow> activity" where
  "touch now a = a\<lparr>ac_last_ms := min ((now - ac_started a) div MS) (2 ^ 64 - 1)\<rparr>"

definition quiet_until :: "nat \<Rightarrow> activity \<Rightarrow> nat" where
  "quiet_until idle a = ac_started a + MS * ac_last_ms a + idle"

subsection \<open>Two halves\<close>

text \<open>A timer that finds the deadline moved has seen bytes move.\<close>

lemma touched_again:
  assumes "\<not> quiet_until idle (fold touch (takeWhile P ts) a) \<le> quiet_until idle a + n"
  shows "length (dropWhile P ts) < length ts"
proof -
  have "takeWhile P ts \<noteq> []" using assms by (metis fold_simps(1) id_apply le_add1)
  then have "dropWhile P ts \<noteq> ts" by (metis append_self_conv2 takeWhile_dropWhile_id)
  then show ?thesis
    by (metis dropWhile_eq_drop length_drop length_takeWhile_le diff_less drop_0 length_greater_0_conv neq0_conv
        \<open>takeWhile P ts \<noteq> []\<close> dropWhile.simps(1))
qed

text \<open>
  The loop after the end of the upload. \<open>ts\<close> are the instants at which the download moves bytes, in
  order, \<open>down\<close> is when it ends, if it does, and a timer for the instant \<open>d\<close> fires \<open>late d\<close> after it.
\<close>

function linger_loop :: "nat \<Rightarrow> (nat \<Rightarrow> nat) \<Rightarrow> activity \<Rightarrow> nat list \<Rightarrow> nat option \<Rightarrow> nat" where
  "linger_loop idle late a ts down =
     (let d = quiet_until idle a; now = d + late d; a' = fold touch (takeWhile (\<lambda>t. t \<le> now) ts) a
      in case down of
           Some e \<Rightarrow>
             if e \<le> now then e
             else if quiet_until idle a' \<le> now then now
             else linger_loop idle late a' (dropWhile (\<lambda>t. t \<le> now) ts) down
         | None \<Rightarrow>
             if quiet_until idle a' \<le> now then now
             else linger_loop idle late a' (dropWhile (\<lambda>t. t \<le> now) ts) down)"
  by pat_completeness auto

termination
  by (relation "measure (\<lambda>(idle, late, a, ts, down). length ts)") (auto intro: touched_again)

declare linger_loop.simps [simp del]

text \<open>
  \<^verbatim>\<open>relay_halves\<close>: when the relay ends, for the ends of the two halves; None if it never does.
\<close>

definition relay_halves :: "nat \<Rightarrow> (nat \<Rightarrow> nat) \<Rightarrow> activity \<Rightarrow> nat list \<Rightarrow> nat option \<Rightarrow> nat option \<Rightarrow> nat option" where
  "relay_halves idle late a ts up down =
     (case up of
        None \<Rightarrow> down
      | Some u \<Rightarrow>
          (let rest = Some (linger_loop idle late (touch u (fold touch (takeWhile (\<lambda>t. t \<le> u) ts) a))
                              (dropWhile (\<lambda>t. t \<le> u) ts) down)
           in case down of Some e \<Rightarrow> if e \<le> u then Some e else rest | None \<Rightarrow> rest))"

subsection \<open>The linger time\<close>

lemma touch_touch [simp]: "touch y (touch x a) = touch y a"
  by (simp add: touch_def)

lemma started_touch [simp]: "ac_started (touch x a) = ac_started a"
  by (simp add: touch_def)

lemma fold_touch: "fold touch xs (touch x a) = touch (last (x # xs)) a"
  by (induction xs arbitrary: x) simp_all

lemma started_fold_touch [simp]: "ac_started (fold touch xs a) = ac_started a"
  by (induction xs arbitrary: a) simp_all

lemma quiet_touch:
  assumes "ac_started a \<le> x" and "(x - ac_started a) div MS < 2 ^ 64"
  shows "quiet_until idle (touch x a) \<le> x + idle" and "x + idle < quiet_until idle (touch x a) + MS"
proof -
  obtain k where k: "x = ac_started a + k" using assms(1) le_Suc_ex by blast
  have "quiet_until idle (touch x a) = ac_started a + MS * (k div MS) + idle"
    using assms(2) by (simp add: quiet_until_def touch_def k)
  moreover have "MS * (k div MS) \<le> k" "k < MS * (k div MS) + MS"
    using div_mult_mod_eq [of k MS] mod_less_divisor [of MS k] by (simp_all add: MS_def mult.commute)
  ultimately show "quiet_until idle (touch x a) \<le> x + idle" "x + idle < quiet_until idle (touch x a) + MS"
    by (simp_all add: k)
qed

lemma last_touched: "last (x # takeWhile (\<lambda>t. t \<le> n) ts) \<in> set (x # ts)"
  by (metis last_in_set list.distinct(1) set_ConsD set_takeWhileD list.set_intros)

lemma sorted_untouched:
  "sorted (x # ts) \<Longrightarrow> sorted (last (x # takeWhile (\<lambda>t. t \<le> n) ts) # dropWhile (\<lambda>t. t \<le> n) ts)"
  by (induction ts arbitrary: x) auto

lemma touched_before:
  "sorted (x # ts) \<Longrightarrow> y \<in> set (x # ts) \<Longrightarrow> y \<le> n \<Longrightarrow> y \<le> last (x # takeWhile (\<lambda>t. t \<le> (n :: nat)) ts)"
proof (induction ts arbitrary: x)
  case (Cons t ts)
  then show ?case
    by (cases "t \<le> n") (auto dest: Cons.IH [of t])
qed simp

lemma sorted_last: "sorted (x # ts) \<Longrightarrow> y \<in> set (x # ts) \<Longrightarrow> y \<le> last (x # ts)"
  by (induction ts arbitrary: x) auto

lemma last_untouched: "last (last (x # takeWhile P ts) # dropWhile P ts) = last (x # ts)"
proof -
  have "last (last (x # as) # bs) = last (x # as @ bs)" for as bs :: "'a list"
    by (cases bs rule: rev_cases) simp_all
  from this [of "takeWhile P ts" "dropWhile P ts"] show ?thesis by (simp only: takeWhile_dropWhile_id)
qed

lemma touched_or_later:
  assumes "sorted (x # ts)" and "y \<in> set (x # ts)"
  shows "y \<le> last (x # takeWhile (\<lambda>t. t \<le> (n :: nat)) ts) \<or> y \<in> set (dropWhile (\<lambda>t. t \<le> n) ts)"
proof -
  consider "y = x" | "y \<in> set (takeWhile (\<lambda>t. t \<le> n) ts)" | "y \<in> set (dropWhile (\<lambda>t. t \<le> n) ts)"
    using assms(2) by (metis Un_iff set_ConsD set_append takeWhile_dropWhile_id)
  then show ?thesis
    using assms last_touched [of x n ts] touched_before [OF assms, of n] by cases (auto dest: set_takeWhileD)
qed

definition linger_ok :: "nat \<Rightarrow> nat \<Rightarrow> nat list \<Rightarrow> nat option \<Rightarrow> nat \<Rightarrow> bool" where
  "linger_ok idle bound xs down t \<longleftrightarrow>
     t \<le> last xs + idle + bound
     \<and> (down = Some t \<or> hd xs + idle < t + MS \<and> list_all (\<lambda>x. t < x \<or> x + idle < t + MS) xs)"

lemma linger_ok_earlier:
  assumes ok: "linger_ok idle bound (x1 # ts1) down t" and le: "x0 \<le> x1"
    and old: "\<And>x. x \<in> set (x0 # ts) \<Longrightarrow> x \<le> x1 \<or> x \<in> set ts1" and last: "last (x1 # ts1) = last (x0 # ts)"
  shows "linger_ok idle bound (x0 # ts) down t"
proof (cases "down = Some t")
  case False
  then have head: "x1 + idle < t + MS" and later: "\<And>x. x \<in> set ts1 \<Longrightarrow> t < x \<or> x + idle < t + MS"
    using ok by (auto simp: linger_ok_def list_all_iff)
  have "t < x \<or> x + idle < t + MS" if "x \<in> set (x0 # ts)" for x
    using old [OF that] head later [of x] by linarith
  then show ?thesis using ok head le unfolding linger_ok_def list_all_iff last by simp
qed (use ok last in \<open>simp add: linger_ok_def\<close>)

lemma linger_loop_ends:
  assumes "sorted (x0 # ts)" and "ac_started a \<le> x0" and "\<forall>x \<in> set (x0 # ts). (x - ac_started a) div MS < 2 ^ 64"
    and late: "\<And>d. late d \<le> bound"
  shows "linger_ok idle bound (x0 # ts) down (linger_loop idle late (touch x0 a) ts down)"
  using assms(1-3)
proof (induction "length ts" arbitrary: x0 ts rule: less_induct)
  case less
  define q where "q = quiet_until idle (touch x0 a)"
  define now where "now = q + late q"
  define x1 where "x1 = last (x0 # takeWhile (\<lambda>t. t \<le> now) ts)"
  define ts1 where "ts1 = dropWhile (\<lambda>t. t \<le> now) ts"
  have x1: "x1 \<in> set (x0 # ts)" unfolding x1_def by (rule last_touched)
  then have x1': "ac_started a \<le> x1" "(x1 - ac_started a) div MS < 2 ^ 64"
    using less.prems by auto
  have le: "x0 \<le> x1" using x1 less.prems(1) by auto
  have "q \<le> x0 + idle" unfolding q_def using less.prems by (intro quiet_touch) auto
  then have "now \<le> x0 + idle + bound" using late [of q] by (simp add: now_def)
  then have bound: "now \<le> last (x0 # ts) + idle + bound" using sorted_last [OF less.prems(1), of x0] by simp
  have loop: "linger_loop idle late (touch x0 a) ts down =
      (if \<exists>e. down = Some e \<and> e \<le> now then the down
       else if quiet_until idle (touch x1 a) \<le> now then now else linger_loop idle late (touch x1 a) ts1 down)"
    by (subst linger_loop.simps) (simp add: Let_def fold_touch now_def q_def x1_def ts1_def split: option.split)
  consider e where "down = Some e" "e \<le> now" | (quiet) "\<nexists>e. down = Some e \<and> e \<le> now" "quiet_until idle (touch x1 a) \<le> now"
    | (again) "\<nexists>e. down = Some e \<and> e \<le> now" "\<not> quiet_until idle (touch x1 a) \<le> now" by blast
  then show ?case
  proof cases
    case 1
    then have "linger_loop idle late (touch x0 a) ts down = e" by (subst loop) simp
    then show ?thesis using bound 1 by (simp add: linger_ok_def)
  next
    case quiet
    have "x + idle < now + MS" if "x \<in> set (x0 # ts)" "x \<le> now" for x
      using touched_before [OF less.prems(1) that, folded x1_def] quiet_touch(2) [OF x1', of idle] quiet(2) by linarith
    then have "list_all (\<lambda>x. now < x \<or> x + idle < now + MS) (x0 # ts)"
      unfolding list_all_iff by (metis not_le_imp_less)
    moreover have "x0 + idle < now + MS"
      using le quiet_touch(2) [OF x1', of idle] quiet(2) by simp
    moreover have "linger_loop idle late (touch x0 a) ts down = now" using quiet unfolding loop by auto
    ultimately show ?thesis using bound by (simp only: linger_ok_def list.sel) simp
  next
    case again
    have "length ts1 < length ts"
      using again(2) touched_again [of idle "\<lambda>t. t \<le> now" ts "touch x0 a" "late q"]
      by (simp add: fold_touch ts1_def x1_def now_def q_def)
    moreover have "sorted (x1 # ts1)" using sorted_untouched [OF less.prems(1)] by (simp add: x1_def ts1_def)
    ultimately have "linger_ok idle bound (x1 # ts1) down (linger_loop idle late (touch x1 a) ts1 down)"
      using less.hyps [of ts1 x1] x1' less.prems(3) by (auto simp: ts1_def dest: set_dropWhileD)
    moreover have "x \<le> x1 \<or> x \<in> set ts1" if "x \<in> set (x0 # ts)" for x
      unfolding x1_def ts1_def by (rule touched_or_later [OF less.prems(1) that])
    moreover have "linger_loop idle late (touch x0 a) ts down = linger_loop idle late (touch x1 a) ts1 down"
      using again by (subst loop) auto
    moreover have "last (x1 # ts1) = last (x0 # ts)" unfolding x1_def ts1_def by (rule last_untouched)
    ultimately show ?thesis using linger_ok_earlier [OF _ le] by metis
  qed
qed

lemma dropped_before: "x \<in> set ts \<Longrightarrow> x \<le> n \<or> x \<in> set (dropWhile (\<lambda>t. t \<le> n) ts)" for n :: nat
  by (induction ts) auto

lemma sorted_from: "sorted ts \<Longrightarrow> sorted (n # dropWhile (\<lambda>t. t \<le> n) ts)" for n :: nat
  by (induction ts) auto

text \<open>
  C7. A relay ends. Once the upload has ended, the relay ends too, whatever the download does: at the
  latest the linger time after the last byte moved (plus the lateness of a timer), and at once when
  the download ends. It never gives up a download that is active: it ends before the end of the
  download only when no byte has moved for the linger time, less the millisecond that the activity is
  measured in. The loop that waits needs one round for each burst of bytes at most.
\<close>

theorem relay_ends_when_quiet:
  assumes "sorted ts" and "\<forall>x \<in> set (u # ts). started \<le> x \<and> (x - started) div MS < 2 ^ 64" and "\<And>d. late d \<le> bound"
  shows "\<exists>t. relay_halves idle late (activity_new started) ts (Some u) down = Some t
    \<and> t \<le> Max (set (u # ts)) + idle + bound
    \<and> (down = Some t \<or> u + idle < t + MS \<and> list_all (\<lambda>x. t < x \<or> x + idle < t + MS) ts)"
proof (cases "\<exists>e. down = Some e \<and> e \<le> u")
  case True
  then obtain e where "down = Some e" "e \<le> u" by blast
  moreover have "u \<le> Max (set (u # ts))" by (rule Max_ge) simp_all
  then have "e \<le> Max (set (u # ts)) + idle + bound" using \<open>e \<le> u\<close> by linarith
  ultimately show ?thesis by (simp add: relay_halves_def Let_def)
next
  case False
  let ?a = "activity_new started" and ?ts = "dropWhile (\<lambda>t. t \<le> u) ts"
  define t where "t = linger_loop idle late (touch u ?a) ?ts down"
  have sub: "set ?ts \<subseteq> set ts" by (auto dest: set_dropWhileD)
  have ok: "linger_ok idle bound (u # ?ts) down t"
    unfolding t_def using assms(2) sub sorted_from [OF assms(1), of u]
    by (intro linger_loop_ends assms(3)) (auto simp: activity_new_def)
  have "touch u (fold touch (takeWhile (\<lambda>t. t \<le> u) ts) ?a) = touch u ?a"
    by (induction "takeWhile (\<lambda>t. t \<le> u) ts" arbitrary: ts rule: rev_induct) (auto simp: touch_def activity_new_def)
  then have "relay_halves idle late ?a ts (Some u) down = Some t"
    using False by (auto simp: relay_halves_def t_def Let_def split: option.split)
  moreover have "last (u # ?ts) \<le> Max (set (u # ts))"
  proof (rule Max_ge)
    have "last (u # ?ts) \<in> set (u # ?ts)" by (rule last_in_set) simp
    then show "last (u # ?ts) \<in> set (u # ts)" using sub by (metis list.set_intros set_ConsD subsetD)
  qed simp
  moreover have "down = Some t \<or> u + idle < t + MS \<and> list_all (\<lambda>x. t < x \<or> x + idle < t + MS) ts"
  proof (cases "down = Some t")
    case False
    then have "u + idle < t + MS" "\<And>x. x \<in> set ?ts \<Longrightarrow> t < x \<or> x + idle < t + MS"
      using ok by (auto simp: linger_ok_def list_all_iff)
    then show ?thesis using dropped_before [of _ ts u] unfolding list_all_iff by force
  qed simp
  ultimately show ?thesis using ok by (auto simp: linger_ok_def)
qed

theorem relay_ends_when_quiet_witness:
  "\<exists>t. relay_halves 30000000000 (\<lambda>_. 500) (activity_new 7) [1000, 2000000, 40000000] (Some 5000000) None = Some t
     \<and> t \<le> 30040000500 \<and> 30039000000 < t"
proof -
  have m: "Max (set [5000000, 1000, 2000000, 40000000 :: nat]) = 40000000" by simp
  from relay_ends_when_quiet [of "[1000, 2000000, 40000000]" 5000000 7 "\<lambda>_. 500" 500 30000000000 None]
  obtain t where t: "relay_halves 30000000000 (\<lambda>_. 500) (activity_new 7) [1000, 2000000, 40000000] (Some 5000000) None = Some t"
    and le: "t \<le> Max (set [5000000, 1000, 2000000, 40000000]) + 30000000000 + 500"
    and quiet: "5000000 + 30000000000 < t + MS" "list_all (\<lambda>x. t < x \<or> x + 30000000000 < t + MS) [1000, 2000000, 40000000]"
    by (auto simp: MS_def)
  have "t \<le> 30040000500" using le unfolding m by simp
  moreover have "30039000000 < t" using quiet by (auto simp: MS_def)
  ultimately show ?thesis using t by blast
qed

subsection \<open>Copying\<close>

datatype way = Up | Down

definition count :: "way \<Rightarrow> nat \<Rightarrow> stats \<Rightarrow> stats" where
  "count w n st = (case w of Up \<Rightarrow> add_up n st | Down \<Rightarrow> add_down n st)"

text \<open>
  \<^verbatim>\<open>pump\<close> over what its reads give, an empty read being the end of the stream; \<open>ok n\<close> says whether the n-th
  chunk can be written. When the reads run out it waits, and has no result.
\<close>

fun pump :: "way \<Rightarrow> (nat \<Rightarrow> bool) \<Rightarrow> bytes result list \<Rightarrow> bytes list \<Rightarrow> stats \<Rightarrow> unit result option \<times> bytes list \<times> stats" where
  "pump w ok [] out st = (None, out, st)"
| "pump w ok (Inl e # rs) out st = (Some (Inl e), out, st)"
| "pump w ok (Inr c # rs) out st =
     (if c = [] then (Some (Inr ()), out, st)
      else if \<not> ok (length out) then (Some (Inl (Io ''broken pipe'')), out, st)
      else pump w ok rs (out @ [c]) (count w (length c) st))"

text \<open>
  The two halves of \<^verbatim>\<open>relay_tunneled\<close>. The upload closes the tunnelled connection when the client is done
  or broken, but not when the tunnel refuses a chunk; the download shuts the client down when the
  tunnel is done. The result says whether that happened.
\<close>

fun tunnel_upload :: "(nat \<Rightarrow> bool) \<Rightarrow> bytes result list \<Rightarrow> bytes list \<Rightarrow> stats \<Rightarrow> bool option \<times> bytes list \<times> stats" where
  "tunnel_upload ok [] out st = (None, out, st)"
| "tunnel_upload ok (Inl e # rs) out st = (Some True, out, st)"
| "tunnel_upload ok (Inr c # rs) out st =
     (if c = [] then (Some True, out, st)
      else if \<not> ok (length out) then (Some False, out, st)
      else tunnel_upload ok rs (out @ [c]) (add_up (length c) st))"

fun tunnel_download :: "(nat \<Rightarrow> bool) \<Rightarrow> bytes option list \<Rightarrow> bytes list \<Rightarrow> stats \<Rightarrow> bool option \<times> bytes list \<times> stats" where
  "tunnel_download ok [] out st = (None, out, st)"
| "tunnel_download ok (None # cs) out st = (Some True, out, st)"
| "tunnel_download ok (Some c # cs) out st =
     (if \<not> ok (length out) then (Some False, out, st)
      else tunnel_download ok cs (out @ [c]) (add_down (length c) st))"

lemma add_up_add_up: "add_up n (add_up m st) = add_up (m + n) st"
  by (simp add: add_up_def)

lemma add_down_add_down: "add_down n (add_down m st) = add_down (m + n) st"
  by (simp add: add_down_def)

lemma add_0 [simp]: "add_up 0 st = st" "add_down 0 st = st"
  by (simp_all add: add_up_def add_down_def)

text \<open>What a half has copied: the chunks of its reads, in order, and their bytes are counted.\<close>

definition copied :: "way \<Rightarrow> bytes list \<Rightarrow> stats \<Rightarrow> bytes list \<Rightarrow> bytes list \<times> stats \<Rightarrow> bool" where
  "copied w out st cs x \<longleftrightarrow> x = (out @ cs, count w (length (concat cs)) st)"

lemma copied_Nil: "copied w out st [] (out, st)"
  by (simp add: copied_def count_def split: way.split)

lemma copied_Cons: "copied w (out @ [c]) (count w (length c) st) cs x \<Longrightarrow> copied w out st (c # cs) x"
  by (auto simp: copied_def count_def add_up_add_up add_down_add_down split: way.split)

text \<open>
  The contract of a copying loop: it takes one chunk after the other, and stops at a read that has no
  chunk or a chunk that cannot be written.
\<close>

definition stops_after :: "('r \<Rightarrow> bytes option) \<Rightarrow> (nat \<Rightarrow> bool) \<Rightarrow> nat \<Rightarrow> 'r list \<Rightarrow> bytes list \<Rightarrow> bool \<Rightarrow> bool" where
  "stops_after chunk ok n rs cs ended \<longleftrightarrow>
     length cs \<le> length rs \<and> map chunk (take (length cs) rs) = map Some cs
     \<and> (if ended then length cs < length rs \<and> (chunk (rs ! length cs) = None \<or> \<not> ok (n + length cs)) else length cs = length rs)"

locale copy_loop =
  fixes run :: "'r list \<Rightarrow> bytes list \<Rightarrow> stats \<Rightarrow> 'o option \<times> bytes list \<times> stats"
    and chunk :: "'r \<Rightarrow> bytes option" and ok :: "nat \<Rightarrow> bool" and w :: way
  assumes run_Nil: "run [] out st = (None, out, st)"
    and run_chunk: "chunk r = Some c \<Longrightarrow> ok (length out) \<Longrightarrow> run (r # rs) out st = run rs (out @ [c]) (count w (length c) st)"
    and run_stop: "chunk r = None \<or> \<not> ok (length out) \<Longrightarrow> \<exists>o'. run (r # rs) out st = (Some o', out, st)"
begin

lemma copies:
  "\<exists>cs. copied w out st cs (snd (run rs out st)) \<and> stops_after chunk ok (length out) rs cs (fst (run rs out st) \<noteq> None)"
proof (induction rs arbitrary: out st)
  case Nil
  then show ?case using copied_Nil by (intro exI [of _ "[]"]) (simp add: run_Nil stops_after_def)
next
  case (Cons r rs)
  show ?case
  proof (cases "chunk r = None \<or> \<not> ok (length out)")
    case True
    then obtain o' where "run (r # rs) out st = (Some o', out, st)" using run_stop by blast
    then show ?thesis using True copied_Nil by (intro exI [of _ "[]"]) (auto simp: stops_after_def)
  next
    case False
    then obtain c where c: "chunk r = Some c" and run: "run (r # rs) out st = run rs (out @ [c]) (count w (length c) st)"
      using run_chunk [of r _ out rs st] by auto
    obtain cs where "copied w (out @ [c]) (count w (length c) st) cs (snd (run (r # rs) out st))"
      and "stops_after chunk ok (length (out @ [c])) rs cs (fst (run (r # rs) out st) \<noteq> None)"
      using Cons.IH [of "out @ [c]"] unfolding run by blast
    then show ?thesis using c by (intro exI [of _ "c # cs"]) (auto simp: copied_Cons stops_after_def)
  qed
qed

end

definition read_chunk :: "bytes result \<Rightarrow> bytes option" where
  "read_chunk r = (case r of Inl _ \<Rightarrow> None | Inr c \<Rightarrow> if c = [] then None else Some c)"

interpretation pump_copy: copy_loop "pump w ok" read_chunk ok w for w ok
  by unfold_locales (auto simp: read_chunk_def split: sum.splits if_splits)

interpretation upload_copy: copy_loop "tunnel_upload ok" read_chunk ok Up for ok
  by unfold_locales (auto simp: read_chunk_def count_def split: sum.splits if_splits)

interpretation download_copy: copy_loop "tunnel_download ok" id ok Down for ok
proof
  show "\<exists>o'. tunnel_download ok (r # rs) out st = (Some o', out, st)" if "id r = None \<or> \<not> ok (length out)" for r rs out st
    using that by (cases r) auto
qed (auto simp: count_def)

text \<open>
  Every half of a relay copies in order: direct, through a connector or through the tunnel, what
  it has written is the chunks it read, without loss, repetition or reordering, up to the first read
  without a chunk or the first chunk that could not be written, and it stops nowhere else; the
  counters grow by exactly the bytes written.
\<close>

lemma relay_copies_in_order:
  "(\<exists>cs. copied w out st cs (snd (pump w ok rs out st))
        \<and> stops_after read_chunk ok (length out) rs cs (fst (pump w ok rs out st) \<noteq> None))
   \<and> (\<exists>cs. copied Up out st cs (snd (tunnel_upload ok rs out st))
        \<and> stops_after read_chunk ok (length out) rs cs (fst (tunnel_upload ok rs out st) \<noteq> None))
   \<and> (\<exists>cs. copied Down out st cs (snd (tunnel_download ok ds out st))
        \<and> stops_after id ok (length out) ds cs (fst (tunnel_download ok ds out st) \<noteq> None))"
  by (intro conjI pump_copy.copies upload_copy.copies download_copy.copies)

end
