(* ===== verification/Listener.thy ===== *)
theory Listener
  imports Relay
begin

text \<open>
  \<^verbatim>\<open>accept_clients\<close> of \<^verbatim>\<open>socks.rs\<close>, the loop behind every listener: a permit per client, errors that are
  waited out and errors that end the listener, and warnings at most every ten seconds.
\<close>

datatype accept_kind = ConnectionAborted | ConnectionReset | ConnectionRefused | Interrupted | WouldBlock | TimedOutKind
  | PermissionDeniedKind | OtherAcceptKind

datatype os_error = EMFILE | ENFILE | ENOBUFS | ENOMEM | OtherErrno

text \<open>The delay in milliseconds after which to accept again; None ends the listener.\<close>

definition accept_backoff :: "accept_kind \<Rightarrow> os_error option \<Rightarrow> nat option" where
  "accept_backoff kind raw =
     (if kind \<in> set [ConnectionAborted, ConnectionReset, ConnectionRefused, Interrupted, WouldBlock, TimedOutKind, PermissionDeniedKind]
      then Some 0
      else (case raw of
              Some EMFILE \<Rightarrow> Some 100 | Some ENFILE \<Rightarrow> Some 100 | Some ENOBUFS \<Rightarrow> Some 100 | Some ENOMEM \<Rightarrow> Some 100
            | _ \<Rightarrow> None))"

definition ACCEPT_WARN_EVERY :: nat where "ACCEPT_WARN_EVERY = 10000000000"

definition due :: "nat \<Rightarrow> nat option \<Rightarrow> nat \<Rightarrow> bool \<times> nat option" where
  "due now previous every =
     (case previous of
        Some at \<Rightarrow> if now - at < every then (False, previous) else (True, Some now)
      | None \<Rightarrow> (True, Some now))"

record acceptor =
  ap_free :: nat
  ap_running :: nat
  ap_unjoined :: nat
  ap_holding :: bool
  ap_failed :: bool
  ap_last_accept_warning :: "nat option"
  ap_last_limit_warning :: "nat option"
  ap_warned :: "nat list"

definition acceptor_start :: "nat \<Rightarrow> acceptor" where
  "acceptor_start most = \<lparr>ap_free = most, ap_running = 0, ap_unjoined = 0, ap_holding = False, ap_failed = False,
     ap_last_accept_warning = None, ap_last_limit_warning = None, ap_warned = []\<rparr>"

text \<open>
  What happens to the loop: its top at some instant, the branches of the \<^verbatim>\<open>select\<close> (a finished client
  joined, a permit), the end of the accept behind the permit, and clients that finish meanwhile. A
  listener that fails drops its tasks, and with them their permits.
\<close>

datatype accept_event = LoopTop nat | Joined | Permit | Accepted | AcceptFailed accept_kind "os_error option" nat | ClientDone

definition warn_limit :: "nat \<Rightarrow> acceptor \<Rightarrow> acceptor" where
  "warn_limit now s =
     (if ap_free s = 0 then
        (case due now (ap_last_limit_warning s) ACCEPT_WARN_EVERY of
           (w, l) \<Rightarrow> s\<lparr>ap_last_limit_warning := l, ap_warned := (if w then ap_warned s @ [now] else ap_warned s)\<rparr>)
      else s)"

definition accept_step :: "nat \<Rightarrow> accept_event \<Rightarrow> acceptor \<Rightarrow> acceptor" where
  "accept_step most ev s =
     (if ap_failed s then s
      else case ev of
        LoopTop now \<Rightarrow> if ap_holding s then s else warn_limit now s
      | Joined \<Rightarrow> if ap_holding s \<or> ap_unjoined s = 0 then s else s\<lparr>ap_unjoined := ap_unjoined s - 1\<rparr>
      | Permit \<Rightarrow> if ap_holding s \<or> ap_free s = 0 then s else s\<lparr>ap_free := ap_free s - 1, ap_holding := True\<rparr>
      | Accepted \<Rightarrow> if ap_holding s then s\<lparr>ap_holding := False, ap_running := ap_running s + 1\<rparr> else s
      | AcceptFailed kind raw now \<Rightarrow>
          if ap_holding s then
            (case accept_backoff kind raw of
               None \<Rightarrow> s\<lparr>ap_holding := False, ap_failed := True, ap_running := 0, ap_unjoined := 0, ap_free := most\<rparr>
             | Some _ \<Rightarrow> s\<lparr>ap_holding := False, ap_free := ap_free s + 1,
                            ap_last_accept_warning := snd (due now (ap_last_accept_warning s) ACCEPT_WARN_EVERY)\<rparr>)
          else s
      | ClientDone \<Rightarrow>
          if ap_running s = 0 then s
          else s\<lparr>ap_running := ap_running s - 1, ap_unjoined := ap_unjoined s + 1, ap_free := ap_free s + 1\<rparr>)"

definition permits_ok :: "nat \<Rightarrow> acceptor \<Rightarrow> bool" where
  "permits_ok most s \<longleftrightarrow> ap_free s + ap_running s + (if ap_holding s then 1 else 0) = most"

lemma permits_step: "permits_ok most s \<Longrightarrow> permits_ok most (accept_step most ev s)"
  by (auto simp: permits_ok_def accept_step_def warn_limit_def split: accept_event.splits option.splits prod.splits)

lemma permits_run: "permits_ok most s \<Longrightarrow> permits_ok most (fold (accept_step most) evs s)"
  by (induction evs arbitrary: s) (simp_all add: permits_step)

definition fatal :: "accept_event \<Rightarrow> bool" where
  "fatal ev = (case ev of AcceptFailed kind raw _ \<Rightarrow> accept_backoff kind raw = None | _ \<Rightarrow> False)"

lemma failed_step: "ap_failed (accept_step most ev s) \<Longrightarrow> ap_failed s \<or> fatal ev"
  by (auto simp: accept_step_def fatal_def warn_limit_def split: accept_event.splits option.splits prod.splits if_splits)

lemma failed_run: "ap_failed (fold (accept_step most) evs s) \<Longrightarrow> ap_failed s \<or> list_ex fatal evs"
  by (induction evs arbitrary: s) (auto dest: failed_step)

text \<open>
  C39. A listener serves at most as many clients as its limit at any time, whatever clients come, end
  or fail to be accepted, never loses a permit, so that a listener with room always accepts again, and
  stops only after an error that is neither of one connection nor a shortage of the system.
\<close>

theorem listener_limit:
  "ap_running (fold (accept_step most) events (acceptor_start most)) \<le> most
   \<and> ap_free (fold (accept_step most) events (acceptor_start most)) + ap_running (fold (accept_step most) events (acceptor_start most))
       + (if ap_holding (fold (accept_step most) events (acceptor_start most)) then 1 else 0) = most
   \<and> (if ap_failed (fold (accept_step most) events (acceptor_start most))
       then list_ex (\<lambda>ev. case ev of AcceptFailed kind raw now \<Rightarrow> accept_backoff kind raw = None | _ \<Rightarrow> False) events else True)"
proof -
  have "permits_ok most (fold (accept_step most) events (acceptor_start most))"
    by (rule permits_run) (simp add: permits_ok_def acceptor_start_def)
  moreover have "list_ex fatal events" if "ap_failed (fold (accept_step most) events (acceptor_start most))"
    using failed_run [OF that] by (simp add: acceptor_start_def)
  ultimately show ?thesis by (auto simp: permits_ok_def fatal_def [abs_def])
qed

end
