(* ===== verification/Netstack_Handles.thy ===== *)
theory Netstack_Handles
  imports Netstack_Invariant Fragment Ip_Text
begin

text \<open>
  What an application holds of the stack of \<^verbatim>\<open>aether/src/netstack.rs\<close>: the settings read when the stack
  is spawned, the connection handles with their sending, closing, splitting and dropping, and the
  handle that opens connections. A write is followed from the handle through the credit, the queue and
  the backlog into the flow.
\<close>

subsection \<open>Settings\<close>

definition TCP_KEEPALIVE :: nat where
  "TCP_KEEPALIVE = secs 15"

definition ORPHAN_LINGER :: nat where
  "ORPHAN_LINGER = secs 10"

definition env_secs :: "env \<Rightarrow> string \<Rightarrow> nat \<Rightarrow> nat" where
  "env_secs env name dflt =
     (let parsed = (case env name of None \<Rightarrow> None | Some v \<Rightarrow> parse_uint (2 ^ 64 - 1) (trim v))
      in secs (case parsed of None \<Rightarrow> dflt | Some v \<Rightarrow> if 0 < v then min v 86400 else dflt))"

definition tcp_keepalive :: "env \<Rightarrow> nat" where
  "tcp_keepalive env = env_secs env ''AETHER_TCP_KEEPALIVE_SECS'' (TCP_KEEPALIVE div 1000000000)"

text \<open>The multiplication of a \<^verbatim>\<open>Duration\<close> saturates at its largest value.\<close>

definition DURATION_MAX :: nat where
  "DURATION_MAX = secs (2 ^ 64 - 1) + 999999999"

definition tcp_dead_peer_timeout :: "env \<Rightarrow> nat" where
  "tcp_dead_peer_timeout env = min (tcp_keepalive env * 6) DURATION_MAX"

definition tcp_connect_timeout :: "env \<Rightarrow> nat" where
  "tcp_connect_timeout env = env_secs env ''AETHER_TCP_CONNECT_SECS'' 30"

text \<open>The milliseconds that are given to smoltcp.\<close>

definition smol_duration :: "nat \<Rightarrow> nat" where
  "smol_duration d = min (d div 1000000) (2 ^ 64 - 1)"

definition tcp_limits_from_env :: "env \<Rightarrow> tcp_limits" where
  "tcp_limits_from_env env =
     \<lparr>tl_connect = tcp_connect_timeout env, tl_keepalive = tcp_keepalive env,
      tl_dead_peer = tcp_dead_peer_timeout env, tl_orphan_linger = ORPHAN_LINGER\<rparr>"

definition strip_cidr :: "string \<Rightarrow> string" where
  "strip_cidr s = (case split_once (CHR ''/'') s of Some (ip, _) \<Rightarrow> ip | None \<Rightarrow> s)"

definition cidr_prefix :: "string \<Rightarrow> u8 option" where
  "cidr_prefix s =
     (case split_once (CHR ''/'') s of
        Some (_, p) \<Rightarrow> map_option of_nat (parse_uint 255 p)
      | None \<Rightarrow> None)"

definition parse_v4 :: "string \<Rightarrow> (ipv4_addr \<times> u8) option result" where
  "parse_v4 s =
     (if s = [] then Inr None
      else case parse_ipv4 (strip_cidr s) of
             None \<Rightarrow> Inl (Other (''bad ipv4 '' @ s))
           | Some ip \<Rightarrow> Inr (Some (ip, case cidr_prefix s of Some p \<Rightarrow> p | None \<Rightarrow> 32)))"

definition parse_v6 :: "string \<Rightarrow> (ipv6_addr \<times> u8) option result" where
  "parse_v6 s =
     (if s = [] then Inr None
      else case parse_ipv6 (strip_cidr s) of
             None \<Rightarrow> Inl (Other (''bad ipv6 '' @ s))
           | Some ip \<Rightarrow> Inr (Some (ip, case cidr_prefix s of Some p \<Rightarrow> p | None \<Rightarrow> 128)))"

text \<open>The stack that is spawned for the two address texts; the handle is the sender of \<open>rs_cmd_rx\<close>.\<close>

definition spawn_with_limits :: "'k smol \<Rightarrow> tuning \<Rightarrow> nat \<Rightarrow> 'k \<Rightarrow> string \<Rightarrow> string \<Rightarrow> usize \<Rightarrow> bytes chan \<Rightarrow> bytes chan \<Rightarrow>
    tcp_limits \<Rightarrow> 'k run_state result" where
  "spawn_with_limits ops t now k ipv4 ipv6 mtu inbound_rx outbound_tx lims =
     res_bind (parse_v4 ipv4) (\<lambda>v4. res_bind (parse_v6 ipv6) (\<lambda>v6.
       Inr (netstack_start ops t lims now mtu v4 v6 k inbound_rx outbound_tx)))"

definition spawn :: "'k smol \<Rightarrow> tuning \<Rightarrow> nat \<Rightarrow> 'k \<Rightarrow> env \<Rightarrow> string \<Rightarrow> string \<Rightarrow> usize \<Rightarrow> bytes chan \<Rightarrow> bytes chan \<Rightarrow>
    'k run_state result" where
  "spawn ops t now k env ipv4 ipv6 mtu inbound_rx outbound_tx =
     spawn_with_limits ops t now k ipv4 ipv6 mtu inbound_rx outbound_tx (tcp_limits_from_env env)"

subsection \<open>Opening connections\<close>

text \<open>
  A sender that waits for room is followed poll by poll: \<open>None\<close> says that it still waits. The answer
  channel of an opener: nothing yet, dropped by the stack, or answered. \<open>open_with\<close> is the poll that tries
  to place the command, with what the answer channel holds once the command is placed.
\<close>

definition send_poll :: "'a chan \<Rightarrow> 'a \<Rightarrow> unit result option \<times> 'a chan" where
  "send_poll c x =
     (case try_send c x of
        (Sent, c') \<Rightarrow> (Some (Inr ()), c')
      | (Full, c') \<Rightarrow> (None, c')
      | (Closed, c') \<Rightarrow> (Some (Inl (Other ''netstack closed'')), c'))"

datatype 'a oneshot = NotYet | Abandoned | Answered "string + 'a"

definition oneshot_poll :: "'a oneshot \<Rightarrow> 'a result option" where
  "oneshot_poll r =
     (case r of
        NotYet \<Rightarrow> None
      | Abandoned \<Rightarrow> Some (Inl (Other ''netstack dropped''))
      | Answered (Inl e) \<Rightarrow> Some (Inl (Other e))
      | Answered (Inr c) \<Rightarrow> Some (Inr c))"

definition open_with :: "cmd \<Rightarrow> cmd chan \<Rightarrow> 'a oneshot \<Rightarrow> 'a result option \<times> cmd chan" where
  "open_with c cmd_tx resp =
     (case send_poll cmd_tx c of
        (None, tx) \<Rightarrow> (None, tx)
      | (Some (Inl e), tx) \<Rightarrow> (Some (Inl e), tx)
      | (Some (Inr _), tx) \<Rightarrow> (oneshot_poll resp, tx))"

definition open_tcp :: "cmd chan \<Rightarrow> socket_addr \<Rightarrow> 'a oneshot \<Rightarrow> 'a result option \<times> cmd chan" where
  "open_tcp cmd_tx dst resp = open_with (OpenTcp dst False) cmd_tx resp"

definition open_udp :: "cmd chan \<Rightarrow> 'a oneshot \<Rightarrow> 'a result option \<times> cmd chan" where
  "open_udp cmd_tx resp = open_with (OpenUdp False) cmd_tx resp"

definition set_addrs :: "cmd chan \<Rightarrow> (ipv4_addr \<times> u8) option \<Rightarrow> (ipv6_addr \<times> u8) option \<Rightarrow> unit result option \<times> cmd chan" where
  "set_addrs cmd_tx v4 v6 = send_poll cmd_tx (SetAddrs v4 v6)"

subsection \<open>Connection handles\<close>

text \<open>
  The receiving end a handle owns: that of flow \<open>i\<close>, or the spare one that \<^verbatim>\<open>into_split\<close> leaves behind.
\<close>

datatype rx_end = FlowRx nat | SpareRx

record tcp_conn =
  tc_id :: nat
  tc_from_stack :: rx_end
  tc_split :: bool

record tcp_sender =
  ts_id :: nat

record udp_conn =
  uc_id :: nat
  uc_from_stack :: rx_end
  uc_split :: bool

record udp_sender =
  us_id :: nat

definition drop_tcp_rx :: "rx_end \<Rightarrow> 'k netstack \<Rightarrow> 'k netstack" where
  "drop_tcp_rx rx s =
     (case rx of
        SpareRx \<Rightarrow> s
      | FlowRx i \<Rightarrow>
          (case ns_tcp s i of
             None \<Rightarrow> s
           | Some st \<Rightarrow> upd_tcp i (st\<lparr>tf_to_app := (tf_to_app st)\<lparr>ch_rx_closed := True\<rparr>\<rparr>) s))"

definition drop_udp_rx :: "rx_end \<Rightarrow> 'k netstack \<Rightarrow> 'k netstack" where
  "drop_udp_rx rx s =
     (case rx of
        SpareRx \<Rightarrow> s
      | FlowRx i \<Rightarrow>
          (case ns_udp s i of
             None \<Rightarrow> s
           | Some st \<Rightarrow>
               s\<lparr>ns_udp := (ns_udp s)(i \<mapsto> st\<lparr>uf_to_app := (uf_to_app st)\<lparr>ch_rx_closed := True\<rparr>\<rparr>)\<rparr>))"

definition tcp_into_split :: "tcp_conn \<Rightarrow> tcp_sender \<times> rx_end \<times> tcp_conn" where
  "tcp_into_split c =
     (let c = c\<lparr>tc_split := True\<rparr>
      in (\<lparr>ts_id = tc_id c\<rparr>, tc_from_stack c, c\<lparr>tc_from_stack := SpareRx\<rparr>))"

definition drop_tcp_conn :: "tcp_conn \<Rightarrow> 'k netstack \<Rightarrow> 'k netstack" where
  "drop_tcp_conn c s =
     (let s = (if \<not> tc_split c then drop_conn (TcpClose (tc_id c)) s else s)
      in drop_tcp_rx (tc_from_stack c) s)"

definition drop_tcp_sender :: "tcp_sender \<Rightarrow> 'k netstack \<Rightarrow> 'k netstack" where
  "drop_tcp_sender c s = drop_conn (TcpClose (ts_id c)) s"

definition udp_into_split :: "udp_conn \<Rightarrow> udp_sender \<times> rx_end \<times> udp_conn" where
  "udp_into_split c =
     (let c = c\<lparr>uc_split := True\<rparr>
      in (\<lparr>us_id = uc_id c\<rparr>, uc_from_stack c, c\<lparr>uc_from_stack := SpareRx\<rparr>))"

definition drop_udp_conn :: "udp_conn \<Rightarrow> 'k netstack \<Rightarrow> 'k netstack" where
  "drop_udp_conn c s =
     (let s = (if \<not> uc_split c then drop_conn (UdpClose (uc_id c)) s else s)
      in drop_udp_rx (uc_from_stack c) s)"

definition drop_udp_sender :: "udp_sender \<Rightarrow> 'k netstack \<Rightarrow> 'k netstack" where
  "drop_udp_sender c s = drop_conn (UdpClose (us_id c)) s"

text \<open>
  Sending on a TCP handle: first the reservation, which looks at the credit once per round until its
  deadline, then the queue. \<open>Reserving\<close> and \<open>Queueing\<close> are the two places where the future waits.
\<close>

datatype send_state = Reserving nat | Queueing | Finished "unit result"

definition queue_poll :: "nat \<Rightarrow> bytes \<Rightarrow> 'k netstack \<Rightarrow> send_state \<times> 'k netstack" where
  "queue_poll i data s =
     (case send_poll (ns_data_in s) (TcpData i data) of
        (None, c) \<Rightarrow> (Queueing, s\<lparr>ns_data_in := c\<rparr>)
      | (Some r, c) \<Rightarrow> (Finished r, s\<lparr>ns_data_in := c\<rparr>))"

definition tcp_send_start :: "nat \<Rightarrow> send_state" where
  "tcp_send_start now = Reserving (now + CREDIT_WAIT_MAX)"

definition tcp_send_poll :: "nat \<Rightarrow> nat \<Rightarrow> bytes \<Rightarrow> send_state \<Rightarrow> 'k netstack \<Rightarrow> send_state \<times> 'k netstack" where
  "tcp_send_poll now i data w s =
     (case w of
        Reserving deadline \<Rightarrow>
          (case reserve_round deadline now (length data) (ns_credits s i) of
             None \<Rightarrow> (Reserving deadline, s)
           | Some c \<Rightarrow> queue_poll i data (s\<lparr>ns_credits := (ns_credits s)(i := c)\<rparr>))
      | Queueing \<Rightarrow> queue_poll i data s
      | Finished r \<Rightarrow> (Finished r, s))"

text \<open>The other requests of a handle; the result of \<^verbatim>\<open>close\<close> is ignored.\<close>

definition close_poll :: "data_in \<Rightarrow> 'k netstack \<Rightarrow> bool \<times> 'k netstack" where
  "close_poll msg s = (case send_poll (ns_data_in s) msg of (r, c) \<Rightarrow> (r \<noteq> None, s\<lparr>ns_data_in := c\<rparr>))"

definition udp_send_poll :: "nat \<Rightarrow> socket_addr \<Rightarrow> bytes \<Rightarrow> 'k netstack \<Rightarrow> unit result option \<times> 'k netstack" where
  "udp_send_poll i dst data s =
     (case send_poll (ns_data_in s) (UdpData i dst data) of (r, c) \<Rightarrow> (r, s\<lparr>ns_data_in := c\<rparr>))"

subsection \<open>What the settings guarantee\<close>

lemma env_secs_range:
  "0 < dflt \<Longrightarrow> dflt \<le> 86400 \<Longrightarrow> secs 1 \<le> env_secs env name dflt \<and> env_secs env name dflt \<le> secs 86400"
  by (auto simp: env_secs_def secs_def Let_def split: option.splits)

text \<open>
  Whatever the environment holds, every lifetime is positive and at most a day, the connection to a
  silent peer is given up exactly six keepalives after it went silent (the product never saturates),
  and smoltcp gets the whole number of milliseconds.
\<close>

lemma tcp_limits_sane:
  "secs 1 \<le> tl_connect (tcp_limits_from_env env) \<and> tl_connect (tcp_limits_from_env env) \<le> secs 86400 \<and>
   secs 1 \<le> tl_keepalive (tcp_limits_from_env env) \<and> tl_keepalive (tcp_limits_from_env env) \<le> secs 86400 \<and>
   tl_dead_peer (tcp_limits_from_env env) = 6 * tl_keepalive (tcp_limits_from_env env) \<and>
   1000000 * smol_duration (tl_dead_peer (tcp_limits_from_env env)) = tl_dead_peer (tcp_limits_from_env env)"
proof -
  have k: "secs 1 \<le> tcp_keepalive env" "tcp_keepalive env \<le> secs 86400"
    using env_secs_range [of 15 env "''AETHER_TCP_KEEPALIVE_SECS''"]
    by (simp_all add: tcp_keepalive_def TCP_KEEPALIVE_def secs_def)
  have c: "secs 1 \<le> tcp_connect_timeout env" "tcp_connect_timeout env \<le> secs 86400"
    using env_secs_range [of 30 env "''AETHER_TCP_CONNECT_SECS''"] by (simp_all add: tcp_connect_timeout_def)
  obtain n where n: "tcp_keepalive env = secs n" by (auto simp: tcp_keepalive_def env_secs_def Let_def)
  have d: "tcp_dead_peer_timeout env = secs (6 * n)"
    using k n by (simp add: tcp_dead_peer_timeout_def DURATION_MAX_def secs_def)
  have "n \<le> 86400" using k n by (simp add: secs_def)
  then have "1000000 * smol_duration (secs (6 * n)) = secs (6 * n)"
    by (simp add: smol_duration_def secs_def)
  with k c n d show ?thesis by (simp add: tcp_limits_from_env_def secs_def)
qed

text \<open>A spawned stack starts in a state from which the invariant of the loop is kept.\<close>

lemma spawn_reaches:
  assumes "spawn ops t now k env ipv4 ipv6 mtu inb out = Inr r"
  shows "netstack_reach poll ops fl t ord r"
  using assms by (auto simp: spawn_def spawn_with_limits_def res_bind_Inr_iff intro: netstack_reach.start)

subsection \<open>Splitting and dropping\<close>

lemma drop_conn_simps [simp]:
  "ns_tcp (drop_conn m s) = ns_tcp s" "ns_udp (drop_conn m s) = ns_udp s"
  "ns_credits (drop_conn m s) = ns_credits s"
  by (simp_all add: drop_conn_def)

text \<open>
  A connection that is split gives its identity to the sender and its receiving end to the caller; what
  is left of it closes nothing when it is dropped. An unsplit connection closes both directions.
\<close>

lemma split_moves_ownership:
  "(case tcp_into_split c of (snd_half, rx, shell) \<Rightarrow>
      ts_id snd_half = tc_id c \<and> rx = tc_from_stack c \<and> drop_tcp_conn shell s = s \<and>
      drop_tcp_sender snd_half s = drop_conn (TcpClose (tc_id c)) s) \<and>
   (case udp_into_split u of (snd_half, rx, shell) \<Rightarrow>
      us_id snd_half = uc_id u \<and> rx = uc_from_stack u \<and> drop_udp_conn shell s = s \<and>
      drop_udp_sender snd_half s = drop_conn (UdpClose (uc_id u)) s)"
  by (simp add: tcp_into_split_def udp_into_split_def drop_tcp_conn_def drop_udp_conn_def drop_tcp_rx_def
      drop_udp_rx_def drop_tcp_sender_def drop_udp_sender_def Let_def)

text \<open>
  The closing message of a dropped handle is lost when the queue is full. The flow is found all the same
  by the next pass when the receiving end went with the handle: for a datagram flow that pass removes it.
\<close>

lemma deliver_udp_closed: "ch_rx_closed c \<Longrightarrow> 0 < n \<Longrightarrow> deliver_udp ops n k h c = (Closed, k, c)"
  by (cases n) (simp_all add: try_reserve_def)

lemma dropped_udp_flow_reaped:
  assumes "ns_udp s (uc_id c) = Some u" and "\<not> uc_split c" and "uc_from_stack c = FlowRx (uc_id c)"
  shows "ns_udp (snd (service_udp_flow ops (uc_id c) (drop_udp_conn c s))) (uc_id c) = None"
  using assms
  by (simp add: drop_udp_conn_def drop_udp_rx_def service_udp_flow_def deliver_udp_closed MAX_RECV_CHUNKS_def)

subsection \<open>From a handle into the flow\<close>

text \<open>
  One application writes on flow \<open>i\<close> while the stack takes messages from the queue and other flows send
  theirs. \<open>al_accepted\<close> records the bytes of the writes that returned without error.
\<close>

record 'k app_link =
  al_stack :: "'k netstack"
  al_backlog :: backlog
  al_write :: "(send_state \<times> bytes) option"
  al_accepted :: bytes

datatype link_event =
    StartWrite nat bytes
  | PollWrite nat
  | CloseHandle
  | DropHandle
  | OtherItem data_in
  | TakeQueue nat
  | TakeBacklog

definition link_poll :: "nat \<Rightarrow> nat \<Rightarrow> send_state \<Rightarrow> bytes \<Rightarrow> 'k app_link \<Rightarrow> 'k app_link" where
  "link_poll i now w data l =
     (case tcp_send_poll now i data w (al_stack l) of
        (Finished r, s) \<Rightarrow>
          l\<lparr>al_stack := s, al_write := None,
            al_accepted := al_accepted l @ (case r of Inr _ \<Rightarrow> data | Inl _ \<Rightarrow> [])\<rparr>
      | (w', s) \<Rightarrow> l\<lparr>al_stack := s, al_write := Some (w', data)\<rparr>)"

definition link_step :: "'k smol \<Rightarrow> tuning \<Rightarrow> nat \<Rightarrow> 'k app_link \<Rightarrow> link_event \<Rightarrow> 'k app_link" where
  "link_step ops t i l e =
     (case e of
        StartWrite now data \<Rightarrow>
          (case al_write l of None \<Rightarrow> link_poll i now (tcp_send_start now) data l | Some _ \<Rightarrow> l)
      | PollWrite now \<Rightarrow>
          (case al_write l of None \<Rightarrow> l | Some (w, data) \<Rightarrow> link_poll i now w data l)
      | CloseHandle \<Rightarrow> l\<lparr>al_stack := snd (close_poll (TcpClose i) (al_stack l))\<rparr>
      | DropHandle \<Rightarrow> l\<lparr>al_stack := drop_tcp_sender \<lparr>ts_id = i\<rparr> (al_stack l)\<rparr>
      | OtherItem d \<Rightarrow> if data_in_id d = i then l else l\<lparr>al_stack := drop_conn d (al_stack l)\<rparr>
      | TakeQueue cap \<Rightarrow>
          (case drain_app_data ops t (al_stack l) (al_backlog l) cap of
             (_, s, b) \<Rightarrow> l\<lparr>al_stack := s, al_backlog := b\<rparr>)
      | TakeBacklog \<Rightarrow>
          (case drain_backlog ops t (al_stack l) (al_backlog l) of
             (s, b) \<Rightarrow> l\<lparr>al_stack := s, al_backlog := b\<rparr>))"

text \<open>
  What the stack holds for a flow and has not given to its socket, oldest first, and the bytes of a
  write that has its credit but not its place in the queue.
\<close>

definition stream_held :: "nat \<Rightarrow> 'k netstack \<Rightarrow> backlog \<Rightarrow> bytes option" where
  "stream_held i s b =
     map_option (\<lambda>p. p @ waiting i (bl_queue b) @ waiting i (ch_items (ns_data_in s))) (tcp_pending s i)"

definition in_flight :: "(send_state \<times> bytes) option \<Rightarrow> nat" where
  "in_flight w = (case w of Some (Queueing, data) \<Rightarrow> length data | _ \<Rightarrow> 0)"

lemma stream_held_queue:
  "stream_held i (s\<lparr>ns_data_in := c\<rparr>) b =
     map_option (\<lambda>p. p @ waiting i (bl_queue b) @ waiting i (ch_items c)) (tcp_pending s i)"
  by (simp add: stream_held_def tcp_pending_def)

lemma send_poll_spec:
  assumes "send_poll c x = (r, c')"
  shows "ch_items c' = ch_items c @ (if r = Some (Inr ()) then [x] else []) \<and> ch_rx_closed c' = ch_rx_closed c \<and>
    (\<not> ch_rx_closed c \<longrightarrow> r \<in> {None, Some (Inr ())}) \<and> (0 < chan_room c \<longrightarrow> r = Some (Inr ()))"
  using assms by (auto simp: send_poll_def try_send_def chan_room_def split: if_splits)

lemma ingest_all_stream:
  assumes "backlog_ok b" and "tcp_pending s i = Some p"
    and "foldl (\<lambda>(s, b) d. ingest ops t s b d) (s, b) ds = (s', b')"
  shows "backlog_ok b' \<and> (\<exists>p'. tcp_pending s' i = Some p' \<and>
    p' @ waiting i (bl_queue b') = p @ waiting i (bl_queue b) @ waiting i ds)"
  using assms
proof (induction ds arbitrary: s b p)
  case (Cons d ds)
  obtain s1 b1 where 1: "ingest ops t s b d = (s1, b1)" by (cases "ingest ops t s b d")
  then obtain p1 where "backlog_ok b1" "tcp_pending s1 i = Some p1"
    "p1 @ waiting i (bl_queue b1) = p @ waiting i (bl_queue b) @ payload_of i d"
    using stack_sink.ingest_stream [of ops t s b d s1 b1 i p] Cons.prems(1,2) by (auto simp: ingest_def)
  then show ?case using Cons.IH [of b1 s1 p1] Cons.prems(3) 1 by auto
qed auto

lemma try_handle_data_credits: "ns_credits (snd (try_handle_data ops t s d)) = ns_credits s"
  by (auto simp: try_handle_data_def Let_def split: data_in.splits option.splits)

lemma ingest_credits: "ns_credits (fst (ingest ops t s b d)) = ns_credits s"
  using try_handle_data_credits [of ops t s d]
  by (auto simp: ingest_def ingest_with_def split: prod.splits option.splits)

lemma ingest_all_credits:
  "ns_credits (fst (foldl (\<lambda>(s, b) d. ingest ops t s b d) sb ds)) = ns_credits (fst sb)"
proof (induction ds arbitrary: sb)
  case (Cons d ds)
  then show ?case using ingest_credits [of ops t "fst sb" "snd sb" d] by (simp add: case_prod_beta)
qed simp

lemma drain_queue_keeps:
  "ns_credits (fst (drain_queue (try_handle_data ops t) s q kept)) = ns_credits s \<and>
   ns_data_in (fst (drain_queue (try_handle_data ops t) s q kept)) = ns_data_in s"
proof (induction q arbitrary: s kept)
  case (Cons d q)
  have "ns_data_in (snd (try_handle_data ops t s d)) = ns_data_in s"
    by (auto simp: try_handle_data_def Let_def split: data_in.splits option.splits)
  then show ?case using Cons try_handle_data_credits [of ops t s d]
    by (auto split: prod.splits option.splits)
qed simp

lemma take_queue_stream:
  assumes "drain_app_data ops t s b cap = (r, s', b')" and "backlog_ok b" and "stream_held i s b = Some h"
  shows "backlog_ok b' \<and> stream_held i s' b' = Some h \<and> ns_credits s' = ns_credits s \<and>
    ch_rx_closed (ns_data_in s') = ch_rx_closed (ns_data_in s)"
proof -
  obtain p where p: "tcp_pending s i = Some p"
    and h: "h = p @ waiting i (bl_queue b) @ waiting i (ch_items (ns_data_in s))"
    using assms(3) by (auto simp: stream_held_def)
  obtain m c s1 rx' where d: "drain_with (\<lambda>(s, b). bl_bytes b < MAX_BACKLOG_BYTES)
      (\<lambda>(s, b) d. ingest ops t s b d) cap 0 (s, b) (ns_data_in s) = ((m, c), (s1, b'), rx')"
    and s': "s' = s1\<lparr>ns_data_in := rx'\<rparr>"
    using assms(1) by (cases r) (auto simp: drain_app_data_def split: prod.splits)
  obtain k where f: "foldl (\<lambda>(s, b) d. ingest ops t s b d) (s, b) (take k (ch_items (ns_data_in s))) = (s1, b')"
    and rx: "rx' = (ns_data_in s)\<lparr>ch_items := drop k (ch_items (ns_data_in s))\<rparr>"
    using drain_with_spec [OF d] by auto
  obtain p' where p': "backlog_ok b'" "tcp_pending s1 i = Some p'"
    "p' @ waiting i (bl_queue b') = p @ waiting i (bl_queue b) @ waiting i (take k (ch_items (ns_data_in s)))"
    using ingest_all_stream [OF assms(2) p f] by blast
  have "waiting i (ch_items (ns_data_in s)) =
      waiting i (take k (ch_items (ns_data_in s))) @ waiting i (drop k (ch_items (ns_data_in s)))"
    using waiting_simps(3) [of i "take k (ch_items (ns_data_in s))" "drop k (ch_items (ns_data_in s))"] by simp
  then have "(p' @ waiting i (bl_queue b')) @ waiting i (ch_items rx') = h"
    unfolding p'(3) h rx by simp
  then have "stream_held i s' b' = Some h" using p'(2) by (simp only: s' stream_held_queue) simp
  then show ?thesis using p'(1) s' rx f ingest_all_credits [of ops t "(s, b)" "take k (ch_items (ns_data_in s))"]
    by simp
qed

lemma take_backlog_stream:
  assumes "drain_backlog ops t s b = (s', b')" and "backlog_ok b" and "stream_held i s b = Some h"
  shows "backlog_ok b' \<and> stream_held i s' b' = Some h \<and> ns_credits s' = ns_credits s \<and> ns_data_in s' = ns_data_in s"
proof (cases "bl_queue b = []")
  case True
  then show ?thesis using assms by (auto simp: drain_backlog_def)
next
  case False
  then have d: "drain_queue (try_handle_data ops t) s (bl_queue b) backlog_new = (s', b')"
    using assms(1) by (simp add: drain_backlog_def)
  obtain p where p: "tcp_pending s i = Some p"
    and h: "h = p @ waiting i (bl_queue b) @ waiting i (ch_items (ns_data_in s))"
    using assms(3) by (auto simp: stream_held_def)
  show ?thesis
    using stack_sink.drain_queue_stream [OF d backlog_ok_new p] h
      drain_queue_keeps [of ops t s "bl_queue b" backlog_new] d
    by (auto simp: stream_held_def)
qed

text \<open>The invariant of the link: \<open>h0\<close> and \<open>sent0\<close> are what the flow held and had sent at the start.\<close>

definition link_inv :: "nat \<Rightarrow> bytes \<Rightarrow> nat \<Rightarrow> 'k app_link \<Rightarrow> bool" where
  "link_inv i h0 sent0 l \<longleftrightarrow>
     backlog_ok (al_backlog l) \<and> \<not> ch_rx_closed (ns_data_in (al_stack l)) \<and>
     stream_held i (al_stack l) (al_backlog l) = Some (h0 @ al_accepted l) \<and>
     (\<forall>r data. al_write l \<noteq> Some (Finished r, data)) \<and>
     fc_sent (ns_credits (al_stack l) i) = sent0 + length (al_accepted l) + in_flight (al_write l)"

lemma stream_held_credits [simp]: "stream_held i (s\<lparr>ns_credits := c\<rparr>) b = stream_held i s b"
  by (simp add: stream_held_def tcp_pending_def)

lemma queue_poll_spec:
  assumes "queue_poll i data s = (w, s')" and "\<not> ch_rx_closed (ns_data_in s)" and "stream_held i s b = Some h"
  shows "ns_credits s' = ns_credits s \<and> \<not> ch_rx_closed (ns_data_in s') \<and>
    (w = Queueing \<and> stream_held i s' b = Some h \<or>
     w = Finished (Inr ()) \<and> stream_held i s' b = Some (h @ data))"
proof -
  obtain r c where r: "send_poll (ns_data_in s) (TcpData i data) = (r, c)"
    by (cases "send_poll (ns_data_in s) (TcpData i data)")
  from send_poll_spec [OF r] assms(2) have "r \<in> {None, Some (Inr ())}" by simp
  with assms r send_poll_spec [OF r] show ?thesis
    by (auto simp: queue_poll_def stream_held_queue) (auto simp: stream_held_def payload_of_def)
qed

lemma link_poll_inv:
  assumes "link_inv i h0 sent0 (l\<lparr>al_write := Some (w, data)\<rparr>)"
  shows "link_inv i h0 sent0 (link_poll i now w data l)"
proof -
  let ?h = "h0 @ al_accepted l"
  have i: "backlog_ok (al_backlog l)" "\<not> ch_rx_closed (ns_data_in (al_stack l))"
    "stream_held i (al_stack l) (al_backlog l) = Some ?h"
    "fc_sent (ns_credits (al_stack l) i) = sent0 + length (al_accepted l) + in_flight (Some (w, data))"
    using assms(1) by (simp_all add: link_inv_def)
  have place: "link_inv i h0 sent0
      (case queue_poll i data s of
         (Finished r, s') \<Rightarrow> l\<lparr>al_stack := s', al_write := None,
            al_accepted := al_accepted l @ (case r of Inr _ \<Rightarrow> data | Inl _ \<Rightarrow> [])\<rparr>
       | (w', s') \<Rightarrow> l\<lparr>al_stack := s', al_write := Some (w', data)\<rparr>)"
    if "\<not> ch_rx_closed (ns_data_in s)" "stream_held i s (al_backlog l) = Some ?h"
      "fc_sent (ns_credits s i) = sent0 + length (al_accepted l) + length data" for s
  proof -
    obtain w' s' where q: "queue_poll i data s = (w', s')" by (cases "queue_poll i data s")
    from queue_poll_spec [OF q that(1,2)] q that(3) i(1) show ?thesis
      by (auto simp: link_inv_def in_flight_def)
  qed
  show ?thesis
  proof (cases w)
    case (Reserving dl)
    show ?thesis
    proof (cases "reserve_round dl now (length data) (ns_credits (al_stack l) i)")
      case None
      with Reserving i show ?thesis by (simp add: link_poll_def tcp_send_poll_def link_inv_def in_flight_def)
    next
      case (Some c)
      then have "fc_sent c = sent0 + length (al_accepted l) + length data"
        using i(4) Reserving by (auto simp: reserve_round_def in_flight_def split: if_splits)
      with place [of "(al_stack l)\<lparr>ns_credits := (ns_credits (al_stack l))(i := c)\<rparr>"] Some Reserving i(2,3)
      show ?thesis by (simp add: link_poll_def tcp_send_poll_def)
    qed
  next
    case Queueing
    with place [of "al_stack l"] i show ?thesis by (simp add: link_poll_def tcp_send_poll_def in_flight_def)
  next
    case (Finished r)
    with assms show ?thesis by (simp add: link_inv_def)
  qed
qed

lemma link_message_inv:
  assumes "link_inv i h0 sent0 l" and "payload_of i d = []"
    and "ch_items c = ch_items (ns_data_in (al_stack l)) \<or> ch_items c = ch_items (ns_data_in (al_stack l)) @ [d]"
    and "ch_rx_closed c = ch_rx_closed (ns_data_in (al_stack l))"
  shows "link_inv i h0 sent0 (l\<lparr>al_stack := (al_stack l)\<lparr>ns_data_in := c\<rparr>\<rparr>)"
  using assms by (auto simp: link_inv_def stream_held_queue) (auto simp: stream_held_def)

lemma link_drop_inv:
  "link_inv i h0 sent0 l \<Longrightarrow> payload_of i d = [] \<Longrightarrow>
     link_inv i h0 sent0 (l\<lparr>al_stack := drop_conn d (al_stack l)\<rparr>)"
  unfolding drop_conn_def by (rule link_message_inv) (auto simp: try_send_def)

lemma link_step_inv:
  assumes "link_inv i h0 sent0 l"
  shows "link_inv i h0 sent0 (link_step ops t i l e)"
proof (cases e)
  case (StartWrite now data)
  then show ?thesis using assms link_poll_inv [where i = i and l = l and w = "tcp_send_start now" and data = data and now = now]
    by (auto simp: link_step_def link_inv_def in_flight_def tcp_send_start_def split: option.splits)
next
  case (PollWrite now)
  show ?thesis
  proof (cases "al_write l")
    case None
    with PollWrite assms show ?thesis by (simp add: link_step_def)
  next
    case (Some wd)
    obtain w data where wd: "wd = (w, data)" by (cases wd)
    have "l\<lparr>al_write := Some (w, data)\<rparr> = l" using Some wd by simp
    with PollWrite Some wd assms link_poll_inv [where i = i and l = l and w = w and data = data and now = now] show ?thesis
      by (simp add: link_step_def)
  qed
next
  case CloseHandle
  obtain r c where c: "send_poll (ns_data_in (al_stack l)) (TcpClose i) = (r, c)"
    by (cases "send_poll (ns_data_in (al_stack l)) (TcpClose i)")
  show ?thesis using link_message_inv [OF assms, of "TcpClose i" c] send_poll_spec [OF c] CloseHandle c
    by (auto simp: link_step_def close_poll_def payload_of_def)
next
  case DropHandle
  then show ?thesis using link_drop_inv [OF assms, of "TcpClose i"]
    by (simp add: link_step_def drop_tcp_sender_def payload_of_def)
next
  case (OtherItem d)
  then show ?thesis using assms link_drop_inv [OF assms, of d] by (simp add: link_step_def payload_of_other)
next
  case (TakeQueue cap)
  obtain r s b where d: "drain_app_data ops t (al_stack l) (al_backlog l) cap = (r, s, b)"
    by (cases "drain_app_data ops t (al_stack l) (al_backlog l) cap")
  show ?thesis using assms TakeQueue d take_queue_stream [OF d, of i] by (simp add: link_step_def link_inv_def)
next
  case TakeBacklog
  obtain s b where d: "drain_backlog ops t (al_stack l) (al_backlog l) = (s, b)"
    by (cases "drain_backlog ops t (al_stack l) (al_backlog l)")
  show ?thesis using assms TakeBacklog d take_backlog_stream [OF d, of i] by (simp add: link_step_def link_inv_def)
qed

lemma link_run_inv: "link_inv i h0 sent0 l \<Longrightarrow> link_inv i h0 sent0 (foldl (link_step ops t i) l es)"
  by (induction es arbitrary: l) (simp_all add: link_step_inv)

lemma due_write_finishes:
  assumes "al_write l = Some (w, data)" and "0 < chan_room (ns_data_in (al_stack l))"
    and "case w of Reserving deadline \<Rightarrow> deadline \<le> now | _ \<Rightarrow> True"
  shows "al_write (link_step ops t i l (PollWrite now)) = None"
proof -
  have f: "\<exists>r s'. queue_poll i data s = (Finished r, s')" if "0 < chan_room (ns_data_in s)" for s :: "'a netstack"
    using that by (auto simp: queue_poll_def send_poll_def try_send_def chan_room_def split: if_splits)
  show ?thesis
    using assms f [of "al_stack l"]
      f [of "(al_stack l)\<lparr>ns_credits := (ns_credits (al_stack l))
          (i := (ns_credits (al_stack l) i)\<lparr>fc_sent := fc_sent (ns_credits (al_stack l) i) + length data\<rparr>)\<rparr>"]
    by (auto simp: link_step_def link_poll_def tcp_send_poll_def reserve_round_def split: send_state.splits)
qed

definition app_link_new :: "'k netstack \<Rightarrow> backlog \<Rightarrow> 'k app_link" where
  "app_link_new s b = \<lparr>al_stack = s, al_backlog = b, al_write = None, al_accepted = []\<rparr>"

text \<open>
  C13. From the handle to the flow: however the writes of an application interleave with the messages of
  other flows, with closing and dropping handles and with the stack taking from its queue and its
  backlog, the flow holds exactly what it held before followed by the bytes of the writes that returned
  without error, in the order of the writes; the credit has been charged exactly those bytes and the ones of
  a write that still waits for the queue; and a write returns as soon as it is polled past its deadline,
  or past the credit, with room in the queue.
\<close>

theorem handle_writes_reach_flow:
  assumes "backlog_ok b" and "stream_held i s b = Some h" and "\<not> ch_rx_closed (ns_data_in s)"
    and "l = foldl (link_step ops t i) (app_link_new s b) es"
  shows "stream_held i (al_stack l) (al_backlog l) = Some (h @ al_accepted l) \<and>
    fc_sent (ns_credits (al_stack l) i) =
      fc_sent (ns_credits s i) + length (al_accepted l) + in_flight (al_write l) \<and>
    (case al_write l of
       None \<Rightarrow> True
     | Some (w, data) \<Rightarrow>
         0 < chan_room (ns_data_in (al_stack l)) \<and> (case w of Reserving deadline \<Rightarrow> deadline \<le> now | _ \<Rightarrow> True) \<longrightarrow>
         al_write (link_step ops t i l (PollWrite now)) = None)"
proof -
  have "link_inv i h (fc_sent (ns_credits s i)) (app_link_new s b)"
    using assms by (simp add: link_inv_def app_link_new_def in_flight_def)
  then have "link_inv i h (fc_sent (ns_credits s i)) l" unfolding assms(4) by (rule link_run_inv)
  then show ?thesis using due_write_finishes [of l _ _ now ops t i]
    by (auto simp: link_inv_def split: option.splits)
qed

theorem handle_writes_reach_flow_witness:
  "\<exists>l. l = foldl (link_step idle_smol sample_tuning 1) (app_link_new sample_stack sample_backlog)
      [StartWrite 0 [5, 6], OtherItem (TcpData 7 [9]), TakeQueue 1, StartWrite 1 [7], DropHandle] \<and>
     al_accepted l = [5, 6, 7] \<and>
     stream_held 1 (al_stack l) (al_backlog l) = Some [1, 2, 3, 4, 5, 6, 7]"
proof -
  let ?l = "foldl (link_step idle_smol sample_tuning 1) (app_link_new sample_stack sample_backlog)
      [StartWrite 0 [5, 6], OtherItem (TcpData 7 [9]), TakeQueue 1, StartWrite 1 [7], DropHandle]"
  have h: "stream_held 1 sample_stack sample_backlog = Some [1, 2, 3, 4]"
    by (simp add: stream_held_def tcp_pending_def sample_stack_def sample_flow_def sample_backlog_def bl_push_def
        payload_of_def chan_new_def)
  have o: "\<not> ch_rx_closed (ns_data_in sample_stack)" by (simp add: sample_stack_def chan_new_def)
  have "al_accepted ?l = [5, 6, 7]"
    by (simp add: link_step_def app_link_new_def link_poll_def tcp_send_start_def tcp_send_poll_def
        reserve_round_def reserve_admits_def outstanding_def flow_credit_new_def queue_poll_def send_poll_def
        try_send_def sample_stack_def chan_new_def drop_conn_def drop_tcp_sender_def drain_app_data_def
        drain_with.simps try_recv_def MAX_BACKLOG_BYTES_def sample_backlog_def bl_push_def backlog_new_def
        ingest_def ingest_with_def bl_holds_def saturating_add_def usize_max_def budget_def MIN_FLOW_QUEUE_BYTES_def)
  then show ?thesis using handle_writes_reach_flow [OF sample_backlog_ok h o refl, of idle_smol sample_tuning
        "[StartWrite 0 [5, 6], OtherItem (TcpData 7 [9]), TakeQueue 1, StartWrite 1 [7], DropHandle]"]
    by auto
qed

end
