(* ===== verification/Random_Task.thy ===== *)
theory Random_Task
  imports Text
begin

text \<open>
  Code that draws random numbers and reads the clock. The sources are a library: a value of type
  \<open>'r\<close> that only the operations of the record \<open>source\<close> advance. A task takes the state of the process,
  may panic, and returns its value with the next state. What is shown of a task holds for every state,
  by the rules of \<open>gives\<close>.
\<close>

named_theorems gives_rules \<open>rules that decompose a task\<close>

record 'r source =
  sr_range :: "nat \<Rightarrow> nat \<Rightarrow> 'r \<Rightarrow> nat \<times> 'r"
  sr_fill :: "nat \<Rightarrow> 'r \<Rightarrow> bytes \<times> 'r"
  sr_clock :: "'r \<Rightarrow> nat option \<times> 'r"

text \<open>
  The documented behaviour of the crate \<^verbatim>\<open>rand\<close>: a drawn number is in its inclusive range, a filled
  buffer keeps its length.
\<close>

definition source_ok :: "'r source \<Rightarrow> bool" where
  "source_ok g \<longleftrightarrow>
     (\<forall>lo hi r. lo \<le> hi \<longrightarrow> lo \<le> fst (sr_range g lo hi r) \<and> fst (sr_range g lo hi r) \<le> hi) \<and>
     (\<forall>n r. length (fst (sr_fill g n r)) = n)"

text \<open>The state of the process: the source, and the packet counter of \<^verbatim>\<open>aethernoize.rs\<close>.\<close>

record 'r proc =
  pr_rng :: 'r
  pr_counter :: u32

type_synonym ('s, 'a) task = "'s \<Rightarrow> ('a \<times> 's) run"

definition task_return :: "'a \<Rightarrow> ('s, 'a) task" where
  "task_return a s = Returns (a, s)"

definition task_bind :: "('s, 'a) task \<Rightarrow> ('a \<Rightarrow> ('s, 'b) task) \<Rightarrow> ('s, 'b) task" where
  "task_bind m f s = run_bind (m s) (\<lambda>(a, s'). f a s')"

fun task_repeat :: "nat \<Rightarrow> ('s, 'a) task \<Rightarrow> ('s, 'a list) task" where
  "task_repeat 0 m = task_return []"
| "task_repeat (Suc n) m = task_bind m (\<lambda>a. task_bind (task_repeat n m) (\<lambda>as. task_return (a # as)))"

fun task_map :: "('b \<Rightarrow> ('s, 'a) task) \<Rightarrow> 'b list \<Rightarrow> ('s, 'a list) task" where
  "task_map f [] = task_return []"
| "task_map f (x # xs) = task_bind (f x) (\<lambda>a. task_bind (task_map f xs) (\<lambda>as. task_return (a # as)))"

definition isize_max :: nat where "isize_max = 2 ^ 63 - 1"

text \<open>\<^verbatim>\<open>Duration::MAX\<close> in milliseconds: 2^64 - 1 seconds and 999 milliseconds.\<close>

definition duration_max :: nat where "duration_max = (2 ^ 64 - 1) * 1000 + 999"

text \<open>
  \<^verbatim>\<open>random_range(lo..=hi)\<close>, which panics on an empty range, \<^verbatim>\<open>fill_bytes\<close> on a buffer of \<open>n\<close> bytes, the
  seconds since the epoch (none when the clock is before it), and an index that panics out of range.
\<close>

definition random_range :: "'r source \<Rightarrow> nat \<Rightarrow> nat \<Rightarrow> ('r proc, nat) task" where
  "random_range g lo hi s =
     (if hi < lo then Panics
      else case sr_range g lo hi (pr_rng s) of (v, r) \<Rightarrow> Returns (v, s\<lparr>pr_rng := r\<rparr>))"

definition fill_bytes :: "'r source \<Rightarrow> nat \<Rightarrow> ('r proc, bytes) task" where
  "fill_bytes g n s = (case sr_fill g n (pr_rng s) of (b, r) \<Rightarrow> Returns (b, s\<lparr>pr_rng := r\<rparr>))"

text \<open>
  \<^verbatim>\<open>vec![0u8; n]\<close> filled with random bytes: a vector of more than \<^verbatim>\<open>isize::MAX\<close> bytes is a capacity overflow. The
  sum of two \<^verbatim>\<open>usize\<close> panics when it overflows, as it does where the checks of the arithmetic are on. The sum of
  two durations, here in milliseconds, always does.
\<close>

definition fill_vec :: "'r source \<Rightarrow> nat \<Rightarrow> ('r proc, bytes) task" where
  "fill_vec g n = (if isize_max < n then (\<lambda>s. Panics) else fill_bytes g n)"

definition usize_add :: "nat \<Rightarrow> nat \<Rightarrow> ('s, nat) task" where
  "usize_add a b = (if usize_max < a + b then (\<lambda>s. Panics) else task_return (a + b))"

definition duration_add :: "nat \<Rightarrow> nat \<Rightarrow> ('s, nat) task" where
  "duration_add a b = (if duration_max < a + b then (\<lambda>s. Panics) else task_return (a + b))"

definition epoch_secs :: "'r source \<Rightarrow> ('r proc, u32) task" where
  "epoch_secs g s =
     (case sr_clock g (pr_rng s) of
        (t, r) \<Rightarrow> Returns (case t of Some n \<Rightarrow> of_nat n | None \<Rightarrow> 0, s\<lparr>pr_rng := r\<rparr>))"

definition task_index :: "'a list \<Rightarrow> nat \<Rightarrow> ('s, 'a) task" where
  "task_index xs i s = run_bind (index xs i) (\<lambda>x. Returns (x, s))"

subsection \<open>What a task gives\<close>

definition gives :: "('s, 'a) task \<Rightarrow> ('a \<Rightarrow> bool) \<Rightarrow> bool" where
  "gives m P \<longleftrightarrow> (\<forall>s. \<exists>a s'. m s = Returns (a, s') \<and> P a)"

lemma gives_return [gives_rules]: "P a \<Longrightarrow> gives (task_return a) P"
  by (simp add: gives_def task_return_def)

lemma gives_bind: "gives m P \<Longrightarrow> (\<And>a. P a \<Longrightarrow> gives (f a) Q) \<Longrightarrow> gives (task_bind m f) Q"
proof -
  assume m: "gives m P" and f: "\<And>a. P a \<Longrightarrow> gives (f a) Q"
  have "\<exists>b t. run_bind (m s) (\<lambda>(a, s'). f a s') = Returns (b, t) \<and> Q b" for s
  proof -
    obtain a s' where "m s = Returns (a, s')" "P a" using m unfolding gives_def by blast
    then show ?thesis using f [of a] by (simp add: gives_def)
  qed
  then show ?thesis by (simp add: gives_def task_bind_def)
qed

lemma gives_mono: "gives m P \<Longrightarrow> (\<And>a. P a \<Longrightarrow> Q a) \<Longrightarrow> gives m Q"
  unfolding gives_def by blast

lemma gives_conj: "gives m P \<Longrightarrow> gives m Q \<Longrightarrow> gives m (\<lambda>a. P a \<and> Q a)"
  unfolding gives_def by (metis Pair_inject run.inject)

lemma gives_if [gives_rules]: "(b \<Longrightarrow> gives m P) \<Longrightarrow> (\<not> b \<Longrightarrow> gives n P) \<Longrightarrow> gives (if b then m else n) P"
  by simp

lemma gives_repeat: "gives m P \<Longrightarrow> gives (task_repeat n m) (\<lambda>as. length as = n \<and> (\<forall>a \<in> set as. P a))"
  by (induction n) (auto intro!: gives_return elim!: gives_bind)

lemma gives_map:
  "(\<And>x. x \<in> set xs \<Longrightarrow> gives (f x) P) \<Longrightarrow> gives (task_map f xs) (\<lambda>as. length as = length xs \<and> (\<forall>a \<in> set as. P a))"
proof (induction xs)
  case (Cons x xs)
  then have "gives (f x) P" "gives (task_map f xs) (\<lambda>as. length as = length xs \<and> (\<forall>a \<in> set as. P a))" by simp_all
  then show ?case by (auto intro!: gives_return elim!: gives_bind)
qed (simp add: gives_return)

lemma gives_random_range: "source_ok g \<Longrightarrow> lo \<le> hi \<Longrightarrow> gives (random_range g lo hi) (\<lambda>v. lo \<le> v \<and> v \<le> hi)"
  by (auto simp: gives_def random_range_def source_ok_def split: prod.splits) (metis fst_conv)+

lemma gives_fill: "source_ok g \<Longrightarrow> gives (fill_bytes g n) (\<lambda>b. length b = n)"
  by (auto simp: gives_def fill_bytes_def source_ok_def split: prod.splits) (metis fst_conv)

lemma gives_fill_vec: "source_ok g \<Longrightarrow> n \<le> isize_max \<Longrightarrow> gives (fill_vec g n) (\<lambda>b. length b = n)"
  by (simp add: fill_vec_def gives_fill)

lemma gives_usize_add: "a + b \<le> usize_max \<Longrightarrow> gives (usize_add a b) (\<lambda>n. n = a + b)"
  by (simp add: usize_add_def gives_return)

lemma gives_duration_add: "a + b \<le> duration_max \<Longrightarrow> gives (duration_add a b) (\<lambda>n. n = a + b)"
  by (simp add: duration_add_def gives_return)

lemma gives_epoch: "gives (epoch_secs g) (\<lambda>t. True)"
  by (simp add: gives_def epoch_secs_def split: prod.splits)

lemma gives_index: "i < length xs \<Longrightarrow> gives (task_index xs i) (\<lambda>x. x = xs ! i)"
  by (simp add: gives_def task_index_def index_def)

text \<open>A source that always draws the lower end and fills with zeros, to evaluate tasks on.\<close>

definition low_source :: "unit source" where
  "low_source = \<lparr>sr_range = (\<lambda>lo hi r. (lo, r)), sr_fill = (\<lambda>n r. (replicate n 0, r)), sr_clock = (\<lambda>r. (Some 1700000000, r))\<rparr>"

lemma low_source_ok: "source_ok low_source"
  by (simp add: source_ok_def low_source_def)

end
