(* ===== verification/Noize.thy ===== *)
theory Noize
  imports Random_Task Upstream_Detour
begin

text \<open>
  \<^verbatim>\<open>noize.rs\<close>: the junk datagrams and signature packets that the QUIC carrier sends before its handshake. A
  signature is described by a text of tags; the crate \<^verbatim>\<open>hex\<close> is the argument \<open>hex\<close>. Durations are
  milliseconds. A function that sends returns what it sends and how long it sleeps, in order; the result
  of a send is only logged.
\<close>

subsection \<open>Profiles\<close>

record noize_config =
  nz_jc_before_hs :: usize
  nz_jc_after_i1 :: usize
  nz_jmin :: usize
  nz_jmax :: usize
  nz_i1 :: "string option"
  nz_i2 :: "string option"
  nz_junk_interval :: nat

definition noize_off :: noize_config where
  "noize_off = \<lparr>nz_jc_before_hs = 0, nz_jc_after_i1 = 0, nz_jmin = 0, nz_jmax = 0, nz_i1 = None, nz_i2 = None,
     nz_junk_interval = 0\<rparr>"

definition noize_firewall :: noize_config where
  "noize_firewall = \<lparr>nz_jc_before_hs = 2, nz_jc_after_i1 = 2, nz_jmin = 48, nz_jmax = 190,
     nz_i1 = Some ''<b 0d0a0d0a><t><r 24>'', nz_i2 = Some ''<r 48>'', nz_junk_interval = 4\<rparr>"

definition noize_light :: noize_config where
  "noize_light = \<lparr>nz_jc_before_hs = 1, nz_jc_after_i1 = 0, nz_jmin = 32, nz_jmax = 96,
     nz_i1 = Some ''<b 0d0a0d0a><t><r 16>'', nz_i2 = None, nz_junk_interval = 3\<rparr>"

definition noize_gfw :: noize_config where
  "noize_gfw = \<lparr>nz_jc_before_hs = 2, nz_jc_after_i1 = 1, nz_jmin = 64, nz_jmax = 256,
     nz_i1 = Some ''<b 0d0a0d0a><t><r 24>'', nz_i2 = Some ''<r 32>'', nz_junk_interval = 5\<rparr>"

definition noize_is_enabled :: "noize_config \<Rightarrow> bool" where
  "noize_is_enabled cfg \<longleftrightarrow> 0 < nz_jc_before_hs cfg \<or> 0 < nz_jc_after_i1 cfg \<or> nz_i1 cfg \<noteq> None"

definition noize_from_profile :: "string \<Rightarrow> noize_config" where
  "noize_from_profile name =
     (if name \<in> {''off'', ''none''} then noize_off
      else if name = ''light'' then noize_light
      else if name \<in> {''gfw'', ''aggressive'', ''heavy''} then noize_gfw
      else noize_firewall)"

subsection \<open>Packets\<close>

definition junk_packet :: "'r source \<Rightarrow> noize_config \<Rightarrow> ('r proc, bytes) task" where
  "junk_packet g cfg =
     (case (if nz_jmin cfg < nz_jmax cfg \<and> 0 < nz_jmin cfg then (nz_jmin cfg, nz_jmax cfg) else (40, 90)) of
        (lo, hi) \<Rightarrow> task_bind (random_range g lo hi) (\<lambda>size. fill_vec g size))"

text \<open>
  \<^verbatim>\<open>splitn(2, char::is_whitespace)\<close>: what is before the first white space character and what is after it.
  \<open>drop_ws\<close> filters the white space characters out.
\<close>

function split_first_ws :: "string \<Rightarrow> string \<times> string option" where
  "split_first_ws s =
     (case s of
        [] \<Rightarrow> ([], None)
      | c # cs \<Rightarrow>
          let n = leading_space white_space s
          in if 0 < n then ([], Some (drop n s))
             else (case split_first_ws cs of (a, b) \<Rightarrow> (c # a, b)))"
  by pat_completeness auto
termination
  by (relation "measure length") auto

declare split_first_ws.simps [simp del]

function drop_ws :: "string \<Rightarrow> string" where
  "drop_ws s =
     (case s of
        [] \<Rightarrow> []
      | c # cs \<Rightarrow> let n = leading_space white_space s in if 0 < n then drop_ws (drop n s) else c # drop_ws cs)"
  by pat_completeness auto
termination
  by (relation "measure length") auto

declare drop_ws.simps [simp del]

text \<open>The tags of a description, in order, with their data; an unclosed tag ends the scan.\<close>

definition tag_of :: "string \<Rightarrow> string \<times> string" where
  "tag_of inner =
     (case split_first_ws (trim inner) of
        (tag, data) \<Rightarrow> (tag, case data of Some d \<Rightarrow> trim d | None \<Rightarrow> []))"

function cps_tags :: "string \<Rightarrow> (string \<times> string) list" where
  "cps_tags spec =
     (case spec of
        [] \<Rightarrow> []
      | c # cs \<Rightarrow>
          if c \<noteq> CHR ''<'' then cps_tags cs
          else (case split_once (CHR ''>'') cs of
                  None \<Rightarrow> []
                | Some (inner, rest) \<Rightarrow> tag_of inner # cps_tags rest))"
  by pat_completeness auto
termination
  by (relation "measure length") (auto dest: split_once_SomeD)

declare cps_tags.simps [simp del]

definition hex_part :: "(string \<Rightarrow> bytes option) \<Rightarrow> string \<Rightarrow> bytes" where
  "hex_part hex data = (case hex data of Some b \<Rightarrow> b | None \<Rightarrow> [])"

text \<open>The bytes of one tag; a random \<^verbatim>\<open>u64\<close> in big-endian form is eight random bytes.\<close>

definition cps_part :: "(string \<Rightarrow> bytes option) \<Rightarrow> 'r source \<Rightarrow> string \<times> string \<Rightarrow> ('r proc, bytes) task" where
  "cps_part hex g td =
     (case td of (tag, data) \<Rightarrow>
        if tag = ''b'' then task_return (hex_part hex (drop_ws data))
        else if tag = ''t'' then task_bind (epoch_secs g) (\<lambda>ts. task_return (word_be 4 ts))
        else if tag = ''n'' then fill_bytes g 8
        else if tag = ''r'' then
          (let len = min (case parse_uint usize_max data of Some n \<Rightarrow> n | None \<Rightarrow> 0) 1024
           in if 0 < len then fill_bytes g len else task_return [])
        else task_return [])"

definition parse_cps :: "(string \<Rightarrow> bytes option) \<Rightarrow> 'r source \<Rightarrow> string \<Rightarrow> ('r proc, bytes) task" where
  "parse_cps hex g spec = task_bind (task_map (cps_part hex g) (cps_tags spec)) (\<lambda>parts. task_return (concat parts))"

subsection \<open>Before the handshake\<close>

datatype noize_act = SendPacket bytes | SleepMs nat

text \<open>Where a datagram goes: \<open>None\<close> is the peer of a connected socket.\<close>

definition junk_target :: "detour_table \<Rightarrow> bool \<Rightarrow> socket_addr option \<Rightarrow> socket_addr \<Rightarrow> socket_addr option" where
  "junk_target tab connected local peer =
     (if connected then None
      else Some (case local of Some a \<Rightarrow> relay_target tab a peer | None \<Rightarrow> peer))"

definition pause_after :: "nat \<Rightarrow> noize_act list" where
  "pause_after ms = (if ms \<noteq> 0 then [SleepMs ms] else [])"

definition junk_round :: "'r source \<Rightarrow> noize_config \<Rightarrow> ('r proc, noize_act list) task" where
  "junk_round g cfg =
     task_bind (junk_packet g cfg) (\<lambda>pkt. task_return (SendPacket pkt # pause_after (nz_junk_interval cfg)))"

definition signature_round :: "(string \<Rightarrow> bytes option) \<Rightarrow> 'r source \<Rightarrow> string option \<Rightarrow> nat \<Rightarrow> ('r proc, noize_act list) task" where
  "signature_round hex g sig ms =
     (case sig of
        None \<Rightarrow> task_return []
      | Some spec \<Rightarrow>
          task_bind (parse_cps hex g spec) (\<lambda>pkt.
            task_return (if pkt \<noteq> [] then SendPacket pkt # pause_after ms else [])))"

definition pre_handshake :: "(string \<Rightarrow> bytes option) \<Rightarrow> 'r source \<Rightarrow> noize_config \<Rightarrow> ('r proc, noize_act list) task" where
  "pre_handshake hex g cfg =
     (if \<not> noize_is_enabled cfg then task_return []
      else task_bind (task_repeat (nz_jc_before_hs cfg) (junk_round g cfg)) (\<lambda>before.
           task_bind (signature_round hex g (nz_i1 cfg) 2) (\<lambda>sig1.
           task_bind (task_repeat (nz_jc_after_i1 cfg) (junk_round g cfg)) (\<lambda>after.
           task_bind (signature_round hex g (nz_i2 cfg) 0) (\<lambda>sig2.
             task_return (concat before @ sig1 @ concat after @ sig2))))))"

end
