(* ===== verification/Aethernoize.thy ===== *)
theory Aethernoize
  imports Noize
begin

text \<open>
  \<^verbatim>\<open>aethernoize.rs\<close>: the obfuscation of the WireGuard carrier. The tags of a description come from a regular
  expression; the crates \<^verbatim>\<open>regex\<close> and \<^verbatim>\<open>hex\<close> are the record \<open>noize_lib\<close>. Arithmetic on the lengths of a
  header wraps at its width.
\<close>

subsection \<open>Profiles\<close>

record aether_noize_config =
  an_i1 :: "string option"
  an_i2 :: "string option"
  an_i3 :: "string option"
  an_i4 :: "string option"
  an_i5 :: "string option"
  an_jc :: usize
  an_jc_before_hs :: usize
  an_jc_after_i1 :: usize
  an_jc_after_hs :: usize
  an_jmin :: usize
  an_jmax :: usize
  an_junk_interval :: nat
  an_handshake_delay :: nat
  an_allow_zero_size :: bool

definition an_off :: aether_noize_config where
  "an_off = \<lparr>an_i1 = None, an_i2 = None, an_i3 = None, an_i4 = None, an_i5 = None, an_jc = 0,
     an_jc_before_hs = 0, an_jc_after_i1 = 0, an_jc_after_hs = 0, an_jmin = 0, an_jmax = 0,
     an_junk_interval = 0, an_handshake_delay = 0, an_allow_zero_size = False\<rparr>"

definition an_light :: aether_noize_config where
  "an_light = \<lparr>an_i1 = Some ''<b 0d0a0d0a><t><r 20-32>'', an_i2 = Some ''<rc 24-48>'', an_i3 = None,
     an_i4 = None, an_i5 = None, an_jc = 4, an_jc_before_hs = 2, an_jc_after_i1 = 1, an_jc_after_hs = 1,
     an_jmin = 48, an_jmax = 190, an_junk_interval = 3, an_handshake_delay = 5, an_allow_zero_size = False\<rparr>"

definition an_balanced :: aether_noize_config where
  "an_balanced = \<lparr>an_i1 = Some ''<b 0d0a0d0a><t><rc 20-40>'', an_i2 = Some ''<b 504f5354><rd 10-20><rc 20-30>'',
     an_i3 = Some ''<r 30-50>'', an_i4 = None, an_i5 = None, an_jc = 6, an_jc_before_hs = 3,
     an_jc_after_i1 = 2, an_jc_after_hs = 1, an_jmin = 64, an_jmax = 256, an_junk_interval = 2,
     an_handshake_delay = 8, an_allow_zero_size = False\<rparr>"

definition an_aggressive :: aether_noize_config where
  "an_aggressive = \<lparr>an_i1 = Some ''<b 0d0a0d0a><t><rc 40-64>'',
     an_i2 = Some ''<b 504f5354><t><rd 15-30><rc 30-50>'', an_i3 = Some ''<b 474554><rc 40-60>'',
     an_i4 = Some ''<r 60-100>'', an_i5 = Some ''<c><rd 20-40>'', an_jc = 10, an_jc_before_hs = 4,
     an_jc_after_i1 = 3, an_jc_after_hs = 3, an_jmin = 80, an_jmax = 384, an_junk_interval = 1,
     an_handshake_delay = 12, an_allow_zero_size = False\<rparr>"

definition an_firewall :: aether_noize_config where
  "an_firewall = \<lparr>an_i1 = Some ''<b 0d0a0d0a><t><rc 24-44>'',
     an_i2 = Some ''<b 504f5354><c><rd 12-24><rc 24-36>'', an_i3 = Some ''<b 474554><r 30-50>'',
     an_i4 = None, an_i5 = None, an_jc = 7, an_jc_before_hs = 3, an_jc_after_i1 = 2, an_jc_after_hs = 2,
     an_jmin = 64, an_jmax = 300, an_junk_interval = 2, an_handshake_delay = 10, an_allow_zero_size = False\<rparr>"

definition an_gfw :: aether_noize_config where
  "an_gfw = \<lparr>an_i1 = Some ''<b 16030100><c><rc 48-72>'', an_i2 = Some ''<b 0d0a0d0a><t><rd 20-40><rc 36-60>'',
     an_i3 = Some ''<b 474554202f20485454502f312e31><rc 40-64>'', an_i4 = Some ''<b 504f5354><c><r 64-110>'',
     an_i5 = Some ''<rd 24-48><rc 32-56>'', an_jc = 12, an_jc_before_hs = 5, an_jc_after_i1 = 3,
     an_jc_after_hs = 4, an_jmin = 96, an_jmax = 420, an_junk_interval = 1, an_handshake_delay = 16,
     an_allow_zero_size = True\<rparr>"

definition an_is_enabled :: "aether_noize_config \<Rightarrow> bool" where
  "an_is_enabled cfg \<longleftrightarrow> 0 < an_jc cfg \<or> an_i1 cfg \<noteq> None"

definition an_from_profile :: "string \<Rightarrow> aether_noize_config" where
  "an_from_profile name =
     (let n = to_lowercase (trim name)
      in if n \<in> {''off'', ''none''} then an_off
         else if n = ''light'' then an_light
         else if n = ''firewall'' then an_firewall
         else if n = ''gfw'' then an_gfw
         else if n \<in> {''aggressive'', ''heavy''} then an_aggressive
         else an_balanced)"

subsection \<open>Descriptions\<close>

record noize_lib =
  nl_hex :: "string \<Rightarrow> bytes option"
  nl_tags :: "string \<Rightarrow> (string \<times> string) list"

definition size_or_zero :: "string \<Rightarrow> usize" where
  "size_or_zero s = (case parse_uint usize_max (trim s) of Some n \<Rightarrow> n | None \<Rightarrow> 0)"

definition noize_range :: "'r source \<Rightarrow> string \<Rightarrow> ('r proc, usize) task" where
  "noize_range g data =
     (let single = task_return (min (size_or_zero data) 2048)
      in case split_chars (\<lambda>c. c = CHR ''-'') data of
           a # b # _ \<Rightarrow>
             (let lo = size_or_zero a; hi = size_or_zero b
              in if lo < hi \<and> 0 < lo
                 then task_bind (random_range g lo hi) (\<lambda>n. task_return (min n 2048))
                 else single)
         | _ \<Rightarrow> single)"

definition next_counter :: "('r proc, u32) task" where
  "next_counter s = Returns (pr_counter s, s\<lparr>pr_counter := pr_counter s + 1\<rparr>)"

definition letters :: bytes where
  "letters = as_bytes ''abcdefghijklmnopqrstuvwxyzABCDEFGHIJKLMNOPQRSTUVWXYZ''"

definition digits :: bytes where
  "digits = as_bytes ''0123456789''"

definition random_chars :: "'r source \<Rightarrow> bytes \<Rightarrow> usize \<Rightarrow> ('r proc, bytes) task" where
  "random_chars g alphabet len =
     task_repeat len (task_bind (random_range g 0 (length alphabet - 1)) (\<lambda>i. task_index alphabet i))"

definition strip_0x :: "string \<Rightarrow> string" where
  "strip_0x s =
     (case strip_prefix s ''0x'' of
        Some r \<Rightarrow> r
      | None \<Rightarrow> (case strip_prefix s ''0X'' of Some r \<Rightarrow> r | None \<Rightarrow> s))"

definition tag_part :: "noize_lib \<Rightarrow> 'r source \<Rightarrow> string \<times> string \<Rightarrow> ('r proc, bytes) task" where
  "tag_part lib g td =
     (case td of (tag, raw) \<Rightarrow>
      let data = trim raw
      in if tag = ''b'' then task_return (hex_part (nl_hex lib) (strip_0x (drop_ws data)))
         else if tag = ''t'' then task_bind (epoch_secs g) (\<lambda>ts. task_return (word_be 4 ts))
         else if tag = ''c'' then task_bind next_counter (\<lambda>n. task_return (word_be 4 n))
         else if tag = ''r'' then task_bind (noize_range g data) (\<lambda>len. if 0 < len then fill_bytes g len else task_return [])
         else if tag = ''rc'' then task_bind (noize_range g data) (\<lambda>len. if 0 < len then random_chars g letters len else task_return [])
         else if tag = ''rd'' then task_bind (noize_range g data) (\<lambda>len. if 0 < len then random_chars g digits len else task_return [])
         else task_return [])"

definition an_parse_cps :: "noize_lib \<Rightarrow> 'r source \<Rightarrow> string \<Rightarrow> ('r proc, bytes) task" where
  "an_parse_cps lib g spec =
     task_bind (task_map (tag_part lib g) (nl_tags lib spec)) (\<lambda>parts. task_return (concat parts))"

subsection \<open>Packets\<close>

definition wrap_ikev2 :: "'r source \<Rightarrow> bytes \<Rightarrow> ('r proc, bytes) task" where
  "wrap_ikev2 g payload =
     (if payload = [] then task_return payload
      else task_bind (if 8 \<le> length payload then task_return (take 8 payload) else fill_bytes g 8) (\<lambda>initiator_spi.
           task_bind (fill_bytes g 8) (\<lambda>responder_spi.
             let total_length = (28 + 24 + of_nat (length payload) :: u32);
                 sa_payload_length = (24 + of_nat (length payload) :: u16)
             in task_return
                  (initiator_spi @ responder_spi @ [0x21, 0x20, 0x22, 0x08] @ [0, 0, 0, 0] @
                   word_be 4 total_length @ [0, 0] @ word_be 2 sa_payload_length @
                   [0x00, 0x00, 0x00, 0x14, 0x01, 0x01, 0x00, 0x04, 0x03, 0x00, 0x00, 0x08, 0x01, 0x00, 0x00,
                    0x0c, 0x00, 0x00, 0x00, 0x00] @ payload))))"

definition generate_junk :: "'r source \<Rightarrow> aether_noize_config \<Rightarrow> ('r proc, bytes) task" where
  "generate_junk g cfg =
     (let jmin = an_jmin cfg; jmax = an_jmax cfg; allow = an_allow_zero_size cfg
      in if jmin = 0 \<and> jmax = 0 \<and> allow then task_return []
         else if jmin = 0 \<and> jmax = 0 then task_return [0x00]
         else
           (case (if jmax = 0 \<and> \<not> allow then (max jmin 1, max jmin 1)
                  else if \<not> allow then (max jmin 1, max jmax jmin)
                  else (jmin, max jmax jmin)) of
              (min_size, max_size) \<Rightarrow>
                task_bind (if max_size = min_size then task_return min_size else random_range g min_size max_size) (\<lambda>size.
                  if size = 0 then task_return (if allow then [] else [0x00])
                  else fill_vec g size)))"

subsection \<open>Sending\<close>

definition an_junk_round :: "'r source \<Rightarrow> aether_noize_config \<Rightarrow> ('r proc, noize_act list) task" where
  "an_junk_round g cfg =
     task_bind (generate_junk g cfg) (\<lambda>junk. task_return (SendPacket junk # pause_after (an_junk_interval cfg)))"

definition framed_round :: "noize_lib \<Rightarrow> 'r source \<Rightarrow> string option \<Rightarrow> ('r proc, noize_act list) task" where
  "framed_round lib g sig =
     (case sig of
        None \<Rightarrow> task_return []
      | Some spec \<Rightarrow>
          task_bind (an_parse_cps lib g spec) (\<lambda>payload.
            if payload \<noteq> [] then task_bind (wrap_ikev2 g payload) (\<lambda>framed. task_return [SendPacket framed, SleepMs 2])
            else task_return []))"

definition plain_round :: "noize_lib \<Rightarrow> 'r source \<Rightarrow> string option \<Rightarrow> ('r proc, noize_act list) task" where
  "plain_round lib g sig =
     (case sig of
        None \<Rightarrow> task_return []
      | Some spec \<Rightarrow>
          task_bind (an_parse_cps lib g spec) (\<lambda>pkt.
            task_return (if pkt \<noteq> [] then [SendPacket pkt, SleepMs 1] else [])))"

definition apply_obfuscation :: "noize_lib \<Rightarrow> 'r source \<Rightarrow> aether_noize_config \<Rightarrow> ('r proc, noize_act list) task" where
  "apply_obfuscation lib g cfg =
     (if \<not> an_is_enabled cfg then task_return []
      else task_bind (framed_round lib g (an_i1 cfg)) (\<lambda>framed.
           task_bind (task_repeat (an_jc_after_i1 cfg) (an_junk_round g cfg)) (\<lambda>after.
           task_bind (task_repeat (an_jc_before_hs cfg) (an_junk_round g cfg)) (\<lambda>before.
           task_bind (task_map (plain_round lib g) [an_i2 cfg, an_i3 cfg, an_i4 cfg, an_i5 cfg]) (\<lambda>sigs.
             task_return (framed @ concat after @ concat before @ concat sigs @ pause_after (an_handshake_delay cfg)))))))"

definition send_post_handshake_junk :: "'r source \<Rightarrow> aether_noize_config \<Rightarrow> ('r proc, noize_act list) task" where
  "send_post_handshake_junk g cfg =
     task_bind (task_repeat (an_jc_after_hs cfg) (an_junk_round g cfg)) (\<lambda>junk. task_return (concat junk))"

text \<open>A junk datagram of the keepalive never starts with a WireGuard message type.\<close>

definition mask_first :: "bytes \<Rightarrow> bytes" where
  "mask_first junk =
     (case junk of [] \<Rightarrow> [] | b # bs \<Rightarrow> (if 1 \<le> b \<and> b \<le> 4 then b + 0x40 else b) # bs)"

definition keepalive_round :: "'r source \<Rightarrow> aether_noize_config \<Rightarrow> ('r proc, noize_act list) task" where
  "keepalive_round g cfg =
     task_bind (generate_junk g cfg) (\<lambda>junk.
     task_bind (random_range g 0 8) (\<lambda>jitter.
     task_bind (duration_add (an_junk_interval cfg) jitter) (\<lambda>gap.
       task_return (SendPacket (mask_first junk) # pause_after gap))))"

definition send_keepalive_junk :: "'r source \<Rightarrow> aether_noize_config \<Rightarrow> ('r proc, noize_act list) task" where
  "send_keepalive_junk g cfg =
     (if \<not> an_is_enabled cfg then task_return []
      else let base = max (an_jc_before_hs cfg) 1
           in task_bind (random_range g 0 base) (\<lambda>extra.
              task_bind (usize_add base extra) (\<lambda>count.
              task_bind (task_repeat count (keepalive_round g cfg)) (\<lambda>rounds. task_return (concat rounds)))))"

end
