(* ===== verification/Aethernoize_Props.thy ===== *)
theory Aethernoize_Props
  imports Aethernoize
begin

text \<open>
  What the obfuscation sends, whatever the random source draws: within bounds that every profile keeps it does
  not panic, the sizes and the number of the junk datagrams are as configured, and the junk that accompanies a live
  session is never taken for a WireGuard message.
\<close>

definition sent :: "noize_act list \<Rightarrow> bytes list" where
  "sent acts = concat (map (\<lambda>a. case a of SendPacket p \<Rightarrow> [p] | SleepMs n \<Rightarrow> []) acts)"

lemma sent_simps [simp]:
  "sent [] = []"
  "sent (SendPacket p # acts) = p # sent acts"
  "sent (SleepMs n # acts) = sent acts"
  "sent (acts @ more_acts) = sent acts @ sent more_acts"
  "sent (pause_after n) = []"
  by (simp_all add: sent_def pause_after_def)

definition one_packet :: "(bytes \<Rightarrow> bool) \<Rightarrow> noize_act list \<Rightarrow> bool" where
  "one_packet P acts \<longleftrightarrow> (\<exists>p. sent acts = [p] \<and> P p)"

lemma one_packet_each:
  "\<forall>acts \<in> set rounds. one_packet P acts \<Longrightarrow>
     length (sent (concat rounds)) = length rounds \<and> (\<forall>p \<in> set (sent (concat rounds)). P p)"
  by (induction rounds) (auto simp: one_packet_def)

lemma gives_rounds:
  assumes "gives m (one_packet P)"
  shows "gives (task_repeat n m) (\<lambda>rounds. length (sent (concat rounds)) = n \<and> (\<forall>p \<in> set (sent (concat rounds)). P p))"
  using gives_repeat [OF assms, of n] by (rule gives_mono) (use one_packet_each in auto)

text \<open>
  The configurations that the arithmetic of a phase has room for: a junk datagram fits a vector, twice the
  base of a burst fits a \<^verbatim>\<open>usize\<close>, and the pause with its jitter fits a duration.
\<close>

definition an_bounded :: "aether_noize_config \<Rightarrow> bool" where
  "an_bounded cfg \<longleftrightarrow>
     an_jmin cfg \<le> isize_max \<and> an_jmax cfg \<le> isize_max \<and> 2 * max (an_jc_before_hs cfg) 1 \<le> usize_max \<and>
     an_junk_interval cfg + 8 \<le> duration_max"

definition nz_bounded :: "noize_config \<Rightarrow> bool" where
  "nz_bounded cfg \<longleftrightarrow> nz_jmax cfg \<le> isize_max"

lemmas limits = isize_max_def usize_max_def duration_max_def

definition junk_size_ok :: "aether_noize_config \<Rightarrow> bytes \<Rightarrow> bool" where
  "junk_size_ok cfg p \<longleftrightarrow>
     an_jmin cfg \<le> length p \<and> length p \<le> max (an_jmax cfg) (max (an_jmin cfg) 1) \<and>
     (p = [] \<longrightarrow> an_allow_zero_size cfg)"

lemma generate_junk_size:
  assumes "source_ok g" and "an_bounded cfg"
  shows "gives (generate_junk g cfg) (junk_size_ok cfg)"
proof (cases "an_jmin cfg = 0 \<and> an_jmax cfg = 0")
  case True
  then show ?thesis by (auto simp: generate_junk_def Let_def junk_size_ok_def intro!: gives_return)
next
  case False
  let ?lo = "if an_allow_zero_size cfg then an_jmin cfg else max (an_jmin cfg) 1"
  let ?hi = "max (an_jmax cfg) (max (an_jmin cfg) (if an_allow_zero_size cfg then 0 else 1))"
  have le: "?lo \<le> ?hi" by simp
  let ?size = "if ?hi = ?lo then task_return ?lo else random_range g ?lo ?hi"
  have size: "gives ?size (\<lambda>n. ?lo \<le> n \<and> n \<le> ?hi)"
    using gives_random_range [OF assms(1) le] by (intro gives_if gives_return) (simp_all add: le)
  have eq: "generate_junk g cfg = task_bind ?size (\<lambda>size.
      if size = 0 then task_return (if an_allow_zero_size cfg then [] else [0x00]) else fill_vec g size)"
    using False by (auto simp: generate_junk_def Let_def max_def split: if_splits)
  show ?thesis unfolding eq
  proof (rule gives_bind [OF size], rule gives_if)
    fix n :: nat assume n: "?lo \<le> n \<and> n \<le> ?hi"
    then have "n \<le> isize_max" using assms(2) by (simp add: an_bounded_def limits max_def split: if_splits)
    from gives_fill_vec [OF assms(1) this] show "gives (fill_vec g n) (junk_size_ok cfg)" if "n \<noteq> 0"
      using that n by (elim gives_mono) (auto simp: junk_size_ok_def max_def split: if_splits)
    from n show "gives (task_return (if an_allow_zero_size cfg then [] else [0x00])) (junk_size_ok cfg)" if "n = 0"
      using that by (intro gives_return) (auto simp: junk_size_ok_def split: if_splits)
  qed
qed

lemma an_junk_round_packet: "source_ok g \<Longrightarrow> an_bounded cfg \<Longrightarrow> gives (an_junk_round g cfg) (one_packet (junk_size_ok cfg))"
  unfolding an_junk_round_def
  by (rule gives_bind [OF generate_junk_size]) (auto intro!: gives_return simp: one_packet_def)

lemma noize_range_bound: "source_ok g \<Longrightarrow> gives (noize_range g data) (\<lambda>n. n \<le> 2048)"
  unfolding noize_range_def Let_def
  by (auto split: list.splits intro!: gives_return gives_bind [OF gives_random_range])

lemma random_chars_from:
  assumes "source_ok g" and "alphabet \<noteq> []"
  shows "gives (random_chars g alphabet len) (\<lambda>cs. length cs = len \<and> set cs \<subseteq> set alphabet)"
proof -
  have "gives (task_bind (random_range g 0 (length alphabet - 1)) (task_index alphabet)) (\<lambda>c. c \<in> set alphabet)"
  proof (rule gives_bind [OF gives_random_range [OF assms(1)]])
    fix i assume "0 \<le> i \<and> i \<le> length alphabet - 1"
    then have i: "i < length alphabet" using assms(2) by (cases alphabet) auto
    from gives_index [OF i] show "gives (task_index alphabet i) (\<lambda>c. c \<in> set alphabet)"
      by (rule gives_mono) (use i in auto)
  qed simp
  from gives_repeat [OF this, of len] show ?thesis
    unfolding random_chars_def by (rule gives_mono) auto
qed

text \<open>Tasks that return, whatever they return.\<close>

lemma returns_bind: "gives m (\<lambda>a. True) \<Longrightarrow> (\<And>a. gives (f a) (\<lambda>b. True)) \<Longrightarrow> gives (task_bind m f) (\<lambda>b. True)"
  by (rule gives_bind) auto

lemma returns_simple:
  "gives next_counter (\<lambda>n. True)"
  "source_ok g \<Longrightarrow> gives (noize_range g data) (\<lambda>n. True)"
  "source_ok g \<Longrightarrow> gives (fill_bytes g n) (\<lambda>b. True)"
  "source_ok g \<Longrightarrow> gives (random_chars g letters n) (\<lambda>b. True)"
  "source_ok g \<Longrightarrow> gives (random_chars g digits n) (\<lambda>b. True)"
proof -
  show "gives next_counter (\<lambda>n. True)" by (simp add: gives_def next_counter_def)
  have ne: "letters \<noteq> []" "digits \<noteq> []" by (simp_all add: letters_def digits_def as_bytes_def)
  assume g: "source_ok g"
  show "gives (noize_range g data) (\<lambda>n. True)" by (rule gives_mono [OF noize_range_bound [OF g]]) simp
  show "gives (fill_bytes g n) (\<lambda>b. True)" by (rule gives_mono [OF gives_fill [OF g]]) simp
  show "gives (random_chars g letters n) (\<lambda>b. True)" by (rule gives_mono [OF random_chars_from [OF g ne(1)]]) simp
  show "gives (random_chars g digits n) (\<lambda>b. True)" by (rule gives_mono [OF random_chars_from [OF g ne(2)]]) simp
qed

lemmas returns_rules = returns_bind returns_simple gives_epoch gives_if gives_return

lemma tag_part_gives: "source_ok g \<Longrightarrow> gives (tag_part lib g td) (\<lambda>b. True)"
  unfolding tag_part_def Let_def by (cases td) (auto intro!: returns_rules)

lemma an_parse_cps_gives: "source_ok g \<Longrightarrow> gives (an_parse_cps lib g spec) (\<lambda>b. True)"
  unfolding an_parse_cps_def
  by (rule gives_bind [OF gives_map [where P = "\<lambda>b. True"]]) (auto intro: tag_part_gives gives_return)

text \<open>
  The IKEv2 dress of the first signature: the header's length fields describe the datagram, and the payload
  is its end.
\<close>

lemma wrap_ikev2_lengths:
  assumes "source_ok g" and "payload \<noteq> []" and "length payload < 2 ^ 16 - 24"
  shows "gives (wrap_ikev2 g payload) (\<lambda>p. length p = 52 + length payload \<and> drop 52 p = payload \<and>
      unat (be_word (take 4 (drop 24 p)) :: u32) = length p \<and>
      unat (be_word (take 2 (drop 30 p)) :: u16) = length p - 28)"
proof -
  have spi: "gives (if 8 \<le> length payload then task_return (take 8 payload) else fill_bytes g 8) (\<lambda>b. length b = 8)"
    by (intro gives_if gives_return gives_fill [OF assms(1)]) simp
  have w4: "be_word (word_be 4 (v :: u32)) = v" and w2: "be_word (word_be 2 (w :: u16)) = w" for v w
    by (simp_all add: be_word_word_be take_bit_word_eq_self)
  have "unat (28 + 24 + of_nat (length payload) :: u32) = 52 + length payload"
    "unat (24 + of_nat (length payload) :: u16) = 24 + length payload"
    using assms(3) by (simp_all add: unat_word_ariths unat_of_nat)
  then show ?thesis
    unfolding wrap_ikev2_def Let_def if_not_P [OF assms(2)]
    by (intro gives_bind [OF spi] gives_bind [OF gives_fill [OF assms(1)]] gives_return) (simp add: w4 w2)
qed

lemma word_be_not_Nil: "0 < n \<Longrightarrow> word_be n v \<noteq> []"
  by (cases n) simp_all

text \<open>
  The signatures: none where none is configured, one datagram otherwise, which can only be missing when the
  description comes out empty; with a time stamp or a counter in it that is impossible.
\<close>

definition marked :: "(string \<times> string) list \<Rightarrow> string set \<Rightarrow> bool" where
  "marked tags names \<longleftrightarrow> list_ex (\<lambda>(tag, data). tag \<in> names) tags"

definition signature_ok :: "bool \<Rightarrow> string option \<Rightarrow> bytes list \<Rightarrow> bool" where
  "signature_ok must sig pkts \<longleftrightarrow>
     list_all (\<lambda>p. p \<noteq> []) pkts \<and> (sig = None \<longrightarrow> pkts = []) \<and> length pkts \<le> 1 \<and> (must \<longrightarrow> length pkts = 1)"

lemma an_parse_cps_marked:
  assumes "source_ok g" and "marked (nl_tags lib spec) {''t'', ''c''}"
  shows "gives (an_parse_cps lib g spec) (\<lambda>b. b \<noteq> [])"
proof -
  have part: "gives (tag_part lib g td) (\<lambda>b. fst td \<in> {''t'', ''c''} \<longrightarrow> b \<noteq> [])" for td
  proof (cases "fst td \<in> {''t'', ''c''}")
    case True
    then show ?thesis unfolding tag_part_def Let_def
      by (cases td) (auto intro!: gives_bind [OF gives_epoch] gives_bind [OF returns_simple(1)] gives_return
          simp: word_be_not_Nil)
  qed (simp add: tag_part_gives [OF assms(1)])
  have "gives (task_map (tag_part lib g) tags) (\<lambda>parts. marked tags {''t'', ''c''} \<longrightarrow> concat parts \<noteq> [])" for tags
  proof (induction tags)
    case (Cons td tags)
    show ?case unfolding task_map.simps
      by (rule gives_bind [OF part], rule gives_bind [OF Cons.IH], rule gives_return)
        (auto simp: marked_def split: prod.splits)
  qed (simp add: marked_def gives_return)
  note this [of "nl_tags lib spec"]
  then show ?thesis unfolding an_parse_cps_def by (rule gives_bind) (use assms(2) in \<open>simp add: gives_return\<close>)
qed

lemma wrap_ikev2_gives: "source_ok g \<Longrightarrow> payload \<noteq> [] \<Longrightarrow> gives (wrap_ikev2 g payload) (\<lambda>p. p \<noteq> [])"
  unfolding wrap_ikev2_def Let_def
  by (auto intro!: gives_bind [OF gives_fill] gives_bind [where P = "\<lambda>b. True"] returns_rules gives_return)

lemma framed_round_gives:
  assumes "source_ok g"
  shows "gives (framed_round lib g sig) (\<lambda>acts.
    signature_ok (\<exists>spec. sig = Some spec \<and> marked (nl_tags lib spec) {''t'', ''c''}) sig (sent acts))"
proof (cases sig)
  case (Some spec)
  have "gives (an_parse_cps lib g spec) (\<lambda>b. marked (nl_tags lib spec) {''t'', ''c''} \<longrightarrow> b \<noteq> [])"
    using an_parse_cps_marked [OF assms] an_parse_cps_gives [OF assms]
    by (cases "marked (nl_tags lib spec) {''t'', ''c''}") simp_all
  then show ?thesis unfolding framed_round_def Some option.case
    by (rule gives_bind)
      (auto intro!: gives_if gives_bind [OF wrap_ikev2_gives [OF assms]] gives_return simp: signature_ok_def)
qed (simp add: framed_round_def gives_return signature_ok_def)

lemma plain_round_gives: "source_ok g \<Longrightarrow> gives (plain_round lib g sig) (\<lambda>acts. signature_ok False sig (sent acts))"
  unfolding plain_round_def
  by (auto split: option.splits intro!: gives_bind [OF an_parse_cps_gives] gives_return simp: signature_ok_def)

lemma plain_rounds_gives:
  assumes "source_ok g"
  shows "gives (task_map (plain_round lib g) sigs) (\<lambda>rounds.
    length (sent (concat rounds)) \<le> length (filter (\<lambda>sig. sig \<noteq> None) sigs) \<and>
    list_all (\<lambda>p. p \<noteq> []) (sent (concat rounds)))"
proof (induction sigs)
  case (Cons sig sigs)
  show ?case unfolding task_map.simps
    by (rule gives_bind [OF plain_round_gives [OF assms]], rule gives_bind [OF Cons.IH], rule gives_return)
      (auto simp: signature_ok_def)
qed (simp add: gives_return)

lemma apply_obfuscation_sends:
  assumes "source_ok g" and "an_is_enabled cfg" and "an_bounded cfg"
  shows "gives (apply_obfuscation lib g cfg) (\<lambda>acts. \<exists>first junk rest. sent acts = first @ junk @ rest \<and>
      signature_ok (\<exists>spec. an_i1 cfg = Some spec \<and> marked (nl_tags lib spec) {''t'', ''c''}) (an_i1 cfg) first \<and>
      length junk = an_jc_after_i1 cfg + an_jc_before_hs cfg \<and> list_all (junk_size_ok cfg) junk \<and>
      length rest \<le> length (filter (\<lambda>sig. sig \<noteq> None) [an_i2 cfg, an_i3 cfg, an_i4 cfg, an_i5 cfg]) \<and>
      list_all (\<lambda>p. p \<noteq> []) rest)"
proof -
  note junk = gives_bind [OF gives_rounds [OF an_junk_round_packet [OF assms(1,3)]]]
  show ?thesis unfolding apply_obfuscation_def not_not if_P [OF assms(2)] if_not_P [OF iffD2 [OF not_not assms(2)]]
  proof (rule gives_bind [OF framed_round_gives [OF assms(1)]], rule junk, rule junk,
      rule gives_bind [OF plain_rounds_gives [OF assms(1)]], rule gives_return, goal_cases)
    case (1 framed after before sigs)
    let ?junk = "sent (concat after) @ sent (concat before)"
    have "sent (framed @ concat after @ concat before @ concat sigs @ pause_after (an_handshake_delay cfg)) =
        sent framed @ ?junk @ sent (concat sigs)" by simp
    moreover have "length ?junk = an_jc_after_i1 cfg + an_jc_before_hs cfg" "list_all (junk_size_ok cfg) ?junk"
      using 1(2,3) by (simp_all only: list_all_iff length_append set_append) blast
    ultimately show ?case using 1(1,4) by blast
  qed
qed

definition wireguard_type :: "bytes \<Rightarrow> bool" where
  "wireguard_type p \<longleftrightarrow> p \<noteq> [] \<and> 1 \<le> hd p \<and> hd p \<le> 4"

lemma mask_first_ok: "junk_size_ok cfg p \<Longrightarrow> junk_size_ok cfg (mask_first p) \<and> \<not> wireguard_type (mask_first p)"
proof (cases p)
  case (Cons b bs)
  have "\<not> (1 \<le> b + 0x40 \<and> b + 0x40 \<le> 4)" if "1 \<le> b" "b \<le> 4" using that by (simp add: word_le_nat_alt unat_word_ariths)
  then show "junk_size_ok cfg p \<Longrightarrow> ?thesis" using Cons
    by (auto simp: junk_size_ok_def mask_first_def wireguard_type_def)
qed (simp add: mask_first_def wireguard_type_def)

lemma keepalive_count:
  assumes "source_ok g" and "an_is_enabled cfg" and "an_bounded cfg"
  shows "gives (send_keepalive_junk g cfg) (\<lambda>acts.
      max (an_jc_before_hs cfg) 1 \<le> length (sent acts) \<and> length (sent acts) \<le> 2 * max (an_jc_before_hs cfg) 1 \<and>
      (\<forall>p \<in> set (sent acts). junk_size_ok cfg p \<and> \<not> wireguard_type p))"
proof -
  have gap: "gives (duration_add (an_junk_interval cfg) jitter) (\<lambda>n. n = an_junk_interval cfg + jitter)" if "jitter \<le> 8" for jitter
    using that assms(3) by (intro gives_duration_add) (simp add: an_bounded_def)
  have count: "gives (usize_add (max (an_jc_before_hs cfg) 1) extra) (\<lambda>n. n = max (an_jc_before_hs cfg) 1 + extra)"
    if "extra \<le> max (an_jc_before_hs cfg) 1" for extra
    using that assms(3) by (intro gives_usize_add) (simp add: an_bounded_def)
  have "gives (keepalive_round g cfg) (one_packet (\<lambda>p. junk_size_ok cfg p \<and> \<not> wireguard_type p))"
    unfolding keepalive_round_def
    by (auto intro!: gives_bind [OF generate_junk_size [OF assms(1,3)]] gives_bind [OF gives_random_range [OF assms(1)]]
        gives_bind [OF gap] gives_return simp: one_packet_def mask_first_ok)
  note rounds = gives_rounds [OF this]
  show ?thesis unfolding send_keepalive_junk_def Let_def
      if_not_P [OF iffD2 [OF not_not assms(2)]]
    by (rule gives_bind [OF gives_random_range [OF assms(1)]], simp, rule gives_bind [OF count], simp,
        rule gives_bind [OF rounds], rule gives_return) auto
qed

subsection \<open>The QUIC carrier\<close>

definition nz_size_ok :: "noize_config \<Rightarrow> bytes \<Rightarrow> bool" where
  "nz_size_ok cfg p \<longleftrightarrow>
     (if 0 < nz_jmin cfg \<and> nz_jmin cfg < nz_jmax cfg then nz_jmin cfg \<le> length p \<and> length p \<le> nz_jmax cfg
      else 40 \<le> length p \<and> length p \<le> 90)"

lemma junk_packet_size: "source_ok g \<Longrightarrow> nz_bounded cfg \<Longrightarrow> gives (junk_packet g cfg) (nz_size_ok cfg)"
  unfolding junk_packet_def
  by (auto intro!: gives_bind [OF gives_random_range] gives_mono [OF gives_fill_vec] simp: nz_bounded_def nz_size_ok_def limits)

lemma junk_round_packet: "source_ok g \<Longrightarrow> nz_bounded cfg \<Longrightarrow> gives (junk_round g cfg) (one_packet (nz_size_ok cfg))"
  unfolding junk_round_def
  by (rule gives_bind [OF junk_packet_size]) (auto intro!: gives_return simp: one_packet_def)

lemma parse_cps_gives: "source_ok g \<Longrightarrow> gives (parse_cps hex g spec) (\<lambda>b. True)"
proof -
  assume g: "source_ok g"
  have "gives (cps_part hex g td) (\<lambda>b. True)" for td
    unfolding cps_part_def Let_def by (cases td) (auto intro!: returns_rules simp: g)
  then show ?thesis unfolding parse_cps_def
    by (intro gives_bind [OF gives_map [where P = "\<lambda>b. True"]]) (auto intro: gives_return)
qed

lemma parse_cps_marked:
  assumes "source_ok g" and "marked (cps_tags spec) {''t'', ''n''}"
  shows "gives (parse_cps hex g spec) (\<lambda>b. b \<noteq> [])"
proof -
  have part: "gives (cps_part hex g td) (\<lambda>b. fst td \<in> {''t'', ''n''} \<longrightarrow> b \<noteq> [])" for td
  proof (cases "fst td \<in> {''t'', ''n''}")
    case True
    then show ?thesis unfolding cps_part_def Let_def
      by (cases td) (auto intro!: gives_bind [OF gives_epoch] gives_return gives_mono [OF gives_fill [OF assms(1)]]
          simp: word_be_not_Nil)
  next
    case False
    then show ?thesis unfolding cps_part_def Let_def
      by (cases td) (auto intro!: returns_rules simp: assms(1))
  qed
  have "gives (task_map (cps_part hex g) tags) (\<lambda>parts. marked tags {''t'', ''n''} \<longrightarrow> concat parts \<noteq> [])" for tags
  proof (induction tags)
    case (Cons td tags)
    show ?case unfolding task_map.simps
      by (rule gives_bind [OF part], rule gives_bind [OF Cons.IH], rule gives_return)
        (auto simp: marked_def split: prod.splits)
  qed (simp add: marked_def gives_return)
  note this [of "cps_tags spec"]
  then show ?thesis unfolding parse_cps_def by (rule gives_bind) (use assms(2) in \<open>simp add: gives_return\<close>)
qed

abbreviation nz_marked :: "string option \<Rightarrow> bool" where
  "nz_marked sig \<equiv> \<exists>spec. sig = Some spec \<and> marked (cps_tags spec) {''t'', ''n''}"

lemma signature_round_gives:
  assumes "source_ok g"
  shows "gives (signature_round hex g sig ms) (\<lambda>acts. signature_ok (nz_marked sig) sig (sent acts))"
proof (cases sig)
  case (Some spec)
  have "gives (parse_cps hex g spec) (\<lambda>b. marked (cps_tags spec) {''t'', ''n''} \<longrightarrow> b \<noteq> [])"
    using parse_cps_marked [OF assms] parse_cps_gives [OF assms]
    by (cases "marked (cps_tags spec) {''t'', ''n''}") simp_all
  then show ?thesis unfolding signature_round_def Some option.case
    by (rule gives_bind) (auto intro!: gives_return simp: signature_ok_def)
qed (simp add: signature_round_def gives_return signature_ok_def)

lemma pre_handshake_sends:
  assumes "source_ok g" and "noize_is_enabled cfg" and "nz_bounded cfg"
  shows "gives (pre_handshake hex g cfg) (\<lambda>acts. \<exists>before first after second. sent acts = before @ first @ after @ second \<and>
      length before = nz_jc_before_hs cfg \<and> length after = nz_jc_after_i1 cfg \<and>
      list_all (nz_size_ok cfg) (before @ after) \<and>
      signature_ok (nz_marked (nz_i1 cfg)) (nz_i1 cfg) first \<and> signature_ok (nz_marked (nz_i2 cfg)) (nz_i2 cfg) second)"
proof -
  note junk = gives_bind [OF gives_rounds [OF junk_round_packet [OF assms(1,3)]]]
  note sig = gives_bind [OF signature_round_gives [OF assms(1)]]
  show ?thesis unfolding pre_handshake_def if_not_P [OF iffD2 [OF not_not assms(2)]]
  proof (rule junk, rule sig, rule junk, rule sig, rule gives_return, goal_cases)
    case (1 before first after second)
    have "sent (concat before @ first @ concat after @ second) =
        sent (concat before) @ sent first @ sent (concat after) @ sent second" by simp
    moreover have "list_all (nz_size_ok cfg) (sent (concat before) @ sent (concat after))"
      using 1(1,3) by (simp only: list_all_iff set_append) blast
    ultimately show ?case using 1 by blast
  qed
qed

subsection \<open>Properties\<close>

text \<open>
  Every profile announces as many junk datagrams as its phases send.
\<close>

lemma profile_counts:
  "an_jc (an_from_profile name) =
     an_jc_before_hs (an_from_profile name) + an_jc_after_i1 (an_from_profile name) + an_jc_after_hs (an_from_profile name)"
  by (simp add: an_from_profile_def Let_def an_off_def an_light_def an_balanced_def an_aggressive_def an_firewall_def
      an_gfw_def)

lemma an_profiles_bounded:
  "an_bounded an_off" "an_bounded an_light" "an_bounded an_balanced" "an_bounded an_aggressive" "an_bounded an_firewall"
  "an_bounded an_gfw"
  by (simp_all add: an_bounded_def limits an_off_def an_light_def an_balanced_def an_aggressive_def an_firewall_def an_gfw_def)

lemma nz_profiles_bounded: "nz_bounded noize_off" "nz_bounded noize_light" "nz_bounded noize_gfw" "nz_bounded noize_firewall"
  by (simp_all add: nz_bounded_def limits noize_off_def noize_light_def noize_gfw_def noize_firewall_def)

lemma profiles_bounded: "an_bounded (an_from_profile name)" "nz_bounded (noize_from_profile name)"
  by (simp_all only: an_from_profile_def Let_def noize_from_profile_def an_profiles_bounded nz_profiles_bounded split: if_split)
    simp_all



end
