(* ===== verification/Wireguard.thy ===== *)
theory Wireguard
  imports Aethernoize_Props Channel Netstack_Credit Masque_Proto Fragment
begin

text \<open>
  The WireGuard carrier of \<^verbatim>\<open>wireguard.rs\<close>: the client identifier in the reserved bytes of a message, the
  four tasks that share one session (reader, writer, timer, health check), the data-plane probe, and the
  verification of an endpoint.

  The session of the crate \<^verbatim>\<open>boringtun\<close> is a value of type \<open>'w\<close> that only the operations of the record
  \<open>wg_lib\<close> read and change; they read the clock, which is their argument. Durations are nanoseconds.
  Counters that are only logged are left out.
\<close>

subsection \<open>Constants\<close>

definition MAX_ENCAP_BATCH :: usize where
  "MAX_ENCAP_BATCH = 64"

definition VERIFY_RETRY_DELAYS :: "nat list" where
  "VERIFY_RETRY_DELAYS = [millis 750, millis 2000]"

definition WG_MSG_TYPE_MIN :: u8 where
  "WG_MSG_TYPE_MIN = 1"

definition WG_MSG_TYPE_MAX :: u8 where
  "WG_MSG_TYPE_MAX = 4"

definition MAX_TRANSIENT_RECV_ERRORS :: nat where
  "MAX_TRANSIENT_RECV_ERRORS = 64"

definition ENCAP_ERRORS_BEFORE_REKEY :: nat where
  "ENCAP_ERRORS_BEFORE_REKEY = 24"

definition REKEY_MIN_GAP :: nat where
  "REKEY_MIN_GAP = secs 3"

definition STALE_STRIKES_BEFORE_DEATH :: nat where
  "STALE_STRIKES_BEFORE_DEATH = 2"

definition WG_HEALTHCHECK_INTERVAL :: nat where
  "WG_HEALTHCHECK_INTERVAL = secs 3"

definition WG_HEALTHCHECK_JITTER :: nat where
  "WG_HEALTHCHECK_JITTER = millis 500"

definition DATAPLANE_REQUIRED_SUCCESSES :: nat where
  "DATAPLANE_REQUIRED_SUCCESSES = 2"

definition DATAPLANE_PROBE_GAP :: nat where
  "DATAPLANE_PROBE_GAP = millis 600"

datatype udp_error =
    UdpRefused | UdpReset | UdpAborted | UdpHostUnreachable | UdpNetworkUnreachable | UdpInterrupted
  | UdpWouldBlock | UdpTimedOut | UdpFatal string

definition is_transient_socket_error :: "udp_error \<Rightarrow> bool" where
  "is_transient_socket_error e =
     (case e of UdpFatal _ \<Rightarrow> False | _ \<Rightarrow> True)"

subsection \<open>The client identifier\<close>

definition wg_message :: "bytes \<Rightarrow> bool" where
  "wg_message pkt \<longleftrightarrow> \<not> length pkt < 4 \<and> \<not> (hd pkt < WG_MSG_TYPE_MIN \<or> WG_MSG_TYPE_MAX < hd pkt)"

definition inject_client_id :: "bytes \<Rightarrow> bytes \<Rightarrow> bytes" where
  "inject_client_id pkt client_id =
     (if wg_message pkt then take 1 pkt @ client_id @ drop 4 pkt else pkt)"

definition strip_client_id :: "bytes \<Rightarrow> bytes" where
  "strip_client_id pkt = (if wg_message pkt then take 1 pkt @ [0, 0, 0] @ drop 4 pkt else pkt)"

subsection \<open>The session\<close>

datatype tunn_result =
    TunnDone
  | TunnErr string
  | WriteToNetwork bytes
  | WriteToTunnelV4 bytes
  | WriteToTunnelV6 bytes

record session_keys =
  sk_private_key :: bytes
  sk_peer_public :: bytes
  sk_preshared :: "bytes option"
  sk_keepalive :: u16

record 'w wg_lib =
  wl_new :: "session_keys \<Rightarrow> 'w"
  wl_encapsulate :: "nat \<Rightarrow> bytes \<Rightarrow> 'w \<Rightarrow> tunn_result \<times> 'w"
  wl_decapsulate :: "nat \<Rightarrow> bytes \<Rightarrow> 'w \<Rightarrow> tunn_result \<times> 'w"
  wl_update_timers :: "nat \<Rightarrow> 'w \<Rightarrow> tunn_result \<times> 'w"

definition fresh_session :: "'w wg_lib \<Rightarrow> session_keys \<Rightarrow> 'w" where
  "fresh_session lib keys = wl_new lib keys"

text \<open>
  What the tasks of a tunnel share. The settings \<open>wg_client_id\<close>, \<open>wg_keys\<close>, \<open>wg_noize\<close> and \<open>wg_local_ipv4\<close>
  do not change; \<open>wg_inbound\<close> is the queue of the netstack.
\<close>

record 'w wg_tunnel =
  wg_tunn :: 'w
  wg_inbound :: "bytes chan"
  wg_obf_sent :: bool
  wg_noize :: aether_noize_config
  wg_client_id :: bytes
  wg_local_ipv4 :: ipv4_addr
  wg_keys :: session_keys
  wg_last_valid_rx :: nat
  wg_rekey_now :: bool
  wg_session_dead :: bool

record wg_config =
  wc_local_private_key :: bytes
  wc_peer_public_key :: bytes
  wc_local_ipv4 :: ipv4_addr
  wc_client_id :: bytes
  wc_preshared_key :: "bytes option"
  wc_persistent_keepalive :: "u16 option"
  wc_aethernoize :: aether_noize_config

definition wg_config_keys :: "wg_config \<Rightarrow> session_keys" where
  "wg_config_keys cfg =
     \<lparr>sk_private_key = wc_local_private_key cfg, sk_peer_public = wc_peer_public_key cfg,
      sk_preshared = wc_preshared_key cfg,
      sk_keepalive = (case wc_persistent_keepalive cfg of Some k \<Rightarrow> k | None \<Rightarrow> 25)\<rparr>"

text \<open>
  \<^verbatim>\<open>WgTunnel::new\<close> after the socket is bound; \<open>tunn\<close> is the session that \<^verbatim>\<open>Tunn::new\<close> makes for the
  configuration. The flags and the time of the last valid datagram are set when \<^verbatim>\<open>run\<close> starts.
\<close>

definition wg_tunnel_new :: "'w \<Rightarrow> wg_config \<Rightarrow> bytes chan \<Rightarrow> nat \<Rightarrow> 'w wg_tunnel" where
  "wg_tunnel_new tunn cfg inbound_tx now =
     \<lparr>wg_tunn = tunn, wg_inbound = inbound_tx, wg_obf_sent = False, wg_noize = wc_aethernoize cfg,
      wg_client_id = wc_client_id cfg, wg_local_ipv4 = wc_local_ipv4 cfg, wg_keys = wg_config_keys cfg,
      wg_last_valid_rx = now, wg_rekey_now = False, wg_session_dead = False\<rparr>"

record 'w established_session =
  es_tunn :: 'w
  es_client_id :: bytes
  es_keys :: session_keys

definition from_established :: "'w established_session \<Rightarrow> aether_noize_config \<Rightarrow> bytes chan \<Rightarrow> ipv4_addr \<Rightarrow> nat \<Rightarrow> 'w wg_tunnel" where
  "from_established session noize inbound_tx local_ipv4 now =
     \<lparr>wg_tunn = es_tunn session, wg_inbound = inbound_tx, wg_obf_sent = True, wg_noize = noize,
      wg_client_id = es_client_id session, wg_local_ipv4 = local_ipv4, wg_keys = es_keys session,
      wg_last_valid_rx = now, wg_rekey_now = False, wg_session_dead = False\<rparr>"

subsection \<open>The reader\<close>

text \<open>
  \<^verbatim>\<open>deliver_inbound\<close>: when the queue is full the reader waits a little; \<open>freed\<close> is the queue when its
  waiting send completes within that time, None when the time passes.
\<close>

definition deliver_inbound :: "bytes chan \<Rightarrow> bytes \<Rightarrow> bytes chan option \<Rightarrow> bool \<times> bytes chan" where
  "deliver_inbound tx pkt freed =
     (case try_send tx pkt of
        (Sent, tx') \<Rightarrow> (True, tx')
      | (Closed, tx') \<Rightarrow> (False, tx')
      | (Full, tx') \<Rightarrow>
          (case freed of
             None \<Rightarrow> (True, tx')
           | Some c \<Rightarrow> (case try_send c pkt of (r, c') \<Rightarrow> (r \<noteq> Closed, c'))))"

text \<open>
  The loop that drains the session after a datagram: whether anything valid came, the packets for the
  network in order, the packet for the tunnel, and the session. None: it does not end.
\<close>

partial_function (option) decap_loop :: "'w wg_lib \<Rightarrow> nat \<Rightarrow> bytes \<Rightarrow> bytes \<Rightarrow> 'w \<Rightarrow> bool \<Rightarrow> bytes list \<Rightarrow>
    (bool \<times> bytes list \<times> bytes list \<times> 'w) option" where
  "decap_loop lib now client_id data w progressed to_network =
     (case wl_decapsulate lib now data w of (outcome, w') \<Rightarrow>
        (case outcome of
           TunnDone \<Rightarrow> Some (True, to_network, [], w')
         | TunnErr e \<Rightarrow> Some (progressed, to_network, [], w')
         | WriteToNetwork pkt \<Rightarrow>
             decap_loop lib now client_id [] w' True (to_network @ [inject_client_id pkt client_id])
         | WriteToTunnelV4 pkt \<Rightarrow> Some (True, to_network, [pkt], w')
         | WriteToTunnelV6 pkt \<Rightarrow> Some (True, to_network, [pkt], w')))"

definition deliver_each :: "bytes list \<Rightarrow> bytes chan option \<Rightarrow> bytes chan \<Rightarrow> bool \<times> bytes chan" where
  "deliver_each to_tunnel freed tx =
     fold (\<lambda>pkt (ok, tx). if ok then deliver_inbound tx pkt freed else (ok, tx)) to_tunnel (True, tx)"

datatype recv_event = RecvOk bytes | RecvErr udp_error

datatype task_outcome = GoesOn | Ends

text \<open>
  One round of the reader: the datagrams it sends, its count of transient errors, and the tunnel.
\<close>

definition recv_round :: "'w wg_lib \<Rightarrow> nat \<Rightarrow> recv_event \<Rightarrow> bytes chan option \<Rightarrow> nat \<Rightarrow> 'w wg_tunnel \<Rightarrow>
    (task_outcome \<times> bytes list \<times> nat \<times> 'w wg_tunnel) option" where
  "recv_round lib now ev freed transient_errors s =
     (case ev of
        RecvOk datagram \<Rightarrow>
          (if datagram = [] then Some (GoesOn, [], transient_errors, s)
           else (case decap_loop lib now (wg_client_id s) (strip_client_id datagram) (wg_tunn s) False [] of
                   None \<Rightarrow> None
                 | Some (progressed, to_network, to_tunnel, w) \<Rightarrow>
                     (let s = s\<lparr>wg_tunn := w\<rparr>;
                          s = (if progressed then s\<lparr>wg_last_valid_rx := now\<rparr> else s)
                      in case deliver_each to_tunnel freed (wg_inbound s) of (ok, tx) \<Rightarrow>
                           Some (if ok then GoesOn else Ends, to_network, 0, s\<lparr>wg_inbound := tx\<rparr>))))
      | RecvErr e \<Rightarrow>
          (if is_transient_socket_error e
           then let n = transient_errors + 1
                in Some (if MAX_TRANSIENT_RECV_ERRORS < n then Ends else GoesOn, [], n, s)
           else Some (Ends, [], transient_errors, s)))"

subsection \<open>The writer\<close>

record wg_writer =
  ww_post_hs_junk_sent :: bool
  ww_encap_errors :: nat
  ww_obfuscation_settled :: bool

definition wg_writer_start :: wg_writer where
  "wg_writer_start = \<lparr>ww_post_hs_junk_sent = False, ww_encap_errors = 0, ww_obfuscation_settled = False\<rparr>"

text \<open>The burst: the first packet and what already waits behind it.\<close>

definition gather_burst :: "bytes chan \<Rightarrow> bytes list \<times> bytes chan" where
  "gather_burst c = (take MAX_ENCAP_BATCH (ch_items c), c\<lparr>ch_items := drop MAX_ENCAP_BATCH (ch_items c)\<rparr>)"

definition encap_one :: "'w wg_lib \<Rightarrow> nat \<Rightarrow> bytes \<Rightarrow> bytes \<Rightarrow> nat \<times> bool \<times> bytes list \<times> 'w \<Rightarrow> nat \<times> bool \<times> bytes list \<times> 'w" where
  "encap_one lib now client_id ip_packet st =
     (case st of (errors, rekey, wire, w) \<Rightarrow>
        (case wl_encapsulate lib now ip_packet w of
           (TunnDone, w') \<Rightarrow> (0, rekey, wire, w')
         | (TunnErr e, w') \<Rightarrow>
             (let errors = min (errors + 1) (2 ^ 32 - 1)
              in (errors, rekey \<or> ENCAP_ERRORS_BEFORE_REKEY \<le> errors, wire, w'))
         | (WriteToNetwork pkt, w') \<Rightarrow> (0, rekey, wire @ [inject_client_id pkt client_id], w')
         | (WriteToTunnelV4 pkt, w') \<Rightarrow> (errors, rekey, wire, w')
         | (WriteToTunnelV6 pkt, w') \<Rightarrow> (errors, rekey, wire, w')))"

definition encap_burst :: "'w wg_lib \<Rightarrow> nat \<Rightarrow> bytes list \<Rightarrow> wg_writer \<Rightarrow> 'w wg_tunnel \<Rightarrow> bytes list \<times> wg_writer \<times> 'w wg_tunnel" where
  "encap_burst lib now batch wr s =
     (case fold (encap_one lib now (wg_client_id s)) batch (ww_encap_errors wr, wg_rekey_now s, [], wg_tunn s) of
        (errors, rekey, wire, w) \<Rightarrow>
          (wire, wr\<lparr>ww_encap_errors := errors\<rparr>, s\<lparr>wg_tunn := w, wg_rekey_now := rekey\<rparr>))"

text \<open>
  One round of the writer: what goes to the socket, in order. A packet that the socket refuses for good
  is dropped by the loop around \<^verbatim>\<open>try_send\<close>; a full socket makes it wait.
\<close>

definition write_burst :: "'w wg_lib \<Rightarrow> noize_lib \<Rightarrow> 'r source \<Rightarrow> nat \<Rightarrow> bytes list \<Rightarrow> wg_writer \<Rightarrow> 'w wg_tunnel \<Rightarrow>
    ('r proc, noize_act list \<times> wg_writer \<times> 'w wg_tunnel) task" where
  "write_burst lib nlib g now batch wr s =
     (case encap_burst lib now batch wr s of (wire, wr, s) \<Rightarrow>
        if wire = [] then task_return ([], wr, s)
        else let settle = \<not> ww_obfuscation_settled wr;
                 obfuscate = settle \<and> \<not> wg_obf_sent s \<and> an_is_enabled (wg_noize s);
                 wr = wr\<lparr>ww_obfuscation_settled := True\<rparr>;
                 s = (if obfuscate then s\<lparr>wg_obf_sent := True\<rparr> else s);
                 junk = 0 < an_jc_after_hs (wg_noize s) \<and> \<not> ww_post_hs_junk_sent wr;
                 wr' = (if junk then wr\<lparr>ww_post_hs_junk_sent := True\<rparr> else wr)
             in task_bind (if obfuscate then apply_obfuscation nlib g (wg_noize s) else task_return []) (\<lambda>before.
                task_bind (if junk then send_post_handshake_junk g (wg_noize s) else task_return []) (\<lambda>after.
                  task_return (before @ map SendPacket wire @ after, wr', s))))"

subsection \<open>The timer\<close>

text \<open>What a tick does under the session lock: the packets to send, the time of the last rekey, the tunnel.\<close>

definition timer_rekey :: "'w wg_lib \<Rightarrow> nat \<Rightarrow> bytes list \<Rightarrow> nat \<Rightarrow> 'w wg_tunnel \<Rightarrow> bytes list \<times> nat \<times> 'w wg_tunnel" where
  "timer_rekey lib now outgoing last_rekey s =
     (if REKEY_MIN_GAP \<le> now - last_rekey
      then (case wl_encapsulate lib now [] (fresh_session lib (wg_keys s)) of
              (WriteToNetwork pkt, w) \<Rightarrow>
                (outgoing @ [inject_client_id pkt (wg_client_id s)], now, s\<lparr>wg_tunn := w\<rparr>)
            | (_, w) \<Rightarrow> (outgoing, now, s\<lparr>wg_tunn := w, wg_session_dead := True\<rparr>))
      else (outgoing, last_rekey, s))"

definition timer_session :: "'w wg_lib \<Rightarrow> nat \<Rightarrow> nat \<Rightarrow> 'w wg_tunnel \<Rightarrow> bytes list \<times> nat \<times> 'w wg_tunnel" where
  "timer_session lib now last_rekey s =
     (let want_rekey = wg_rekey_now s;
          s = s\<lparr>wg_rekey_now := False\<rparr>
      in case wl_update_timers lib now (wg_tunn s) of (r, w) \<Rightarrow>
         let s = s\<lparr>wg_tunn := w\<rparr>
         in case r of
              WriteToNetwork pkt \<Rightarrow>
                (let outgoing = [inject_client_id pkt (wg_client_id s)]
                 in if want_rekey then timer_rekey lib now outgoing last_rekey s else (outgoing, last_rekey, s))
            | TunnErr e \<Rightarrow> timer_rekey lib now [] last_rekey s
            | _ \<Rightarrow> if want_rekey then timer_rekey lib now [] last_rekey s else ([], last_rekey, s))"

definition timer_tick :: "'w wg_lib \<Rightarrow> 'r source \<Rightarrow> nat \<Rightarrow> nat \<Rightarrow> 'w wg_tunnel \<Rightarrow>
    ('r proc, noize_act list \<times> nat \<times> 'w wg_tunnel) task" where
  "timer_tick lib g now last_rekey s =
     (case timer_session lib now last_rekey s of (outgoing, last_rekey, s) \<Rightarrow>
        task_bind (if outgoing \<noteq> [] \<and> an_is_enabled (wg_noize s) then send_keepalive_junk g (wg_noize s) else task_return [])
          (\<lambda>junk. task_return (junk @ map SendPacket outgoing, last_rekey, s)))"

definition timer_start :: "nat \<Rightarrow> nat" where
  "timer_start now = (if REKEY_MIN_GAP \<le> now then now - REKEY_MIN_GAP else now)"

subsection \<open>The data-plane probe\<close>

definition wg_build_dns_query :: "u16 \<Rightarrow> bytes" where
  "wg_build_dns_query qid =
     word_be 2 qid @ [0x01, 0x00] @ [0x00, 0x01] @ [0x00, 0x00, 0x00, 0x00, 0x00, 0x00] @
     concat (map (\<lambda>label. of_nat (length label) # as_bytes label) [''cloudflare'', ''com'']) @
     [0x00] @ [0x00, 0x01] @ [0x00, 0x01]"

definition wg_ipv4_checksum :: "bytes \<Rightarrow> u16" where
  "wg_ipv4_checksum header = NOT (ucast (fold_carries (sum_be16 0 header)))"

text \<open>The draws are the identifiers of the query and of the IP header, and the source port.\<close>

definition build_dataplane_probe :: "ipv4_addr \<Rightarrow> u16 \<Rightarrow> u16 \<Rightarrow> u16 \<Rightarrow> bytes" where
  "build_dataplane_probe src qid ip_id sport =
     (let dns = wg_build_dns_query qid;
          udp_len = 8 + length dns;
          total_len = 20 + udp_len;
          pkt = [0x45, 0x00] @ word_be 2 (of_nat total_len :: u16) @ word_be 2 ip_id @ [0x00, 0x00] @
                [64, 17] @ [0x00, 0x00] @ v4_octets src @ v4_octets (v4_new 8 8 8 8);
          csum = wg_ipv4_checksum (take 20 pkt);
          pkt = overwrite pkt 10 (word_be 2 csum)
      in pkt @ word_be 2 sport @ word_be 2 (53 :: u16) @ word_be 2 (of_nat udp_len :: u16) @ [0x00, 0x00] @ dns)"

text \<open>The datagrams it hands to the socket; \<open>send_err\<close> is the error of that send.\<close>

definition send_dataplane_probe :: "'w wg_lib \<Rightarrow> nat \<Rightarrow> bytes \<Rightarrow> bytes \<Rightarrow> string option \<Rightarrow> 'w \<Rightarrow>
    unit result \<times> bytes list \<times> 'w" where
  "send_dataplane_probe lib now client_id probe send_err w =
     (case wl_encapsulate lib now probe w of
        (WriteToNetwork pkt, w') \<Rightarrow>
          (case send_err of None \<Rightarrow> Inr () | Some e \<Rightarrow> Inl (Io e), [inject_client_id pkt client_id], w')
      | (TunnErr e, w') \<Rightarrow> (Inl (Other (''dataplane encap: '' @ e)), [], w')
      | (_, w') \<Rightarrow> (Inr (), [], w'))"

subsection \<open>The health check\<close>

definition health_check_pause :: "nat \<Rightarrow> nat" where
  "health_check_pause offset_ms = WG_HEALTHCHECK_INTERVAL - WG_HEALTHCHECK_JITTER + millis offset_ms"

definition wg_stale_timeout :: "env \<Rightarrow> nat" where
  "wg_stale_timeout env =
     (let parsed = (case env ''AETHER_WG_STALE_SECS'' of None \<Rightarrow> None | Some v \<Rightarrow> parse_uint (2 ^ 64 - 1) v)
      in secs (case parsed of None \<Rightarrow> 20 | Some v \<Rightarrow> if 0 < v then min v 86400 else 20))"

definition health_tick :: "'w wg_lib \<Rightarrow> nat \<Rightarrow> nat \<Rightarrow> u16 \<times> u16 \<times> u16 \<Rightarrow> nat \<Rightarrow> 'w wg_tunnel \<Rightarrow>
    aether_error option \<times> bytes list \<times> nat \<times> 'w wg_tunnel" where
  "health_tick lib stale_timeout now draws strikes s =
     (if wg_session_dead s
      then (Some (Other ''wireguard session expired and could not be re-handshaked''), [], strikes, s)
      else let idle = now - wg_last_valid_rx s;
               s = (if stale_timeout div 2 \<le> idle then s\<lparr>wg_rekey_now := True\<rparr> else s);
               strikes = (if stale_timeout \<le> idle then min (strikes + 1) (2 ^ 32 - 1) else 0)
           in if stale_timeout \<le> idle \<and> STALE_STRIKES_BEFORE_DEATH \<le> strikes
              then (Some (Other ''wireguard tunnel stale: no valid data from peer''), [], strikes, s)
              else case draws of (qid, ip_id, sport) \<Rightarrow>
                   (case send_dataplane_probe lib now (wg_client_id s)
                       (build_dataplane_probe (wg_local_ipv4 s) qid ip_id sport) None (wg_tunn s) of
                      (r, pkts, w) \<Rightarrow> (None, pkts, strikes, s\<lparr>wg_tunn := w\<rparr>)))"

text \<open>The first of the four tasks to end decides what \<^verbatim>\<open>run\<close> returns; the others are aborted.\<close>

datatype wg_ended = RecvEnded | SendEnded | TimerEnded | HealthEnded "unit result" | HealthPanicked string

definition wg_run_result :: "wg_ended \<Rightarrow> unit result" where
  "wg_run_result t =
     (case t of
        HealthEnded (Inl e) \<Rightarrow> Inl e
      | HealthPanicked e \<Rightarrow> Inl (Other (''health task panicked: '' @ e))
      | _ \<Rightarrow> Inr ())"

subsection \<open>Verifying an endpoint\<close>

text \<open>
  A round of the data-plane check: the clock when it starts, and what ends its wait. A datagram comes
  with the clock after it, which the code reads again.
\<close>

datatype dp_event = DpDatagram nat bytes | DpRecvFailed string | DpTimer

record 'w dp_state =
  dp_tunn :: 'w
  dp_successes :: nat
  dp_last_probe_at :: nat
  dp_resend_at :: nat
  dp_sent :: "bytes list"

definition dp_probe :: "'w wg_lib \<Rightarrow> nat \<Rightarrow> bytes \<Rightarrow> bytes \<Rightarrow> nat \<Rightarrow> 'w dp_state \<Rightarrow> 'w dp_state" where
  "dp_probe lib now client_id probe sent_at d =
     (case send_dataplane_probe lib now client_id probe None (dp_tunn d) of
        (r, pkts, w) \<Rightarrow>
          d\<lparr>dp_tunn := w, dp_sent := dp_sent d @ pkts, dp_last_probe_at := sent_at, dp_resend_at := sent_at + millis 700\<rparr>)"

definition dp_round :: "'w wg_lib \<Rightarrow> bytes \<Rightarrow> bytes \<Rightarrow> nat \<Rightarrow> nat \<Rightarrow> nat \<Rightarrow> dp_event \<Rightarrow> 'w dp_state \<Rightarrow>
    nat result option \<times> 'w dp_state" where
  "dp_round lib client_id probe start deadline now ev d =
     (if deadline \<le> now then (Some (Inl (Other ''dataplane timeout'')), d)
      else let d = (if dp_resend_at d \<le> now then dp_probe lib now client_id probe now d else d)
           in case ev of
                DpTimer \<Rightarrow> (None, d)
              | DpRecvFailed e \<Rightarrow> (Some (Inl (Io e)), d)
              | DpDatagram later data \<Rightarrow>
                  (case wl_decapsulate lib later (strip_client_id data) (dp_tunn d) of (r, w) \<Rightarrow>
                   let d = d\<lparr>dp_tunn := w\<rparr>;
                       confirm =
                         (let d = d\<lparr>dp_successes := dp_successes d + 1\<rparr>
                          in if DATAPLANE_REQUIRED_SUCCESSES \<le> dp_successes d then (Some (Inr (later - start)), d)
                             else (None, dp_probe lib later client_id probe
                                           (max later (dp_last_probe_at d + DATAPLANE_PROBE_GAP)) d))
                   in case r of
                        WriteToTunnelV4 pkt \<Rightarrow> confirm
                      | WriteToTunnelV6 pkt \<Rightarrow> confirm
                      | WriteToNetwork pkt \<Rightarrow> (None, d\<lparr>dp_sent := dp_sent d @ [inject_client_id pkt client_id]\<rparr>)
                      | _ \<Rightarrow> (None, d)))"

fun dp_rounds :: "'w wg_lib \<Rightarrow> bytes \<Rightarrow> bytes \<Rightarrow> nat \<Rightarrow> nat \<Rightarrow> (nat \<times> dp_event) list \<Rightarrow> 'w dp_state \<Rightarrow>
    nat result option \<times> 'w dp_state" where
  "dp_rounds lib client_id probe start deadline [] d = (None, d)"
| "dp_rounds lib client_id probe start deadline ((now, ev) # evs) d =
     (case dp_round lib client_id probe start deadline now ev d of
        (Some r, d) \<Rightarrow> (Some r, d)
      | (None, d) \<Rightarrow> dp_rounds lib client_id probe start deadline evs d)"

definition verify_dataplane :: "'w wg_lib \<Rightarrow> bytes \<Rightarrow> bytes \<Rightarrow> string option \<Rightarrow> nat \<Rightarrow> nat \<Rightarrow> nat \<Rightarrow> (nat \<times> dp_event) list \<Rightarrow> 'w \<Rightarrow>
    nat result option \<times> 'w dp_state" where
  "verify_dataplane lib client_id probe send_err now start deadline evs w =
     (case send_dataplane_probe lib now client_id probe send_err w of
        (r, pkts, w') \<Rightarrow>
          let d = \<lparr>dp_tunn = w', dp_successes = 0, dp_last_probe_at = now, dp_resend_at = now + millis 700, dp_sent = pkts\<rparr>
          in case r of Inl e \<Rightarrow> (Some (Inl e), d) | Inr _ \<Rightarrow> dp_rounds lib client_id probe start deadline evs d)"

text \<open>
  A round of the handshake: the clock at its start and what ends its wait, with the clock after it and the
  errors of the sends that follow.
\<close>

datatype vf_event =
    VfDatagram nat bytes "string option"
  | VfRecvFailed string
  | VfTick nat "string option" "string option"
  | VfDeadline

record 'w vf_state =
  vf_tunn :: 'w
  vf_retry_index :: nat
  vf_sent :: "bytes list"
  vf_shaken_at :: nat

definition vf_retry :: "nat \<Rightarrow> bytes \<Rightarrow> string option \<Rightarrow> 'w vf_state \<Rightarrow> string option \<times> 'w vf_state" where
  "vf_retry elapsed init_packet err v =
     (if vf_retry_index v < length VERIFY_RETRY_DELAYS \<and> VERIFY_RETRY_DELAYS ! vf_retry_index v \<le> elapsed
      then (err, v\<lparr>vf_retry_index := vf_retry_index v + 1, vf_sent := vf_sent v @ [init_packet]\<rparr>)
      else (None, v))"

datatype vf_step = VfWait | VfShaken | VfFails aether_error

definition vf_round :: "'w wg_lib \<Rightarrow> bytes \<Rightarrow> bytes \<Rightarrow> nat \<Rightarrow> nat \<Rightarrow> nat \<Rightarrow> vf_event \<Rightarrow> 'w vf_state \<Rightarrow> vf_step \<times> 'w vf_state" where
  "vf_round lib client_id init_packet start deadline now ev v =
     (if deadline \<le> now then (VfFails (Other ''verify timeout''), v)
      else case ev of
        VfDeadline \<Rightarrow> (VfFails (Other ''verify timeout''), v)
      | VfRecvFailed e \<Rightarrow> (VfFails (Io e), v)
      | VfDatagram later data err \<Rightarrow>
          if data = [] then (VfWait, v)
          else (case wl_decapsulate lib later (strip_client_id data) (vf_tunn v) of (r, w) \<Rightarrow>
                let v = v\<lparr>vf_tunn := w, vf_shaken_at := later\<rparr>
                in case r of
                     TunnDone \<Rightarrow> (VfShaken, v)
                   | WriteToNetwork pkt \<Rightarrow>
                       (case err of Some e \<Rightarrow> VfFails (Io e) | None \<Rightarrow> VfShaken,
                        v\<lparr>vf_sent := vf_sent v @ [inject_client_id pkt client_id]\<rparr>)
                   | _ \<Rightarrow> (VfWait, v))
      | VfTick later err1 err2 \<Rightarrow>
          (case vf_retry (later - start) init_packet err1 v of
             (Some e, v) \<Rightarrow> (VfFails (Io e), v)
           | (None, v) \<Rightarrow>
               (case wl_update_timers lib later (vf_tunn v) of (r, w) \<Rightarrow>
                let v = v\<lparr>vf_tunn := w\<rparr>
                in case r of
                     WriteToNetwork pkt \<Rightarrow>
                       (case err2 of Some e \<Rightarrow> VfFails (Io e) | None \<Rightarrow> VfWait,
                        v\<lparr>vf_sent := vf_sent v @ [inject_client_id pkt client_id]\<rparr>)
                   | TunnErr e \<Rightarrow> (VfFails (Other (''wireguard timer failed: '' @ e)), v)
                   | _ \<Rightarrow> (VfWait, v))))"

fun vf_rounds :: "'w wg_lib \<Rightarrow> bytes \<Rightarrow> bytes \<Rightarrow> nat \<Rightarrow> nat \<Rightarrow> (nat \<times> vf_event) list \<Rightarrow> 'w vf_state \<Rightarrow> vf_step \<times> 'w vf_state" where
  "vf_rounds lib client_id init_packet start deadline [] v = (VfWait, v)"
| "vf_rounds lib client_id init_packet start deadline ((now, ev) # evs) v =
     (case vf_round lib client_id init_packet start deadline now ev v of
        (VfWait, v) \<Rightarrow> vf_rounds lib client_id init_packet start deadline evs v
      | (r, v) \<Rightarrow> (r, v))"

definition verify_keys :: "bytes \<Rightarrow> bytes \<Rightarrow> u16 option \<Rightarrow> session_keys" where
  "verify_keys private_key peer_public keepalive =
     \<lparr>sk_private_key = private_key, sk_peer_public = peer_public, sk_preshared = None,
      sk_keepalive = (case keepalive of Some k \<Rightarrow> k | None \<Rightarrow> 25)\<rparr>"

text \<open>
  \<^verbatim>\<open>verify_endpoint_keep_session\<close> after the socket is bound and the obfuscation is sent: \<open>start\<close> is the time
  it began and \<open>now\<close> the time of the first packet, \<open>evs\<close> are the rounds of the handshake. After it comes
  the data-plane check with the rounds \<open>dp_evs\<close>, unless \<open>data_check\<close> is off; \<open>dp_err\<close> is the error of its
  first send. None: it still waits. The datagrams it sent come second.
\<close>

definition verify_endpoint_keep_session :: "'w wg_lib \<Rightarrow> bool \<Rightarrow> bytes \<Rightarrow> session_keys \<Rightarrow> bytes \<Rightarrow> nat \<Rightarrow> nat \<Rightarrow> nat \<Rightarrow>
    string option \<Rightarrow> (nat \<times> vf_event) list \<Rightarrow> string option \<Rightarrow> (nat \<times> dp_event) list \<Rightarrow>
    (nat \<times> 'w established_session) result option \<times> bytes list" where
  "verify_endpoint_keep_session lib data_check client_id keys probe start now timeout err evs dp_err dp_evs =
     (let deadline = start + timeout;
          session = (\<lambda>w. \<lparr>es_tunn = w, es_client_id = client_id, es_keys = keys\<rparr>)
      in case wl_encapsulate lib now [] (wl_new lib keys) of
           (WriteToNetwork pkt, w) \<Rightarrow>
             (let init_packet = inject_client_id pkt client_id
              in case err of
                   Some e \<Rightarrow> (Some (Inl (Io e)), [init_packet])
                 | None \<Rightarrow>
                     (case vf_rounds lib client_id init_packet start deadline evs
                         \<lparr>vf_tunn = w, vf_retry_index = 0, vf_sent = [init_packet], vf_shaken_at = now\<rparr> of
                        (VfWait, v) \<Rightarrow> (None, vf_sent v)
                      | (VfFails e, v) \<Rightarrow> (Some (Inl e), vf_sent v)
                      | (VfShaken, v) \<Rightarrow>
                          if \<not> data_check then (Some (Inr (vf_shaken_at v - start, session (vf_tunn v))), vf_sent v)
                          else (case verify_dataplane lib client_id probe dp_err (vf_shaken_at v) start deadline dp_evs (vf_tunn v) of
                                  (None, d) \<Rightarrow> (None, vf_sent v @ dp_sent d)
                                | (Some (Inl e), d) \<Rightarrow> (Some (Inl e), vf_sent v @ dp_sent d)
                                | (Some (Inr elapsed), d) \<Rightarrow>
                                    (Some (Inr (elapsed, session (dp_tunn d))), vf_sent v @ dp_sent d))))
         | (_, w) \<Rightarrow> (Some (Inl (Other ''handshake init failed'')), []))"

definition verify_endpoint :: "(nat \<times> 'w established_session) result option \<Rightarrow> nat result option" where
  "verify_endpoint r = map_option (\<lambda>r. case r of Inl e \<Rightarrow> Inl e | Inr (elapsed, session) \<Rightarrow> Inr elapsed) r"

end
