(* ===== verification/Wireguard_Props.thy ===== *)
theory Wireguard_Props
  imports Wireguard
begin

text \<open>
  What the WireGuard carrier guarantees for every session library: the client identifier is on every
  message that leaves and off every message that is read, the reader drains the session and returns, a
  silent peer is given up after two checks, and an endpoint is accepted only after two answers.
\<close>

subsection \<open>The client identifier\<close>

definition stamped :: "bytes \<Rightarrow> bytes \<Rightarrow> bool" where
  "stamped client_id pkt \<longleftrightarrow> (if wg_message pkt then take 3 (drop 1 pkt) = client_id else True)"

lemma wg_message_split: "wg_message pkt \<Longrightarrow> \<exists>t a b c r. pkt = t # a # b # c # r"
  by (cases pkt; cases "tl pkt"; cases "tl (tl pkt)"; cases "tl (tl (tl pkt))") (auto simp: wg_message_def)

lemma inject_shape:
  assumes "length client_id = 3"
  shows "stamped client_id (inject_client_id pkt client_id)"
    and "wg_message (inject_client_id pkt client_id) \<longleftrightarrow> wg_message pkt"
    and "length (inject_client_id pkt client_id) = length pkt"
    and "strip_client_id (inject_client_id pkt client_id) = strip_client_id pkt"
proof -
  obtain x y z where c: "client_id = [x, y, z]" using assms by (auto simp: length_Suc_conv numeral_3_eq_3)
  show "stamped client_id (inject_client_id pkt client_id)"
    and "wg_message (inject_client_id pkt client_id) \<longleftrightarrow> wg_message pkt"
    and "length (inject_client_id pkt client_id) = length pkt"
    and "strip_client_id (inject_client_id pkt client_id) = strip_client_id pkt"
    using wg_message_split [of pkt] c
    by (auto simp: stamped_def inject_client_id_def strip_client_id_def wg_message_def)
qed

lemma strip_inject_zero:
  "wg_message (t # 0 # 0 # 0 # r) \<Longrightarrow> length client_id = 3 \<Longrightarrow>
     strip_client_id (inject_client_id (t # 0 # 0 # 0 # r) client_id) = t # 0 # 0 # 0 # r"
  using inject_shape(4) [of client_id "t # 0 # 0 # 0 # r"] by (simp add: strip_client_id_def)

text \<open>What a run of the draining loop preserves of the packets for the network.\<close>

text \<open>
  What a session hands out for a datagram, call by call: the packets for the network in order, at most one
  packet for the tunnel, and whether the first call failed.
\<close>

inductive hands_out :: "'w wg_lib \<Rightarrow> nat \<Rightarrow> bytes \<Rightarrow> 'w \<Rightarrow> bytes list \<Rightarrow> bytes list \<Rightarrow> 'w \<Rightarrow> bool" for lib now where
  over: "wl_decapsulate lib now data w = (TunnDone, w') \<Longrightarrow> hands_out lib now data w [] [] w'"
| failed: "wl_decapsulate lib now data w = (TunnErr e, w') \<Longrightarrow> hands_out lib now data w [] [] w'"
| network: "wl_decapsulate lib now data w = (WriteToNetwork pkt, w1) \<Longrightarrow> hands_out lib now [] w1 net tun w' \<Longrightarrow>
    hands_out lib now data w (pkt # net) tun w'"
| tunnel4: "wl_decapsulate lib now data w = (WriteToTunnelV4 pkt, w') \<Longrightarrow> hands_out lib now data w [] [pkt] w'"
| tunnel6: "wl_decapsulate lib now data w = (WriteToTunnelV6 pkt, w') \<Longrightarrow> hands_out lib now data w [] [pkt] w'"

definition decap_fails :: "'w wg_lib \<Rightarrow> nat \<Rightarrow> bytes \<Rightarrow> 'w \<Rightarrow> bool" where
  "decap_fails lib now data w \<longleftrightarrow> (case fst (wl_decapsulate lib now data w) of TunnErr _ \<Rightarrow> True | _ \<Rightarrow> False)"

lemma decap_loop_result:
  assumes "decap_loop lib now client_id data w p net = Some r"
  shows "\<exists>pkts tun w'. r = (p \<or> \<not> decap_fails lib now data w, net @ map (\<lambda>q. inject_client_id q client_id) pkts, tun, w') \<and>
    hands_out lib now data w pkts tun w' \<and> length tun \<le> 1"
  using assms
proof (induction lib now client_id data w p net r rule: decap_loop.raw_induct [rotated, consumes 1])
  case (1 loop lib now client_id data w p net r)
  obtain res w1 where d: "wl_decapsulate lib now data w = (res, w1)" by (cases "wl_decapsulate lib now data w")
  show ?case
  proof (cases res)
    case (WriteToNetwork pkt)
    then have "loop lib now client_id [] w1 True (net @ [inject_client_id pkt client_id]) = Some r"
      using 1(2) d by simp
    from 1(1) [OF this] obtain pkts tun w' where r:
      "r = (True, (net @ [inject_client_id pkt client_id]) @ map (\<lambda>q. inject_client_id q client_id) pkts, tun, w')"
      "hands_out lib now [] w1 pkts tun w'" "length tun \<le> 1" by auto
    then show ?thesis using d WriteToNetwork hands_out.network [of lib now data w pkt w1 pkts tun w']
      by (intro exI [of _ "pkt # pkts"] exI [of _ tun] exI [of _ w']) (simp add: decap_fails_def)
  qed (use 1(2) d in \<open>auto simp: decap_fails_def intro: hands_out.intros exI [of _ "[]"]\<close>)
qed

lemma stamp_all:
  "length client_id = 3 \<Longrightarrow> list_all (stamped client_id) (map (\<lambda>q. inject_client_id q client_id) pkts)"
  by (simp add: list_all_iff inject_shape(1))

lemma encap_fold_stamped:
  assumes "length client_id = 3" and "list_all (stamped client_id) (fst (snd (snd st)))"
  shows "list_all (stamped client_id) (fst (snd (snd (fold (encap_one lib now client_id) batch st))))"
  using assms(2)
proof (induction batch arbitrary: st)
  case (Cons pkt batch)
  have "list_all (stamped client_id) (fst (snd (snd (encap_one lib now client_id pkt st))))"
    using Cons.prems inject_shape(1) [OF assms(1)]
    by (auto simp: encap_one_def Let_def split: prod.splits tunn_result.splits)
  then show ?case using Cons.IH by simp
qed simp

lemma encap_burst_stamped:
  assumes "length (wg_client_id s) = 3" and "encap_burst lib now batch wr s = (wire, wr', s')"
  shows "list_all (stamped (wg_client_id s)) wire \<and> wg_client_id s' = wg_client_id s"
  using assms(2) encap_fold_stamped [OF assms(1), of "(ww_encap_errors wr, wg_rekey_now s, [], wg_tunn s)" lib now batch]
  by (auto simp: encap_burst_def split: prod.splits)

lemma probe_stamped:
  "length client_id = 3 \<Longrightarrow> list_all (stamped client_id) (fst (snd (send_dataplane_probe lib now client_id probe err w)))"
  by (auto simp: send_dataplane_probe_def inject_shape(1) split: prod.splits tunn_result.splits)

lemma health_tick_stamped:
  "length (wg_client_id s) = 3 \<Longrightarrow> list_all (stamped (wg_client_id s)) (fst (snd (health_tick lib stale now draws strikes s)))"
  using probe_stamped [of "wg_client_id s" lib now]
  by (auto simp: health_tick_def Let_def split: prod.splits) (metis fst_conv snd_conv)+

lemma dp_probe_stamped:
  assumes "length client_id = 3" and "list_all (stamped client_id) (dp_sent d)"
  shows "list_all (stamped client_id) (dp_sent (dp_probe lib now client_id probe sent_at d))"
proof -
  obtain r pkts w where "send_dataplane_probe lib now client_id probe None (dp_tunn d) = (r, pkts, w)"
    by (cases "send_dataplane_probe lib now client_id probe None (dp_tunn d)")
  with assms probe_stamped [of client_id lib now probe None "dp_tunn d"] show ?thesis by (simp add: dp_probe_def)
qed

lemma dp_round_stamped:
  assumes "length client_id = 3" and "list_all (stamped client_id) (dp_sent d)"
  shows "list_all (stamped client_id) (dp_sent (snd (dp_round lib client_id probe start deadline now ev d)))"
  using assms
  by (auto simp: dp_round_def Let_def dp_probe_stamped inject_shape(1)
      split: dp_event.splits prod.splits tunn_result.splits)

lemma dp_rounds_stamped:
  assumes "length client_id = 3"
  shows "list_all (stamped client_id) (dp_sent d) \<Longrightarrow>
    list_all (stamped client_id) (dp_sent (snd (dp_rounds lib client_id probe start deadline evs d)))"
proof (induction evs arbitrary: d)
  case (Cons e evs)
  obtain now ev where e: "e = (now, ev)" by (cases e)
  obtain r d' where r: "dp_round lib client_id probe start deadline now ev d = (r, d')"
    by (cases "dp_round lib client_id probe start deadline now ev d")
  then have "list_all (stamped client_id) (dp_sent d')"
    using dp_round_stamped [OF assms Cons.prems, of lib probe start deadline now ev] by simp
  then show ?case using Cons.IH r e by (auto split: option.splits)
qed simp

lemma vf_retry_sent:
  "vf_retry elapsed init_packet err v = (e, v') \<Longrightarrow>
     vf_sent v' = vf_sent v @ replicate (vf_retry_index v' - vf_retry_index v) init_packet \<and>
     vf_retry_index v \<le> vf_retry_index v' \<and> vf_retry_index v' \<le> max (vf_retry_index v) (length VERIFY_RETRY_DELAYS)"
  by (auto simp: vf_retry_def split: if_splits)

lemma vf_round_stamped:
  assumes "length client_id = 3" and "stamped client_id init_packet" and "list_all (stamped client_id) (vf_sent v)"
  shows "list_all (stamped client_id) (vf_sent (snd (vf_round lib client_id init_packet start deadline now ev v)))"
proof (cases ev)
  case (VfTick later err1 err2)
  obtain e v1 where r: "vf_retry (later - start) init_packet err1 v = (e, v1)"
    by (cases "vf_retry (later - start) init_packet err1 v")
  have "list_all (stamped client_id) (vf_sent v1)"
    using vf_retry_sent [OF r] assms(2,3) by (auto simp: list_all_iff)
  then show ?thesis using VfTick r assms
    by (auto simp: vf_round_def Let_def inject_shape(1) split: option.splits prod.splits tunn_result.splits)
qed (use assms in \<open>auto simp: vf_round_def Let_def inject_shape(1) split: prod.splits tunn_result.splits\<close>)

lemma vf_rounds_stamped:
  assumes "length client_id = 3" and "stamped client_id init_packet"
  shows "list_all (stamped client_id) (vf_sent v) \<Longrightarrow>
    list_all (stamped client_id) (vf_sent (snd (vf_rounds lib client_id init_packet start deadline evs v)))"
proof (induction evs arbitrary: v)
  case (Cons e evs)
  obtain now ev where e: "e = (now, ev)" by (cases e)
  obtain r v' where r: "vf_round lib client_id init_packet start deadline now ev v = (r, v')"
    by (cases "vf_round lib client_id init_packet start deadline now ev v")
  then have "list_all (stamped client_id) (vf_sent v')"
    using vf_round_stamped [OF assms Cons.prems, of lib start deadline now ev] by simp
  then show ?case using Cons.IH r e by (auto split: vf_step.splits)
qed simp

lemma verify_stamped:
  assumes c: "length client_id = 3"
  shows "list_all (stamped client_id) (snd (verify_endpoint_keep_session lib data_check client_id keys probe start now
    timeout err evs dp_err dp_evs))"
proof -
  have dp: "list_all (stamped client_id) (dp_sent (snd (verify_dataplane lib client_id probe err' at' start deadline evs' w)))"
    for err' at' deadline evs' w
    using probe_stamped [OF c, of lib at' probe err' w]
    by (auto simp: verify_dataplane_def Let_def split: prod.splits sum.splits intro!: dp_rounds_stamped [OF c])
  have vf: "list_all (stamped client_id) (vf_sent (snd (vf_rounds lib client_id (inject_client_id pkt client_id) start
      deadline evs \<lparr>vf_tunn = w, vf_retry_index = 0, vf_sent = [inject_client_id pkt client_id], vf_shaken_at = t0\<rparr>)))"
    for pkt deadline w t0
    by (rule vf_rounds_stamped [OF c inject_shape(1) [OF c]]) (simp add: inject_shape(1) [OF c])
  show ?thesis
    using vf dp inject_shape(1) [OF c]
    by (auto simp: verify_endpoint_keep_session_def Let_def
        split: prod.splits tunn_result.splits option.splits vf_step.splits sum.splits)
      (metis snd_conv)+
qed

subsection \<open>The timer\<close>

lemma one_le_u8: "(1 :: u8) \<le> b \<longleftrightarrow> b \<noteq> 0"
  by (simp add: word_le_nat_alt Suc_le_eq unat_gt_0)

lemma unmasked_stamped: "\<not> wireguard_type p \<Longrightarrow> stamped client_id p"
  by (auto simp: stamped_def wireguard_type_def wg_message_def WG_MSG_TYPE_MIN_def WG_MSG_TYPE_MAX_def one_le_u8)

lemma sent_map [simp]: "sent (map SendPacket ps) = ps"
  by (induction ps) simp_all

text \<open>
  When a tick replaces the session: it was asked to, or the session has expired, and the last replacement is
  long enough ago.
\<close>

definition rekey_due :: "'w wg_lib \<Rightarrow> nat \<Rightarrow> nat \<Rightarrow> 'w wg_tunnel \<Rightarrow> bool" where
  "rekey_due lib now last_rekey s \<longleftrightarrow>
     (wg_rekey_now s \<or> (case fst (wl_update_timers lib now (wg_tunn s)) of TunnErr _ \<Rightarrow> True | _ \<Rightarrow> False))
     \<and> last_rekey + REKEY_MIN_GAP \<le> now"

lemma rekey_gap: "REKEY_MIN_GAP \<le> now - last_rekey \<longleftrightarrow> last_rekey + REKEY_MIN_GAP \<le> now"
  by (auto simp: REKEY_MIN_GAP_def secs_def)

lemma timer_rekey_stamped:
  assumes c: "length (wg_client_id s) = 3" and "list_all (stamped (wg_client_id s)) outgoing"
    and "timer_rekey lib now outgoing last_rekey s = (pkts, last', s')"
  shows "list_all (stamped (wg_client_id s)) pkts \<and> wg_client_id s' = wg_client_id s"
  using assms(2,3) inject_shape(1) [OF c]
  by (auto simp: timer_rekey_def split: if_splits prod.splits tunn_result.splits)

lemma timer_rekey_exact:
  assumes "timer_rekey lib now outgoing last_rekey s = (pkts, last', s')"
  shows "if last_rekey + REKEY_MIN_GAP \<le> now
    then last' = now \<and> wg_tunn s' = snd (wl_encapsulate lib now [] (fresh_session lib (wg_keys s)))
    else last' = last_rekey \<and> pkts = outgoing \<and> s' = s"
  using assms by (auto simp: timer_rekey_def rekey_gap split: if_splits prod.splits tunn_result.splits)

lemma timer_session_stamped:
  assumes c: "length (wg_client_id s) = 3" and "timer_session lib now last_rekey s = (pkts, last', s')"
  shows "list_all (stamped (wg_client_id s)) pkts \<and> wg_client_id s' = wg_client_id s"
proof -
  obtain r w where u: "wl_update_timers lib now (wg_tunn s) = (r, w)" by (cases "wl_update_timers lib now (wg_tunn s)")
  let ?s = "s\<lparr>wg_rekey_now := False, wg_tunn := w\<rparr>"
  have rekey: ?thesis if "timer_rekey lib now out last_rekey ?s = (pkts, last', s')" "list_all (stamped (wg_client_id s)) out" for out
    using timer_rekey_stamped [of ?s out lib now last_rekey pkts last' s'] that c by auto
  have one: "list_all (stamped (wg_client_id s)) [inject_client_id pkt (wg_client_id s)]" for pkt
    by (simp add: inject_shape(1) [OF c])
  show ?thesis
  proof (cases "wg_rekey_now s")
    case True
    with assms(2) u one show ?thesis
      by (cases r) (simp_all add: timer_session_def Let_def rekey)
  next
    case False
    with assms(2) u one show ?thesis
      by (cases r) (auto simp: timer_session_def Let_def rekey)
  qed
qed

text \<open>A tick replaces the session exactly when that is due, and then it notes the time.\<close>

lemma timer_session_exact:
  assumes "timer_session lib now last_rekey s = (pkts, last', s')"
  shows "last' = (if rekey_due lib now last_rekey s then now else last_rekey)
    \<and> wg_tunn s' = (if rekey_due lib now last_rekey s then snd (wl_encapsulate lib now [] (fresh_session lib (wg_keys s)))
                    else snd (wl_update_timers lib now (wg_tunn s)))"
proof -
  obtain r w where u: "wl_update_timers lib now (wg_tunn s) = (r, w)" by (cases "wl_update_timers lib now (wg_tunn s)")
  let ?s = "s\<lparr>wg_rekey_now := False, wg_tunn := w\<rparr>"
  note exact = timer_rekey_exact [of lib now _ last_rekey ?s pkts last' s']
  show ?thesis
  proof (cases "wg_rekey_now s")
    case True
    then obtain out where "timer_rekey lib now out last_rekey ?s = (pkts, last', s')"
      using assms u by (cases r) (auto simp: timer_session_def Let_def)
    from exact [OF this] True u show ?thesis by (auto simp: rekey_due_def split: if_splits)
  next
    case False
    show ?thesis
    proof (cases r)
      case (TunnErr e)
      then have "timer_rekey lib now [] last_rekey ?s = (pkts, last', s')"
        using assms u False by (simp add: timer_session_def Let_def)
      from exact [OF this] TunnErr u show ?thesis by (auto simp: rekey_due_def split: if_splits)
    qed (use assms u False in \<open>auto simp: timer_session_def rekey_due_def Let_def\<close>)
  qed
qed

text \<open>
  A run of the timer: at each tick it finds the tunnel as the other tasks have left it and the time that the
  tick before has noted. The result is the times at which the session is replaced.
\<close>

fun rekey_times :: "'w wg_lib \<Rightarrow> nat \<Rightarrow> (nat \<times> 'w wg_tunnel) list \<Rightarrow> nat list" where
  "rekey_times lib last_rekey [] = []"
| "rekey_times lib last_rekey ((now, s) # ticks) =
     (if rekey_due lib now last_rekey s then [now] else [])
     @ rekey_times lib (fst (snd (timer_session lib now last_rekey s))) ticks"

lemma rekey_times_after: "t \<in> set (rekey_times lib last_rekey ticks) \<Longrightarrow> last_rekey + REKEY_MIN_GAP \<le> t"
proof (induction ticks arbitrary: last_rekey)
  case (Cons x ticks)
  obtain now s where x: "x = (now, s)" by (cases x)
  obtain pkts last' s' where r: "timer_session lib now last_rekey s = (pkts, last', s')"
    by (cases "timer_session lib now last_rekey s")
  note exact = timer_session_exact [OF r]
  show ?case
  proof (cases "rekey_due lib now last_rekey s")
    case True
    then have "last_rekey + REKEY_MIN_GAP \<le> now" by (simp add: rekey_due_def)
    then show ?thesis using Cons.prems Cons.IH [of last'] x r exact True by auto
  qed (use Cons x r exact in auto)
qed simp

lemma rekey_times_apart: "sorted_wrt (\<lambda>a b. a + REKEY_MIN_GAP \<le> b) (rekey_times lib last_rekey ticks)"
proof (induction ticks arbitrary: last_rekey)
  case (Cons x ticks)
  obtain now s where x: "x = (now, s)" by (cases x)
  obtain pkts last' s' where r: "timer_session lib now last_rekey s = (pkts, last', s')"
    by (cases "timer_session lib now last_rekey s")
  have "last' = now" if "rekey_due lib now last_rekey s" using timer_session_exact [OF r] that by simp
  then show ?case using Cons.IH [of last'] x r rekey_times_after [of _ lib last' ticks] by auto
qed simp

lemma keepalive_stamped:
  assumes "source_ok g" and "an_bounded cfg"
  shows "gives (send_keepalive_junk g cfg) (\<lambda>acts. list_all (stamped client_id) (sent acts))"
proof (cases "an_is_enabled cfg")
  case True
  from keepalive_count [OF assms(1) True assms(2)] show ?thesis by (rule gives_mono) (simp add: list_all_iff unmasked_stamped)
qed (simp add: send_keepalive_junk_def gives_return)

lemma timer_session_noize: "timer_session lib now last_rekey s = (pkts, last', s') \<Longrightarrow> wg_noize s' = wg_noize s"
  by (auto simp: timer_session_def timer_rekey_def Let_def split: prod.splits tunn_result.splits if_splits)

lemma timer_tick_gives:
  assumes "source_ok g" and c: "length (wg_client_id s) = 3" and "an_bounded (wg_noize s)"
  shows "gives (timer_tick lib g now last_rekey s) (\<lambda>(acts, last', s').
      list_all (stamped (wg_client_id s)) (sent acts) \<and> wg_client_id s' = wg_client_id s \<and>
      last' = (if rekey_due lib now last_rekey s then now else last_rekey) \<and>
      wg_tunn s' = (if rekey_due lib now last_rekey s then snd (wl_encapsulate lib now [] (fresh_session lib (wg_keys s)))
                    else snd (wl_update_timers lib now (wg_tunn s))))"
proof -
  obtain pkts last' s' where t: "timer_session lib now last_rekey s = (pkts, last', s')"
    by (cases "timer_session lib now last_rekey s")
  have junk: "gives (if pkts \<noteq> [] \<and> an_is_enabled (wg_noize s') then send_keepalive_junk g (wg_noize s') else task_return [])
      (\<lambda>acts. list_all (stamped (wg_client_id s)) (sent acts))"
    using assms(3) timer_session_noize [OF t] by (intro gives_if gives_return keepalive_stamped [OF assms(1)]) simp_all
  show ?thesis unfolding timer_tick_def t prod.case
    by (rule gives_bind [OF junk], rule gives_return) (use timer_session_stamped [OF c t] timer_session_exact [OF t] in simp)
qed

subsection \<open>The reader\<close>

text \<open>
  \<open>queued\<close> measures the packets that a session holds for the network: the library promises that a call
  without a datagram that returns one of them has one less.
\<close>

definition drains :: "'w wg_lib \<Rightarrow> ('w \<Rightarrow> nat) \<Rightarrow> bool" where
  "drains lib queued \<longleftrightarrow>
     (\<forall>now w pkt w'. wl_decapsulate lib now [] w = (WriteToNetwork pkt, w') \<longrightarrow> queued w' < queued w)"

lemma decap_loop_empty_returns:
  assumes "drains lib queued"
  shows "\<exists>r. decap_loop lib now client_id [] w p net = Some r"
proof (induction "queued w" arbitrary: w p net rule: less_induct)
  case less
  obtain res w1 where d: "wl_decapsulate lib now [] w = (res, w1)" by (cases "wl_decapsulate lib now [] w")
  show ?case
  proof (cases res)
    case (WriteToNetwork pkt)
    with d assms have "queued w1 < queued w" unfolding drains_def by blast
    from less [OF this] show ?thesis using d WriteToNetwork by (subst decap_loop.simps) simp
  qed (auto simp: d decap_loop.simps [of lib now client_id "[]" w])
qed

lemma decap_loop_returns:
  assumes "drains lib queued"
  shows "\<exists>r. decap_loop lib now client_id data w p net = Some r"
proof -
  obtain res w1 where d: "wl_decapsulate lib now data w = (res, w1)" by (cases "wl_decapsulate lib now data w")
  show ?thesis using d decap_loop_empty_returns [OF assms]
    by (subst decap_loop.simps) (cases res, auto)
qed

lemma deliver_each_spec:
  assumes "length pkts \<le> 1" and "deliver_each pkts freed tx = (ok, tx')"
  shows "(ok \<or> ch_rx_closed tx \<or> (\<exists>c. freed = Some c \<and> ch_rx_closed c)) \<and>
    (0 < chan_room tx \<longrightarrow> ok \<and> ch_items tx' = ch_items tx @ pkts)"
  using assms
  by (cases pkts)
    (auto simp: deliver_each_def deliver_inbound_def try_send_def chan_room_def split: if_splits option.splits)

text \<open>
  C16. The reader cannot be stuck and cannot lose its session's answers. When the session hands out its queued
  packets one by one, every round of the reader returns, and for a datagram it sends exactly the packets that
  the session handed out for the network, in order and stamped with the client identifier, keeps the session
  as it is after them, appends the packet for the tunnel to the queue of the netstack if there is room, and
  counts the datagram as a sign of life exactly when the session did not refuse it. The reader stops only for
  an error of the socket that is not transient, for the 65th transient error in a row, or because the netstack
  is gone. After a packet for the tunnel the session is not asked again.
\<close>

theorem reader_drains_session:
  assumes "drains lib queued" and "length (wg_client_id s) = 3"
  shows "\<exists>out pkts n s'. recv_round lib now ev freed transient_errors s = Some (out, pkts, n, s') \<and>
    list_all (stamped (wg_client_id s)) pkts \<and>
    (case ev of
       RecvOk data \<Rightarrow>
         (if data = [] then pkts = [] \<and> s' = s
          else \<exists>net tun. hands_out lib now (strip_client_id data) (wg_tunn s) net tun (wg_tunn s') \<and>
            pkts = map (\<lambda>q. inject_client_id q (wg_client_id s)) net \<and> n = 0 \<and>
            wg_last_valid_rx s' = (if decap_fails lib now (strip_client_id data) (wg_tunn s) then wg_last_valid_rx s else now) \<and>
            (0 < chan_room (wg_inbound s) \<longrightarrow> ch_items (wg_inbound s') = ch_items (wg_inbound s) @ tun))
     | RecvErr e \<Rightarrow> pkts = [] \<and> s' = s) \<and>
    (out = Ends \<longrightarrow>
       (case ev of
          RecvOk data \<Rightarrow> ch_rx_closed (wg_inbound s) \<or> (\<exists>c. freed = Some c \<and> ch_rx_closed c)
        | RecvErr e \<Rightarrow> \<not> is_transient_socket_error e \<or> MAX_TRANSIENT_RECV_ERRORS \<le> transient_errors))"
proof (cases ev)
  case (RecvErr e)
  then show ?thesis by (auto simp: recv_round_def Let_def)
next
  case (RecvOk data)
  show ?thesis
  proof (cases "data = []")
    case True
    with RecvOk show ?thesis by (auto simp: recv_round_def)
  next
    case False
    let ?data = "strip_client_id data"
    obtain r where d: "decap_loop lib now (wg_client_id s) ?data (wg_tunn s) False [] = Some r"
      using decap_loop_returns [OF assms(1)] by blast
    then obtain net tun w where
      r: "r = (\<not> decap_fails lib now ?data (wg_tunn s), map (\<lambda>q. inject_client_id q (wg_client_id s)) net, tun, w)"
      and out: "hands_out lib now ?data (wg_tunn s) net tun w" and tun: "length tun \<le> 1"
      using decap_loop_result [OF d] by auto
    obtain ok tx where dl: "deliver_each tun freed (wg_inbound s) = (ok, tx)" by (cases "deliver_each tun freed (wg_inbound s)")
    have dead: "\<not> ok \<Longrightarrow> ch_rx_closed (wg_inbound s) \<or> (\<exists>c. freed = Some c \<and> ch_rx_closed c)"
      and room: "0 < chan_room (wg_inbound s) \<Longrightarrow> ch_items tx = ch_items (wg_inbound s) @ tun"
      using deliver_each_spec [OF tun dl] by blast+
    define s' where "s' = (if decap_fails lib now ?data (wg_tunn s) then s else s\<lparr>wg_last_valid_rx := now\<rparr>)
      \<lparr>wg_tunn := w, wg_inbound := tx\<rparr>"
    have "recv_round lib now ev freed transient_errors s =
        Some (if ok then GoesOn else Ends, map (\<lambda>q. inject_client_id q (wg_client_id s)) net, 0, s')"
      using RecvOk False d r dl by (simp add: recv_round_def Let_def s'_def)
    moreover have "wg_tunn s' = w" "wg_inbound s' = tx"
        "wg_last_valid_rx s' = (if decap_fails lib now ?data (wg_tunn s) then wg_last_valid_rx s else now)"
      by (simp_all add: s'_def)
    ultimately show ?thesis using out room dead RecvOk False stamp_all [OF assms(2), of net] by auto
  qed
qed

text \<open>A session that answers every handshake and hands every packet on, to evaluate the definitions on.\<close>

definition echo_lib :: "nat wg_lib" where
  "echo_lib = \<lparr>wl_new = (\<lambda>keys. 0),
     wl_encapsulate = (\<lambda>now pkt w. (WriteToNetwork ([1, 0, 0, 0] @ pkt), w)),
     wl_decapsulate = (\<lambda>now data w.
       if data = [] then (case w of 0 \<Rightarrow> (TunnDone, 0) | Suc n \<Rightarrow> (WriteToNetwork [2, 0, 0, 0], n))
       else if hd data = 2 then (WriteToNetwork [4, 0, 0, 0], w + 1) else (WriteToTunnelV4 (drop 4 data), w)),
     wl_update_timers = (\<lambda>now w. (TunnDone, w))\<rparr>"

lemma echo_drains: "drains echo_lib (\<lambda>w. w)"
  by (auto simp: drains_def echo_lib_def split: nat.splits)

definition sample_keys :: session_keys where
  "sample_keys = \<lparr>sk_private_key = [], sk_peer_public = [], sk_preshared = None, sk_keepalive = 25\<rparr>"

definition sample_tunnel :: "nat wg_tunnel" where
  "sample_tunnel = \<lparr>wg_tunn = 0, wg_inbound = chan_new 4, wg_obf_sent = False, wg_noize = an_gfw,
     wg_client_id = [7, 8, 9], wg_local_ipv4 = 0, wg_keys = sample_keys, wg_last_valid_rx = 0, wg_rekey_now = False,
     wg_session_dead = False\<rparr>"

lemma sample_tunnel_id: "length (wg_client_id sample_tunnel) = 3"
  by (simp add: sample_tunnel_def)

theorem reader_drains_session_witness:
  "\<exists>out pkts n s'. recv_round echo_lib 5 (RecvOk [4, 1, 1, 1, 42]) None 0 sample_tunnel = Some (out, pkts, n, s') \<and>
     pkts = [] \<and> ch_items (wg_inbound s') = [[42]] \<and> out = GoesOn"
proof -
  let ?d = "[4, 1, 1, 1, 42] :: bytes"
  have facts: "\<not> ch_rx_closed (wg_inbound sample_tunnel)" "0 < chan_room (wg_inbound sample_tunnel)"
      "ch_items (wg_inbound sample_tunnel) = []"
    by (simp_all add: sample_tunnel_def chan_new_def chan_room_def)
  obtain out pkts n s' net tun where r: "recv_round echo_lib 5 (RecvOk ?d) None 0 sample_tunnel = Some (out, pkts, n, s')"
    "hands_out echo_lib 5 (strip_client_id ?d) (wg_tunn sample_tunnel) net tun (wg_tunn s')"
    "pkts = map (\<lambda>q. inject_client_id q (wg_client_id sample_tunnel)) net"
    "ch_items (wg_inbound s') = tun" "out = Ends \<longrightarrow> ch_rx_closed (wg_inbound sample_tunnel)"
    using reader_drains_session [OF echo_drains sample_tunnel_id, of 5 "RecvOk ?d" None 0] facts by auto
  have "wl_decapsulate echo_lib 5 (strip_client_id ?d) (wg_tunn sample_tunnel) = (WriteToTunnelV4 [42], wg_tunn sample_tunnel)"
    by (simp add: echo_lib_def strip_client_id_def wg_message_def WG_MSG_TYPE_MIN_def WG_MSG_TYPE_MAX_def)
  then have "net = [] \<and> tun = [[42]]" using r(2) by (auto elim: hands_out.cases)
  then show ?thesis using r facts(1) by (cases out) auto
qed

subsection \<open>The health check\<close>

text \<open>
  A run of the health task: at each check it finds the tunnel as the other tasks have left it. The result
  is the check that gives up, if one does.
\<close>

fun health_run :: "'w wg_lib \<Rightarrow> nat \<Rightarrow> nat \<Rightarrow> (nat \<times> (u16 \<times> u16 \<times> u16) \<times> 'w wg_tunnel) list \<Rightarrow> (nat \<times> aether_error) option" where
  "health_run lib stale strikes [] = None"
| "health_run lib stale strikes ((now, draws, s) # checks) =
     (case health_tick lib stale now draws strikes s of
        (Some e, _) \<Rightarrow> Some (now, e)
      | (None, _, strikes', _) \<Rightarrow> health_run lib stale strikes' checks)"

definition found_stale :: "nat \<Rightarrow> nat \<times> (u16 \<times> u16 \<times> u16) \<times> 'w wg_tunnel \<Rightarrow> bool" where
  "found_stale stale c = (case c of (now, draws, s) \<Rightarrow> wg_last_valid_rx s + stale \<le> now)"

definition found_dead :: "nat \<times> (u16 \<times> u16 \<times> u16) \<times> 'w wg_tunnel \<Rightarrow> bool" where
  "found_dead c = (case c of (now, draws, s) \<Rightarrow> wg_session_dead s)"

lemma health_tick_cases:
  assumes "0 < stale" and "strikes \<le> 1"
  shows "(fst (health_tick lib stale now draws strikes s) \<noteq> None \<longleftrightarrow>
      found_dead (now, draws, s) \<or> found_stale stale (now, draws, s) \<and> strikes = 1) \<and>
    (fst (health_tick lib stale now draws strikes s) = None \<longrightarrow>
      fst (snd (snd (health_tick lib stale now draws strikes s))) = (if found_stale stale (now, draws, s) then 1 else 0))"
proof -
  have "strikes = 0 \<or> strikes = 1" using assms(2) by auto
  moreover have "stale \<le> now - wg_last_valid_rx s \<longleftrightarrow> wg_last_valid_rx s + stale \<le> now" using assms(1) by auto
  ultimately show ?thesis
    by (auto simp: health_tick_def found_stale_def found_dead_def Let_def STALE_STRIKES_BEFORE_DEATH_def split: prod.splits)
qed

definition stale_twice :: "nat \<Rightarrow> (nat \<times> (u16 \<times> u16 \<times> u16) \<times> 'w wg_tunnel) list \<Rightarrow> bool" where
  "stale_twice stale checks \<longleftrightarrow>
     (\<exists>before a b after. checks = before @ a # b # after \<and> found_stale stale a \<and> found_stale stale b)"

lemma stale_twice_Cons:
  "stale_twice stale (c # checks) \<longleftrightarrow>
     (checks \<noteq> [] \<and> found_stale stale c \<and> found_stale stale (hd checks)) \<or> stale_twice stale checks"
proof
  assume "stale_twice stale (c # checks)"
  then obtain before a b after where s: "c # checks = before @ a # b # after" "found_stale stale a" "found_stale stale b"
    unfolding stale_twice_def by blast
  then show "(checks \<noteq> [] \<and> found_stale stale c \<and> found_stale stale (hd checks)) \<or> stale_twice stale checks"
  proof (cases before)
    case (Cons x rest)
    with s have "checks = rest @ a # b # after" by simp
    with s show ?thesis unfolding stale_twice_def by blast
  qed (use s in auto)
next
  assume "(checks \<noteq> [] \<and> found_stale stale c \<and> found_stale stale (hd checks)) \<or> stale_twice stale checks"
  then show "stale_twice stale (c # checks)"
  proof
    assume "checks \<noteq> [] \<and> found_stale stale c \<and> found_stale stale (hd checks)"
    then have "c # checks = [] @ c # hd checks # tl checks" by simp
    with \<open>checks \<noteq> [] \<and> _\<close> show ?thesis unfolding stale_twice_def by blast
  next
    assume "stale_twice stale checks"
    then obtain before a b after where "checks = before @ a # b # after" "found_stale stale a" "found_stale stale b"
      unfolding stale_twice_def by blast
    then have "c # checks = (c # before) @ a # b # after \<and> found_stale stale a \<and> found_stale stale b" by simp
    then show ?thesis unfolding stale_twice_def by blast
  qed
qed

lemma stale_twice_Nil [simp]: "\<not> stale_twice stale []"
  by (simp add: stale_twice_def)

lemma health_run_iff:
  assumes "0 < stale" and "strikes \<le> 1"
  shows "health_run lib stale strikes checks \<noteq> None \<longleftrightarrow>
    list_ex found_dead checks \<or> (strikes = 1 \<and> checks \<noteq> [] \<and> found_stale stale (hd checks)) \<or> stale_twice stale checks"
  using assms(2)
proof (induction checks arbitrary: strikes)
  case (Cons c checks)
  obtain now draws s where c: "c = (now, draws, s)" by (cases c)
  obtain e pkts strikes' s' where t: "health_tick lib stale now draws strikes s = (e, pkts, strikes', s')"
    by (cases "health_tick lib stale now draws strikes s")
  note tick = health_tick_cases [OF assms(1) Cons.prems, of lib now draws s, unfolded t fst_conv snd_conv]
  show ?case
  proof (cases e)
    case None
    then have "strikes' = (if found_stale stale c then 1 else 0)" "\<not> found_dead c"
      "\<not> (found_stale stale c \<and> strikes = 1)" using tick c by auto
    then show ?thesis using Cons.IH [of strikes'] c t None by (auto simp: stale_twice_Cons)
  next
    case (Some err)
    then show ?thesis using tick c t by auto
  qed
qed simp

text \<open>
  C15. The health check gives a tunnel up exactly when it must: over any sequence of checks it ends the tunnel if
  and only if one of them finds the session dead or two in a row find that nothing valid has come for the
  stale time. With the pauses it makes, a peer that falls silent is given up no later than two pauses, at
  most seven seconds, after the stale time; a single bad check never ends a tunnel. The stale time is between one
  second and one day whatever the environment holds.
\<close>

theorem health_check_exact:
  assumes "stale = wg_stale_timeout env"
  shows "(health_run lib stale 0 checks \<noteq> None \<longleftrightarrow> list_ex found_dead checks \<or> stale_twice stale checks) \<and>
    secs 1 \<le> stale \<and> stale \<le> secs 86400 \<and>
    health_check_pause (min off1 1000) + health_check_pause (min off2 1000) \<le> secs 7 \<and>
    millis 2500 \<le> health_check_pause off1"
proof -
  have b: "secs 1 \<le> stale" "stale \<le> secs 86400"
    unfolding assms by (auto simp: wg_stale_timeout_def secs_def Let_def split: option.splits)
  then have "0 < stale" by (simp add: secs_def)
  from health_run_iff [OF this, of 0 lib checks] b show ?thesis
    by (auto simp: health_check_pause_def WG_HEALTHCHECK_INTERVAL_def WG_HEALTHCHECK_JITTER_def secs_def millis_def)
qed

theorem health_check_exact_witness:
  "health_run echo_lib (wg_stale_timeout (\<lambda>k. None)) 0
     [(secs 19, (0, 0, 0), sample_tunnel), (secs 22, (0, 0, 0), sample_tunnel), (secs 25, (0, 0, 0), sample_tunnel)] \<noteq> None \<and>
   health_run echo_lib (wg_stale_timeout (\<lambda>k. None)) 0
     [(secs 19, (0, 0, 0), sample_tunnel), (secs 22, (0, 0, 0), sample_tunnel)] = None"
proof -
  let ?one = "[(secs 19, (0, 0, 0), sample_tunnel), (secs 22, (0, 0, 0), sample_tunnel)]"
  let ?two = "[(secs 19, (0, 0, 0), sample_tunnel), (secs 22, (0, 0, 0), sample_tunnel), (secs 25, (0, 0, 0), sample_tunnel)]"
  have st: "wg_stale_timeout (\<lambda>k. None) = secs 20" by (simp add: wg_stale_timeout_def)
  have "stale_twice (secs 20) ?two" "\<not> (list_ex found_dead ?one \<or> stale_twice (secs 20) ?one)"
    by (simp_all add: stale_twice_Cons found_stale_def found_dead_def sample_tunnel_def secs_def)
  then show ?thesis
    using health_check_exact [OF refl, where env = "\<lambda>k. None" and lib = echo_lib and checks = ?two, THEN conjunct1]
      health_check_exact [OF refl, where env = "\<lambda>k. None" and lib = echo_lib and checks = ?one, THEN conjunct1]
    unfolding st by blast
qed

subsection \<open>Verification\<close>

lemma dp_rounds_ends:
  "\<exists>(now, ev) \<in> set evs. deadline \<le> now \<Longrightarrow> fst (dp_rounds lib client_id probe start deadline evs d) \<noteq> None"
proof (induction evs arbitrary: d)
  case (Cons e evs)
  obtain now ev where e: "e = (now, ev)" by (cases e)
  show ?case
  proof (cases "deadline \<le> now")
    case True
    then show ?thesis by (simp add: e dp_round_def)
  next
    case False
    with Cons.prems e have "\<exists>(now, ev) \<in> set evs. deadline \<le> now" by auto
    from Cons.IH [OF this] e show ?thesis by (auto split: prod.splits option.splits)
  qed
qed simp

lemma vf_rounds_ends:
  "\<exists>(now, ev) \<in> set evs. deadline \<le> now \<Longrightarrow> fst (vf_rounds lib client_id init_packet start deadline evs v) \<noteq> VfWait"
proof (induction evs arbitrary: v)
  case (Cons e evs)
  obtain now ev where e: "e = (now, ev)" by (cases e)
  show ?case
  proof (cases "deadline \<le> now")
    case True
    then show ?thesis by (simp add: e vf_round_def)
  next
    case False
    with Cons.prems e have "\<exists>(now, ev) \<in> set evs. deadline \<le> now" by auto
    from Cons.IH [OF this] e show ?thesis by (auto split: prod.splits vf_step.splits)
  qed
qed simp

text \<open>The datagrams of the data-plane check that the session turned into a packet for the tunnel.\<close>

definition confirms :: "'w wg_lib \<Rightarrow> nat \<times> dp_event \<Rightarrow> bool" where
  "confirms lib e =
     (case e of
        (now, DpDatagram later data) \<Rightarrow>
          (\<exists>w pkt w'. wl_decapsulate lib later (strip_client_id data) w \<in> {(WriteToTunnelV4 pkt, w'), (WriteToTunnelV6 pkt, w')})
      | _ \<Rightarrow> False)"

lemma dp_probe_keeps [simp]: "dp_successes (dp_probe lib now client_id probe sent_at d) = dp_successes d"
  by (simp add: dp_probe_def split: prod.splits)

lemma dp_round_successes:
  assumes "dp_round lib client_id probe start deadline now ev d = (r, d')"
  shows "dp_successes d' \<le> dp_successes d + (if confirms lib (now, ev) \<and> now < deadline then 1 else 0) \<and>
    (\<forall>t. r = Some (Inr t) \<longrightarrow> DATAPLANE_REQUIRED_SUCCESSES \<le> dp_successes d')"
proof (cases ev)
  case (DpDatagram later data)
  then show ?thesis using assms
    by (auto simp: dp_round_def Let_def confirms_def split: prod.splits tunn_result.splits if_splits)
qed (use assms in \<open>auto simp: dp_round_def Let_def split: if_splits\<close>)

lemma dp_rounds_successes:
  "fst (dp_rounds lib client_id probe start deadline evs d) = Some (Inr t) \<Longrightarrow>
     DATAPLANE_REQUIRED_SUCCESSES \<le> dp_successes d + length (filter (\<lambda>e. confirms lib e \<and> fst e < deadline) evs)"
proof (induction evs arbitrary: d)
  case (Cons e evs)
  obtain now ev where e: "e = (now, ev)" by (cases e)
  obtain r d' where r: "dp_round lib client_id probe start deadline now ev d = (r, d')"
    by (cases "dp_round lib client_id probe start deadline now ev d")
  note s = dp_round_successes [OF r]
  show ?case
  proof (cases r)
    case None
    then have "DATAPLANE_REQUIRED_SUCCESSES \<le> dp_successes d' + length (filter (\<lambda>e. confirms lib e \<and> fst e < deadline) evs)"
      using Cons r e by simp
    with s e show ?thesis by (auto split: if_splits)
  next
    case (Some x)
    with Cons.prems r e have "x = Inr t" by simp
    with s Some e show ?thesis by (auto split: if_splits)
  qed
qed simp

text \<open>
  How often the first packet is sent. \<open>writes_other\<close>: the session never writes that packet again, as its
  messages carry counters and fresh keys.
\<close>

definition writes_other :: "'w wg_lib \<Rightarrow> bytes \<Rightarrow> bytes \<Rightarrow> bool" where
  "writes_other lib client_id init_packet \<longleftrightarrow>
     (\<forall>now w pkt w'. wl_update_timers lib now w = (WriteToNetwork pkt, w') \<longrightarrow> inject_client_id pkt client_id \<noteq> init_packet) \<and>
     (\<forall>now data w pkt w'. wl_decapsulate lib now data w = (WriteToNetwork pkt, w') \<longrightarrow> inject_client_id pkt client_id \<noteq> init_packet)"

definition repeats_ok :: "bytes \<Rightarrow> 'w vf_state \<Rightarrow> bool" where
  "repeats_ok init_packet v \<longleftrightarrow> count_list (vf_sent v) init_packet = Suc (vf_retry_index v) \<and> vf_retry_index v \<le> 2"

lemma vf_retry_repeats:
  "vf_retry elapsed init_packet err v = (e, v') \<Longrightarrow> repeats_ok init_packet v \<Longrightarrow> repeats_ok init_packet v'"
  by (auto simp: vf_retry_def repeats_ok_def VERIFY_RETRY_DELAYS_def split: if_splits)

lemma vf_round_repeats:
  assumes "vf_round lib client_id init_packet start deadline now ev v = (r, v')" and "repeats_ok init_packet v"
    and "writes_other lib client_id init_packet"
  shows "repeats_ok init_packet v'"
proof (cases ev)
  case (VfTick later err1 err2)
  obtain e v1 where t: "vf_retry (later - start) init_packet err1 v = (e, v1)"
    by (cases "vf_retry (later - start) init_packet err1 v")
  obtain res w where u: "wl_update_timers lib later (vf_tunn v1) = (res, w)" by (cases "wl_update_timers lib later (vf_tunn v1)")
  have other: "inject_client_id pkt client_id \<noteq> init_packet" if "res = WriteToNetwork pkt" for pkt
    using assms(3) u that unfolding writes_other_def by blast
  show ?thesis using VfTick assms(1,2) t u vf_retry_repeats [OF t assms(2)] other
    by (auto simp: vf_round_def Let_def repeats_ok_def split: if_splits option.splits tunn_result.splits)
next
  case (VfDatagram later data err)
  obtain res w where u: "wl_decapsulate lib later (strip_client_id data) (vf_tunn v) = (res, w)"
    by (cases "wl_decapsulate lib later (strip_client_id data) (vf_tunn v)")
  have other: "inject_client_id pkt client_id \<noteq> init_packet" if "res = WriteToNetwork pkt" for pkt
    using assms(3) u that unfolding writes_other_def by blast
  show ?thesis using VfDatagram assms(1,2) u other
    by (auto simp: vf_round_def Let_def repeats_ok_def split: if_splits option.splits tunn_result.splits)
qed (use assms(1,2) in \<open>auto simp: vf_round_def split: if_splits\<close>)

lemma vf_rounds_repeats:
  assumes "writes_other lib client_id init_packet"
  shows "repeats_ok init_packet v \<Longrightarrow> repeats_ok init_packet (snd (vf_rounds lib client_id init_packet start deadline evs v))"
proof (induction evs arbitrary: v)
  case (Cons e evs)
  obtain now ev where e: "e = (now, ev)" by (cases e)
  obtain r v' where r: "vf_round lib client_id init_packet start deadline now ev v = (r, v')"
    by (cases "vf_round lib client_id init_packet start deadline now ev v")
  from vf_round_repeats [OF r Cons.prems assms] Cons.IH [of v'] e r show ?case by (auto split: vf_step.splits)
qed simp

lemma verify_success:
  assumes "verify_endpoint_keep_session lib True client_id keys probe start now timeout err evs dp_err dp_evs =
    (Some (Inr (elapsed, session)), out)"
  shows "2 \<le> length (filter (\<lambda>e. confirms lib e \<and> fst e < start + timeout) dp_evs) \<and>
    es_client_id session = client_id \<and> es_keys session = keys"
proof -
  obtain n0 w d where "verify_dataplane lib client_id probe dp_err n0 start (start + timeout) dp_evs w =
      (Some (Inr elapsed), d)" and s: "es_client_id session = client_id" "es_keys session = keys"
    using assms by (auto simp: verify_endpoint_keep_session_def Let_def
        split: prod.splits tunn_result.splits option.splits vf_step.splits sum.splits)
  then obtain d0 where "dp_successes d0 = 0"
    "fst (dp_rounds lib client_id probe start (start + timeout) dp_evs d0) = Some (Inr elapsed)"
    by (auto simp: verify_dataplane_def Let_def split: prod.splits sum.splits) (metis dp_state.select_convs(2) fst_conv)
  then show ?thesis using dp_rounds_successes [of lib client_id probe start "start + timeout" dp_evs d0 elapsed] s
    by (simp add: DATAPLANE_REQUIRED_SUCCESSES_def)
qed

lemma verify_ends:
  assumes "\<exists>(now, ev) \<in> set evs. start + timeout \<le> now" and "\<exists>(now, ev) \<in> set dp_evs. start + timeout \<le> now"
  shows "fst (verify_endpoint_keep_session lib data_check client_id keys probe start now timeout err evs dp_err dp_evs) \<noteq> None"
proof -
  have d: "verify_dataplane lib client_id probe e0 n0 start (start + timeout) dp_evs w \<noteq> (None, d)" for e0 n0 w d
    using dp_rounds_ends [OF assms(2), of lib client_id probe start]
    by (auto simp: verify_dataplane_def Let_def split: prod.splits sum.splits) (metis fst_conv option.distinct(1))
  have v: "vf_rounds lib client_id pkt start (start + timeout) evs v0 \<noteq> (VfWait, v1)" for pkt v0 v1
    using vf_rounds_ends [OF assms(1), of lib client_id pkt start v0] by auto
  show ?thesis
    using d v
    by (auto simp: verify_endpoint_keep_session_def Let_def
        split: prod.splits tunn_result.splits option.splits vf_step.splits sum.splits)
qed



text \<open>
  C14. Every WireGuard message that leaves carries the client identifier, whatever the session library produces:
  the packets of the writer's bursts, of the timer (also its junk, which is never such a message), of the
  health check and of a verification. What is read back has the identifier taken off. A tick of the timer
  replaces the session exactly when that was asked for or the session has expired and three seconds have
  passed since the last time, and notes the time; so in every run of the timer, whatever the other tasks do
  in between, the replacements are at least three seconds apart. The configuration of the obfuscation is within the
  bounds of the machine, as every profile is.
\<close>

theorem wg_messages_stamped:
  assumes "source_ok g" and "length (wg_client_id s) = 3" and "an_bounded (wg_noize s)"
  shows "list_all (stamped (wg_client_id s)) (fst (encap_burst lib now batch wr s)) \<and>
    gives (timer_tick lib g now last_rekey s) (\<lambda>(acts, last', s').
      list_all (stamped (wg_client_id s)) (sent acts) \<and> wg_client_id s' = wg_client_id s \<and>
      last' = (if rekey_due lib now last_rekey s then now else last_rekey) \<and>
      wg_tunn s' = (if rekey_due lib now last_rekey s then snd (wl_encapsulate lib now [] (fresh_session lib (wg_keys s)))
                    else snd (wl_update_timers lib now (wg_tunn s)))) \<and>
    sorted_wrt (\<lambda>a b. a + secs 3 \<le> b) (rekey_times lib last_rekey ticks) \<and>
    list_all (stamped (wg_client_id s)) (fst (snd (health_tick lib stale now draws strikes s))) \<and>
    list_all (stamped (wg_client_id s)) (snd (verify_endpoint_keep_session lib data_check (wg_client_id s) keys probe start now
      timeout err evs dp_err dp_evs)) \<and>
    strip_client_id (inject_client_id pkt (wg_client_id s)) = strip_client_id pkt"
proof -
  have "list_all (stamped (wg_client_id s)) (fst (encap_burst lib now batch wr s))"
    using encap_burst_stamped [OF assms(2), of lib now batch wr] by (cases "encap_burst lib now batch wr s") auto
  moreover have "sorted_wrt (\<lambda>a b. a + secs 3 \<le> b) (rekey_times lib last_rekey ticks)"
    using rekey_times_apart [of lib last_rekey ticks] by (simp add: REKEY_MIN_GAP_def)
  ultimately show ?thesis
    using timer_tick_gives [OF assms] health_tick_stamped [OF assms(2)] verify_stamped [OF assms(2)]
      inject_shape(4) [OF assms(2)] by blast
qed

theorem wg_messages_stamped_witness:
  "\<exists>acts last' s' p. timer_tick echo_lib low_source (secs 10) 0 (sample_tunnel\<lparr>wg_rekey_now := True\<rparr>)
       \<lparr>pr_rng = (), pr_counter = 1\<rparr> = Returns ((acts, last', s'), p) \<and>
     list_all (stamped [7, 8, 9]) (sent acts) \<and> last' = secs 10"
proof -
  let ?s = "sample_tunnel\<lparr>wg_rekey_now := True\<rparr>"
  have s: "length (wg_client_id ?s) = 3" "wg_client_id ?s = [7, 8, 9]" "rekey_due echo_lib (secs 10) 0 ?s"
      "an_bounded (wg_noize ?s)"
    by (simp_all add: sample_tunnel_def rekey_due_def REKEY_MIN_GAP_def secs_def an_profiles_bounded)
  have "gives (timer_tick echo_lib low_source (secs 10) 0 ?s) (\<lambda>(acts, last', s').
      list_all (stamped (wg_client_id ?s)) (sent acts) \<and> wg_client_id s' = wg_client_id ?s \<and>
      last' = (if rekey_due echo_lib (secs 10) 0 ?s then secs 10 else 0) \<and>
      wg_tunn s' = (if rekey_due echo_lib (secs 10) 0 ?s then snd (wl_encapsulate echo_lib (secs 10) [] (fresh_session echo_lib (wg_keys ?s)))
                    else snd (wl_update_timers echo_lib (secs 10) (wg_tunn ?s))))"
    using wg_messages_stamped [OF low_source_ok s(1,4), THEN conjunct2, THEN conjunct1] by blast
  then obtain r p' where "timer_tick echo_lib low_source (secs 10) 0 ?s \<lparr>pr_rng = (), pr_counter = 1\<rparr> = Returns (r, p')"
    "case r of (acts, last', s') \<Rightarrow> list_all (stamped (wg_client_id ?s)) (sent acts) \<and> last' = secs 10"
    unfolding gives_def using s(3) by fastforce
  then show ?thesis unfolding s(2) by (cases r) auto
qed

subsection \<open>The probe\<close>

text \<open>
  The probe is, byte for byte, the one of the MASQUE carriers, so it is a valid datagram.
\<close>

lemma dataplane_probe_same: "build_dataplane_probe src qid ip_id sport = build_dns_probe_packet src qid ip_id sport"
  by (simp add: build_dataplane_probe_def build_dns_probe_packet_def wg_build_dns_query_def probe_dns_query_def
      dns_label_def wg_ipv4_checksum_def ipv4_header_checksum_def)

end
