(* ===== verification/Scan_Loop.thy ===== *)
theory Scan_Loop
  imports Main
begin

text \<open>
  What the two searches for a gateway share: a stream of probes of which a bounded number is in flight
  (\<^verbatim>\<open>buffer_unordered\<close> of the crate \<^verbatim>\<open>futures\<close>), and a loop that takes one probe per round and stops at a
  deadline. The locale \<open>scan_loop\<close> is the contract between one round and the loop.
\<close>

subsection \<open>Probes in flight\<close>

text \<open>
  The candidates that wait, and those whose probe is in flight. A poll first starts probes up to the
  limit; then one of those in flight may be over, in any order.
\<close>

record 'c in_flight =
  if_queue :: "'c list"
  if_flight :: "'c list"

definition start_probes :: "nat \<Rightarrow> 'c in_flight \<Rightarrow> 'c in_flight" where
  "start_probes limit b =
     (let room = limit - length (if_flight b)
      in \<lparr>if_queue = drop room (if_queue b), if_flight = if_flight b @ take room (if_queue b)\<rparr>)"

text \<open>The next item: none at the end, otherwise the candidate at position \<open>k\<close> of those in flight.\<close>

definition next_probe :: "nat \<Rightarrow> nat \<Rightarrow> 'c in_flight \<Rightarrow> 'c option \<times> 'c in_flight" where
  "next_probe limit k b =
     (let b' = start_probes limit b; n = length (if_flight b')
      in if n = 0 then (None, b')
         else (Some (if_flight b' ! (k mod n)),
               b'\<lparr>if_flight := take (k mod n) (if_flight b') @ drop (Suc (k mod n)) (if_flight b')\<rparr>))"

definition waiting :: "'c in_flight \<Rightarrow> 'c list" where
  "waiting b = if_flight b @ if_queue b"

lemma waiting_start [simp]: "waiting (start_probes limit b) = waiting b"
  by (simp add: waiting_def start_probes_def Let_def)

lemma start_bound: "length (if_flight b) \<le> limit \<Longrightarrow> length (if_flight (start_probes limit b)) \<le> limit"
  by (auto simp: start_probes_def Let_def)

lemma mod_room: "0 < n \<Longrightarrow> n \<le> l \<Longrightarrow> k mod n + (n - Suc (k mod n)) \<le> (l :: nat)"
  using mod_less_divisor [of n k] by linarith

lemma flight_bound: "length (if_flight b) \<le> limit \<Longrightarrow> length (if_flight (snd (next_probe limit k b))) \<le> limit"
  using start_bound [of b limit]
  by (auto simp: next_probe_def Let_def intro!: mod_room)

lemma next_probe_Some:
  assumes "next_probe limit k b = (Some c, b')" and "distinct (waiting b)"
  shows "c \<in> set (waiting b)" and "set (waiting b') = set (waiting b) - {c}" and "distinct (waiting b')"
    and "length (waiting b) = Suc (length (waiting b'))"
proof -
  let ?s = "start_probes limit b" let ?f = "if_flight ?s" let ?i = "k mod length ?f"
  have f: "?f \<noteq> []" and c: "c = ?f ! ?i"
    and b': "b' = ?s\<lparr>if_flight := take ?i ?f @ drop (Suc ?i) ?f\<rparr>"
    using assms(1) by (auto simp: next_probe_def Let_def split: if_splits)
  have i: "?i < length ?f" using f by simp
  then have split: "?f = take ?i ?f @ c # drop (Suc ?i) ?f" using c by (simp add: id_take_nth_drop)
  let ?l = "take ?i ?f" and ?r = "drop (Suc ?i) ?f @ if_queue ?s"
  have w: "waiting b = ?l @ c # ?r"
    using split by (metis append.assoc append_Cons waiting_def waiting_start)
  have w': "waiting b' = ?l @ ?r" using b' by (simp add: waiting_def)
  show "c \<in> set (waiting b)" "length (waiting b) = Suc (length (waiting b'))" by (simp_all add: w w' del: length_take length_drop)
  show "set (waiting b') = set (waiting b) - {c}" "distinct (waiting b')" using assms(2) unfolding w w' by auto
qed

lemma next_probe_None:
  assumes "next_probe limit k b = (None, b')" and "0 < limit"
  shows "waiting b = []" and "waiting b' = []"
proof -
  have "if_flight (start_probes limit b) = []" "b' = start_probes limit b"
    using assms(1) by (auto simp: next_probe_def Let_def split: if_splits)
  moreover from this(1) have "if_queue b = []" "if_flight b = []"
    using assms(2) by (auto simp: start_probes_def Let_def)
  ultimately show "waiting b = []" "waiting b' = []" by (simp_all add: waiting_def start_probes_def)
qed

subsection \<open>The loop\<close>

text \<open>
  A round that goes on has taken a probe; a round that starts after the deadline ends the loop; the
  invariant of the state gives what is promised of the result.
\<close>

locale scan_loop =
  fixes step :: "'e \<Rightarrow> 's \<Rightarrow> 's + 'r"
    and run :: "'s \<Rightarrow> 'e list \<Rightarrow> 'r option"
    and left :: "'s \<Rightarrow> nat"
    and late :: "'e \<Rightarrow> bool"
    and inv :: "'s \<Rightarrow> bool"
    and good :: "'e \<Rightarrow> 'r \<Rightarrow> bool"
  assumes run_Nil: "run s [] = None"
    and run_Cons: "run s (e # es) = (case step e s of Inl s' \<Rightarrow> run s' es | Inr r \<Rightarrow> Some r)"
    and step_takes: "step e s = Inl s' \<Longrightarrow> inv s \<Longrightarrow> left s' < left s"
    and late_ends: "late e \<Longrightarrow> \<exists>r. step e s = Inr r"
    and step_inv: "inv s \<Longrightarrow> step e s = Inl s' \<Longrightarrow> inv s'"
    and step_good: "inv s \<Longrightarrow> step e s = Inr r \<Longrightarrow> good e r"
begin

lemma ends_in_time:
  "(\<exists>e \<in> set es. late e) \<Longrightarrow> \<exists>r. run s es = Some r"
proof (induction es arbitrary: s)
  case (Cons e es)
  then show ?case using late_ends [of e s] by (auto simp: run_Cons split: sum.splits)
qed simp

lemma ends_after_probes: "inv s \<Longrightarrow> left s < length es \<Longrightarrow> \<exists>r. run s es = Some r"
proof (induction es arbitrary: s)
  case (Cons e es)
  show ?case
  proof (cases "step e s")
    case (Inl s')
    then have "left s' < length es" "inv s'" using Cons.prems step_takes [of e s s'] step_inv [of s e s'] by simp_all
    then show ?thesis using Cons.IH [of s'] by (simp add: run_Cons Inl)
  qed (simp add: run_Cons)
qed simp

lemma result_good: "inv s \<Longrightarrow> run s es = Some r \<Longrightarrow> \<exists>e \<in> set es. good e r"
proof (induction es arbitrary: s)
  case (Cons e es)
  show ?case
  proof (cases "step e s")
    case (Inl s')
    then show ?thesis using Cons.prems Cons.IH [of s'] step_inv [of s e s'] by (auto simp: run_Cons)
  next
    case (Inr r')
    then show ?thesis using Cons.prems step_good [of s e r'] by (auto simp: run_Cons)
  qed
qed (simp add: run_Nil)

end

end
