(* ===== verification/Prober.thy ===== *)
theory Prober
  imports Ip_Text Sysprofile Scan_Loop Netstack_Credit
begin

text \<open>
  \<^verbatim>\<open>prober.rs\<close>: the search for a MASQUE gateway. The ranges and seeds, the modes of a scan, the addresses
  of a range (all of them, or a random sample), the list of candidates and the loop over the probes.
  Random draws are arguments: the result is None while a sample needs more of them. Times are
  nanoseconds. Sums of addresses wrap around, as in a release build.
\<close>

subsection \<open>Ranges\<close>

definition MASQUE_CIDRS_V4 :: "string list" where
  "MASQUE_CIDRS_V4 =
     [''162.159.196.0/24'', ''162.159.195.0/24'', ''162.159.192.0/24'', ''162.159.193.0/24'', ''162.159.204.0/24'',
      ''162.159.197.0/24'', ''162.159.198.0/24'', ''172.65.251.0/24'', ''188.114.96.0/24'', ''188.114.97.0/24'',
      ''188.114.98.0/24'', ''188.114.99.0/24'', ''162.159.36.0/24'', ''162.159.46.0/24'']"

definition MASQUE_SEEDS :: "string list" where
  "MASQUE_SEEDS =
     [''162.159.196.1'', ''162.159.195.1'', ''162.159.192.1'', ''162.159.197.3'', ''162.159.197.1'',
      ''162.159.198.2'', ''162.159.198.1'', ''162.159.193.1'']"

definition MASQUE_PORTS :: "u16 list" where
  "MASQUE_PORTS = [443, 500, 1701, 4500, 4443, 8443, 8095]"

definition MASQUE_CIDRS_V6 :: "string list" where
  "MASQUE_CIDRS_V6 = [''2606:4700:d0::/48'', ''2606:4700:102::/48'', ''2606:4700:d1::/48'']"

definition MASQUE_ZT_CIDRS_V4 :: "string list" where
  "MASQUE_ZT_CIDRS_V4 = [''162.159.197.0/24'']"

definition MASQUE_ZT_CIDRS_V6 :: "string list" where
  "MASQUE_ZT_CIDRS_V6 = [''2606:4700:102::/48'']"

definition MASQUE_SEEDS_V6 :: "string list" where
  "MASQUE_SEEDS_V6 =
     [''2606:4700:d0::a29f:c602'', ''2606:4700:d1::a29f:c602'', ''2606:4700:d0::a29f:c601'',
      ''2606:4700:d0::a29f:c001'']"

definition zero_trust_mode :: "env \<Rightarrow> bool" where
  "zero_trust_mode env = (case env ''AETHER_TEAM'' of Some v \<Rightarrow> trim v \<noteq> [] | None \<Rightarrow> False)"

fun push_missing :: "'a list \<Rightarrow> 'a list \<Rightarrow> 'a list" where
  "push_missing out [] = out"
| "push_missing out (e # es) = push_missing (if e \<in> set out then out else out @ [e]) es"

definition prioritize :: "env \<Rightarrow> string list \<Rightarrow> string list \<Rightarrow> string list" where
  "prioritize env all wanted =
     (if \<not> zero_trust_mode env then all
      else push_missing (filter (\<lambda>e. e \<in> set all) wanted) all)"

definition masque_cidrs_v4 :: "env \<Rightarrow> string list" where
  "masque_cidrs_v4 env = prioritize env MASQUE_CIDRS_V4 MASQUE_ZT_CIDRS_V4"

definition masque_cidrs_v6 :: "env \<Rightarrow> string list" where
  "masque_cidrs_v6 env = prioritize env MASQUE_CIDRS_V6 MASQUE_ZT_CIDRS_V6"

subsection \<open>Modes\<close>

record probe_result =
  pr_ip :: ip_addr
  pr_port :: u16
  pr_rtt :: nat

datatype ip_scan = ScanV4 | ScanV6 | ScanBoth

definition ip_scan_parse :: "string \<Rightarrow> ip_scan" where
  "ip_scan_parse s =
     (let w = to_lowercase (trim s)
      in if w \<in> {''6'', ''v6'', ''ipv6''} then ScanV6
         else if w \<in> {''both'', ''all'', ''dual''} then ScanBoth
         else ScanV4)"

definition ip_scan_label :: "ip_scan \<Rightarrow> string" where
  "ip_scan_label i = (case i of ScanV4 \<Rightarrow> ''ipv4'' | ScanV6 \<Rightarrow> ''ipv6'' | ScanBoth \<Rightarrow> ''dual-stack'')"

definition want_v4 :: "ip_scan \<Rightarrow> bool" where
  "want_v4 i \<longleftrightarrow> i = ScanV4 \<or> i = ScanBoth"

definition want_v6 :: "ip_scan \<Rightarrow> bool" where
  "want_v6 i \<longleftrightarrow> i = ScanV6 \<or> i = ScanBoth"

datatype scan_mode = Turbo | Balanced | Thorough | Verified | Ironclad

definition scan_mode_parse :: "string \<Rightarrow> scan_mode" where
  "scan_mode_parse s =
     (let w = to_lowercase (trim s)
      in if w \<in> {''turbo'', ''fast''} then Turbo
         else if w \<in> {''thorough'', ''deep'', ''pro''} then Thorough
         else if w \<in> {''verified'', ''proven'', ''stealth'', ''quiet''} then Verified
         else if w \<in> {''ironclad'', ''real'', ''verify'', ''guaranteed''} then Ironclad
         else Balanced)"

definition scan_mode_label :: "scan_mode \<Rightarrow> string" where
  "scan_mode_label m =
     (case m of Turbo \<Rightarrow> ''turbo'' | Balanced \<Rightarrow> ''balanced'' | Thorough \<Rightarrow> ''thorough'' | Verified \<Rightarrow> ''verified''
      | Ironclad \<Rightarrow> ''ironclad'')"

record strategy =
  st_concurrency :: nat
  st_per_probe_timeout :: nat
  st_overall_deadline :: nat
  st_quiet_after_first :: nat
  st_target_successes :: nat
  st_early_exit_first :: bool
  st_full_subnet :: bool
  st_sample_per_cidr :: nat

definition scan_strategy :: "scan_mode \<Rightarrow> strategy" where
  "scan_strategy m =
     (case m of
        Turbo \<Rightarrow>
          \<lparr>st_concurrency = 20, st_per_probe_timeout = millis 6000, st_overall_deadline = secs 45,
           st_quiet_after_first = secs 0, st_target_successes = 1, st_early_exit_first = True,
           st_full_subnet = False, st_sample_per_cidr = 64\<rparr>
      | Balanced \<Rightarrow>
          \<lparr>st_concurrency = 16, st_per_probe_timeout = millis 6000, st_overall_deadline = secs 120,
           st_quiet_after_first = secs 20, st_target_successes = 6, st_early_exit_first = False,
           st_full_subnet = False, st_sample_per_cidr = 140\<rparr>
      | Thorough \<Rightarrow>
          \<lparr>st_concurrency = 20, st_per_probe_timeout = millis 10000, st_overall_deadline = secs 300,
           st_quiet_after_first = secs 30, st_target_successes = 0, st_early_exit_first = False,
           st_full_subnet = True, st_sample_per_cidr = 0\<rparr>
      | Verified \<Rightarrow>
          \<lparr>st_concurrency = 16, st_per_probe_timeout = millis 5000, st_overall_deadline = secs 60,
           st_quiet_after_first = secs 8, st_target_successes = 4, st_early_exit_first = False,
           st_full_subnet = False, st_sample_per_cidr = 48\<rparr>
      | Ironclad \<Rightarrow>
          \<lparr>st_concurrency = 4, st_per_probe_timeout = millis 15000, st_overall_deadline = secs 180,
           st_quiet_after_first = secs 15, st_target_successes = 3, st_early_exit_first = False,
           st_full_subnet = False, st_sample_per_cidr = 140\<rparr>)"

subsection \<open>Addresses of a range\<close>

definition parse_cidr_v4 :: "string \<Rightarrow> (u32 \<times> nat) option" where
  "parse_cidr_v4 cidr =
     (case split_once (CHR ''/'') cidr of
        None \<Rightarrow> None
      | Some (ip, prefix) \<Rightarrow>
          (case parse_ipv4 ip of
             None \<Rightarrow> None
           | Some a \<Rightarrow> (case parse_uint 255 prefix of None \<Rightarrow> None | Some p \<Rightarrow> Some (a, p))))"

definition enumerate_cidr_v4 :: "string \<Rightarrow> ipv4_addr list" where
  "enumerate_cidr_v4 cidr =
     (case parse_cidr_v4 cidr of
        None \<Rightarrow> []
      | Some (base, prefix) \<Rightarrow>
          (let host_bits = 32 - prefix
           in if host_bits = 0 then [base]
              else if 12 < host_bits then []
              else let size = 2 ^ host_bits :: nat in map (\<lambda>off. base + of_nat off) [1..<size - 1]))"

text \<open>The draws of \<^verbatim>\<open>random_range(0..usable)\<close>, in order; a repeated offset is drawn again.\<close>

fun sample_loop :: "u32 \<Rightarrow> nat \<Rightarrow> nat list \<Rightarrow> ipv4_addr list \<Rightarrow> nat list \<Rightarrow> ipv4_addr list option" where
  "sample_loop base want chosen out [] = (if want \<le> length out then Some out else None)"
| "sample_loop base want chosen out (draw # draws) =
     (if want \<le> length out then Some out
      else let off = 1 + draw
           in if off \<in> set chosen then sample_loop base want chosen out draws
              else sample_loop base want (off # chosen) (out @ [base + of_nat off]) draws)"

definition sample_cidr_v4 :: "string \<Rightarrow> nat \<Rightarrow> nat list \<Rightarrow> ipv4_addr list option" where
  "sample_cidr_v4 cidr n draws =
     (case parse_cidr_v4 cidr of
        None \<Rightarrow> Some []
      | Some (base, prefix) \<Rightarrow>
          (let host_bits = 32 - prefix;
               size = (if 32 \<le> host_bits then 2 ^ 32 - 1 else 2 ^ host_bits :: nat)
           in if size \<le> 2 then Some [base]
              else let usable = size - 2; want = min (n mod 2 ^ 32) usable
                   in sample_loop base want [] [] draws))"

definition parse_cidr_v6 :: "string \<Rightarrow> (ipv6_addr \<times> nat) option" where
  "parse_cidr_v6 cidr =
     (case split_once (CHR ''/'') cidr of
        None \<Rightarrow> None
      | Some (ip, prefix) \<Rightarrow>
          (case parse_ipv6 ip of
             None \<Rightarrow> None
           | Some a \<Rightarrow> (case parse_uint 255 prefix of None \<Rightarrow> None | Some p \<Rightarrow> Some (a, p))))"

text \<open>
  The low half of a sampled address is an IPv4 address of the ranges. The draws of one round are the
  index of a range and a number; a shift by 32 is a shift by 0 in a release build.
\<close>

definition embedded_v4 :: "(u32 \<times> nat) list \<Rightarrow> nat \<times> u32 \<Rightarrow> ipv6_addr option" where
  "embedded_v4 v4 draw =
     (case draw of (i, r) \<Rightarrow>
        if v4 = [] then Some (ucast r)
        else (case get_at v4 i of
                None \<Rightarrow> None
              | Some (b, p) \<Rightarrow>
                  (let host_bits = 32 - p;
                       host = (if host_bits = 0 then 0 else r AND (push_bit (host_bits mod 32) 1 - 1))
                   in Some (ucast (b OR host)))))"

fun sample_v6_loop :: "nat \<Rightarrow> ipv6_addr \<Rightarrow> (u32 \<times> nat) list \<Rightarrow> (nat \<times> u32) list \<Rightarrow> ipv6_addr list option" where
  "sample_v6_loop 0 base v4 draws = Some []"
| "sample_v6_loop (Suc n) base v4 [] = None"
| "sample_v6_loop (Suc n) base v4 (draw # draws) =
     (case embedded_v4 v4 draw of
        None \<Rightarrow> None
      | Some e \<Rightarrow> map_option (\<lambda>out. (base OR e) # out) (sample_v6_loop n base v4 draws))"

definition sample_cidr_v6 :: "string \<Rightarrow> nat \<Rightarrow> string list \<Rightarrow> (nat \<times> u32) list \<Rightarrow> ipv6_addr list option" where
  "sample_cidr_v6 cidr n v4_cidrs draws =
     (case parse_cidr_v6 cidr of
        None \<Rightarrow> Some []
      | Some (base, prefix) \<Rightarrow>
          if 128 - prefix = 0 then Some [base]
          else sample_v6_loop n base (List.map_filter parse_cidr_v4 v4_cidrs) draws)"

subsection \<open>Candidates\<close>

text \<open>The hosts of the ranges in turn: the first of each, then the second of each, and so on.\<close>

definition interleave :: "'a list list \<Rightarrow> 'a list" where
  "interleave hosts =
     concat (map (\<lambda>i. List.map_filter (\<lambda>h. get_at h i) hosts) [0..<fold max (map length hosts) 0])"

text \<open>The set of pairs that were seen is the set of the candidates so far.\<close>

definition push_candidate :: "ip_addr \<times> u16 \<Rightarrow> (ip_addr \<times> u16) list \<Rightarrow> (ip_addr \<times> u16) list" where
  "push_candidate c out = (if c \<in> set out then out else out @ [c])"

definition primary_port :: "u16 list \<Rightarrow> u16" where
  "primary_port ports = (case ports of p # _ \<Rightarrow> p | [] \<Rightarrow> 443)"

definition v4_hosts :: "env \<Rightarrow> strategy \<Rightarrow> (string \<Rightarrow> nat list) \<Rightarrow> ipv4_addr list list option" where
  "v4_hosts env st draws =
     those (map (\<lambda>c. if st_full_subnet st then Some (enumerate_cidr_v4 c)
                      else sample_cidr_v4 c (st_sample_per_cidr st) (draws c))
             (masque_cidrs_v4 env))"

definition v6_hosts :: "env \<Rightarrow> strategy \<Rightarrow> (string \<Rightarrow> (nat \<times> u32) list) \<Rightarrow> ipv6_addr list list option" where
  "v6_hosts env st draws =
     (let per = (if st_sample_per_cidr st = 0 then 96 else st_sample_per_cidr st)
      in those (map (\<lambda>c. sample_cidr_v6 c per MASQUE_CIDRS_V4 (draws c)) (masque_cidrs_v6 env)))"

definition seeds_v4 :: "ipv4_addr list" where
  "seeds_v4 = List.map_filter parse_ipv4 MASQUE_SEEDS"

definition seeds_v6 :: "ipv6_addr list" where
  "seeds_v6 = List.map_filter parse_ipv6 MASQUE_SEEDS_V6"

definition on_other_ports :: "u16 list \<Rightarrow> ip_addr list \<Rightarrow> (ip_addr \<times> u16) list" where
  "on_other_ports ports ips =
     concat (map (\<lambda>a. map (\<lambda>p. (a, p)) (filter (\<lambda>p. p \<noteq> primary_port ports) ports)) ips)"

definition build_candidates ::
    "env \<Rightarrow> strategy \<Rightarrow> u16 list \<Rightarrow> ip_scan \<Rightarrow> (string \<Rightarrow> nat list) \<Rightarrow> (string \<Rightarrow> (nat \<times> u32) list) \<Rightarrow> (ip_addr \<times> u16) list option" where
  "build_candidates env st ports ip draws4 draws6 =
     (case (if want_v4 ip then v4_hosts env st draws4 else Some [],
            if want_v6 ip then v6_hosts env st draws6 else Some []) of
        (Some hosts4, Some hosts6) \<Rightarrow>
          (let primary = primary_port ports;
               out = (if want_v4 ip
                      then fold push_candidate (map (\<lambda>a. (V4 a, primary)) (seeds_v4 @ interleave hosts4)) []
                      else []);
               out = (if want_v6 ip
                      then fold push_candidate (map (\<lambda>a. (V6 a, primary)) (seeds_v6 @ interleave hosts6)) out
                      else out);
               out = (if want_v4 ip then fold push_candidate (on_other_ports ports (map V4 seeds_v4)) out else out);
               out = (if want_v6 ip then fold push_candidate (on_other_ports ports (map V6 seeds_v6)) out else out)
           in Some out)
      | _ \<Rightarrow> None)"

subsection \<open>The search\<close>

text \<open>
  A round of the loop: the time at its start, and what the \<^verbatim>\<open>select\<close> takes: an item of the stream (the
  probe at some position of those in flight, with the time after it) or the end of the sleep.
\<close>

datatype scan_event = ItemReady nat nat | SleepOver

type_synonym scan_round = "nat \<times> scan_event"

record hunt_state =
  hs_stream :: "(ip_addr \<times> u16) in_flight"
  hs_best :: "probe_result option"
  hs_found :: nat
  hs_quiet_until :: "nat option"

definition effective_deadline :: "nat \<Rightarrow> nat option \<Rightarrow> nat" where
  "effective_deadline deadline quiet = (case quiet of Some q \<Rightarrow> min q deadline | None \<Rightarrow> deadline)"

definition hunt_finish :: "hunt_state \<Rightarrow> probe_result result" where
  "hunt_finish s = (case hs_best s of Some pr \<Rightarrow> Inr pr | None \<Rightarrow> Inl NoCleanEndpoint)"

definition better :: "probe_result option \<Rightarrow> probe_result \<Rightarrow> probe_result" where
  "better best pr = (case best of Some cur \<Rightarrow> if pr_rtt cur \<le> pr_rtt pr then cur else pr | None \<Rightarrow> pr)"

definition hunt_hit :: "strategy \<Rightarrow> nat \<Rightarrow> probe_result \<Rightarrow> hunt_state \<Rightarrow> hunt_state + (probe_result result \<times> hunt_state)" where
  "hunt_hit st now pr s =
     (if st_early_exit_first st then Inr (Inr pr, s)
      else let s = s\<lparr>hs_best := Some (better (hs_best s) pr), hs_found := hs_found s + 1\<rparr>
           in if 0 < st_target_successes st \<and> st_target_successes st \<le> hs_found s \<and> hs_quiet_until s = None
              then (if st_quiet_after_first st \<noteq> 0
                    then Inl (s\<lparr>hs_quiet_until := Some (now + st_quiet_after_first st)\<rparr>)
                    else Inr (hunt_finish s, s))
              else Inl s)"

definition hunt_round ::
    "strategy \<Rightarrow> nat \<Rightarrow> (ip_addr \<times> u16 \<Rightarrow> probe_result option) \<Rightarrow> scan_round \<Rightarrow> hunt_state \<Rightarrow>
       hunt_state + (probe_result result \<times> hunt_state)" where
  "hunt_round st deadline verify r s =
     (case r of (now, ev) \<Rightarrow>
        if effective_deadline deadline (hs_quiet_until s) \<le> now then Inr (hunt_finish s, s)
        else (case ev of
                SleepOver \<Rightarrow> Inr (hunt_finish s, s)
              | ItemReady k later \<Rightarrow>
                  (case next_probe (st_concurrency st) k (hs_stream s) of
                     (None, b) \<Rightarrow> Inr (hunt_finish s, s\<lparr>hs_stream := b\<rparr>)
                   | (Some c, b) \<Rightarrow>
                       (case verify c of
                          None \<Rightarrow> Inl (s\<lparr>hs_stream := b\<rparr>)
                        | Some pr \<Rightarrow> hunt_hit st later pr (s\<lparr>hs_stream := b\<rparr>)))))"

fun hunt_loop ::
    "strategy \<Rightarrow> nat \<Rightarrow> (ip_addr \<times> u16 \<Rightarrow> probe_result option) \<Rightarrow> hunt_state \<Rightarrow> scan_round list \<Rightarrow>
       (probe_result result \<times> hunt_state) option" where
  "hunt_loop st deadline verify s [] = None"
| "hunt_loop st deadline verify s (r # rs) =
     (case hunt_round st deadline verify r s of
        Inl s' \<Rightarrow> hunt_loop st deadline verify s' rs
      | Inr res \<Rightarrow> Some res)"

definition hunt_start :: "(ip_addr \<times> u16) list \<Rightarrow> hunt_state" where
  "hunt_start candidates =
     \<lparr>hs_stream = \<lparr>if_queue = candidates, if_flight = []\<rparr>, hs_best = None, hs_found = 0, hs_quiet_until = None\<rparr>"

text \<open>The families that are scanned; None when only IPv6 is wanted and the host has none.\<close>

definition effective_ip :: "ip_scan \<Rightarrow> bool \<Rightarrow> ip_scan option" where
  "effective_ip ip has_v6 =
     (if want_v6 ip \<and> \<not> has_v6 then (if want_v4 ip then Some ScanV4 else None) else Some ip)"

text \<open>
  How a candidate is verified: a request through a tunnel of its own, a tunnel over HTTP/2, or one over
  QUIC. Each gives the round-trip time or an error.
\<close>

record verifiers =
  vf_http_ping :: "socket_addr \<Rightarrow> nat result"
  vf_h2 :: "socket_addr \<Rightarrow> nat \<Rightarrow> nat result"
  vf_quic :: "socket_addr \<Rightarrow> nat \<Rightarrow> nat result"

definition h2_enabled_env :: "env \<Rightarrow> bool" where
  "h2_enabled_env env =
     (case env ''AETHER_MASQUE_HTTP2'' of
        Some v \<Rightarrow> to_lowercase (trim v) \<in> {''1'', ''true'', ''h2'', ''yes'', ''on''}
      | None \<Rightarrow> False)"

definition verify_one :: "env \<Rightarrow> verifiers \<Rightarrow> nat \<Rightarrow> bool \<Rightarrow> ip_addr \<times> u16 \<Rightarrow> probe_result option" where
  "verify_one env v timeout ironclad c =
     (case c of (ip, port) \<Rightarrow>
        let peer = \<lparr>sa_ip = ip, sa_port = port\<rparr>;
            answer = (if ironclad then vf_http_ping v peer
                      else if h2_enabled_env env then vf_h2 v peer timeout
                      else vf_quic v peer timeout)
        in case answer of
             Inr rtt \<Rightarrow> Some \<lparr>pr_ip = ip, pr_port = port, pr_rtt = rtt\<rparr>
           | Inl e \<Rightarrow> None)"

text \<open>
  The search as a whole. The arguments are the settings, what the host and the gateways answer, the
  random draws, the time of the start and the rounds of the loop; None while it goes on.
\<close>

definition hunt_best_gateway ::
    "env \<Rightarrow> sys_tuning \<Rightarrow> verifiers \<Rightarrow> u16 list \<Rightarrow> ip_scan \<Rightarrow> bool \<Rightarrow> scan_mode \<Rightarrow> (string \<Rightarrow> nat list) \<Rightarrow>
       (string \<Rightarrow> (nat \<times> u32) list) \<Rightarrow> nat \<Rightarrow> scan_round list \<Rightarrow> probe_result result option" where
  "hunt_best_gateway env tuning v ports ip has_v6 mode draws4 draws6 start rounds =
     (let st = scan_strategy mode;
          st = st\<lparr>st_concurrency := cap_concurrency tuning (st_concurrency st)\<rparr>
      in case effective_ip ip has_v6 of
           None \<Rightarrow> Some (Inl NoCleanEndpoint)
         | Some ip' \<Rightarrow>
             (case build_candidates env st ports ip' draws4 draws6 of
                None \<Rightarrow> None
              | Some candidates \<Rightarrow>
                  map_option fst
                    (hunt_loop st (start + st_overall_deadline st)
                       (verify_one env v (st_per_probe_timeout st) (mode = Ironclad)) (hunt_start candidates) rounds)))"

end
