(* ===== verification/Wg_Prober.thy ===== *)
theory Wg_Prober
  imports Prober
begin

text \<open>
  \<^verbatim>\<open>wg_prober.rs\<close> and the ranges of \<^verbatim>\<open>wireguard.rs\<close>: the search for WireGuard endpoints. It returns several
  endpoints on different addresses, leaves out those that were excluded, and spreads the addresses over
  the ports in waves. Its copies of the functions on ranges are shown equal to those of \<^verbatim>\<open>prober.rs\<close>.
\<close>

subsection \<open>Ranges\<close>

definition WG_PREFIXES_V4 :: "string list" where
  "WG_PREFIXES_V4 =
     [''162.159.192.0/24'', ''162.159.195.0/24'', ''188.114.96.0/24'', ''188.114.97.0/24'', ''188.114.98.0/24'',
      ''188.114.99.0/24'', ''162.159.193.0/24'']"

definition WG_PREFIXES_V6 :: "string list" where
  "WG_PREFIXES_V6 = [''2606:4700:d0::/64'', ''2606:4700:d1::/64'', ''2606:4700:100::/48'']"

definition WG_ZT_PREFIXES_V4 :: "string list" where
  "WG_ZT_PREFIXES_V4 = [''162.159.193.0/24'']"

definition WG_ZT_PREFIXES_V6 :: "string list" where
  "WG_ZT_PREFIXES_V6 = [''2606:4700:100::/48'']"

definition WG_PORTS :: "u16 list" where
  "WG_PORTS =
     [2408, 500, 1701, 4500, 854, 859, 864, 878, 880, 890, 891, 894, 903, 908, 928, 934, 939, 942, 943, 945,
      946, 955, 968, 987, 988, 1002, 1010, 1014, 1018, 1070, 1074, 1180, 1387, 1843, 2371, 2506, 3138, 3476,
      3581, 3854, 4177, 4198, 4233, 5279, 5956, 7103, 7152, 7156, 7281, 7559, 8319, 8742, 8854, 8886]"

definition WG_SEEDS_V4 :: "string list" where
  "WG_SEEDS_V4 = [''162.159.192.1'', ''162.159.195.1'', ''188.114.96.1'', ''188.114.97.1'', ''162.159.193.1'']"

definition WG_SEEDS_V6 :: "string list" where
  "WG_SEEDS_V6 =
     [''2606:4700:d0::a29f:c001'', ''2606:4700:d1::a29f:c001'', ''2606:4700:d0::a29f:c301'',
      ''2606:4700:d0::bc72:6001'']"

definition wg_prefixes_v4 :: "env \<Rightarrow> string list" where
  "wg_prefixes_v4 env = prioritize env WG_PREFIXES_V4 WG_ZT_PREFIXES_V4"

definition wg_prefixes_v6 :: "env \<Rightarrow> string list" where
  "wg_prefixes_v6 env = prioritize env WG_PREFIXES_V6 WG_ZT_PREFIXES_V6"

definition wg_seeds_v4 :: "env \<Rightarrow> string list" where
  "wg_seeds_v4 env = prioritize env WG_SEEDS_V4 [''162.159.193.1'']"

subsection \<open>Modes\<close>

datatype wg_scan_mode = WgTurbo | WgBalanced | WgThorough | WgVerified | WgIronclad

definition wg_scan_mode_parse :: "string \<Rightarrow> wg_scan_mode" where
  "wg_scan_mode_parse s =
     (let w = to_lowercase (trim s)
      in if w \<in> {''turbo'', ''fast''} then WgTurbo
         else if w \<in> {''thorough'', ''deep'', ''pro''} then WgThorough
         else if w \<in> {''verified'', ''proven'', ''stealth'', ''quiet''} then WgVerified
         else if w \<in> {''ironclad'', ''real'', ''verify'', ''guaranteed''} then WgIronclad
         else WgBalanced)"

definition wg_scan_mode_label :: "wg_scan_mode \<Rightarrow> string" where
  "wg_scan_mode_label m =
     (case m of WgTurbo \<Rightarrow> ''turbo'' | WgBalanced \<Rightarrow> ''balanced'' | WgThorough \<Rightarrow> ''thorough'' | WgVerified \<Rightarrow> ''verified''
      | WgIronclad \<Rightarrow> ''ironclad'')"

record wg_strategy = strategy +
  st_pool_port_waves :: nat

definition wg_scan_strategy :: "wg_scan_mode \<Rightarrow> wg_strategy" where
  "wg_scan_strategy m =
     (case m of
        WgTurbo \<Rightarrow>
          \<lparr>st_concurrency = 12, st_per_probe_timeout = millis 5000, st_overall_deadline = secs 30,
           st_quiet_after_first = secs 0, st_target_successes = 1, st_early_exit_first = True,
           st_full_subnet = False, st_sample_per_cidr = 40, st_pool_port_waves = 1\<rparr>
      | WgBalanced \<Rightarrow>
          \<lparr>st_concurrency = 8, st_per_probe_timeout = millis 7000, st_overall_deadline = secs 80,
           st_quiet_after_first = secs 12, st_target_successes = 5, st_early_exit_first = False,
           st_full_subnet = False, st_sample_per_cidr = 120, st_pool_port_waves = 3\<rparr>
      | WgThorough \<Rightarrow>
          \<lparr>st_concurrency = 10, st_per_probe_timeout = millis 9000, st_overall_deadline = secs 250,
           st_quiet_after_first = secs 25, st_target_successes = 0, st_early_exit_first = False,
           st_full_subnet = True, st_sample_per_cidr = 0, st_pool_port_waves = 4\<rparr>
      | WgVerified \<Rightarrow>
          \<lparr>st_concurrency = 10, st_per_probe_timeout = millis 5000, st_overall_deadline = secs 60,
           st_quiet_after_first = secs 8, st_target_successes = 6, st_early_exit_first = False,
           st_full_subnet = False, st_sample_per_cidr = 48, st_pool_port_waves = 4\<rparr>
      | WgIronclad \<Rightarrow>
          \<lparr>st_concurrency = 4, st_per_probe_timeout = millis 15000, st_overall_deadline = secs 180,
           st_quiet_after_first = secs 15, st_target_successes = 3, st_early_exit_first = False,
           st_full_subnet = False, st_sample_per_cidr = 120, st_pool_port_waves = 3\<rparr>)"

subsection \<open>Addresses of a range\<close>

definition wg_parse_cidr_v4 :: "string \<Rightarrow> (u32 \<times> nat) option" where
  "wg_parse_cidr_v4 cidr =
     (case split_once (CHR ''/'') cidr of
        None \<Rightarrow> None
      | Some (ip, prefix) \<Rightarrow>
          (case parse_ipv4 ip of
             None \<Rightarrow> None
           | Some a \<Rightarrow> (case parse_uint 255 prefix of None \<Rightarrow> None | Some p \<Rightarrow> Some (a, p))))"

definition wg_enumerate_cidr_v4 :: "string \<Rightarrow> ipv4_addr list" where
  "wg_enumerate_cidr_v4 cidr =
     (case wg_parse_cidr_v4 cidr of
        None \<Rightarrow> []
      | Some (base, prefix) \<Rightarrow>
          (let host_bits = 32 - prefix
           in if host_bits = 0 then [base]
              else if 12 < host_bits then []
              else let size = 2 ^ host_bits :: nat in map (\<lambda>off. base + of_nat off) [1..<size - 1]))"

fun wg_sample_loop :: "u32 \<Rightarrow> nat \<Rightarrow> nat list \<Rightarrow> ipv4_addr list \<Rightarrow> nat list \<Rightarrow> ipv4_addr list option" where
  "wg_sample_loop base want chosen out [] = (if want \<le> length out then Some out else None)"
| "wg_sample_loop base want chosen out (draw # draws) =
     (if want \<le> length out then Some out
      else let off = 1 + draw
           in if off \<in> set chosen then wg_sample_loop base want chosen out draws
              else wg_sample_loop base want (off # chosen) (out @ [base + of_nat off]) draws)"

definition wg_sample_cidr_v4 :: "string \<Rightarrow> nat \<Rightarrow> nat list \<Rightarrow> ipv4_addr list option" where
  "wg_sample_cidr_v4 cidr n draws =
     (case wg_parse_cidr_v4 cidr of
        None \<Rightarrow> Some []
      | Some (base, prefix) \<Rightarrow>
          (let host_bits = 32 - prefix;
               size = (if 32 \<le> host_bits then 2 ^ 32 - 1 else 2 ^ host_bits :: nat)
           in if size \<le> 2 then Some [base]
              else let usable = size - 2; want = min (n mod 2 ^ 32) usable
                   in wg_sample_loop base want [] [] draws))"

definition wg_parse_cidr_v6 :: "string \<Rightarrow> (ipv6_addr \<times> nat) option" where
  "wg_parse_cidr_v6 cidr =
     (case split_once (CHR ''/'') cidr of
        None \<Rightarrow> None
      | Some (ip, prefix) \<Rightarrow>
          (case parse_ipv6 ip of
             None \<Rightarrow> None
           | Some a \<Rightarrow> (case parse_uint 255 prefix of None \<Rightarrow> None | Some p \<Rightarrow> Some (a, p))))"

definition wg_embedded_v4 :: "(u32 \<times> nat) list \<Rightarrow> nat \<times> u32 \<Rightarrow> ipv6_addr option" where
  "wg_embedded_v4 v4 draw =
     (case draw of (i, r) \<Rightarrow>
        if v4 = [] then Some (ucast r)
        else (case get_at v4 i of
                None \<Rightarrow> None
              | Some (b, p) \<Rightarrow>
                  (let host_bits = 32 - p;
                       host = (if host_bits = 0 then 0 else r AND (push_bit (host_bits mod 32) 1 - 1))
                   in Some (ucast (b OR host)))))"

fun wg_sample_v6_loop :: "nat \<Rightarrow> ipv6_addr \<Rightarrow> (u32 \<times> nat) list \<Rightarrow> (nat \<times> u32) list \<Rightarrow> ipv6_addr list option" where
  "wg_sample_v6_loop 0 base v4 draws = Some []"
| "wg_sample_v6_loop (Suc n) base v4 [] = None"
| "wg_sample_v6_loop (Suc n) base v4 (draw # draws) =
     (case wg_embedded_v4 v4 draw of
        None \<Rightarrow> None
      | Some e \<Rightarrow> map_option (\<lambda>out. (base OR e) # out) (wg_sample_v6_loop n base v4 draws))"

definition wg_sample_cidr_v6 :: "string \<Rightarrow> nat \<Rightarrow> string list \<Rightarrow> (nat \<times> u32) list \<Rightarrow> ipv6_addr list option" where
  "wg_sample_cidr_v6 cidr n v4_cidrs draws =
     (case wg_parse_cidr_v6 cidr of
        None \<Rightarrow> Some []
      | Some (base, prefix) \<Rightarrow>
          if 128 - prefix = 0 then Some [base]
          else wg_sample_v6_loop n base (List.map_filter wg_parse_cidr_v4 v4_cidrs) draws)"

subsection \<open>Candidates\<close>

definition wg_ports_of :: "u16 list \<Rightarrow> u16 list" where
  "wg_ports_of ports = (let deduped = push_missing [] ports in if deduped = [] then [2408] else deduped)"

definition wg_v4_hosts :: "env \<Rightarrow> wg_strategy \<Rightarrow> (string \<Rightarrow> nat list) \<Rightarrow> ipv4_addr list list option" where
  "wg_v4_hosts env st draws =
     those (map (\<lambda>c. if st_full_subnet st then Some (wg_enumerate_cidr_v4 c)
                      else wg_sample_cidr_v4 c (st_sample_per_cidr st) (draws c))
             (wg_prefixes_v4 env))"

definition wg_v6_hosts :: "env \<Rightarrow> wg_strategy \<Rightarrow> (string \<Rightarrow> (nat \<times> u32) list) \<Rightarrow> ipv6_addr list list option" where
  "wg_v6_hosts env st draws =
     (let per = (if st_sample_per_cidr st = 0 then 80 else st_sample_per_cidr st)
      in those (map (\<lambda>c. wg_sample_cidr_v6 c per WG_PREFIXES_V4 (draws c)) (wg_prefixes_v6 env)))"

text \<open>The anchors, then the pool, each address once.\<close>

definition wg_scan_ips :: "env \<Rightarrow> ip_scan \<Rightarrow> ipv4_addr list list \<Rightarrow> ipv6_addr list list \<Rightarrow> ip_addr list" where
  "wg_scan_ips env ip hosts4 hosts6 =
     (let anchors = (if want_v4 ip then map V4 (List.map_filter parse_ipv4 (wg_seeds_v4 env)) else []) @
                    (if want_v6 ip then map V6 (List.map_filter parse_ipv6 WG_SEEDS_V6) else []);
          pool = (if want_v4 ip then map V4 (interleave hosts4) else []) @
                 (if want_v6 ip then map V6 (interleave hosts6) else [])
      in push_missing [] (anchors @ pool))"

definition wg_push :: "socket_addr set \<Rightarrow> ip_addr \<times> u16 \<Rightarrow> (ip_addr \<times> u16) list \<Rightarrow> (ip_addr \<times> u16) list" where
  "wg_push excluded c out =
     (case c of (ip, port) \<Rightarrow>
        if \<lparr>sa_ip = ip, sa_port = port\<rparr> \<in> excluded \<or> (ip, port) \<in> set out then out else out @ [(ip, port)])"

definition wg_wave :: "u16 list \<Rightarrow> ip_addr list \<Rightarrow> nat \<Rightarrow> (ip_addr \<times> u16) list" where
  "wg_wave ports ips wave = map (\<lambda>(idx, ip). (ip, ports ! ((idx + wave) mod length ports))) (enumerate 0 ips)"

definition build_wg_candidates ::
    "env \<Rightarrow> wg_strategy \<Rightarrow> u16 list \<Rightarrow> ip_scan \<Rightarrow> socket_addr set \<Rightarrow> (string \<Rightarrow> nat list) \<Rightarrow>
       (string \<Rightarrow> (nat \<times> u32) list) \<Rightarrow> (ip_addr \<times> u16) list option" where
  "build_wg_candidates env st ports ip excluded draws4 draws6 =
     (case (if want_v4 ip then wg_v4_hosts env st draws4 else Some [],
            if want_v6 ip then wg_v6_hosts env st draws6 else Some []) of
        (Some hosts4, Some hosts6) \<Rightarrow>
          (let ports = wg_ports_of ports; ips = wg_scan_ips env ip hosts4 hosts6
           in Some (fold (wg_push excluded)
                      (concat (map (wg_wave ports ips) [0..<max (st_pool_port_waves st) 1])) []))
      | _ \<Rightarrow> None)"

subsection \<open>The search\<close>

record wg_hunt_state =
  wh_stream :: "(ip_addr \<times> u16) in_flight"
  wh_verified :: "probe_result list"
  wh_found :: nat
  wh_quiet_until :: "nat option"

fun first_by_ip :: "ip_addr set \<Rightarrow> probe_result list \<Rightarrow> probe_result list" where
  "first_by_ip seen [] = []"
| "first_by_ip seen (pr # prs) =
     (if pr_ip pr \<in> seen then first_by_ip seen prs else pr # first_by_ip (insert (pr_ip pr) seen) prs)"

definition distinct_by_ip :: "probe_result list \<Rightarrow> probe_result list" where
  "distinct_by_ip found = first_by_ip {} (sort_key pr_rtt found)"

definition wg_finish :: "nat \<Rightarrow> wg_hunt_state \<Rightarrow> probe_result list result" where
  "wg_finish want s =
     (let picked = distinct_by_ip (wh_verified s)
      in if picked = [] then Inl NoCleanEndpoint else Inr (take want picked))"

definition wg_hit ::
    "wg_strategy \<Rightarrow> nat \<Rightarrow> nat \<Rightarrow> probe_result \<Rightarrow> wg_hunt_state \<Rightarrow> wg_hunt_state + (probe_result list result \<times> wg_hunt_state)" where
  "wg_hit st want now pr s =
     (if st_early_exit_first st then Inr (Inr [pr], s)
      else let s = s\<lparr>wh_verified := wh_verified s @ [pr], wh_found := wh_found s + 1\<rparr>
           in if want \<le> length (distinct_by_ip (wh_verified s)) \<and> 1 < want then Inr (wg_finish want s, s)
              else if 0 < st_target_successes st \<and> st_target_successes st \<le> wh_found s \<and> wh_quiet_until s = None
              then (if st_quiet_after_first st \<noteq> 0
                    then Inl (s\<lparr>wh_quiet_until := Some (now + st_quiet_after_first st)\<rparr>)
                    else Inr (wg_finish want s, s))
              else Inl s)"

definition wg_hunt_round ::
    "wg_strategy \<Rightarrow> nat \<Rightarrow> nat \<Rightarrow> (ip_addr \<times> u16 \<Rightarrow> probe_result option) \<Rightarrow> scan_round \<Rightarrow> wg_hunt_state \<Rightarrow>
       wg_hunt_state + (probe_result list result \<times> wg_hunt_state)" where
  "wg_hunt_round st want deadline verify r s =
     (case r of (now, ev) \<Rightarrow>
        if effective_deadline deadline (wh_quiet_until s) \<le> now then Inr (wg_finish want s, s)
        else (case ev of
                SleepOver \<Rightarrow> Inr (wg_finish want s, s)
              | ItemReady k later \<Rightarrow>
                  (case next_probe (st_concurrency st) k (wh_stream s) of
                     (None, b) \<Rightarrow> Inr (wg_finish want s, s\<lparr>wh_stream := b\<rparr>)
                   | (Some c, b) \<Rightarrow>
                       (case verify c of
                          None \<Rightarrow> Inl (s\<lparr>wh_stream := b\<rparr>)
                        | Some pr \<Rightarrow> wg_hit st want later pr (s\<lparr>wh_stream := b\<rparr>)))))"

fun wg_hunt_loop ::
    "wg_strategy \<Rightarrow> nat \<Rightarrow> nat \<Rightarrow> (ip_addr \<times> u16 \<Rightarrow> probe_result option) \<Rightarrow> wg_hunt_state \<Rightarrow> scan_round list \<Rightarrow>
       (probe_result list result \<times> wg_hunt_state) option" where
  "wg_hunt_loop st want deadline verify s [] = None"
| "wg_hunt_loop st want deadline verify s (r # rs) =
     (case wg_hunt_round st want deadline verify r s of
        Inl s' \<Rightarrow> wg_hunt_loop st want deadline verify s' rs
      | Inr res \<Rightarrow> Some res)"

definition wg_hunt_start :: "(ip_addr \<times> u16) list \<Rightarrow> wg_hunt_state" where
  "wg_hunt_start candidates =
     \<lparr>wh_stream = \<lparr>if_queue = candidates, if_flight = []\<rparr>, wh_verified = [], wh_found = 0, wh_quiet_until = None\<rparr>"

text \<open>A handshake that keeps its session, and a request through that session.\<close>

record 'w wg_verifiers =
  wv_handshake :: "socket_addr \<Rightarrow> nat \<Rightarrow> (nat \<times> 'w) result"
  wv_http_ping :: "'w \<Rightarrow> nat result"

definition verify_one_wg :: "'w wg_verifiers \<Rightarrow> nat \<Rightarrow> bool \<Rightarrow> ip_addr \<times> u16 \<Rightarrow> probe_result option" where
  "verify_one_wg v timeout ironclad c =
     (case c of (ip, port) \<Rightarrow>
        case wv_handshake v \<lparr>sa_ip = ip, sa_port = port\<rparr> timeout of
          Inl e \<Rightarrow> None
        | Inr (rtt, session) \<Rightarrow>
            if \<not> ironclad then Some \<lparr>pr_ip = ip, pr_port = port, pr_rtt = rtt\<rparr>
            else (case wv_http_ping v session of
                    Inr http_rtt \<Rightarrow> Some \<lparr>pr_ip = ip, pr_port = port, pr_rtt = http_rtt\<rparr>
                  | Inl e \<Rightarrow> None))"

definition wg_strategy_for :: "sys_tuning \<Rightarrow> wg_scan_mode \<Rightarrow> nat \<Rightarrow> wg_strategy" where
  "wg_strategy_for tuning mode want =
     (let st = wg_scan_strategy mode;
          st = st\<lparr>st_concurrency := cap_concurrency tuning (st_concurrency st)\<rparr>
      in if 1 < want
         then st\<lparr>st_early_exit_first := False, st_target_successes := max (st_target_successes st) (want * 3)\<rparr>
         else st)"

definition hunt_wg_endpoints ::
    "env \<Rightarrow> sys_tuning \<Rightarrow> 'w wg_verifiers \<Rightarrow> u16 list \<Rightarrow> ip_scan \<Rightarrow> socket_addr set \<Rightarrow> bool \<Rightarrow> wg_scan_mode \<Rightarrow> nat \<Rightarrow>
       (string \<Rightarrow> nat list) \<Rightarrow> (string \<Rightarrow> (nat \<times> u32) list) \<Rightarrow> nat \<Rightarrow> scan_round list \<Rightarrow> probe_result list result option" where
  "hunt_wg_endpoints env tuning v ports ip excluded has_v6 mode want draws4 draws6 start rounds =
     (let want = max want 1; st = wg_strategy_for tuning mode want
      in case effective_ip ip has_v6 of
           None \<Rightarrow> Some (Inl NoCleanEndpoint)
         | Some ip' \<Rightarrow>
             (case build_wg_candidates env st ports ip' excluded draws4 draws6 of
                None \<Rightarrow> None
              | Some candidates \<Rightarrow>
                  map_option fst
                    (wg_hunt_loop st want (start + st_overall_deadline st)
                       (verify_one_wg v (st_per_probe_timeout st) (mode = WgIronclad)) (wg_hunt_start candidates) rounds)))"

definition hunt_best_wg_endpoint ::
    "env \<Rightarrow> sys_tuning \<Rightarrow> 'w wg_verifiers \<Rightarrow> u16 list \<Rightarrow> ip_scan \<Rightarrow> socket_addr set \<Rightarrow> bool \<Rightarrow> wg_scan_mode \<Rightarrow>
       (string \<Rightarrow> nat list) \<Rightarrow> (string \<Rightarrow> (nat \<times> u32) list) \<Rightarrow> nat \<Rightarrow> scan_round list \<Rightarrow> probe_result result option" where
  "hunt_best_wg_endpoint env tuning v ports ip excluded has_v6 mode draws4 draws6 start rounds =
     map_option
       (\<lambda>r. case r of
              Inl e \<Rightarrow> Inl e
            | Inr [] \<Rightarrow> Inl NoCleanEndpoint
            | Inr (pr # _) \<Rightarrow> Inr pr)
       (hunt_wg_endpoints env tuning v ports ip excluded has_v6 mode 1 draws4 draws6 start rounds)"

end
