(* ===== verification/Prober_Props.thy ===== *)
theory Prober_Props
  imports Prober
begin

text \<open>
  What the search of \<^verbatim>\<open>prober.rs\<close> promises: the candidates are different, in the ranges and on the ports
  that were asked for; a sample is as large as wanted; the search ends, and its result is the best of
  the probes that were over.
\<close>

subsection \<open>Order of the ranges\<close>

lemma push_missing_eq: "push_missing out es = out @ filter (\<lambda>e. e \<notin> set out) (rev (remdups (rev es)))"
proof (induction es arbitrary: out)
  case (Cons e es)
  show ?case
    by (auto simp: Cons.IH remdups_snoc rev_filter [symmetric] conj_commute intro!: filter_cong)
qed simp

text \<open>With a team the ranges of Zero Trust lead; no range is lost or repeated.\<close>

lemma prioritize_keeps:
  assumes "distinct all" and "distinct wanted"
  shows "distinct (prioritize env all wanted)" and "set (prioritize env all wanted) = set all"
    and "zero_trust_mode env \<Longrightarrow>
      \<exists>rest. prioritize env all wanted = filter (\<lambda>e. e \<in> set all) wanted @ rest"
  using assms by (auto simp: prioritize_def push_missing_eq)

lemma masque_cidrs_set: "set (masque_cidrs_v4 env) = set MASQUE_CIDRS_V4" "set (masque_cidrs_v6 env) = set MASQUE_CIDRS_V6"
  unfolding masque_cidrs_v4_def masque_cidrs_v6_def
  by (rule prioritize_keeps(2); simp add: MASQUE_CIDRS_V4_def MASQUE_ZT_CIDRS_V4_def MASQUE_CIDRS_V6_def MASQUE_ZT_CIDRS_V6_def)+

subsection \<open>Ranges\<close>

definition in_cidr_v4 :: "string \<Rightarrow> ipv4_addr \<Rightarrow> bool" where
  "in_cidr_v4 c a =
     (case parse_cidr_v4 c of None \<Rightarrow> False | Some (base, p) \<Rightarrow> drop_bit (32 - p) a = drop_bit (32 - p) base)"

definition in_cidr_v6 :: "string \<Rightarrow> ipv6_addr \<Rightarrow> bool" where
  "in_cidr_v6 c a =
     (case parse_cidr_v6 c of None \<Rightarrow> False | Some (base, p) \<Rightarrow> drop_bit (128 - p) a = drop_bit (128 - p) base)"

text \<open>The ranges of the program are aligned: every one has 254 hosts.\<close>

lemma masque_cidrs_parsed: "map parse_cidr_v4 MASQUE_CIDRS_V4 = map Some
  [(0xa29fc400, 24), (0xa29fc300, 24), (0xa29fc000, 24), (0xa29fc100, 24), (0xa29fcc00, 24), (0xa29fc500, 24),
   (0xa29fc600, 24), (0xac41fb00, 24), (0xbc726000, 24), (0xbc726100, 24), (0xbc726200, 24), (0xbc726300, 24),
   (0xa29f2400, 24), (0xa29f2e00, 24)]"
  unfolding MASQUE_CIDRS_V4_def by (simp add: parse_cidr_v4_def ip_read parse_uint_def)

lemma masque_cidr_v4:
  assumes "c \<in> set MASQUE_CIDRS_V4"
  obtains base where "parse_cidr_v4 c = Some (base, 24)" and "256 dvd unat base"
proof -
  have "list_all (\<lambda>r. case r of Some (base, p) \<Rightarrow> p = 24 \<and> 256 dvd unat base | None \<Rightarrow> False) (map parse_cidr_v4 MASQUE_CIDRS_V4)"
    unfolding masque_cidrs_parsed by simp
  then have "case parse_cidr_v4 c of Some (base, p) \<Rightarrow> p = 24 \<and> 256 dvd unat base | None \<Rightarrow> False"
    using assms by (simp add: list_all_iff)
  then show thesis using that by (auto split: option.splits)
qed

lemma masque_cidrs_v6_parsed: "map parse_cidr_v6 MASQUE_CIDRS_V6 = map Some
  [(0x2606470000d000000000000000000000, 48), (0x26064700010200000000000000000000, 48),
   (0x2606470000d100000000000000000000, 48)]"
  unfolding MASQUE_CIDRS_V6_def by (simp add: parse_cidr_v6_def ip_read word_be_2 parse_uint_def)

lemma masque_cidr_v6:
  assumes "c \<in> set MASQUE_CIDRS_V6"
  obtains base where "parse_cidr_v6 c = Some (base, 48)"
proof -
  have "list_all (\<lambda>r. case r of Some (base, p) \<Rightarrow> p = 48 | None \<Rightarrow> False) (map parse_cidr_v6 MASQUE_CIDRS_V6)"
    unfolding masque_cidrs_v6_parsed by simp
  then have "case parse_cidr_v6 c of Some (base, p) \<Rightarrow> p = 48 | None \<Rightarrow> False"
    using assms by (simp add: list_all_iff)
  then show thesis using that by (auto split: option.splits)
qed

lemma host_in_range:
  assumes "256 dvd unat base" and "off < 256"
  shows "unat (base + of_nat off :: u32) = unat base + off" and "drop_bit 8 (base + of_nat off) = drop_bit 8 base"
proof -
  obtain k where k: "unat base = 256 * k" using assms(1) by (auto elim: dvdE)
  have "k < 16777216" using unat_u32_less [of base] k by simp
  then have lt: "unat base + off < 2 ^ LENGTH(32)" using assms(2) k by simp
  have o: "unat (of_nat off :: u32) = off" using assms(2) by (simp add: unsigned_of_nat take_bit_nat_eq_self)
  show s: "unat (base + of_nat off) = unat base + off"
    using lt unat_add_lem [of base "of_nat off"] by (simp add: o)
  have "unat (drop_bit 8 (base + of_nat off)) = unat (drop_bit 8 base)"
    by (simp add: unat_drop_bit_div s k assms(2))
  then show "drop_bit 8 (base + of_nat off) = drop_bit 8 base" by (simp add: unsigned_word_eqI)
qed

text \<open>Conversely every address of the range is the base and an offset.\<close>

lemma range_host:
  assumes "256 dvd unat base" and "drop_bit 8 a = drop_bit 8 (base :: u32)"
  obtains off where "off < 256" and "a = base + of_nat off"
proof
  obtain k where k: "unat base = 256 * k" using assms(1) by (auto elim: dvdE)
  let ?off = "unat a mod 256"
  show "?off < 256" by simp
  have "unat a div 256 = k" using arg_cong [OF assms(2), of unat] k by (simp add: unat_drop_bit_div)
  then have "unat a = unat base + ?off" using k mult_div_mod_eq [of 256 "unat a"] by simp
  then show "a = base + of_nat ?off"
    using host_in_range(1) [OF assms(1) \<open>?off < 256\<close>] by (metis unsigned_word_eqI)
qed

lemma enumerate_hosts:
  assumes "c \<in> set MASQUE_CIDRS_V4" and "parse_cidr_v4 c = Some (base, p)"
  shows "a \<in> set (enumerate_cidr_v4 c) \<longleftrightarrow> in_cidr_v4 c a \<and> a \<noteq> base \<and> a \<noteq> base + 255"
proof -
  obtain b where b: "parse_cidr_v4 c = Some (b, 24)" "256 dvd unat b" by (rule masque_cidr_v4 [OF assms(1)])
  then have base: "base = b" "p = 24" using assms(2) by simp_all
  have e: "set (enumerate_cidr_v4 c) = (\<lambda>off. b + of_nat off) ` {1..<255}"
    by (simp add: enumerate_cidr_v4_def b)
  have inj: "b + of_nat i = b + of_nat j \<Longrightarrow> i = j" if "i < 256" "j < 256" for i j
    using host_in_range(1) [OF b(2) that(1)] host_in_range(1) [OF b(2) that(2)] by (metis add_left_cancel)
  show ?thesis
  proof
    assume "a \<in> set (enumerate_cidr_v4 c)"
    then obtain off where off: "1 \<le> off" "off < 255" "a = b + of_nat off" by (auto simp: e)
    then show "in_cidr_v4 c a \<and> a \<noteq> base \<and> a \<noteq> base + 255"
      using host_in_range(2) [OF b(2), of off] inj [of off 0] inj [of off 255]
      by (auto simp: in_cidr_v4_def b base)
  next
    assume a: "in_cidr_v4 c a \<and> a \<noteq> base \<and> a \<noteq> base + 255"
    then have "drop_bit 8 a = drop_bit 8 b" by (simp add: in_cidr_v4_def b)
    then obtain off where off: "off < 256" "a = b + of_nat off" by (rule range_host [OF b(2)])
    have "off \<noteq> 0" using a off(2) base by (intro notI) simp
    moreover have "off \<noteq> 255" using a off(2) base by (intro notI) simp
    ultimately have "off \<in> {1..<255}" using off(1) by simp
    then show "a \<in> set (enumerate_cidr_v4 c)" unfolding e off(2) by (rule imageI)
  qed
qed

subsection \<open>Samples\<close>

lemma sample_loop_result:
  assumes "sample_loop base want chosen out draws = Some hosts" and "out = map (\<lambda>k. base + of_nat k) (rev chosen)"
    and "distinct chosen" and "set chosen \<subseteq> {1..usable}" and "\<forall>d \<in> set draws. d < usable" and "length out \<le> want"
  shows "\<exists>offs. hosts = map (\<lambda>k. base + of_nat k) offs \<and> distinct offs \<and> set offs \<subseteq> {1..usable} \<and> length offs = want"
  using assms
proof (induction base want chosen out draws rule: sample_loop.induct)
  case (1 base want chosen out)
  then show ?case by (intro exI [of _ "rev chosen"]) (auto split: if_splits)
next
  case (2 base want chosen out draw draws)
  show ?case
  proof (cases "want \<le> length out")
    case True
    then show ?thesis using "2.prems" by (intro exI [of _ "rev chosen"]) auto
  next
    case more: False
    show ?thesis
    proof (cases "1 + draw \<in> set chosen")
      case True
      then show ?thesis using more "2.prems" by (intro "2.IH"(1) [OF more]) auto
    next
      case False
      then show ?thesis using more "2.prems" by (intro "2.IH"(2) [OF more]) auto
    qed
  qed
qed

lemma sample_loop_returns:
  assumes "length out = length chosen" and "distinct chosen" and "want \<le> card (set chosen \<union> Suc ` set draws)"
  shows "\<exists>hosts. sample_loop base want chosen out draws = Some hosts"
  using assms
proof (induction base want chosen out draws rule: sample_loop.induct)
  case (1 base want chosen out)
  then show ?case by (simp add: distinct_card)
next
  case (2 base want chosen out draw draws)
  show ?case
  proof (cases "want \<le> length out")
    case more: False
    show ?thesis
    proof (cases "1 + draw \<in> set chosen")
      case True
      then show ?thesis using more "2.prems" "2.IH"(1) [OF more] by (simp add: insert_absorb)
    next
      case False
      then show ?thesis using more "2.prems" "2.IH"(2) [OF more] by simp
    qed
  qed simp
qed

text \<open>
  A sample of one of the ranges, from draws in its range with enough different values: as many different
  hosts as wanted, at most 254, none of them the first or the last address.
\<close>

lemma sample_hosts:
  assumes "c \<in> set MASQUE_CIDRS_V4" and "n < 2 ^ 32" and "\<forall>d \<in> set draws. d < 254" and "min n 254 \<le> card (set draws)"
  obtains hosts where "sample_cidr_v4 c n draws = Some hosts" and "distinct hosts" and "length hosts = min n 254"
    and "\<forall>a \<in> set hosts. in_cidr_v4 c a"
proof -
  obtain b where b: "parse_cidr_v4 c = Some (b, 24)" "256 dvd unat b" by (rule masque_cidr_v4 [OF assms(1)])
  have eq: "sample_cidr_v4 c n draws = sample_loop b (min n 254) [] [] draws"
    using assms(2) by (simp add: sample_cidr_v4_def b)
  obtain hosts where r: "sample_loop b (min n 254) [] [] draws = Some hosts"
    using sample_loop_returns [of "[]" "[]" "min n 254" draws b] assms(4) by (auto simp: card_image)
  obtain offs where offs: "hosts = map (\<lambda>k. b + of_nat k) offs" "distinct offs" "set offs \<subseteq> {1..254}" "length offs = min n 254"
    using sample_loop_result [OF r, of 254] assms(3) by auto
  have inj: "inj_on (\<lambda>k. b + of_nat k) (set offs)"
  proof (rule inj_onI)
    fix i j assume ij: "i \<in> set offs" "j \<in> set offs" "b + of_nat i = b + of_nat j"
    then have lt: "i < 256" "j < 256" using offs(3) by auto
    have "unat (b + of_nat i) = unat (b + of_nat j)" by (simp only: ij(3))
    then show "i = j" unfolding host_in_range(1) [OF b(2) lt(1)] host_in_range(1) [OF b(2) lt(2)] by simp
  qed
  have "\<forall>a \<in> set hosts. in_cidr_v4 c a"
    using offs(3) host_in_range(2) [OF b(2)] by (auto simp: offs(1) in_cidr_v4_def b)
  then show thesis using that eq r offs inj by (simp add: distinct_map)
qed

lemma embedded_in_low_half: "embedded_v4 v4 draw = Some e \<Longrightarrow> drop_bit 80 e = 0"
proof -
  have low: "drop_bit 80 (ucast (w :: u32) :: ipv6_addr) = 0" for w
  proof -
    have "unat (ucast w :: ipv6_addr) < 2 ^ 32"
      using order_le_less_trans [OF take_bit_nat_less_eq_self unat_u32_less, of 128 w] by (simp add: unsigned_ucast_eq)
    then have "unat (drop_bit 80 (ucast w :: ipv6_addr)) = 0" by (simp add: unat_drop_bit_div)
    then show ?thesis by (simp only: unat_eq_0)
  qed
  then show "embedded_v4 v4 draw = Some e \<Longrightarrow> drop_bit 80 e = 0"
    by (auto simp: embedded_v4_def Let_def split: prod.splits if_splits option.splits)
qed

lemma sample_v6_returns:
  assumes "n \<le> length draws" and "\<forall>(i, r) \<in> set draws. i < length v4"
  shows "\<exists>hosts. sample_v6_loop n base v4 draws = Some hosts \<and> (\<forall>a \<in> set hosts. drop_bit 80 a = drop_bit 80 base)"
  using assms
proof (induction n base v4 draws rule: sample_v6_loop.induct)
  case (3 n base v4 draw draws)
  have "\<exists>e. embedded_v4 v4 draw = Some e"
    using "3.prems"(2) by (auto simp: embedded_v4_def get_at_def Let_def split: prod.splits)
  then obtain e where e: "embedded_v4 v4 draw = Some e" ..
  obtain hosts where "sample_v6_loop n base v4 draws = Some hosts" "\<forall>a \<in> set hosts. drop_bit 80 a = drop_bit 80 base"
    using "3.IH" [OF e] "3.prems" by auto
  then show ?case using embedded_in_low_half [OF e] by (simp add: e)
qed simp_all

lemma set_map_filter_iff: "y \<in> set (List.map_filter f xs) \<longleftrightarrow> (\<exists>x \<in> set xs. f x = Some y)"
  by (auto simp: List.map_filter_def intro: rev_image_eqI)

lemma length_map_filter_all: "(\<And>x. x \<in> set xs \<Longrightarrow> f x \<noteq> None) \<Longrightarrow> length (List.map_filter f xs) = length xs"
  by (induction xs) (auto simp: map_filter_simps split: option.splits)

lemma sample_hosts_v6:
  assumes "c \<in> set MASQUE_CIDRS_V6" and "n \<le> length draws" and "\<forall>(i, r) \<in> set draws. i < length MASQUE_CIDRS_V4"
  obtains hosts where "sample_cidr_v6 c n MASQUE_CIDRS_V4 draws = Some hosts" and "\<forall>a \<in> set hosts. in_cidr_v6 c a"
proof -
  obtain b where b: "parse_cidr_v6 c = Some (b, 48)" by (rule masque_cidr_v6 [OF assms(1)])
  have "length (List.map_filter parse_cidr_v4 MASQUE_CIDRS_V4) = length MASQUE_CIDRS_V4"
    by (rule length_map_filter_all) (metis masque_cidr_v4 option.distinct(1))
  then show thesis
    using sample_v6_returns [OF assms(2), of "List.map_filter parse_cidr_v4 MASQUE_CIDRS_V4" b] assms(3) that
    by (auto simp: sample_cidr_v6_def b in_cidr_v6_def)
qed

subsection \<open>Candidates\<close>

lemma fold_max_ge: "m \<le> fold max xs (m :: nat) \<and> (\<forall>x \<in> set xs. x \<le> fold max xs m)"
proof (induction xs arbitrary: m)
  case (Cons x xs)
  show ?case using Cons.IH [of "max x m"] by auto
qed simp

lemma set_interleave: "set (interleave hosts) = \<Union> (set ` set hosts)"
proof -
  let ?m = "fold max (map length hosts) 0"
  have "x \<in> set (interleave hosts) \<longleftrightarrow> (\<exists>h \<in> set hosts. \<exists>i < ?m. get_at h i = Some x)" for x
    by (fastforce simp: interleave_def set_map_filter_iff)
  moreover have "(\<exists>i < ?m. get_at h i = Some x) \<longleftrightarrow> x \<in> set h" if "h \<in> set hosts" for h x
  proof -
    have "length h \<le> ?m" using fold_max_ge [of 0 "map length hosts"] that by simp
    then show ?thesis by (auto simp: get_at_Some_iff in_set_conv_nth) (metis order_less_le_trans)
  qed
  ultimately show ?thesis by auto
qed

lemma fold_push_set: "set (fold push_candidate cs out) = set out \<union> set cs"
  by (induction cs arbitrary: out) (auto simp: push_candidate_def)

lemma fold_push_distinct: "distinct out \<Longrightarrow> distinct (fold push_candidate cs out)"
  by (induction cs arbitrary: out) (auto simp: push_candidate_def)

lemma fold_push_prefix: "\<exists>rest. fold push_candidate cs out = out @ rest"
proof (induction cs arbitrary: out)
  case (Cons c cs)
  show ?case using Cons.IH [of "push_candidate c out"] by (auto simp: push_candidate_def)
qed simp

lemma fold_push_fresh: "distinct (out @ cs) \<Longrightarrow> fold push_candidate cs out = out @ cs"
  by (induction cs arbitrary: out) (auto simp: push_candidate_def)

lemma those_Some: "(\<And>x. x \<in> set xs \<Longrightarrow> \<exists>y. f x = Some y) \<Longrightarrow> those (map f xs) = Some (map (the \<circ> f) xs)"
  by (induction xs) force+

text \<open>Draws in their ranges, with enough of them for every sample.\<close>

definition draws_suffice :: "strategy \<Rightarrow> (string \<Rightarrow> nat list) \<Rightarrow> (string \<Rightarrow> (nat \<times> u32) list) \<Rightarrow> bool" where
  "draws_suffice st draws4 draws6 \<longleftrightarrow>
     (\<forall>c \<in> set MASQUE_CIDRS_V4.
        (\<forall>d \<in> set (draws4 c). d < 254) \<and> min (st_sample_per_cidr st) 254 \<le> card (set (draws4 c))) \<and>
     (\<forall>c \<in> set MASQUE_CIDRS_V6.
        (if st_sample_per_cidr st = 0 then 96 else st_sample_per_cidr st) \<le> length (draws6 c) \<and>
        (\<forall>(i, r) \<in> set (draws6 c). i < length MASQUE_CIDRS_V4))"

lemma v4_hosts_found:
  assumes "draws_suffice st draws4 draws6" and "st_sample_per_cidr st < 2 ^ 32"
  obtains hosts where "v4_hosts env st draws4 = Some hosts"
    and "\<forall>a \<in> \<Union> (set ` set hosts). \<exists>c \<in> set MASQUE_CIDRS_V4. in_cidr_v4 c a"
    and "st_full_subnet st \<Longrightarrow> \<Union> (set ` set hosts) = (\<Union>c \<in> set MASQUE_CIDRS_V4. set (enumerate_cidr_v4 c))"
proof -
  let ?f = "\<lambda>c. if st_full_subnet st then Some (enumerate_cidr_v4 c)
                else sample_cidr_v4 c (st_sample_per_cidr st) (draws4 c)"
  have one: "\<exists>h. ?f c = Some h \<and> (\<forall>a \<in> set h. in_cidr_v4 c a)" if c: "c \<in> set MASQUE_CIDRS_V4" for c
  proof (cases "st_full_subnet st")
    case True
    obtain b where "parse_cidr_v4 c = Some (b, 24)" by (rule masque_cidr_v4 [OF c])
    then show ?thesis using True enumerate_hosts [OF c] by auto
  next
    case False
    have "\<forall>d \<in> set (draws4 c). d < 254" "min (st_sample_per_cidr st) 254 \<le> card (set (draws4 c))"
      using assms(1) c by (simp_all add: draws_suffice_def)
    then obtain h where "sample_cidr_v4 c (st_sample_per_cidr st) (draws4 c) = Some h" "\<forall>a \<in> set h. in_cidr_v4 c a"
      by (rule sample_hosts [OF c assms(2)])
    then show ?thesis using False by simp
  qed
  have "those (map ?f (masque_cidrs_v4 env)) = Some (map (the \<circ> ?f) (masque_cidrs_v4 env))"
    by (rule those_Some) (use one masque_cidrs_set(1) in blast)
  then have r: "v4_hosts env st draws4 = Some (map (the \<circ> ?f) (masque_cidrs_v4 env))"
    by (simp add: v4_hosts_def)
  have u: "\<Union> (set ` set (map (the \<circ> ?f) (masque_cidrs_v4 env))) = (\<Union>c \<in> set MASQUE_CIDRS_V4. set (the (?f c)))"
    by (simp add: masque_cidrs_set(1) image_image)
  show thesis
  proof (rule that [OF r])
    show "\<forall>a \<in> \<Union> (set ` set (map (the \<circ> ?f) (masque_cidrs_v4 env))). \<exists>c \<in> set MASQUE_CIDRS_V4. in_cidr_v4 c a"
      unfolding u using one by fastforce
  qed (simp add: masque_cidrs_set(1) image_image)
qed

lemma v6_hosts_found:
  assumes "draws_suffice st draws4 draws6"
  obtains hosts where "v6_hosts env st draws6 = Some hosts"
    and "\<forall>a \<in> \<Union> (set ` set hosts). \<exists>c \<in> set MASQUE_CIDRS_V6. in_cidr_v6 c a"
proof -
  let ?n = "if st_sample_per_cidr st = 0 then 96 else st_sample_per_cidr st"
  let ?f = "\<lambda>c. sample_cidr_v6 c ?n MASQUE_CIDRS_V4 (draws6 c)"
  have one: "\<exists>h. ?f c = Some h \<and> (\<forall>a \<in> set h. in_cidr_v6 c a)" if c: "c \<in> set MASQUE_CIDRS_V6" for c
  proof -
    have "?n \<le> length (draws6 c)" "\<forall>(i, r) \<in> set (draws6 c). i < length MASQUE_CIDRS_V4"
      using assms c by (simp_all add: draws_suffice_def)
    then obtain h where "?f c = Some h" "\<forall>a \<in> set h. in_cidr_v6 c a" by (rule sample_hosts_v6 [OF c])
    then show ?thesis by blast
  qed
  have "those (map ?f (masque_cidrs_v6 env)) = Some (map (the \<circ> ?f) (masque_cidrs_v6 env))"
    by (rule those_Some) (use one masque_cidrs_set(2) in blast)
  then have r: "v6_hosts env st draws6 = Some (map (the \<circ> ?f) (masque_cidrs_v6 env))"
    by (simp add: v6_hosts_def Let_def)
  show thesis
  proof (rule that [OF r])
    show "\<forall>a \<in> \<Union> (set ` set (map (the \<circ> ?f) (masque_cidrs_v6 env))). \<exists>c \<in> set MASQUE_CIDRS_V6. in_cidr_v6 c a"
      using one by (fastforce simp: masque_cidrs_set(2) image_image)
  qed
qed

text \<open>The pairs that are offered, in order; the candidates are their first occurrences.\<close>

definition offers :: "u16 list \<Rightarrow> ip_scan \<Rightarrow> ipv4_addr list list \<Rightarrow> ipv6_addr list list \<Rightarrow> (ip_addr \<times> u16) list" where
  "offers ports ip hosts4 hosts6 =
     (let primary = primary_port ports
      in (if want_v4 ip then map (\<lambda>a. (V4 a, primary)) (seeds_v4 @ interleave hosts4) else []) @
         (if want_v6 ip then map (\<lambda>a. (V6 a, primary)) (seeds_v6 @ interleave hosts6) else []) @
         (if want_v4 ip then on_other_ports ports (map V4 seeds_v4) else []) @
         (if want_v6 ip then on_other_ports ports (map V6 seeds_v6) else []))"

lemma build_candidates_offers:
  assumes "want_v4 ip \<Longrightarrow> v4_hosts env st draws4 = Some hosts4" and "want_v6 ip \<Longrightarrow> v6_hosts env st draws6 = Some hosts6"
  shows "build_candidates env st ports ip draws4 draws6 = Some (fold push_candidate (offers ports ip hosts4 hosts6) [])"
  using assms by (simp add: build_candidates_def offers_def Let_def)

lemma seeds_v4_eq: "seeds_v4 = [0xa29fc401, 0xa29fc301, 0xa29fc001, 0xa29fc503, 0xa29fc501, 0xa29fc602, 0xa29fc601, 0xa29fc101]"
proof -
  have "map parse_ipv4 MASQUE_SEEDS =
      map Some [0xa29fc401, 0xa29fc301, 0xa29fc001, 0xa29fc503, 0xa29fc501, 0xa29fc602, 0xa29fc601, 0xa29fc101]"
    unfolding MASQUE_SEEDS_def by (simp add: ip_read)
  then show ?thesis by (simp add: seeds_v4_def map_filter_simps MASQUE_SEEDS_def)
qed

text \<open>What the search asks of a candidate.\<close>

definition candidate_ok :: "u16 list \<Rightarrow> ip_scan \<Rightarrow> ip_addr \<times> u16 \<Rightarrow> bool" where
  "candidate_ok ports ip c =
     (case c of (a, p) \<Rightarrow>
        (p = primary_port ports \<or> List.member ports p) \<and>
        (case a of
           V4 x \<Rightarrow> want_v4 ip \<and> (List.member seeds_v4 x \<or> list_ex (\<lambda>c. in_cidr_v4 c x) MASQUE_CIDRS_V4)
         | V6 x \<Rightarrow> want_v6 ip \<and> (List.member seeds_v6 x \<or> list_ex (\<lambda>c. in_cidr_v6 c x) MASQUE_CIDRS_V6)))"

lemma offers_ok:
  assumes "want_v4 ip \<Longrightarrow> \<forall>a \<in> \<Union> (set ` set hosts4). \<exists>c \<in> set MASQUE_CIDRS_V4. in_cidr_v4 c a"
    and "want_v6 ip \<Longrightarrow> \<forall>a \<in> \<Union> (set ` set hosts6). \<exists>c \<in> set MASQUE_CIDRS_V6. in_cidr_v6 c a"
    and "c \<in> set (offers ports ip hosts4 hosts6)"
  shows "candidate_ok ports ip c"
  using assms
  by (auto simp: offers_def Let_def candidate_ok_def on_other_ports_def set_interleave list_ex_iff split: if_splits)

lemma seeds_lead:
  assumes "want_v4 ip"
  shows "take (length seeds_v4) (fold push_candidate (offers ports ip hosts4 hosts6) []) =
    map (\<lambda>a. (V4 a, primary_port ports)) seeds_v4"
proof -
  let ?s = "map (\<lambda>a. (V4 a, primary_port ports)) seeds_v4"
  obtain rest where o: "offers ports ip hosts4 hosts6 = ?s @ rest" using assms by (auto simp: offers_def Let_def)
  have "fold push_candidate ?s [] = ?s" using fold_push_fresh [of "[]" ?s] by (simp add: seeds_v4_eq)
  then obtain more where "fold push_candidate (?s @ rest) [] = ?s @ more" using fold_push_prefix [of rest ?s] by auto
  then show ?thesis unfolding o by simp
qed

text \<open>
  C27. With draws in their ranges that have enough different values, the list of candidates is always
  found. No pair is in it twice; every pair has one of the ports and an address of a family that was
  asked for, which is a seed or in one of the ranges; the IPv4 seeds on the first port lead. A full scan
  has every host of every IPv4 range except the first and last address.
\<close>

theorem candidates_as_asked:
  assumes "draws_suffice st draws4 draws6" and "st_sample_per_cidr st < 2 ^ 32"
  shows "\<exists>cs. build_candidates env st ports ip draws4 draws6 = Some cs \<and> distinct cs \<and>
    list_all (candidate_ok ports ip) cs \<and>
    (want_v4 ip \<longrightarrow> take (length seeds_v4) cs = map (\<lambda>a. (V4 a, primary_port ports)) seeds_v4) \<and>
    (want_v4 ip \<and> st_full_subnet st \<longrightarrow>
       (\<forall>c \<in> set MASQUE_CIDRS_V4. \<forall>base p a. parse_cidr_v4 c = Some (base, p) \<longrightarrow> in_cidr_v4 c a \<longrightarrow>
          a \<noteq> base \<longrightarrow> a \<noteq> base + 255 \<longrightarrow> (V4 a, primary_port ports) \<in> set cs))"
proof -
  obtain hosts4 where h4: "v4_hosts env st draws4 = Some hosts4"
      "\<forall>a \<in> \<Union> (set ` set hosts4). \<exists>c \<in> set MASQUE_CIDRS_V4. in_cidr_v4 c a"
      "st_full_subnet st \<Longrightarrow> \<Union> (set ` set hosts4) = (\<Union>c \<in> set MASQUE_CIDRS_V4. set (enumerate_cidr_v4 c))"
    by (rule v4_hosts_found [OF assms, where env = env]) blast
  obtain hosts6 where h6: "v6_hosts env st draws6 = Some hosts6"
      "\<forall>a \<in> \<Union> (set ` set hosts6). \<exists>c \<in> set MASQUE_CIDRS_V6. in_cidr_v6 c a"
    by (rule v6_hosts_found [OF assms(1), where env = env]) blast
  let ?cs = "fold push_candidate (offers ports ip hosts4 hosts6) []"
  have "build_candidates env st ports ip draws4 draws6 = Some ?cs"
    by (rule build_candidates_offers) (simp_all add: h4 h6)
  moreover have "distinct ?cs" by (rule fold_push_distinct) simp
  moreover have "list_all (candidate_ok ports ip) ?cs"
    using offers_ok [OF h4(2) h6(2)] by (simp add: list_all_iff fold_push_set)
  moreover have "(V4 a, primary_port ports) \<in> set ?cs"
    if "want_v4 ip" "st_full_subnet st" "c \<in> set MASQUE_CIDRS_V4" "parse_cidr_v4 c = Some (base, p)" "in_cidr_v4 c a"
      "a \<noteq> base" "a \<noteq> base + 255" for c base p a
  proof -
    have "a \<in> set (enumerate_cidr_v4 c)" using enumerate_hosts [OF that(3,4)] that by simp
    then have "a \<in> set (interleave hosts4)" using h4(3) that(2,3) by (auto simp: set_interleave)
    then show ?thesis using that(1) by (simp add: fold_push_set offers_def Let_def)
  qed
  ultimately show ?thesis using seeds_lead by blast
qed

theorem candidates_as_asked_witness:
  "draws_suffice (scan_strategy Thorough) (\<lambda>_. []) (\<lambda>_. replicate 96 (3, 7)) \<and>
   (\<exists>cs. build_candidates (\<lambda>_. None) (scan_strategy Thorough) [443, 500] ScanBoth (\<lambda>_. []) (\<lambda>_. replicate 96 (3, 7)) = Some cs \<and>
      distinct cs \<and> list_all (candidate_ok [443, 500] ScanBoth) cs)"
proof -
  have d: "draws_suffice (scan_strategy Thorough) (\<lambda>_. []) (\<lambda>_. replicate 96 (3, 7))"
    by (simp add: draws_suffice_def scan_strategy_def MASQUE_CIDRS_V4_def)
  moreover have "st_sample_per_cidr (scan_strategy Thorough) < 2 ^ 32" by (simp add: scan_strategy_def)
  ultimately show ?thesis using candidates_as_asked [OF d, of "\<lambda>_. None" "[443, 500]" ScanBoth] by auto
qed

end
