(* ===== verification/Prober_Search.thy ===== *)
theory Prober_Search
  imports Prober_Props
begin

text \<open>
  The loop of the search for a MASQUE gateway as an instance of \<open>scan_loop\<close>: it ends after as many rounds
  as there are candidates, or at the deadline, and gives the best of the probes that were over.
\<close>

text \<open>The best result of a set of candidates that were probed.\<close>

definition best_of :: "('c \<Rightarrow> probe_result option) \<Rightarrow> 'c set \<Rightarrow> probe_result option \<Rightarrow> bool" where
  "best_of verify tried best =
     (case best of
        None \<Rightarrow> \<forall>c \<in> tried. verify c = None
      | Some pr \<Rightarrow> (\<exists>c \<in> tried. verify c = Some pr) \<and> (\<forall>c \<in> tried. \<forall>q. verify c = Some q \<longrightarrow> pr_rtt pr \<le> pr_rtt q))"

lemma best_of_miss: "best_of verify tried best \<Longrightarrow> verify c = None \<Longrightarrow> best_of verify (insert c tried) best"
  by (auto simp: best_of_def split: option.splits)

lemma best_of_hit:
  "best_of verify tried best \<Longrightarrow> verify c = Some pr \<Longrightarrow> best_of verify (insert c tried) (Some (better best pr))"
  by (auto simp: best_of_def better_def split: option.splits intro: order_trans)

definition tried :: "(ip_addr \<times> u16) list \<Rightarrow> hunt_state \<Rightarrow> (ip_addr \<times> u16) set" where
  "tried candidates s = set candidates - set (waiting (hs_stream s))"

definition hunt_inv ::
    "strategy \<Rightarrow> (ip_addr \<times> u16 \<Rightarrow> probe_result option) \<Rightarrow> (ip_addr \<times> u16) list \<Rightarrow> hunt_state \<Rightarrow> bool" where
  "hunt_inv st verify candidates s \<longleftrightarrow>
     0 < st_concurrency st \<and> distinct (waiting (hs_stream s)) \<and> set (waiting (hs_stream s)) \<subseteq> set candidates \<and>
     length (if_flight (hs_stream s)) \<le> st_concurrency st \<and>
     best_of verify (tried candidates s) (hs_best s) \<and>
     (hs_best s = None \<longrightarrow> hs_quiet_until s = None) \<and> (st_early_exit_first st \<longrightarrow> hs_best s = None)"

definition hunt_good ::
    "strategy \<Rightarrow> nat \<Rightarrow> (ip_addr \<times> u16 \<Rightarrow> probe_result option) \<Rightarrow> (ip_addr \<times> u16) list \<Rightarrow> scan_round \<Rightarrow>
       probe_result result \<times> hunt_state \<Rightarrow> bool" where
  "hunt_good st deadline verify candidates r out =
     (case out of (res, s) \<Rightarrow>
        length (if_flight (hs_stream s)) \<le> st_concurrency st \<and>
        (case res of
           Inr pr \<Rightarrow> best_of verify (tried candidates s) (Some pr)
         | Inl e \<Rightarrow>
             e = NoCleanEndpoint \<and> best_of verify (tried candidates s) None \<and>
             (waiting (hs_stream s) = [] \<or> deadline \<le> fst r \<or> snd r = SleepOver)))"

lemma hunt_finish_good:
  assumes "hunt_inv st verify candidates s" and "deadline \<le> fst r \<or> snd r = SleepOver \<or> waiting (hs_stream s) = [] \<or> hs_best s \<noteq> None"
  shows "hunt_good st deadline verify candidates r (hunt_finish s, s)"
  using assms by (auto simp: hunt_inv_def hunt_good_def hunt_finish_def split: option.splits)

text \<open>A probe that is over moves one candidate from the waiting to the tried ones.\<close>

lemma tried_next:
  assumes "next_probe (st_concurrency st) k (hs_stream s) = (Some c, b)" and "hunt_inv st verify candidates s"
  shows "tried candidates (s\<lparr>hs_stream := b\<rparr>) = insert c (tried candidates s)"
    and "distinct (waiting b)" and "set (waiting b) \<subseteq> set candidates" and "length (if_flight b) \<le> st_concurrency st"
    and "length (waiting b) < length (waiting (hs_stream s))"
proof -
  have d: "distinct (waiting (hs_stream s))" and sub: "set (waiting (hs_stream s)) \<subseteq> set candidates"
    and len: "length (if_flight (hs_stream s)) \<le> st_concurrency st" using assms(2) by (simp_all add: hunt_inv_def)
  note n = next_probe_Some [OF assms(1) d]
  show "tried candidates (s\<lparr>hs_stream := b\<rparr>) = insert c (tried candidates s)" "distinct (waiting b)"
      "set (waiting b) \<subseteq> set candidates" "length (waiting b) < length (waiting (hs_stream s))"
    using n sub by (auto simp: tried_def)
  show "length (if_flight b) \<le> st_concurrency st"
    using flight_bound [OF len, of k] assms(1) by simp
qed

lemma tried_best [simp]:
  "tried candidates (s\<lparr>hs_best := x\<rparr>) = tried candidates s" "tried candidates (s\<lparr>hs_found := n\<rparr>) = tried candidates s"
  "tried candidates (s\<lparr>hs_quiet_until := q\<rparr>) = tried candidates s"
  by (simp_all add: tried_def)

lemma hunt_hit_cases:
  assumes "next_probe (st_concurrency st) k (hs_stream s) = (Some c, b)" and "hunt_inv st verify candidates s"
    and "verify c = Some pr"
  shows "case hunt_hit st later pr (s\<lparr>hs_stream := b\<rparr>) of
      Inl s' \<Rightarrow> hunt_inv st verify candidates s' \<and> hs_stream s' = b
    | Inr out \<Rightarrow> hunt_good st deadline verify candidates r out"
proof -
  note t = tried_next [OF assms(1,2)]
  have best: "best_of verify (tried candidates s) (hs_best s)" and early: "st_early_exit_first st \<Longrightarrow> hs_best s = None"
    and conc: "0 < st_concurrency st"
    using assms(2) by (simp_all add: hunt_inv_def)
  have b: "best_of verify (insert c (tried candidates s)) (Some (better (hs_best s) pr))"
    by (rule best_of_hit [OF best assms(3)])
  have first: "st_early_exit_first st \<Longrightarrow> better (hs_best s) pr = pr" using early by (simp add: better_def)
  show ?thesis
    using b t first conc
    by (auto simp: hunt_hit_def Let_def hunt_good_def hunt_inv_def hunt_finish_def)
qed

lemma hunt_round_goes:
  assumes inv: "hunt_inv st verify candidates s" and step: "hunt_round st deadline verify e s = Inl s'"
  shows "hunt_inv st verify candidates s'" and "length (waiting (hs_stream s')) < length (waiting (hs_stream s))"
proof -
  obtain now k later where e: "e = (now, ItemReady k later)"
    using step by (auto simp: hunt_round_def split: prod.splits if_splits scan_event.splits)
  obtain c b where n: "next_probe (st_concurrency st) k (hs_stream s) = (Some c, b)"
    using step by (auto simp: hunt_round_def e split: prod.splits if_splits option.splits)
  note t = tried_next [OF n inv]
  have "hunt_inv st verify candidates s' \<and> hs_stream s' = b"
  proof (cases "verify c")
    case None
    then have "s' = s\<lparr>hs_stream := b\<rparr>" using step by (simp add: hunt_round_def e n split: if_splits)
    then show ?thesis using inv t best_of_miss [of verify "tried candidates s" "hs_best s" c] None
      by (simp add: hunt_inv_def)
  next
    case (Some pr)
    then have "hunt_hit st later pr (s\<lparr>hs_stream := b\<rparr>) = Inl s'"
      using step by (simp add: hunt_round_def e n split: if_splits)
    then show ?thesis using hunt_hit_cases [OF n inv Some, where later = later] by simp
  qed
  then show "hunt_inv st verify candidates s'" "length (waiting (hs_stream s')) < length (waiting (hs_stream s))"
    using t(5) by simp_all
qed

lemma hunt_item_ends:
  assumes inv: "hunt_inv st verify candidates s" and step: "hunt_round st deadline verify (now, ItemReady k later) s = Inr r"
    and time: "\<not> effective_deadline deadline (hs_quiet_until s) \<le> now"
  shows "hunt_good st deadline verify candidates e r"
proof -
  obtain c b where n: "next_probe (st_concurrency st) k (hs_stream s) = (c, b)" by fastforce
  show ?thesis
  proof (cases c)
    case None
    have w: "waiting (hs_stream s) = []" "waiting b = []"
      using next_probe_None [OF n [unfolded None]] inv by (simp_all add: hunt_inv_def)
    then have "hunt_inv st verify candidates (s\<lparr>hs_stream := b\<rparr>)"
      using inv by (auto simp: hunt_inv_def tried_def waiting_def)
    moreover have "r = (hunt_finish s, s\<lparr>hs_stream := b\<rparr>)" using step time n None by (simp add: hunt_round_def)
    moreover have "hunt_finish (s\<lparr>hs_stream := b\<rparr>) = hunt_finish s" by (simp add: hunt_finish_def)
    ultimately show ?thesis using hunt_finish_good [of st verify candidates "s\<lparr>hs_stream := b\<rparr>" deadline e] w by simp
  next
    case (Some c')
    then obtain pr where v: "verify c' = Some pr" "hunt_hit st later pr (s\<lparr>hs_stream := b\<rparr>) = Inr r"
      using step time n by (auto simp: hunt_round_def split: option.splits)
    then show ?thesis
      using hunt_hit_cases [OF n [unfolded Some] inv v(1), where later = later and deadline = deadline and r = e] by simp
  qed
qed

lemma hunt_round_ends:
  assumes inv: "hunt_inv st verify candidates s" and step: "hunt_round st deadline verify e s = Inr r"
  shows "hunt_good st deadline verify candidates e r"
proof -
  obtain now ev where e: "e = (now, ev)" by (cases e)
  show ?thesis
  proof (cases "effective_deadline deadline (hs_quiet_until s) \<le> now \<or> ev = SleepOver")
    case True
    have "deadline \<le> now \<or> ev = SleepOver \<or> hs_best s \<noteq> None"
      using True inv by (auto simp: hunt_inv_def effective_deadline_def split: option.splits)
    moreover have "r = (hunt_finish s, s)" using True step by (auto simp: hunt_round_def e split: if_splits)
    ultimately show ?thesis by (simp only:) (intro hunt_finish_good [OF inv], auto simp: e)
  next
    case False
    then obtain k later where "ev = ItemReady k later" by (cases ev) auto
    then show ?thesis using hunt_item_ends [OF inv] step False e by simp
  qed
qed

interpretation hunt: scan_loop "hunt_round st deadline verify" "hunt_loop st deadline verify"
  "\<lambda>s. length (waiting (hs_stream s))" "\<lambda>r. deadline \<le> fst r" "hunt_inv st verify candidates"
  "hunt_good st deadline verify candidates"
  for st deadline verify candidates
proof
  show "deadline \<le> fst e \<Longrightarrow> \<exists>r. hunt_round st deadline verify e s = Inr r" for e s
    by (auto simp: hunt_round_def effective_deadline_def split: prod.splits option.splits)
qed (simp_all add: hunt_round_goes hunt_round_ends)

lemma hunt_start_inv:
  "distinct candidates \<Longrightarrow> 0 < st_concurrency st \<Longrightarrow> hunt_inv st verify candidates (hunt_start candidates)"
  by (simp add: hunt_inv_def hunt_start_def tried_def waiting_def best_of_def)

text \<open>
  C25. The search over any list of different candidates: it ends in every run with a round that starts
  after the deadline, and in every run with more rounds than candidates. When it ends, at most the
  allowed number of probes is in flight. A gateway that is returned was verified and none of the probes
  that were over was faster; no gateway is returned only when all of these failed and there is nothing
  left to probe, or the time is over.
\<close>

theorem best_gateway_found:
  assumes "distinct candidates" and "0 < st_concurrency st"
  shows "((\<exists>r \<in> set rounds. deadline \<le> fst r) \<or> length candidates < length rounds \<longrightarrow>
            hunt_loop st deadline verify (hunt_start candidates) rounds \<noteq> None) \<and>
         (\<forall>res s. hunt_loop st deadline verify (hunt_start candidates) rounds = Some (res, s) \<longrightarrow>
            length (if_flight (hs_stream s)) \<le> st_concurrency st \<and>
            (case res of
               Inr pr \<Rightarrow>
                 (\<exists>c \<in> tried candidates s. verify c = Some pr) \<and>
                 (\<forall>c \<in> tried candidates s. \<forall>q. verify c = Some q \<longrightarrow> pr_rtt pr \<le> pr_rtt q)
             | Inl e \<Rightarrow>
                 e = NoCleanEndpoint \<and> (\<forall>c \<in> tried candidates s. verify c = None) \<and>
                 (tried candidates s = set candidates \<or> (\<exists>r \<in> set rounds. deadline \<le> fst r \<or> snd r = SleepOver))))"
proof (intro conjI allI impI)
  let ?run = "hunt_loop st deadline verify (hunt_start candidates) rounds"
  note inv = hunt_start_inv [OF assms, of verify]
  show "?run \<noteq> None" if "(\<exists>r \<in> set rounds. deadline \<le> fst r) \<or> length candidates < length rounds"
    using that hunt.ends_in_time [of rounds deadline st verify "hunt_start candidates"]
      hunt.ends_after_probes [OF inv, of rounds deadline] by (auto simp: hunt_start_def waiting_def)
  fix res s assume "?run = Some (res, s)"
  then obtain r where "r \<in> set rounds" "hunt_good st deadline verify candidates r (res, s)"
    using hunt.result_good [OF inv] by blast
  then show "length (if_flight (hs_stream s)) \<le> st_concurrency st"
    and "case res of
       Inr pr \<Rightarrow>
         (\<exists>c \<in> tried candidates s. verify c = Some pr) \<and>
         (\<forall>c \<in> tried candidates s. \<forall>q. verify c = Some q \<longrightarrow> pr_rtt pr \<le> pr_rtt q)
     | Inl e \<Rightarrow>
         e = NoCleanEndpoint \<and> (\<forall>c \<in> tried candidates s. verify c = None) \<and>
         (tried candidates s = set candidates \<or> (\<exists>r \<in> set rounds. deadline \<le> fst r \<or> snd r = SleepOver))"
    by (auto simp: hunt_good_def best_of_def tried_def split: sum.splits)
qed

theorem best_gateway_found_witness:
  "let st = scan_strategy Balanced;
       verify = (\<lambda>c :: ip_addr \<times> u16. Some \<lparr>pr_ip = fst c, pr_port = snd c, pr_rtt = unat (snd c)\<rparr>)
   in 0 < st_concurrency st \<and>
      (\<exists>res s. hunt_loop st 100 verify (hunt_start [(V4 1, 500), (V4 1, 443)]) [(0, ItemReady 0 1), (1, ItemReady 0 2), (2, ItemReady 0 3)] =
         Some (res, s))"
  using best_gateway_found [of "[(V4 1, 500), (V4 1, 443)]" "scan_strategy Balanced"
      "[(0, ItemReady 0 1), (1, ItemReady 0 2), (2, ItemReady 0 3)]" 100
      "\<lambda>c. Some \<lparr>pr_ip = fst c, pr_port = snd c, pr_rtt = unat (snd c)\<rparr>"]
  by (auto simp: scan_strategy_def)

text \<open>The whole search returns only verified candidates on the ports and in the ranges asked for.\<close>

lemma gateway_is_candidate:
  assumes "draws_suffice (scan_strategy mode) draws4 draws6" and "0 < tn_scan_concurrency_cap tuning"
    and "effective_ip ip has_v6 = Some ip'"
    and "hunt_best_gateway env tuning v ports ip has_v6 mode draws4 draws6 start rounds = Some (Inr pr)"
  shows "candidate_ok ports ip' (pr_ip pr, pr_port pr)"
    and "verify_one env v (st_per_probe_timeout (scan_strategy mode)) (mode = Ironclad) (pr_ip pr, pr_port pr) = Some pr"
proof -
  let ?st = "(scan_strategy mode)\<lparr>st_concurrency := cap_concurrency tuning (st_concurrency (scan_strategy mode))\<rparr>"
  let ?v = "verify_one env v (st_per_probe_timeout (scan_strategy mode)) (mode = Ironclad)"
  have "draws_suffice ?st draws4 draws6" "st_sample_per_cidr ?st < 2 ^ 32" "0 < st_concurrency ?st"
    using assms(1,2) by (cases mode; simp add: draws_suffice_def scan_strategy_def cap_concurrency_def)+
  note st = this
  obtain hosts4 where h4: "v4_hosts env ?st draws4 = Some hosts4"
      "\<forall>a \<in> \<Union> (set ` set hosts4). \<exists>c \<in> set MASQUE_CIDRS_V4. in_cidr_v4 c a"
    by (rule v4_hosts_found [OF st(1,2), where env = env]) blast
  obtain hosts6 where h6: "v6_hosts env ?st draws6 = Some hosts6"
      "\<forall>a \<in> \<Union> (set ` set hosts6). \<exists>c \<in> set MASQUE_CIDRS_V6. in_cidr_v6 c a"
    by (rule v6_hosts_found [OF st(1), where env = env]) blast
  let ?cs = "fold push_candidate (offers ports ip' hosts4 hosts6) []"
  have b: "build_candidates env ?st ports ip' draws4 draws6 = Some ?cs"
    by (rule build_candidates_offers) (simp_all add: h4 h6)
  have d: "distinct ?cs" by (rule fold_push_distinct) simp
  obtain s where "hunt_loop ?st (start + st_overall_deadline ?st) ?v (hunt_start ?cs) rounds = Some (Inr pr, s)"
    using assms(3,4) by (auto simp: hunt_best_gateway_def Let_def b)
  then obtain r where "hunt_good ?st (start + st_overall_deadline ?st) ?v ?cs r (Inr pr, s)"
    using hunt.result_good [OF hunt_start_inv [OF d st(3)]] by blast
  then obtain c where c: "c \<in> set ?cs" "?v c = Some pr" by (auto simp: hunt_good_def best_of_def tried_def)
  then have "c = (pr_ip pr, pr_port pr)"
    by (auto simp: verify_one_def Let_def split: prod.splits sum.splits)
  then show "candidate_ok ports ip' (pr_ip pr, pr_port pr)" "?v (pr_ip pr, pr_port pr) = Some pr"
    using offers_ok [OF h4(2) h6(2)] c by (simp_all add: fold_push_set)
qed

end
