(* ===== verification/Wg_Prober_Props.thy ===== *)
theory Wg_Prober_Props
  imports Wg_Prober Prober_Search
begin

text \<open>
  What the search for WireGuard endpoints promises: candidates that are not excluded, spread over the
  ports; a search that ends; and results on different addresses, each with its fastest port.
\<close>

subsection \<open>The functions on ranges are those of the other search\<close>

lemma wg_sample_loop_eq: "wg_sample_loop base want chosen out draws = sample_loop base want chosen out draws"
  by (induction base want chosen out draws rule: sample_loop.induct) (simp_all add: Let_def)

lemma wg_sample_v6_loop_eq: "wg_sample_v6_loop n base v4 draws = sample_v6_loop n base v4 draws"
  by (induction n base v4 draws rule: sample_v6_loop.induct)
    (auto simp: wg_embedded_v4_def embedded_v4_def split: option.splits)

lemma wg_ranges_eq:
  "wg_parse_cidr_v4 = parse_cidr_v4" "wg_parse_cidr_v6 = parse_cidr_v6"
  "wg_enumerate_cidr_v4 = enumerate_cidr_v4" "wg_sample_cidr_v4 = sample_cidr_v4" "wg_sample_cidr_v6 = sample_cidr_v6"
proof -
  show p: "wg_parse_cidr_v4 = parse_cidr_v4" "wg_parse_cidr_v6 = parse_cidr_v6"
    by (rule ext, simp add: wg_parse_cidr_v4_def parse_cidr_v4_def wg_parse_cidr_v6_def parse_cidr_v6_def)+
  show "wg_enumerate_cidr_v4 = enumerate_cidr_v4"
    by (rule ext) (simp add: wg_enumerate_cidr_v4_def enumerate_cidr_v4_def p)
  have l: "wg_sample_loop = sample_loop" "wg_sample_v6_loop = sample_v6_loop"
    by (intro ext, rule wg_sample_loop_eq wg_sample_v6_loop_eq)+
  show "wg_sample_cidr_v4 = sample_cidr_v4" by (intro ext) (simp only: wg_sample_cidr_v4_def sample_cidr_v4_def p l)
  show "wg_sample_cidr_v6 = sample_cidr_v6" by (intro ext) (simp only: wg_sample_cidr_v6_def sample_cidr_v6_def p l)
qed

subsection \<open>The best result of every address\<close>

lemma first_by_ip_set: "set (first_by_ip seen prs) \<subseteq> set prs" "\<forall>p \<in> set (first_by_ip seen prs). pr_ip p \<notin> seen"
proof -
  show "set (first_by_ip seen prs) \<subseteq> set prs" by (induction prs arbitrary: seen) auto
  show "\<forall>p \<in> set (first_by_ip seen prs). pr_ip p \<notin> seen"
    by (induction prs arbitrary: seen) (simp, metis first_by_ip.simps(2) insertCI set_ConsD)
qed

lemma first_by_ip_distinct: "distinct (map pr_ip (first_by_ip seen prs))"
  using first_by_ip_set(2) by (induction prs arbitrary: seen) fastforce+

lemma first_by_ip_sorted: "sorted (map pr_rtt prs) \<Longrightarrow> sorted (map pr_rtt (first_by_ip seen prs))"
  using first_by_ip_set(1) by (induction prs arbitrary: seen) (auto, blast)

lemma first_by_ip_best:
  "sorted (map pr_rtt prs) \<Longrightarrow> q \<in> set prs \<Longrightarrow> pr_ip q \<notin> seen \<Longrightarrow>
   \<exists>p \<in> set (first_by_ip seen prs). pr_ip p = pr_ip q \<and> pr_rtt p \<le> pr_rtt q"
proof (induction prs arbitrary: seen)
  case (Cons x prs)
  show ?case
  proof (cases "pr_ip x = pr_ip q")
    case True
    then show ?thesis using Cons.prems by auto
  next
    case False
    then have "q \<in> set prs" "sorted (map pr_rtt prs)" using Cons.prems by auto
    then show ?thesis using Cons.IH [of seen] Cons.IH [of "insert (pr_ip x) seen"] Cons.prems(3) False by auto
  qed
qed simp

lemmas distinct_by_ip_facts =
  first_by_ip_set(1) [of "{}" "sort_key pr_rtt vs" for vs, folded distinct_by_ip_def, simplified]
  first_by_ip_distinct [of "{}" "sort_key pr_rtt vs" for vs, folded distinct_by_ip_def]
  first_by_ip_sorted [of "sort_key pr_rtt vs" "{}" for vs, folded distinct_by_ip_def, simplified]
  first_by_ip_best [of "sort_key pr_rtt vs" _ "{}" for vs, folded distinct_by_ip_def, simplified]

text \<open>
  What the first results promise of a set of results: different addresses, fastest first; every other
  result is slower than the one of its address, or than all of them when there are enough.
\<close>

definition best_endpoints :: "nat \<Rightarrow> probe_result set \<Rightarrow> probe_result list \<Rightarrow> bool" where
  "best_endpoints want results picked \<longleftrightarrow>
     distinct (map pr_ip picked) \<and> sorted (map pr_rtt picked) \<and> length picked \<le> want \<and> set picked \<subseteq> results \<and>
     (\<forall>q \<in> results.
        (\<exists>p \<in> set picked. pr_ip p = pr_ip q \<and> pr_rtt p \<le> pr_rtt q) \<or>
        (length picked = want \<and> (\<forall>p \<in> set picked. pr_rtt p \<le> pr_rtt q)))"

lemma take_best_endpoints: "best_endpoints want (set vs) (take want (distinct_by_ip vs))"
proof -
  let ?d = "distinct_by_ip vs"
  have "(\<exists>p \<in> set (take want ?d). pr_ip p = pr_ip q \<and> pr_rtt p \<le> pr_rtt q) \<or>
      (length (take want ?d) = want \<and> (\<forall>p \<in> set (take want ?d). pr_rtt p \<le> pr_rtt q))" if q: "q \<in> set vs" for q
  proof -
    obtain p where p: "p \<in> set ?d" "pr_ip p = pr_ip q" "pr_rtt p \<le> pr_rtt q"
      using distinct_by_ip_facts(4) [OF q] by blast
    show ?thesis
    proof (cases "p \<in> set (take want ?d)")
      case False
      then have late: "p \<in> set (drop want ?d)" using p(1) by (metis Un_iff append_take_drop_id set_append)
      then have "want \<le> length ?d" by (cases "want \<le> length ?d") auto
      moreover have "sorted (map pr_rtt (take want ?d) @ map pr_rtt (drop want ?d))"
        using distinct_by_ip_facts(3) [of vs] by (simp add: map_append [symmetric] del: map_append)
      then have "pr_rtt x \<le> pr_rtt p" if "x \<in> set (take want ?d)" for x
        using that late by (simp add: sorted_append)
      ultimately show ?thesis using p(3) by (auto intro: order_trans)
    qed (use p in blast)
  qed
  then show ?thesis
    using distinct_by_ip_facts(1) [of vs] distinct_by_ip_facts(2) [of vs] distinct_by_ip_facts(3) [of vs]
    by (auto simp: best_endpoints_def take_map [symmetric] sorted_wrt_take distinct_take dest: in_set_takeD)
qed

lemma distinct_by_ip_Nil: "distinct_by_ip vs = [] \<longleftrightarrow> vs = []"
proof
  show "distinct_by_ip vs = [] \<Longrightarrow> vs = []" using distinct_by_ip_facts(4) [of "hd vs" vs] by (cases vs) auto
qed (simp add: distinct_by_ip_def)

subsection \<open>The loop\<close>

definition wg_tried :: "(ip_addr \<times> u16) list \<Rightarrow> wg_hunt_state \<Rightarrow> (ip_addr \<times> u16) set" where
  "wg_tried candidates s = set candidates - set (waiting (wh_stream s))"

definition results_of :: "('c \<Rightarrow> probe_result option) \<Rightarrow> 'c set \<Rightarrow> probe_result set" where
  "results_of verify cs = {q. \<exists>c \<in> cs. verify c = Some q}"

lemma results_of_insert:
  "results_of verify (insert c cs) = (case verify c of None \<Rightarrow> {} | Some q \<Rightarrow> {q}) \<union> results_of verify cs"
  by (auto simp: results_of_def split: option.splits)

definition wg_hunt_inv ::
    "wg_strategy \<Rightarrow> nat \<Rightarrow> (ip_addr \<times> u16 \<Rightarrow> probe_result option) \<Rightarrow> (ip_addr \<times> u16) list \<Rightarrow> wg_hunt_state \<Rightarrow> bool" where
  "wg_hunt_inv st want verify candidates s \<longleftrightarrow>
     0 < st_concurrency st \<and> 0 < want \<and> (st_early_exit_first st \<longrightarrow> want = 1 \<and> wh_verified s = []) \<and>
     distinct (waiting (wh_stream s)) \<and> set (waiting (wh_stream s)) \<subseteq> set candidates \<and>
     length (if_flight (wh_stream s)) \<le> st_concurrency st \<and>
     set (wh_verified s) = results_of verify (wg_tried candidates s) \<and>
     (wh_verified s = [] \<longrightarrow> wh_quiet_until s = None)"

definition wg_hunt_good ::
    "wg_strategy \<Rightarrow> nat \<Rightarrow> nat \<Rightarrow> (ip_addr \<times> u16 \<Rightarrow> probe_result option) \<Rightarrow> (ip_addr \<times> u16) list \<Rightarrow> scan_round \<Rightarrow>
       probe_result list result \<times> wg_hunt_state \<Rightarrow> bool" where
  "wg_hunt_good st want deadline verify candidates r out =
     (case out of (res, s) \<Rightarrow>
        length (if_flight (wh_stream s)) \<le> st_concurrency st \<and>
        (case res of
           Inr picked \<Rightarrow> picked \<noteq> [] \<and> best_endpoints want (results_of verify (wg_tried candidates s)) picked
         | Inl e \<Rightarrow>
             e = NoCleanEndpoint \<and> results_of verify (wg_tried candidates s) = {} \<and>
             (waiting (wh_stream s) = [] \<or> deadline \<le> fst r \<or> snd r = SleepOver)))"

lemma wg_finish_good:
  assumes "0 < want" and "length (if_flight (wh_stream s)) \<le> st_concurrency st"
    and "set (wh_verified s) = results_of verify (wg_tried candidates s)"
    and "deadline \<le> fst r \<or> snd r = SleepOver \<or> waiting (wh_stream s) = [] \<or> wh_verified s \<noteq> []"
  shows "wg_hunt_good st want deadline verify candidates r (wg_finish want s, s)"
  using assms take_best_endpoints [of want "wh_verified s"]
  by (auto simp: wg_hunt_good_def wg_finish_def Let_def distinct_by_ip_Nil)

lemma wg_tried_next:
  assumes "next_probe (st_concurrency st) k (wh_stream s) = (Some c, b)" and "wg_hunt_inv st want verify candidates s"
  shows "wg_tried candidates (s\<lparr>wh_stream := b\<rparr>) = insert c (wg_tried candidates s)"
    and "distinct (waiting b)" and "set (waiting b) \<subseteq> set candidates" and "length (if_flight b) \<le> st_concurrency st"
    and "length (waiting b) < length (waiting (wh_stream s))"
proof -
  have d: "distinct (waiting (wh_stream s))" and sub: "set (waiting (wh_stream s)) \<subseteq> set candidates"
    and len: "length (if_flight (wh_stream s)) \<le> st_concurrency st" using assms(2) by (simp_all add: wg_hunt_inv_def)
  note n = next_probe_Some [OF assms(1) d]
  show "wg_tried candidates (s\<lparr>wh_stream := b\<rparr>) = insert c (wg_tried candidates s)" "distinct (waiting b)"
      "set (waiting b) \<subseteq> set candidates" "length (waiting b) < length (waiting (wh_stream s))"
    using n sub by (auto simp: wg_tried_def)
  show "length (if_flight b) \<le> st_concurrency st" using flight_bound [OF len, of k] assms(1) by simp
qed

lemma wg_tried_simps [simp]:
  "wg_tried candidates (s\<lparr>wh_verified := x\<rparr>) = wg_tried candidates s" "wg_tried candidates (s\<lparr>wh_found := n\<rparr>) = wg_tried candidates s"
  "wg_tried candidates (s\<lparr>wh_quiet_until := q\<rparr>) = wg_tried candidates s"
  by (simp_all add: wg_tried_def)

lemma wg_hit_cases:
  assumes "next_probe (st_concurrency st) k (wh_stream s) = (Some c, b)" and "wg_hunt_inv st want verify candidates s"
    and "verify c = Some pr"
  shows "case wg_hit st want later pr (s\<lparr>wh_stream := b\<rparr>) of
      Inl s' \<Rightarrow> wg_hunt_inv st want verify candidates s' \<and> wh_stream s' = b
    | Inr out \<Rightarrow> wg_hunt_good st want deadline verify candidates r out"
proof -
  note t = wg_tried_next [OF assms(1,2)]
  have inv: "0 < st_concurrency st" "0 < want" "set (wh_verified s) = results_of verify (wg_tried candidates s)"
    using assms(2) by (simp_all add: wg_hunt_inv_def)
  show ?thesis
  proof (cases "st_early_exit_first st")
    case True
    then have "want = 1" "results_of verify (wg_tried candidates s) = {}"
      using assms(2) by (auto simp: wg_hunt_inv_def)
    then show ?thesis
      using True t by (simp add: wg_hit_def wg_hunt_good_def results_of_insert assms(3) best_endpoints_def)
  next
    case False
    let ?s = "s\<lparr>wh_stream := b, wh_verified := wh_verified s @ [pr], wh_found := wh_found s + 1\<rparr>"
    have v: "set (wh_verified ?s) = results_of verify (wg_tried candidates ?s)"
      using t(1) inv(3) by (simp add: results_of_insert assms(3))
    have "wg_hunt_good st want deadline verify candidates r (wg_finish want ?s, ?s)"
      by (rule wg_finish_good [OF inv(2) _ v]) (simp_all add: t)
    moreover have "wg_hunt_inv st want verify candidates ?s"
        "wg_hunt_inv st want verify candidates (?s\<lparr>wh_quiet_until := Some q\<rparr>)" for q
      using v t inv False by (simp_all add: wg_hunt_inv_def)
    ultimately show ?thesis using False by (simp add: wg_hit_def Let_def)
  qed
qed

lemma wg_hunt_round_goes:
  assumes inv: "wg_hunt_inv st want verify candidates s" and step: "wg_hunt_round st want deadline verify e s = Inl s'"
  shows "wg_hunt_inv st want verify candidates s'" and "length (waiting (wh_stream s')) < length (waiting (wh_stream s))"
proof -
  obtain now k later where e: "e = (now, ItemReady k later)"
    using step by (auto simp: wg_hunt_round_def split: prod.splits if_splits scan_event.splits)
  obtain c b where n: "next_probe (st_concurrency st) k (wh_stream s) = (Some c, b)"
    using step by (auto simp: wg_hunt_round_def e split: prod.splits if_splits option.splits)
  note t = wg_tried_next [OF n inv]
  have "wg_hunt_inv st want verify candidates s' \<and> wh_stream s' = b"
  proof (cases "verify c")
    case None
    then have "s' = s\<lparr>wh_stream := b\<rparr>" using step by (simp add: wg_hunt_round_def e n split: if_splits)
    then show ?thesis using inv t None by (simp add: wg_hunt_inv_def results_of_insert)
  next
    case (Some pr)
    then have "wg_hit st want later pr (s\<lparr>wh_stream := b\<rparr>) = Inl s'"
      using step by (simp add: wg_hunt_round_def e n split: if_splits)
    then show ?thesis using wg_hit_cases [OF n inv Some, where later = later] by simp
  qed
  then show "wg_hunt_inv st want verify candidates s'" "length (waiting (wh_stream s')) < length (waiting (wh_stream s))"
    using t(5) by simp_all
qed

lemma wg_item_ends:
  assumes inv: "wg_hunt_inv st want verify candidates s"
    and step: "wg_hunt_round st want deadline verify (now, ItemReady k later) s = Inr r"
    and time: "\<not> effective_deadline deadline (wh_quiet_until s) \<le> now"
  shows "wg_hunt_good st want deadline verify candidates e r"
proof -
  obtain c b where n: "next_probe (st_concurrency st) k (wh_stream s) = (c, b)" by fastforce
  show ?thesis
  proof (cases c)
    case None
    have w: "waiting (wh_stream s) = []" "waiting b = []"
      using next_probe_None [OF n [unfolded None]] inv by (simp_all add: wg_hunt_inv_def)
    let ?s = "s\<lparr>wh_stream := b\<rparr>"
    have "set (wh_verified ?s) = results_of verify (wg_tried candidates ?s)" "if_flight b = []" "0 < want"
      using inv w by (auto simp: wg_hunt_inv_def wg_tried_def waiting_def)
    then have "wg_hunt_good st want deadline verify candidates e (wg_finish want ?s, ?s)"
      by (intro wg_finish_good) (simp_all add: w)
    moreover have "r = (wg_finish want s, ?s)" using step time n None by (simp add: wg_hunt_round_def)
    moreover have "wg_finish want ?s = wg_finish want s" by (simp add: wg_finish_def)
    ultimately show ?thesis by simp
  next
    case (Some c')
    then obtain pr where v: "verify c' = Some pr" "wg_hit st want later pr (s\<lparr>wh_stream := b\<rparr>) = Inr r"
      using step time n by (auto simp: wg_hunt_round_def split: option.splits)
    then show ?thesis
      using wg_hit_cases [OF n [unfolded Some] inv v(1), where later = later and deadline = deadline and r = e] by simp
  qed
qed

lemma wg_hunt_round_ends:
  assumes inv: "wg_hunt_inv st want verify candidates s" and step: "wg_hunt_round st want deadline verify e s = Inr r"
  shows "wg_hunt_good st want deadline verify candidates e r"
proof -
  obtain now ev where e: "e = (now, ev)" by (cases e)
  show ?thesis
  proof (cases "effective_deadline deadline (wh_quiet_until s) \<le> now \<or> ev = SleepOver")
    case True
    have "deadline \<le> now \<or> ev = SleepOver \<or> wh_verified s \<noteq> []"
      using True inv by (auto simp: wg_hunt_inv_def effective_deadline_def split: option.splits)
    moreover have "r = (wg_finish want s, s)" using True step by (auto simp: wg_hunt_round_def e split: if_splits)
    ultimately show ?thesis using inv
      by (simp only:) (intro wg_finish_good, auto simp: e wg_hunt_inv_def)
  next
    case False
    then obtain k later where "ev = ItemReady k later" by (cases ev) auto
    then show ?thesis using wg_item_ends [OF inv] step False e by simp
  qed
qed

interpretation wg_hunt: scan_loop "wg_hunt_round st want deadline verify" "wg_hunt_loop st want deadline verify"
  "\<lambda>s. length (waiting (wh_stream s))" "\<lambda>r. deadline \<le> fst r" "wg_hunt_inv st want verify candidates"
  "wg_hunt_good st want deadline verify candidates"
  for st want deadline verify candidates
proof
  show "deadline \<le> fst e \<Longrightarrow> \<exists>r. wg_hunt_round st want deadline verify e s = Inr r" for e s
    by (auto simp: wg_hunt_round_def effective_deadline_def split: prod.splits option.splits)
qed (simp_all add: wg_hunt_round_goes wg_hunt_round_ends)

lemma wg_start_inv:
  assumes "distinct candidates" and "0 < tn_scan_concurrency_cap tuning" and "0 < want"
  shows "wg_hunt_inv (wg_strategy_for tuning mode want) want verify candidates (wg_hunt_start candidates)"
  using assms by (cases mode) (simp_all add: wg_hunt_inv_def wg_hunt_start_def wg_tried_def waiting_def results_of_def
      wg_strategy_for_def wg_scan_strategy_def cap_concurrency_def Let_def)

text \<open>
  C26. The search for \<open>want\<close> WireGuard endpoints over any list of different candidates: it ends in every
  run with a round that starts after the deadline or with more rounds than candidates. The endpoints it
  returns were verified, are on different addresses, fastest first and at most \<open>want\<close>; every other result
  of the probes that were over is on the address of one of them and not faster, or not faster than any
  of \<open>want\<close> of them. No endpoint is returned only when all these probes failed and there is nothing left
  to probe, or the time is over.
\<close>

theorem wg_endpoints_best:
  assumes "distinct candidates" and "0 < tn_scan_concurrency_cap tuning" and "0 < want"
  shows "((\<exists>r \<in> set rounds. deadline \<le> fst r) \<or> length candidates < length rounds \<longrightarrow>
            wg_hunt_loop (wg_strategy_for tuning mode want) want deadline verify (wg_hunt_start candidates) rounds \<noteq> None) \<and>
         (\<forall>res s. wg_hunt_loop (wg_strategy_for tuning mode want) want deadline verify (wg_hunt_start candidates) rounds =
            Some (res, s) \<longrightarrow>
            (case res of
               Inr picked \<Rightarrow> picked \<noteq> [] \<and> best_endpoints want (results_of verify (wg_tried candidates s)) picked
             | Inl e \<Rightarrow>
                 e = NoCleanEndpoint \<and> results_of verify (wg_tried candidates s) = {} \<and>
                 (wg_tried candidates s = set candidates \<or> (\<exists>r \<in> set rounds. deadline \<le> fst r \<or> snd r = SleepOver))))"
proof (intro conjI allI impI)
  let ?st = "wg_strategy_for tuning mode want"
  let ?run = "wg_hunt_loop ?st want deadline verify (wg_hunt_start candidates) rounds"
  note inv = wg_start_inv [OF assms, of mode verify]
  show "?run \<noteq> None" if "(\<exists>r \<in> set rounds. deadline \<le> fst r) \<or> length candidates < length rounds"
    using that wg_hunt.ends_in_time [of rounds deadline ?st want verify "wg_hunt_start candidates"]
      wg_hunt.ends_after_probes [OF inv, of rounds deadline] by (auto simp: wg_hunt_start_def waiting_def)
  fix res s assume "?run = Some (res, s)"
  then obtain r where "r \<in> set rounds" "wg_hunt_good ?st want deadline verify candidates r (res, s)"
    using wg_hunt.result_good [OF inv] by blast
  then show "case res of
       Inr picked \<Rightarrow> picked \<noteq> [] \<and> best_endpoints want (results_of verify (wg_tried candidates s)) picked
     | Inl e \<Rightarrow>
         e = NoCleanEndpoint \<and> results_of verify (wg_tried candidates s) = {} \<and>
         (wg_tried candidates s = set candidates \<or> (\<exists>r \<in> set rounds. deadline \<le> fst r \<or> snd r = SleepOver))"
    by (auto simp: wg_hunt_good_def wg_tried_def split: sum.splits)
qed

definition small_tuning :: sys_tuning where
  "small_tuning = build_tuning (\<lambda>s. s) (\<lambda>_. None) 2 (Some 1024)"

theorem wg_endpoints_best_witness:
  "0 < tn_scan_concurrency_cap small_tuning \<and>
   wg_hunt_loop (wg_strategy_for small_tuning WgBalanced 2) 2 100 (\<lambda>c. Some \<lparr>pr_ip = fst c, pr_port = snd c, pr_rtt = unat (snd c)\<rparr>)
     (wg_hunt_start [(V4 1, 500), (V4 1, 443)]) [(0, ItemReady 0 1), (1, ItemReady 0 2), (2, ItemReady 0 3)] \<noteq> None"
proof -
  have t: "0 < tn_scan_concurrency_cap small_tuning"
    by (cases "detect_tier (\<lambda>s. s) (\<lambda>_. None) 2 (Some 1024)")
      (simp_all add: small_tuning_def build_tuning_def Let_def usize_max_def)
  show ?thesis
    using wg_endpoints_best [of "[(V4 1, 500), (V4 1, 443)]" small_tuning 2
        "[(0, ItemReady 0 1), (1, ItemReady 0 2), (2, ItemReady 0 3)]" 100 WgBalanced
        "\<lambda>c. Some \<lparr>pr_ip = fst c, pr_port = snd c, pr_rtt = unat (snd c)\<rparr>"] t by simp
qed

subsection \<open>Candidates\<close>

lemma wg_push_facts:
  "set (fold (wg_push excluded) cs out) =
     set out \<union> {(ip, port). (ip, port) \<in> set cs \<and> \<lparr>sa_ip = ip, sa_port = port\<rparr> \<notin> excluded}"
  "distinct out \<Longrightarrow> distinct (fold (wg_push excluded) cs out)"
  by (induction cs arbitrary: out) (auto simp: wg_push_def split: if_splits)

lemma wg_ports_facts: "distinct (wg_ports_of ports)" "wg_ports_of ports \<noteq> []" "set (wg_ports_of ports) \<subseteq> insert 2408 (set ports)"
  by (auto simp: wg_ports_of_def push_missing_eq Let_def)

text \<open>In a later wave an address has another port, as long as there are ports.\<close>

lemma wave_ports_differ:
  assumes "distinct ports" and "w < length ports" and "v < length ports"
    and "ports ! ((i + w) mod length ports) = ports ! ((i + v) mod length ports)"
  shows "w = v"
proof -
  have shift: "y = x" if m: "(i + x) mod n = (i + y) mod n" and le: "x \<le> y" "y < n" for x y n :: nat
  proof -
    obtain q where "i + y = i + x + n * q" using mod_eq_nat1E [OF m [symmetric]] le(1) by auto
    then show ?thesis using le(2) by (cases q) auto
  qed
  have lt: "(i + w) mod length ports < length ports" "(i + v) mod length ports < length ports"
    using assms(2) by (auto intro!: mod_less_divisor)
  have eq: "(i + w) mod length ports = (i + v) mod length ports"
    using assms(4) nth_eq_iff_index_eq [OF assms(1) lt] by simp
  show ?thesis
  proof (cases "w \<le> v")
    case True
    then show ?thesis using shift [OF eq True assms(3)] by simp
  next
    case False
    then show ?thesis using shift [OF eq [symmetric] _ assms(2)] by simp
  qed
qed

text \<open>
  No candidate is listed twice or is excluded, all are on the ports that were asked for, and every
  address of the scan is tried in every wave unless that pair is excluded.
\<close>

lemma wg_candidates_spread:
  assumes "wg_v4_hosts env st draws4 = Some hosts4" and "wg_v6_hosts env st draws6 = Some hosts6"
    and "ips = wg_scan_ips env ip (if want_v4 ip then hosts4 else []) (if want_v6 ip then hosts6 else [])"
  obtains cs where "build_wg_candidates env st ports ip excluded draws4 draws6 = Some cs" and "distinct cs"
    and "\<forall>(a, p) \<in> set cs. a \<in> set ips \<and> p \<in> set (wg_ports_of ports) \<and> \<lparr>sa_ip = a, sa_port = p\<rparr> \<notin> excluded"
    and "\<forall>i < length ips. \<forall>w < max (st_pool_port_waves st) 1.
      let p = wg_ports_of ports ! ((i + w) mod length (wg_ports_of ports))
      in \<lparr>sa_ip = ips ! i, sa_port = p\<rparr> \<in> excluded \<or> (ips ! i, p) \<in> set cs"
proof -
  define waves where "waves = max (st_pool_port_waves st) 1"
  define offers where "offers = concat (map (wg_wave (wg_ports_of ports) ips) [0..<waves])"
  let ?cs = "fold (wg_push excluded) offers []"
  have b: "build_wg_candidates env st ports ip excluded draws4 draws6 = Some ?cs"
    using assms by (simp add: build_wg_candidates_def Let_def offers_def waves_def)
  have o: "(a, p) \<in> set offers \<longleftrightarrow>
      (\<exists>w < waves. \<exists>i < length ips. a = ips ! i \<and> p = wg_ports_of ports ! ((i + w) mod length (wg_ports_of ports)))" for a p
    by (force simp: offers_def wg_wave_def in_set_enumerate_eq)
  have "wg_ports_of ports ! (k mod length (wg_ports_of ports)) \<in> set (wg_ports_of ports)" for k
    using wg_ports_facts(2) [of ports] by (intro nth_mem) simp
  then show thesis
    by (intro that [OF b]) (auto simp: wg_push_facts o Let_def waves_def)
qed

end
