(* ===== verification/Exitloc.thy ===== *)
theory Exitloc
  imports Socks_Dns
begin

text \<open>
  \<^verbatim>\<open>exitloc.rs\<close>: the policy for the country of the exit, the trace answer it is read from, the request
  through the tunnel, the check before a tunnel is used and the watch while it is. The dialogue takes
  what the stack answers as an argument; times are nanoseconds.
\<close>

definition TRACE_HOST :: string where "TRACE_HOST = ''www.cloudflare.com''"
definition TRACE_PATH :: string where "TRACE_PATH = ''/cdn-cgi/trace''"
definition TRACE_PORT :: u16 where "TRACE_PORT = 80"
definition DEFAULT_INTERVAL_SECS :: nat where "DEFAULT_INTERVAL_SECS = 60"

subsection \<open>The policy\<close>

record exit_policy =
  xp_allow :: "string list"
  xp_deny :: "string list"
  xp_interval :: nat

definition to_ascii_uppercase :: "string \<Rightarrow> string" where
  "to_ascii_uppercase s = map (\<lambda>c. if ascii_lower c then char_of ((of_char c :: nat) - 32) else c) s"

definition interval_from_env :: "env \<Rightarrow> nat" where
  "interval_from_env env =
     1000000000 *
     (case env ''AETHER_EXIT_LOC_SECS'' of
        None \<Rightarrow> DEFAULT_INTERVAL_SECS
      | Some v \<Rightarrow>
          (case parse_uint (2 ^ 64 - 1) v of
             None \<Rightarrow> DEFAULT_INTERVAL_SECS
           | Some n \<Rightarrow> if 0 < n then min n 86400 else DEFAULT_INTERVAL_SECS))"

definition country_code :: "string \<Rightarrow> bool" where
  "country_code c \<longleftrightarrow> length c = 2 \<and> list_all (\<lambda>ch. ascii_upper ch \<or> ascii_lower ch) c"

text \<open>The codes of a specification: what remains of it after the signs, split at the commas.\<close>

definition policy_codes :: "string \<Rightarrow> string list" where
  "policy_codes spec =
     (let body = trim_start_matches (CHR ''!'') (trim_start_matches (CHR ''='') (trim_start_matches (CHR ''!'') spec))
      in filter country_code (map (\<lambda>c. to_ascii_uppercase (trim c)) (split_chars (\<lambda>c. c = CHR '','') body)))"

definition policy_parse :: "env \<Rightarrow> string \<Rightarrow> exit_policy option" where
  "policy_parse env raw =
     (let spec = trim raw
      in if spec = [] \<or> eq_ignore_ascii_case spec ''any'' \<or> eq_ignore_ascii_case spec ''off'' then None
         else let negated = starts_with spec ''!''; codes = policy_codes spec
              in if codes = [] then None
                 else let (allow, deny) = (if negated then ([], codes) else (codes, []))
                      in Some \<lparr>xp_allow = allow, xp_deny = deny, xp_interval = interval_from_env env\<rparr>)"

definition policy_from_env :: "env \<Rightarrow> exit_policy option" where
  "policy_from_env env =
     policy_parse env (case env ''AETHER_EXIT_LOC'' of None \<Rightarrow> [] | Some v \<Rightarrow> v)"

definition accepts :: "exit_policy \<Rightarrow> string \<Rightarrow> bool" where
  "accepts p loc =
     (let code = to_ascii_uppercase (trim loc)
      in if List.member (xp_deny p) code then False
         else xp_allow p = [] \<or> List.member (xp_allow p) code)"

definition policy_describe :: "exit_policy \<Rightarrow> string" where
  "policy_describe p =
     (if xp_deny p = [] then ''exit must be in '' @ join '', '' (xp_allow p)
      else ''exit must not be in '' @ join '', '' (xp_deny p))"

subsection \<open>The trace answer\<close>

fun find_map :: "('a \<Rightarrow> 'b option) \<Rightarrow> 'a list \<Rightarrow> 'b option" where
  "find_map f [] = None"
| "find_map f (x # xs) = (case f x of Some y \<Rightarrow> Some y | None \<Rightarrow> find_map f xs)"

definition trace_field :: "string \<Rightarrow> string \<Rightarrow> string option" where
  "trace_field body name =
     (case find_map (\<lambda>line. strip_prefix line (name @ ''='')) (str_lines body) of
        None \<Rightarrow> None
      | Some value \<Rightarrow> if trim value = [] then None else Some (trim value))"

definition parse_trace :: "string \<Rightarrow> string option" where
  "parse_trace body =
     (case trace_field body ''loc'' of
        None \<Rightarrow> None
      | Some code \<Rightarrow> if length (to_ascii_uppercase code) = 2 then Some (to_ascii_uppercase code) else None)"

record exit_info =
  xi_address :: "string option"
  xi_country :: "string option"
  xi_colo :: "string option"
  xi_warp :: bool
  xi_rtt :: nat

definition exit_describe :: "exit_info \<Rightarrow> string" where
  "exit_describe x =
     join '', ''
       ((case xi_address x of Some a \<Rightarrow> [a] | None \<Rightarrow> []) @
        (case (xi_country x, xi_colo x) of
           (Some country, Some colo) \<Rightarrow> [country @ '' via '' @ colo]
         | (Some country, None) \<Rightarrow> [country]
         | (None, Some colo) \<Rightarrow> [colo]
         | (None, None) \<Rightarrow> []) @
        [nat_dec (xi_rtt x div 1000000) @ ''ms to cloudflare''] @
        (if xi_warp x then [''warp on''] else []))"

definition parse_exit :: "string \<Rightarrow> nat \<Rightarrow> exit_info" where
  "parse_exit body rtt =
     \<lparr>xi_address = trace_field body ''ip'', xi_country = parse_trace body, xi_colo = trace_field body ''colo'',
      xi_warp = (trace_field body ''warp'' = Some ''on''), xi_rtt = rtt\<rparr>"

subsection \<open>The request through the tunnel\<close>

text \<open>
  What the stack answers: the rounds of the name lookup, the connection (None while it is not decided),
  the write of the request, what each \<^verbatim>\<open>recv\<close> gives (None for the end of the stream) and whether the
  timeout of ten seconds comes before the dialogue is over; the time it takes.
\<close>

record trace_io =
  ti_dns :: "dns_round list"
  ti_open :: "unit result option"
  ti_send :: "unit result option"
  ti_recv :: "bytes option list"
  ti_late :: bool
  ti_elapsed :: nat

definition trace_request :: string where
  "trace_request = ''GET '' @ TRACE_PATH @ '' HTTP/1.1'' @ [CHR 0x0D, CHR 0x0A] @ ''Host: '' @ TRACE_HOST @
     [CHR 0x0D, CHR 0x0A] @ ''Connection: close'' @ [CHR 0x0D, CHR 0x0A] @ ''User-Agent: aether'' @
     [CHR 0x0D, CHR 0x0A, CHR 0x0D, CHR 0x0A]"

fun trace_body :: "bytes \<Rightarrow> bytes option list \<Rightarrow> bytes option" where
  "trace_body buf [] = None"
| "trace_body buf (None # rs) = Some buf"
| "trace_body buf (Some chunk # rs) =
     (let buf' = buf @ chunk
      in if 8192 < length buf' \<or> parse_trace (from_utf8_lossy buf') \<noteq> None then Some buf'
         else trace_body buf' rs)"

text \<open>The dialogue gives what it sent with its result; None while it waits.\<close>

definition trace_attempt :: "trace_io \<Rightarrow> (bytes list \<times> string result) run option" where
  "trace_attempt io =
     (case dns_resolve TRACE_HOST (ti_dns io) of
        None \<Rightarrow> None
      | Some Panics \<Rightarrow> Some Panics
      | Some (Returns (Inl e)) \<Rightarrow> Some (Returns ([], Inl e))
      | Some (Returns (Inr ip)) \<Rightarrow>
          (case ti_open io of
             None \<Rightarrow> None
           | Some (Inl e) \<Rightarrow> Some (Returns ([], Inl e))
           | Some (Inr _) \<Rightarrow>
               (case ti_send io of
                  None \<Rightarrow> None
                | Some (Inl e) \<Rightarrow> Some (Returns ([], Inl e))
                | Some (Inr _) \<Rightarrow>
                    map_option (\<lambda>buf. Returns ([as_bytes trace_request], Inr (from_utf8_lossy buf)))
                      (trace_body [] (ti_recv io)))))"

definition lookup_timeout_error :: aether_error where
  "lookup_timeout_error = Other ''looking up the exit location timed out''"

definition read_trace :: "trace_io \<Rightarrow> string result run" where
  "read_trace io =
     (if ti_late io then Returns (Inl lookup_timeout_error)
      else case trace_attempt io of
        None \<Rightarrow> Returns (Inl lookup_timeout_error)
      | Some Panics \<Rightarrow> Panics
      | Some (Returns (_, r)) \<Rightarrow> Returns r)"

definition trace_through :: "trace_io \<Rightarrow> (string \<times> nat) result run" where
  "trace_through io =
     run_bind (read_trace io) (\<lambda>r. Returns (case r of Inl e \<Rightarrow> Inl e | Inr body \<Rightarrow> Inr (body, ti_elapsed io)))"

definition exit_report :: "trace_io \<Rightarrow> exit_info option run" where
  "exit_report io =
     run_bind (trace_through io) (\<lambda>r. Returns
       (case r of Inr (body, rtt) \<Rightarrow> Some (parse_exit body rtt) | Inl e \<Rightarrow> None))"

definition exit_lookup :: "trace_io \<Rightarrow> string result run" where
  "exit_lookup io =
     run_bind (read_trace io) (\<lambda>r. Returns
       (case r of
          Inl e \<Rightarrow> Inl e
        | Inr body \<Rightarrow>
            (case parse_trace body of
               Some loc \<Rightarrow> Inr loc
             | None \<Rightarrow> Inl (Other ''the trace answer carried no location''))))"

definition unreadable_exit :: aether_error where
  "unreadable_exit = Other ''the exit location could not be read, so the policy cannot be honoured''"

definition rejected_exit :: "string \<Rightarrow> aether_error" where
  "rejected_exit loc = Other (''exit location '' @ loc @ '' does not satisfy the requested policy'')"

text \<open>Without a policy the report runs in a task of its own and its outcome is not waited for.\<close>

definition settle :: "trace_io \<Rightarrow> exit_policy option \<Rightarrow> unit result run" where
  "settle io policy =
     (case policy of
        None \<Rightarrow> Returns (Inr ())
      | Some p \<Rightarrow>
          run_bind (exit_report io) (\<lambda>r. Returns
            (case r of
               None \<Rightarrow> Inl unreadable_exit
             | Some x \<Rightarrow>
                 let loc = (case xi_country x of Some c \<Rightarrow> c | None \<Rightarrow> [])
                 in if accepts p loc then Inr () else Inl (rejected_exit loc))))"

definition watch_round :: "exit_policy \<Rightarrow> string result \<Rightarrow> aether_error option" where
  "watch_round p answer =
     (case answer of
        Inr loc \<Rightarrow> if accepts p loc then None else Some (Other (''exit location changed to '' @ loc))
      | Inl e \<Rightarrow> None)"

text \<open>One round per interval; None while the watch goes on. The time is the sum of the sleeps.\<close>

fun watch :: "exit_policy \<Rightarrow> nat \<Rightarrow> string result list \<Rightarrow> (nat \<times> aether_error) option" where
  "watch p t [] = None"
| "watch p t (a # as) =
     (case watch_round p a of
        Some e \<Rightarrow> Some (t + xp_interval p, e)
      | None \<Rightarrow> watch p (t + xp_interval p) as)"


subsection \<open>What the policy decides\<close>

lemma policy_codes_length: "c \<in> set (policy_codes spec) \<Longrightarrow> length c = 2"
  by (auto simp: policy_codes_def country_code_def Let_def)

text \<open>A parsed policy accepts what its sign and its codes say.\<close>

lemma accepts_parsed:
  assumes "policy_parse env raw = Some p"
  shows "accepts p loc \<longleftrightarrow>
    (to_ascii_uppercase (trim loc) \<in> set (policy_codes (trim raw))) \<noteq> starts_with (trim raw) ''!''"
  using assms by (auto simp: policy_parse_def accepts_def Let_def split: if_splits)

lemma accepts_nothing:
  assumes "policy_parse env raw = Some p"
  shows "accepts p [] \<longleftrightarrow> starts_with (trim raw) ''!''"
  using policy_codes_length [of "[]"] by (auto simp: accepts_parsed [OF assms] to_ascii_uppercase_def)

lemma accepts_trace:
  assumes "policy_parse env raw = Some p"
  shows "accepts p (case answer of Some loc \<Rightarrow> loc | None \<Rightarrow> []) \<longleftrightarrow>
    (case answer of
       Some loc \<Rightarrow> (to_ascii_uppercase (trim loc) \<in> set (policy_codes (trim raw))) \<noteq> starts_with (trim raw) ''!''
     | None \<Rightarrow> starts_with (trim raw) ''!'')"
proof (cases answer)
  case None
  then show ?thesis using accepts_nothing [OF assms] by simp
next
  case (Some loc)
  then show ?thesis using accepts_parsed [OF assms, of loc] by simp
qed

lemma parsed_interval:
  assumes "policy_parse env raw = Some p"
  shows "1000000000 \<le> xp_interval p \<and> xp_interval p \<le> 86400 * 1000000000"
  using assms by (auto simp: policy_parse_def interval_from_env_def DEFAULT_INTERVAL_SECS_def Let_def
      split: if_splits option.splits)

lemma settle_policy:
  "settle io (Some p) = Returns (Inr ()) \<longleftrightarrow>
     (\<exists>body. read_trace io = Returns (Inr body) \<and>
        accepts p (case parse_trace body of Some loc \<Rightarrow> loc | None \<Rightarrow> []))"
  by (cases "read_trace io") (auto simp: settle_def exit_report_def trace_through_def parse_exit_def Let_def
      split: sum.splits option.splits)

lemma watch_ends:
  "(\<exists>r. watch p t answers = Some r) \<longleftrightarrow> (\<exists>loc. Inr loc \<in> set answers \<and> \<not> accepts p loc)"
  by (induction p t answers rule: watch.induct) (auto simp: watch_round_def split: sum.splits if_splits)

text \<open>
  C28. A tunnel passes the check of its exit exactly when the trace answer could be read and the country
  in it is one of the codes (for a list that starts with an exclamation mark: none of them); an answer
  without a country passes exactly for such a list. The watch ends exactly when some answer has a country
  that the policy rejects, and it asks at least once a day and at most once a second.
\<close>

theorem exit_policy_decides:
  assumes "policy_parse env raw = Some p"
  shows "(settle io (Some p) = Returns (Inr ()) \<longleftrightarrow>
           (\<exists>body. read_trace io = Returns (Inr body) \<and>
              (case parse_trace body of
                 Some loc \<Rightarrow> (to_ascii_uppercase (trim loc) \<in> set (policy_codes (trim raw))) \<noteq> starts_with (trim raw) ''!''
               | None \<Rightarrow> starts_with (trim raw) ''!''))) \<and>
         ((\<exists>r. watch p 0 answers = Some r) \<longleftrightarrow>
           (\<exists>loc. Inr loc \<in> set answers \<and>
              (to_ascii_uppercase (trim loc) \<in> set (policy_codes (trim raw))) = starts_with (trim raw) ''!'')) \<and>
         1000000000 \<le> xp_interval p \<and> xp_interval p \<le> 86400 * 1000000000"
proof (intro conjI)
  show "settle io (Some p) = Returns (Inr ()) \<longleftrightarrow>
      (\<exists>body. read_trace io = Returns (Inr body) \<and>
         (case parse_trace body of
            Some loc \<Rightarrow> (to_ascii_uppercase (trim loc) \<in> set (policy_codes (trim raw))) \<noteq> starts_with (trim raw) ''!''
          | None \<Rightarrow> starts_with (trim raw) ''!''))"
    by (simp only: settle_policy accepts_trace [OF assms])
  show "(\<exists>r. watch p 0 answers = Some r) \<longleftrightarrow>
      (\<exists>loc. Inr loc \<in> set answers \<and>
         (to_ascii_uppercase (trim loc) \<in> set (policy_codes (trim raw))) = starts_with (trim raw) ''!'')"
    unfolding watch_ends by (auto simp: accepts_parsed [OF assms])
qed (use parsed_interval [OF assms] in simp_all)


lemma deny_list_example:
  "policy_parse (\<lambda>_. None) ''!IR,az'' = Some \<lparr>xp_allow = [], xp_deny = [''IR'', ''AZ''], xp_interval = 60000000000\<rparr>"
proof -
  have t: "trim ''!IR,az'' = ''!IR,az''" "trim ''IR'' = ''IR''" "trim ''az'' = ''az''"
    by (rule trim_graphic; simp add: ascii_graphic_def)+
  have "policy_codes ''!IR,az'' = [''IR'', ''AZ'']"
    by (simp add: policy_codes_def trim_start_matches_def t country_code_def to_ascii_uppercase_def
        ascii_upper_def ascii_lower_def char_of_def bit_iff_odd)
  then show ?thesis
    by (simp add: policy_parse_def t eq_ignore_ascii_case_def starts_with_def interval_from_env_def
        DEFAULT_INTERVAL_SECS_def)
qed

theorem exit_policy_decides_witness:
  "policy_parse (\<lambda>_. None) ''!IR,az'' = Some \<lparr>xp_allow = [], xp_deny = [''IR'', ''AZ''], xp_interval = 60000000000\<rparr> \<and>
   (\<exists>r. watch \<lparr>xp_allow = [], xp_deny = [''IR'', ''AZ''], xp_interval = 60000000000\<rparr> 0
      [Inl Cancelled, Inr ''DE'', Inr ''IR''] = Some r)"
proof -
  have t: "trim ''!IR,az'' = ''!IR,az''" "trim ''IR'' = ''IR''" "trim ''az'' = ''az''"
    by (rule trim_graphic; simp add: ascii_graphic_def)+
  have c: "policy_codes ''!IR,az'' = [''IR'', ''AZ'']" "to_ascii_uppercase ''IR'' = ''IR''"
    by (simp_all add: policy_codes_def trim_start_matches_def t country_code_def to_ascii_uppercase_def
        ascii_upper_def ascii_lower_def char_of_def bit_iff_odd)
  have "(to_ascii_uppercase (trim ''IR'') \<in> set (policy_codes (trim ''!IR,az''))) = starts_with (trim ''!IR,az'') ''!''"
    by (simp add: t c starts_with_def)
  then show ?thesis
    using exit_policy_decides [OF deny_list_example, of undefined "[Inl Cancelled, Inr ''DE'', Inr ''IR'']"]
      deny_list_example by auto
qed

text \<open>
  The answer is read only until the country is in it, so what stands behind the country depends on how
  the answer is cut: the same answer is reported with and without the note on WARP.
\<close>

lemma trim_words: "trim ''DE'' = ''DE''" "trim ''on'' = ''on''"
  by (rule trim_graphic; simp add: ascii_graphic_def)+

lemmas trace_read = parse_exit_def parse_trace_def trace_field_def str_lines_def strip_cr_def strip_prefix_def
  starts_with_def trim_words to_ascii_uppercase_def ascii_lower_def

lemma warp_note_depends_on_cut:
  "parse_trace (from_utf8_lossy a) \<noteq> None \<Longrightarrow> trace_body [] (Some a # rs) = Some a"
  "xi_warp (parse_exit ''loc=DE\<newline>warp=on'' 0)" "\<not> xi_warp (parse_exit ''loc=DE'' 0)"
  "parse_trace ''loc=DE'' = Some ''DE''"
  by (simp_all add: trace_read)

end
