(* ===== verification/Tunnelping.thy ===== *)
theory Tunnelping
  imports Exitloc Prober
begin

text \<open>
  \<^verbatim>\<open>tunnelping.rs\<close>: the request through a fresh tunnel by which the ironclad scan verifies a gateway. The
  answer is judged by its first line, which is shown not to depend on how the stream is cut.
\<close>

definition PING_MTU :: usize where "PING_MTU = 1280"
definition HTTP_PROBE_HOST :: string where "HTTP_PROBE_HOST = ''www.gstatic.com''"
definition HTTP_PROBE_PATH :: string where "HTTP_PROBE_PATH = ''/generate_204''"

definition http_probe_port :: "env \<Rightarrow> u16" where
  "http_probe_port env =
     (case env ''AETHER_IRONCLAD_PORT'' of
        None \<Rightarrow> 80
      | Some v \<Rightarrow> (case parse_uint 65535 v of Some n \<Rightarrow> of_nat n | None \<Rightarrow> 80))"

definition http_status_code :: "string \<Rightarrow> nat option" where
  "http_status_code status_line =
     (case split_chars (\<lambda>c. c = CHR '' '') status_line of
        [] \<Rightarrow> None
      | version # rest \<Rightarrow>
          if \<not> starts_with version ''HTTP/'' then None
          else (case rest of [] \<Rightarrow> None | code # _ \<Rightarrow> parse_uint 65535 code))"

text \<open>What each \<^verbatim>\<open>timeout_at(deadline, from_stack.recv())\<close> gives.\<close>

datatype probe_recv = PrChunk bytes | PrClosed | PrTimeout

definition has_crlf :: "bytes \<Rightarrow> bool" where
  "has_crlf buf \<longleftrightarrow> (\<exists>i \<in> set [0..<length buf - 1]. take 2 (drop i buf) = [0x0d, 0x0a])"

text \<open>The bytes that were read and whether the time was over; None while it waits.\<close>

fun probe_read :: "bytes \<Rightarrow> probe_recv list \<Rightarrow> (bytes \<times> bool) option" where
  "probe_read buf [] = None"
| "probe_read buf (PrTimeout # rs) = Some (buf, True)"
| "probe_read buf (PrClosed # rs) = Some (buf, False)"
| "probe_read buf (PrChunk chunk # rs) =
     (let buf' = buf @ chunk
      in if has_crlf buf' \<or> 128 \<le> length buf' then Some (buf', False) else probe_read buf' rs)"

definition status_line :: "bytes \<Rightarrow> string" where
  "status_line buf =
     trim (case str_lines (from_utf8_lossy buf) of l # _ \<Rightarrow> l | [] \<Rightarrow> [])"

definition probe_judge :: "bytes \<times> bool \<Rightarrow> unit result" where
  "probe_judge r =
     (case r of (buf, timed_out) \<Rightarrow>
        if timed_out then Inl (Other ''http probe response timeout'')
        else if http_status_code (status_line buf) = Some 204 then Inr ()
        else Inl (Other (''unexpected http probe response: '' @ status_line buf)))"

definition probe_request :: string where
  "probe_request = ''GET '' @ HTTP_PROBE_PATH @ '' HTTP/1.1'' @ [CHR 0x0D, CHR 0x0A] @ ''Host: '' @ HTTP_PROBE_HOST @
     [CHR 0x0D, CHR 0x0A] @ ''Connection: close'' @ [CHR 0x0D, CHR 0x0A] @ ''User-Agent: aether-ironclad'' @
     [CHR 0x0D, CHR 0x0A, CHR 0x0D, CHR 0x0A]"

text \<open>What the stack answers: the name lookup, the connection, the write, the reads.\<close>

record probe_io =
  pi_dns :: "dns_round list"
  pi_open :: "socket_addr \<Rightarrow> unit result option"
  pi_send :: "bytes \<Rightarrow> unit result option"
  pi_recv :: "probe_recv list"

definition http_probe :: "env \<Rightarrow> probe_io \<Rightarrow> unit result run option" where
  "http_probe env io =
     (case dns_resolve HTTP_PROBE_HOST (pi_dns io) of
        None \<Rightarrow> None
      | Some Panics \<Rightarrow> Some Panics
      | Some (Returns (Inl e)) \<Rightarrow> Some (Returns (Inl e))
      | Some (Returns (Inr ip)) \<Rightarrow>
          (case pi_open io \<lparr>sa_ip = ip, sa_port = http_probe_port env\<rparr> of
             None \<Rightarrow> None
           | Some (Inl e) \<Rightarrow> Some (Returns (Inl e))
           | Some (Inr _) \<Rightarrow>
               (case pi_send io (as_bytes probe_request) of
                  None \<Rightarrow> None
                | Some (Inl e) \<Rightarrow> Some (Returns (Inl e))
                | Some (Inr _) \<Rightarrow> map_option (\<lambda>r. Returns (probe_judge r)) (probe_read [] (pi_recv io)))))"

definition h2_peer :: "env \<Rightarrow> socket_addr \<Rightarrow> socket_addr" where
  "h2_peer env quic_peer =
     (case env ''AETHER_MASQUE_H2_PEER'' of
        None \<Rightarrow> quic_peer
      | Some v \<Rightarrow> (case parse_socket_addr (trim v) of Some addr \<Rightarrow> addr | None \<Rightarrow> quic_peer))"

text \<open>
  The tunnel of a ping: the stack that is spawned, the carrier and the peer it dials, the signal that
  its data plane works (None while it does not come, False when the tunnel exits first), the probe and
  the time it takes.
\<close>

datatype ping_carrier = PingH2 socket_addr | PingQuic socket_addr

definition ping_tunnel :: "env \<Rightarrow> socket_addr \<Rightarrow> ping_carrier" where
  "ping_tunnel env peer = (if h2_enabled_env env then PingH2 (h2_peer env peer) else PingQuic peer)"

record ping_io =
  pg_spawn :: "unit result"
  pg_ready :: "ping_carrier \<Rightarrow> bool option"
  pg_probe :: probe_io
  pg_elapsed :: nat
  pg_late :: bool

definition ping_timeout :: aether_error where
  "ping_timeout = Other ''ironclad http probe timeout''"

definition finish_ping :: "bool \<Rightarrow> nat result run option \<Rightarrow> nat result run" where
  "finish_ping late attempt =
     (if late then Returns (Inl ping_timeout)
      else case attempt of None \<Rightarrow> Returns (Inl ping_timeout) | Some r \<Rightarrow> r)"

definition timed_probe :: "env \<Rightarrow> ping_io \<Rightarrow> nat result run option" where
  "timed_probe env io =
     map_option (\<lambda>r. run_bind r (\<lambda>x. Returns (case x of Inr _ \<Rightarrow> Inr (pg_elapsed io) | Inl e \<Rightarrow> Inl e)))
       (http_probe env (pg_probe io))"

definition masque_http_ping :: "env \<Rightarrow> socket_addr \<Rightarrow> ping_io \<Rightarrow> nat result run" where
  "masque_http_ping env peer io =
     finish_ping (pg_late io)
       (case pg_spawn io of
          Inl e \<Rightarrow> Some (Returns (Inl e))
        | Inr _ \<Rightarrow>
            (case pg_ready io (ping_tunnel env peer) of
               None \<Rightarrow> None
             | Some False \<Rightarrow> Some (Returns (Inl (Other ''tunnel exited before data-plane validation'')))
             | Some True \<Rightarrow> timed_probe env io))"

definition wg_http_ping_established :: "env \<Rightarrow> ping_io \<Rightarrow> nat result run" where
  "wg_http_ping_established env io =
     finish_ping (pg_late io)
       (case pg_spawn io of
          Inl e \<Rightarrow> Some (Returns (Inl e))
        | Inr _ \<Rightarrow> timed_probe env io)"

subsection \<open>The first line decides\<close>

lemma has_crlf_append: "has_crlf (a @ 0x0d # 0x0a # r)"
proof -
  have "length a \<in> set [0..<length (a @ 0x0d # 0x0a # r) - 1]" by simp
  moreover have "take 2 (drop (length a) (a @ 0x0d # 0x0a # r)) = [0x0d, 0x0a]" by simp
  ultimately show ?thesis unfolding has_crlf_def by blast
qed

lemma has_crlfD:
  assumes "has_crlf b"
  obtains a r where "b = a @ 0x0d # 0x0a # r"
proof -
  obtain i where "take 2 (drop i b) = [0x0d, 0x0a]" using assms by (auto simp: has_crlf_def)
  then have "b = take i b @ 0x0d # 0x0a # drop 2 (drop i b)"
    by (metis append_Cons append_Nil append_take_drop_id)
  then show thesis by (rule that)
qed

lemma has_crlf_LF: "has_crlf b \<Longrightarrow> 0x0a \<in> set b"
  by (erule has_crlfD) simp

lemma split_chars_first: "\<not> list_ex P a \<Longrightarrow> P c \<Longrightarrow> split_chars P (a @ c # s) = a # split_chars P s"
  by (induction a) simp_all

lemma split_chars_Nil [simp]: "split_chars P s \<noteq> []"
  by (cases s) (auto split: list.splits)

text \<open>Text that starts with a line has this line as its first.\<close>

lemma str_lines_first:
  assumes "CHR 0x0A \<notin> set l"
  shows "\<exists>ls. str_lines (l @ CHR 0x0D # CHR 0x0A # s) = l # ls"
proof -
  have "split_chars (\<lambda>c. c = CHR 0x0A) ((l @ [CHR 0x0D]) @ CHR 0x0A # s) =
      (l @ [CHR 0x0D]) # split_chars (\<lambda>c. c = CHR 0x0A) s"
    by (rule split_chars_first) (use assms in \<open>auto simp: list_ex_iff\<close>)
  then show ?thesis by (simp add: str_lines_def strip_cr_def)
qed

lemma status_line_first:
  assumes "\<forall>b \<in> set line. b < 0x80" and "0x0a \<notin> set line"
  shows "status_line (line @ 0x0d # 0x0a # r) = trim (of_bytes line)"
proof -
  have "\<forall>b \<in> set (line @ [0x0d, 0x0a]). b < 0x80" using assms(1) by auto
  then have "from_utf8_lossy (line @ 0x0d # 0x0a # r) = of_bytes line @ CHR 0x0D # CHR 0x0A # from_utf8_lossy r"
    using utf8_lossy_ascii [of "line @ [0x0d, 0x0a]" r] by (simp add: from_utf8_lossy_def of_bytes_def char_of_def bit_iff_odd)
  moreover have "set line = of_char ` set (of_bytes line)" by (metis as_bytes_def as_bytes_of_bytes list.set_map)
  then have "CHR 0x0A \<notin> set (of_bytes line)" using assms(2) by force
  ultimately show ?thesis using str_lines_first [of "of_bytes line" "from_utf8_lossy r"] by (auto simp: status_line_def)
qed

text \<open>However the stream is cut, what is read has the whole first line.\<close>

lemma probe_read_line:
  assumes "buf @ concat chunks = line @ 0x0d # 0x0a # rest" and "length line \<le> 126" and "0x0a \<notin> set line"
    and "\<not> has_crlf buf" and "length buf < 128"
  shows "\<exists>r. probe_read buf (map PrChunk chunks @ later) = Some (line @ 0x0d # 0x0a # r, False)"
  using assms
proof (induction chunks arbitrary: buf)
  case Nil
  then show ?case using has_crlf_append [of line rest] by simp
next
  case (Cons c chunks)
  let ?b = "buf @ c"
  have stream: "?b @ concat chunks = (line @ [0x0d, 0x0a]) @ rest" using Cons.prems(1) by simp
  show ?case
  proof (cases "has_crlf ?b \<or> 128 \<le> length ?b")
    case True
    have "length (line @ [0x0d, 0x0a]) \<le> length ?b"
    proof (rule ccontr)
      assume short: "\<not> length (line @ [0x0d, 0x0a]) \<le> length ?b"
      have "(line @ [0x0d]) @ 0x0a # rest = ?b @ concat chunks" using stream by simp
      moreover have "length ?b \<le> length (line @ [0x0d])" using short by simp
      ultimately obtain l where "line @ [0x0d] = ?b @ l" by (rule prefix_split)
      then have "set ?b \<subseteq> set (line @ [0x0d])" by (metis Un_upper1 set_append)
      then have "0x0a \<notin> set ?b" using Cons.prems(3) by auto
      then show False using True short Cons.prems(2) has_crlf_LF [of ?b] by auto
    qed
    then obtain r where "?b = (line @ [0x0d, 0x0a]) @ r" by (rule prefix_split [OF stream])
    then show ?thesis using True by simp
  next
    case False
    then show ?thesis using Cons.IH [of ?b] Cons.prems by (simp add: stream)
  qed
qed

lemma http_probe_any_chunks:
  assumes "dns_resolve HTTP_PROBE_HOST (pi_dns io) = Some (Returns (Inr ip))"
    and "pi_open io \<lparr>sa_ip = ip, sa_port = http_probe_port env\<rparr> = Some (Inr ())"
    and "pi_send io (as_bytes probe_request) = Some (Inr ())"
    and "pi_recv io = map PrChunk chunks @ later" and "concat chunks = line @ 0x0d # 0x0a # rest"
    and "length line \<le> 126" and "\<forall>b \<in> set line. b < 0x80" and "0x0a \<notin> set line"
  shows "http_probe env io = Some (Returns
    (if http_status_code (trim (of_bytes line)) = Some 204 then Inr ()
     else Inl (Other (''unexpected http probe response: '' @ trim (of_bytes line)))))"
proof -
  have "\<not> has_crlf []" by (simp add: has_crlf_def)
  then obtain r where "probe_read [] (map PrChunk chunks @ later) = Some (line @ 0x0d # 0x0a # r, False)"
    using probe_read_line [of "[]" chunks line rest later] assms by auto
  then show ?thesis
    by (simp add: http_probe_def assms(1-4) probe_judge_def status_line_first [OF assms(7,8)])
qed

lemma status_204: "http_status_code ''HTTP/1.1 204 No Content'' = Some 204" "http_status_code ''204'' = None"
  by (simp_all add: http_status_code_def starts_with_def parse_uint_def digit_val.simps ascii_digit_def)

end
