(* ===== verification/Toml.thy ===== *)
theory Toml
  imports Aether_Prelude
begin

text \<open>
  The crate \<^verbatim>\<open>toml\<close> with \<^verbatim>\<open>serde\<close>, which the engine uses to keep records in files, is a parameter: a printer and
  a reader. What the engine relies on is that a printed record is read back. A simple format with
  length prefixes shows that this can hold.
\<close>

record 'a toml_lib =
  toml_from_str :: "string \<Rightarrow> string + 'a"
  toml_to_string :: "'a \<Rightarrow> string + string"

definition toml_ok :: "'a toml_lib \<Rightarrow> bool" where
  "toml_ok lib \<longleftrightarrow> (\<forall>x. \<exists>s. toml_to_string lib x = Inr s \<and> toml_from_str lib s = Inr x)"

lemma toml_okD:
  assumes "toml_ok lib"
  obtains s where "toml_to_string lib x = Inr s" and "toml_from_str lib s = Inr x"
  using assms unfolding toml_ok_def by blast

subsection \<open>A format with length prefixes\<close>

definition put_count :: "nat \<Rightarrow> string" where
  "put_count n = replicate n (CHR ''x'') @ ''.''"

definition take_count :: "string \<Rightarrow> nat \<times> string" where
  "take_count s =
     (let n = length (takeWhile (\<lambda>c. c = CHR ''x'') s) in (n, drop (Suc n) s))"

definition put_text :: "string \<Rightarrow> string" where
  "put_text t = put_count (length t) @ t"

definition take_text :: "string \<Rightarrow> string \<times> string" where
  "take_text s = (case take_count s of (n, r) \<Rightarrow> (take n r, drop n r))"

primrec take_texts :: "nat \<Rightarrow> string \<Rightarrow> string list \<times> string" where
  "take_texts 0 s = ([], s)"
| "take_texts (Suc n) s =
     (case take_text s of (t, r) \<Rightarrow> case take_texts n r of (ts, r') \<Rightarrow> (t # ts, r'))"

lemma take_put_count [simp]: "take_count (put_count n @ s) = (n, s)"
proof -
  have "takeWhile (\<lambda>c. c = CHR ''x'') (replicate n (CHR ''x'') @ CHR ''.'' # s) = replicate n (CHR ''x'')"
    by (induction n) simp_all
  then show ?thesis by (simp add: take_count_def put_count_def Let_def)
qed

lemma take_put_text [simp]: "take_text (put_text t @ s) = (t, s)"
  by (simp add: take_text_def put_text_def)

lemma take_put_texts [simp]: "take_texts (length ts) (concat (map put_text ts) @ s) = (ts, s)"
  by (induction ts) simp_all

end
