(* ===== verification/Lastconn.thy ===== *)
theory Lastconn
  imports Ip_Text Toml
begin

text \<open>
  \<^verbatim>\<open>lastconn.rs\<close>: the file with the gateways that worked last. The crate \<^verbatim>\<open>toml\<close> is the parameter record
  \<open>toml_lib\<close>; the file is its text, none when it cannot be read. The ring in the file is shown to be the
  list of the last gateways, newest first, over every history of saves.
\<close>

definition RECENT_CAP :: nat where "RECENT_CAP = 8"

definition CARRIER_MASQUE_H3 :: string where "CARRIER_MASQUE_H3 = ''masque-h3''"
definition CARRIER_MASQUE_H2 :: string where "CARRIER_MASQUE_H2 = ''masque-h2''"
definition CARRIER_WIREGUARD :: string where "CARRIER_WIREGUARD = ''wireguard''"

record last_connection =
  lc_peer :: string
  lc_profile :: string
  lc_carrier :: string
  lc_recent :: "string list"

type_synonym text_file = "string option"

text \<open>A write replaces the file, or fails and leaves what the system leaves.\<close>

datatype file_write = Written | WriteFails text_file

definition lc_load :: "last_connection toml_lib \<Rightarrow> text_file \<Rightarrow> last_connection option" where
  "lc_load lib disk = (case disk of None \<Rightarrow> None | Some s \<Rightarrow> case toml_from_str lib s of Inr c \<Rightarrow> Some c | Inl _ \<Rightarrow> None)"

fun push_recent :: "string \<Rightarrow> string list \<Rightarrow> string list \<Rightarrow> string list" where
  "push_recent peer recent [] = recent"
| "push_recent peer recent (entry # es) =
     push_recent peer (if entry \<noteq> peer \<and> length recent < RECENT_CAP then recent @ [entry] else recent) es"

definition carried_over :: "last_connection option \<Rightarrow> string \<Rightarrow> string list" where
  "carried_over previous carrier =
     (case previous of
        Some c \<Rightarrow> if lc_carrier c = [] \<or> lc_carrier c = carrier then lc_recent c else []
      | None \<Rightarrow> [])"

definition lc_save :: "last_connection toml_lib \<Rightarrow> file_write \<Rightarrow> text_file \<Rightarrow> string \<Rightarrow> string \<Rightarrow> string \<Rightarrow> text_file" where
  "lc_save lib w disk peer profile carrier =
     (let recent = push_recent peer [peer] (carried_over (lc_load lib disk) carrier);
          conn = \<lparr>lc_peer = peer, lc_profile = profile, lc_carrier = carrier, lc_recent = recent\<rparr>
      in case toml_to_string lib conn of
           Inr s \<Rightarrow> (case w of Written \<Rightarrow> Some s | WriteFails f \<Rightarrow> f)
         | Inl _ \<Rightarrow> disk)"

fun push_usable :: "socket_addr list \<Rightarrow> string list \<Rightarrow> socket_addr list" where
  "push_usable out [] = out"
| "push_usable out (raw # rs) =
     (case parse_socket_addr raw of
        Some addr \<Rightarrow> push_usable (if addr \<in> set out then out else out @ [addr]) rs
      | None \<Rightarrow> push_usable out rs)"

definition usable_peers :: "last_connection \<Rightarrow> string \<Rightarrow> socket_addr list" where
  "usable_peers cached carrier =
     (if lc_carrier cached \<noteq> [] \<and> lc_carrier cached \<noteq> carrier then []
      else push_usable [] (lc_peer cached # lc_recent cached))"

subsection \<open>The ring\<close>

lemma push_recent_eq:
  "length recent \<le> RECENT_CAP \<Longrightarrow>
   push_recent peer recent es = recent @ take (RECENT_CAP - length recent) (filter (\<lambda>e. e \<noteq> peer) es)"
proof (induction peer recent es rule: push_recent.induct)
  case (2 peer recent entry es)
  then show ?case by (auto simp: take_Cons')
qed simp

text \<open>Removing one entry of a list without repetitions costs one place of the ring.\<close>

lemma take_filter_take:
  "distinct xs \<Longrightarrow> take n (filter (\<lambda>x. x \<noteq> p) (take (Suc n) xs)) = take n (filter (\<lambda>x. x \<noteq> p) xs)"
proof (induction xs arbitrary: n)
  case (Cons x xs)
  show ?case
  proof (cases "x = p")
    case True
    then have f: "filter (\<lambda>x. x \<noteq> p) (take n xs) = take n xs" "filter (\<lambda>x. x \<noteq> p) xs = xs"
      using Cons.prems by (auto intro!: filter_True dest: in_set_takeD)
    show ?thesis using True by (simp add: f)
  next
    case False
    then show ?thesis using Cons by (cases n) simp_all
  qed
qed simp

lemma lc_save_load:
  assumes "toml_ok lib"
  shows "lc_load lib (lc_save lib Written disk peer profile carrier) =
    Some \<lparr>lc_peer = peer, lc_profile = profile, lc_carrier = carrier,
          lc_recent = push_recent peer [peer] (carried_over (lc_load lib disk) carrier)\<rparr>"
proof -
  let ?c = "\<lparr>lc_peer = peer, lc_profile = profile, lc_carrier = carrier,
          lc_recent = push_recent peer [peer] (carried_over (lc_load lib disk) carrier)\<rparr>"
  obtain s where "toml_to_string lib ?c = Inr s" "toml_from_str lib s = Inr ?c"
    by (rule toml_okD [OF assms])
  then show ?thesis by (simp add: lc_save_def lc_load_def)
qed

text \<open>
  Every history of saves. \<open>held\<close> is what the file held before the saves \<open>hs\<close>, the oldest first, that were written;
  a write that fails leaves the file as it was, or destroys it, and then the history starts again from what can
  still be read of it. A ring that is found holds no gateway twice, as every ring that was written does.
\<close>

inductive saved :: "last_connection toml_lib \<Rightarrow> last_connection option \<Rightarrow> (string \<times> string \<times> string) list \<Rightarrow> text_file \<Rightarrow> bool"
  for lib where
  found: "pred_option (\<lambda>c. distinct (lc_recent c)) (lc_load lib disk) \<Longrightarrow> saved lib (lc_load lib disk) [] disk"
| written: "saved lib held hs disk \<Longrightarrow> carrier \<noteq> [] \<Longrightarrow>
    saved lib held (hs @ [(peer, profile, carrier)]) (lc_save lib Written disk peer profile carrier)"
| not_written: "saved lib held hs disk \<Longrightarrow> saved lib held hs (lc_save lib (WriteFails disk) disk peer profile carrier)"
| destroyed: "saved lib held hs disk \<Longrightarrow> lc_save lib (WriteFails f) disk peer profile carrier = disk' \<Longrightarrow>
    pred_option (\<lambda>c. distinct (lc_recent c)) (lc_load lib disk') \<Longrightarrow> saved lib (lc_load lib disk') [] disk'"

text \<open>
  The gateways known for a carrier: those saved since the last save for another carrier, and before them, when
  there was no such save, those of a file that names this carrier or, written by an older version, none.
\<close>

definition known_for :: "last_connection option \<Rightarrow> (string \<times> string \<times> string) list \<Rightarrow> string \<Rightarrow> string list" where
  "known_for held hs carrier =
     (if list_all (\<lambda>(peer, profile, c). c = carrier) hs
      then (case held of Some c \<Rightarrow> if lc_carrier c \<in> {[], carrier} then rev (lc_recent c) else [] | None \<Rightarrow> [])
      else []) @
     rev (map fst (takeWhile (\<lambda>(peer, profile, c). c = carrier) (rev hs)))"

lemma known_for_snoc:
  "known_for held (hs @ [(peer, profile, c)]) carrier = (if c = carrier then known_for held hs carrier @ [peer] else [])"
  by (simp add: known_for_def)

lemma ring_snoc:
  "push_recent p [p] (take RECENT_CAP (rev (remdups ps))) = take RECENT_CAP (rev (remdups (ps @ [p])))"
  "distinct ps \<Longrightarrow> push_recent p [p] (rev ps) = take RECENT_CAP (rev (remdups (ps @ [p])))"
proof -
  have "take 7 (filter (\<lambda>x. x \<noteq> p) (take (Suc 7) (rev (remdups ps)))) = take 7 (filter (\<lambda>x. x \<noteq> p) (rev (remdups ps)))"
    by (rule take_filter_take) simp
  then show "push_recent p [p] (take RECENT_CAP (rev (remdups ps))) = take RECENT_CAP (rev (remdups (ps @ [p])))"
    by (simp add: remdups_snoc push_recent_eq RECENT_CAP_def rev_filter [symmetric])
  show "distinct ps \<Longrightarrow> push_recent p [p] (rev ps) = take RECENT_CAP (rev (remdups (ps @ [p])))"
    by (simp add: distinct_remdups_id remdups_snoc push_recent_eq RECENT_CAP_def rev_filter [symmetric])
qed

lemma found_known:
  assumes "pred_option (\<lambda>c. distinct (lc_recent c)) held"
  shows "distinct (known_for held [] carrier)" and "carried_over held carrier = rev (known_for held [] carrier)"
  using assms by (auto simp: known_for_def carried_over_def split: option.splits)

lemma saved_known:
  assumes "toml_ok lib" and "saved lib held hs disk" and "carrier \<noteq> []"
  shows "distinct (known_for held hs carrier) \<and> carried_over (lc_load lib disk) carrier = rev (known_for held hs carrier) \<or>
    carried_over (lc_load lib disk) carrier = take RECENT_CAP (rev (remdups (known_for held hs carrier)))"
  using assms(2,3)
proof (induction arbitrary: carrier rule: saved.induct)
  case (written held hs disk carrier peer profile new)
  have "carried_over (lc_load lib (lc_save lib Written disk peer profile carrier)) new =
      (if new = carrier then push_recent peer [peer] (carried_over (lc_load lib disk) carrier) else [])"
    using written.hyps(2) by (auto simp: lc_save_load [OF assms(1)] carried_over_def [of "Some _"])
  then show ?case using written.IH [OF written.hyps(2)] ring_snoc by (auto simp: known_for_snoc)
next
  case (not_written held hs disk peer profile c)
  then show ?case by (auto simp: lc_save_def Let_def split: sum.splits)
qed (use found_known in blast)+

lemma saved_ring:
  assumes "toml_ok lib" and "saved lib held hs disk" and "carrier \<noteq> []"
  shows "push_recent peer [peer] (carried_over (lc_load lib disk) carrier) =
    take RECENT_CAP (rev (remdups (known_for held hs carrier @ [peer])))"
  using saved_known [OF assms] ring_snoc by metis

text \<open>The addresses that can be read, each once, in order.\<close>

lemma push_usable_eq:
  "push_usable out rs = out @ filter (\<lambda>a. a \<notin> set out) (rev (remdups (rev (List.map_filter parse_socket_addr rs))))"
proof (induction rs arbitrary: out)
  case (Cons raw rs)
  show ?case
  proof (cases "parse_socket_addr raw")
    case (Some a)
    then show ?thesis
      by (cases "a \<in> set out")
        (auto simp: Cons.IH remdups_snoc map_filter_simps rev_filter [symmetric] conj_commute intro!: filter_cong)
  qed (simp add: Cons.IH map_filter_simps)
qed (simp add: map_filter_simps)

lemma remdups_snoc_twice: "remdups (xs @ [x, x]) = remdups (xs @ [x])"
  using remdups_snoc [of "xs @ [x]" x] by (simp add: remdups_snoc)

lemma usable_twice:
  "rev (remdups (rev (List.map_filter parse_socket_addr (p # p # ps)))) =
   rev (remdups (rev (List.map_filter parse_socket_addr (p # ps))))"
  by (cases "parse_socket_addr p") (simp_all add: map_filter_simps remdups_snoc_twice)

text \<open>
  C29. After any history of saves, for any carriers and with writes that fail in between, the file of the last save
  that was written holds its gateway, its profile and its carrier, and the ring holds the last eight different
  gateways that are known for this carrier, newest first: a save for another carrier drops the ring. The
  addresses that are tried again are those of the ring that can be read, each once and in that order, and
  none of them for another carrier.
\<close>

theorem last_connections_ring:
  fixes peer :: string
  assumes "toml_ok lib" and "saved lib held hs disk" and "carrier \<noteq> []"
  defines "ring \<equiv> take RECENT_CAP (rev (remdups (known_for held hs carrier @ [peer])))"
  shows "lc_load lib (lc_save lib Written disk peer profile carrier) =
      Some \<lparr>lc_peer = peer, lc_profile = profile, lc_carrier = carrier, lc_recent = ring\<rparr> \<and>
    usable_peers \<lparr>lc_peer = peer, lc_profile = profile, lc_carrier = carrier, lc_recent = ring\<rparr> other =
      (if other = carrier then rev (remdups (rev (List.map_filter parse_socket_addr ring))) else [])"
proof -
  obtain tl where tl: "ring = peer # tl" by (simp add: ring_def remdups_snoc RECENT_CAP_def)
  have "rev (remdups (rev (List.map_filter parse_socket_addr (peer # ring)))) =
      rev (remdups (rev (List.map_filter parse_socket_addr ring)))"
    unfolding tl by (rule usable_twice)
  then show ?thesis
    using saved_ring [OF assms(1-3), of peer] assms(3) unfolding ring_def
    by (simp add: lc_save_load [OF assms(1)] usable_peers_def push_usable_eq)
qed

text \<open>A printer and a reader for the file, with which the ring is evaluated.\<close>

definition lc_print :: "last_connection \<Rightarrow> string" where
  "lc_print c = put_text (lc_peer c) @ put_text (lc_profile c) @ put_text (lc_carrier c) @
     put_count (length (lc_recent c)) @ concat (map put_text (lc_recent c))"

definition lc_read :: "string \<Rightarrow> last_connection" where
  "lc_read s =
     (let (peer, s) = take_text s; (profile, s) = take_text s; (carrier, s) = take_text s;
          (n, s) = take_count s; (recent, s) = take_texts n s
      in \<lparr>lc_peer = peer, lc_profile = profile, lc_carrier = carrier, lc_recent = recent\<rparr>)"

definition lc_lib :: "last_connection toml_lib" where
  "lc_lib = \<lparr>toml_from_str = (\<lambda>s. Inr (lc_read s)), toml_to_string = (\<lambda>c. Inr (lc_print c))\<rparr>"

lemma lc_lib_ok: "toml_ok lc_lib"
proof -
  have "lc_read (lc_print c) = c" for c
    using take_put_texts [of "lc_recent c" "[]"] by (simp add: lc_read_def lc_print_def)
  then show ?thesis by (simp add: toml_ok_def lc_lib_def)
qed

text \<open>
  Two gateways for one carrier, a save for another, then two for the first one again, with a write between them
  that fails: only the gateways saved since are known.
\<close>

theorem last_connections_ring_witness:
  "\<exists>disk hs. saved lc_lib None hs disk \<and>
     hs = [(''1.1.1.1:443'', ''gfw'', CARRIER_MASQUE_H3), (''1.0.0.1:443'', ''gfw'', CARRIER_WIREGUARD),
           (''8.8.8.8:443'', ''gfw'', CARRIER_MASQUE_H3)] \<and>
     lc_load lc_lib (lc_save lc_lib Written disk ''9.9.9.9:443'' ''gfw'' CARRIER_MASQUE_H3) =
       Some \<lparr>lc_peer = ''9.9.9.9:443'', lc_profile = ''gfw'', lc_carrier = CARRIER_MASQUE_H3,
             lc_recent = [''9.9.9.9:443'', ''8.8.8.8:443'']\<rparr>"
proof -
  let ?h3 = CARRIER_MASQUE_H3 and ?wg = CARRIER_WIREGUARD
  have ne: "?h3 \<noteq> []" "?wg \<noteq> []" "?wg \<noteq> ?h3" by (simp_all add: CARRIER_MASQUE_H3_def CARRIER_WIREGUARD_def)
  have "saved lc_lib None [] None" using saved.found [of lc_lib None] by (simp add: lc_load_def)
  from saved.not_written [OF saved.written [OF saved.written [OF saved.written [OF this ne(1)] ne(2)] ne(1)]]
  obtain disk where h: "saved lc_lib None [(''1.1.1.1:443'', ''gfw'', ?h3), (''1.0.0.1:443'', ''gfw'', ?wg),
      (''8.8.8.8:443'', ''gfw'', ?h3)] disk" by force
  have "take RECENT_CAP (rev (remdups (known_for None [(''1.1.1.1:443'', ''gfw'', ?h3), (''1.0.0.1:443'', ''gfw'', ?wg),
      (''8.8.8.8:443'', ''gfw'', ?h3)] ?h3 @ [''9.9.9.9:443'']))) = [''9.9.9.9:443'', ''8.8.8.8:443'']"
    using ne by (simp add: known_for_def RECENT_CAP_def)
  with h last_connections_ring [OF lc_lib_ok h ne(1), of "''9.9.9.9:443''" "''gfw''" ?h3] show ?thesis by auto
qed

end
