(* ===== verification/Config.thy ===== *)
theory Config
  imports Text Toml
begin

text \<open>
  \<^verbatim>\<open>config.rs\<close>: the file with the identity of the device. The crates \<^verbatim>\<open>toml\<close> and \<^verbatim>\<open>base64\<close> are parameters. Files
  have a text and a mode, and are named by their paths; every system call may fail, and writing a file
  gives all the states the disk goes through, so that a crash is covered.
\<close>

subsection \<open>The identity\<close>

record identity =
  id_device_id :: string
  id_access_token :: string
  id_cert_pem :: bytes
  id_key_pem :: bytes
  id_cert_issued_at :: u64
  id_ipv4 :: string
  id_ipv6 :: string
  id_wg_private_key :: bytes
  id_wg_peer_public_key :: bytes
  id_client_id :: bytes
  id_organization :: string
  id_gateway_proxy :: string
  id_assigned_endpoint :: string
  id_refused :: bool

record persisted_identity =
  pi_device_id :: string
  pi_access_token :: string
  pi_cert_pem :: string
  pi_key_pem :: string
  pi_cert_issued_at :: u64
  pi_ipv4 :: string
  pi_ipv6 :: string
  pi_wg_private_key :: string
  pi_wg_peer_public_key :: string
  pi_client_id :: string
  pi_organization :: string
  pi_gateway_proxy :: string
  pi_assigned_endpoint :: string

record b64_lib =
  b64_encode :: "bytes \<Rightarrow> string"
  b64_decode :: "string \<Rightarrow> string + bytes"

text \<open>What is relied on: decoding inverts encoding, and no bytes are the only ones with an empty text.\<close>

definition b64_ok :: "b64_lib \<Rightarrow> bool" where
  "b64_ok b \<longleftrightarrow> (\<forall>x. b64_decode b (b64_encode b x) = Inr x \<and> (b64_encode b x = [] \<longrightarrow> x = []))"

definition persist :: "b64_lib \<Rightarrow> identity \<Rightarrow> persisted_identity" where
  "persist b i =
     \<lparr>pi_device_id = id_device_id i, pi_access_token = id_access_token i,
      pi_cert_pem = from_utf8_lossy (id_cert_pem i), pi_key_pem = from_utf8_lossy (id_key_pem i),
      pi_cert_issued_at = id_cert_issued_at i, pi_ipv4 = id_ipv4 i, pi_ipv6 = id_ipv6 i,
      pi_wg_private_key = b64_encode b (id_wg_private_key i),
      pi_wg_peer_public_key = b64_encode b (id_wg_peer_public_key i),
      pi_client_id = b64_encode b (id_client_id i), pi_organization = id_organization i,
      pi_gateway_proxy = id_gateway_proxy i, pi_assigned_endpoint = id_assigned_endpoint i\<rparr>"

definition decode_fixed :: "b64_lib \<Rightarrow> nat \<Rightarrow> string \<Rightarrow> string \<Rightarrow> bytes result" where
  "decode_fixed b n field value =
     (case b64_decode b value of
        Inl e \<Rightarrow> Inl (Other (''config field '' @ field @ '' is not valid base64: '' @ e))
      | Inr decoded \<Rightarrow>
          if length decoded \<noteq> n
          then Inl (Other (''config field '' @ field @ '' must decode to '' @ nat_dec n @ '' bytes, found '' @ nat_dec (length decoded)))
          else Inr decoded)"

definition restore :: "b64_lib \<Rightarrow> persisted_identity \<Rightarrow> identity result" where
  "restore b p =
     res_bind (decode_fixed b 32 ''wg_private_key'' (pi_wg_private_key p)) (\<lambda>private_key.
     res_bind (decode_fixed b 32 ''wg_peer_public_key'' (pi_wg_peer_public_key p)) (\<lambda>peer_key.
       let client_id = (if pi_client_id p = [] then [0, 0, 0]
                        else case decode_fixed b 3 ''client_id'' (pi_client_id p) of Inr c \<Rightarrow> c | Inl _ \<Rightarrow> [0, 0, 0])
       in Inr \<lparr>id_device_id = pi_device_id p, id_access_token = pi_access_token p,
               id_cert_pem = as_bytes (pi_cert_pem p), id_key_pem = as_bytes (pi_key_pem p),
               id_cert_issued_at = pi_cert_issued_at p, id_ipv4 = pi_ipv4 p, id_ipv6 = pi_ipv6 p,
               id_wg_private_key = private_key, id_wg_peer_public_key = peer_key, id_client_id = client_id,
               id_organization = pi_organization p, id_gateway_proxy = pi_gateway_proxy p,
               id_assigned_endpoint = pi_assigned_endpoint p, id_refused = False\<rparr>))"

subsection \<open>Paths\<close>

text \<open>The last component of a path, after the trailing slashes and dots, and what stands before it.\<close>

function strip_path_end :: "string \<Rightarrow> string" where
  "strip_path_end p =
     (if ends_with p ''/'' then strip_path_end (butlast p)
      else if ends_with p ''/.'' then strip_path_end (take (length p - 2) p)
      else p)"
  by pat_completeness auto
termination
  by (relation "measure length") (auto simp: ends_with_def)

declare strip_path_end.simps [simp del]

definition last_part :: "string \<Rightarrow> string" where
  "last_part p = rev (takeWhile (\<lambda>c. c \<noteq> CHR ''/'') (rev (strip_path_end p)))"

definition before_last :: "string \<Rightarrow> string" where
  "before_last p = take (length (strip_path_end p) - length (last_part p)) (strip_path_end p)"

definition file_name :: "string \<Rightarrow> string option" where
  "file_name p = (if last_part p \<in> {[], ''.'', ''..''} then None else Some (last_part p))"

definition push_path :: "string \<Rightarrow> string \<Rightarrow> string" where
  "push_path dir name = (if dir = [] \<or> ends_with dir ''/'' then dir @ name else dir @ ''/'' @ name)"

definition set_file_name :: "string \<Rightarrow> string \<Rightarrow> string" where
  "set_file_name p name = (case file_name p of Some _ \<Rightarrow> push_path (before_last p) name | None \<Rightarrow> push_path p name)"

definition name_or_default :: "string \<Rightarrow> string" where
  "name_or_default p = (case file_name p of Some n \<Rightarrow> n | None \<Rightarrow> ''aether.toml'')"

definition quarantine_path :: "string \<Rightarrow> string" where
  "quarantine_path p = set_file_name p (name_or_default p @ ''.corrupt'')"

definition temporary_path :: "nat \<Rightarrow> string \<Rightarrow> string" where
  "temporary_path pid p = set_file_name p (''.'' @ name_or_default p @ ''.'' @ nat_dec pid @ ''.tmp'')"

subsection \<open>Files\<close>

record file_entry =
  fe_text :: string
  fe_mode :: nat

type_synonym disk = "string \<Rightarrow> file_entry option"

definition fs_rename :: "string \<Rightarrow> string \<Rightarrow> disk \<Rightarrow> disk" where
  "fs_rename a b d = (\<lambda>p. if p = b then d a else if p = a then None else d p)"

text \<open>The mode 0o600.\<close>

definition OWNER_ONLY :: nat where "OWNER_ONLY = 384"

text \<open>What the system calls of one operation give: None for success, otherwise the error.\<close>

record cfg_io =
  ci_read :: "string option"
  ci_quarantine :: "string option"
  ci_mkdir :: "string option"
  ci_open :: "string option"
  ci_write :: "(string \<times> nat) option"
  ci_sync :: "string option"
  ci_chmod :: "string option"
  ci_rename :: "string option"
  ci_remove :: "string option"

definition quarantine :: "cfg_io \<Rightarrow> string \<Rightarrow> disk \<Rightarrow> string option \<times> disk" where
  "quarantine io path d =
     (case ci_quarantine io of
        None \<Rightarrow> (Some (quarantine_path path), fs_rename path (quarantine_path path) d)
      | Some _ \<Rightarrow> (None, d))"

definition damaged :: "string \<Rightarrow> string \<Rightarrow> string option \<Rightarrow> aether_error" where
  "damaged what path moved =
     Other (case moved of
        Some target \<Rightarrow> what @ ''; the damaged file was moved to '' @ target @ '' so a fresh identity can be provisioned''
      | None \<Rightarrow> what @ ''; delete '' @ path @ '' to provision a fresh identity'')"

text \<open>The display text of an error of \<^verbatim>\<open>error.rs\<close> of the kind that reading an identity gives.\<close>

definition other_text :: "aether_error \<Rightarrow> string" where
  "other_text e = (case e of Other s \<Rightarrow> s | _ \<Rightarrow> [])"

definition load_identity ::
    "persisted_identity toml_lib \<Rightarrow> b64_lib \<Rightarrow> cfg_io \<Rightarrow> string \<Rightarrow> disk \<Rightarrow> identity option result \<times> disk" where
  "load_identity t b io path d =
     (case d path of
        None \<Rightarrow> (Inr None, d)
      | Some f \<Rightarrow>
          (case ci_read io of
             Some e \<Rightarrow> (Inl (Io e), d)
           | None \<Rightarrow>
               (case toml_from_str t (fe_text f) of
                  Inl e \<Rightarrow> (case quarantine io path d of (moved, d') \<Rightarrow> (Inl (damaged (''config parse: '' @ e) path moved), d'))
                | Inr p \<Rightarrow>
                    (case restore b p of
                       Inr i \<Rightarrow> (Inr (Some i), d)
                     | Inl e \<Rightarrow> (case quarantine io path d of (moved, d') \<Rightarrow> (Inl (damaged (other_text e) path moved), d'))))))"

subsection \<open>Writing\<close>

text \<open>
  The states of the disk while the temporary file is written, newest first, with the result; between two
  of them the temporary file may hold a part of its text. The mode is given when the file is created; a
  file that was there keeps its own until it is changed.
\<close>

definition write_steps :: "cfg_io \<Rightarrow> nat \<Rightarrow> string \<Rightarrow> string \<Rightarrow> disk \<Rightarrow> unit result \<times> disk list" where
  "write_steps io pid path contents d =
     (let tmp = temporary_path pid path
      in case ci_open io of
           Some e \<Rightarrow> (Inl (Io e), [d])
         | None \<Rightarrow>
             (let m = (case d tmp of Some f \<Rightarrow> fe_mode f | None \<Rightarrow> OWNER_ONLY);
                  opened = d(tmp \<mapsto> \<lparr>fe_text = [], fe_mode = m\<rparr>)
              in case ci_write io of
                   Some (e, n) \<Rightarrow> (Inl (Io e), [opened(tmp \<mapsto> \<lparr>fe_text = take n contents, fe_mode = m\<rparr>), opened, d])
                 | None \<Rightarrow>
                     (let written = opened(tmp \<mapsto> \<lparr>fe_text = contents, fe_mode = m\<rparr>)
                      in case ci_sync io of
                           Some e \<Rightarrow> (Inl (Io e), [written, opened, d])
                         | None \<Rightarrow>
                             (case ci_chmod io of
                                Some e \<Rightarrow> (Inl (Io e), [written, opened, d])
                              | None \<Rightarrow>
                                  (let closed = written(tmp \<mapsto> \<lparr>fe_text = contents, fe_mode = OWNER_ONLY\<rparr>)
                                   in case ci_rename io of
                                        Some e \<Rightarrow> (Inl (Io e), [closed, written, opened, d])
                                      | None \<Rightarrow> (Inr (), [fs_rename tmp path closed, closed, written, opened, d]))))))"

definition write_private :: "cfg_io \<Rightarrow> nat \<Rightarrow> string \<Rightarrow> string \<Rightarrow> disk \<Rightarrow> unit result \<times> disk list" where
  "write_private io pid path contents d =
     (case (if before_last path = [] then None else ci_mkdir io) of
        Some e \<Rightarrow> (Inl (Io e), [d])
      | None \<Rightarrow>
          (case write_steps io pid path contents d of
             (Inr u, ds) \<Rightarrow> (Inr u, ds)
           | (Inl e, ds) \<Rightarrow>
               (Inl e, case ci_remove io of None \<Rightarrow> (hd ds)(temporary_path pid path := None) # ds | Some _ \<Rightarrow> ds)))"

definition save_identity ::
    "persisted_identity toml_lib \<Rightarrow> b64_lib \<Rightarrow> cfg_io \<Rightarrow> nat \<Rightarrow> string \<Rightarrow> identity \<Rightarrow> disk \<Rightarrow> unit result \<times> disk list" where
  "save_identity t b io pid path i d =
     (case toml_to_string t (persist b i) of
        Inl e \<Rightarrow> (Inl (Other (''config encode: '' @ e)), [d])
      | Inr s \<Rightarrow> write_private io pid path s d)"

definition save_masque_creds ::
    "persisted_identity toml_lib \<Rightarrow> cfg_io \<Rightarrow> nat \<Rightarrow> string \<Rightarrow> bytes \<Rightarrow> bytes \<Rightarrow> u64 \<Rightarrow> disk \<Rightarrow> unit result \<times> disk list" where
  "save_masque_creds t io pid path cert_pem key_pem issued_at d =
     (case d path of
        None \<Rightarrow> (Inr (), [d])
      | Some f \<Rightarrow>
          (case ci_read io of
             Some e \<Rightarrow> (Inl (Io e), [d])
           | None \<Rightarrow>
               (case toml_from_str t (fe_text f) of
                  Inl e \<Rightarrow> (Inl (Other (''config parse: '' @ e)), [d])
                | Inr p \<Rightarrow>
                    (case toml_to_string t (p\<lparr>pi_cert_pem := from_utf8_lossy cert_pem, pi_key_pem := from_utf8_lossy key_pem,
                                              pi_cert_issued_at := issued_at\<rparr>) of
                       Inl e \<Rightarrow> (Inl (Other (''config encode: '' @ e)), [d])
                     | Inr s \<Rightarrow> write_private io pid path s d))))"

subsection \<open>Paths of the other files\<close>

text \<open>Both other files have a name of their own.\<close>

lemma last_part_no_slash: "CHR ''/'' \<notin> set (last_part p)"
  by (auto simp: last_part_def dest: set_takeWhileD)

lemma ends_with_snoc: "ends_with s (q @ [c]) \<Longrightarrow> s \<noteq> [] \<and> last s = c"
  by (metis append_take_drop_id append_is_Nil_conv ends_with_def last_appendR last_snoc list.distinct(1))

lemma ends_with_push:
  assumes "n \<noteq> []" and "last n \<noteq> CHR ''/''" and "last n \<noteq> CHR ''.''"
  shows "\<not> ends_with (dir @ n) ''/''" and "\<not> ends_with (dir @ n) ''/.''"
  using ends_with_snoc [of "dir @ n" "[]" "CHR ''/''"] ends_with_snoc [of "dir @ n" "''/''" "CHR ''.''"] assms by auto

text \<open>A plain name that is put into a directory is the last part of the path.\<close>

lemma last_part_push:
  assumes "n \<noteq> []" and "last n \<noteq> CHR ''/''" and "last n \<noteq> CHR ''.''" and "CHR ''/'' \<notin> set n"
  shows "last_part (push_path dir n) = n"
proof -
  obtain d where d: "push_path dir n = d @ n" "d = [] \<or> (\<exists>e. d = e @ ''/'')"
  proof (cases "dir = [] \<or> ends_with dir ''/''")
    case True
    then have "dir = [] \<or> (\<exists>e. dir = e @ ''/'')"
      by (metis append_take_drop_id ends_with_def)
    then show thesis using that [of dir] True by (simp add: push_path_def)
  next
    case False
    then show thesis using that [of "dir @ ''/''"] by (simp add: push_path_def)
  qed
  have "strip_path_end (d @ n) = d @ n"
    by (subst strip_path_end.simps) (simp add: ends_with_push [OF assms(1-3)])
  moreover have "takeWhile (\<lambda>c. c \<noteq> CHR ''/'') (rev n @ rev d) = rev n"
    using d(2) assms(4) by (subst takeWhile_append2) auto
  ultimately show ?thesis by (simp add: last_part_def d(1))
qed

lemma longer_name:
  assumes "length (name_or_default p) < length n" and "last n \<noteq> CHR ''/''" and "last n \<noteq> CHR ''.''" and "CHR ''/'' \<notin> set n"
  shows "set_file_name p n \<noteq> p"
proof
  assume eq: "set_file_name p n = p"
  have n: "n \<noteq> []" using assms(1) by auto
  show False
  proof (cases "file_name p")
    case None
    then have "length p < length (set_file_name p n)" using n by (auto simp: set_file_name_def push_path_def)
    then show False using eq by simp
  next
    case (Some l)
    then have "last_part p = n" using last_part_push [OF n assms(2-4), of "before_last p"] eq by (simp add: set_file_name_def)
    moreover have "l = last_part p" using Some by (auto simp: file_name_def split: if_splits)
    ultimately show False using Some assms(1) by (simp add: name_or_default_def)
  qed
qed

lemma nat_dec_no_slash: "CHR ''/'' \<notin> set (nat_dec n)"
  using nat_dec_digit [of "CHR ''/''" n] by (auto simp: ascii_digit_def)

lemma name_no_slash: "CHR ''/'' \<notin> set (name_or_default p)"
  using last_part_no_slash [of p] by (auto simp: name_or_default_def file_name_def)

lemma other_paths: "temporary_path pid path \<noteq> path" "quarantine_path path \<noteq> path"
  unfolding temporary_path_def quarantine_path_def
  by (rule longer_name; simp add: name_no_slash nat_dec_no_slash)+

end
