(* ===== verification/Config_Props.thy ===== *)
theory Config_Props
  imports Config
begin

text \<open>
  What the configuration file promises: it is replaced as a whole or not at all, whatever fails and
  whenever the program is stopped; only its owner may read it; what was saved is loaded; a damaged file
  is put aside once.
\<close>

subsection \<open>Text of an identity\<close>

text \<open>The keys have their lengths, and the certificates are text.\<close>

definition identity_wf :: "identity \<Rightarrow> bool" where
  "identity_wf i \<longleftrightarrow>
     length (id_wg_private_key i) = 32 \<and> length (id_wg_peer_public_key i) = 32 \<and> length (id_client_id i) = 3 \<and>
     utf8_valid (id_cert_pem i) \<and> utf8_valid (id_key_pem i) \<and> \<not> id_refused i"

lemma restore_persist:
  assumes "b64_ok b" and "identity_wf i"
  shows "restore b (persist b i) = Inr i"
proof -
  have d: "decode_fixed b n f (b64_encode b x) = Inr x" if "length x = n" for n f x
    using assms(1) that by (simp add: decode_fixed_def b64_ok_def)
  have "b64_encode b (id_client_id i) \<noteq> []" using assms by (auto simp: b64_ok_def identity_wf_def)
  then show ?thesis
    using assms(2) by (simp add: restore_def persist_def identity_wf_def d from_utf8_lossy_def utf8_lossy_valid)
qed

lemma restore_wf: "restore b p = Inr i \<Longrightarrow>
    length (id_wg_private_key i) = 32 \<and> length (id_wg_peer_public_key i) = 32 \<and> length (id_client_id i) = 3"
  by (auto simp: restore_def decode_fixed_def Let_def res_bind_Inr_iff split: sum.splits if_splits)

subsection \<open>The file is replaced as a whole\<close>

definition written_file :: "string \<Rightarrow> file_entry" where
  "written_file s = \<lparr>fe_text = s, fe_mode = OWNER_ONLY\<rparr>"

text \<open>
  What holds of one state of the disk: apart from the temporary file everything is as before, except
  that the file itself may be the new one when the operation succeeds.
\<close>

definition old_or_new :: "string \<Rightarrow> string \<Rightarrow> bool \<Rightarrow> string \<Rightarrow> disk \<Rightarrow> disk \<Rightarrow> bool" where
  "old_or_new tmp path done s d d' \<longleftrightarrow>
     (\<forall>p. p \<noteq> tmp \<longrightarrow> d' p = d p \<or> (p = path \<and> done \<and> d' p = Some (written_file s)))"

lemma write_steps_states:
  assumes "write_steps io pid path s d = (r, ds)"
  shows "ds \<noteq> []" and "\<forall>d' \<in> set ds. old_or_new (temporary_path pid path) path (r = Inr ()) s d d'"
    and "r = Inr () \<Longrightarrow> hd ds path = Some (written_file s) \<and> hd ds (temporary_path pid path) = None"
    and "r \<noteq> Inr () \<Longrightarrow> hd ds path = d path"
  using assms other_paths(1) [of pid path]
  by (auto simp: write_steps_def Let_def old_or_new_def fs_rename_def written_file_def
      split: option.splits prod.splits if_splits)

lemma write_private_states:
  assumes "write_private io pid path s d = (r, ds)"
  shows "ds \<noteq> []" and "\<forall>d' \<in> set ds. old_or_new (temporary_path pid path) path (r = Inr ()) s d d'"
    and "r = Inr () \<Longrightarrow> hd ds path = Some (written_file s) \<and> hd ds (temporary_path pid path) = None"
    and "r \<noteq> Inr () \<Longrightarrow> hd ds path = d path"
    and "r \<noteq> Inr () \<Longrightarrow> ci_remove io = None \<Longrightarrow> d (temporary_path pid path) = None \<Longrightarrow> hd ds (temporary_path pid path) = None"
proof -
  obtain r' ds' where w: "write_steps io pid path s d = (r', ds')" by fastforce
  note st = write_steps_states [OF w]
  have hd: "old_or_new (temporary_path pid path) path (r' = Inr ()) s d (hd ds')" using st(1,2) by simp
  show "ds \<noteq> []" "\<forall>d' \<in> set ds. old_or_new (temporary_path pid path) path (r = Inr ()) s d d'"
    "r = Inr () \<Longrightarrow> hd ds path = Some (written_file s) \<and> hd ds (temporary_path pid path) = None"
    "r \<noteq> Inr () \<Longrightarrow> hd ds path = d path"
    "r \<noteq> Inr () \<Longrightarrow> ci_remove io = None \<Longrightarrow> d (temporary_path pid path) = None \<Longrightarrow> hd ds (temporary_path pid path) = None"
    using assms w st hd other_paths(1) [of pid path]
    by (auto simp: write_private_def old_or_new_def split: option.splits sum.splits)
qed

lemma write_private_ok:
  assumes "io = \<lparr>ci_read = None, ci_quarantine = None, ci_mkdir = None, ci_open = None, ci_write = None, ci_sync = None,
      ci_chmod = None, ci_rename = None, ci_remove = None\<rparr>"
  shows "fst (write_private io pid path s d) = Inr ()"
  by (simp add: write_private_def write_steps_def Let_def assms)

subsection \<open>Saving and loading\<close>

definition all_ok :: cfg_io where
  "all_ok = \<lparr>ci_read = None, ci_quarantine = None, ci_mkdir = None, ci_open = None, ci_write = None, ci_sync = None,
      ci_chmod = None, ci_rename = None, ci_remove = None\<rparr>"

lemma load_written:
  assumes "toml_from_str t s = Inr p" and "restore b p = Inr i" and "ci_read io = None" and "d path = Some (written_file s)"
  shows "load_identity t b io path d = (Inr (Some i), d)"
  using assms by (simp add: load_identity_def written_file_def)

text \<open>
  C24. Saving an identity, whatever system call fails: in every state that the disk goes through, so also
  after a crash, the file is the one that was there before or a complete new file that only its owner
  may read and from which exactly the saved identity is loaded; no file but the temporary one is
  touched. The new file is there when the operation succeeds, and the old one when it fails. It succeeds
  when no system call fails.
\<close>

theorem identity_save_atomic:
  assumes "toml_ok t" and "b64_ok b" and "identity_wf i" and "save_identity t b io pid path i d = (r, ds)"
  shows "(\<forall>d' \<in> set ds.
            (\<forall>p. p \<noteq> temporary_path pid path \<and> p \<noteq> path \<longrightarrow> d' p = d p) \<and>
            (d' path = d path \<or>
             (\<exists>f. d' path = Some f \<and> fe_mode f = OWNER_ONLY) \<and>
             load_identity t b all_ok path d' = (Inr (Some i), d'))) \<and>
         (if r = Inr () then load_identity t b all_ok path (hd ds) = (Inr (Some i), hd ds)
          else hd ds path = d path) \<and>
         (io = all_ok \<longrightarrow> r = Inr ())"
proof -
  obtain s where s: "toml_to_string t (persist b i) = Inr s" "toml_from_str t s = Inr (persist b i)"
    by (rule toml_okD [OF assms(1)])
  have w: "write_private io pid path s d = (r, ds)" using assms(4) s by (simp add: save_identity_def)
  note st = write_private_states [OF w]
  have load: "load_identity t b all_ok path d' = (Inr (Some i), d')" if "d' path = Some (written_file s)" for d'
    using load_written [OF s(2) restore_persist [OF assms(2,3)], of all_ok d' path] that by (simp add: all_ok_def)
  have "(\<forall>p. p \<noteq> temporary_path pid path \<and> p \<noteq> path \<longrightarrow> d' p = d p) \<and>
      (d' path = d path \<or>
       (\<exists>f. d' path = Some f \<and> fe_mode f = OWNER_ONLY) \<and> load_identity t b all_ok path d' = (Inr (Some i), d'))"
    if "d' \<in> set ds" for d'
  proof -
    have o: "old_or_new (temporary_path pid path) path (r = Inr ()) s d d'" using st(2) that by blast
    then have "d' path = d path \<or> d' path = Some (written_file s)"
      using other_paths(1) [of pid path] unfolding old_or_new_def by metis
    then show ?thesis using o load [of d'] by (auto simp: old_or_new_def written_file_def)
  qed
  moreover have "if r = Inr () then load_identity t b all_ok path (hd ds) = (Inr (Some i), hd ds) else hd ds path = d path"
    using st(3,4) load [of "hd ds"] by auto
  moreover have "io = all_ok \<longrightarrow> r = Inr ()"
    using write_private_ok [of io pid path s d] w by (auto simp: all_ok_def)
  ultimately show ?thesis by blast
qed

text \<open>A printer and a reader for the file, and an encoding of bytes, with which this is evaluated.\<close>

definition id_print :: "persisted_identity \<Rightarrow> string" where
  "id_print p =
     put_text (pi_device_id p) @ put_text (pi_access_token p) @ put_text (pi_cert_pem p) @
     put_text (pi_key_pem p) @ put_text (pi_ipv4 p) @ put_text (pi_ipv6 p) @
     put_text (pi_wg_private_key p) @ put_text (pi_wg_peer_public_key p) @ put_text (pi_client_id p) @
     put_text (pi_organization p) @ put_text (pi_gateway_proxy p) @ put_text (pi_assigned_endpoint p) @
     put_count (unat (pi_cert_issued_at p))"

definition id_read :: "string \<Rightarrow> persisted_identity" where
  "id_read s =
     (let (device_id, s) = take_text s;
          (access_token, s) = take_text s;
          (cert_pem, s) = take_text s;
          (key_pem, s) = take_text s;
          (ipv4, s) = take_text s;
          (ipv6, s) = take_text s;
          (wg_private_key, s) = take_text s;
          (wg_peer_public_key, s) = take_text s;
          (client_id, s) = take_text s;
          (organization, s) = take_text s;
          (gateway_proxy, s) = take_text s;
          (assigned_endpoint, s) = take_text s;
          (n, s) = take_count s
      in \<lparr>pi_device_id = device_id,
          pi_access_token = access_token,
          pi_cert_pem = cert_pem,
          pi_key_pem = key_pem,
          pi_cert_issued_at = of_nat n,
          pi_ipv4 = ipv4,
          pi_ipv6 = ipv6,
          pi_wg_private_key = wg_private_key,
          pi_wg_peer_public_key = wg_peer_public_key,
          pi_client_id = client_id,
          pi_organization = organization,
          pi_gateway_proxy = gateway_proxy,
          pi_assigned_endpoint = assigned_endpoint\<rparr>)"

definition id_lib :: "persisted_identity toml_lib" where
  "id_lib = \<lparr>toml_from_str = (\<lambda>s. Inr (id_read s)), toml_to_string = (\<lambda>p. Inr (id_print p))\<rparr>"

definition plain_b64 :: b64_lib where
  "plain_b64 = \<lparr>b64_encode = of_bytes, b64_decode = (\<lambda>s. Inr (as_bytes s))\<rparr>"

lemma id_lib_ok: "toml_ok id_lib"
proof -
  have "id_read (id_print p) = p" for p
    using take_put_count [of "unat (pi_cert_issued_at p)" "[]"] by (simp add: id_read_def id_print_def)
  then show ?thesis by (simp add: toml_ok_def id_lib_def)
qed

lemma plain_b64_ok: "b64_ok plain_b64"
  by (simp add: b64_ok_def plain_b64_def) (simp add: of_bytes_def)

definition sample_identity :: identity where
  "sample_identity =
     \<lparr>id_device_id = ''device-1'', id_access_token = ''token-1'', id_cert_pem = [45, 45], id_key_pem = [45],
      id_cert_issued_at = 1700000000, id_ipv4 = ''172.16.0.2'', id_ipv6 = ''2606:4700::2'',
      id_wg_private_key = replicate 32 7, id_wg_peer_public_key = replicate 32 9, id_client_id = [1, 2, 3],
      id_organization = ''example-team'', id_gateway_proxy = ''172.16.0.1:2480'',
      id_assigned_endpoint = ''162.159.197.2'', id_refused = False\<rparr>"

theorem identity_save_atomic_witness:
  "toml_ok id_lib \<and> b64_ok plain_b64 \<and> identity_wf sample_identity \<and>
   (case save_identity id_lib plain_b64 all_ok 7 ''aether.toml'' sample_identity (\<lambda>_. None) of
      (r, ds) \<Rightarrow> r = Inr () \<and> load_identity id_lib plain_b64 all_ok ''aether.toml'' (hd ds) = (Inr (Some sample_identity), hd ds))"
proof -
  have wf: "identity_wf sample_identity" by (simp add: identity_wf_def sample_identity_def)
  obtain r ds where s: "save_identity id_lib plain_b64 all_ok 7 ''aether.toml'' sample_identity (\<lambda>_. None) = (r, ds)"
    by fastforce
  show ?thesis using identity_save_atomic [OF id_lib_ok plain_b64_ok wf s] id_lib_ok plain_b64_ok wf by (auto simp: s)
qed

text \<open>
  New credentials replace the old ones and nothing else: what is loaded afterwards is the old identity
  with the new certificate, key and time.
\<close>

lemma creds_replaced:
  assumes "toml_ok t" and "d path = Some f" and "toml_from_str t (fe_text f) = Inr p" and "restore b p = Inr i"
    and "utf8_valid cert" and "utf8_valid key" and "save_masque_creds t all_ok pid path cert key at_time d = (r, ds)"
  shows "load_identity t b all_ok path (hd ds) =
    (Inr (Some (i\<lparr>id_cert_pem := cert, id_key_pem := key, id_cert_issued_at := at_time\<rparr>)), hd ds)"
proof -
  let ?p = "p\<lparr>pi_cert_pem := from_utf8_lossy cert, pi_key_pem := from_utf8_lossy key, pi_cert_issued_at := at_time\<rparr>"
  obtain s where s: "toml_to_string t ?p = Inr s" "toml_from_str t s = Inr ?p" by (rule toml_okD [OF assms(1)])
  have w: "write_private all_ok pid path s d = (r, ds)"
    using assms(2,3,7) s by (simp add: save_masque_creds_def all_ok_def)
  have "r = Inr ()" using write_private_ok [of all_ok pid path s d] w by (simp add: all_ok_def)
  moreover have "restore b ?p = Inr (i\<lparr>id_cert_pem := cert, id_key_pem := key, id_cert_issued_at := at_time\<rparr>)"
    using assms(4-6) by (auto simp: restore_def res_bind_Inr_iff Let_def from_utf8_lossy_def utf8_lossy_valid)
  ultimately show ?thesis
    using write_private_states(3) [OF w] by (intro load_written [OF s(2)]) (simp_all add: all_ok_def)
qed

text \<open>
  A file that cannot be read as an identity is an error once: it is moved aside with its text, and the
  next time there is no file.
\<close>

lemma damaged_once:
  assumes "d path = Some f" and "case toml_from_str t (fe_text f) of Inl e \<Rightarrow> True | Inr p \<Rightarrow> \<exists>e. restore b p = Inl e"
    and "load_identity t b all_ok path d = (r, d')"
  shows "\<exists>e. r = Inl e" and "d' path = None" and "d' (quarantine_path path) = Some f"
    and "load_identity t b io path d' = (Inr None, d')"
  using assms other_paths(2) [of path]
  by (auto simp: load_identity_def quarantine_def all_ok_def fs_rename_def split: sum.splits)

end
