(* ===== verification/Egress.thy ===== *)
theory Egress
  imports Ip_Text Fragment
begin

text \<open>
  \<^verbatim>\<open>egress.rs\<close>: the firewall mark of the sockets that leave the machine, on Linux and Android. The mark is
  process state; what the system answers is an argument; an operation returns the calls it made, so that
  the mark is shown to be set before a socket is used.
\<close>

subsection \<open>The mark\<close>

fun parse_digits_radix :: "nat \<Rightarrow> nat \<Rightarrow> string \<Rightarrow> nat option" where
  "parse_digits_radix radix acc [] = Some acc"
| "parse_digits_radix radix acc (c # cs) =
     (case digit_val radix c of None \<Rightarrow> None | Some d \<Rightarrow> parse_digits_radix radix (radix * acc + d) cs)"

text \<open>\<^verbatim>\<open>u32::from_str_radix\<close>, which also takes a plus sign.\<close>

definition u32_from_str_radix :: "nat \<Rightarrow> string \<Rightarrow> u32 option" where
  "u32_from_str_radix radix s =
     (let ds = (case s of c # d # r \<Rightarrow> if c = CHR ''+'' then d # r else s | _ \<Rightarrow> s)
      in if ds = [] then None
         else (case parse_digits_radix radix 0 ds of
                 Some n \<Rightarrow> if n < 2 ^ 32 then Some (of_nat n) else None
               | None \<Rightarrow> None))"

definition parse_mark :: "string \<Rightarrow> u32 option" where
  "parse_mark raw =
     (let t = trim raw;
          hex = (case strip_prefix t ''0x'' of Some h \<Rightarrow> Some h | None \<Rightarrow> strip_prefix t ''0X'')
      in case hex of
           Some h \<Rightarrow> u32_from_str_radix 16 h
         | None \<Rightarrow> map_option of_nat (parse_uint (2 ^ 32 - 1) t))"

text \<open>The probe socket: the error of its creation, and of setting the mark.\<close>

record mark_probe =
  mp_socket :: "string option"
  mp_set :: "u32 \<Rightarrow> string option"

definition hex_mark :: "u32 \<Rightarrow> string" where
  "hex_mark m = ''0x'' @ nat_hex (unat m)"

definition egress_init :: "env \<Rightarrow> mark_probe \<Rightarrow> u32 \<Rightarrow> unit result \<times> u32" where
  "egress_init env probe mark =
     (case (case env ''AETHER_MARK'' of Some v \<Rightarrow> if trim v = [] then None else Some v | None \<Rightarrow> None) of
        None \<Rightarrow> (Inr (), 0)
      | Some raw \<Rightarrow>
          (case parse_mark raw of
             None \<Rightarrow> (Inl (Other ([CHR 0x27] @ trim raw @ [CHR 0x27] @ '' is not a socket mark; give a number such as 255 or 0xff'')), mark)
           | Some m \<Rightarrow>
               if m = 0 then (Inr (), 0)
               else (case mp_socket probe of
                       Some e \<Rightarrow> (Inl (Io e), mark)
                     | None \<Rightarrow>
                         (case mp_set probe m of
                            Some e \<Rightarrow> (Inl (Other (''cannot mark sockets with '' @ hex_mark m @ '': '' @ e @
                                        ''; marking needs root or CAP_NET_ADMIN'')), mark)
                          | None \<Rightarrow> (Inr (), m)))))"

subsection \<open>Sockets\<close>

datatype socket_call = NewSocket bool | SetMark u32 | Connect socket_addr | SetNonblocking | Bind socket_addr

text \<open>What the system gives for a call: an error or not.\<close>

type_synonym socket_sys = "socket_call \<Rightarrow> string option"

definition is_v4 :: "socket_addr \<Rightarrow> bool" where
  "is_v4 a = (case sa_ip a of V4 _ \<Rightarrow> True | V6 _ \<Rightarrow> False)"

text \<open>Calls one after the other until one fails; the calls that were made, and the error.\<close>

fun run_calls :: "socket_sys \<Rightarrow> socket_call list \<Rightarrow> socket_call list \<times> string option" where
  "run_calls sys [] = ([], None)"
| "run_calls sys (c # cs) =
     (case sys c of
        Some e \<Rightarrow> ([c], Some e)
      | None \<Rightarrow> (case run_calls sys cs of (made, r) \<Rightarrow> (c # made, r)))"

definition apply_mark :: "u32 \<Rightarrow> socket_call list" where
  "apply_mark mark = (if mark \<noteq> 0 then [SetMark mark] else [])"

definition tcp_connect :: "u32 \<Rightarrow> socket_sys \<Rightarrow> socket_addr \<Rightarrow> socket_call list \<times> string option" where
  "tcp_connect mark sys address =
     run_calls sys ([NewSocket (is_v4 address)] @ apply_mark mark @ [Connect address])"

definition udp_bind :: "u32 \<Rightarrow> socket_sys \<Rightarrow> socket_addr \<Rightarrow> socket_call list \<times> string option" where
  "udp_bind mark sys address =
     run_calls sys ([NewSocket (is_v4 address)] @ apply_mark mark @ [SetNonblocking, Bind address])"

fun connect_any :: "u32 \<Rightarrow> (nat \<Rightarrow> socket_sys) \<Rightarrow> string \<Rightarrow> string option \<Rightarrow> nat \<Rightarrow> socket_addr list \<Rightarrow> string + socket_addr" where
  "connect_any mark sys host last_error n [] =
     Inl (case last_error of Some e \<Rightarrow> e | None \<Rightarrow> host @ '' did not resolve to any address'')"
| "connect_any mark sys host last_error n (a # as) =
     (case snd (tcp_connect mark (sys n) a) of
        None \<Rightarrow> Inr a
      | Some e \<Rightarrow> connect_any mark sys host (Some e) (Suc n) as)"

definition tcp_connect_host :: "u32 \<Rightarrow> (nat \<Rightarrow> socket_sys) \<Rightarrow> string \<Rightarrow> string + socket_addr list \<Rightarrow> string + socket_addr" where
  "tcp_connect_host mark sys host found =
     (case found of Inl e \<Rightarrow> Inl e | Inr addresses \<Rightarrow> connect_any mark sys host None 0 addresses)"

subsection \<open>Facts\<close>

lemma run_calls_prefix: "\<exists>rest. cs = fst (run_calls sys cs) @ rest"
  by (induction cs) (auto split: option.splits prod.splits)

text \<open>
  With a mark no socket is connected or bound that does not carry it: the call before says so.
\<close>

lemma marked_before_use:
  assumes "mark \<noteq> 0"
  shows "Connect a \<in> set (fst (tcp_connect mark sys address)) \<Longrightarrow>
      fst (tcp_connect mark sys address) = [NewSocket (is_v4 address), SetMark mark, Connect address]"
    and "Bind a \<in> set (fst (udp_bind mark sys address)) \<Longrightarrow>
      fst (udp_bind mark sys address) = [NewSocket (is_v4 address), SetMark mark, SetNonblocking, Bind address]"
  using assms by (auto simp: tcp_connect_def udp_bind_def apply_mark_def split: option.splits prod.splits)

text \<open>A failed setup keeps the mark that was there; a setup that succeeds has the mark that was asked for.\<close>

lemma egress_init_mark:
  "case egress_init env probe mark of
     (Inl e, m) \<Rightarrow> m = mark
   | (Inr _, m) \<Rightarrow>
       m = (case env ''AETHER_MARK'' of
              None \<Rightarrow> 0
            | Some v \<Rightarrow> if trim v = [] then 0 else (case parse_mark v of Some x \<Rightarrow> x | None \<Rightarrow> m))"
  by (auto simp: egress_init_def split: option.splits)

text \<open>The first address that accepts is used, and its predecessors have all failed.\<close>

lemma connect_any_first:
  "connect_any mark sys host e n as = Inr a \<longleftrightarrow>
     (\<exists>i < length as. a = as ! i \<and> snd (tcp_connect mark (sys (n + i)) a) = None \<and>
        (\<forall>j < i. snd (tcp_connect mark (sys (n + j)) (as ! j)) \<noteq> None))"
proof (induction as arbitrary: e n)
  case (Cons b as)
  show ?case
  proof (cases "snd (tcp_connect mark (sys n) b)")
    case None
    then show ?thesis by (auto simp: nth_Cons' intro: exI [of _ 0])
  next
    case (Some err)
    then have "connect_any mark sys host e n (b # as) = connect_any mark sys host (Some err) (Suc n) as" by simp
    moreover have "(\<exists>i < length (b # as). a = (b # as) ! i \<and> snd (tcp_connect mark (sys (n + i)) a) = None \<and>
          (\<forall>j < i. snd (tcp_connect mark (sys (n + j)) ((b # as) ! j)) \<noteq> None)) \<longleftrightarrow>
        (\<exists>i < length as. a = as ! i \<and> snd (tcp_connect mark (sys (Suc n + i)) a) = None \<and>
          (\<forall>j < i. snd (tcp_connect mark (sys (Suc n + j)) (as ! j)) \<noteq> None))"
      using Some by (auto simp: Ex_less_Suc2 All_less_Suc2)
    ultimately show ?thesis using Cons.IH by simp
  qed
qed simp

end
