(* ===== verification/Hops.thy ===== *)
theory Hops
  imports Wg_Prober_Props Tunnelping
begin

text \<open>
  \<^verbatim>\<open>lib.rs\<close>, the choice of endpoints for the two hops of a nested tunnel: what the settings name, the
  second gateway that is tried inside the first tunnel, and the sizes of its datagrams. Random draws are
  arguments.
\<close>

subsection \<open>Sizes\<close>

definition parse_local_v4 :: "string \<Rightarrow> ipv4_addr" where
  "parse_local_v4 s =
     (case parse_ipv4 (takeWhile (\<lambda>c. c \<noteq> CHR ''/'') s) of Some a \<Rightarrow> a | None \<Rightarrow> 0)"

definition TUNNEL_MTU :: nat where "TUNNEL_MTU = 1280"
definition INNER_MTU :: nat where "INNER_MTU = 1200"
definition H2_TUNNEL_MTU :: nat where "H2_TUNNEL_MTU = 1500"
definition MAX_DATAGRAM_SIZE :: nat where "MAX_DATAGRAM_SIZE = 1350"
definition MIN_DATAGRAM_SIZE :: nat where "MIN_DATAGRAM_SIZE = 1200"
definition MASQUE_DATAGRAM_OVERHEAD :: nat where "MASQUE_DATAGRAM_OVERHEAD = MAX_DATAGRAM_SIZE - TUNNEL_MTU"

definition masque_tunnel_mtu :: "env \<Rightarrow> nat" where
  "masque_tunnel_mtu env =
     (case Option.bind (env ''AETHER_MASQUE_MTU'') (\<lambda>v. parse_uint usize_max (trim v)) of
        Some mtu \<Rightarrow>
          if 576 \<le> mtu \<and> mtu \<le> 1500 then mtu
          else if h2_enabled_env env then H2_TUNNEL_MTU else TUNNEL_MTU
      | None \<Rightarrow> if h2_enabled_env env then H2_TUNNEL_MTU else TUNNEL_MTU)"

definition clamp :: "nat \<Rightarrow> nat \<Rightarrow> nat \<Rightarrow> nat" where
  "clamp lo hi n = (if n < lo then lo else if hi < n then hi else n)"

definition is_ipv4 :: "socket_addr \<Rightarrow> bool" where
  "is_ipv4 a = (case sa_ip a of V4 _ \<Rightarrow> True | V6 _ \<Rightarrow> False)"

text \<open>The size of the datagrams of the inner tunnel, and the MTU inside it.\<close>

definition mim_inner_budget :: "nat \<Rightarrow> socket_addr \<Rightarrow> bool \<Rightarrow> nat \<times> nat" where
  "mim_inner_budget outer_mtu inner_peer h2 =
     (if h2 then (MAX_DATAGRAM_SIZE, clamp 576 1500 (outer_mtu - 100))
      else let headers = (if is_ipv4 inner_peer then 28 else 48);
               datagram = clamp MIN_DATAGRAM_SIZE MAX_DATAGRAM_SIZE (outer_mtu - headers)
           in (datagram, clamp 576 1500 (datagram - MASQUE_DATAGRAM_OVERHEAD)))"

subsection \<open>Endpoints named in the settings\<close>

definition WG_EXAMPLE_PORT :: u16 where "WG_EXAMPLE_PORT = 2408"

record wiw_endpoints =
  we_outer :: "socket_addr option"
  we_inner :: "socket_addr option"

definition no_endpoints :: wiw_endpoints where
  "no_endpoints = \<lparr>we_outer = None, we_inner = None\<rparr>"

definition endpoints_empty :: "wiw_endpoints \<Rightarrow> bool" where
  "endpoints_empty w \<longleftrightarrow> we_outer w = None \<and> we_inner w = None"

definition checked :: "wiw_endpoints \<Rightarrow> wiw_endpoints result" where
  "checked w =
     (case (we_outer w, we_inner w) of
        (Some outer, Some inner) \<Rightarrow>
          if sa_ip outer = sa_ip inner
          then Inl (Other (''the two hops need separate edges, but both point at '' @ ip_to_string (sa_ip outer)))
          else Inr w
      | _ \<Rightarrow> Inr w)"

definition bracketed_ip :: "string \<Rightarrow> ip_addr option" where
  "bracketed_ip text =
     (case text of
        CHR ''['' # rest \<Rightarrow> if rest \<noteq> [] \<and> last rest = CHR '']'' then parse_ip (butlast rest) else None
      | _ \<Rightarrow> None)"

definition portless :: "string \<Rightarrow> ip_addr option" where
  "portless text = (case parse_ip text of Some a \<Rightarrow> Some a | None \<Rightarrow> bracketed_ip text)"

definition parse_endpoint :: "string \<Rightarrow> socket_addr result" where
  "parse_endpoint raw =
     (let text = trim raw
      in case parse_socket_addr text of
           Some peer \<Rightarrow> Inr peer
         | None \<Rightarrow>
             (case portless text of
                Some address \<Rightarrow>
                  Inl (Other (text @ '' carries no port, and the port is required; write it out, as in '' @
                         socket_addr_to_string \<lparr>sa_ip = address, sa_port = WG_EXAMPLE_PORT\<rparr>))
              | None \<Rightarrow>
                  Inl (Other ([CHR 0x27] @ text @ [CHR 0x27] @
                         '' is not an endpoint; write an address and a port together, such as 162.159.192.1:'' @
                         nat_dec (unat WG_EXAMPLE_PORT)))))"

fun parse_parts :: "socket_addr list \<Rightarrow> string list \<Rightarrow> socket_addr list result" where
  "parse_parts peers [] = Inr peers"
| "parse_parts peers (part # parts) =
     (if trim part = [] then parse_parts peers parts
      else res_bind (parse_endpoint part) (\<lambda>p. parse_parts (peers @ [p]) parts))"

definition parse_endpoint_list :: "string \<Rightarrow> socket_addr list result" where
  "parse_endpoint_list raw =
     res_bind (parse_parts [] (split_chars (\<lambda>c. c \<in> {CHR '','', CHR '';'', CHR '' ''}) raw))
       (\<lambda>peers.
          if length peers = 0 then Inl (Other ''no endpoint was given; expected one or two addresses'')
          else if length peers \<le> 2 then Inr peers
          else Inl (Other (''warp-in-warp has two hops, but '' @ nat_dec (length peers) @ '' addresses were given'')))"

definition env_value :: "env \<Rightarrow> env" where
  "env_value env key =
     (case env key of None \<Rightarrow> None | Some v \<Rightarrow> let v = trim v in if v = [] then None else Some v)"

definition scan_keyword :: "string \<Rightarrow> bool" where
  "scan_keyword value \<longleftrightarrow> to_lowercase value \<in> {''auto'', ''scan'', ''none'', ''off'', ''0''}"

definition wiw_scan_requested :: "env \<Rightarrow> bool" where
  "wiw_scan_requested lookup =
     (case lookup ''AETHER_WIW_PEERS'' of
        Some value \<Rightarrow> to_lowercase value \<in> {''auto'', ''scan'', ''none'', ''off'', ''0''}
      | None \<Rightarrow> False)"

definition listed_hops :: "env \<Rightarrow> string \<Rightarrow> wiw_endpoints result" where
  "listed_hops lookup list_key =
     (case lookup list_key of
        None \<Rightarrow> Inr no_endpoints
      | Some hops \<Rightarrow>
          if scan_keyword hops then Inr no_endpoints
          else res_bind (parse_endpoint_list hops)
                 (\<lambda>peers. Inr \<lparr>we_outer = get_at peers 0, we_inner = get_at peers 1\<rparr>))"

definition nested_endpoints_of :: "env \<Rightarrow> string \<Rightarrow> string \<Rightarrow> string \<Rightarrow> wiw_endpoints result" where
  "nested_endpoints_of lookup list_key outer_key inner_key =
     res_bind (listed_hops lookup list_key) (\<lambda>chosen.
     res_bind (case lookup outer_key of
                 None \<Rightarrow> Inr chosen
               | Some value \<Rightarrow> res_bind (parse_endpoint value) (\<lambda>p. Inr (chosen\<lparr>we_outer := Some p\<rparr>))) (\<lambda>chosen.
     res_bind (case lookup inner_key of
                 None \<Rightarrow> Inr chosen
               | Some value \<Rightarrow> res_bind (parse_endpoint value) (\<lambda>p. Inr (chosen\<lparr>we_inner := Some p\<rparr>)))
       checked))"

definition wiw_endpoints_of :: "env \<Rightarrow> wiw_endpoints result" where
  "wiw_endpoints_of lookup =
     nested_endpoints_of lookup ''AETHER_WIW_PEERS'' ''AETHER_WIW_OUTER_PEER'' ''AETHER_WIW_INNER_PEER''"

definition mim_endpoints_of :: "env \<Rightarrow> wiw_endpoints result" where
  "mim_endpoints_of lookup =
     nested_endpoints_of lookup ''AETHER_MIM_PEERS'' ''AETHER_MIM_OUTER_PEER'' ''AETHER_MIM_INNER_PEER''"

definition wiw_endpoints_with_fallback :: "env \<Rightarrow> wiw_endpoints result" where
  "wiw_endpoints_with_fallback lookup =
     res_bind (wiw_endpoints_of lookup) (\<lambda>chosen.
       if we_outer chosen \<noteq> None then Inr chosen
       else (case (case lookup ''AETHER_WG_PEER'' of Some v \<Rightarrow> Some v | None \<Rightarrow> lookup ''AETHER_PEER'') of
               None \<Rightarrow> Inr chosen
             | Some forced \<Rightarrow>
                 res_bind (parse_endpoint_list forced) (\<lambda>peers.
                   let chosen = chosen\<lparr>we_outer := get_at peers 0\<rparr>;
                       chosen = (if we_inner chosen = None then chosen\<lparr>we_inner := get_at peers 1\<rparr> else chosen)
                   in checked chosen)))"

subsection \<open>The second gateway of a nested tunnel\<close>

definition MASQUE_INNER_PORT :: u16 where "MASQUE_INNER_PORT = 443"
definition MIM_INNER_TRIES :: nat where "MIM_INNER_TRIES = 6"

definition MASQUE_VERIFIED_GATEWAYS :: "string list" where
  "MASQUE_VERIFIED_GATEWAYS = [''162.159.199.1'', ''162.159.199.2'', ''162.159.198.2'', ''162.159.198.1'']"

definition MASQUE_ALT_PORTS :: "u16 list" where "MASQUE_ALT_PORTS = [1701, 8095, 500, 4500]"

definition edge_network :: "ip_addr \<Rightarrow> bytes option" where
  "edge_network ip = (case ip of V4 v \<Rightarrow> Some (take 3 (v4_octets v)) | V6 _ \<Rightarrow> None)"

definition verified_scan_selected :: "env \<Rightarrow> (string \<times> ip_scan) option \<Rightarrow> bool" where
  "verified_scan_selected env settings =
     (let named = (case settings of
                     Some (mode, _) \<Rightarrow> mode
                   | None \<Rightarrow> (case env ''AETHER_SCAN'' of Some v \<Rightarrow> v | None \<Rightarrow> []))
      in scan_mode_parse named = Verified)"

definition swap_at :: "nat \<Rightarrow> nat \<Rightarrow> 'a list \<Rightarrow> 'a list" where
  "swap_at i j xs = xs[i := xs ! j, j := xs ! i]"

definition position :: "('a \<Rightarrow> bool) \<Rightarrow> 'a list \<Rightarrow> nat option" where
  "position P xs = find (\<lambda>i. P (xs ! i)) [0..<length xs]"

definition spread_hops :: "socket_addr list \<Rightarrow> socket_addr list" where
  "spread_hops found =
     (if length found < 2 then found
      else let network = edge_network (sa_ip (found ! 0))
           in case position (\<lambda>peer. edge_network (sa_ip peer) \<noteq> network) found of
                Some other \<Rightarrow> if 1 \<le> other then swap_at 1 other found else found
              | None \<Rightarrow> found)"

text \<open>The set \<^verbatim>\<open>seen\<close> of the code holds exactly the peers of \<^verbatim>\<open>out\<close>.\<close>

definition ladder_push :: "socket_addr \<Rightarrow> ip_addr \<times> u16 \<Rightarrow> socket_addr list \<Rightarrow> socket_addr list" where
  "ladder_push outer c out =
     (case c of (ip, port) \<Rightarrow>
        let peer = \<lparr>sa_ip = ip, sa_port = port\<rparr>
        in if ip \<noteq> sa_ip outer \<and> peer \<notin> set out then out @ [peer] else out)"

definition verified_ips :: "ip_addr list" where
  "verified_ips = List.map_filter parse_ip MASQUE_VERIFIED_GATEWAYS"

definition ladder_rungs :: "socket_addr \<Rightarrow> (ip_addr \<times> u16) list" where
  "ladder_rungs outer =
     map (\<lambda>ip. (ip, MASQUE_INNER_PORT)) (filter (\<lambda>ip. edge_network ip \<noteq> edge_network (sa_ip outer)) verified_ips) @
     map (\<lambda>ip. (ip, MASQUE_INNER_PORT)) verified_ips @
     concat (map (\<lambda>port. map (\<lambda>ip. (ip, port)) verified_ips) MASQUE_ALT_PORTS)"

definition masque_verified_ladder :: "socket_addr \<Rightarrow> nat \<Rightarrow> socket_addr list" where
  "masque_verified_ladder outer count =
     (if \<not> is_ipv4 outer then []
      else take (max count 1) (fold (ladder_push outer) (ladder_rungs outer) []))"

text \<open>
  The hosts of the range in random order: the swaps go from the last index down to 1, and the draw for
  index \<open>i\<close> is at most \<open>i\<close>. None when draws are missing.
\<close>

fun shuffle_down :: "nat \<Rightarrow> nat list \<Rightarrow> 'a list \<Rightarrow> 'a list option" where
  "shuffle_down 0 draws xs = Some xs"
| "shuffle_down (Suc i) [] xs = None"
| "shuffle_down (Suc i) (d # draws) xs =
     (if d \<le> Suc i then shuffle_down i draws (swap_at (Suc i) d xs) else None)"

definition sibling_hosts :: "u8 \<Rightarrow> u8 list" where
  "sibling_hosts own = filter (\<lambda>host. host \<noteq> own) (map of_nat [1..<255])"

definition sibling_v4 :: "ipv4_addr \<Rightarrow> u8 \<Rightarrow> socket_addr" where
  "sibling_v4 a host =
     (let octets = v4_octets a
      in \<lparr>sa_ip = V4 (v4_new (octets ! 0) (octets ! 1) (octets ! 2) host), sa_port = MASQUE_INNER_PORT\<rparr>)"

definition sibling_v6 :: "ipv6_addr \<Rightarrow> u16 \<Rightarrow> socket_addr" where
  "sibling_v6 a candidate =
     \<lparr>sa_ip = V6 (v6_of_groups ((v6_segments a)[7 := candidate])), sa_port = MASQUE_INNER_PORT\<rparr>"

text \<open>The draws of \<^verbatim>\<open>random_range(1..=u16::MAX)\<close>, in order.\<close>

fun sibling_v6_loop :: "ipv6_addr \<Rightarrow> nat \<Rightarrow> u16 set \<Rightarrow> socket_addr list \<Rightarrow> u16 list \<Rightarrow> socket_addr list option" where
  "sibling_v6_loop a count seen out [] =
     (if length out < count \<and> card seen < count * 8 then None else Some out)"
| "sibling_v6_loop a count seen out (candidate # draws) =
     (if length out < count \<and> card seen < count * 8 then
        if candidate = v6_segments a ! 7 \<or> candidate \<in> seen then sibling_v6_loop a count seen out draws
        else sibling_v6_loop a count (insert candidate seen) (out @ [sibling_v6 a candidate]) draws
      else Some out)"

definition sibling_candidates :: "socket_addr \<Rightarrow> nat \<Rightarrow> nat list \<Rightarrow> u16 list \<Rightarrow> socket_addr list option" where
  "sibling_candidates outer count draws4 draws6 =
     (case sa_ip outer of
        V4 a \<Rightarrow>
          (let hosts = sibling_hosts (v4_octets a ! 3)
           in map_option (\<lambda>hs. map (sibling_v4 a) (take count hs)) (shuffle_down (length hosts - 1) draws4 hosts))
      | V6 a \<Rightarrow> sibling_v6_loop a count {} [] draws6)"

fun push_until :: "nat \<Rightarrow> socket_addr list \<Rightarrow> socket_addr list \<Rightarrow> socket_addr list" where
  "push_until count out [] = out"
| "push_until count out (peer # peers) =
     (if count \<le> length out then out
      else push_until count (if peer \<in> set out then out else out @ [peer]) peers)"

definition inner_masque_candidates ::
    "socket_addr \<Rightarrow> nat \<Rightarrow> bool \<Rightarrow> nat list \<Rightarrow> u16 list \<Rightarrow> socket_addr list option" where
  "inner_masque_candidates outer count verified draws4 draws6 =
     (let out = (if verified then push_missing [] (masque_verified_ladder outer (max (count - 2) 1)) else [])
      in map_option (\<lambda>siblings. take (max count 1) (push_until count out siblings))
           (sibling_candidates outer count draws4 draws6))"

end
