(* ===== verification/Hops_Props.thy ===== *)
theory Hops_Props
  imports Hops "HOL-Library.Multiset"
begin

text \<open>
  What the choice of hops promises: the named hops and the candidates for the inner hop never stand on
  the address of the outer one, and an inner datagram fits into the outer tunnel.
\<close>

subsection \<open>Sizes\<close>

text \<open>A datagram of the inner tunnel fits into a packet of the outer one as soon as QUIC's least does.\<close>

lemma inner_budget_fits:
  assumes "MIN_DATAGRAM_SIZE + (if is_ipv4 peer then 28 else 48) \<le> outer_mtu"
    and "mim_inner_budget outer_mtu peer False = (datagram, mtu)"
  shows "datagram + (if is_ipv4 peer then 28 else 48) \<le> outer_mtu" and "MIN_DATAGRAM_SIZE \<le> datagram"
    and "datagram \<le> MAX_DATAGRAM_SIZE" and "mtu + MASQUE_DATAGRAM_OVERHEAD = datagram"
  using assms
  by (auto simp: mim_inner_budget_def clamp_def MIN_DATAGRAM_SIZE_def MAX_DATAGRAM_SIZE_def
      MASQUE_DATAGRAM_OVERHEAD_def TUNNEL_MTU_def Let_def split: if_splits)

lemma masque_tunnel_mtu_bounds: "576 \<le> masque_tunnel_mtu env" "masque_tunnel_mtu env \<le> 1500"
  by (auto simp: masque_tunnel_mtu_def H2_TUNNEL_MTU_def TUNNEL_MTU_def split: option.splits)

subsection \<open>Named hops\<close>

definition separate :: "wiw_endpoints \<Rightarrow> bool" where
  "separate w \<longleftrightarrow> (\<forall>outer inner. we_outer w = Some outer \<longrightarrow> we_inner w = Some inner \<longrightarrow> sa_ip outer \<noteq> sa_ip inner)"

lemma checked_Inr: "checked w = Inr w' \<longleftrightarrow> w' = w \<and> separate w"
  by (auto simp: checked_def separate_def split: option.splits)

lemma nested_endpoints_separate: "nested_endpoints_of lookup l a b = Inr w \<Longrightarrow> separate w"
  by (auto simp: nested_endpoints_of_def res_bind_Inr_iff checked_Inr)

lemma wiw_fallback_separate: "wiw_endpoints_with_fallback lookup = Inr w \<Longrightarrow> separate w"
  unfolding wiw_endpoints_with_fallback_def wiw_endpoints_of_def
  by (auto simp: res_bind_Inr_iff checked_Inr Let_def dest: nested_endpoints_separate split: if_splits option.splits)

lemma separate_none: "we_outer w = None \<or> we_inner w = None \<Longrightarrow> separate w"
  by (auto simp: separate_def)

subsection \<open>Order of the hops of a scan\<close>

lemma mset_swap_at: "i < length xs \<Longrightarrow> j < length xs \<Longrightarrow> mset (swap_at i j xs) = mset xs"
  unfolding swap_at_def by (rule mset_swap)

lemma length_swap_at [simp]: "length (swap_at i j xs) = length xs"
  by (simp add: swap_at_def)

lemma position_SomeD: "position P xs = Some i \<Longrightarrow> i < length xs \<and> P (xs ! i) \<and> (\<forall>j < i. \<not> P (xs ! j))"
  by (auto simp: position_def find_Some_iff)

lemma spread_hops_cases:
  obtains "spread_hops found = found"
  | k where "1 \<le> k" and "k < length found" and "spread_hops found = swap_at 1 k found"
      and "edge_network (sa_ip (found ! k)) \<noteq> edge_network (sa_ip (found ! 0))"
proof (cases "length found < 2")
  case True
  then show ?thesis by (intro that(1)) (simp add: spread_hops_def)
next
  case long: False
  let ?other = "\<lambda>peer. edge_network (sa_ip peer) \<noteq> edge_network (sa_ip (found ! 0))"
  show ?thesis
  proof (cases "position ?other found")
    case None
    with long show ?thesis by (intro that(1)) (simp add: spread_hops_def Let_def)
  next
    case (Some k)
    have k: "k < length found" "?other (found ! k)"
      using position_SomeD [OF Some] by auto
    then have "k \<noteq> 0" by (intro notI) simp
    then have pos: "1 \<le> k" by simp
    with long Some have "spread_hops found = swap_at 1 k found" by (simp add: spread_hops_def Let_def)
    with pos k show ?thesis by (intro that(2))
  qed
qed

lemma spread_hops_mset: "mset (spread_hops found) = mset found"
  by (rule spread_hops_cases [of found]) (auto intro!: mset_swap_at)

text \<open>With at most two endpoints there is nothing to exchange.\<close>

lemma spread_hops_two:
  assumes "length found \<le> 2"
  shows "spread_hops found = found"
proof (rule spread_hops_cases [of found])
  fix k
  assume "1 \<le> k" "k < length found" "spread_hops found = swap_at 1 k found"
  moreover from this assms have "k = 1" by simp
  ultimately show ?thesis by (simp add: swap_at_def)
qed

text \<open>When some endpoint leaves the range of the first one, the second hop does.\<close>

lemma spread_hops_leaves_range:
  assumes "p \<in> set found" and "edge_network (sa_ip p) \<noteq> edge_network (sa_ip (hd found))"
  shows "2 \<le> length found" and "hd (spread_hops found) = hd found"
    and "edge_network (sa_ip (spread_hops found ! 1)) \<noteq> edge_network (sa_ip (hd found))"
proof -
  let ?other = "\<lambda>peer. edge_network (sa_ip peer) \<noteq> edge_network (sa_ip (found ! 0))"
  have ne: "found \<noteq> []" using assms(1) by auto
  then have hd: "hd found = found ! 0" by (simp add: hd_conv_nth)
  obtain i where i: "i < length found" "?other (found ! i)"
    using assms by (auto simp: in_set_conv_nth hd)
  then have "i \<noteq> 0" by (intro notI) simp
  with i show two: "2 \<le> length found" by simp
  obtain k where k: "position ?other found = Some k"
    using i by (cases "position ?other found") (auto simp: position_def find_None_iff)
  have k': "k < length found" "?other (found ! k)" using position_SomeD [OF k] by auto
  then have pos: "1 \<le> k" by (cases k) auto
  then have eq: "spread_hops found = swap_at 1 k found"
    using two k by (simp add: spread_hops_def Let_def)
  have "spread_hops found ! 1 = found ! k" and "spread_hops found ! 0 = found ! 0"
    using two k' pos by (auto simp: eq swap_at_def nth_list_update)
  moreover have "spread_hops found \<noteq> []" using ne by (simp add: eq swap_at_def)
  ultimately show "hd (spread_hops found) = hd found" 
    and "edge_network (sa_ip (spread_hops found ! 1)) \<noteq> edge_network (sa_ip (hd found))"
    using k' by (simp_all add: hd_conv_nth hd)
qed

subsection \<open>Candidates for the inner hop\<close>

lemma v4_octets_new [simp]: "v4_octets (v4_new a b c d) = [a, b, c, d]"
  unfolding v4_new_def by (rule v4_octets_be_word) simp

lemma pair_up_groups: "pair_up (concat (map (word_be 2) gs)) = gs"
  by (induction gs) (simp_all add: word_be_2, metis be_word_u16 word_be_2)

lemma v6_segments_groups: "length gs = 8 \<Longrightarrow> v6_segments (v6_of_groups gs) = gs"
proof -
  assume "length gs = 8"
  then have "length (concat (map (word_be 2) gs)) = 16" by (simp add: length_concat comp_def sum_list_triv)
  then have "v6_octets (v6_of_groups gs) = concat (map (word_be 2) gs)"
    unfolding v6_of_groups_def v6_octets_def using word_be_be_word [of "concat (map (word_be 2) gs)", where 'a = 128] by simp
  then show ?thesis by (simp add: v6_segments_def pair_up_groups)
qed

lemma length_pair_up [simp]: "length (pair_up bs) = length bs div 2"
  by (induction bs rule: pair_up.induct) auto

lemma length_v6_segments [simp]: "length (v6_segments a) = 8"
  by (simp add: v6_segments_def)

lemma sibling_v4_octets: "v4_octets b ! 3 = h" if "sa_ip (sibling_v4 a h) = V4 b"
  using that by (auto simp: sibling_v4_def Let_def)

lemma sibling_v4_inj: "inj (sibling_v4 a)"
  by (auto simp: inj_def sibling_v4_def Let_def dest: arg_cong [where f = v4_octets])

lemma sibling_v6_segments: "v6_segments (v6_of_groups ((v6_segments a)[7 := c])) = (v6_segments a)[7 := c]"
  by (rule v6_segments_groups) simp

lemma sibling_v6_ip: "sa_ip (sibling_v6 a c) = V6 a \<Longrightarrow> c = v6_segments a ! 7"
  using sibling_v6_segments [of a c] by (auto simp: sibling_v6_def dest: arg_cong [where f = "\<lambda>xs. xs ! 7"])

lemma sibling_v6_inj: "inj (sibling_v6 a)"
proof (rule injI)
  fix c d
  assume "sibling_v6 a c = sibling_v6 a d"
  then have "(v6_segments a)[7 := c] = (v6_segments a)[7 := d]"
    using sibling_v6_segments [of a] by (auto simp: sibling_v6_def) metis
  then have "(v6_segments a)[7 := c] ! 7 = (v6_segments a)[7 := d] ! 7" by simp
  then show "c = d" by simp
qed

lemma shuffle_down_mset:
  assumes "shuffle_down i draws xs = Some ys" and "i < length xs \<or> i = 0"
  shows "mset ys = mset xs"
  using assms by (induction i draws xs rule: shuffle_down.induct) (auto simp: mset_swap_at split: if_splits)

lemma shuffle_down_total:
  assumes "i \<le> length draws" and "\<forall>k < i. draws ! k \<le> i - k"
  shows "\<exists>ys. shuffle_down i draws xs = Some ys"
  using assms
proof (induction i draws xs rule: shuffle_down.induct)
  case (3 i d draws xs)
  have "d \<le> Suc i" using spec [OF 3(3), of 0] by simp
  moreover have "\<forall>k < i. draws ! k \<le> i - k"
  proof (intro allI impI)
    fix k assume "k < i"
    then show "draws ! k \<le> i - k" using spec [OF 3(3), of "Suc k"] by simp
  qed
  ultimately show ?case using 3(1,2) by simp
qed auto

lemma sibling_hosts_facts: "distinct (sibling_hosts own)" "own \<notin> set (sibling_hosts own)" "253 \<le> length (sibling_hosts own)"
proof -
  let ?all = "map of_nat [1..<255] :: u8 list"
  have "inj_on (of_nat :: nat \<Rightarrow> u8) {1..<255}"
    by (rule inj_on_inverseI [where g = unat]) (simp add: unsigned_of_nat take_bit_nat_eq_self)
  then have d: "distinct ?all" by (simp add: distinct_map)
  then show "distinct (sibling_hosts own)" by (simp add: sibling_hosts_def)
  show "own \<notin> set (sibling_hosts own)" by (simp add: sibling_hosts_def)
  have "length (filter (\<lambda>h. h = own) ?all) \<le> 1"
    using distinct_length_filter [OF d, of "\<lambda>h. h = own"] by (simp add: card_le_Suc0_iff_eq)
  then show "253 \<le> length (sibling_hosts own)"
    using sum_length_filter_compl [of "\<lambda>h. h = own" ?all] by (simp add: sibling_hosts_def)
qed

text \<open>The loop over the draws keeps \<^verbatim>\<open>seen\<close> in step with \<^verbatim>\<open>out\<close>, so the second bound never ends it.\<close>

lemma sibling_v6_loop_facts:
  assumes "sibling_v6_loop a n seen out draws = Some res"
    and "out = map (sibling_v6 a) cs" and "distinct cs" and "set cs = seen" and "v6_segments a ! 7 \<notin> seen"
    and "length out \<le> n"
  shows "\<exists>ds. res = map (sibling_v6 a) ds \<and> distinct ds \<and> v6_segments a ! 7 \<notin> set ds \<and> length ds = n"
  using assms
proof (induction a n seen out draws arbitrary: cs rule: sibling_v6_loop.induct)
  case (1 a n seen out)
  then have "card seen = length out" using distinct_card [of cs] by simp
  with 1 show ?case by (auto split: if_splits)
next
  case (2 a n seen out c draws)
  then have card: "card seen = length out" using distinct_card [of cs] by simp
  show ?case
  proof (cases "length out < n \<and> card seen < n * 8")
    case go: True
    show ?thesis
    proof (cases "c = v6_segments a ! 7 \<or> c \<in> seen")
      case True
      with go "2.prems" show ?thesis by (intro "2.IH"(1) [OF go True, of cs]) auto
    next
      case False
      with go "2.prems" show ?thesis by (intro "2.IH"(2) [OF go False, of "cs @ [c]"]) auto
    qed
  next
    case False
    with card "2.prems"(6) have "length out = n" by auto
    with False "2.prems" show ?thesis by auto
  qed
qed

definition siblings_of :: "socket_addr \<Rightarrow> socket_addr list \<Rightarrow> bool" where
  "siblings_of outer ps \<longleftrightarrow>
     distinct ps \<and> (\<forall>p \<in> set ps. sa_ip p \<noteq> sa_ip outer \<and> sa_port p = MASQUE_INNER_PORT \<and> is_ipv4 p = is_ipv4 outer \<and>
       edge_network (sa_ip p) = edge_network (sa_ip outer))"

lemma take_3_octets: "[v4_octets a ! 0, v4_octets a ! 1, v4_octets a ! 2] = take 3 (v4_octets a)"
  by (simp add: v4_octets_4 numeral_3_eq_3)

lemma sibling_candidates_facts:
  assumes "sibling_candidates outer n draws4 draws6 = Some ps"
  shows "siblings_of outer ps" and "length ps \<le> n" and "n \<le> 253 \<Longrightarrow> length ps = n"
proof -
  have "siblings_of outer ps \<and> length ps \<le> n \<and> (n \<le> 253 \<longrightarrow> length ps = n)"
  proof (cases "sa_ip outer")
    case (V4 a)
    define hosts where "hosts = sibling_hosts (v4_octets a ! 3)"
    obtain hs where hs: "shuffle_down (length hosts - 1) draws4 hosts = Some hs" and ps: "ps = map (sibling_v4 a) (take n hs)"
      using assms V4 by (auto simp: sibling_candidates_def hosts_def Let_def)
    have len: "253 \<le> length hosts" and own: "v4_octets a ! 3 \<notin> set hosts" and d: "distinct hosts"
      using sibling_hosts_facts [of "v4_octets a ! 3"] by (auto simp: hosts_def)
    have "mset hs = mset hosts" using shuffle_down_mset [OF hs] len by simp
    then have hs': "set hs = set hosts" "length hs = length hosts" "distinct hs"
      using d by (auto dest: mset_eq_setD mset_eq_length mset_eq_imp_distinct_iff)
    have "sa_ip p \<noteq> V4 a \<and> sa_port p = MASQUE_INNER_PORT \<and> is_ipv4 p \<and> edge_network (sa_ip p) = edge_network (V4 a)"
      if mem: "p \<in> set ps" for p
    proof -
      obtain h where h: "h \<in> set hosts" "p = sibling_v4 a h" using mem ps hs' by (auto dest: in_set_takeD)
      have "sa_ip p \<noteq> V4 a" using h own sibling_v4_octets [of a h a] by auto
      moreover have "edge_network (sa_ip p) = edge_network (V4 a)"
        using take_3_octets [of a] by (simp add: h sibling_v4_def edge_network_def Let_def numeral_3_eq_3)
      ultimately show ?thesis by (simp add: h sibling_v4_def is_ipv4_def Let_def)
    qed
    moreover have "distinct ps" using hs' sibling_v4_inj [of a] by (simp add: ps distinct_map inj_on_subset [OF _ subset_UNIV])
    ultimately show ?thesis using V4 hs' len by (auto simp: siblings_of_def is_ipv4_def ps)
  next
    case (V6 a)
    obtain ds where ds: "ps = map (sibling_v6 a) ds" "distinct ds" "v6_segments a ! 7 \<notin> set ds" "length ds = n"
      using sibling_v6_loop_facts [of a n "{}" "[]" draws6 ps "[]"] assms V6 by (auto simp: sibling_candidates_def)
    have "sa_ip (sibling_v6 a c) \<noteq> V6 a" if "c \<in> set ds" for c
      using that ds(3) sibling_v6_ip [of a c] by auto
    moreover have "distinct ps" using ds sibling_v6_inj [of a] by (simp add: distinct_map inj_on_subset [OF _ subset_UNIV])
    ultimately show ?thesis
      using V6 ds by (auto simp: siblings_of_def is_ipv4_def edge_network_def sibling_v6_def)
  qed
  then show "siblings_of outer ps" and "length ps \<le> n" and "n \<le> 253 \<Longrightarrow> length ps = n" by auto
qed

lemma push_until_eq:
  assumes "distinct ps"
  shows "push_until n out ps = out @ take (n - length out) (filter (\<lambda>p. p \<notin> set out) ps)"
  using assms
proof (induction n out ps rule: push_until.induct)
  case (2 n out p ps)
  show ?case
  proof (cases "n \<le> length out")
    case False
    then have "n - length out = Suc (n - Suc (length out))" by simp
    moreover have "filter (\<lambda>q. q \<notin> set (out @ [p])) ps = filter (\<lambda>q. q \<notin> set out) ps"
      using 2 by (intro filter_cong) auto
    ultimately show ?thesis using False 2 by (auto simp del: set_append)
  qed simp
qed simp

lemma verified_ips_eq: "verified_ips = [V4 0xa29fc701, V4 0xa29fc702, V4 0xa29fc602, V4 0xa29fc601]"
  unfolding verified_ips_def MASQUE_VERIFIED_GATEWAYS_def by (simp add: List.map_filter_simps ip_read)

lemma ladder_fold:
  assumes "\<forall>(ip, port) \<in> set cs. is_ipv4 \<lparr>sa_ip = ip, sa_port = port\<rparr>"
    and "distinct out" and "\<forall>p \<in> set out. sa_ip p \<noteq> sa_ip outer \<and> is_ipv4 p"
  shows "distinct (fold (ladder_push outer) cs out) \<and>
      (\<forall>p \<in> set (fold (ladder_push outer) cs out). sa_ip p \<noteq> sa_ip outer \<and> is_ipv4 p) \<and>
      (\<exists>rest. fold (ladder_push outer) cs out = out @ rest)"
  by (rule fold_invariant [where Q = "\<lambda>(ip, port). is_ipv4 \<lparr>sa_ip = ip, sa_port = port\<rparr>"])
    (use assms in \<open>auto simp: ladder_push_def Let_def\<close>)

text \<open>Some measured gateway is outside every range of 256 addresses, and the ladder starts with it.\<close>

lemma ladder_first_rung:
  obtains ip rest where "ladder_rungs outer = (ip, MASQUE_INNER_PORT) # rest" and "edge_network ip \<noteq> edge_network (sa_ip outer)"
proof -
  have "edge_network (V4 0xa29fc701) \<noteq> edge_network (V4 0xa29fc601)"
    by (simp add: edge_network_def v4_octets_4 numeral_3_eq_3)
  then have "filter (\<lambda>ip. edge_network ip \<noteq> edge_network (sa_ip outer)) verified_ips \<noteq> []"
    by (auto simp: verified_ips_eq)
  then obtain ip ips where f: "filter (\<lambda>ip. edge_network ip \<noteq> edge_network (sa_ip outer)) verified_ips = ip # ips"
    by (meson list.exhaust)
  then have "edge_network ip \<noteq> edge_network (sa_ip outer)"
    by (metis (mono_tags, lifting) filter_eq_ConsD)
  then show thesis using that f by (simp add: ladder_rungs_def)
qed

lemma verified_ladder_facts:
  assumes "is_ipv4 outer"
  shows "distinct (masque_verified_ladder outer n)" and "length (masque_verified_ladder outer n) \<le> max n 1"
    and "\<forall>p \<in> set (masque_verified_ladder outer n). sa_ip p \<noteq> sa_ip outer \<and> is_ipv4 p"
    and "masque_verified_ladder outer n \<noteq> []"
    and "edge_network (sa_ip (hd (masque_verified_ladder outer n))) \<noteq> edge_network (sa_ip outer)"
proof -
  define rungs where "rungs = fold (ladder_push outer) (ladder_rungs outer) []"
  have eq: "masque_verified_ladder outer n = take (max n 1) rungs"
    using assms by (simp add: masque_verified_ladder_def rungs_def)
  have v4: "\<forall>(ip, port) \<in> set (ladder_rungs outer). is_ipv4 \<lparr>sa_ip = ip, sa_port = port\<rparr>"
    by (auto simp: ladder_rungs_def verified_ips_eq is_ipv4_def)
  then have facts: "distinct rungs" "\<forall>p \<in> set rungs. sa_ip p \<noteq> sa_ip outer \<and> is_ipv4 p"
    using ladder_fold [of "ladder_rungs outer" "[]" outer] by (simp_all add: rungs_def)
  then show "distinct (masque_verified_ladder outer n)" and "length (masque_verified_ladder outer n) \<le> max n 1"
    and "\<forall>p \<in> set (masque_verified_ladder outer n). sa_ip p \<noteq> sa_ip outer \<and> is_ipv4 p"
    by (auto simp: eq distinct_take dest: in_set_takeD)
  obtain ip rest where r: "ladder_rungs outer = (ip, MASQUE_INNER_PORT) # rest" and ip: "edge_network ip \<noteq> edge_network (sa_ip outer)"
    by (rule ladder_first_rung)
  define p where "p = \<lparr>sa_ip = ip, sa_port = MASQUE_INNER_PORT\<rparr>"
  have "ip \<noteq> sa_ip outer" using ip by (intro notI) simp
  then have eq': "rungs = fold (ladder_push outer) rest [p]" and away: "sa_ip p \<noteq> sa_ip outer"
    by (simp_all add: rungs_def r ladder_push_def p_def)
  have "is_ipv4 p" and v4': "\<forall>(ip, port) \<in> set rest. is_ipv4 \<lparr>sa_ip = ip, sa_port = port\<rparr>"
    using v4 by (simp_all add: r p_def)
  with ladder_fold [OF v4', of "[p]" outer] away obtain rest' where "rungs = p # rest'"
    by (auto simp: eq')
  then show "masque_verified_ladder outer n \<noteq> []"
    and "edge_network (sa_ip (hd (masque_verified_ladder outer n))) \<noteq> edge_network (sa_ip outer)"
    using ip by (simp_all add: eq take_Cons p_def split: nat.splits)
qed

text \<open>
  C22. The candidates for the inner hop of a nested MASQUE tunnel: as many as asked for, all different, of
  the family of the outer gateway and never on its address. Without the verified mode they are neighbours
  of the outer gateway on port 443; with it the first one leaves the range of the outer gateway.
\<close>

theorem inner_hop_candidates:
  assumes "inner_masque_candidates outer n verified draws4 draws6 = Some ps" and "1 \<le> n" and "n \<le> 253"
  shows "length ps = n \<and> distinct ps \<and> (\<forall>p \<in> set ps. sa_ip p \<noteq> sa_ip outer \<and> is_ipv4 p = is_ipv4 outer) \<and>
    (\<not> verified \<longrightarrow>
       (\<forall>p \<in> set ps. sa_port p = MASQUE_INNER_PORT \<and> edge_network (sa_ip p) = edge_network (sa_ip outer))) \<and>
    (verified \<and> is_ipv4 outer \<longrightarrow> edge_network (sa_ip (hd ps)) \<noteq> edge_network (sa_ip outer))"
proof -
  define out where "out = (if verified then push_missing [] (masque_verified_ladder outer (max (n - 2) 1)) else [])"
  obtain sibs where sibs: "sibling_candidates outer n draws4 draws6 = Some sibs" and ps: "ps = take n (push_until n out sibs)"
    using assms by (auto simp: inner_masque_candidates_def out_def Let_def max_def split: if_splits)
  have d: "distinct sibs" and len: "length sibs = n"
    and near: "\<forall>p \<in> set sibs. sa_ip p \<noteq> sa_ip outer \<and> sa_port p = MASQUE_INNER_PORT \<and> is_ipv4 p = is_ipv4 outer \<and>
      edge_network (sa_ip p) = edge_network (sa_ip outer)"
    using sibling_candidates_facts [OF sibs] assms by (auto simp: siblings_of_def)
  have out: "distinct out" "length out \<le> n" "\<forall>p \<in> set out. sa_ip p \<noteq> sa_ip outer \<and> is_ipv4 p = is_ipv4 outer"
    "verified \<and> is_ipv4 outer \<longrightarrow> out \<noteq> [] \<and> edge_network (sa_ip (hd out)) \<noteq> edge_network (sa_ip outer)"
    "\<not> verified \<longrightarrow> out = []"
    using verified_ladder_facts [of outer "max (n - 2) 1"] assms
    by (cases "is_ipv4 outer"; auto simp: out_def push_missing_eq distinct_remdups_id masque_verified_ladder_def)+
  define new where "new = filter (\<lambda>p. p \<notin> set out) sibs"
  have "card (set sibs - set out) = length new"
    using d distinct_card [of new] by (simp add: new_def set_diff_eq)
  then have "n - length out \<le> length new"
    using diff_card_le_card_Diff [of "set out" "set sibs"] d out(1) len by (simp add: distinct_card)
  moreover have eq: "ps = out @ take (n - length out) new"
    using out(2) by (simp add: ps push_until_eq [OF d] new_def)
  ultimately have "length ps = n" using out(2) by simp
  moreover have "distinct ps" using out(1) d by (auto simp: eq new_def distinct_take dest: in_set_takeD)
  moreover have "\<forall>p \<in> set ps. p \<in> set out \<or> p \<in> set sibs" by (auto simp: eq new_def dest: in_set_takeD)
  ultimately show ?thesis using out near by (auto simp: eq)
qed

text \<open>Enough draws always give candidates.\<close>

lemma inner_candidates_exist:
  assumes "is_ipv4 outer" and "254 \<le> length draws4" and "\<forall>d \<in> set draws4. d = 0"
  shows "\<exists>ps. inner_masque_candidates outer n verified draws4 draws6 = Some ps"
proof -
  obtain a where a: "sa_ip outer = V4 a" using assms(1) by (auto simp: is_ipv4_def split: ip_addr.splits)
  define hosts where "hosts = sibling_hosts (v4_octets a ! 3)"
  have "length hosts \<le> 254"
    unfolding hosts_def sibling_hosts_def using length_filter_le [of _ "map of_nat [1..<255] :: u8 list"] by (simp add: order_trans)
  then have "\<exists>hs. shuffle_down (length hosts - 1) draws4 hosts = Some hs"
    using assms(2,3) by (intro shuffle_down_total) (auto simp: all_set_conv_all_nth)
  then show ?thesis using a by (auto simp: inner_masque_candidates_def sibling_candidates_def hosts_def Let_def)
qed

theorem inner_hop_candidates_witness:
  "\<exists>ps. inner_masque_candidates \<lparr>sa_ip = V4 0xa29fc601, sa_port = 443\<rparr> MIM_INNER_TRIES True (replicate 254 0) [] = Some ps \<and>
     length ps = 6 \<and> distinct ps \<and> edge_network (sa_ip (hd ps)) \<noteq> Some [162, 159, 198]"
proof -
  let ?outer = "\<lparr>sa_ip = V4 0xa29fc601, sa_port = 443\<rparr> :: socket_addr"
  have v4: "is_ipv4 ?outer" by (simp add: is_ipv4_def)
  obtain ps where ps: "inner_masque_candidates ?outer MIM_INNER_TRIES True (replicate 254 0) [] = Some ps"
    using inner_candidates_exist [OF v4, of "replicate 254 0" MIM_INNER_TRIES True "[]"] by (auto simp del: replicate_numeral)
  have "edge_network (V4 0xa29fc601) = Some [162, 159, 198]"
    by (simp add: edge_network_def v4_octets_4 numeral_3_eq_3)
  then show ?thesis using inner_hop_candidates [OF ps] v4 ps by (auto simp: MIM_INNER_TRIES_def simp del: replicate_numeral)
qed

end
