(* ===== verification/Entry.thy ===== *)
theory Entry
  imports Hops_Props Lastconn Config Aethernoize
begin

text \<open>
  \<^verbatim>\<open>lib.rs\<close>, the settings of a run: protocol, scan, delays, profiles, the paths of the files and the answers
  to the questions that are asked when a setting is missing. An answer is None when there is no terminal.
\<close>

subsection \<open>Protocols\<close>

datatype protocol = PMasque | PWireGuard | PWarpInWarp | PMasqueInMasque

definition protocol_parse :: "string \<Rightarrow> protocol" where
  "protocol_parse s =
     (let w = to_lowercase (trim s)
      in if w \<in> {''wg'', ''wireguard''} then PWireGuard
         else if w \<in> {''gool'', ''wiw'', ''warp-in-warp'', ''warpinwarp''} then PWarpInWarp
         else if w \<in> {''mim'', ''m2'', ''masque-in-masque'', ''masqueinmasque''} then PMasqueInMasque
         else PMasque)"

definition protocol_label :: "protocol \<Rightarrow> string" where
  "protocol_label p =
     (case p of
        PMasque \<Rightarrow> ''MASQUE''
      | PWireGuard \<Rightarrow> ''WireGuard''
      | PWarpInWarp \<Rightarrow> ''WARP-in-WARP (gool)''
      | PMasqueInMasque \<Rightarrow> ''MASQUE-in-MASQUE'')"

subsection \<open>Delays and limits\<close>

definition masque_reconnect_delay :: "env \<Rightarrow> nat" where
  "masque_reconnect_delay env = secs (capped_secs env ''AETHER_MASQUE_RECONNECT_SECS'' 2)"

definition masque_startup_timeout :: "env \<Rightarrow> nat" where
  "masque_startup_timeout env = secs (capped_secs env ''AETHER_MASQUE_STARTUP_SECS'' 30)"

definition mim_inner_startup :: "env \<Rightarrow> nat" where
  "mim_inner_startup env = min (masque_startup_timeout env) (secs 12)"

definition wg_reconnect_delay :: "env \<Rightarrow> nat" where
  "wg_reconnect_delay env = secs (capped_secs env ''AETHER_WG_RECONNECT_SECS'' 2)"

definition wg_endpoint_cooldown :: "env \<Rightarrow> nat" where
  "wg_endpoint_cooldown env = secs (capped_secs env ''AETHER_WG_ENDPOINT_COOLDOWN_SECS'' 300)"

definition wg_tunnel_validate_timeout :: "env \<Rightarrow> nat" where
  "wg_tunnel_validate_timeout env = secs (capped_secs env ''AETHER_WG_VALIDATE_SECS'' 10)"

definition wg_keepalive_secs :: "env \<Rightarrow> u16" where
  "wg_keepalive_secs env =
     (case Option.bind (env ''AETHER_WG_KEEPALIVE'') (parse_uint 65535) of
        Some v \<Rightarrow> if 0 < v then of_nat v else 5
      | None \<Rightarrow> 5)"

subsection \<open>Profiles\<close>

definition noize_config_of :: "env \<Rightarrow> noize_config" where
  "noize_config_of env = noize_from_profile (case env ''AETHER_NOIZE'' of Some p \<Rightarrow> p | None \<Rightarrow> ''firewall'')"

definition aethernoize_config :: "env \<Rightarrow> aether_noize_config" where
  "aethernoize_config env = an_from_profile (case env ''AETHER_NOIZE'' of Some p \<Rightarrow> p | None \<Rightarrow> ''balanced'')"

definition add_profile :: "string \<Rightarrow> string list \<Rightarrow> string list" where
  "add_profile fallback names =
     (if list_ex (\<lambda>n. eq_ignore_ascii_case n fallback) names then names else names @ [fallback])"

definition wg_profile_candidates :: "env \<Rightarrow> (string \<times> aether_noize_config) list" where
  "wg_profile_candidates env =
     (let primary = (case env ''AETHER_NOIZE'' of Some p \<Rightarrow> p | None \<Rightarrow> ''balanced'');
          names = (if env ''AETHER_WG_NO_PROFILE_RETRY'' = None
                   then fold add_profile [''balanced'', ''aggressive'', ''light'', ''off''] [primary]
                   else [primary])
      in map (\<lambda>n. (n, an_from_profile n)) names)"

subsection \<open>Questions\<close>

definition scan_mode_answer :: "string option \<Rightarrow> string" where
  "scan_mode_answer answer =
     (if answer = Some ''1'' then ''turbo''
      else if answer = Some ''3'' then ''thorough''
      else if answer = Some ''4'' then ''verified''
      else if answer = Some ''5'' then ''ironclad''
      else ''balanced'')"

definition select_scan_mode_str :: "env \<Rightarrow> string option \<Rightarrow> string" where
  "select_scan_mode_str env answer =
     (case env ''AETHER_SCAN'' of Some v \<Rightarrow> v | None \<Rightarrow> scan_mode_answer answer)"

definition select_scan_mode :: "env \<Rightarrow> string option \<Rightarrow> scan_mode" where
  "select_scan_mode env answer =
     (case env ''AETHER_SCAN'' of
        Some v \<Rightarrow> scan_mode_parse v
      | None \<Rightarrow>
          if answer = Some ''1'' then Turbo
          else if answer = Some ''3'' then Thorough
          else if answer = Some ''4'' then Verified
          else if answer = Some ''5'' then Ironclad
          else Balanced)"

definition select_ip_version :: "env \<Rightarrow> string option \<Rightarrow> ip_scan" where
  "select_ip_version env answer =
     (case env ''AETHER_IP'' of
        Some v \<Rightarrow> ip_scan_parse v
      | None \<Rightarrow> if answer = Some ''2'' then ScanV6 else if answer = Some ''3'' then ScanBoth else ScanV4)"

definition scan_settings_from_env :: "env \<Rightarrow> string \<times> ip_scan" where
  "scan_settings_from_env env =
     (case env ''AETHER_SCAN'' of Some v \<Rightarrow> v | None \<Rightarrow> [],
      case env ''AETHER_IP'' of Some v \<Rightarrow> ip_scan_parse v | None \<Rightarrow> ScanV4)"

definition want_quick_reconnect :: "env \<Rightarrow> string option \<Rightarrow> bool" where
  "want_quick_reconnect env answer =
     (case env ''AETHER_QUICK_RECONNECT'' of
        Some v \<Rightarrow>
          if v \<in> {''1'', ''true'', ''yes'', ''on''} then True
          else if v \<in> {''0'', ''false'', ''no'', ''off''} then False
          else (case answer of Some a \<Rightarrow> \<not> (eq_ignore_ascii_case a ''n'' \<or> eq_ignore_ascii_case a ''no'') | None \<Rightarrow> True)
      | None \<Rightarrow> (case answer of Some a \<Rightarrow> \<not> (eq_ignore_ascii_case a ''n'' \<or> eq_ignore_ascii_case a ''no'') | None \<Rightarrow> True))"

definition select_masque_transport :: "env \<Rightarrow> string option \<Rightarrow> env" where
  "select_masque_transport env answer =
     (if env ''AETHER_MASQUE_HTTP2'' \<noteq> None \<or> env ''AETHER_PEER'' \<noteq> None then env
      else if answer = Some ''2'' then env(''AETHER_MASQUE_HTTP2'' \<mapsto> ''1'')
      else env)"

definition select_chain_carrier :: "string option \<Rightarrow> protocol" where
  "select_chain_carrier answer =
     (if answer = Some ''2'' then PWireGuard
      else if answer = Some ''3'' then PWarpInWarp
      else if answer = Some ''4'' then PMasqueInMasque
      else PMasque)"

text \<open>The answers in order: the direction, then the carrier.\<close>

definition select_psiphon_chain :: "env \<Rightarrow> string option \<Rightarrow> string option \<Rightarrow> protocol \<times> env" where
  "select_psiphon_chain env direction carrier =
     (if direction = Some ''2'' then (PMasque, env(''AETHER_PSIPHON'' \<mapsto> ''reverse''))
      else (select_chain_carrier carrier, env(''AETHER_PSIPHON'' \<mapsto> ''chain'')))"

definition select_tor_chain :: "env \<Rightarrow> string option \<Rightarrow> string option \<Rightarrow> protocol \<times> env" where
  "select_tor_chain env direction carrier =
     (if direction = Some ''2'' then (PMasque, env(''AETHER_TOR'' \<mapsto> ''reverse''))
      else (select_chain_carrier carrier, env(''AETHER_TOR'' \<mapsto> ''chain'')))"

subsection \<open>Paths and addresses\<close>

definition path_separator :: "char \<Rightarrow> bool" where
  "path_separator c \<longleftrightarrow> c = CHR ''/'' \<or> c = CHR 0x5C"

text \<open>The directory with its separator, and the rest.\<close>

definition dir_part :: "string \<Rightarrow> string" where
  "dir_part base = rev (dropWhile (\<lambda>c. \<not> path_separator c) (rev base))"

definition name_part :: "string \<Rightarrow> string" where
  "name_part base = drop (length (dir_part base)) base"

definition derive_sibling_path :: "string \<Rightarrow> string \<Rightarrow> string" where
  "derive_sibling_path base suffix =
     (case rsplit_once (CHR ''.'') (name_part base) of
        Some (stem, ext) \<Rightarrow> dir_part base @ stem @ ''-'' @ suffix @ ''.'' @ ext
      | None \<Rightarrow> base @ ''-'' @ suffix)"

definition lastconn_path :: "string \<Rightarrow> string" where
  "lastconn_path config_path = derive_sibling_path config_path ''lastconn''"

definition masque_carrier :: "env \<Rightarrow> string" where
  "masque_carrier env = (if h2_enabled_env env then CARRIER_MASQUE_H2 else CARRIER_MASQUE_H3)"

definition http_proxy_listen :: "env \<Rightarrow> socket_addr option" where
  "http_proxy_listen env =
     (case env ''AETHER_HTTP_PROXY'' of
        None \<Rightarrow> None
      | Some raw \<Rightarrow> let trimmed = trim raw in if trimmed = [] then None else parse_socket_addr trimmed)"

definition keep_saved_identity :: "env \<Rightarrow> bool" where
  "keep_saved_identity env \<longleftrightarrow> env ''AETHER_REPROVISION'' \<notin> {Some ''0'', Some ''off'', Some ''false''}"

subsection \<open>Ends of tasks\<close>

text \<open>The display text of an error.\<close>

definition show_error :: "aether_error \<Rightarrow> string" where
  "show_error e =
     (case e of
        Io s \<Rightarrow> ''io: '' @ s
      | Quic s \<Rightarrow> ''quic: '' @ s
      | H3 s \<Rightarrow> ''h3: '' @ s
      | Tls s \<Rightarrow> ''tls: '' @ s
      | Ech s \<Rightarrow> ''ech: '' @ s
      | Masque s \<Rightarrow> ''masque: '' @ s
      | NoCleanEndpoint \<Rightarrow> ''prober: no clean endpoint found''
      | Capsule s \<Rightarrow> ''capsule: '' @ s
      | Api s \<Rightarrow> ''api: '' @ s
      | IdentityRefused s \<Rightarrow> ''identity refused: '' @ s
      | Cancelled \<Rightarrow> ''cancelled''
      | Other s \<Rightarrow> ''other: '' @ s)"

text \<open>What \<^verbatim>\<open>await\<close> of a task gives: its result, that it was cancelled, or its panic.\<close>

datatype joined = JoinResult "unit result" | JoinCancelled string | JoinPanic string

definition join_outcome :: "string \<Rightarrow> joined \<Rightarrow> unit result" where
  "join_outcome what j =
     (case j of
        JoinResult (Inr ()) \<Rightarrow> Inl (Other (what @ '' stopped''))
      | JoinResult (Inl e) \<Rightarrow> Inl e
      | JoinCancelled _ \<Rightarrow> Inl (Other (what @ '' was cancelled''))
      | JoinPanic e \<Rightarrow> Inl (Other (what @ '' panicked: '' @ e)))"

subsection \<open>Facts\<close>

text \<open>Both ways to ask for the mode of a scan agree.\<close>

lemma select_scan_mode_agrees: "scan_mode_parse (select_scan_mode_str env answer) = select_scan_mode env answer"
  by (auto simp: select_scan_mode_str_def select_scan_mode_def scan_mode_answer_def scan_mode_parse_def Let_def
      trim_graphic ascii_graphic_def to_lowercase_def to_ascii_lowercase_def ascii_upper_def split: option.splits)

lemma delays_positive:
  "0 < masque_reconnect_delay env" "0 < wg_reconnect_delay env" "0 < wg_endpoint_cooldown env"
  "wg_endpoint_cooldown env \<le> secs 86400"
  by (auto simp: masque_reconnect_delay_def wg_reconnect_delay_def wg_endpoint_cooldown_def capped_secs_def secs_def
      split: option.splits)

lemma dir_name: "dir_part base @ name_part base = base"
proof -
  have "dir_part base = take (length (dir_part base)) base"
    unfolding dir_part_def by (metis dropWhile_eq_drop length_rev rev_drop rev_rev_ident take_rev append_take_drop_id rev_append append_eq_conv_conj)
  then show ?thesis unfolding name_part_def by (metis append_take_drop_id)
qed

text \<open>Files for different purposes are different, and none is the base itself.\<close>

lemma sibling_paths_differ:
  "derive_sibling_path base s = derive_sibling_path base t \<longleftrightarrow> s = t" "derive_sibling_path base s \<noteq> base"
proof -
  show "derive_sibling_path base s = derive_sibling_path base t \<longleftrightarrow> s = t"
    by (auto simp: derive_sibling_path_def split: option.splits)
  have "length (derive_sibling_path base s) = length base + Suc (length s)"
  proof (cases "rsplit_once (CHR ''.'') (name_part base)")
    case None
    then show ?thesis by (simp add: derive_sibling_path_def)
  next
    case (Some p)
    obtain a b where p: "p = (a, b)" by (cases p)
    have "name_part base = a @ CHR ''.'' # b" using rsplit_once_SomeD Some p by fast
    then have "length base = length (dir_part base) + Suc (length a + length b)"
      using arg_cong [OF dir_name [of base], where f = length] by simp
    with Some p show ?thesis by (simp add: derive_sibling_path_def)
  qed
  then show "derive_sibling_path base s \<noteq> base" by auto
qed

end
