(* ===== verification/Supervise.thy ===== *)
theory Supervise
  imports Entry
begin

text \<open>
  \<^verbatim>\<open>lib.rs\<close>, the searches for endpoints as the supervising loops call them, and the loops themselves. One
  round of a loop chooses its endpoint (or endpoints) and runs a tunnel there until it ends. What a round
  meets (answers of the user, random draws and probes of a scan, checks of an endpoint) is an argument of
  the round; None while a scan goes on.
\<close>

subsection \<open>Searches\<close>

text \<open>What a scan meets: IPv6 on the host, random draws, the time of its start and its rounds.\<close>

record scan_world =
  sw_has_v6 :: bool
  sw_draws4 :: "string \<Rightarrow> nat list"
  sw_draws6 :: "string \<Rightarrow> (nat \<times> u32) list"
  sw_start :: nat
  sw_rounds :: "scan_round list"

definition invalid_ipv4 :: aether_error where "invalid_ipv4 = Other ''invalid ipv4''"

definition peer_of :: "probe_result \<Rightarrow> socket_addr" where
  "peer_of pr = \<lparr>sa_ip = pr_ip pr, sa_port = pr_port pr\<rparr>"

definition avoided :: "ip_addr set \<Rightarrow> socket_addr set" where
  "avoided avoid = {a. sa_ip a \<in> avoid \<and> sa_port a \<in> set WG_PORTS}"

text \<open>
  The verifiers depend on the identity, the address of the tunnel and the obfuscation of the probe.
\<close>

type_synonym 'w wg_verify = "identity \<Rightarrow> ipv4_addr \<Rightarrow> aether_noize_config \<Rightarrow> 'w wg_verifiers"

definition select_wg_peers ::
    "env \<Rightarrow> sys_tuning \<Rightarrow> 'w wg_verify \<Rightarrow> identity \<Rightarrow> string \<Rightarrow> ip_scan \<Rightarrow> nat \<Rightarrow> ip_addr set \<Rightarrow> scan_world \<Rightarrow>
       socket_addr list result option" where
  "select_wg_peers env tuning v ident mode_str ip want avoid w =
     (case parse_ipv4 (id_ipv4 ident) of
        None \<Rightarrow> Some (Inl invalid_ipv4)
      | Some local_ipv4 \<Rightarrow>
          map_option
            (\<lambda>r. res_bind r (\<lambda>found.
               let picked = take want (filter (\<lambda>pr. pr_ip pr \<notin> avoid) found)
               in if picked = [] then Inl NoCleanEndpoint else Inr (map peer_of picked)))
            (hunt_wg_endpoints env tuning (v ident local_ipv4 (aethernoize_config env)) WG_PORTS ip (avoided avoid)
               (sw_has_v6 w) (wg_scan_mode_parse mode_str) want (sw_draws4 w) (sw_draws6 w) (sw_start w) (sw_rounds w)))"

definition hunt_wg_peer_with_profile ::
    "env \<Rightarrow> sys_tuning \<Rightarrow> 'w wg_verify \<Rightarrow> identity \<Rightarrow> string \<Rightarrow> ip_scan \<Rightarrow> aether_noize_config \<Rightarrow> socket_addr set \<Rightarrow>
       scan_world \<Rightarrow> socket_addr result option" where
  "hunt_wg_peer_with_profile env tuning v ident mode_str ip profile excluded w =
     (case parse_ipv4 (id_ipv4 ident) of
        None \<Rightarrow> Some (Inl invalid_ipv4)
      | Some local_ipv4 \<Rightarrow>
          map_option (\<lambda>r. res_bind r (\<lambda>best. Inr (peer_of best)))
            (hunt_best_wg_endpoint env tuning (v ident local_ipv4 profile) WG_PORTS ip excluded (sw_has_v6 w)
               (wg_scan_mode_parse mode_str) (sw_draws4 w) (sw_draws6 w) (sw_start w) (sw_rounds w)))"

text \<open>One scan per profile, until one finds an endpoint.\<close>

type_synonym wg_choice = "socket_addr \<times> aether_noize_config \<times> string"

fun hunt_wg_peer ::
    "(aether_noize_config \<Rightarrow> 'x \<Rightarrow> socket_addr result option) \<Rightarrow> (string \<times> aether_noize_config) list \<Rightarrow> 'x list \<Rightarrow>
       wg_choice result option" where
  "hunt_wg_peer hunt [] ws = Some (Inl NoCleanEndpoint)"
| "hunt_wg_peer hunt (c # cs) [] = None"
| "hunt_wg_peer hunt ((name, profile) # cs) (w # ws) =
     (case hunt profile w of
        None \<Rightarrow> None
      | Some (Inr peer) \<Rightarrow> Some (Inr (peer, profile, name))
      | Some (Inl e) \<Rightarrow> hunt_wg_peer hunt cs ws)"

definition hunt_masque_peer ::
    "env \<Rightarrow> sys_tuning \<Rightarrow> verifiers \<Rightarrow> string \<Rightarrow> ip_scan \<Rightarrow> scan_world \<Rightarrow> socket_addr result option" where
  "hunt_masque_peer env tuning v mode_str ip w =
     map_option (\<lambda>r. res_bind r (\<lambda>best. Inr (peer_of best)))
       (hunt_best_gateway env tuning v MASQUE_PORTS ip (sw_has_v6 w) (scan_mode_parse mode_str) (sw_draws4 w)
          (sw_draws6 w) (sw_start w) (sw_rounds w))"

subsection \<open>Two WireGuard hops\<close>

definition MAX_CONSECUTIVE_FAILS :: nat where "MAX_CONSECUTIVE_FAILS = 2"

record nested_state =
  ns_outer :: "socket_addr option"
  ns_inner :: "socket_addr option"
  ns_fails :: nat
  ns_settings :: "(string \<times> ip_scan) option"

definition nested_start :: "wiw_endpoints \<Rightarrow> nested_state" where
  "nested_start pinned = \<lparr>ns_outer = we_outer pinned, ns_inner = we_inner pinned, ns_fails = 0, ns_settings = None\<rparr>"

text \<open>After two ends in a row the hops that were not named by hand are given up.\<close>

definition give_up_hops :: "wiw_endpoints \<Rightarrow> nested_state \<Rightarrow> nested_state" where
  "give_up_hops pinned s =
     (if MAX_CONSECUTIVE_FAILS \<le> ns_fails s
      then s\<lparr>ns_outer := (if we_outer pinned = None then None else ns_outer s),
             ns_inner := (if we_inner pinned = None then None else ns_inner s), ns_fails := 0\<rparr>
      else s)"

text \<open>The settings of the scan are asked for once. The answers are those to the mode and to the family.\<close>

definition ask_scan :: "env \<Rightarrow> string option \<times> string option \<Rightarrow> nested_state \<Rightarrow> nested_state" where
  "ask_scan env answers s =
     (case ns_settings s of
        Some _ \<Rightarrow> s
      | None \<Rightarrow> s\<lparr>ns_settings := Some (select_scan_mode_str env (fst answers), select_ip_version env (snd answers))\<rparr>)"

definition settings_of :: "nested_state \<Rightarrow> string \<times> ip_scan" where
  "settings_of s = (case ns_settings s of Some x \<Rightarrow> x | None \<Rightarrow> ([], ScanV4))"

type_synonym wg_search = "string \<Rightarrow> ip_scan \<Rightarrow> nat \<Rightarrow> ip_addr set \<Rightarrow> socket_addr list result option"

datatype 'p attempt = Rescan | Attempt 'p

text \<open>The choice of the two hops: those that are known, and a search for the others.\<close>

definition fill_hops :: "socket_addr option \<Rightarrow> socket_addr option \<Rightarrow> socket_addr list \<Rightarrow> socket_addr option \<times> socket_addr option" where
  "fill_hops known_outer known_inner found =
     (case known_outer of Some p \<Rightarrow> Some p | None \<Rightarrow> get_at found 0,
      case known_inner of Some p \<Rightarrow> Some p | None \<Rightarrow> get_at (if known_outer = None then drop 1 found else found) 0)"

definition search_hops ::
    "env \<Rightarrow> wiw_endpoints \<Rightarrow> wg_search \<Rightarrow> string option \<times> string option \<Rightarrow> nested_state \<Rightarrow>
       ((socket_addr \<times> socket_addr) attempt \<times> nested_state) option" where
  "search_hops env pinned search answers s =
     (let wanted = (if ns_outer s = None then 1 else 0) + (if ns_inner s = None then 1 else 0);
          avoid = sa_ip ` (set_option (ns_outer s) \<union> set_option (ns_inner s));
          s' = ask_scan env answers s
      in case search (fst (settings_of s')) (snd (settings_of s')) wanted avoid of
           None \<Rightarrow> None
         | Some (Inl e) \<Rightarrow> Some (Rescan, s')
         | Some (Inr found) \<Rightarrow>
             (let found = (if verified_scan_selected env (ns_settings s') then spread_hops found else found)
              in case fill_hops (ns_outer s) (ns_inner s) found of
                   (Some outer, Some inner) \<Rightarrow> Some (Attempt (outer, inner), s')
                 | _ \<Rightarrow> Some (Rescan, s'\<lparr>ns_outer := we_outer pinned, ns_inner := we_inner pinned\<rparr>)))"

definition choose_hops ::
    "env \<Rightarrow> wiw_endpoints \<Rightarrow> wg_search \<Rightarrow> string option \<times> string option \<Rightarrow> nested_state \<Rightarrow>
       ((socket_addr \<times> socket_addr) attempt \<times> nested_state) option" where
  "choose_hops env pinned search answers s =
     (case (ns_outer s, ns_inner s) of
        (Some outer, Some inner) \<Rightarrow> Some (Attempt (outer, inner), s)
      | _ \<Rightarrow> search_hops env pinned search answers s)"

text \<open>A round of \<^verbatim>\<open>run_gool\<close>: the hops of an attempt are kept, and its end counts as a failure.\<close>

definition gool_round ::
    "env \<Rightarrow> wiw_endpoints \<Rightarrow> wg_search \<Rightarrow> string option \<times> string option \<Rightarrow> nested_state \<Rightarrow>
       ((socket_addr \<times> socket_addr) attempt \<times> nested_state) option" where
  "gool_round env pinned search answers s =
     (case choose_hops env pinned search answers (give_up_hops pinned s) of
        None \<Rightarrow> None
      | Some (Rescan, s') \<Rightarrow> Some (Rescan, s')
      | Some (Attempt (outer, inner), s') \<Rightarrow>
          Some (Attempt (outer, inner),
                s'\<lparr>ns_outer := Some outer, ns_inner := Some inner, ns_fails := ns_fails s' + 1\<rparr>))"

text \<open>The check that \<^verbatim>\<open>run_warp_in_warp\<close> starts with.\<close>

definition run_warp_in_warp_check :: "socket_addr \<Rightarrow> socket_addr \<Rightarrow> unit result" where
  "run_warp_in_warp_check peer inner_peer =
     (if sa_ip inner_peer = sa_ip peer
      then Inl (Other (''warp-in-warp needs two separate edges but both hops landed on '' @ ip_to_string (sa_ip peer)))
      else Inr ())"

subsection \<open>One WireGuard tunnel\<close>

text \<open>The check of an endpoint with a profile and a time limit.\<close>

type_synonym wg_check = "socket_addr \<Rightarrow> aether_noize_config \<Rightarrow> nat \<Rightarrow> nat result"

definition answers_check :: "nat result \<Rightarrow> bool" where
  "answers_check r = (case r of Inr _ \<Rightarrow> True | Inl _ \<Rightarrow> False)"

definition first_profile :: "wg_check \<Rightarrow> socket_addr \<Rightarrow> nat \<Rightarrow> (string \<times> aether_noize_config) list \<Rightarrow> wg_choice option" where
  "first_profile check peer limit candidates =
     map_option (\<lambda>(name, profile). (peer, profile, name))
       (find (\<lambda>(name, profile). answers_check (check peer profile limit)) candidates)"

definition wg_forced :: "env \<Rightarrow> string option" where
  "wg_forced env = (case env ''AETHER_WG_PEER'' of Some p \<Rightarrow> Some p | None \<Rightarrow> env ''AETHER_PEER'')"

definition assigned_endpoint :: "env \<Rightarrow> socket_addr option" where
  "assigned_endpoint env = Option.bind (env ''AETHER_TEAM_ENDPOINT'') parse_socket_addr"

definition wg_assigned :: "env \<Rightarrow> wg_check \<Rightarrow> wg_choice option" where
  "wg_assigned env check =
     Option.bind (assigned_endpoint env) (\<lambda>a. first_profile check a (secs 8) (wg_profile_candidates env))"

definition wg_remembered ::
    "env \<Rightarrow> last_connection toml_lib \<Rightarrow> text_file \<Rightarrow> string option \<Rightarrow> wg_check \<Rightarrow> wg_choice option" where
  "wg_remembered env lib disk answer check =
     (case lc_load lib disk of
        None \<Rightarrow> None
      | Some cached \<Rightarrow>
          (let ring = usable_peers cached CARRIER_WIREGUARD
           in if ring \<noteq> [] \<and> want_quick_reconnect env answer
              then (let profile = an_from_profile (lc_profile cached)
                    in map_option (\<lambda>p. (p, profile, lc_profile cached))
                         (find (\<lambda>p. answers_check (check p profile (secs 6))) ring))
              else None))"

text \<open>The endpoint the loop starts with: the assigned one, or one that was remembered.\<close>

definition wg_quick ::
    "env \<Rightarrow> last_connection toml_lib \<Rightarrow> text_file \<Rightarrow> string option \<Rightarrow> wg_check \<Rightarrow> wg_choice option" where
  "wg_quick env lib disk answer check =
     (if wg_forced env \<noteq> None then None
      else case wg_assigned env check of
             Some q \<Rightarrow> Some q
           | None \<Rightarrow> wg_remembered env lib disk answer check)"

definition scan_settings_for :: "env \<Rightarrow> bool \<Rightarrow> string option \<times> string option \<Rightarrow> string \<times> ip_scan" where
  "scan_settings_for env known answers =
     (if known then scan_settings_from_env env
      else (select_scan_mode_str env (fst answers), select_ip_version env (snd answers)))"

record wg_super =
  ws_quick :: "wg_choice option"
  ws_last_good :: "wg_choice option"
  ws_fails :: nat
  ws_cooldowns :: "socket_addr \<rightharpoonup> nat"
  ws_disk :: text_file

definition wg_super_start :: "wg_choice option \<Rightarrow> text_file \<Rightarrow> wg_super" where
  "wg_super_start quick disk =
     \<lparr>ws_quick = quick, ws_last_good = None, ws_fails = 0, ws_cooldowns = Map.empty, ws_disk = disk\<rparr>"

text \<open>The cooldowns at the start of a round: those that are over go, and an endpoint that ended twice in a row comes.\<close>

definition cool_down :: "env \<Rightarrow> nat \<Rightarrow> wg_super \<Rightarrow> wg_super" where
  "cool_down env now s =
     (let s = s\<lparr>ws_cooldowns := (\<lambda>p. case ws_cooldowns s p of
                                         Some until \<Rightarrow> if now < until then Some until else None
                                       | None \<Rightarrow> None)\<rparr>
      in if MAX_CONSECUTIVE_FAILS \<le> ws_fails s
         then (case ws_last_good s of
                 Some (peer, _, _) \<Rightarrow>
                   s\<lparr>ws_last_good := None, ws_cooldowns := (ws_cooldowns s)(peer \<mapsto> now + wg_endpoint_cooldown env),
                     ws_fails := 0\<rparr>
               | None \<Rightarrow> s\<lparr>ws_fails := 0\<rparr>)
         else s)"

definition bad_peer :: "string \<Rightarrow> aether_error" where
  "bad_peer p = Other (''bad peer address '' @ p)"

text \<open>
  The choice of a round: the quick endpoint, the last one when it still answers, the forced one with the
  first profile that passes, or a search. A forced address that cannot be read ends the loop.
\<close>

definition wg_choose_new ::
    "env \<Rightarrow> wg_check \<Rightarrow> (socket_addr set \<Rightarrow> wg_choice result option) \<Rightarrow> wg_super \<Rightarrow> (wg_choice attempt \<times> wg_super) result option" where
  "wg_choose_new env check hunt s =
     (case wg_forced env of
        Some p \<Rightarrow>
          (case parse_socket_addr p of
             None \<Rightarrow> Some (Inl (bad_peer p))
           | Some peer \<Rightarrow>
               (case first_profile check peer (secs 10) (wg_profile_candidates env) of
                  Some c \<Rightarrow> Some (Inr (Attempt c, s))
                | None \<Rightarrow> Some (Inr (Rescan, s))))
      | None \<Rightarrow>
          (case hunt (dom (ws_cooldowns s)) of
             None \<Rightarrow> None
           | Some (Inr c) \<Rightarrow> Some (Inr (Attempt c, s))
           | Some (Inl e) \<Rightarrow> Some (Inr (Rescan, s))))"

definition wg_choose ::
    "env \<Rightarrow> wg_check \<Rightarrow> (socket_addr set \<Rightarrow> wg_choice result option) \<Rightarrow> wg_super \<Rightarrow> (wg_choice attempt \<times> wg_super) result option" where
  "wg_choose env check hunt s =
     (case ws_quick s of
        Some q \<Rightarrow> Some (Inr (Attempt q, s\<lparr>ws_quick := None\<rparr>))
      | None \<Rightarrow>
          (case ws_last_good s of
             Some (p, profile, name) \<Rightarrow>
               if answers_check (check p profile (secs 6)) then Some (Inr (Attempt (p, profile, name), s))
               else wg_choose_new env check hunt s
           | None \<Rightarrow> wg_choose_new env check hunt s))"

text \<open>
  A round of \<^verbatim>\<open>run_wireguard\<close>. The attempt is remembered in the file unless the address was forced; its end,
  whatever it is, counts as a failure of that endpoint.
\<close>

definition wg_super_round ::
    "env \<Rightarrow> last_connection toml_lib \<Rightarrow> file_write \<Rightarrow> wg_check \<Rightarrow> (socket_addr set \<Rightarrow> wg_choice result option) \<Rightarrow> nat \<Rightarrow>
       wg_super \<Rightarrow> (wg_choice attempt \<times> wg_super) result option" where
  "wg_super_round env lib write check hunt now s =
     (case wg_choose env check hunt (cool_down env now s) of
        None \<Rightarrow> None
      | Some (Inl e) \<Rightarrow> Some (Inl e)
      | Some (Inr (Rescan, s')) \<Rightarrow> Some (Inr (Rescan, s'))
      | Some (Inr (Attempt (peer, profile, name), s')) \<Rightarrow>
          (let disk = (if wg_forced env = None
                       then lc_save lib write (ws_disk s') (socket_addr_to_string peer) name CARRIER_WIREGUARD
                       else ws_disk s');
               same = (map_option fst (ws_last_good s') = Some peer);
               fails = (if same then ws_fails s' else 0)
           in Some (Inr (Attempt (peer, profile, name),
                s'\<lparr>ws_disk := disk, ws_last_good := Some (peer, profile, name), ws_fails := fails + 1\<rparr>))))"

text \<open>What happens before the loop: the start state and the settings of the scans.\<close>

definition wg_super_setup ::
    "env \<Rightarrow> identity \<Rightarrow> last_connection toml_lib \<Rightarrow> text_file \<Rightarrow> string option \<Rightarrow> string option \<times> string option \<Rightarrow> wg_check \<Rightarrow>
       (wg_super \<times> string \<times> ip_scan) result" where
  "wg_super_setup env ident lib disk answer answers check =
     (case parse_ipv4 (id_ipv4 ident) of
        None \<Rightarrow> Inl invalid_ipv4
      | Some _ \<Rightarrow>
          (let quick = wg_quick env lib disk answer check
           in Inr (wg_super_start quick disk, scan_settings_for env (wg_forced env \<noteq> None \<or> quick \<noteq> None) answers)))"

subsection \<open>One MASQUE tunnel\<close>

type_synonym masque_check = "socket_addr \<Rightarrow> nat result"

record masque_super =
  ms_quick :: "socket_addr option"
  ms_last_good :: "socket_addr option"
  ms_disk :: text_file

definition quick_verify_masque_peer :: "env \<Rightarrow> verifiers \<Rightarrow> masque_check" where
  "quick_verify_masque_peer env v peer =
     (if h2_enabled_env env then vf_h2 v (h2_peer env peer) (secs 5) else vf_quic v peer (secs 5))"

definition masque_assigned :: "env \<Rightarrow> masque_check \<Rightarrow> socket_addr option" where
  "masque_assigned env check =
     Option.bind (assigned_endpoint env) (\<lambda>a. if answers_check (check a) then Some a else None)"

definition masque_remembered ::
    "env \<Rightarrow> last_connection toml_lib \<Rightarrow> text_file \<Rightarrow> string option \<Rightarrow> masque_check \<Rightarrow> socket_addr option" where
  "masque_remembered env lib disk answer check =
     (case lc_load lib disk of
        None \<Rightarrow> None
      | Some cached \<Rightarrow>
          (let ring = usable_peers cached (masque_carrier env)
           in if ring \<noteq> [] \<and> want_quick_reconnect env answer then find (\<lambda>p. answers_check (check p)) ring else None))"

definition masque_super_setup ::
    "env \<Rightarrow> last_connection toml_lib \<Rightarrow> text_file \<Rightarrow> string option \<Rightarrow> string option \<times> string option \<Rightarrow> masque_check \<Rightarrow>
       masque_super \<times> string \<times> ip_scan" where
  "masque_super_setup env lib disk answer answers check =
     (let forced = env ''AETHER_PEER'';
          quick = (if forced \<noteq> None then None
                   else case masque_assigned env check of
                          Some p \<Rightarrow> Some p
                        | None \<Rightarrow> masque_remembered env lib disk answer check)
      in (\<lparr>ms_quick = quick, ms_last_good = None, ms_disk = disk\<rparr>,
          scan_settings_for env (forced \<noteq> None \<or> quick \<noteq> None) answers))"

definition masque_choose_new ::
    "env \<Rightarrow> socket_addr result option \<Rightarrow> masque_super \<Rightarrow> (socket_addr attempt \<times> masque_super) result option" where
  "masque_choose_new env hunt s =
     (case env ''AETHER_PEER'' of
        Some p \<Rightarrow>
          (case parse_socket_addr p of Some peer \<Rightarrow> Some (Inr (Attempt peer, s)) | None \<Rightarrow> Some (Inl (bad_peer p)))
      | None \<Rightarrow>
          (case hunt of
             None \<Rightarrow> None
           | Some (Inr peer) \<Rightarrow> Some (Inr (Attempt peer, s))
           | Some (Inl e) \<Rightarrow> Some (Inr (Rescan, s))))"

definition masque_choose ::
    "env \<Rightarrow> masque_check \<Rightarrow> socket_addr result option \<Rightarrow> masque_super \<Rightarrow> (socket_addr attempt \<times> masque_super) result option" where
  "masque_choose env check hunt s =
     (case ms_quick s of
        Some p \<Rightarrow> Some (Inr (Attempt p, s\<lparr>ms_quick := None\<rparr>))
      | None \<Rightarrow>
          (case ms_last_good s of
             Some p \<Rightarrow> if answers_check (check p) then Some (Inr (Attempt p, s)) else masque_choose_new env hunt s
           | None \<Rightarrow> masque_choose_new env hunt s))"

definition masque_super_round ::
    "env \<Rightarrow> last_connection toml_lib \<Rightarrow> file_write \<Rightarrow> masque_check \<Rightarrow> socket_addr result option \<Rightarrow> masque_super \<Rightarrow>
       (socket_addr attempt \<times> masque_super) result option" where
  "masque_super_round env lib write check hunt s =
     (case masque_choose env check hunt s of
        None \<Rightarrow> None
      | Some (Inl e) \<Rightarrow> Some (Inl e)
      | Some (Inr (Rescan, s')) \<Rightarrow> Some (Inr (Rescan, s'))
      | Some (Inr (Attempt peer, s')) \<Rightarrow>
          (let profile = (case env ''AETHER_NOIZE'' of Some p \<Rightarrow> p | None \<Rightarrow> ''firewall'');
               disk = (if env ''AETHER_PEER'' = None
                       then lc_save lib write (ms_disk s') (socket_addr_to_string peer) profile (masque_carrier env)
                       else ms_disk s')
           in Some (Inr (Attempt peer, s'\<lparr>ms_disk := disk, ms_last_good := Some peer\<rparr>))))"

subsection \<open>Two MASQUE hops\<close>

text \<open>
  A round of \<^verbatim>\<open>run_mim\<close>: the outer gateway and the candidates for the inner one. No candidate ends the loop.
\<close>

definition mim_candidates :: "env \<Rightarrow> nested_state \<Rightarrow> socket_addr \<Rightarrow> nat list \<Rightarrow> u16 list \<Rightarrow> socket_addr list option" where
  "mim_candidates env s outer draws4 draws6 =
     (case ns_inner s of
        Some peer \<Rightarrow> Some [peer]
      | None \<Rightarrow> inner_masque_candidates outer MIM_INNER_TRIES (verified_scan_selected env (ns_settings s)) draws4 draws6)"

definition mim_outer ::
    "env \<Rightarrow> (string \<Rightarrow> ip_scan \<Rightarrow> socket_addr result option) \<Rightarrow> string option \<times> string option \<Rightarrow> nested_state \<Rightarrow>
       (socket_addr attempt \<times> nested_state) option" where
  "mim_outer env hunt answers s =
     (case ns_outer s of
        Some peer \<Rightarrow> Some (Attempt peer, s)
      | None \<Rightarrow>
          (let s' = ask_scan env answers s
           in case hunt (fst (settings_of s')) (snd (settings_of s')) of
                None \<Rightarrow> None
              | Some (Inr peer) \<Rightarrow> Some (Attempt peer, s')
              | Some (Inl e) \<Rightarrow> Some (Rescan, s')))"

definition no_second_edge :: aether_error where
  "no_second_edge = Other ''no second masque edge is known for the inner hop''"

definition mim_round ::
    "env \<Rightarrow> wiw_endpoints \<Rightarrow> (string \<Rightarrow> ip_scan \<Rightarrow> socket_addr result option) \<Rightarrow> string option \<times> string option \<Rightarrow> nat list \<Rightarrow>
       u16 list \<Rightarrow> nested_state \<Rightarrow> ((socket_addr \<times> socket_addr list) attempt \<times> nested_state) result option" where
  "mim_round env pinned hunt answers draws4 draws6 s =
     (case mim_outer env hunt answers (give_up_hops pinned s) of
        None \<Rightarrow> None
      | Some (Rescan, s') \<Rightarrow> Some (Inr (Rescan, s'))
      | Some (Attempt outer, s') \<Rightarrow>
          (case mim_candidates env s' outer draws4 draws6 of
             None \<Rightarrow> None
           | Some candidates \<Rightarrow>
               if candidates = [] then Some (Inl no_second_edge)
               else Some (Inr (Attempt (outer, candidates),
                      s'\<lparr>ns_outer := Some outer, ns_fails := ns_fails s' + 1\<rparr>))))"

text \<open>The inner gateways that \<^verbatim>\<open>run_masque_in_masque\<close> tries, in order.\<close>

definition mim_tried :: "socket_addr \<Rightarrow> socket_addr list \<Rightarrow> socket_addr list" where
  "mim_tried outer candidates = filter (\<lambda>c. sa_ip c \<noteq> sa_ip outer) candidates"

text \<open>The warning that the outer link is too small for an inner datagram.\<close>

definition mim_too_small :: "nat \<Rightarrow> socket_addr \<Rightarrow> bool \<Rightarrow> bool" where
  "mim_too_small outer_mtu inner_peer h2 \<longleftrightarrow> \<not> h2 \<and> outer_mtu < fst (mim_inner_budget outer_mtu inner_peer h2) + 28"

end
