(* ===== verification/Supervise_Props.thy ===== *)
theory Supervise_Props
  imports Supervise
begin

text \<open>
  What the supervising loops promise. The locale \<open>endpoint_search\<close> is the contract between a search for
  endpoints and the loops that use it; it is interpreted on the searches of the code.
\<close>

subsection \<open>The contract of a search\<close>

definition separate_from :: "ip_addr set \<Rightarrow> nat \<Rightarrow> socket_addr list \<Rightarrow> bool" where
  "separate_from avoid want ps \<longleftrightarrow>
     ps \<noteq> [] \<and> length ps \<le> want \<and> distinct (map sa_ip ps) \<and> sa_ip ` set ps \<inter> avoid = {}"

inductive gool_reach :: "env \<Rightarrow> wiw_endpoints \<Rightarrow> ('x \<Rightarrow> wg_search) \<Rightarrow> nested_state \<Rightarrow> bool"
  for env pinned search where
  start: "gool_reach env pinned search (nested_start pinned)"
| round: "gool_reach env pinned search s \<Longrightarrow> gool_round env pinned (search x) answers s = Some (a, s') \<Longrightarrow>
    gool_reach env pinned search s'"

definition hops_ok :: "wiw_endpoints \<Rightarrow> socket_addr option \<Rightarrow> socket_addr option \<Rightarrow> bool" where
  "hops_ok pinned outer inner \<longleftrightarrow>
     separate \<lparr>we_outer = outer, we_inner = inner\<rparr> \<and>
     (we_outer pinned \<noteq> None \<longrightarrow> outer = we_outer pinned) \<and> (we_inner pinned \<noteq> None \<longrightarrow> inner = we_inner pinned)"

lemma separate_simps [simp]:
  "separate \<lparr>we_outer = None, we_inner = i\<rparr>" "separate \<lparr>we_outer = x, we_inner = None\<rparr>"
  "separate \<lparr>we_outer = Some a, we_inner = Some b\<rparr> \<longleftrightarrow> sa_ip a \<noteq> sa_ip b"
  by (auto simp: separate_def)

lemma hops_ok_pinned: "separate pinned \<Longrightarrow> hops_ok pinned (we_outer pinned) (we_inner pinned)"
  by (cases pinned) (simp add: hops_ok_def)

lemma hops_ok_give_up:
  assumes "hops_ok pinned (ns_outer s) (ns_inner s)" and "ns_fails s \<le> 2"
  shows "hops_ok pinned (ns_outer (give_up_hops pinned s)) (ns_inner (give_up_hops pinned s))"
    and "ns_fails (give_up_hops pinned s) \<le> 1"
proof -
  show "hops_ok pinned (ns_outer (give_up_hops pinned s)) (ns_inner (give_up_hops pinned s))"
    using assms(1) unfolding give_up_hops_def hops_ok_def by (cases "we_outer pinned"; cases "we_inner pinned"; simp)
  show "ns_fails (give_up_hops pinned s) \<le> 1"
    using assms(2) by (simp add: give_up_hops_def MAX_CONSECUTIVE_FAILS_def)
qed

lemma fill_hops_keeps:
  assumes "fill_hops outer inner found = (outer', inner')"
  shows "outer \<noteq> None \<Longrightarrow> outer' = outer" and "inner \<noteq> None \<Longrightarrow> inner' = inner"
  using assms by (auto simp: fill_hops_def)

lemma fill_hops_separate:
  assumes "separate_from (sa_ip ` (set_option outer \<union> set_option inner)) want found"
    and "outer = None \<or> inner = None" and "fill_hops outer inner found = (Some a, Some b)"
  shows "sa_ip a \<noteq> sa_ip b"
proof -
  have d: "distinct (map sa_ip found)" and avoid: "\<And>p. p \<in> set found \<Longrightarrow> sa_ip p \<notin> sa_ip ` (set_option outer \<union> set_option inner)"
    using assms(1) by (auto simp: separate_from_def)
  show ?thesis
  proof (cases outer)
    case None
    show ?thesis
    proof (cases inner)
      case inner: None
      have "1 < length found" and ab: "a = found ! 0" "b = found ! 1"
        using assms(3) None inner by (auto simp: fill_hops_def get_at_def split: if_splits)
      then have "map sa_ip found ! 0 \<noteq> map sa_ip found ! 1" using d by (subst nth_eq_iff_index_eq) auto
      moreover have "map sa_ip found ! 0 = sa_ip a" and "map sa_ip found ! 1 = sa_ip b"
        using \<open>1 < length found\<close> by (simp_all add: ab) (metis Suc_lessD length_greater_0_conv nth_map zero_less_Suc less_trans)
      ultimately show ?thesis by simp
    next
      case (Some c)
      then have "b = c" "a \<in> set found"
        using assms(3) None by (auto simp: fill_hops_def get_at_def split: if_splits)
      then show ?thesis using avoid [of a] Some by auto
    qed
  next
    case (Some c)
    then have "a = c" "b \<in> set found"
      using assms(2,3) by (auto simp: fill_hops_def get_at_def split: if_splits)
    then show ?thesis using avoid [of b] Some by auto
  qed
qed

lemma ask_scan_hops [simp]:
  "ns_outer (ask_scan env answers s) = ns_outer s" "ns_inner (ask_scan env answers s) = ns_inner s"
  "ns_fails (ask_scan env answers s) = ns_fails s"
  by (auto simp: ask_scan_def split: option.splits)

text \<open>The cases of a choice.\<close>

lemma choose_hops_cases:
  assumes "choose_hops env pinned search answers s = Some (a, s')"
  obtains (known) outer inner where "ns_outer s = Some outer" "ns_inner s = Some inner" "a = Attempt (outer, inner)" "s' = s"
  | (failed) "a = Rescan" "s' = ask_scan env answers s"
  | (found) m ip want found outer inner where "ns_outer s = None \<or> ns_inner s = None" "want \<le> 2"
      "search m ip want (sa_ip ` (set_option (ns_outer s) \<union> set_option (ns_inner s))) = Some (Inr found)"
      "fill_hops (ns_outer s) (ns_inner s) found = (Some outer, Some inner) \<or>
       fill_hops (ns_outer s) (ns_inner s) (spread_hops found) = (Some outer, Some inner)"
      "a = Attempt (outer, inner)" "s' = ask_scan env answers s"
  | (one) "a = Rescan" "s' = (ask_scan env answers s)\<lparr>ns_outer := we_outer pinned, ns_inner := we_inner pinned\<rparr>"
proof (cases "ns_outer s \<noteq> None \<and> ns_inner s \<noteq> None")
  case True
  then obtain p q where "ns_outer s = Some p" "ns_inner s = Some q" by auto
  then show ?thesis using assms by (intro known [of p q]) (auto simp: choose_hops_def)
next
  case False
  define want where "want = (if ns_outer s = None then 1 else 0) + (if ns_inner s = None then 1 else 0 :: nat)"
  let ?s = "ask_scan env answers s"
  let ?avoid = "sa_ip ` (set_option (ns_outer s) \<union> set_option (ns_inner s))"
  have "search_hops env pinned search answers s = Some (a, s')"
    using assms False by (auto simp: choose_hops_def split: option.splits)
  then obtain r where r: "search (fst (settings_of ?s)) (snd (settings_of ?s)) want ?avoid = Some r"
    and run: "search_hops env pinned search answers s = Some (a, s')"
    unfolding search_hops_def want_def Let_def by (auto split: option.splits)
  show ?thesis
  proof (cases r)
    case (Inl e)
    show ?thesis using run r unfolding search_hops_def want_def [symmetric] Let_def by (intro failed) (simp_all add: Inl)
  next
    case (Inr ps)
    define ps' where "ps' = (if verified_scan_selected env (ns_settings ?s) then spread_hops ps else ps)"
    have run': "(case fill_hops (ns_outer s) (ns_inner s) ps' of
          (Some outer, Some inner) \<Rightarrow> Some (Attempt (outer, inner), ?s)
        | _ \<Rightarrow> Some (Rescan, ?s\<lparr>ns_outer := we_outer pinned, ns_inner := we_inner pinned\<rparr>)) = Some (a, s')"
      using run r unfolding search_hops_def want_def [symmetric] Let_def by (simp add: Inr ps'_def)
    obtain o1 i1 where f: "fill_hops (ns_outer s) (ns_inner s) ps' = (o1, i1)"
      by (cases "fill_hops (ns_outer s) (ns_inner s) ps'")
    show ?thesis
    proof (cases "o1 \<noteq> None \<and> i1 \<noteq> None")
      case True
      then obtain x y where xy: "o1 = Some x" "i1 = Some y" by auto
      have "want \<le> 2" by (simp add: want_def)
      moreover have "fill_hops (ns_outer s) (ns_inner s) ps = (Some x, Some y) \<or>
          fill_hops (ns_outer s) (ns_inner s) (spread_hops ps) = (Some x, Some y)"
        using f xy by (auto simp: ps'_def split: if_splits)
      ultimately show ?thesis
        using False run' r Inr f xy by (intro found [of want _ _ ps x y]) auto
    next
      case out: False
      show ?thesis using run' f out by (intro one) (auto split: option.splits)
    qed
  qed
qed

locale endpoint_search =
  fixes search :: "'x \<Rightarrow> wg_search"
  assumes found_separate: "search x mode ip want avoid = Some (Inr ps) \<Longrightarrow> separate_from avoid want ps"
begin

lemma choose_hops_ok:
  assumes ok: "hops_ok pinned (ns_outer s) (ns_inner s)" and sep: "separate pinned"
    and run: "choose_hops env pinned (search x) answers s = Some (a, s')"
  shows "ns_fails s' = ns_fails s \<and> hops_ok pinned (ns_outer s') (ns_inner s') \<and>
    (\<forall>outer inner. a = Attempt (outer, inner) \<longrightarrow> hops_ok pinned (Some outer) (Some inner))"
  using run
proof (cases rule: choose_hops_cases)
  case (found m ip want ps p q)
  have ps: "separate_from (sa_ip ` (set_option (ns_outer s) \<union> set_option (ns_inner s))) want ps"
    by (rule found_separate [OF found(3)])
  then have "spread_hops ps = ps"
    using found(2) by (intro spread_hops_two) (auto simp: separate_from_def)
  with found(4) have fill: "fill_hops (ns_outer s) (ns_inner s) ps = (Some p, Some q)" by auto
  have "hops_ok pinned (Some p) (Some q)"
    using fill_hops_keeps [OF fill] fill_hops_separate [OF ps found(1) fill] ok
    unfolding hops_ok_def by (cases "we_outer pinned"; cases "we_inner pinned"; simp)
  with found(5,6) ok show ?thesis by simp
next
  case (known outer inner)
  with ok show ?thesis by simp
next
  case failed
  with ok show ?thesis by simp
next
  case one
  with hops_ok_pinned [OF sep] show ?thesis by simp
qed

lemma gool_round_ok:
  assumes "hops_ok pinned (ns_outer s) (ns_inner s)" and "ns_fails s \<le> 2" and "separate pinned"
    and "gool_round env pinned (search x) answers s = Some (a, s')"
  shows "hops_ok pinned (ns_outer s') (ns_inner s') \<and> ns_fails s' \<le> 2 \<and>
    (\<forall>outer inner. a = Attempt (outer, inner) \<longrightarrow>
       hops_ok pinned (Some outer) (Some inner) \<and> ns_outer s' = Some outer \<and> ns_inner s' = Some inner)"
proof -
  let ?s = "give_up_hops pinned s"
  note ok = hops_ok_give_up(1) [OF assms(1,2)] and fails = hops_ok_give_up(2) [OF assms(1,2)]
  obtain b s1 where run: "choose_hops env pinned (search x) answers ?s = Some (b, s1)"
    using assms(4) by (auto simp: gool_round_def split: option.splits)
  show ?thesis
    using choose_hops_ok [OF ok assms(3) run] fails assms(4) run
    by (cases b) (auto simp: gool_round_def)
qed

lemma gool_reach_ok:
  assumes "gool_reach env pinned search s" and "separate pinned"
  shows "hops_ok pinned (ns_outer s) (ns_inner s) \<and> ns_fails s \<le> 2"
  using assms
proof induction
  case start
  then show ?case by (simp add: nested_start_def hops_ok_pinned)
next
  case (round s x answers a s')
  then show ?case using gool_round_ok by blast
qed

end

subsection \<open>The searches meet the contract\<close>

text \<open>What a search returns is on different addresses and comes from its candidates.\<close>

definition picks_from :: "(probe_result \<Rightarrow> bool) \<Rightarrow> probe_result list \<Rightarrow> bool" where
  "picks_from P rs \<longleftrightarrow> rs \<noteq> [] \<and> distinct (map pr_ip rs) \<and> (\<forall>pr \<in> set rs. P pr)"

lemma wg_finish_picks:
  assumes "wg_finish want s = Inr rs" and "0 < want" and "\<forall>pr \<in> set (wh_verified s). P pr"
  shows "picks_from P rs"
proof -
  let ?d = "distinct_by_ip (wh_verified s)"
  have rs: "rs = take want ?d" "?d \<noteq> []"
    using assms(1) by (auto simp: wg_finish_def Let_def split: if_splits)
  moreover have "distinct (map pr_ip ?d)" "set ?d \<subseteq> set (wh_verified s)"
    using first_by_ip_distinct first_by_ip_set(1) [of "{}" "sort_key pr_rtt (wh_verified s)"]
    by (simp_all add: distinct_by_ip_def)
  ultimately show ?thesis
    using assms(2,3) by (auto simp: picks_from_def take_map [symmetric] distinct_take dest!: in_set_takeD)
qed

definition hunt_sound :: "(probe_result \<Rightarrow> bool) \<Rightarrow> (ip_addr \<times> u16 \<Rightarrow> probe_result option) \<Rightarrow> wg_hunt_state \<Rightarrow> bool" where
  "hunt_sound P verify s \<longleftrightarrow>
     (\<forall>pr \<in> set (wh_verified s). P pr) \<and> (\<forall>c \<in> set (waiting (wh_stream s)). \<forall>pr. verify c = Some pr \<longrightarrow> P pr)"

lemma next_probe_member:
  assumes "next_probe limit k b = (c, b')"
  shows "set_option c \<union> set (waiting b') \<subseteq> set (waiting b)"
proof -
  have w: "set (waiting (start_probes limit b)) = set (waiting b)" by simp
  show ?thesis
    using assms unfolding next_probe_def Let_def w [symmetric]
    by (auto simp: waiting_def split: if_splits dest: in_set_takeD in_set_dropD)
qed

lemma wg_hit_sound:
  assumes "hunt_sound P verify s" and "P pr" and "0 < want"
  shows "wg_hit st want now pr s = Inl s' \<Longrightarrow> hunt_sound P verify s'"
    and "wg_hit st want now pr s = Inr (Inr rs, s') \<Longrightarrow> picks_from P rs"
proof -
  define s1 where "s1 = s\<lparr>wh_verified := wh_verified s @ [pr], wh_found := wh_found s + 1\<rparr>"
  have s1: "hunt_sound P verify s1" using assms(1,2) by (auto simp: hunt_sound_def s1_def)
  then have fin: "picks_from P rs" if "wg_finish want s1 = Inr rs" for rs
    using that assms(3) by (intro wg_finish_picks) (auto simp: hunt_sound_def)
  have one: "picks_from P [pr]" using assms(2) by (simp add: picks_from_def)
  have hit: "wg_hit st want now pr s =
      (if st_early_exit_first st then Inr (Inr [pr], s)
       else if want \<le> length (distinct_by_ip (wh_verified s1)) \<and> 1 < want then Inr (wg_finish want s1, s1)
       else if 0 < st_target_successes st \<and> st_target_successes st \<le> wh_found s1 \<and> wh_quiet_until s1 = None
       then (if st_quiet_after_first st \<noteq> 0
             then Inl (s1\<lparr>wh_quiet_until := Some (now + st_quiet_after_first st)\<rparr>)
             else Inr (wg_finish want s1, s1))
       else Inl s1)"
    unfolding wg_hit_def Let_def s1_def by (rule refl)
  show "wg_hit st want now pr s = Inl s' \<Longrightarrow> hunt_sound P verify s'"
    unfolding hit using s1 by (auto simp: hunt_sound_def split: if_splits)
  show "wg_hit st want now pr s = Inr (Inr rs, s') \<Longrightarrow> picks_from P rs"
    unfolding hit using one fin by (auto split: if_splits)
qed

lemma wg_round_sound:
  assumes "hunt_sound P verify s" and "0 < want"
  shows "wg_hunt_round st want deadline verify r s = Inl s' \<Longrightarrow> hunt_sound P verify s'"
    and "wg_hunt_round st want deadline verify r s = Inr (Inr rs, s') \<Longrightarrow> picks_from P rs"
proof -
  obtain now ev where r: "r = (now, ev)" by (cases r)
  have fin: "picks_from P rs" if "wg_finish want s = Inr rs" for rs
    using that assms by (intro wg_finish_picks) (auto simp: hunt_sound_def)
  have next_ok: "hunt_sound P verify (s\<lparr>wh_stream := b\<rparr>)" "\<And>c pr. oc = Some c \<Longrightarrow> verify c = Some pr \<Longrightarrow> P pr"
    if "next_probe limit k (wh_stream s) = (oc, b)" for limit k oc b
    using next_probe_member [OF that] assms(1) by (auto simp: hunt_sound_def)
  show "wg_hunt_round st want deadline verify r s = Inl s' \<Longrightarrow> hunt_sound P verify s'"
    using next_ok by (fastforce simp: wg_hunt_round_def r split: if_splits scan_event.splits prod.splits option.splits
        dest: wg_hit_sound(1) [OF _ _ assms(2)])
  show "wg_hunt_round st want deadline verify r s = Inr (Inr rs, s') \<Longrightarrow> picks_from P rs"
    using next_ok fin by (fastforce simp: wg_hunt_round_def r split: if_splits scan_event.splits prod.splits option.splits
        dest: wg_hit_sound(2) [OF _ _ assms(2)])
qed

lemma wg_loop_sound:
  assumes "wg_hunt_loop st want deadline verify s rounds = Some (Inr rs, s')" and "hunt_sound P verify s" and "0 < want"
  shows "picks_from P rs"
  using assms
proof (induction rounds arbitrary: s)
  case (Cons r rounds)
  then show ?case
    using wg_round_sound [OF Cons.prems(2,3), of st deadline r]
    by (cases "wg_hunt_round st want deadline verify r s") auto
qed simp

lemma verify_one_wg_peer: "verify_one_wg v t ironclad c = Some pr \<Longrightarrow> (pr_ip pr, pr_port pr) = c"
  by (cases c) (auto simp: verify_one_wg_def split: sum.splits if_splits)

lemma wg_candidates_allowed:
  assumes "build_wg_candidates env st ports ip excluded draws4 draws6 = Some cs" and "(a, p) \<in> set cs"
  shows "\<lparr>sa_ip = a, sa_port = p\<rparr> \<notin> excluded"
  using assms by (auto simp: build_wg_candidates_def Let_def wg_push_facts split: option.splits)

lemma hunt_wg_endpoints_picks:
  assumes "hunt_wg_endpoints env tuning v ports ip excluded has_v6 mode want draws4 draws6 start rounds = Some (Inr rs)"
  shows "picks_from (\<lambda>pr. peer_of pr \<notin> excluded) rs"
proof -
  define n where "n = max want 1"
  define st where "st = wg_strategy_for tuning mode n"
  obtain ip' cs s' where cs: "build_wg_candidates env st ports ip' excluded draws4 draws6 = Some cs"
    and run: "wg_hunt_loop st n (start + st_overall_deadline st)
      (verify_one_wg v (st_per_probe_timeout st) (mode = WgIronclad)) (wg_hunt_start cs) rounds = Some (Inr rs, s')"
    using assms unfolding hunt_wg_endpoints_def Let_def n_def [symmetric] st_def [symmetric]
    by (auto split: option.splits)
  have "hunt_sound (\<lambda>pr. peer_of pr \<notin> excluded) (verify_one_wg v (st_per_probe_timeout st) (mode = WgIronclad)) (wg_hunt_start cs)"
    using wg_candidates_allowed [OF cs]
    by (auto simp: hunt_sound_def wg_hunt_start_def waiting_def peer_of_def dest: verify_one_wg_peer)
  then show ?thesis by (rule wg_loop_sound [OF run]) (simp add: n_def)
qed

lemma select_wg_peers_separate:
  fixes v :: "'w wg_verify"
  assumes "select_wg_peers env tuning v ident mode_str ip want avoid w = Some (Inr ps)"
  shows "separate_from avoid want ps"
proof -
  obtain v' :: "'w wg_verifiers" and rs where run: "hunt_wg_endpoints env tuning v' WG_PORTS ip (avoided avoid) (sw_has_v6 w)
      (wg_scan_mode_parse mode_str) want (sw_draws4 w) (sw_draws6 w) (sw_start w) (sw_rounds w) = Some (Inr rs)"
    and ps: "ps = map peer_of (take want (filter (\<lambda>pr. pr_ip pr \<notin> avoid) rs))" and ne: "ps \<noteq> []"
    using assms by (auto simp: select_wg_peers_def Let_def res_bind_Inr_iff split: option.splits if_splits)
  have "distinct (map pr_ip rs)" using hunt_wg_endpoints_picks [OF run] by (simp add: picks_from_def)
  then have "distinct (map pr_ip (take want (filter (\<lambda>pr. pr_ip pr \<notin> avoid) rs)))"
    by (simp add: take_map [symmetric] distinct_take distinct_map_filter)
  then show ?thesis
    using ne by (auto simp: separate_from_def ps peer_of_def comp_def dest!: in_set_takeD)
qed

interpretation wg_peers: endpoint_search "\<lambda>w mode ip want avoid. select_wg_peers env tuning v ident mode ip want avoid w"
  for env tuning and v :: "'w wg_verify" and ident
  by unfold_locales (rule select_wg_peers_separate)

text \<open>
  C20. Two nested WireGuard hops: whatever the searches find and however often the tunnels end, every attempt of
  the supervising loop has its hops on different addresses, so the check that \<^verbatim>\<open>run_warp_in_warp\<close> starts
  with never fails; a hop that was named by hand is always used as it was named; and after two ends in a
  row the next attempt has no hop of the last one that was not named, unless a search finds it again.
\<close>

theorem gool_hops_separate:
  assumes "wiw_endpoints_with_fallback (env_value env) = Inr pinned"
    and "gool_reach env pinned (\<lambda>w mode ip want avoid. select_wg_peers env tuning v ident mode ip want avoid w) s"
    and "gool_round env pinned (\<lambda>mode ip want avoid. select_wg_peers env tuning v ident mode ip want avoid w) answers s =
           Some (Attempt (outer, inner), s')"
  shows "run_warp_in_warp_check outer inner = Inr () \<and>
    (\<forall>p. we_outer pinned = Some p \<longrightarrow> outer = p) \<and> (\<forall>p. we_inner pinned = Some p \<longrightarrow> inner = p) \<and>
    (ns_fails s < 2 \<and> ns_outer s \<noteq> None \<and> ns_inner s \<noteq> None \<longrightarrow> ns_outer s = Some outer \<and> ns_inner s = Some inner) \<and>
    (2 \<le> ns_fails s \<longrightarrow>
       give_up_hops pinned s = s\<lparr>ns_outer := we_outer pinned, ns_inner := we_inner pinned, ns_fails := 0\<rparr>) \<and>
    ns_fails s' \<le> 2"
proof -
  have sep: "separate pinned" by (rule wiw_fallback_separate [OF assms(1)])
  note inv = wg_peers.gool_reach_ok [OF assms(2) sep]
  have "hops_ok pinned (Some outer) (Some inner)" and "ns_fails s' \<le> 2"
    using wg_peers.gool_round_ok [OF _ _ sep assms(3)] inv by auto
  moreover have "ns_outer s = Some outer \<and> ns_inner s = Some inner"
    if "ns_fails s < 2" "ns_outer s \<noteq> None" "ns_inner s \<noteq> None"
    using assms(3) that by (auto simp: gool_round_def give_up_hops_def choose_hops_def MAX_CONSECUTIVE_FAILS_def)
  moreover have "give_up_hops pinned s = s\<lparr>ns_outer := we_outer pinned, ns_inner := we_inner pinned, ns_fails := 0\<rparr>"
    if "2 \<le> ns_fails s"
    using that inv by (cases s) (auto simp: give_up_hops_def MAX_CONSECUTIVE_FAILS_def hops_ok_def)
  ultimately show ?thesis by (auto simp: run_warp_in_warp_check_def hops_ok_def)
qed

definition two_hops_env :: env where
  "two_hops_env = [''AETHER_WIW_OUTER_PEER'' \<mapsto> ''1.1.1.1:1'', ''AETHER_WIW_INNER_PEER'' \<mapsto> ''2.2.2.2:2'']"

definition two_hops :: wiw_endpoints where
  "two_hops = \<lparr>we_outer = Some \<lparr>sa_ip = V4 0x01010101, sa_port = 1\<rparr>, we_inner = Some \<lparr>sa_ip = V4 0x02020202, sa_port = 2\<rparr>\<rparr>"

lemma parse_two_hops: "wiw_endpoints_with_fallback (env_value two_hops_env) = Inr two_hops"
proof -
  have t: "trim ''1.1.1.1:1'' = ''1.1.1.1:1''" "trim ''2.2.2.2:2'' = ''2.2.2.2:2''"
    by (simp_all add: trim_graphic ascii_graphic_def)
  have v: "env_value two_hops_env ''AETHER_WIW_OUTER_PEER'' = Some ''1.1.1.1:1''"
    "env_value two_hops_env ''AETHER_WIW_INNER_PEER'' = Some ''2.2.2.2:2''"
    "env_value two_hops_env ''AETHER_WIW_PEERS'' = None"
    by (simp_all add: env_value_def two_hops_env_def t)
  have p: "parse_endpoint ''1.1.1.1:1'' = Inr \<lparr>sa_ip = V4 0x01010101, sa_port = 1\<rparr>"
    "parse_endpoint ''2.2.2.2:2'' = Inr \<lparr>sa_ip = V4 0x02020202, sa_port = 2\<rparr>"
    by (simp_all add: parse_endpoint_def t parse_socket_addr_def read_socket_addr_def read_port_def ip_read)
  show ?thesis
    by (simp add: wiw_endpoints_with_fallback_def wiw_endpoints_of_def nested_endpoints_of_def listed_hops_def v p
        no_endpoints_def checked_def two_hops_def)
qed

definition silent_verify :: "unit wg_verify" where
  "silent_verify ident ip profile =
     \<lparr>wv_handshake = (\<lambda>_ _. Inl NoCleanEndpoint), wv_http_ping = (\<lambda>_. Inl NoCleanEndpoint)\<rparr>"

definition plain_identity :: identity where
  "plain_identity =
     \<lparr>id_device_id = ''d'', id_access_token = ''t'', id_cert_pem = [], id_key_pem = [], id_cert_issued_at = 0,
      id_ipv4 = ''172.16.0.2'', id_ipv6 = [], id_wg_private_key = replicate 32 0, id_wg_peer_public_key = replicate 32 0,
      id_client_id = [0, 0, 0], id_organization = [], id_gateway_proxy = [], id_assigned_endpoint = [], id_refused = False\<rparr>"

definition empty_world :: scan_world where
  "empty_world = \<lparr>sw_has_v6 = False, sw_draws4 = (\<lambda>_. []), sw_draws6 = (\<lambda>_. []), sw_start = 0, sw_rounds = []\<rparr>"

theorem gool_hops_separate_witness:
  "run_warp_in_warp_check \<lparr>sa_ip = V4 0x01010101, sa_port = 1\<rparr> \<lparr>sa_ip = V4 0x02020202, sa_port = 2\<rparr> = Inr ()"
  using gool_hops_separate [OF parse_two_hops gool_reach.start,
      of small_tuning silent_verify plain_identity empty_world "(None, None)" "\<lparr>sa_ip = V4 0x01010101, sa_port = 1\<rparr>"
        "\<lparr>sa_ip = V4 0x02020202, sa_port = 2\<rparr>"]
  by (simp add: gool_round_def nested_start_def give_up_hops_def choose_hops_def two_hops_def MAX_CONSECUTIVE_FAILS_def)

end
