(* ===== verification/Supervise_Wg.thy ===== *)
theory Supervise_Wg
  imports Supervise_Props
begin

text \<open>
  The loop around one WireGuard tunnel: an endpoint that ended twice in a row rests for the cooldown. The
  locale \<open>excluding_search\<close> is what the loop asks of its search; \<open>hunt_wg_peer\<close> provides it.
\<close>

text \<open>The states of the loop with the time of the last round; time does not run backwards.\<close>

inductive wg_super_reach ::
    "env \<Rightarrow> last_connection toml_lib \<Rightarrow> ('x \<Rightarrow> socket_addr set \<Rightarrow> wg_choice result option) \<Rightarrow> nat \<Rightarrow> wg_super \<Rightarrow> bool"
  for env lib hunt where
  start: "wg_super_reach env lib hunt 0 (wg_super_start quick disk)"
| round: "wg_super_reach env lib hunt t s \<Longrightarrow> t \<le> now \<Longrightarrow>
    wg_super_round env lib write check (hunt x) now s = Some (Inr (a, s')) \<Longrightarrow> wg_super_reach env lib hunt now s'"

definition resting :: "wg_super \<Rightarrow> nat \<Rightarrow> socket_addr \<Rightarrow> bool" where
  "resting s now p \<longleftrightarrow> (\<exists>until. ws_cooldowns s p = Some until \<and> now < until)"

definition wg_super_inv :: "wg_super \<Rightarrow> bool" where
  "wg_super_inv s \<longleftrightarrow>
     (ws_quick s \<noteq> None \<longrightarrow> ws_cooldowns s = Map.empty \<and> ws_last_good s = None \<and> ws_fails s = 0) \<and>
     (\<forall>p c n. ws_last_good s = Some (p, c, n) \<longrightarrow> ws_cooldowns s p = None) \<and>
     (ws_last_good s = None \<longrightarrow> ws_fails s = 0) \<and> ws_fails s \<le> 2"

lemma cool_down_inv: "wg_super_inv s \<Longrightarrow> wg_super_inv (cool_down env now s)"
  by (auto simp: wg_super_inv_def cool_down_def Let_def MAX_CONSECUTIVE_FAILS_def fun_eq_iff split: option.splits)


lemma cool_down_keeps:
  assumes "wg_super_inv s" and "ws_cooldowns s p = Some until" and "now < until"
  shows "ws_cooldowns (cool_down env now s) p = Some until"
proof (cases "ws_last_good s")
  case None
  then show ?thesis using assms by (simp add: cool_down_def Let_def)
next
  case (Some c)
  then have "fst c \<noteq> p" using assms(1,2) by (cases c) (auto simp: wg_super_inv_def)
  then show ?thesis using assms(2,3) Some by (cases c) (simp add: cool_down_def Let_def)
qed

lemma cool_down_rests:
  assumes "2 \<le> ws_fails s" and "ws_last_good s = Some (p, c, n)"
  shows "ws_cooldowns (cool_down env now s) p = Some (now + wg_endpoint_cooldown env)"
    and "ws_last_good (cool_down env now s) = None" and "ws_quick (cool_down env now s) = ws_quick s"
  using assms by (simp_all add: cool_down_def Let_def MAX_CONSECUTIVE_FAILS_def)

text \<open>The choice does not touch the counters; it keeps the last endpoint or comes from the search.\<close>

lemma wg_choose_cases:
  assumes "wg_choose env check hunt s = Some (Inr (a, s'))"
  shows "s' = s\<lparr>ws_quick := None\<rparr> \<and>
    (\<forall>c. a = Attempt c \<longrightarrow>
       ws_quick s = Some c \<or> ws_last_good s = Some c \<and> answers_check (check (fst c) (fst (snd c)) (secs 6)) \<or>
       wg_forced env \<noteq> None \<and> answers_check (check (fst c) (fst (snd c)) (secs 10)) \<or>
       wg_forced env = None \<and> hunt (dom (ws_cooldowns s)) = Some (Inr c))"
proof -
  have first: "answers_check (check (fst c) (fst (snd c)) limit)" if "first_profile check p limit cs = Some c" for p limit cs c
    using that by (auto simp: first_profile_def find_Some_iff)
  have idle: "s\<lparr>ws_quick := None\<rparr> = s" if "ws_quick s = None" using that by simp
  show ?thesis
    using assms first idle
    by (auto simp: wg_choose_def wg_choose_new_def split: option.splits if_splits sum.splits)
qed

lemma wg_super_round_cases:
  assumes "wg_super_round env lib write check hunt now s = Some (Inr (a, s'))"
  obtains s1 where "wg_choose env check hunt (cool_down env now s) = Some (Inr (a, s1))"
    and "ws_quick s' = ws_quick s1" and "ws_cooldowns s' = ws_cooldowns s1"
    and "a = Rescan \<Longrightarrow> ws_last_good s' = ws_last_good s1 \<and> ws_fails s' = ws_fails s1"
    and "\<And>c. a = Attempt c \<Longrightarrow> ws_last_good s' = Some c \<and>
      ws_fails s' = (if map_option fst (ws_last_good s1) = Some (fst c) then ws_fails s1 else 0) + 1"
proof -
  obtain b s1 where run: "wg_choose env check hunt (cool_down env now s) = Some (Inr (b, s1))"
    using assms by (auto simp: wg_super_round_def split: option.splits sum.splits)
  show thesis
    using assms run by (intro that [of s1]; cases b) (auto simp: wg_super_round_def Let_def)
qed

locale excluding_search =
  fixes hunt :: "'x \<Rightarrow> socket_addr set \<Rightarrow> wg_choice result option"
  assumes not_excluded: "hunt x excluded = Some (Inr c) \<Longrightarrow> fst c \<notin> excluded"
begin

lemma round_inv:
  assumes inv: "wg_super_inv s" and free: "wg_forced env = None"
    and run: "wg_super_round env lib write check (hunt x) now s = Some (Inr (a, s'))"
  shows "wg_super_inv s' \<and> (\<forall>c. a = Attempt c \<longrightarrow> \<not> resting s now (fst c))"
proof -
  let ?s = "cool_down env now s"
  obtain s1 where choose: "wg_choose env check (hunt x) ?s = Some (Inr (a, s1))"
    and quick: "ws_quick s' = ws_quick s1" and cool: "ws_cooldowns s' = ws_cooldowns s1"
    and rescan: "a = Rescan \<Longrightarrow> ws_last_good s' = ws_last_good s1 \<and> ws_fails s' = ws_fails s1"
    and attempt: "\<And>c. a = Attempt c \<Longrightarrow> ws_last_good s' = Some c \<and>
      ws_fails s' = (if map_option fst (ws_last_good s1) = Some (fst c) then ws_fails s1 else 0) + 1"
    by (rule wg_super_round_cases [OF run]) blast
  have inv1: "wg_super_inv ?s" by (rule cool_down_inv [OF inv])
  have s1: "s1 = ?s\<lparr>ws_quick := None\<rparr>" using wg_choose_cases [OF choose] by simp
  have less: "ws_fails ?s \<le> 1"
    using inv by (auto simp: wg_super_inv_def cool_down_def Let_def MAX_CONSECUTIVE_FAILS_def split: option.splits)
  have fresh: "ws_cooldowns ?s (fst c) = None" if a: "a = Attempt c" for c
  proof -
    consider "ws_quick ?s = Some c" | "ws_last_good ?s = Some c" | "hunt x (dom (ws_cooldowns ?s)) = Some (Inr c)"
      using wg_choose_cases [OF choose] a free by blast
    then show ?thesis
    proof cases
      case 3
      from not_excluded [OF this] show ?thesis by auto
    qed (use inv1 in \<open>cases c; auto simp: wg_super_inv_def\<close>)+
  qed
  have "wg_super_inv s'"
  proof (cases a)
    case Rescan
    then show ?thesis using rescan inv1 quick cool by (auto simp: wg_super_inv_def s1)
  next
    case (Attempt c)
    then show ?thesis
      using attempt [OF Attempt] fresh [OF Attempt] less quick cool by (cases c) (auto simp: wg_super_inv_def s1)
  qed
  moreover have "\<not> resting s now (fst c)" if "a = Attempt c" for c
    using fresh [OF that] cool_down_keeps [OF inv, of "fst c"] by (auto simp: resting_def)
  ultimately show ?thesis by blast
qed

lemma super_reach_inv:
  assumes "wg_super_reach env lib hunt t s" and "wg_forced env = None"
  shows "wg_super_inv s"
  using assms
proof induction
  case (start quick disk)
  then show ?case by (simp add: wg_super_start_def wg_super_inv_def)
next
  case (round t s now w check x a s')
  then show ?case using round_inv by blast
qed

end

lemma hunt_wg_peer_allowed:
  assumes "hunt_wg_peer hunt cs ws = Some (Inr c)"
    and "\<And>profile w peer. hunt profile w = Some (Inr peer) \<Longrightarrow> peer \<notin> excluded"
  shows "fst c \<notin> excluded"
  using assms by (induction hunt cs ws rule: hunt_wg_peer.induct) (auto split: option.splits sum.splits)

lemma hunt_best_head:
  assumes "hunt_best_wg_endpoint env tuning v ports ip excluded has_v6 mode d4 d6 start rounds = Some (Inr pr)"
  obtains rs where "hunt_wg_endpoints env tuning v ports ip excluded has_v6 mode 1 d4 d6 start rounds = Some (Inr (pr # rs))"
proof -
  define r where "r = hunt_wg_endpoints env tuning v ports ip excluded has_v6 mode 1 d4 d6 start rounds"
  have "map_option (\<lambda>r. case r of Inl e \<Rightarrow> Inl e | Inr [] \<Rightarrow> Inl NoCleanEndpoint | Inr (pr # _) \<Rightarrow> Inr pr) r = Some (Inr pr)"
    using assms by (simp add: hunt_best_wg_endpoint_def r_def)
  then obtain x where x: "r = Some x" "(case x of Inl e \<Rightarrow> Inl e | Inr [] \<Rightarrow> Inl NoCleanEndpoint | Inr (pr # _) \<Rightarrow> Inr pr) = (Inr pr :: probe_result result)"
    by auto
  then obtain rs where "x = Inr (pr # rs)" by (cases x) (auto split: list.splits)
  then show thesis using that x(1) by (simp add: r_def)
qed

lemma hunt_with_profile_allowed:
  assumes "hunt_wg_peer_with_profile env tuning v ident mode ip profile excluded w = Some (Inr peer)"
  shows "peer \<notin> excluded"
proof -
  obtain ip4 pr where best: "hunt_best_wg_endpoint env tuning (v ident ip4 profile) WG_PORTS ip excluded (sw_has_v6 w)
      (wg_scan_mode_parse mode) (sw_draws4 w) (sw_draws6 w) (sw_start w) (sw_rounds w) = Some (Inr pr)"
    and "peer = peer_of pr"
    using assms by (auto simp: hunt_wg_peer_with_profile_def res_bind_Inr_iff split: option.splits)
  moreover from best obtain rs where "hunt_wg_endpoints env tuning (v ident ip4 profile) WG_PORTS ip excluded (sw_has_v6 w)
      (wg_scan_mode_parse mode) 1 (sw_draws4 w) (sw_draws6 w) (sw_start w) (sw_rounds w) = Some (Inr (pr # rs))"
    by (rule hunt_best_head)
  ultimately show ?thesis using hunt_wg_endpoints_picks by (fastforce simp: picks_from_def)
qed

interpretation wg_hunts: excluding_search
  "\<lambda>ws excluded. hunt_wg_peer (\<lambda>profile w. hunt_wg_peer_with_profile env tuning v ident mode ip profile excluded w)
     (wg_profile_candidates env) ws"
  for env tuning and v :: "'w wg_verify" and ident mode ip
  by unfold_locales (rule hunt_wg_peer_allowed, assumption, erule hunt_with_profile_allowed)

text \<open>
  C19. The loop around one WireGuard tunnel, when no address is forced. No attempt is on an endpoint that
  rests. An endpoint whose tunnel ended twice in a row rests from the next round for the cooldown, and an
  entry stays until its time is over. Ends count only while the attempts stay on one endpoint.
\<close>

theorem wg_failed_endpoint_rests:
  assumes "wg_forced env = None"
    and "wg_super_reach env lib (\<lambda>ws excluded. hunt_wg_peer (\<lambda>profile w. hunt_wg_peer_with_profile env tuning v ident mode ip
           profile excluded w) (wg_profile_candidates env) ws) t s"
    and "wg_super_round env lib write check (\<lambda>excluded. hunt_wg_peer (\<lambda>profile w. hunt_wg_peer_with_profile env tuning v
           ident mode ip profile excluded w) (wg_profile_candidates env) ws) now s = Some (Inr (a, s'))"
  shows "(\<forall>c. a = Attempt c \<longrightarrow> \<not> resting s now (fst c)) \<and>
    (\<forall>p c n. ws_fails s = 2 \<and> ws_last_good s = Some (p, c, n) \<longrightarrow>
       ws_cooldowns s' p = Some (now + wg_endpoint_cooldown env) \<and> (\<forall>c. a = Attempt c \<longrightarrow> fst c \<noteq> p)) \<and>
    (\<forall>p until. ws_cooldowns s p = Some until \<and> now < until \<longrightarrow> ws_cooldowns s' p = Some until) \<and>
    (\<forall>c. a = Attempt c \<longrightarrow>
       ws_fails s' = (if ws_fails s < 2 \<and> map_option fst (ws_last_good s) = Some (fst c) then ws_fails s + 1 else 1))"
proof -
  note inv = wg_hunts.super_reach_inv [OF assms(2,1)]
  note next_ok = wg_hunts.round_inv [OF inv assms(1,3)]
  let ?hunt = "\<lambda>excluded. hunt_wg_peer (\<lambda>profile w. hunt_wg_peer_with_profile env tuning v ident mode ip profile excluded w)
    (wg_profile_candidates env) ws"
  obtain s1 where choose: "wg_choose env check ?hunt (cool_down env now s) = Some (Inr (a, s1))"
    and cool: "ws_cooldowns s' = ws_cooldowns s1"
    and attempt: "\<And>c. a = Attempt c \<Longrightarrow> ws_last_good s' = Some c \<and>
      ws_fails s' = (if map_option fst (ws_last_good s1) = Some (fst c) then ws_fails s1 else 0) + 1"
    by (rule wg_super_round_cases [OF assms(3)]) blast
  have s1: "s1 = (cool_down env now s)\<lparr>ws_quick := None\<rparr>" using wg_choose_cases [OF choose] by simp
  have inv': "wg_super_inv s'" using next_ok by simp
  have rest: "ws_cooldowns s' p = Some (now + wg_endpoint_cooldown env)"
    if "ws_fails s = 2" "ws_last_good s = Some (p, c, n)" for p c n
    using cool_down_rests(1) [of s p c n env now] that by (simp add: cool s1)
  have "fst d \<noteq> p" if "ws_fails s = 2" "ws_last_good s = Some (p, c, n)" "a = Attempt d" for p c n d
    using rest [OF that(1,2)] attempt [OF that(3)] inv' by (cases d) (auto simp: wg_super_inv_def)
  moreover have "ws_cooldowns s' p = Some until" if "ws_cooldowns s p = Some until" "now < until" for p until
    using cool_down_keeps [OF inv that] by (simp add: cool s1)
  moreover have "ws_fails s' = (if ws_fails s < 2 \<and> map_option fst (ws_last_good s) = Some (fst c) then ws_fails s + 1 else 1)"
    if "a = Attempt c" for c
  proof (cases "ws_fails s < 2")
    case True
    then have "ws_last_good s1 = ws_last_good s" "ws_fails s1 = ws_fails s"
      by (simp_all add: s1 cool_down_def Let_def MAX_CONSECUTIVE_FAILS_def)
    with True attempt [OF that] show ?thesis by simp
  next
    case False
    then have "ws_last_good s1 = None"
      by (cases "ws_last_good s") (simp_all add: s1 cool_down_def Let_def MAX_CONSECUTIVE_FAILS_def split: prod.splits)
    with False attempt [OF that] show ?thesis by simp
  qed
  ultimately show ?thesis using next_ok rest by blast
qed

theorem wg_failed_endpoint_rests_witness:
  "\<exists>s'. wg_super_round Map.empty lc_lib Written (\<lambda>_ _ _. Inr 1)
       (\<lambda>excluded. hunt_wg_peer (\<lambda>profile w. hunt_wg_peer_with_profile Map.empty small_tuning silent_verify plain_identity ''turbo''
          ScanV4 profile excluded w) (wg_profile_candidates Map.empty) [])
       5 (wg_super_start (Some (\<lparr>sa_ip = V4 1, sa_port = 2408\<rparr>, an_off, ''off'')) None) =
         Some (Inr (Attempt (\<lparr>sa_ip = V4 1, sa_port = 2408\<rparr>, an_off, ''off''), s')) \<and> ws_fails s' = 1"
proof -
  let ?c = "(\<lparr>sa_ip = V4 1, sa_port = 2408\<rparr>, an_off, ''off'') :: wg_choice"
  let ?hunt = "\<lambda>ws excluded. hunt_wg_peer (\<lambda>profile w. hunt_wg_peer_with_profile Map.empty small_tuning silent_verify plain_identity
    ''turbo'' ScanV4 profile excluded w) (wg_profile_candidates Map.empty) ws"
  have free: "wg_forced Map.empty = None" by (simp add: wg_forced_def)
  obtain s' where run: "wg_super_round Map.empty lc_lib Written (\<lambda>_ _ _. Inr 1) (?hunt []) 5 (wg_super_start (Some ?c) None) =
      Some (Inr (Attempt ?c, s'))"
    by (simp add: wg_super_round_def wg_super_start_def cool_down_def wg_choose_def Let_def MAX_CONSECUTIVE_FAILS_def)
  have "ws_fails s' = 1"
    using wg_failed_endpoint_rests [OF free wg_super_reach.start run] by (simp add: wg_super_start_def)
  with run show ?thesis by blast
qed

end
