(* ===== verification/Tunnel_Start.thy ===== *)
theory Tunnel_Start
  imports Supervise_Props
begin

text \<open>
  \<^verbatim>\<open>lib.rs\<close>, one run of a tunnel from the handshake to its end: in which order the hops are established, the
  exit is checked, the listeners are opened and the tasks are started and aborted. The outcome of every
  step that can fail is an argument. A run gives its result and the list of what it did.
\<close>

subsection \<open>Steps\<close>

text \<open>
  A stack runs its loop as a task of its own, which \<^verbatim>\<open>netstack::spawn\<close> starts and keeps no handle of: nothing can
  abort it, and it ends by itself when one of its queues is closed.
\<close>

datatype job = Stack string | Bridge string | Carrier string | Forwarder string | ForwarderDown string | SocksServer | HttpServer

datatype start_step = Spawn job | Abort job | Listen string

text \<open>The drop of a \<^verbatim>\<open>TaskGuard\<close> aborts its tasks; the abort of a task that is over does nothing.\<close>

definition drop_tasks :: "job list \<Rightarrow> start_step list" where
  "drop_tasks tasks = map Abort tasks"

fun running :: "start_step list \<Rightarrow> job set \<Rightarrow> job set" where
  "running [] js = js"
| "running (Spawn j # ss) js = running ss (insert j js)"
| "running (Abort j # ss) js = running ss (js - {j})"
| "running (Listen _ # ss) js = running ss js"

type_synonym 'a started = "('a result \<times> start_step list) run"

subsection \<open>Establishing one hop\<close>

text \<open>What comes first: the tunnel reports that it is ready, it ends, or the time is over.\<close>

datatype startup = StartReady | StartEnded joined | StartLate

definition join_text :: "joined \<Rightarrow> string" where
  "join_text j = (case j of JoinResult _ \<Rightarrow> [] | JoinCancelled e \<Rightarrow> e | JoinPanic e \<Rightarrow> e)"

definition masque_hop_tasks :: "string \<Rightarrow> job list" where
  "masque_hop_tasks label = [Bridge label, Carrier label]"

definition startup_message :: "string \<Rightarrow> joined \<Rightarrow> string" where
  "startup_message label j =
     ''['' @ label @ ''] '' @
     (case j of
        JoinResult (Inr ()) \<Rightarrow> ''tunnel exited before validation''
      | JoinResult (Inl e) \<Rightarrow> ''tunnel failed before validation: '' @ show_error e
      | _ \<Rightarrow> ''tunnel task join error: '' @ join_text j)"

definition startup_late :: "string \<Rightarrow> nat \<Rightarrow> aether_error" where
  "startup_late label limit =
     Other (''['' @ label @ ''] tunnel startup timed out after '' @ nat_dec (limit div secs 1) @ ''s'')"

definition establish_masque ::
    "string \<Rightarrow> nat \<Rightarrow> unit result \<Rightarrow> startup \<Rightarrow> job list result \<times> start_step list" where
  "establish_masque label limit stack start =
     (case stack of
        Inl e \<Rightarrow> (Inl e, [])
      | Inr _ \<Rightarrow>
          (let guard = masque_hop_tasks label; spawned = Spawn (Stack label) # map Spawn guard
           in case start of
                StartReady \<Rightarrow> (Inr guard, spawned)
              | StartEnded j \<Rightarrow> (Inl (Other (startup_message label j)), spawned @ drop_tasks guard)
              | StartLate \<Rightarrow>
                  (Inl (startup_late label limit),
                   spawned @ [Abort (Carrier label)] @ drop_tasks guard)))"

text \<open>The bridge passes every address that the edge assigns to the stack.\<close>

definition bridge_update ::
    "ip_addr \<Rightarrow> nat \<Rightarrow> (ipv4_addr \<times> nat) option \<times> (ipv6_addr \<times> nat) option" where
  "bridge_update ip prefix = (case ip of V4 v4 \<Rightarrow> (Some (v4, prefix), None) | V6 v6 \<Rightarrow> (None, Some (v6, prefix)))"

text \<open>The keys of an identity, as \<^verbatim>\<open>account.rs\<close> hands them out.\<close>

definition private_key_bytes :: "identity \<Rightarrow> bytes result" where
  "private_key_bytes ident = Inr (id_wg_private_key ident)"

definition peer_public_key_bytes :: "identity \<Rightarrow> bytes result" where
  "peer_public_key_bytes ident = Inr (id_wg_peer_public_key ident)"

text \<open>The keys and the address that the handshake of a WireGuard hop needs.\<close>

definition wg_handshake_keys :: "identity \<Rightarrow> (bytes \<times> bytes \<times> ipv4_addr) result" where
  "wg_handshake_keys ident =
     res_bind (private_key_bytes ident) (\<lambda>private_key.
     res_bind (peer_public_key_bytes ident) (\<lambda>peer_public.
       case parse_ipv4 (id_ipv4 ident) of
         None \<Rightarrow> Inl invalid_ipv4
       | Some ipv4 \<Rightarrow> Inr (private_key, peer_public, ipv4)))"

text \<open>
  A WireGuard hop: its handshake is validated, with what \<open>validated\<close> gives for the keys and the address, then its
  carrier runs as a task.
\<close>

definition establish_wg ::
    "identity \<Rightarrow> string \<Rightarrow> (bytes \<times> bytes \<times> ipv4_addr \<Rightarrow> unit result) \<Rightarrow> unit result \<Rightarrow> job list result \<times> start_step list" where
  "establish_wg ident label validated stack =
     (case wg_handshake_keys ident of
        Inl e \<Rightarrow> (Inl e, [])
      | Inr keys \<Rightarrow>
          (case validated keys of
             Inl e \<Rightarrow> (Inl (Other (''['' @ label @ ''] tunnel failed validation: '' @ show_error e)), [])
           | Inr _ \<Rightarrow>
               (case stack of
                  Inl e \<Rightarrow> (Inl e, [])
                | Inr _ \<Rightarrow> (Inr [Carrier label], [Spawn (Stack label), Spawn (Carrier label)]))))"

subsection \<open>Opening the listeners\<close>

record expose_io =
  xo_trace :: trace_io
  xo_bind_socks :: "unit result"
  xo_bind_http :: "unit result"

definition bind_http_proxy :: "env \<Rightarrow> unit result \<Rightarrow> bool result \<times> start_step list" where
  "bind_http_proxy env bound =
     (case http_proxy_listen env of
        None \<Rightarrow> (Inr False, [])
      | Some _ \<Rightarrow> (case bound of Inl e \<Rightarrow> (Inl e, []) | Inr _ \<Rightarrow> (Inr True, [Listen ''http proxy''])))"

text \<open>The exit is settled first, then the listeners open; the result says whether there is an HTTP listener.\<close>

definition expose :: "env \<Rightarrow> expose_io \<Rightarrow> bool started" where
  "expose env io =
     run_bind (settle (xo_trace io) (policy_from_env env)) (\<lambda>r. Returns
       (case r of
          Inl e \<Rightarrow> (Inl e, [])
        | Inr _ \<Rightarrow>
            (case xo_bind_socks io of
               Inl e \<Rightarrow> (Inl e, [])
             | Inr _ \<Rightarrow>
                 (case bind_http_proxy env (xo_bind_http io) of
                    (h, steps) \<Rightarrow> (h, Listen ''socks5'' # steps)))))"

definition servers :: "bool \<Rightarrow> job list" where
  "servers http = SocksServer # (if http then [HttpServer] else [])"

subsection \<open>One MASQUE tunnel\<close>

text \<open>What ends the wait: the tunnel, or the watch over the exit.\<close>

datatype tunnel_end = TunnelOver joined | PolicyOver aether_error

definition masque_end :: "tunnel_end \<Rightarrow> unit result" where
  "masque_end e =
     (case e of
        PolicyOver reason \<Rightarrow> Inl reason
      | TunnelOver (JoinResult (Inr ())) \<Rightarrow> Inr ()
      | TunnelOver (JoinResult (Inl e)) \<Rightarrow> Inl (Other (''tunnel exited: '' @ show_error e))
      | TunnelOver j \<Rightarrow> Inl (Other (''tunnel task join error: '' @ join_text j)))"

definition run_masque_tunnel ::
    "env \<Rightarrow> unit result \<Rightarrow> startup \<Rightarrow> expose_io \<Rightarrow> tunnel_end \<Rightarrow> unit started" where
  "run_masque_tunnel env stack start io over =
     (case establish_masque ''masque'' (masque_startup_timeout env) stack start of
        (Inl e, steps) \<Rightarrow> Returns (Inl e, steps)
      | (Inr hop, steps) \<Rightarrow>
          run_bind (expose env io) (\<lambda>(r, opened). Returns
            (case r of
               Inl e \<Rightarrow> (Inl e, steps @ opened @ drop_tasks hop)
             | Inr http \<Rightarrow>
                 (masque_end over,
                  steps @ opened @ map Spawn (servers http) @
                  (case over of PolicyOver _ \<Rightarrow> [] | TunnelOver _ \<Rightarrow> drop_tasks (rev (servers http))) @
                  drop_tasks (servers http) @ drop_tasks hop))))"

subsection \<open>One WireGuard tunnel\<close>

text \<open>
  The carrier is not a task: it runs inside the wait, so what the exit check meets is a stack whose packets
  nobody carries yet.
\<close>

datatype wg_over = CarrierOver "unit result" | WgPolicyOver aether_error

definition run_wireguard_tunnel ::
    "env \<Rightarrow> identity \<Rightarrow> (bytes \<times> bytes \<times> ipv4_addr \<Rightarrow> unit result) \<Rightarrow> unit result \<Rightarrow> expose_io \<Rightarrow> wg_over \<Rightarrow> unit started" where
  "run_wireguard_tunnel env ident validated stack io over =
     (case wg_handshake_keys ident of
        Inl e \<Rightarrow> Returns (Inl e, [])
      | Inr keys \<Rightarrow>
          (case validated keys of
             Inl e \<Rightarrow> Returns (Inl (Other (''tunnel failed validation: '' @ show_error e)), [])
           | Inr _ \<Rightarrow>
               (case stack of
                  Inl e \<Rightarrow> Returns (Inl e, [])
                | Inr _ \<Rightarrow>
                    run_bind (expose env io) (\<lambda>(r, opened). Returns
                      (case r of
                         Inl e \<Rightarrow> (Inl e, Spawn (Stack ''wireguard'') # opened)
                       | Inr http \<Rightarrow>
                           (case over of
                              CarrierOver (Inr _) \<Rightarrow> Inr ()
                            | CarrierOver (Inl e) \<Rightarrow> Inl (Other (''wireguard tunnel exited: '' @ show_error e))
                            | WgPolicyOver reason \<Rightarrow> Inl reason,
                            Spawn (Stack ''wireguard'') # opened @ map Spawn (servers http) @
                            (case over of WgPolicyOver _ \<Rightarrow> [] | CarrierOver _ \<Rightarrow> drop_tasks (rev (servers http))) @
                            drop_tasks (servers http)))))))"

subsection \<open>Two hops\<close>

datatype nested_over = OuterOver joined | InnerOver joined | SocksOver joined | NestedPolicy aether_error

definition nested_outcome :: "string \<Rightarrow> nested_over \<Rightarrow> unit result" where
  "nested_outcome kind over =
     (case over of
        OuterOver j \<Rightarrow> join_outcome (''outer '' @ kind @ '' tunnel'') j
      | InnerOver j \<Rightarrow> join_outcome (''inner '' @ kind @ '' tunnel'') j
      | SocksOver j \<Rightarrow> join_outcome ''socks5 server'' j
      | NestedPolicy reason \<Rightarrow> Inl reason)"

text \<open>Those that are not over are aborted and waited for; the one that is over must not be polled again.\<close>

definition abort_losers :: "nested_over \<Rightarrow> start_step list" where
  "abort_losers over =
     (case over of OuterOver _ \<Rightarrow> [] | _ \<Rightarrow> [Abort (Carrier ''outer'')]) @
     (case over of InnerOver _ \<Rightarrow> [] | _ \<Rightarrow> [Abort (Carrier ''inner'')]) @
     (case over of SocksOver _ \<Rightarrow> [] | _ \<Rightarrow> [Abort SocksServer])"

text \<open>
  The forwarder of datagrams for an inner hop. Upwards a datagram makes its sender the known peer and goes to
  the one remote address; downwards a datagram goes to the known peer, and is lost while there is none.
\<close>

datatype forward_event = FromInner socket_addr bytes | FromTunnel bytes

datatype forward_act = ToTunnel socket_addr bytes | ToInner socket_addr bytes

definition forward_step :: "socket_addr \<Rightarrow> forward_event \<Rightarrow> socket_addr option \<Rightarrow> socket_addr option \<times> forward_act list" where
  "forward_step remote ev known =
     (case ev of
        FromInner from data \<Rightarrow> (if known \<noteq> Some from then Some from else known, [ToTunnel remote data])
      | FromTunnel data \<Rightarrow> (known, case known of Some dst \<Rightarrow> [ToInner dst data] | None \<Rightarrow> []))"

fun forward_run :: "socket_addr \<Rightarrow> socket_addr option \<Rightarrow> forward_event list \<Rightarrow> forward_act list" where
  "forward_run remote known [] = []"
| "forward_run remote known (ev # evs) =
     (case forward_step remote ev known of (known', acts) \<Rightarrow> acts @ forward_run remote known' evs)"

definition forwarder_jobs :: "string \<Rightarrow> job list" where
  "forwarder_jobs remote = [Forwarder remote, ForwarderDown remote]"

definition spawn_udp_forwarder :: "string \<Rightarrow> unit result \<Rightarrow> unit result \<Rightarrow> job list result \<times> start_step list" where
  "spawn_udp_forwarder remote bound opened =
     (case bound of
        Inl e \<Rightarrow> (Inl e, [])
      | Inr _ \<Rightarrow>
          (case opened of
             Inl e \<Rightarrow> (Inl e, [])
           | Inr _ \<Rightarrow> (Inr (forwarder_jobs remote), map Spawn (forwarder_jobs remote))))"

definition spawn_tcp_forwarder :: "string \<Rightarrow> unit result \<Rightarrow> job list result \<times> start_step list" where
  "spawn_tcp_forwarder remote bound =
     (case bound of
        Inl e \<Rightarrow> (Inl e, [])
      | Inr _ \<Rightarrow> (Inr [Forwarder remote], [Spawn (Forwarder remote)]))"

record wg_hop_io =
  wo_validated :: "bytes \<times> bytes \<times> ipv4_addr \<Rightarrow> unit result"
  wo_stack :: "unit result"

text \<open>The part of a nested run after both hops stand; \<open>held\<close> are the guards, in the order of their drop.\<close>

definition serve_nested :: "string \<Rightarrow> env \<Rightarrow> expose_io \<Rightarrow> nested_over \<Rightarrow> bool \<Rightarrow> start_step list \<Rightarrow> job list \<Rightarrow> unit started" where
  "serve_nested kind env io over abort_http steps held =
     run_bind (expose env io) (\<lambda>(r, opened). Returns
       (case r of
          Inl e \<Rightarrow> (Inl e, steps @ opened @ drop_tasks held)
        | Inr http \<Rightarrow>
            (nested_outcome kind over,
             steps @ opened @ map Spawn (rev (servers http)) @
             (if abort_http \<and> http then [Abort HttpServer] else []) @ abort_losers over @
             drop_tasks (rev (servers http)) @ drop_tasks held)))"

definition run_warp_in_warp ::
    "env \<Rightarrow> identity \<Rightarrow> identity \<Rightarrow> socket_addr \<Rightarrow> socket_addr \<Rightarrow> wg_hop_io \<Rightarrow> unit result \<Rightarrow> unit result \<Rightarrow> wg_hop_io \<Rightarrow> expose_io \<Rightarrow>
       nested_over \<Rightarrow> unit started" where
  "run_warp_in_warp env primary secondary peer inner_peer outer_io bound opened inner_io io over =
     (case run_warp_in_warp_check peer inner_peer of
        Inl e \<Rightarrow> Returns (Inl e, [])
      | Inr _ \<Rightarrow>
          (case establish_wg primary ''outer'' (wo_validated outer_io) (wo_stack outer_io) of
             (Inl e, s1) \<Rightarrow> Returns (Inl e, s1)
           | (Inr outer, s1) \<Rightarrow>
               (case spawn_udp_forwarder (socket_addr_to_string inner_peer) bound opened of
                  (Inl e, s2) \<Rightarrow> Returns (Inl e, s1 @ s2 @ drop_tasks outer)
                | (Inr fwd, s2) \<Rightarrow>
                    (case establish_wg secondary ''inner'' (wo_validated inner_io) (wo_stack inner_io) of
                       (Inl e, s3) \<Rightarrow> Returns (Inl e, s1 @ s2 @ s3 @ drop_tasks fwd @ drop_tasks outer)
                     | (Inr inner, s3) \<Rightarrow>
                         serve_nested ''wireguard'' env io over True (s1 @ s2 @ s3) (fwd @ outer @ inner)))))"

text \<open>The attempts on the inner gateways: what the forwarder and the handshake of each give.\<close>

record inner_try =
  it_bound :: "unit result"
  it_opened :: "unit result"
  it_stack :: "unit result"
  it_start :: startup

definition inner_forwarder :: "bool \<Rightarrow> socket_addr \<Rightarrow> inner_try \<Rightarrow> job list result \<times> start_step list" where
  "inner_forwarder h2 peer t =
     (if h2 then spawn_tcp_forwarder (socket_addr_to_string peer) (it_bound t)
      else spawn_udp_forwarder (socket_addr_to_string peer) (it_bound t) (it_opened t))"

fun try_inner ::
    "bool \<Rightarrow> nat \<Rightarrow> (socket_addr \<times> inner_try) list \<Rightarrow> (socket_addr \<times> job list) option result \<times> start_step list" where
  "try_inner h2 limit [] = (Inr None, [])"
| "try_inner h2 limit ((peer, t) # ts) =
     (case inner_forwarder h2 peer t of
        (Inl e, s1) \<Rightarrow> (Inl e, s1)
      | (Inr fwd, s1) \<Rightarrow>
          (case establish_masque ''inner'' limit (it_stack t) (it_start t) of
             (Inr hop, s2) \<Rightarrow> (Inr (Some (peer, fwd @ hop)), s1 @ s2)
           | (Inl e, s2) \<Rightarrow>
               (case try_inner h2 limit ts of (r, s3) \<Rightarrow> (r, s1 @ s2 @ drop_tasks fwd @ s3))))"

definition no_inner_answer :: aether_error where
  "no_inner_answer = Other ''no inner masque edge answered through the outer tunnel''"

definition run_masque_in_masque ::
    "env \<Rightarrow> socket_addr \<Rightarrow> socket_addr list \<Rightarrow> unit result \<Rightarrow> startup \<Rightarrow> (socket_addr \<Rightarrow> inner_try) \<Rightarrow> expose_io \<Rightarrow> nested_over \<Rightarrow>
       unit started" where
  "run_masque_in_masque env peer inner_peers stack start tries io over =
     (case establish_masque ''outer'' (masque_startup_timeout env) stack start of
        (Inl e, s1) \<Rightarrow> Returns (Inl e, s1)
      | (Inr outer, s1) \<Rightarrow>
          (case try_inner (h2_enabled_env env) (mim_inner_startup env)
                  (map (\<lambda>p. (p, tries p)) (mim_tried peer inner_peers)) of
             (Inl e, s2) \<Rightarrow> Returns (Inl e, s1 @ s2 @ drop_tasks outer)
           | (Inr None, s2) \<Rightarrow> Returns (Inl no_inner_answer, s1 @ s2 @ drop_tasks outer)
           | (Inr (Some (_, held)), s2) \<Rightarrow> serve_nested ''masque'' env io over False (s1 @ s2) (held @ outer)))"

end
