(* ===== verification/Tunnel_Start_Props.thy ===== *)
theory Tunnel_Start_Props
  imports Tunnel_Start
begin

text \<open>
  What a run of a tunnel promises the loop around it: when it is over every task that its guards held is aborted, so
  that only the detached tasks of its stacks may be left, and its
  listeners opened only after the exit was accepted. The locale \<open>tunnel_run\<close> is that contract; it is
  interpreted on the four kinds of runs.
\<close>

subsection \<open>Tasks\<close>

lemma running_append [simp]: "running (a @ b) js = running b (running a js)"
  by (induction a js rule: running.induct) auto

lemma running_spawn [simp]: "running (map Spawn l) js = js \<union> set l"
  by (induction l arbitrary: js) auto

lemma running_drop [simp]: "running (drop_tasks l) js = js - set l"
  unfolding drop_tasks_def by (induction l arbitrary: js) auto

lemma running_listen: "\<forall>s \<in> set steps. \<exists>l. s = Listen l \<Longrightarrow> running steps js = js"
  by (induction steps js rule: running.induct) auto

definition listens :: "start_step list \<Rightarrow> bool" where
  "listens steps \<longleftrightarrow> (\<exists>l. Listen l \<in> set steps)"

lemma listens_simps [simp]:
  "listens (a @ b) \<longleftrightarrow> listens a \<or> listens b" "\<not> listens (map Spawn l)" "\<not> listens (drop_tasks l)" "\<not> listens []"
  "listens (Abort j # s) \<longleftrightarrow> listens s" "listens (Spawn j # s) \<longleftrightarrow> listens s"
  by (auto simp: listens_def drop_tasks_def)

text \<open>The detached tasks: those of the stacks. \<open>guarded\<close>: no step aborts one, for nobody holds a handle of it.\<close>

definition detached :: "start_step list \<Rightarrow> job set" where
  "detached steps = {Stack l |l. Spawn (Stack l) \<in> set steps}"

abbreviation stacks :: "job set" where
  "stacks \<equiv> range Stack"

definition guarded :: "start_step list \<Rightarrow> bool" where
  "guarded steps \<longleftrightarrow> list_all (\<lambda>s. \<forall>l. s \<noteq> Abort (Stack l)) steps"

lemma guarded_simps [simp]:
  "guarded []" "guarded (a @ b) \<longleftrightarrow> guarded a \<and> guarded b" "guarded (map Spawn l)"
  "guarded (Spawn j # s) \<longleftrightarrow> guarded s" "guarded (Listen x # s) \<longleftrightarrow> guarded s"
  "guarded (Abort j # s) \<longleftrightarrow> j \<notin> stacks \<and> guarded s"
  "guarded (drop_tasks l) \<longleftrightarrow> set l \<inter> stacks = {}"
  by (auto simp: guarded_def drop_tasks_def list_all_iff)

lemma running_upper: "running steps js \<subseteq> js \<union> {j. Spawn j \<in> set steps}"
  by (induction steps js rule: running.induct) auto

lemma running_lower: "guarded steps \<Longrightarrow> Stack l \<in> js \<or> Spawn (Stack l) \<in> set steps \<Longrightarrow> Stack l \<in> running steps js"
  by (induction steps js rule: running.induct) auto

lemma only_detached:
  assumes "guarded steps" and "running steps {} \<subseteq> stacks"
  shows "running steps {} = detached steps"
  using running_upper [of steps "{}"] running_lower [OF assms(1), of _ "{}"] assms(2) unfolding detached_def by blast

lemma running_listens: "\<forall>s \<in> set steps. \<exists>l. s = Listen l \<Longrightarrow> guarded steps"
  by (auto simp: guarded_def list_all_iff)

subsection \<open>Parts\<close>

lemma expose_facts:
  assumes "expose env io = Returns (r, opened)"
  shows "running opened js = js" and "guarded opened" and "listens opened \<Longrightarrow> settle (xo_trace io) (policy_from_env env) = Returns (Inr ())"
    and "r = Inr http \<Longrightarrow> settle (xo_trace io) (policy_from_env env) = Returns (Inr ()) \<and> listens opened"
proof -
  obtain a where a: "settle (xo_trace io) (policy_from_env env) = Returns a"
    using assms by (auto simp: expose_def run_bind_Returns_iff)
  have opened: "(r, opened) =
      (case a of
         Inl e \<Rightarrow> (Inl e, [])
       | Inr _ \<Rightarrow>
           (case xo_bind_socks io of
              Inl e \<Rightarrow> (Inl e, [])
            | Inr _ \<Rightarrow> (case bind_http_proxy env (xo_bind_http io) of (h, steps) \<Rightarrow> (h, Listen ''socks5'' # steps))))"
    using assms by (simp add: expose_def a)
  have http: "\<forall>s \<in> set (snd (bind_http_proxy env b)). \<exists>l. s = Listen l" for b
    by (auto simp: bind_http_proxy_def split: option.splits sum.splits)
  have all: "\<forall>s \<in> set opened. \<exists>l. s = Listen l"
    using opened http by (cases a; cases "xo_bind_socks io"; cases "bind_http_proxy env (xo_bind_http io)") (auto, metis snd_conv)
  show "running opened js = js" and "guarded opened" by (rule running_listen [OF all], rule running_listens [OF all])
  show "listens opened \<Longrightarrow> settle (xo_trace io) (policy_from_env env) = Returns (Inr ())"
    using opened a by (cases a) auto
  show "r = Inr http \<Longrightarrow> settle (xo_trace io) (policy_from_env env) = Returns (Inr ()) \<and> listens opened"
    using opened a by (cases a; cases "xo_bind_socks io"; cases "bind_http_proxy env (xo_bind_http io)") (auto simp: listens_def)
qed

text \<open>What a part of a run leaves: nothing but the tasks it hands to a guard and the stacks.\<close>

definition leaves :: "job list \<Rightarrow> start_step list \<Rightarrow> bool" where
  "leaves held steps \<longleftrightarrow>
     \<not> listens steps \<and> guarded steps \<and> set held \<inter> stacks = {} \<and> (\<forall>js. running steps js \<subseteq> js \<union> set held \<union> stacks)"

lemma leaves_append:
  assumes "leaves held a" and "leaves held' b"
  shows "leaves (held @ held') (a @ b)"
proof -
  have "running b (running a js) \<subseteq> js \<union> (set held \<union> set held') \<union> stacks" for js
  proof -
    have "running a js \<subseteq> js \<union> set held \<union> stacks" using assms(1) by (simp add: leaves_def)
    moreover have "running b (running a js) \<subseteq> running a js \<union> set held' \<union> stacks" using assms(2) by (simp add: leaves_def)
    ultimately show ?thesis by blast
  qed
  then show ?thesis using assms by (auto simp: leaves_def)
qed

lemma leaves_drop:
  assumes "leaves held a" and "set held \<subseteq> set l" and "set l \<inter> stacks = {}"
  shows "leaves [] (a @ drop_tasks l)"
proof -
  have "running a js \<subseteq> js \<union> set held \<union> stacks" for js using assms(1) by (simp add: leaves_def)
  then have "running a js - set l \<subseteq> js \<union> stacks" for js using assms(2) by blast
  then show ?thesis using assms(1,3) by (simp add: leaves_def)
qed

lemma leaves_Nil [simp]: "leaves [] []"
  by (simp add: leaves_def)

lemma establish_masque_facts:
  assumes "establish_masque label limit stack start = (r, steps)"
  shows "leaves (case r of Inl _ \<Rightarrow> [] | Inr hop \<Rightarrow> hop) steps"
  using assms
  by (auto simp: establish_masque_def Let_def leaves_def masque_hop_tasks_def split: sum.splits startup.splits)

lemma establish_wg_facts:
  assumes "establish_wg ident label validated stack = (r, steps)"
  shows "leaves (case r of Inl _ \<Rightarrow> [] | Inr hop \<Rightarrow> hop) steps"
  using assms by (auto simp: establish_wg_def leaves_def split: sum.splits)

lemma forwarder_facts:
  "spawn_udp_forwarder remote bound opened = (r, steps) \<Longrightarrow> leaves (case r of Inl _ \<Rightarrow> [] | Inr f \<Rightarrow> f) steps"
  "inner_forwarder h2 peer t = (r, steps) \<Longrightarrow> leaves (case r of Inl _ \<Rightarrow> [] | Inr f \<Rightarrow> f) steps"
  by (auto simp: inner_forwarder_def spawn_udp_forwarder_def spawn_tcp_forwarder_def forwarder_jobs_def leaves_def
      split: sum.splits if_splits)

lemma abort_losers_facts [simp]:
  "\<not> listens (abort_losers over)" "guarded (abort_losers over)" "running (abort_losers over) js \<subseteq> js"
  by (auto simp: abort_losers_def split: nested_over.splits)

lemma servers_not_stacks [simp]: "set (servers http) \<inter> stacks = {}"
  by (auto simp: servers_def)

subsection \<open>The contract of a run\<close>

locale tunnel_run =
  fixes run :: "'i \<Rightarrow> unit started" and policy :: "'i \<Rightarrow> exit_policy option" and trace :: "'i \<Rightarrow> trace_io"
  assumes only_stacks_left: "run i = Returns (r, steps) \<Longrightarrow> guarded steps \<and> running steps {} \<subseteq> stacks"
    and exposed_when_accepted: "run i = Returns (r, steps) \<Longrightarrow> listens steps \<Longrightarrow> settle (trace i) (policy i) = Returns (Inr ())"
begin

text \<open>When a run is over exactly the tasks of the stacks it started may still be there.\<close>

lemma run_leaves_stacks:
  assumes "run i = Returns (r, steps)"
  shows "running steps {} = detached steps"
  using only_detached only_stacks_left [OF assms] by blast

lemma exposed_exit_accepted:
  assumes "run i = Returns (r, steps)" and "listens steps" and "policy i = Some p"
  shows "\<exists>x. exit_report (trace i) = Returns (Some x) \<and> accepts p (case xi_country x of Some c \<Rightarrow> c | None \<Rightarrow> [])"
proof -
  have ok: "settle (trace i) (Some p) = Returns (Inr ())"
    using exposed_when_accepted [OF assms(1,2)] assms(3) by simp
  then obtain o1 where o1: "exit_report (trace i) = Returns o1" by (auto simp: settle_def run_bind_Returns_iff)
  with ok show ?thesis by (cases o1) (auto simp: settle_def Let_def split: if_splits)
qed

end

abbreviation kept_contract :: "env \<Rightarrow> expose_io \<Rightarrow> start_step list \<Rightarrow> bool" where
  "kept_contract env io steps \<equiv> guarded steps \<and> running steps {} \<subseteq> stacks \<and>
     (listens steps \<longrightarrow> settle (xo_trace io) (policy_from_env env) = Returns (Inr ()))"

lemma leaves_contract: "leaves [] steps \<Longrightarrow> kept_contract env io steps"
  unfolding leaves_def by (metis Un_empty_left empty_set)

lemma run_masque_tunnel_contract:
  assumes "run_masque_tunnel env stack start io over = Returns (r, steps)"
  shows "kept_contract env io steps"
proof -
  obtain r1 s1 where e: "establish_masque ''masque'' (masque_startup_timeout env) stack start = (r1, s1)"
    by (cases "establish_masque ''masque'' (masque_startup_timeout env) stack start")
  note f = establish_masque_facts [OF e]
  show ?thesis
  proof (cases r1)
    case (Inl x)
    then show ?thesis using assms e f by (intro leaves_contract) (simp add: run_masque_tunnel_def)
  next
    case (Inr hop)
    obtain r2 opened where x: "expose env io = Returns (r2, opened)"
      using assms e Inr by (auto simp: run_masque_tunnel_def run_bind_Returns_iff)
    note o = expose_facts [OF x]
    have hop: "\<not> listens s1" "guarded s1" "set hop \<inter> stacks = {}" "running s1 {} \<subseteq> set hop \<union> stacks"
      using f Inr by (auto simp: leaves_def)
    show ?thesis
    proof (cases r2)
      case (Inl y)
      then have "steps = s1 @ opened @ drop_tasks hop" using assms e Inr x by (simp add: run_masque_tunnel_def)
      then show ?thesis using hop o(1-3) by auto
    next
      case ok: (Inr http)
      let ?final = "case over of PolicyOver _ \<Rightarrow> [] | TunnelOver _ \<Rightarrow> drop_tasks (rev (servers http))"
      have steps: "steps = s1 @ opened @ map Spawn (servers http) @ ?final @ drop_tasks (servers http) @ drop_tasks hop"
        using assms e Inr x ok by (simp add: run_masque_tunnel_def)
      have "guarded ?final" "running ?final js \<subseteq> js" for js by (cases over; auto)+
      then show ?thesis using hop o(1,2) expose_facts(4) [OF x ok] unfolding steps by (cases over) auto
    qed
  qed
qed

interpretation masque_runs: tunnel_run
  "\<lambda>(env, stack, start, io, over). run_masque_tunnel env stack start io over"
  "\<lambda>(env, _). policy_from_env env" "\<lambda>(_, _, _, io, _). xo_trace io"
  by unfold_locales (auto dest: run_masque_tunnel_contract)

lemma run_wireguard_tunnel_contract:
  assumes "run_wireguard_tunnel env ident validated stack io over = Returns (r, steps)"
  shows "kept_contract env io steps"
proof (cases "steps = []")
  case False
  then obtain r2 opened where x: "expose env io = Returns (r2, opened)"
    using assms by (cases "expose env io") (auto simp: run_wireguard_tunnel_def split: sum.splits)
  note o = expose_facts [OF x]
  show ?thesis
  proof (cases r2)
    case (Inl e)
    then have "steps = Spawn (Stack ''wireguard'') # opened" using assms False x
      by (auto simp: run_wireguard_tunnel_def split: sum.splits)
    then show ?thesis using o(1-3) by simp
  next
    case (Inr http)
    then have "steps = Spawn (Stack ''wireguard'') # opened @ map Spawn (servers http) @
        (case over of WgPolicyOver _ \<Rightarrow> [] | CarrierOver _ \<Rightarrow> drop_tasks (rev (servers http))) @ drop_tasks (servers http)"
      using assms False x by (auto simp: run_wireguard_tunnel_def split: sum.splits)
    then show ?thesis using o(1,2) expose_facts(4) [OF x Inr] by (cases over) auto
  qed
qed simp

lemma serve_nested_contract:
  assumes "serve_nested kind env io over abort_http before held = Returns (r, steps)" and "leaves held before"
  shows "kept_contract env io steps"
proof -
  obtain r2 opened where x: "expose env io = Returns (r2, opened)"
    and steps: "steps = before @ opened @ (case r2 of Inl _ \<Rightarrow> drop_tasks held | Inr http \<Rightarrow>
      map Spawn (rev (servers http)) @ (if abort_http \<and> http then [Abort HttpServer] else []) @ abort_losers over @
      drop_tasks (rev (servers http)) @ drop_tasks held)"
  proof -
    obtain r2 opened where x: "expose env io = Returns (r2, opened)"
      using assms(1) by (cases "expose env io") (auto simp: serve_nested_def)
    with assms(1) show thesis by (intro that [OF x]; cases r2) (auto simp: serve_nested_def)
  qed
  note o = expose_facts [OF x]
  have b: "\<not> listens before" "guarded before" "set held \<inter> stacks = {}" "running before {} \<subseteq> set held \<union> stacks"
    using assms(2) by (auto simp: leaves_def)
  show ?thesis
  proof (cases r2)
    case (Inl e)
    then show ?thesis using steps b o(1-3) by auto
  next
    case (Inr http)
    let ?js = "running before {} \<union> set (servers http)" and ?http = "if abort_http \<and> http then [Abort HttpServer] else []"
    have "running ?http ?js \<subseteq> ?js" by auto
    then have "running (abort_losers over) (running ?http ?js) \<subseteq> ?js" using abort_losers_facts(3) by blast
    then have "running steps {} \<subseteq> stacks" using b(4) o(1) by (auto simp: steps Inr)
    moreover have "guarded steps" using b(2,3) o(2) by (auto simp: steps Inr)
    ultimately show ?thesis using expose_facts(4) [OF x Inr] by simp
  qed
qed

lemma run_warp_in_warp_contract:
  assumes "run_warp_in_warp env primary secondary peer inner_peer outer_io bound opened inner_io io over = Returns (r, steps)"
  shows "kept_contract env io steps"
proof -
  obtain r1 s1 where e1: "establish_wg primary ''outer'' (wo_validated outer_io) (wo_stack outer_io) = (r1, s1)" by fastforce
  obtain r2 s2 where e2: "spawn_udp_forwarder (socket_addr_to_string inner_peer) bound opened = (r2, s2)" by fastforce
  obtain r3 s3 where e3: "establish_wg secondary ''inner'' (wo_validated inner_io) (wo_stack inner_io) = (r3, s3)" by fastforce
  note f1 = establish_wg_facts [OF e1] and f2 = forwarder_facts(1) [OF e2] and f3 = establish_wg_facts [OF e3]
  note run = assms [unfolded run_warp_in_warp_def e1 e2 e3 prod.case]
  consider (none) "steps = []" | (first) x where "r1 = Inl x" "steps = s1"
    | (second) outer x where "r1 = Inr outer" "r2 = Inl x" "steps = s1 @ s2 @ drop_tasks outer"
    | (third) outer fwd x where "r1 = Inr outer" "r2 = Inr fwd" "r3 = Inl x" "steps = s1 @ s2 @ s3 @ drop_tasks fwd @ drop_tasks outer"
    | (served) outer fwd inner where "r1 = Inr outer" "r2 = Inr fwd" "r3 = Inr inner"
        "serve_nested ''wireguard'' env io over True (s1 @ s2 @ s3) (fwd @ outer @ inner) = Returns (r, steps)"
    using run by (cases r1; cases r2; cases r3) (auto split: sum.splits)
  then show ?thesis
  proof cases
    case none
    then show ?thesis by simp
  next
    case first
    then show ?thesis using f1 by (intro leaves_contract) simp
  next
    case second
    then have "leaves (outer @ []) (s1 @ s2)" using f1 f2 by (intro leaves_append) simp_all
    then show ?thesis using leaves_drop [of "outer @ []" "s1 @ s2" outer] second by (intro leaves_contract) (auto simp: leaves_def)
  next
    case third
    then have "leaves (outer @ fwd @ []) (s1 @ s2 @ s3)" using f1 f2 f3 by (intro leaves_append) simp_all
    moreover have "drop_tasks (fwd @ outer) = drop_tasks fwd @ drop_tasks outer" by (simp add: drop_tasks_def)
    ultimately show ?thesis using leaves_drop [of "outer @ fwd @ []" "s1 @ s2 @ s3" "fwd @ outer"] third
      by (intro leaves_contract) (auto simp: leaves_def)
  next
    case served
    then have "leaves (outer @ fwd @ inner) (s1 @ s2 @ s3)" using f1 f2 f3 by (intro leaves_append) simp_all
    then have "leaves (fwd @ outer @ inner) (s1 @ s2 @ s3)" unfolding leaves_def by (simp add: Un_left_commute Int_Un_distrib2)
    from serve_nested_contract [OF served(4) this] show ?thesis .
  qed
qed

lemma try_inner_facts:
  assumes "try_inner h2 limit ts = (r, steps)"
  shows "leaves (case r of Inr (Some (_, held)) \<Rightarrow> held | _ \<Rightarrow> []) steps \<and>
    (\<forall>p held. r = Inr (Some (p, held)) \<longrightarrow> p \<in> fst ` set ts)"
  using assms
proof (induction h2 limit ts arbitrary: r steps rule: try_inner.induct)
  case (2 h2 limit peer t ts)
  obtain r1 s1 where e1: "inner_forwarder h2 peer t = (r1, s1)" by fastforce
  note f1 = forwarder_facts(2) [OF e1]
  show ?case
  proof (cases r1)
    case (Inl e)
    then show ?thesis using 2(2) e1 f1 by auto
  next
    case r1: (Inr fwd)
    obtain r2 s2 where e2: "establish_masque ''inner'' limit (it_stack t) (it_start t) = (r2, s2)" by fastforce
    note f2 = establish_masque_facts [OF e2]
    show ?thesis
    proof (cases r2)
      case (Inr hop)
      then show ?thesis using 2(2) e1 e2 r1 f1 f2 leaves_append [of fwd s1 hop s2] by auto
    next
      case r2: (Inl e)
      obtain r3 s3 where e3: "try_inner h2 limit ts = (r3, s3)" by fastforce
      note ih = "2.IH" [OF e1 [symmetric] r1 e2 [symmetric] r2 e3]
      have res: "r = r3" "steps = (s1 @ s2 @ drop_tasks fwd) @ s3" using 2(2) e1 e2 e3 r1 r2 by auto
      have "leaves (fwd @ []) (s1 @ s2)" using f1 f2 r1 r2 by (intro leaves_append) simp_all
      then have "leaves [] (s1 @ s2 @ drop_tasks fwd)" using leaves_drop [of "fwd @ []" "s1 @ s2" fwd] by (auto simp: leaves_def)
      from leaves_append [OF this ih [THEN conjunct1]] ih show ?thesis unfolding res by auto
    qed
  qed
qed simp

lemma run_masque_in_masque_contract:
  assumes "run_masque_in_masque env peer inner_peers stack start tries io over = Returns (r, steps)"
  shows "kept_contract env io steps"
proof -
  obtain r1 s1 where e1: "establish_masque ''outer'' (masque_startup_timeout env) stack start = (r1, s1)" by fastforce
  obtain r2 s2 where e2: "try_inner (h2_enabled_env env) (mim_inner_startup env) (map (\<lambda>p. (p, tries p)) (mim_tried peer inner_peers)) = (r2, s2)"
    by fastforce
  note f1 = establish_masque_facts [OF e1] and f2 = try_inner_facts [OF e2, THEN conjunct1]
  note run = assms [unfolded run_masque_in_masque_def e1 e2 prod.case]
  consider (first) x where "r1 = Inl x" "steps = s1"
    | (second) outer where "r1 = Inr outer" "(case r2 of Inr (Some (_, held)) \<Rightarrow> held | _ \<Rightarrow> []) = []" "steps = s1 @ s2 @ drop_tasks outer"
    | (served) outer p held where "r1 = Inr outer" "r2 = Inr (Some (p, held))"
        "serve_nested ''masque'' env io over False (s1 @ s2) (held @ outer) = Returns (r, steps)"
    using run by (cases r1; cases r2) (auto split: option.splits)
  then show ?thesis
  proof cases
    case first
    then show ?thesis using f1 by (intro leaves_contract) simp
  next
    case second
    have "leaves (outer @ []) (s1 @ s2)"
      by (rule leaves_append) (use f1 f2 second(1,2) in simp_all)
    then show ?thesis using leaves_drop [of "outer @ []" "s1 @ s2" outer] second(3) by (intro leaves_contract) (auto simp: leaves_def)
  next
    case served
    then have "leaves (outer @ held) (s1 @ s2)" using f1 f2 by (intro leaves_append) simp_all
    then have "leaves (held @ outer) (s1 @ s2)" unfolding leaves_def by (simp add: Un_commute Int_Un_distrib2 conj_commute)
    from serve_nested_contract [OF served(3) this] show ?thesis .
  qed
qed

interpretation wg_runs: tunnel_run
  "\<lambda>(env, ident, validated, stack, io, over). run_wireguard_tunnel env ident validated stack io over"
  "\<lambda>(env, _). policy_from_env env" "\<lambda>(_, _, _, _, io, _). xo_trace io"
  by unfold_locales (auto dest: run_wireguard_tunnel_contract)

interpretation wiw_runs: tunnel_run
  "\<lambda>(env, primary, secondary, peer, inner_peer, outer_io, bound, opened, inner_io, io, over).
     run_warp_in_warp env primary secondary peer inner_peer outer_io bound opened inner_io io over"
  "\<lambda>(env, _). policy_from_env env" "\<lambda>(_, _, _, _, _, _, _, _, _, io, _). xo_trace io"
  by unfold_locales (auto dest: run_warp_in_warp_contract)

interpretation mim_runs: tunnel_run
  "\<lambda>(env, peer, inner_peers, stack, start, tries, io, over). run_masque_in_masque env peer inner_peers stack start tries io over"
  "\<lambda>(env, _). policy_from_env env" "\<lambda>(_, _, _, _, _, _, io, _). xo_trace io"
  by unfold_locales (auto dest: run_masque_in_masque_contract)

subsection \<open>Exposed only behind an accepted exit\<close>

text \<open>
  C18. With a policy on the exit location, none of the four kinds of runs opens a listener before the exit was
  read and accepted. When a run is over, for whatever reason, every task that it started and
  holds a handle of is over or aborted: the bridges, the carriers, the forwarders and the servers. What may be left is
  exactly one detached task for every stack it started, which no step aborts and which ends by itself
  when a queue of the stack is closed.
\<close>

theorem exit_checked_before_listening:
  assumes "policy_from_env env = Some p"
    and "run_masque_tunnel env stack start io over = Returns (r, steps) \<or>
      run_wireguard_tunnel env ident validated stack io wg_over = Returns (r, steps) \<or>
      run_warp_in_warp env ident secondary peer inner_peer outer_io bound opened inner_io io nested = Returns (r, steps) \<or>
      run_masque_in_masque env peer inner_peers stack start tries io nested = Returns (r, steps)"
  shows "running steps {} = {Stack l |l. Spawn (Stack l) \<in> set steps} \<and>
    ((\<exists>l. Listen l \<in> set steps) \<longrightarrow>
       (\<exists>x. exit_report (xo_trace io) = Returns (Some x) \<and> accepts p (case xi_country x of Some c \<Rightarrow> c | None \<Rightarrow> [])))"
  using assms(2)
proof (elim disjE)
  assume run: "run_masque_tunnel env stack start io over = Returns (r, steps)"
  show ?thesis
    using masque_runs.run_leaves_stacks [of "(env, stack, start, io, over)" r steps] run assms(1)
      masque_runs.exposed_exit_accepted [of "(env, stack, start, io, over)" r steps p] by (auto simp: listens_def detached_def)
next
  assume run: "run_wireguard_tunnel env ident validated stack io wg_over = Returns (r, steps)"
  show ?thesis
    using wg_runs.run_leaves_stacks [of "(env, ident, validated, stack, io, wg_over)" r steps] run assms(1)
      wg_runs.exposed_exit_accepted [of "(env, ident, validated, stack, io, wg_over)" r steps p]
    by (auto simp: listens_def detached_def)
next
  let ?i = "(env, ident, secondary, peer, inner_peer, outer_io, bound, opened, inner_io, io, nested)"
  assume run: "run_warp_in_warp env ident secondary peer inner_peer outer_io bound opened inner_io io nested = Returns (r, steps)"
  show ?thesis
    using wiw_runs.run_leaves_stacks [of ?i r steps] run assms(1) wiw_runs.exposed_exit_accepted [of ?i r steps p]
    by (auto simp: listens_def detached_def)
next
  let ?i = "(env, peer, inner_peers, stack, start, tries, io, nested)"
  assume run: "run_masque_in_masque env peer inner_peers stack start tries io nested = Returns (r, steps)"
  show ?thesis
    using mim_runs.run_leaves_stacks [of ?i r steps] run assms(1) mim_runs.exposed_exit_accepted [of ?i r steps p]
    by (auto simp: listens_def detached_def)
qed

definition late_io :: expose_io where
  "late_io =
     \<lparr>xo_trace = \<lparr>ti_dns = [], ti_open = None, ti_send = None, ti_recv = [], ti_late = True, ti_elapsed = 1\<rparr>,
      xo_bind_socks = Inr (), xo_bind_http = Inr ()\<rparr>"

definition german_exit :: env where "german_exit = [''AETHER_EXIT_LOC'' \<mapsto> ''DE'']"

lemma german_policy: "\<exists>p. policy_from_env german_exit = Some p"
proof -
  have "trim ''DE'' = ''DE''" by (simp add: trim_graphic ascii_graphic_def)
  then show ?thesis
    by (simp add: policy_from_env_def german_exit_def policy_parse_def policy_codes_def country_code_def Let_def
        eq_ignore_ascii_case_def starts_with_def trim_start_matches_def to_ascii_uppercase_def ascii_lower_def ascii_upper_def
        to_ascii_lowercase_def)
qed

theorem exit_checked_before_listening_witness:
  "\<exists>r steps. run_masque_tunnel german_exit (Inr ()) StartReady late_io (PolicyOver Cancelled) = Returns (r, steps) \<and>
     Spawn (Carrier ''masque'') \<in> set steps \<and> running steps {} = {Stack ''masque''} \<and> \<not> (\<exists>l. Listen l \<in> set steps)"
proof -
  obtain p where p: "policy_from_env german_exit = Some p" using german_policy by blast
  then obtain r steps where run: "run_masque_tunnel german_exit (Inr ()) StartReady late_io (PolicyOver Cancelled) = Returns (r, steps)"
    and steps: "steps = [Spawn (Stack ''masque''), Spawn (Bridge ''masque''), Spawn (Carrier ''masque''),
      Abort (Bridge ''masque''), Abort (Carrier ''masque'')]"
    by (simp add: run_masque_tunnel_def establish_masque_def expose_def settle_def exit_report_def trace_through_def
        read_trace_def late_io_def Let_def masque_hop_tasks_def drop_tasks_def)
  have "running steps {} = {Stack l |l. Spawn (Stack l) \<in> set steps}"
    by (rule exit_checked_before_listening [OF p disjI1 [OF run], THEN conjunct1])
  then have "running steps {} = {Stack ''masque''}" by (auto simp: steps)
  moreover have "Spawn (Carrier ''masque'') \<in> set steps" "\<not> (\<exists>l. Listen l \<in> set steps)" by (simp_all add: steps)
  ultimately show ?thesis using run by blast
qed

subsection \<open>The forwarder of an inner hop\<close>

text \<open>Upwards nothing is lost, added or sent elsewhere; downwards a datagram reaches only an address that has sent one.\<close>

lemma forward_upwards:
  "[a \<leftarrow> forward_run remote known evs. (case a of ToTunnel _ _ \<Rightarrow> True | _ \<Rightarrow> False)] =
     [ToTunnel remote d. FromInner f d \<leftarrow> evs]"
  by (induction evs arbitrary: known) (auto simp: forward_step_def split: forward_event.splits option.splits)

lemma forward_downwards:
  "ToInner dst d \<in> set (forward_run remote known evs) \<Longrightarrow> known = Some dst \<or> (\<exists>x. FromInner dst x \<in> set evs)"
  by (induction evs arbitrary: known) (fastforce simp: forward_step_def split: forward_event.splits option.splits if_splits)+

subsection \<open>Where the order matters\<close>

text \<open>
  A plain WireGuard tunnel asks for its exit before its carrier runs. When nothing can be read through a
  stack whose packets nobody carries, a policy is never met: the run fails, however good the exit is.
\<close>

lemma wireguard_policy_never_met:
  assumes "policy_from_env env = Some p" and "read_trace (xo_trace io) = Returns (Inl e)"
    and "parse_ipv4 (id_ipv4 ident) = Some a"
  shows "run_wireguard_tunnel env ident (\<lambda>keys. Inr ()) (Inr ()) io over = Returns (Inl unreadable_exit, [Spawn (Stack ''wireguard'')])"
  using assms by (simp add: run_wireguard_tunnel_def wg_handshake_keys_def private_key_bytes_def peer_public_key_bytes_def expose_def settle_def exit_report_def trace_through_def)

text \<open>
  The outer gateway of a nested MASQUE tunnel is searched without regard to an inner one named by hand: on
  the same address no inner gateway is tried and the run fails after the outer tunnel was built.
\<close>

lemma mim_same_edge_fails:
  assumes "sa_ip inner = sa_ip outer"
  shows "\<exists>steps. run_masque_in_masque env outer [inner] (Inr ()) StartReady tries io over = Returns (Inl no_inner_answer, steps)"
  using assms by (simp add: run_masque_in_masque_def establish_masque_def mim_tried_def Let_def)

text \<open>The warning counts the headers of IPv4 also for an IPv6 gateway, and so misses links that are too small.\<close>

lemma too_small_unnoticed:
  assumes "\<not> is_ipv4 peer" and "1228 \<le> mtu" and "mtu < 1248"
  shows "\<not> mim_too_small mtu peer False" and "mtu < fst (mim_inner_budget mtu peer False) + 48"
  using assms by (auto simp: mim_too_small_def mim_inner_budget_def clamp_def MIN_DATAGRAM_SIZE_def MAX_DATAGRAM_SIZE_def Let_def)

text \<open>
  The loop asks the search for no more hops than it needs, so the verified mode has nothing to exchange:
  the two hops may stand in one range.
\<close>

lemma gool_spread_does_nothing:
  assumes "select_wg_peers env tuning v ident mode ip want avoid w = Some (Inr ps)" and "want \<le> 2"
  shows "spread_hops ps = ps"
  using select_wg_peers_separate [OF assms(1)] assms(2) by (intro spread_hops_two) (simp add: separate_from_def)

end
