(* ===== verification/Cli.thy ===== *)
theory Cli
  imports Entry
begin

text \<open>
  \<^verbatim>\<open>cli.rs\<close>: the options of the command line. An option sets environment variables, which is where the rest
  of the program reads its settings. The text of the help and the version number are arguments: they are
  printed and not looked at.
\<close>

subsection \<open>Options\<close>

datatype parsed = ParsedRun | ParsedDone

text \<open>What an option does: it sets variables, it sets variables to the next argument, or it adds that argument to one.\<close>

datatype effect =
    Fixed "(string \<times> string) list"
  | Takes "string list"
  | Adds string

definition set_env :: "string \<Rightarrow> string \<Rightarrow> env \<Rightarrow> env" where
  "set_env key v env = env(key \<mapsto> v)"

definition append_env :: "string \<Rightarrow> string \<Rightarrow> env \<Rightarrow> env" where
  "append_env key v env =
     (case env key of
        Some existing \<Rightarrow>
          if trim existing \<noteq> [] then env(key \<mapsto> existing @ '';'' @ v) else env(key \<mapsto> v)
      | None \<Rightarrow> env(key \<mapsto> v))"

definition version_options :: "string list" where
  "version_options = [''-v'', ''--version'']"

definition help_options :: "string list" where
  "help_options = [''-h'', ''--help'', ''help'']"

text \<open>The arms of the match, in their order.\<close>

definition option_arms :: "(string list \<times> effect) list" where
  "option_arms =
     [
      ([''--bind''], Takes [''AETHER_SOCKS'']),
      ([''--http-proxy''], Takes [''AETHER_HTTP_PROXY'']),
      ([''--upstream''], Takes [''AETHER_UPSTREAM'']),
      ([''--tor''], Fixed [(''AETHER_TOR'', ''chain'')]),
      ([''--tor-reverse''], Fixed [(''AETHER_TOR'', ''reverse'')]),
      ([''--tor-only''], Fixed [(''AETHER_TOR'', ''only'')]),
      ([''--tor-bridge''], Adds ''AETHER_TOR_BRIDGES''),
      ([''--tor-bridges''], Fixed [(''AETHER_TOR_BRIDGES'', ''auto'')]),
      ([''--tor-bridge-file''], Takes [''AETHER_TOR_BRIDGE_FILE'']),
      ([''--tor-relays''], Takes [''AETHER_TOR_RELAYS'']),
      ([''--tor-relay-ports''], Takes [''AETHER_TOR_RELAY_PORTS'']),
      ([''--no-tor-bridges''], Fixed [(''AETHER_TOR_BRIDGES'', ''off'')]),
      ([''--tor-pt''], Adds ''AETHER_TOR_PT''),
      ([''--tor-pt-dir''], Adds ''AETHER_TOR_PT_DIR''),
      ([''--tor-bind''], Takes [''AETHER_TOR_BIND'']),
      ([''--tor-http''], Takes [''AETHER_TOR_HTTP'']),
      ([''--tor-dir''], Takes [''AETHER_TOR_DIR'']),
      ([''--psiphon''], Fixed [(''AETHER_PSIPHON'', ''chain'')]),
      ([''--psiphon-reverse''], Fixed [(''AETHER_PSIPHON'', ''reverse'')]),
      ([''--psiphon-only''], Fixed [(''AETHER_PSIPHON'', ''only'')]),
      ([''--psiphon-config''], Takes [''AETHER_PSIPHON_CONFIG'']),
      ([''--psiphon-bind''], Takes [''AETHER_PSIPHON_BIND'']),
      ([''--psiphon-http''], Takes [''AETHER_PSIPHON_HTTP'']),
      ([''--psiphon-region''], Takes [''AETHER_PSIPHON_REGION'']),
      ([''--psiphon-mode''], Takes [''AETHER_PSIPHON_MODE'']),
      ([''--psiphon-cdn-ips''], Takes [''AETHER_PSIPHON_CDN_IPS'']),
      ([''--psiphon-cdn-sni''], Takes [''AETHER_PSIPHON_CDN_SNI'']),
      ([''--psiphon-dir''], Takes [''AETHER_PSIPHON_DIR'']),
      ([''--psiphon-bin''], Takes [''AETHER_PSIPHON_BIN'']),
      ([''--mark''], Takes [''AETHER_MARK'']),
      ([''--exit-loc''], Takes [''AETHER_EXIT_LOC'']),
      ([''--exit-loc-secs''], Takes [''AETHER_EXIT_LOC_SECS'']),
      ([''--stats''], Fixed [(''AETHER_STATS'', ''1'')]),
      ([''--stats-secs''], Takes [''AETHER_STATS_SECS'']),
      ([''--quick-reconnect''], Fixed [(''AETHER_QUICK_RECONNECT'', ''1'')]),
      ([''--no-quick-reconnect''], Fixed [(''AETHER_QUICK_RECONNECT'', ''0'')]),
      ([''-4''], Fixed [(''AETHER_IP'', ''v4'')]),
      ([''-6''], Fixed [(''AETHER_IP'', ''v6'')]),
      ([''--dual''], Fixed [(''AETHER_IP'', ''both'')]),
      ([''--ip''], Takes [''AETHER_IP'']),
      ([''--peer''], Takes [''AETHER_PEER'']),
      ([''--wg-peer''], Takes [''AETHER_WG_PEER'']),
      ([''--wiw-outer'', ''--gool-outer'', ''--outer-peer''], Takes [''AETHER_WIW_OUTER_PEER'']),
      ([''--wiw-inner'', ''--gool-inner'', ''--inner-peer''], Takes [''AETHER_WIW_INNER_PEER'']),
      ([''--wiw-peers'', ''--gool-peers''], Takes [''AETHER_WIW_PEERS'']),
      ([''--wiw-scan'', ''--gool-scan''], Fixed [(''AETHER_WIW_PEERS'', ''auto'')]),
      ([''--masque''], Fixed [(''AETHER_PROTOCOL'', ''masque'')]),
      ([''--wg'', ''--wireguard'', ''--warp''], Fixed [(''AETHER_PROTOCOL'', ''wg'')]),
      ([''--gool'', ''--wiw''], Fixed [(''AETHER_PROTOCOL'', ''gool'')]),
      ([''--mim'', ''--masque-in-masque''], Fixed [(''AETHER_PROTOCOL'', ''mim'')]),
      ([''--mim-outer''], Takes [''AETHER_MIM_OUTER_PEER'']),
      ([''--mim-inner''], Takes [''AETHER_MIM_INNER_PEER'']),
      ([''--mim-peers''], Takes [''AETHER_MIM_PEERS'']),
      ([''--mim-scan''], Fixed [(''AETHER_MIM_PEERS'', ''auto'')]),
      ([''--protocol''], Takes [''AETHER_PROTOCOL'']),
      ([''--scan''], Takes [''AETHER_SCAN'']),
      ([''--turbo''], Fixed [(''AETHER_SCAN'', ''turbo'')]),
      ([''--balanced''], Fixed [(''AETHER_SCAN'', ''balanced'')]),
      ([''--thorough''], Fixed [(''AETHER_SCAN'', ''thorough'')]),
      ([''--verified'', ''--stealth''], Fixed [(''AETHER_SCAN'', ''verified'')]),
      ([''--ironclad''], Fixed [(''AETHER_SCAN'', ''ironclad'')]),
      ([''--noize''], Takes [''AETHER_NOIZE'']),
      ([''--h2'', ''--http2''], Fixed [(''AETHER_MASQUE_HTTP2'', ''1'')]),
      ([''--h3'', ''--quic''], Fixed [(''AETHER_MASQUE_HTTP2'', ''0'')]),
      ([''--no-quic-v2''], Fixed [(''AETHER_QUIC_V2'', ''0'')]),
      ([''--h2-peer''], Takes [''AETHER_MASQUE_H2_PEER'']),
      ([''--ech''], Takes [''AETHER_ECH'']),
      ([''--no-data-check''], Fixed [(''AETHER_MASQUE_NO_DATA_CHECK'', ''1''), (''AETHER_WG_NO_DATA_CHECK'', ''1'')]),
      ([''--validate-secs''], Takes [''AETHER_MASQUE_VALIDATE_SECS'', ''AETHER_WG_VALIDATE_SECS'']),
      ([''--startup-secs''], Takes [''AETHER_MASQUE_STARTUP_SECS'']),
      ([''--reconnect-secs''], Takes [''AETHER_MASQUE_RECONNECT_SECS'', ''AETHER_WG_RECONNECT_SECS'']),
      ([''--dns''], Takes [''AETHER_DNS'']),
      ([''--fragment''], Fixed [(''AETHER_MASQUE_H2_FRAGMENT'', ''1'')]),
      ([''--fragment-size''], Takes [''AETHER_MASQUE_H2_FRAGMENT_SIZE'']),
      ([''--fragment-delay''], Takes [''AETHER_MASQUE_H2_FRAGMENT_DELAY'']),
      ([''--keepalive''], Takes [''AETHER_WG_KEEPALIVE'']),
      ([''--no-profile-retry''], Fixed [(''AETHER_WG_NO_PROFILE_RETRY'', ''1'')]),
      ([''--config''], Takes [''AETHER_CONFIG'']),
      ([''--wg-config''], Takes [''AETHER_WG_CONFIG'']),
      ([''--masque-config''], Takes [''AETHER_MASQUE_CONFIG'']),
      ([''--team'', ''--organization''], Takes [''AETHER_TEAM'']),
      ([''--access-id''], Takes [''AETHER_ACCESS_CLIENT_ID'']),
      ([''--access-secret''], Takes [''AETHER_ACCESS_CLIENT_SECRET'']),
      ([''--access-token''], Takes [''AETHER_ACCESS_TOKEN'']),
      ([''--access-email''], Takes [''AETHER_ACCESS_EMAIL'']),
      ([''--gateway''], Fixed [(''AETHER_GATEWAY'', ''1'')]),
      ([''--route-block''], Takes [''AETHER_ROUTE_BLOCK'']),
      ([''--route-direct''], Takes [''AETHER_ROUTE_DIRECT'']),
      ([''--routes''], Takes [''AETHER_ROUTES_FILE'']),
      ([''--tls-groups''], Takes [''AETHER_TLS_GROUPS'']),
      ([''--perf''], Takes [''AETHER_PERF_PROFILE'']),
      ([''--log-level''], Takes [''AETHER_LOG_LEVEL'']),
      ([''--verbose''], Fixed [(''AETHER_LOG_LEVEL'', ''debug'')])]"

definition option_of :: "string \<Rightarrow> effect option" where
  "option_of arg = map_option snd (find (\<lambda>(names, _). arg \<in> set names) option_arms)"

subsection \<open>Reading the arguments\<close>

definition needs_value :: "string \<Rightarrow> aether_error" where
  "needs_value arg = Other (arg @ '' requires a value'')"

definition unknown_option :: "string \<Rightarrow> string \<Rightarrow> aether_error" where
  "unknown_option usage arg = Other (''unknown option '' @ [CHR 0x27] @ arg @ [CHR 0x27, CHR 0x0A, CHR 0x0A] @ usage)"

definition version_line :: "string \<Rightarrow> string" where
  "version_line version = ''aether '' @ version @ [CHR 0x0A]"

text \<open>The variables afterwards, what was printed, and the result.\<close>

type_synonym parse_result = "env \<times> string list \<times> (aether_error + parsed)"

fun parse_args :: "string \<Rightarrow> string \<Rightarrow> env \<Rightarrow> string list \<Rightarrow> parse_result" where
  "parse_args usage version env [] = (env, [], Inr ParsedRun)"
| "parse_args usage version env (arg # rest) =
     (if arg \<in> set version_options then (env, [version_line version], Inr ParsedDone)
      else if arg \<in> set help_options then (env, [usage], Inr ParsedDone)
      else
        case option_of arg of
          None \<Rightarrow> (env, [], Inl (unknown_option usage arg))
        | Some (Fixed kvs) \<Rightarrow> parse_args usage version (fold (\<lambda>(k, v). set_env k v) kvs env) rest
        | Some (Takes ks) \<Rightarrow>
            (case rest of
               [] \<Rightarrow> (env, [], Inl (needs_value arg))
             | v # rest' \<Rightarrow> parse_args usage version (fold (\<lambda>k. set_env k v) ks env) rest')
        | Some (Adds k) \<Rightarrow>
            (case rest of
               [] \<Rightarrow> (env, [], Inl (needs_value arg))
             | v # rest' \<Rightarrow> parse_args usage version (append_env k v env) rest'))"

subsection \<open>The variables of the options\<close>

primrec effect_keys :: "effect \<Rightarrow> string list" where
  "effect_keys (Fixed kvs) = map fst kvs"
| "effect_keys (Takes ks) = ks"
| "effect_keys (Adds k) = [k]"

definition adding_keys :: "string list" where
  "adding_keys = [''AETHER_TOR_BRIDGES'', ''AETHER_TOR_PT'', ''AETHER_TOR_PT_DIR'']"

definition effect_ok :: "effect \<Rightarrow> bool" where
  "effect_ok e \<longleftrightarrow>
     effect_keys e \<noteq> [] \<and> list_all (\<lambda>k. starts_with k ''AETHER_'') (effect_keys e)
     \<and> (case e of Adds k \<Rightarrow> k \<in> set adding_keys | Fixed _ \<Rightarrow> True | Takes _ \<Rightarrow> True)"

lemma option_arms_ok: "list_all (\<lambda>(_, e). effect_ok e) option_arms"
  by (simp add: option_arms_def effect_ok_def starts_with_def adding_keys_def)

lemma option_of_ok: "option_of arg = Some e \<Longrightarrow> effect_ok e"
proof -
  assume "option_of arg = Some e"
  then obtain names where "find (\<lambda>(names, _). arg \<in> set names) option_arms = Some (names, e)"
    by (auto simp: option_of_def)
  then have "(names, e) \<in> set option_arms" by (metis find_Some_iff nth_mem)
  then show ?thesis using option_arms_ok by (auto simp: list_all_iff)
qed

subsection \<open>What the help says\<close>

text \<open>
  What a flag does with a variable according to the help: it sets the variable to a constant, to the value that follows
  the flag, or it adds that value to those the variable has (\<^verbatim>\<open>several separated by ;\<close>).
\<close>

datatype documented_effect = Const string | Given | Appended

text \<open>
  The flags of the help with the variables that its section \<^verbatim>\<open>Environment variables\<close> gives them. A flag without
  a value is a switch, which is 1, unless the help names the value it stands for. Eight spellings that the help
  does not show stand beside the flag they abbreviate: those that begin with \<open>--gool-\<close> for \<open>--wiw-\<close>, \<open>--outer-peer\<close>,
  \<open>--inner-peer\<close>, \<open>--stealth\<close> for \<open>--verified\<close> and \<open>--organization\<close> for \<open>--team\<close>.
\<close>

definition help_flags :: "(string \<times> (string \<times> documented_effect) list) list" where
  "help_flags =
     [
      (''--bind'', [(''AETHER_SOCKS'', Given)]),
      (''--http-proxy'', [(''AETHER_HTTP_PROXY'', Given)]),
      (''--upstream'', [(''AETHER_UPSTREAM'', Given)]),
      (''--tor'', [(''AETHER_TOR'', Const ''chain'')]),
      (''--tor-reverse'', [(''AETHER_TOR'', Const ''reverse'')]),
      (''--tor-only'', [(''AETHER_TOR'', Const ''only'')]),
      (''--tor-bridge'', [(''AETHER_TOR_BRIDGES'', Appended)]),
      (''--tor-bridges'', [(''AETHER_TOR_BRIDGES'', Const ''auto'')]),
      (''--tor-bridge-file'', [(''AETHER_TOR_BRIDGE_FILE'', Given)]),
      (''--tor-relays'', [(''AETHER_TOR_RELAYS'', Given)]),
      (''--tor-relay-ports'', [(''AETHER_TOR_RELAY_PORTS'', Given)]),
      (''--no-tor-bridges'', [(''AETHER_TOR_BRIDGES'', Const ''off'')]),
      (''--tor-pt'', [(''AETHER_TOR_PT'', Appended)]),
      (''--tor-pt-dir'', [(''AETHER_TOR_PT_DIR'', Appended)]),
      (''--tor-bind'', [(''AETHER_TOR_BIND'', Given)]),
      (''--tor-http'', [(''AETHER_TOR_HTTP'', Given)]),
      (''--tor-dir'', [(''AETHER_TOR_DIR'', Given)]),
      (''--psiphon'', [(''AETHER_PSIPHON'', Const ''chain'')]),
      (''--psiphon-reverse'', [(''AETHER_PSIPHON'', Const ''reverse'')]),
      (''--psiphon-only'', [(''AETHER_PSIPHON'', Const ''only'')]),
      (''--psiphon-config'', [(''AETHER_PSIPHON_CONFIG'', Given)]),
      (''--psiphon-bind'', [(''AETHER_PSIPHON_BIND'', Given)]),
      (''--psiphon-http'', [(''AETHER_PSIPHON_HTTP'', Given)]),
      (''--psiphon-region'', [(''AETHER_PSIPHON_REGION'', Given)]),
      (''--psiphon-mode'', [(''AETHER_PSIPHON_MODE'', Given)]),
      (''--psiphon-cdn-ips'', [(''AETHER_PSIPHON_CDN_IPS'', Given)]),
      (''--psiphon-cdn-sni'', [(''AETHER_PSIPHON_CDN_SNI'', Given)]),
      (''--psiphon-dir'', [(''AETHER_PSIPHON_DIR'', Given)]),
      (''--psiphon-bin'', [(''AETHER_PSIPHON_BIN'', Given)]),
      (''--mark'', [(''AETHER_MARK'', Given)]),
      (''--exit-loc'', [(''AETHER_EXIT_LOC'', Given)]),
      (''--exit-loc-secs'', [(''AETHER_EXIT_LOC_SECS'', Given)]),
      (''--stats'', [(''AETHER_STATS'', Const ''1'')]),
      (''--stats-secs'', [(''AETHER_STATS_SECS'', Given)]),
      (''--quick-reconnect'', [(''AETHER_QUICK_RECONNECT'', Const ''1'')]),
      (''--no-quick-reconnect'', [(''AETHER_QUICK_RECONNECT'', Const ''0'')]),
      (''-4'', [(''AETHER_IP'', Const ''v4'')]),
      (''-6'', [(''AETHER_IP'', Const ''v6'')]),
      (''--dual'', [(''AETHER_IP'', Const ''both'')]),
      (''--ip'', [(''AETHER_IP'', Given)]),
      (''--peer'', [(''AETHER_PEER'', Given)]),
      (''--wg-peer'', [(''AETHER_WG_PEER'', Given)]),
      (''--wiw-outer'', [(''AETHER_WIW_OUTER_PEER'', Given)]),
      (''--gool-outer'', [(''AETHER_WIW_OUTER_PEER'', Given)]),
      (''--outer-peer'', [(''AETHER_WIW_OUTER_PEER'', Given)]),
      (''--wiw-inner'', [(''AETHER_WIW_INNER_PEER'', Given)]),
      (''--gool-inner'', [(''AETHER_WIW_INNER_PEER'', Given)]),
      (''--inner-peer'', [(''AETHER_WIW_INNER_PEER'', Given)]),
      (''--wiw-peers'', [(''AETHER_WIW_PEERS'', Given)]),
      (''--gool-peers'', [(''AETHER_WIW_PEERS'', Given)]),
      (''--wiw-scan'', [(''AETHER_WIW_PEERS'', Const ''auto'')]),
      (''--gool-scan'', [(''AETHER_WIW_PEERS'', Const ''auto'')]),
      (''--masque'', [(''AETHER_PROTOCOL'', Const ''masque'')]),
      (''--wg'', [(''AETHER_PROTOCOL'', Const ''wg'')]),
      (''--wireguard'', [(''AETHER_PROTOCOL'', Const ''wg'')]),
      (''--warp'', [(''AETHER_PROTOCOL'', Const ''wg'')]),
      (''--gool'', [(''AETHER_PROTOCOL'', Const ''gool'')]),
      (''--wiw'', [(''AETHER_PROTOCOL'', Const ''gool'')]),
      (''--mim'', [(''AETHER_PROTOCOL'', Const ''mim'')]),
      (''--masque-in-masque'', [(''AETHER_PROTOCOL'', Const ''mim'')]),
      (''--mim-outer'', [(''AETHER_MIM_OUTER_PEER'', Given)]),
      (''--mim-inner'', [(''AETHER_MIM_INNER_PEER'', Given)]),
      (''--mim-peers'', [(''AETHER_MIM_PEERS'', Given)]),
      (''--mim-scan'', [(''AETHER_MIM_PEERS'', Const ''auto'')]),
      (''--protocol'', [(''AETHER_PROTOCOL'', Given)]),
      (''--scan'', [(''AETHER_SCAN'', Given)]),
      (''--turbo'', [(''AETHER_SCAN'', Const ''turbo'')]),
      (''--balanced'', [(''AETHER_SCAN'', Const ''balanced'')]),
      (''--thorough'', [(''AETHER_SCAN'', Const ''thorough'')]),
      (''--verified'', [(''AETHER_SCAN'', Const ''verified'')]),
      (''--stealth'', [(''AETHER_SCAN'', Const ''verified'')]),
      (''--ironclad'', [(''AETHER_SCAN'', Const ''ironclad'')]),
      (''--noize'', [(''AETHER_NOIZE'', Given)]),
      (''--h2'', [(''AETHER_MASQUE_HTTP2'', Const ''1'')]),
      (''--http2'', [(''AETHER_MASQUE_HTTP2'', Const ''1'')]),
      (''--h3'', [(''AETHER_MASQUE_HTTP2'', Const ''0'')]),
      (''--quic'', [(''AETHER_MASQUE_HTTP2'', Const ''0'')]),
      (''--no-quic-v2'', [(''AETHER_QUIC_V2'', Const ''0'')]),
      (''--h2-peer'', [(''AETHER_MASQUE_H2_PEER'', Given)]),
      (''--ech'', [(''AETHER_ECH'', Given)]),
      (''--no-data-check'', [(''AETHER_MASQUE_NO_DATA_CHECK'', Const ''1''), (''AETHER_WG_NO_DATA_CHECK'', Const ''1'')]),
      (''--validate-secs'', [(''AETHER_MASQUE_VALIDATE_SECS'', Given), (''AETHER_WG_VALIDATE_SECS'', Given)]),
      (''--startup-secs'', [(''AETHER_MASQUE_STARTUP_SECS'', Given)]),
      (''--reconnect-secs'', [(''AETHER_MASQUE_RECONNECT_SECS'', Given), (''AETHER_WG_RECONNECT_SECS'', Given)]),
      (''--dns'', [(''AETHER_DNS'', Given)]),
      (''--fragment'', [(''AETHER_MASQUE_H2_FRAGMENT'', Const ''1'')]),
      (''--fragment-size'', [(''AETHER_MASQUE_H2_FRAGMENT_SIZE'', Given)]),
      (''--fragment-delay'', [(''AETHER_MASQUE_H2_FRAGMENT_DELAY'', Given)]),
      (''--keepalive'', [(''AETHER_WG_KEEPALIVE'', Given)]),
      (''--no-profile-retry'', [(''AETHER_WG_NO_PROFILE_RETRY'', Const ''1'')]),
      (''--config'', [(''AETHER_CONFIG'', Given)]),
      (''--wg-config'', [(''AETHER_WG_CONFIG'', Given)]),
      (''--masque-config'', [(''AETHER_MASQUE_CONFIG'', Given)]),
      (''--team'', [(''AETHER_TEAM'', Given)]),
      (''--organization'', [(''AETHER_TEAM'', Given)]),
      (''--access-id'', [(''AETHER_ACCESS_CLIENT_ID'', Given)]),
      (''--access-secret'', [(''AETHER_ACCESS_CLIENT_SECRET'', Given)]),
      (''--access-token'', [(''AETHER_ACCESS_TOKEN'', Given)]),
      (''--access-email'', [(''AETHER_ACCESS_EMAIL'', Given)]),
      (''--gateway'', [(''AETHER_GATEWAY'', Const ''1'')]),
      (''--route-block'', [(''AETHER_ROUTE_BLOCK'', Given)]),
      (''--route-direct'', [(''AETHER_ROUTE_DIRECT'', Given)]),
      (''--routes'', [(''AETHER_ROUTES_FILE'', Given)]),
      (''--tls-groups'', [(''AETHER_TLS_GROUPS'', Given)]),
      (''--perf'', [(''AETHER_PERF_PROFILE'', Given)]),
      (''--log-level'', [(''AETHER_LOG_LEVEL'', Given)]),
      (''--verbose'', [(''AETHER_LOG_LEVEL'', Const ''debug'')])]"

primrec effect_pairs :: "effect \<Rightarrow> (string \<times> documented_effect) list" where
  "effect_pairs (Fixed kvs) = map (\<lambda>(k, v). (k, Const v)) kvs"
| "effect_pairs (Takes ks) = map (\<lambda>k. (k, Given)) ks"
| "effect_pairs (Adds k) = [(k, Appended)]"

text \<open>The arms of the match do what the help says of their names.\<close>

lemma arms_documented: "concat (map (\<lambda>(names, e). map (\<lambda>n. (n, effect_pairs e)) names) option_arms) = help_flags"
  by (simp add: option_arms_def help_flags_def)

lemma find_rows:
  "map_option g (map_option snd (find (\<lambda>(names, _). x \<in> set names) arms)) =
   map_of (concat (map (\<lambda>(names, e). map (\<lambda>n. (n, g e)) names) arms)) x"
proof (induction arms)
  case (Cons a arms)
  obtain names e where a: "a = (names, e)" by (cases a)
  have "map_of (map (\<lambda>n. (n, g e)) names) x = (if x \<in> set names then Some (g e) else None)" by (induction names) auto
  then show ?case using Cons by (simp add: a map_add_def)
qed simp

lemma option_of_documented: "map_option effect_pairs (option_of arg) = map_of help_flags arg"
  unfolding option_of_def arms_documented [symmetric] by (rule find_rows)

lemma option_of_cases:
  obtains (unknown) "option_of arg = None" and "map_of help_flags arg = None"
  | (fixed) kvs where "option_of arg = Some (Fixed kvs)" and "map_of help_flags arg = Some (map (\<lambda>(k, v). (k, Const v)) kvs)"
  | (takes) ks where "option_of arg = Some (Takes ks)" and "map_of help_flags arg = Some (map (\<lambda>k. (k, Given)) ks)" and "ks \<noteq> []"
  | (adds) key where "option_of arg = Some (Adds key)" and "map_of help_flags arg = Some [(key, Appended)]"
proof (cases "option_of arg")
  case None
  then show thesis using option_of_documented [of arg] unknown by simp
next
  case (Some e)
  then have "map_of help_flags arg = Some (effect_pairs e)" using option_of_documented [of arg] by simp
  then show thesis using Some option_of_ok [OF Some] fixed takes adds by (cases e) (simp_all add: effect_ok_def)
qed

subsection \<open>What the arguments say about one variable\<close>

datatype update = SetTo string | AddTo string

primrec asked :: "string \<Rightarrow> documented_effect \<Rightarrow> update" where
  "asked v (Const c) = SetTo c"
| "asked v Given = SetTo v"
| "asked v Appended = AddTo v"

definition needs_argument :: "(string \<times> documented_effect) list \<Rightarrow> bool" where
  "needs_argument ds \<longleftrightarrow> list_ex (\<lambda>(k, d). d = Given \<or> d = Appended) ds"

text \<open>
  The reference: the arguments as a list of updates of variables, read as the help says and without any
  environment, up to the argument that ends the reading.
\<close>

fun updates :: "string list \<Rightarrow> (string \<times> update) list" where
  "updates [] = []"
| "updates (arg # rest) =
     (if arg \<in> set version_options \<or> arg \<in> set help_options then []
      else
        case map_of help_flags arg of
          None \<Rightarrow> []
        | Some ds \<Rightarrow>
            if needs_argument ds
            then (case rest of [] \<Rightarrow> [] | v # rest' \<Rightarrow> map (\<lambda>(k, d). (k, asked v d)) ds @ updates rest')
            else map (\<lambda>(k, d). (k, asked [] d)) ds @ updates rest)"

declare updates.simps(2) [simp del]

lemma updates_Cons:
  "updates (arg # rest) =
     (if arg \<in> set version_options \<or> arg \<in> set help_options then []
      else
        case option_of arg of
          None \<Rightarrow> []
        | Some (Fixed kvs) \<Rightarrow> map (\<lambda>(k, v). (k, SetTo v)) kvs @ updates rest
        | Some (Takes ks) \<Rightarrow> (case rest of [] \<Rightarrow> [] | v # rest' \<Rightarrow> map (\<lambda>k. (k, SetTo v)) ks @ updates rest')
        | Some (Adds k) \<Rightarrow> (case rest of [] \<Rightarrow> [] | v # rest' \<Rightarrow> (k, AddTo v) # updates rest'))"
proof (cases arg rule: option_of_cases)
  case (fixed kvs)
  then show ?thesis
    by (simp add: updates.simps(2) needs_argument_def list_ex_iff case_prod_beta' comp_def)
next
  case (takes ks)
  then show ?thesis
    by (cases ks) (simp_all add: updates.simps(2) needs_argument_def comp_def split: list.splits)
qed (simp_all add: updates.simps(2) needs_argument_def split: list.splits)

definition updates_of :: "string \<Rightarrow> string list \<Rightarrow> update list" where
  "updates_of k args = map snd (filter (\<lambda>(k', _). k' = k) (updates args))"

fun updated :: "string option \<Rightarrow> update \<Rightarrow> string option" where
  "updated x (SetTo v) = Some v"
| "updated None (AddTo v) = Some v"
| "updated (Some x) (AddTo v) = Some (if trim x \<noteq> [] then x @ '';'' @ v else v)"

lemma append_env_at: "append_env key v env k = (if k = key then updated (env k) (AddTo v) else env k)"
  by (simp add: append_env_def split: option.split)

lemma set_pairs_at:
  "fold (\<lambda>(k, v). set_env k v) kvs env k =
     foldl updated (env k) (map snd (filter (\<lambda>(k', _). k' = k) (map (\<lambda>(k, v). (k, SetTo v)) kvs)))"
proof (induction kvs arbitrary: env)
  case (Cons kv kvs)
  then show ?case by (cases kv) (simp add: set_env_def)
qed simp

lemma set_keys_at:
  "fold (\<lambda>k. set_env k v) ks env k =
     foldl updated (env k) (map snd (filter (\<lambda>(k', _). k' = k) (map (\<lambda>k. (k, SetTo v)) ks)))"
proof (induction ks arbitrary: env)
  case (Cons k' ks)
  then show ?case by (simp add: set_env_def)
qed simp

text \<open>Every variable ends as its updates, in their order, make it; the variables do not influence one another.\<close>

lemma parse_args_at: "fst (parse_args usage version env args) k = foldl updated (env k) (updates_of k args)"
proof (induction usage version env args rule: parse_args.induct)
  case (2 usage version env arg rest)
  consider "arg \<in> set version_options \<or> arg \<in> set help_options" | (un) "option_of arg = None"
    | (fx) kvs where "option_of arg = Some (Fixed kvs)" | (tk) ks where "option_of arg = Some (Takes ks)"
    | (ad) key where "option_of arg = Some (Adds key)"
    by (cases "option_of arg") (blast, metis effect.exhaust)
  then show ?case
  proof cases
    case fx
    then show ?thesis using 2 set_pairs_at [of kvs env k] by (auto simp: updates_of_def updates_Cons)
  next
    case tk
    then show ?thesis using 2 set_keys_at [where ks = ks and env = env and k = k] by (cases rest) (auto simp: updates_of_def updates_Cons)
  next
    case ad
    then show ?thesis using 2 append_env_at [where key = key and env = env and k = k] by (cases rest) (auto simp: updates_of_def updates_Cons)
  qed (auto simp: updates_of_def updates_Cons)
qed (simp add: updates_of_def updates_Cons)

text \<open>Whether the arguments are accepted does not depend on the variables.\<close>

lemma parse_args_result: "snd (snd (parse_args usage version env args)) = snd (snd (parse_args usage version env2 args))"
proof (induction usage version env args arbitrary: env2 rule: parse_args.induct)
  case (2 usage version env arg rest)
  consider "arg \<in> set version_options \<or> arg \<in> set help_options" | (un) "option_of arg = None"
    | (fx) kvs where "option_of arg = Some (Fixed kvs)" | (tk) ks where "option_of arg = Some (Takes ks)"
    | (ad) key where "option_of arg = Some (Adds key)"
    by (cases "option_of arg") (blast, metis effect.exhaust)
  then show ?case
  proof cases
    case fx
    then show ?thesis using "2.IH"(1) [where ?env2.0 = "fold (\<lambda>(k, v). set_env k v) kvs env2"] by auto
  next
    case tk
    then show ?thesis using "2.IH"(2) [where ?env2.0 = "fold (\<lambda>k. set_env k (hd rest)) ks env2"] by (cases rest) auto
  next
    case ad
    then show ?thesis using "2.IH"(3) [where ?env2.0 = "append_env key (hd rest) env2"] by (cases rest) auto
  qed auto
qed simp

lemma updates_ok: "(k, u) \<in> set (updates args) \<Longrightarrow>
    starts_with k ''AETHER_'' \<and> ((\<exists>v. u = AddTo v) \<longrightarrow> k \<in> set adding_keys)"
proof (induction args rule: length_induct)
  case (1 args)
  show ?case
  proof (cases args)
    case Nil
    with 1 show ?thesis by simp
  next
    case (Cons arg rest)
    then have IH: "(k, u) \<in> set (updates rest) \<or> (k, u) \<in> set (updates (tl rest)) \<Longrightarrow> ?thesis"
      using 1(1) by (metis length_Cons length_tl less_Suc_eq_le diff_le_self le_refl)
    show ?thesis
    proof (cases "option_of arg")
      case (Some e)
      note ok = option_of_ok [OF Some, unfolded effect_ok_def]
      show ?thesis using 1(2) Cons Some ok IH
        by (cases e) (auto simp: updates_Cons list_all_iff split: if_splits list.splits)
    qed (use 1(2) Cons in \<open>auto simp: updates_Cons split: if_splits\<close>)
  qed
qed

lemma updates_of_ok:
  assumes "u \<in> set (updates_of k args)"
  shows "starts_with k ''AETHER_'' \<and> ((\<exists>v. u = AddTo v) \<longrightarrow> k \<in> set adding_keys)"
  using assms updates_ok [of k u args] by (auto simp: updates_of_def)

subsection \<open>Values that are added\<close>

definition joined_with :: "string \<Rightarrow> string list \<Rightarrow> string" where
  "joined_with x vs = x @ concat (map (\<lambda>v. '';'' @ v) vs)"

lemma trim_start_keeps:
  assumes "c \<in> set s" and "\<forall>w \<in> set ws. c \<notin> set (of_bytes w)"
  shows "c \<in> set (trim_start_with ws s)"
  using assms
proof (induction ws s rule: trim_start_with.induct)
  case (1 ws s)
  have keep: "c \<in> set (drop (leading_space ws s) s)"
  proof (cases "find (\<lambda>w. starts_with s (of_bytes w)) ws")
    case (Some w)
    then have "w \<in> set ws" "starts_with s (of_bytes w)" by (auto simp: find_Some_iff)
    then have "c \<notin> set (take (length w) s)" using "1.prems"(2) by (auto simp: starts_with_def length_of_bytes)
    moreover have "c \<in> set (take (length w) s @ drop (length w) s)" using "1.prems"(1) by simp
    ultimately have "c \<in> set (drop (length w) s)" unfolding set_append by blast
    then show ?thesis using Some by (simp add: leading_space_def)
  qed (use "1.prems" in \<open>simp add: leading_space_def\<close>)
  then show ?case using 1 by (subst trim_start_with.simps) (auto simp: Let_def)
qed

lemma trim_semicolon: "trim (x @ '';'' @ v) \<noteq> []"
proof -
  have "CHR '';'' \<in> set (trim_start (x @ '';'' @ v))"
    unfolding trim_start_def by (rule trim_start_keeps) (auto simp: white_space_def of_bytes_def char_of_def bit_0)
  then have "CHR '';'' \<in> set (trim_start_with (map rev white_space) (rev (trim_start (x @ '';'' @ v))))"
    by (intro trim_start_keeps) (auto simp: white_space_def of_bytes_def char_of_def bit_0)
  then show ?thesis by (auto simp: trim_def trim_end_def)
qed

lemma updated_adds: "trim x \<noteq> [] \<Longrightarrow> foldl updated (Some x) (map AddTo vs) = Some (joined_with x vs)"
proof (induction vs arbitrary: x)
  case (Cons v vs)
  have "foldl updated (Some x) (map AddTo (v # vs)) = foldl updated (Some (x @ '';'' @ v)) (map AddTo vs)"
    using Cons.prems by simp
  also have "\<dots> = Some (joined_with (x @ '';'' @ v) vs)" by (rule Cons.IH) (rule trim_semicolon)
  finally show ?case by (simp add: joined_with_def)
qed (simp add: joined_with_def)

text \<open>
  C40. The options decide the settings, as the help lists them. A variable that no flag of the arguments names
  keeps its value. A flag that sets a variable beats the variable and every earlier flag: the value at the end is
  the one that the help gives it, whatever the environment was. The three lists of the Tor settings are the
  exception to the rule of the help that a flag beats a variable: their values come after what is
  there, the environment included, separated by a semicolon. The options change no variable but the
  program's own, and whether they are accepted does not depend on the environment.
\<close>

theorem options_decide_variables:
  assumes "parse_args usage version env args = (env', printed, r)"
  shows "(updates_of k args = [] \<longrightarrow> env' k = env k)
    \<and> (\<forall>us v. updates_of k args = us @ [SetTo v] \<longrightarrow> env' k = Some v)
    \<and> (\<forall>us v vs. updates_of k args = us @ SetTo v # map AddTo vs \<longrightarrow> trim v \<noteq> [] \<longrightarrow> env' k = Some (joined_with v vs))
    \<and> (\<forall>x vs. updates_of k args = map AddTo vs \<longrightarrow> env k = Some x \<longrightarrow> trim x \<noteq> [] \<longrightarrow> env' k = Some (joined_with x vs))
    \<and> (\<forall>v. AddTo v \<in> set (updates_of k args) \<longrightarrow> k \<in> set adding_keys)
    \<and> (updates_of k args \<noteq> [] \<longrightarrow> starts_with k ''AETHER_'')
    \<and> (\<forall>env2. snd (snd (parse_args usage version env2 args)) = r)"
proof (intro conjI allI impI)
  have result: "env' k = foldl updated (env k) (updates_of k args)"
    using parse_args_at [of usage version env args k] assms by simp
  show "env' k = env k" if "updates_of k args = []" using result that by simp
  show "env' k = Some v" if "updates_of k args = us @ [SetTo v]" for us v using result that by simp
  show "env' k = Some (joined_with v vs)" if "updates_of k args = us @ SetTo v # map AddTo vs" "trim v \<noteq> []" for us v vs
    using result that by (simp add: updated_adds)
  show "env' k = Some (joined_with x vs)" if "updates_of k args = map AddTo vs" "env k = Some x" "trim x \<noteq> []" for x vs
    using result that by (simp add: updated_adds)
  show "k \<in> set adding_keys" if "AddTo v \<in> set (updates_of k args)" for v using updates_of_ok [OF that] by blast
  show "starts_with k ''AETHER_''" if "updates_of k args \<noteq> []"
    using updates_of_ok [of "hd (updates_of k args)" k args] that by simp
  show "snd (snd (parse_args usage version env2 args)) = r" for env2
    using parse_args_result [of usage version env args env2] assms by simp
qed

lemma option_of_samples:
  "option_of ''--scan'' = Some (Takes [''AETHER_SCAN''])"
  "option_of ''--balanced'' = Some (Fixed [(''AETHER_SCAN'', ''balanced'')])"
  "option_of ''--tor-bridge'' = Some (Adds ''AETHER_TOR_BRIDGES'')"
  by (simp_all add: option_of_def option_arms_def)

theorem options_decide_variables_witness:
  "let env' = fst (parse_args [] ''2.1.0'' (Map.empty(''AETHER_TOR_BRIDGES'' \<mapsto> ''x''))
                    [''--scan'', ''turbo'', ''--tor-bridge'', ''y'', ''--balanced''])
   in env' ''AETHER_SCAN'' = Some ''balanced'' \<and> env' ''AETHER_TOR_BRIDGES'' = Some ''x;y''"
proof -
  let ?args = "[''--scan'', ''turbo'', ''--tor-bridge'', ''y'', ''--balanced'']"
  let ?env = "Map.empty(''AETHER_TOR_BRIDGES'' \<mapsto> ''x'')"
  have ups: "updates_of ''AETHER_SCAN'' ?args = [SetTo ''turbo''] @ [SetTo ''balanced'']"
      "updates_of ''AETHER_TOR_BRIDGES'' ?args = map AddTo [''y'']"
    by (simp_all add: updates_of_def updates_Cons option_of_samples version_options_def help_options_def)
  obtain env' printed r where run: "parse_args [] ''2.1.0'' ?env ?args = (env', printed, r)" by (metis prod_cases3)
  have "env' ''AETHER_SCAN'' = Some ''balanced''"
    using options_decide_variables [OF run, of "''AETHER_SCAN''"] ups(1) by blast
  moreover have "trim ''x'' \<noteq> []" by (subst trim_graphic) (simp_all add: ascii_graphic_def)
  then have "env' ''AETHER_TOR_BRIDGES'' = Some (joined_with ''x'' [''y''])"
    using options_decide_variables [OF run, of "''AETHER_TOR_BRIDGES''"] ups(2) by simp
  ultimately show ?thesis using run by (simp add: joined_with_def)
qed

end
