(* ===== verification/Bridges.thy ===== *)
theory Bridges
  imports Exitloc "HOL-Library.List_Lexorder" "HOL-Library.Char_ord"
begin

text \<open>
  \<^verbatim>\<open>bridges.rs\<close>: the bridges of the Tor client. Bridge lines are read, gathered from the services and the
  saved file, probed, and matched with the programs that speak their transports; then they are tried kind by
  kind. The answers of the services, of the probes and of the programs are arguments. A
  \<^verbatim>\<open>BTreeMap\<close> over names is the list of its pairs in the order of the names.
\<close>

subsection \<open>Constants and types\<close>

definition PREFERENCE :: "string list" where
  "PREFERENCE = [''obfs4'', ''webtunnel'', ''snowflake'', ''meek_lite'', ''meek'']"

definition EMBEDDED :: "string list" where
  "EMBEDDED =
     [''snowflake 192.0.2.3:80 2B280B23E1107BB62ABFC40DDCC8824814F80A72 fingerprint=2B280B23E110'' @
       ''7BB62ABFC40DDCC8824814F80A72 url=https://1098762253.rsc.cdn77.org/ fronts=app.datapacket'' @
       ''.com,www.datapacket.com ice=stun:stun.epygi.com:3478,stun:stun.uls.co.za:3478,stun:stun.'' @
       ''voipgate.com:3478,stun:stun.mixvoip.com:3478,stun:stun.telnyx.com:3478,stun:stun.hot-chi'' @
       ''lli.net:3478,stun:stun.fitauto.ru:3478,stun:stun.m-online.net:3478 utls-imitate=helloran'' @
       ''domizedalpn'',
      ''snowflake 192.0.2.4:80 8838024498816A039FCBBAB14E6F40A0843051FA fingerprint=883802449881'' @
       ''6A039FCBBAB14E6F40A0843051FA url=https://1098762253.rsc.cdn77.org/ fronts=app.datapacket'' @
       ''.com,www.datapacket.com ice=stun:stun.epygi.com:3478,stun:stun.uls.co.za:3478,stun:stun.'' @
       ''voipgate.com:3478,stun:stun.mixvoip.com:3478,stun:stun.telnyx.com:3478,stun:stun.hot-chi'' @
       ''lli.net:3478,stun:stun.fitauto.ru:3478,stun:stun.m-online.net:3478 utls-imitate=helloran'' @
       ''domizedalpn'',
      ''obfs4 146.57.248.225:22 10A6CD36A537FCE513A322361547444B393989F0 cert=K1gDtDAIcUfeLqbstg'' @
       ''gjIw2rtgIKqdIhUlHp82XRqNSq/mtAjp1BIC9vHKJ2FAEpGssTPw iat-mode=0'',
      ''obfs4 209.148.46.65:443 74FAD13168806246602538555B5521A0383A1875 cert=ssH+9rP8dG2NLDN2Xu'' @
       ''Fw63hIO/9MNNinLmxQDpVa+7kTOa9/m+tGWT1SmSYpQ9uTBGa6Hw iat-mode=0'',
      ''obfs4 45.145.95.6:27015 C5B7CD6946FF10C5B3E89691A7D3F2C122D2117C cert=TD7PbUO0/0k6xYHMPW'' @
       ''3vJxICfkMZNdkRrb63Zhl5j9dW3iRGiCx0A7mPhe5T2EDzQ35+Zw iat-mode=0'',
      ''obfs4 212.83.43.74:443 39562501228A4D5E27FCA4C0C81A01EE23AE3EE4 cert=PBwr+S8JTVZo6MPdHnk'' @
       ''TwXJPILWADLqfMGoVvhZClMq/Urndyd42BwX9YFJHZnBB3H0XCw iat-mode=1'',
      ''obfs4 51.222.13.177:80 5EDAC3B810E12B01F6FD8050D2FD3E277B289A08 cert=2uplIpLQ0q9+0qMFrK5'' @
       ''pkaYRDOe460LL9WHBvatgkuRr/SL31wBOEupaMMJ6koRE6Ld0ew iat-mode=0'',
      ''obfs4 37.218.245.14:38224 D9A82D2F9C2F65A18407B1D2B764F130847F8B5D cert=bjRaMrr1BRiAW8IE'' @
       ''9U5z27fQaYgOhX1UCmOpg2pFpoMvo6ZgQMzLsaTzzQNTlm7hNcb+Sg iat-mode=0'',
      ''obfs4 212.83.43.95:443 BFE712113A72899AD685764B211FACD30FF52C31 cert=ayq0XzCwhpdysn5o0Ey'' @
       ''DUbmSOx3X/oTEbzDMvczHOdBJKlvIdHHLJGkZARtT4dcBFArPPg iat-mode=1'',
      ''meek_lite 192.0.2.20:80 url=https://1603026938.rsc.cdn77.org front=www.phpmyadmin.net ut'' @
       ''ls=HelloRandomizedALPN'']"

definition PT_BINARIES :: "(string \<times> string list) list" where
  "PT_BINARIES =
     [(''snowflake-client'', [''snowflake'']),
      (''webtunnel-client'', [''webtunnel'']),
      (''conjure-client'', [''conjure'']),
      (''meek-client'', [''meek'', ''meek_lite'']),
      (''lyrebird'', [''obfs4'', ''snowflake'', ''webtunnel'', ''meek_lite'', ''obfs3'', ''scramblesuit'']),
      (''obfs4proxy'', [''obfs4'', ''obfs3'', ''obfs2'', ''scramblesuit'', ''meek_lite''])]"

definition UNTESTABLE :: "string list" where
  "UNTESTABLE = [''snowflake'', ''meek'', ''meek_lite'', ''conjure'']"

definition TOR_DESIGNATED_PORTS :: "u16 list" where
  "TOR_DESIGNATED_PORTS = [9001, 9030, 9040, 9050, 9051, 9150]"

definition WEB_PORTS :: "u16 list" where
  "WEB_PORTS = [80, 443]"

definition KEEP_PER_TRANSPORT :: nat where
  "KEEP_PER_TRANSPORT = 6"

definition RELAYS_DEFAULT :: nat where
  "RELAYS_DEFAULT = 40"

definition CACHE_MAX_AGE :: nat where
  "CACHE_MAX_AGE = 6 * 60 * 60"

record transport =
  tr_protocols :: "string list"
  tr_path :: string

record bridge_plan =
  bp_lines :: "string list"
  bp_transports :: "transport list"
  bp_missing :: "string list"
  bp_source :: string

record cached =
  ca_fetched :: nat
  ca_country :: string
  ca_lines :: "string list"

subsection \<open>Bridge lines\<close>

definition bridge_words :: "string \<Rightarrow> string list" where
  "bridge_words line =
     (case split_whitespace line of
        [] \<Rightarrow> []
      | first # words \<Rightarrow> if eq_ignore_ascii_case first ''bridge'' then words else first # words)"

definition transport_of :: "string \<Rightarrow> string option" where
  "transport_of line =
     (case bridge_words line of
        [] \<Rightarrow> None
      | first # _ \<Rightarrow>
          (case first of
             [] \<Rightarrow> None
           | head # _ \<Rightarrow>
               if ascii_digit head \<or> head = CHR ''['' \<or> contains first ''='' then None
               else Some (to_lowercase first)))"

definition address_of :: "string \<Rightarrow> socket_addr option" where
  "address_of line =
     (case bridge_words line of
        [] \<Rightarrow> None
      | first # words \<Rightarrow>
          (case transport_of line of
             None \<Rightarrow> parse_socket_addr first
           | Some _ \<Rightarrow> (case words of [] \<Rightarrow> None | written # _ \<Rightarrow> parse_socket_addr written)))"

text \<open>The name under which a line is counted.\<close>

definition kind_of :: "string \<Rightarrow> string" where
  "kind_of line = (case transport_of line of Some p \<Rightarrow> p | None \<Rightarrow> ''vanilla'')"

fun dedup_from :: "string set \<Rightarrow> string list \<Rightarrow> string list" where
  "dedup_from seen [] = []"
| "dedup_from seen (line # lines) =
     (let l = trim line
      in if l = [] \<or> l \<in> seen then dedup_from seen lines else l # dedup_from (insert l seen) lines)"

definition dedup :: "string list \<Rightarrow> string list" where
  "dedup lines = dedup_from {} lines"

subsection \<open>Programs that speak the transports\<close>

definition methods_in :: "string \<Rightarrow> string list" where
  "methods_in output =
     foldl
       (\<lambda>found line.
          case strip_prefix (trim line) ''CMETHOD '' of
            None \<Rightarrow> found
          | Some rest \<Rightarrow>
              (case split_whitespace rest of
                 [] \<Rightarrow> found
               | name # _ \<Rightarrow> if to_lowercase name \<in> set found then found else found @ [to_lowercase name]))
       [] (str_lines output)"

text \<open>
  \<^verbatim>\<open>ask\<close>: the lines that the program has written when it is done or closes its output; None when it could not
  be started or was silent for too long.
\<close>

fun until_done :: "string list \<Rightarrow> string" where
  "until_done [] = []"
| "until_done (line # lines) =
     line @ [CHR 0x0A] @ (if starts_with line ''CMETHODS DONE'' then [] else until_done lines)"

definition ask :: "string list option \<Rightarrow> string list option" where
  "ask said =
     (case said of
        None \<Rightarrow> None
      | Some lines \<Rightarrow> let found = methods_in (until_done lines) in if found = [] then None else Some found)"

text \<open>A name belongs to the first program that claims it.\<close>

fun claim :: "string set \<Rightarrow> string list \<Rightarrow> string list \<times> string set" where
  "claim claimed [] = ([], claimed)"
| "claim claimed (p # ps) =
     (if p \<in> claimed then claim claimed ps
      else (case claim (insert p claimed) ps of (mine, claimed') \<Rightarrow> (p # mine, claimed')))"

fun discover :: "(string \<Rightarrow> string option) \<Rightarrow> (string \<Rightarrow> string list option) \<Rightarrow> string set
    \<Rightarrow> (string \<times> string list) list \<Rightarrow> transport list" where
  "discover locate said claimed [] = []"
| "discover locate said claimed ((binary, assumed) # rest) =
     (case locate binary of
        None \<Rightarrow> discover locate said claimed rest
      | Some path \<Rightarrow>
          (case claim claimed (case ask (said path) of Some found \<Rightarrow> found | None \<Rightarrow> assumed) of
             (mine, claimed') \<Rightarrow>
               if mine = [] then discover locate said claimed' rest
               else \<lparr>tr_protocols = mine, tr_path = path\<rparr> # discover locate said claimed' rest))"

definition discover_transports :: "(string \<Rightarrow> string option) \<Rightarrow> (string \<Rightarrow> string list option) \<Rightarrow> transport list" where
  "discover_transports locate said = discover locate said {} PT_BINARIES"

subsection \<open>Services\<close>

definition ordered :: "(string \<times> string list) list \<Rightarrow> string list" where
  "ordered grouped =
     concat (map (\<lambda>wanted. case map_of grouped wanted of Some found \<Rightarrow> found | None \<Rightarrow> []) PREFERENCE)
     @ concat (map snd (filter (\<lambda>(k, _). k \<notin> set PREFERENCE) grouped))"

definition group_settings :: "(string \<times> string list) list \<Rightarrow> string \<Rightarrow> string list option" where
  "group_settings settings =
     fold (\<lambda>(kind, strings) g. g(kind \<mapsto> (case g kind of Some held \<Rightarrow> held | None \<Rightarrow> []) @ strings)) settings Map.empty"

fun drain_groups :: "(string \<Rightarrow> string list option) \<Rightarrow> string list \<Rightarrow> string list" where
  "drain_groups g [] = []"
| "drain_groups g (kind # order) =
     (case g kind of
        Some found \<Rightarrow> found @ drain_groups (g(kind := None)) order
      | None \<Rightarrow> drain_groups g order)"

definition from_settings :: "(string \<times> string list) list option \<Rightarrow> string list option" where
  "from_settings reply =
     (case reply of
        None \<Rightarrow> None
      | Some settings \<Rightarrow>
          let used = filter (\<lambda>(_, strings). strings \<noteq> []) settings
          in if used = [] then None else Some (drain_groups (group_settings used) (map fst used)))"

definition from_builtin :: "(string \<times> string list) list option \<Rightarrow> string list option" where
  "from_builtin reply =
     (case reply of
        None \<Rightarrow> None
      | Some grouped \<Rightarrow> let lines = ordered grouped in if lines = [] then None else Some lines)"

definition two_letters :: "string \<Rightarrow> string option" where
  "two_letters code = (let c = to_lowercase (trim code) in if length c = 2 then Some c else None)"

definition first_loc :: "string \<Rightarrow> string option" where
  "first_loc body =
     (case List.map_filter (\<lambda>line. strip_prefix line ''loc='') (str_lines body) of
        [] \<Rightarrow> None
      | code # _ \<Rightarrow> Some code)"

definition detect_country :: "env \<Rightarrow> string option \<Rightarrow> string option" where
  "detect_country env trace =
     (case Option.bind (env ''AETHER_TOR_COUNTRY'') two_letters of
        Some told \<Rightarrow> Some told
      | None \<Rightarrow> Option.bind (Option.bind trace first_loc) two_letters)"

subsection \<open>Relays as plain bridges\<close>

datatype relays = RelaysOff | RelaysAlso nat | RelaysOnly nat

definition relay_policy :: "env \<Rightarrow> relays" where
  "relay_policy env =
     (let spec = to_lowercase (trim (case env ''AETHER_TOR_RELAYS'' of Some v \<Rightarrow> v | None \<Rightarrow> []))
      in if spec \<in> {''off'', ''no'', ''0'', ''false'', ''none''} then RelaysOff
         else if spec \<in> {[], ''auto'', ''on'', ''yes'', ''true''} then RelaysAlso RELAYS_DEFAULT
         else if spec \<in> {''only'', ''relays''} then RelaysOnly RELAYS_DEFAULT
         else
           case parse_uint usize_max (case strip_prefix spec ''only:'' of Some n \<Rightarrow> n | None \<Rightarrow> spec) of
             Some wanted \<Rightarrow>
               if 0 < wanted
               then if starts_with spec ''only'' then RelaysOnly (min wanted 400) else RelaysAlso (min wanted 400)
               else RelaysAlso RELAYS_DEFAULT
           | None \<Rightarrow> RelaysAlso RELAYS_DEFAULT)"

definition relay_ports_are_open :: "env \<Rightarrow> bool" where
  "relay_ports_are_open env =
     (case env ''AETHER_TOR_RELAY_PORTS'' of
        Some v \<Rightarrow> to_lowercase (trim v) \<in> {''any'', ''all''}
      | None \<Rightarrow> False)"

definition ascii_hexdigit :: "char \<Rightarrow> bool" where
  "ascii_hexdigit c \<longleftrightarrow> digit_val 16 c \<noteq> None"

definition relay_line :: "string \<Rightarrow> string \<Rightarrow> bool \<Rightarrow> string option" where
  "relay_line fingerprint address web_only =
     (case parse_socket_addr address of
        None \<Rightarrow> None
      | Some parsed \<Rightarrow>
          let port = sa_port parsed; ident = to_ascii_uppercase (trim fingerprint)
          in if port \<in> set TOR_DESIGNATED_PORTS then None
             else if web_only \<and> port \<notin> set WEB_PORTS then None
             else if length ident \<noteq> 40 \<or> \<not> list_all ascii_hexdigit ident then None
             else Some (address @ '' '' @ ident))"

text \<open>The draws of \<^verbatim>\<open>random_range(0..=place)\<close>, one for every place.\<close>

definition swap :: "nat \<Rightarrow> nat \<Rightarrow> 'a list \<Rightarrow> 'a list" where
  "swap i j xs = xs[i := xs ! j, j := xs ! i]"

definition shuffle :: "(nat \<Rightarrow> nat) \<Rightarrow> 'a list \<Rightarrow> 'a list" where
  "shuffle draw xs = fold (\<lambda>place ys. swap place (draw place) ys) (rev [1..<length xs]) xs"

type_synonym relay = "string option \<times> string list option"

definition relay_lines :: "bool \<Rightarrow> relay list \<Rightarrow> string list" where
  "relay_lines web_only relays =
     concat (map (\<lambda>(fingerprint, addresses).
        case (fingerprint, addresses) of
          (Some ident, Some written) \<Rightarrow> List.map_filter (\<lambda>a. relay_line ident a web_only) written
        | _ \<Rightarrow> []) relays)"

definition from_relays :: "env \<Rightarrow> (nat \<Rightarrow> nat) \<Rightarrow> nat \<Rightarrow> relay list option \<Rightarrow> string list option" where
  "from_relays env draw want reply =
     (case reply of
        None \<Rightarrow> None
      | Some relays \<Rightarrow>
          let lines = relay_lines (\<not> relay_ports_are_open env) relays
          in if lines = [] then None else Some (take want (shuffle draw lines)))"

subsection \<open>Fetching\<close>

definition read_cache :: "cached option \<Rightarrow> cached option" where
  "read_cache c = (case c of Some e \<Rightarrow> if ca_lines e = [] then None else Some e | None \<Rightarrow> None)"

definition fallback :: "cached option \<Rightarrow> string list \<times> string" where
  "fallback c = (case c of Some stale \<Rightarrow> (ca_lines stale, ''stale cache'') | None \<Rightarrow> (EMBEDDED, ''built in''))"

text \<open>
  What the world answers: the clock at the start and when the file is written, whether the client could be
  built, the trace page, the answers of the services, and the draws of the shuffle.
\<close>

record fetch_io =
  fi_now :: nat
  fi_later :: nat
  fi_client :: bool
  fi_trace :: "string option"
  fi_settings :: "string option \<Rightarrow> (string \<times> string list) list option"
  fi_builtin :: "(string \<times> string list) list option"
  fi_relays :: "relay list option"
  fi_draw :: "nat \<Rightarrow> nat"

definition or_none :: "string list option \<Rightarrow> string list" where
  "or_none found = (case found of Some l \<Rightarrow> l | None \<Rightarrow> [])"

definition ask_bridgedb :: "env \<Rightarrow> fetch_io \<Rightarrow> string option \<times> string list" where
  "ask_bridgedb env io =
     (let country = detect_country env (fi_trace io)
      in (country, or_none (from_settings (fi_settings io country)) @ or_none (from_builtin (fi_builtin io))))"

definition add_relays :: "env \<Rightarrow> fetch_io \<Rightarrow> nat \<Rightarrow> string list \<Rightarrow> string \<Rightarrow> string list \<times> string" where
  "add_relays env io want lines source =
     (case from_relays env (fi_draw io) want (fi_relays io) of
        Some found \<Rightarrow>
          (lines @ found, if lines \<noteq> [] then ''bridgedb and onionoo relays'' else ''onionoo relays'')
      | None \<Rightarrow> (lines, source))"

text \<open>The result of \<^verbatim>\<open>fetch\<close>: the lines, where they are from, and the file that is written.\<close>

definition fetch :: "env \<Rightarrow> cached option \<Rightarrow> fetch_io \<Rightarrow> (string list \<times> string) \<times> cached option" where
  "fetch env saved io =
     (let c = read_cache saved
      in case (case c of Some e \<Rightarrow> if fi_now io - ca_fetched e < CACHE_MAX_AGE then Some e else None | None \<Rightarrow> None) of
           Some fresh \<Rightarrow> ((ca_lines fresh, ''cache''), None)
         | None \<Rightarrow>
             if \<not> fi_client io then (fallback c, None)
             else
               let policy = relay_policy env;
                   (country, asked) = (case policy of RelaysOnly _ \<Rightarrow> (None, []) | _ \<Rightarrow> ask_bridgedb env io);
                   source = (case policy of RelaysOnly _ \<Rightarrow> ''onionoo relays'' | _ \<Rightarrow> ''bridgedb'');
                   (gathered, source') =
                     (case policy of
                        RelaysOff \<Rightarrow> (asked, source)
                      | RelaysAlso want \<Rightarrow> add_relays env io want asked source
                      | RelaysOnly want \<Rightarrow> add_relays env io want asked source);
                   lines = dedup gathered
               in if lines = [] then (fallback c, None)
                  else ((lines, source'),
                        Some \<lparr>ca_fetched = fi_later io,
                              ca_country = (case country of Some x \<Rightarrow> x | None \<Rightarrow> []),
                              ca_lines = lines\<rparr>))"

subsection \<open>Probes\<close>

text \<open>The verdict on a line: a line that cannot be tested or has no address counts as alive.\<close>

definition verdict :: "(socket_addr \<Rightarrow> bool) \<Rightarrow> string \<Rightarrow> bool" where
  "verdict answers line =
     (let skip = (case transport_of line of Some p \<Rightarrow> p \<in> set UNTESTABLE | None \<Rightarrow> False)
      in case address_of line of
           Some address \<Rightarrow> if skip then True else answers address
         | None \<Rightarrow> True)"

definition count_kind :: "string \<Rightarrow> (string \<Rightarrow> nat) \<Rightarrow> string \<Rightarrow> nat" where
  "count_kind kind n = n(kind := Suc (n kind))"

definition answered_kinds :: "(string \<times> bool) list \<Rightarrow> string \<Rightarrow> nat" where
  "answered_kinds checked =
     fold (\<lambda>(line, alive) n. if alive then count_kind (kind_of line) n else n) checked (\<lambda>_. 0)"

fun keep_lines :: "(string \<Rightarrow> nat) \<Rightarrow> (string \<Rightarrow> nat) \<Rightarrow> (string \<times> bool) list \<Rightarrow> string list" where
  "keep_lines answered held [] = []"
| "keep_lines answered held ((line, alive) # rest) =
     (let kind = kind_of line
      in if \<not> alive \<and> answered kind \<noteq> 0 then keep_lines answered held rest
         else if KEEP_PER_TRANSPORT \<le> held kind then keep_lines answered held rest
         else line # keep_lines answered (count_kind kind held) rest)"

definition keep_reachable :: "(socket_addr \<Rightarrow> bool) \<Rightarrow> string list \<Rightarrow> socket_addr option \<Rightarrow> string list" where
  "keep_reachable answers lines through =
     (if through \<noteq> None then lines
      else
        let checked = map (\<lambda>line. (line, verdict answers line)) lines
        in keep_lines (answered_kinds checked) (\<lambda>_. 0) checked)"

subsection \<open>Plans\<close>

fun claim_found :: "string set \<Rightarrow> transport list \<Rightarrow> transport list \<times> string set" where
  "claim_found claimed [] = ([], claimed)"
| "claim_found claimed (one # rest) =
     (case claim claimed (tr_protocols one) of
        (mine, claimed') \<Rightarrow>
          (case claim_found claimed' rest of
             (ts, c) \<Rightarrow> ((if mine = [] then [] else [\<lparr>tr_protocols = mine, tr_path = tr_path one\<rparr>]) @ ts, c)))"

definition kept_lines :: "string set \<Rightarrow> string list \<Rightarrow> string list" where
  "kept_lines claimed lines =
     filter (\<lambda>line. case transport_of line of None \<Rightarrow> True | Some p \<Rightarrow> p \<in> claimed) lines"

definition missing_kinds :: "string set \<Rightarrow> string list \<Rightarrow> string list" where
  "missing_kinds claimed lines =
     sort (remdups (filter (\<lambda>p. p \<notin> claimed) (List.map_filter transport_of lines)))"

text \<open>Transports reduced to the names in a set; those without any go.\<close>

definition narrow :: "string set \<Rightarrow> transport list \<Rightarrow> transport list" where
  "narrow used ts =
     map (\<lambda>t. t\<lparr>tr_protocols := filter (\<lambda>p. p \<in> used) (tr_protocols t)\<rparr>)
       (filter (\<lambda>t. list_ex (\<lambda>p. p \<in> used) (tr_protocols t)) ts)"

definition plan_with :: "string list \<Rightarrow> string \<Rightarrow> transport list \<Rightarrow> transport list \<Rightarrow> bridge_plan" where
  "plan_with lines source extra found =
     (let own = set (concat (map tr_protocols extra));
          (more_ts, claimed) = claim_found own found;
          kept = kept_lines claimed lines;
          used = set (List.map_filter transport_of kept)
      in \<lparr>bp_lines = kept, bp_transports = narrow used (extra @ more_ts),
          bp_missing = missing_kinds claimed lines, bp_source = source\<rparr>)"

subsection \<open>Waves\<close>

definition recall :: "string option \<Rightarrow> string option" where
  "recall saved =
     (case saved of
        None \<Rightarrow> None
      | Some text \<Rightarrow> let name = to_lowercase (trim text) in if name = [] then None else Some name)"

fun position_in :: "string \<Rightarrow> string list \<Rightarrow> nat" where
  "position_in x [] = 0"
| "position_in x (y # ys) = (if x = y then 0 else Suc (position_in x ys))"

text \<open>
  The key of the sort, the pair of \<^verbatim>\<open>tried\<close> and \<^verbatim>\<open>known\<close> as one number: \<^verbatim>\<open>known\<close> is at most the number of
  preferences.
\<close>

definition wave_rank :: "string option \<Rightarrow> string \<Rightarrow> nat" where
  "wave_rank worked name =
     (if worked = Some name then 0 else Suc (length PREFERENCE)) + position_in name PREFERENCE"

definition wave_of :: "bridge_plan \<Rightarrow> string \<Rightarrow> string \<times> bridge_plan" where
  "wave_of plan name =
     (name, \<lparr>bp_lines = filter (\<lambda>line. kind_of line = name) (bp_lines plan),
             bp_transports = narrow {name} (bp_transports plan), bp_missing = [], bp_source = bp_source plan\<rparr>)"

definition waves :: "bridge_plan \<Rightarrow> string option \<Rightarrow> (string \<times> bridge_plan) list" where
  "waves plan worked =
     (let names = sort (remdups (map kind_of (bp_lines plan)))
      in if length names < 2 then []
         else map (wave_of plan) (sort_key (wave_rank worked) names))"

end
