(* ===== verification/Tor.thy ===== *)
theory Tor
  imports Bridges Entry
begin

text \<open>
  \<^verbatim>\<open>tor.rs\<close>: the settings of the Tor client, the bridges it may use, the stages in which it is brought up,
  and the watch over one start. The Tor client itself is a library: what a start gives is an argument.
\<close>

subsection \<open>Settings\<close>

datatype tor_mode = TorOff | TorChain | TorReverse | TorOnly

definition tor_mode_of :: "env \<Rightarrow> tor_mode" where
  "tor_mode_of env =
     (case env ''AETHER_TOR'' of
        None \<Rightarrow> TorOff
      | Some v \<Rightarrow>
          let raw = to_lowercase (trim v)
          in if raw \<in> {[], ''0'', ''off'', ''false'', ''no''} then TorOff
             else if raw \<in> {''reverse'', ''rev'', ''warp-over-tor''} then TorReverse
             else if raw \<in> {''only'', ''alone'', ''tor-only'', ''direct''} then TorOnly
             else TorChain)"

definition tor_mode_label :: "tor_mode \<Rightarrow> string" where
  "tor_mode_label m =
     (case m of
        TorOff \<Rightarrow> ''off''
      | TorChain \<Rightarrow> ''tor through the tunnel''
      | TorReverse \<Rightarrow> ''the tunnel through tor''
      | TorOnly \<Rightarrow> ''tor alone'')"

definition tor_listen_address :: "env \<Rightarrow> socket_addr" where
  "tor_listen_address env =
     (case Option.bind (env ''AETHER_TOR_BIND'') (\<lambda>v. parse_socket_addr (trim v)) of
        Some a \<Rightarrow> a
      | None \<Rightarrow> \<lparr>sa_ip = V4 (v4_new 127 0 0 1), sa_port = 1820\<rparr>)"

definition tor_http_listen_address :: "env \<Rightarrow> socket_addr option" where
  "tor_http_listen_address env =
     (case env ''AETHER_TOR_HTTP'' of
        None \<Rightarrow> None
      | Some v \<Rightarrow> let t = trim v in if t = [] \<or> t = ''off'' then None else parse_socket_addr t)"

text \<open>\<^verbatim>\<open>Path::file_stem\<close>: the name up to its last dot, unless the only dot is the first character.\<close>

definition file_stem :: "string \<Rightarrow> string option" where
  "file_stem p =
     (case file_name p of
        None \<Rightarrow> None
      | Some n \<Rightarrow>
          (case rsplit_once (CHR ''.'') n of
             Some (a, _) \<Rightarrow> if a = [] then Some n else Some a
           | None \<Rightarrow> Some n))"

definition tor_state_dir :: "env \<Rightarrow> string \<Rightarrow> string" where
  "tor_state_dir env base_config =
     (let given = trim (case env ''AETHER_TOR_DIR'' of Some d \<Rightarrow> d | None \<Rightarrow> []);
          stem = (case file_stem base_config of Some s \<Rightarrow> s | None \<Rightarrow> ''aether'')
      in if given \<noteq> [] then given else push_path (before_last base_config) (stem @ ''-tor''))"

text \<open>Durations in seconds.\<close>

definition tor_secs :: "env \<Rightarrow> string \<Rightarrow> nat \<Rightarrow> nat" where
  "tor_secs env key dflt =
     (case Option.bind (env key) (\<lambda>v. parse_uint (2 ^ 64 - 1) (trim v)) of Some n \<Rightarrow> n | None \<Rightarrow> dflt)"

definition direct_probe :: "env \<Rightarrow> nat" where
  "direct_probe env = tor_secs env ''AETHER_TOR_DIRECT_SECS'' 75"

definition bridge_probe :: "env \<Rightarrow> nat" where
  "bridge_probe env = tor_secs env ''AETHER_TOR_BRIDGE_SECS'' 360"

definition stall_limit :: "env \<Rightarrow> nat" where
  "stall_limit env = tor_secs env ''AETHER_TOR_STALL_SECS'' 75"

definition proof_target :: "env \<Rightarrow> string \<times> nat" where
  "proof_target env =
     (let raw = trim (case env ''AETHER_TOR_CHECK'' of Some v \<Rightarrow> v | None \<Rightarrow> [])
      in if raw = [] then (''check.torproject.org'', 443)
         else
           case rsplit_once (CHR '':'') raw of
             Some (host, port) \<Rightarrow> (host, case parse_uint 65535 port of Some n \<Rightarrow> n | None \<Rightarrow> 443)
           | None \<Rightarrow> (raw, 443))"

subsection \<open>Bridges\<close>

datatype bridge_policy = BridgesDisabled | BridgesManual "string list" | BridgesAuto bool

definition read_bridge_line :: "string \<Rightarrow> string" where
  "read_bridge_line line =
     trim (case strip_prefix line ''Bridge '' of
             Some r \<Rightarrow> r
           | None \<Rightarrow> (case strip_prefix line ''bridge '' of Some r \<Rightarrow> r | None \<Rightarrow> line))"

definition read_bridge_lines :: "string \<Rightarrow> string list" where
  "read_bridge_lines text =
     filter (\<lambda>l. l \<noteq> [])
       (map read_bridge_line (filter (\<lambda>l. l \<noteq> [] \<and> \<not> starts_with l ''#'') (map trim (str_lines text))))"

definition bridges_from_file :: "env \<Rightarrow> (string \<Rightarrow> string option) \<Rightarrow> string list" where
  "bridges_from_file env read =
     (case env ''AETHER_TOR_BRIDGE_FILE'' of
        Some v \<Rightarrow>
          if trim v \<noteq> [] then (case read (trim v) of Some text \<Rightarrow> read_bridge_lines text | None \<Rightarrow> []) else []
      | None \<Rightarrow> [])"

definition off_words :: "string list" where
  "off_words = [''off'', ''no'', ''0'', ''false'', ''none'']"

definition auto_words :: "string list" where
  "auto_words = [''auto'', ''on'', ''1'', ''yes'', ''true'', ''force'']"

definition replace_char :: "char \<Rightarrow> char \<Rightarrow> string \<Rightarrow> string" where
  "replace_char a b s = map (\<lambda>c. if c = a then b else c) s"

definition bridge_entries :: "string \<Rightarrow> string list" where
  "bridge_entries s =
     filter (\<lambda>l. l \<noteq> []) (map trim (split_chars (\<lambda>c. c = CHR 0x0A \<or> c = CHR '';'') s))"

definition bridges :: "env \<Rightarrow> (string \<Rightarrow> string option) \<Rightarrow> bridge_policy" where
  "bridges env read =
     (let from_file = bridges_from_file env read;
          trimmed = trim (case env ''AETHER_TOR_BRIDGES'' of Some v \<Rightarrow> v | None \<Rightarrow> []);
          word = to_lowercase trimmed
      in if from_file \<noteq> []
         then BridgesManual
                (if word = [] \<or> word \<in> set off_words \<or> word \<in> set auto_words then from_file
                 else from_file @ read_bridge_lines (replace_char (CHR '';'') (CHR 0x0A) trimmed))
         else if word = [] then BridgesAuto False
         else if word \<in> set off_words then BridgesDisabled
         else if word \<in> set auto_words then BridgesAuto True
         else
           let lines = bridge_entries trimmed
           in if lines = [] then BridgesAuto False else BridgesManual lines)"

definition transport_entry :: "string \<Rightarrow> (string \<times> string) option" where
  "transport_entry entry =
     (let e = trim entry
      in if e = [] then None
         else case split_once (CHR ''='') e of
                Some (protocol, path) \<Rightarrow> Some (trim protocol, trim path)
              | None \<Rightarrow> Some (''obfs4'', e))"

definition transports :: "env \<Rightarrow> (string \<times> string) list" where
  "transports env =
     List.map_filter transport_entry
       (split_chars (\<lambda>c. c = CHR 0x0A \<or> c = CHR '';'') (case env ''AETHER_TOR_PT'' of Some v \<Rightarrow> v | None \<Rightarrow> []))"

fun add_manual :: "transport list \<Rightarrow> string \<Rightarrow> string \<Rightarrow> transport list" where
  "add_manual [] protocol path = [\<lparr>tr_protocols = [protocol], tr_path = path\<rparr>]"
| "add_manual (held # ts) protocol path =
     (if tr_path held = path
      then (if protocol \<in> set (tr_protocols held) then held
            else held\<lparr>tr_protocols := tr_protocols held @ [protocol]\<rparr>) # ts
      else held # add_manual ts protocol path)"

definition manual_transports :: "env \<Rightarrow> transport list" where
  "manual_transports env = foldl (\<lambda>grouped (protocol, path). add_manual grouped protocol path) [] (transports env)"

subsection \<open>One start\<close>

text \<open>
  What \<^verbatim>\<open>boot\<close> sees while it waits: the start is over, or a look at the clock with the seconds since the
  start and the second of the last headway. Without a limit only the end counts.
\<close>

datatype boot_event = BootOver "string option" | BootLook nat nat

fun boot_wait :: "nat option \<Rightarrow> boot_event list \<Rightarrow> (aether_error + unit) option" where
  "boot_wait stall [] = None"
| "boot_wait stall (BootOver None # _) = Some (Inr ())"
| "boot_wait stall (BootOver (Some e) # _) = Some (Inl (Other e))"
| "boot_wait stall (BootLook elapsed seen # es) =
     (case stall of
        None \<Rightarrow> boot_wait stall es
      | Some limit \<Rightarrow>
          if limit \<le> elapsed - seen then Some (Inl (Other (''no headway for '' @ nat_dec (elapsed - seen) @ ''s'')))
          else boot_wait stall es)"

datatype proof_result = ProofOpen | ProofError string | ProofSilent

definition prove :: "env \<Rightarrow> proof_result \<Rightarrow> aether_error + unit" where
  "prove env r =
     (let (host, port) = proof_target env; target = host @ '':'' @ nat_dec port
      in case r of
           ProofOpen \<Rightarrow> Inr ()
         | ProofError e \<Rightarrow> Inl (Other (''tor came up but could not reach '' @ target @ '': '' @ e))
         | ProofSilent \<Rightarrow> Inl (Other (''tor came up but '' @ target @ '' stayed silent for 45s'')))"

text \<open>The result of a start, and whether the client was put to sleep when it was given up.\<close>

definition boot :: "env \<Rightarrow> nat option \<Rightarrow> (string + 'c) \<Rightarrow> boot_event list \<Rightarrow> proof_result
    \<Rightarrow> ((aether_error + 'c) \<times> bool) option" where
  "boot env stall created events shown =
     (case created of
        Inl e \<Rightarrow> Some (Inl (Other (''tor client: '' @ e)), False)
      | Inr client \<Rightarrow>
          (case boot_wait stall events of
             None \<Rightarrow> None
           | Some (Inl e) \<Rightarrow> Some (Inl e, True)
           | Some (Inr _) \<Rightarrow>
               (case prove env shown of
                  Inl e \<Rightarrow> Some (Inl e, True)
                | Inr _ \<Rightarrow> Some (Inr client, False))))"

subsection \<open>Stages\<close>

text \<open>The arguments of \<^verbatim>\<open>stage\<close>: the plan, the tries, the time limits and the directory of the attempt.\<close>

record tor_stage =
  ts_plan :: "bridge_plan option"
  ts_attempts :: nat
  ts_deadline :: "nat option"
  ts_stall :: "nat option"
  ts_slot :: "string option"

definition no_answer :: "nat \<Rightarrow> aether_error" where
  "no_answer limit = Other (''no answer in '' @ nat_dec limit @ ''s'')"

text \<open>
  One try: the configuration may be refused, which ends the stage; the start ends, or the deadline passes
  first, which happens only when there is one.
\<close>

datatype 'c try_result = Refused aether_error | Ended "aether_error + 'c" | TimedOut

definition timed_out :: "nat option \<Rightarrow> aether_error" where
  "timed_out deadline = no_answer (case deadline of Some limit \<Rightarrow> limit | None \<Rightarrow> 0)"

fun stage_loop :: "nat option \<Rightarrow> (nat \<Rightarrow> 'c try_result) \<Rightarrow> nat \<Rightarrow> nat \<Rightarrow> aether_error + 'c" where
  "stage_loop deadline run tries left =
     (case run tries of
        Refused e \<Rightarrow> Inl e
      | Ended (Inr c) \<Rightarrow> Inr c
      | Ended (Inl e) \<Rightarrow> (case left of 0 \<Rightarrow> Inl e | Suc n \<Rightarrow> stage_loop deadline run (Suc tries) n)
      | TimedOut \<Rightarrow>
          (case left of
             0 \<Rightarrow> Inl (timed_out deadline)
           | Suc n \<Rightarrow> stage_loop deadline run (Suc tries) n))"

declare stage_loop.simps [simp del]

text \<open>The first try is number 1; the last one is the number of attempts.\<close>

definition stage :: "(nat \<Rightarrow> 'c try_result) \<Rightarrow> tor_stage \<Rightarrow> aether_error + 'c" where
  "stage run s = stage_loop (ts_deadline s) run 1 (ts_attempts s - 1)"

subsection \<open>Bringing Tor up\<close>

text \<open>
  What the world answers: the bridge file, the saved bridges, the services, the probes, the programs that were
  found, the kind that worked the last time, the draws of the shuffles, and the tries of the stage with a
  given number.
\<close>

record 'c tor_io =
  to_read :: "string \<Rightarrow> string option"
  to_saved :: "cached option"
  to_fetch :: fetch_io
  to_answers :: "socket_addr \<Rightarrow> bool"
  to_found :: "transport list"
  to_worked :: "string option"
  to_draw :: "nat \<Rightarrow> nat \<Rightarrow> nat"
  to_try :: "nat \<Rightarrow> nat \<Rightarrow> 'c try_result"

text \<open>The result, the stages in their order, and the kind that is remembered.\<close>

type_synonym 'c brought = "(aether_error + 'c) \<times> tor_stage list \<times> string option"

definition auto_plan :: "env \<Rightarrow> 'c tor_io \<Rightarrow> socket_addr option \<Rightarrow> bridge_plan" where
  "auto_plan env io through =
     (case fst (fetch env (to_saved io) (to_fetch io)) of
        (lines, source) \<Rightarrow>
          plan_with (keep_reachable (to_answers io) lines through) source (manual_transports env) (to_found io))"

definition WAVE_TRIES :: nat where
  "WAVE_TRIES = 2"

definition wave_stage :: "env \<Rightarrow> 'c tor_io \<Rightarrow> nat \<Rightarrow> string \<Rightarrow> bridge_plan \<Rightarrow> tor_stage" where
  "wave_stage env io n name wave =
     \<lparr>ts_plan = Some (wave\<lparr>bp_lines := shuffle (to_draw io n) (bp_lines wave)\<rparr>), ts_attempts = 1,
      ts_deadline = Some (bridge_probe env), ts_stall = Some (stall_limit env), ts_slot = Some name\<rparr>"

text \<open>The rounds of all waves: the tries that are left, the number of the next stage.\<close>

fun try_waves :: "env \<Rightarrow> 'c tor_io \<Rightarrow> nat \<Rightarrow> (string \<times> bridge_plan) list
    \<Rightarrow> ('c \<times> string) option \<times> tor_stage list" where
  "try_waves env io n [] = (None, [])"
| "try_waves env io n ((name, wave) # rest) =
     (let s = wave_stage env io n name wave
      in case stage (to_try io n) s of
           Inr c \<Rightarrow> (Some (c, name), [s])
         | Inl _ \<Rightarrow> (case try_waves env io (Suc n) rest of (r, ss) \<Rightarrow> (r, s # ss)))"

definition try_each_transport :: "env \<Rightarrow> 'c tor_io \<Rightarrow> nat \<Rightarrow> bridge_plan \<Rightarrow> ('c \<times> string) option \<times> tor_stage list" where
  "try_each_transport env io n plan =
     try_waves env io n (concat (map (replicate WAVE_TRIES) (waves plan (recall (to_worked io)))))"

definition needs_transport :: "string \<Rightarrow> aether_error" where
  "needs_transport hint = Other (''the bridges you gave need a pluggable transport that is not installed; '' @ hint)"

definition tor_blocked :: "string \<Rightarrow> aether_error" where
  "tor_blocked hint =
     Other (''tor is blocked on this network and no pluggable transport is installed, so no bridge can be used; '' @ hint)"

definition over_bridges :: "env \<Rightarrow> string \<Rightarrow> 'c tor_io \<Rightarrow> socket_addr option \<Rightarrow> nat \<Rightarrow> nat \<Rightarrow> 'c brought" where
  "over_bridges env hint io through rounds n =
     (let plan = auto_plan env io through
      in if bp_lines plan = [] then (Inl (tor_blocked hint), [], None)
         else
           case try_each_transport env io n plan of
             (Some (c, name), ss) \<Rightarrow> (Inr c, ss, Some name)
           | (None, ss) \<Rightarrow>
               let s = \<lparr>ts_plan = Some plan, ts_attempts = rounds, ts_deadline = None, ts_stall = None, ts_slot = Some ''all''\<rparr>
               in (stage (to_try io (n + length ss)) s, ss @ [s], None))"

definition tor_establish :: "env \<Rightarrow> string \<Rightarrow> 'c tor_io \<Rightarrow> socket_addr option \<Rightarrow> nat \<Rightarrow> 'c brought" where
  "tor_establish env hint io through rounds =
     (case bridges env (to_read io) of
        BridgesManual lines \<Rightarrow>
          let plan = plan_with lines ''given by hand'' (manual_transports env) (to_found io);
              s = \<lparr>ts_plan = Some plan, ts_attempts = rounds, ts_deadline = None, ts_stall = None, ts_slot = None\<rparr>
          in if bp_lines plan = [] then (Inl (needs_transport hint), [], None)
             else (stage (to_try io 0) s, [s], None)
      | policy \<Rightarrow>
          let forced = (policy = BridgesAuto True);
              may_fall_back =
                (if policy = BridgesDisabled then False else if through \<noteq> None then forced else True)
          in if forced then over_bridges env hint io through rounds 0
             else
               let s = \<lparr>ts_plan = None, ts_attempts = (if may_fall_back then 1 else rounds),
                        ts_deadline = (if may_fall_back then Some (direct_probe env) else None),
                        ts_stall = None, ts_slot = Some ''direct''\<rparr>
               in case stage (to_try io 0) s of
                    Inr c \<Rightarrow> (Inr c, [s], None)
                  | Inl e \<Rightarrow>
                      if \<not> may_fall_back then (Inl e, [s], None)
                      else case over_bridges env hint io through rounds 1 of (r, ss, kept) \<Rightarrow> (r, s # ss, kept))"

text \<open>\<^verbatim>\<open>run_chain\<close>, \<^verbatim>\<open>run_only\<close> and \<^verbatim>\<open>start_reverse\<close>: what Tor is dialled through and how often it is tried.\<close>

definition FOREVER :: nat where
  "FOREVER = usize_max"

definition REVERSE_ATTEMPTS :: nat where
  "REVERSE_ATTEMPTS = 3"

definition tor_rounds :: "tor_mode \<Rightarrow> socket_addr \<Rightarrow> (socket_addr option \<times> nat) option" where
  "tor_rounds m proxy =
     (case m of
        TorOff \<Rightarrow> None
      | TorChain \<Rightarrow> Some (Some proxy, FOREVER)
      | TorOnly \<Rightarrow> Some (None, FOREVER)
      | TorReverse \<Rightarrow> Some (None, REVERSE_ATTEMPTS))"

end
