(* ===== verification/Bridges_Props.thy ===== *)
theory Bridges_Props
  imports Bridges "HOL-Library.Multiset" "HOL-Library.Sublist"
begin

text \<open>
  Properties of \<^verbatim>\<open>Bridges\<close>: what gathering, probing and planning keep of the bridge lines, and in which
  order they are tried.
\<close>

subsection \<open>Gathering\<close>

lemma dedup_from_props:
  "distinct (dedup_from seen lines) \<and> set (dedup_from seen lines) = trim ` set lines - {[]} - seen"
  by (induction seen lines rule: dedup_from.induct) (auto simp: Let_def)

lemma dedup_distinct: "distinct (dedup lines)"
  and dedup_set: "set (dedup lines) = trim ` set lines - {[]}"
  using dedup_from_props [of "{}" lines] by (simp_all add: dedup_def)

lemma length_swap [simp]: "length (swap i j xs) = length xs"
  by (simp add: swap_def)

lemma mset_swap_places: "i < length xs \<Longrightarrow> j < length xs \<Longrightarrow> mset (swap i j xs) = mset xs"
  using mset_swap [of j xs i] by (simp add: swap_def)

lemma shuffle_permutes:
  assumes "\<And>place. draw place \<le> place"
  shows "mset (shuffle draw xs) = mset xs"
proof -
  have "length (fold (\<lambda>place ys. swap place (draw place) ys) places xs) = length xs
      \<and> mset (fold (\<lambda>place ys. swap place (draw place) ys) places xs) = mset xs"
    if "\<forall>p \<in> set places. p < length xs" for places
    using that
  proof (induction places rule: rev_induct)
    case (snoc p places)
    have "draw p < length xs" using snoc.prems assms [of p] by auto
    then show ?case using snoc by (simp add: mset_swap_places)
  qed simp
  from this [of "rev [1..<length xs]"] show ?thesis by (simp add: shuffle_def)
qed

lemma drain_groups_mset:
  assumes "finite (dom g)" and "dom g \<subseteq> set order"
  shows "mset (drain_groups g order) = (\<Sum>k \<in> dom g. mset (the (g k)))"
  using assms
proof (induction order arbitrary: g)
  case (Cons kind order)
  show ?case
  proof (cases "g kind")
    case None
    then have "dom g \<subseteq> set order" using Cons.prems(2) by auto
    then show ?thesis using None Cons.IH Cons.prems(1) by simp
  next
    case (Some found)
    then have kd: "kind \<in> dom g" by blast
    have dom: "dom (g(kind := None)) = dom g - {kind}" by auto
    have "mset (drain_groups (g(kind := None)) order) = (\<Sum>k \<in> dom g - {kind}. mset (the ((g(kind := None)) k)))"
    proof (rule Cons.IH [of "g(kind := None)", unfolded dom])
      show "dom g - {kind} \<subseteq> set order" using Cons.prems(2) unfolding subset_iff by simp blast
    qed (simp add: Cons.prems(1))
    also have "\<dots> = (\<Sum>k \<in> dom g - {kind}. mset (the (g k)))" by (rule sum.cong) auto
    finally have "mset (drain_groups (g(kind := None)) order) = (\<Sum>k \<in> dom g - {kind}. mset (the (g k)))" .
    then show ?thesis using Some kd Cons.prems(1) by (simp add: sum.remove)
  qed
qed simp

lemma group_settings_snoc:
  "group_settings (settings @ [(kind, strings)]) =
     (group_settings settings)(kind \<mapsto> (case group_settings settings kind of Some held \<Rightarrow> held | None \<Rightarrow> []) @ strings)"
  by (simp add: group_settings_def)

lemma group_settings_dom: "dom (group_settings settings) = fst ` set settings"
proof (induction settings rule: rev_induct)
  case (snoc x settings)
  then show ?case by (cases x) (simp only: group_settings_snoc dom_fun_upd, simp)
qed (simp add: group_settings_def)

lemma group_settings_mset:
  "(\<Sum>k \<in> dom (group_settings settings). mset (the (group_settings settings k))) = mset (concat (map snd settings))"
proof (induction settings rule: rev_induct)
  case (snoc x settings)
  obtain kind strings where x: "x = (kind, strings)" by (cases x)
  let ?g = "group_settings settings"
  have fin: "finite (dom ?g)" by (simp add: group_settings_dom)
  let ?h = "?g(kind \<mapsto> (case ?g kind of Some held \<Rightarrow> held | None \<Rightarrow> []) @ strings)"
  have rest: "(\<Sum>k \<in> dom ?g - {kind}. mset (the (?h k))) = (\<Sum>k \<in> dom ?g - {kind}. mset (the (?g k)))"
    by (rule sum.cong) auto
  have dom: "dom ?h = insert kind (dom ?g - {kind})" by auto
  have "(\<Sum>k \<in> dom ?h. mset (the (?h k))) = mset (the (?h kind)) + (\<Sum>k \<in> dom ?g - {kind}. mset (the (?g k)))"
    unfolding dom using fin rest by (subst sum.insert) auto
  also have "\<dots> = (\<Sum>k \<in> dom ?g. mset (the (?g k))) + mset strings"
  proof (cases "kind \<in> dom ?g")
    case True
    then show ?thesis using fin by (subst (2) sum.remove [of _ kind]) auto
  next
    case False
    then have "?g kind = None" "dom ?g - {kind} = dom ?g" by auto
    then show ?thesis by simp
  qed
  also have "\<dots> = mset (concat (map snd (settings @ [x])))" unfolding snoc.IH x by simp
  finally show ?case unfolding x group_settings_snoc .
qed (simp add: group_settings_def)

text \<open>No bridge of an answer is lost by the grouping.\<close>

lemma from_settings_complete:
  assumes "from_settings (Some settings) = Some lines"
  shows "mset lines = mset (concat (map snd settings))"
proof -
  define used where "used = filter (\<lambda>(_, strings). strings \<noteq> []) settings"
  have "lines = drain_groups (group_settings used) (map fst used)"
    using assms by (auto simp: from_settings_def used_def Let_def split: if_splits)
  then have "mset lines = mset (concat (map snd used))"
    using drain_groups_mset [of "group_settings used" "map fst used"] group_settings_mset [of used]
    by (simp add: group_settings_dom)
  moreover have "concat (map snd used) = concat (map snd settings)"
    unfolding used_def by (induction settings) auto
  ultimately show ?thesis by simp
qed

lemma fetch_not_empty: "fst (fst (fetch env saved io)) \<noteq> []"
proof -
  have "EMBEDDED \<noteq> []" by (simp add: EMBEDDED_def)
  then have fb: "fst (fallback (read_cache saved)) \<noteq> []"
    by (auto simp: fallback_def read_cache_def split: option.splits)
  show ?thesis
    by (auto simp: fetch_def Let_def fb read_cache_def split: option.splits prod.splits if_splits) (use fb in \<open>simp_all add: read_cache_def\<close>)
qed

subsection \<open>Probing\<close>

lemma answered_kinds_pos:
  "answered_kinds checked k \<noteq> 0 \<longleftrightarrow> (\<exists>(line, alive) \<in> set checked. alive \<and> kind_of line = k)"
proof (induction checked rule: rev_induct)
  case (snoc x checked)
  then show ?case by (cases x) (auto simp: answered_kinds_def count_kind_def)
qed (simp add: answered_kinds_def)

text \<open>A line that may be kept: it is alive, or none of its kind is.\<close>

definition may_keep :: "(string \<Rightarrow> nat) \<Rightarrow> string \<times> bool \<Rightarrow> bool" where
  "may_keep answered x \<longleftrightarrow> snd x \<or> answered (kind_of (fst x)) = 0"

lemma keep_lines_kind:
  "filter (\<lambda>l. kind_of l = k) (keep_lines answered held checked) =
     take (KEEP_PER_TRANSPORT - held k) (filter (\<lambda>l. kind_of l = k) (map fst (filter (may_keep answered) checked)))"
proof (induction answered held checked rule: keep_lines.induct)
  case (2 answered held line alive rest)
  show ?case
  proof (cases "may_keep answered (line, alive)")
    case False
    then show ?thesis using 2(1) by (simp add: may_keep_def)
  next
    case True
    then have kept: "\<not> (\<not> alive \<and> answered (kind_of line) \<noteq> 0)" by (auto simp: may_keep_def)
    show ?thesis
    proof (cases "KEEP_PER_TRANSPORT \<le> held (kind_of line)")
      case full: True
      then show ?thesis using kept True 2(2) by (cases "kind_of line = k") auto
    next
      case False
      then have "KEEP_PER_TRANSPORT - held (kind_of line) = Suc (KEEP_PER_TRANSPORT - Suc (held (kind_of line)))"
        by simp
      moreover have "keep_lines answered held ((line, alive) # rest) =
          line # keep_lines answered (count_kind (kind_of line) held) rest"
        using False kept by (auto simp: Let_def)
      moreover have "count_kind (kind_of line) held k = (if k = kind_of line then Suc (held k) else held k)"
        by (simp add: count_kind_def)
      moreover note 2(3) [OF refl kept False]
      ultimately show ?thesis using True by (cases "kind_of line = k") simp_all
    qed
  qed
qed simp

lemma keep_lines_subseq: "subseq (keep_lines answered held checked) (map fst checked)"
  by (induction answered held checked rule: keep_lines.induct) (auto simp: Let_def)

text \<open>
  C31. Probing bridges keeps their order and loses no kind. Of every kind the first six lines stay of those that
  answered, where a line that cannot be probed counts as answering; when none of a kind answered the first six
  of all its lines stay. Bridges that are dialled through the tunnel are not probed.
\<close>

theorem probing_keeps_every_kind:
  "subseq (keep_reachable answers lines None) lines
   \<and> filter (\<lambda>l. kind_of l = k) (keep_reachable answers lines None) =
       take 6 (filter (\<lambda>l. kind_of l = k
                 \<and> (verdict answers l \<or> \<not> list_ex (\<lambda>l'. kind_of l' = k \<and> verdict answers l') lines)) lines)
   \<and> set (map kind_of (keep_reachable answers lines None)) = set (map kind_of lines)
   \<and> keep_reachable answers lines (Some proxy) = lines"
proof -
  define checked where "checked = map (\<lambda>l. (l, verdict answers l)) lines"
  define kept where "kept = keep_reachable answers lines None"
  have kept: "kept = keep_lines (answered_kinds checked) (\<lambda>_. 0) checked"
    by (simp add: kept_def keep_reachable_def checked_def Let_def)
  have sub: "subseq kept lines"
    using keep_lines_subseq [of "answered_kinds checked" "\<lambda>_. 0" checked] kept by (simp add: checked_def comp_def)
  have alive: "answered_kinds checked k \<noteq> 0 \<longleftrightarrow> list_ex (\<lambda>l'. kind_of l' = k \<and> verdict answers l') lines" for k
    unfolding answered_kinds_pos by (auto simp: checked_def list_ex_iff)
  have exact: "filter (\<lambda>l. kind_of l = k) kept =
      take 6 (filter (\<lambda>l. kind_of l = k
                \<and> (verdict answers l \<or> \<not> list_ex (\<lambda>l'. kind_of l' = k \<and> verdict answers l') lines)) lines)" for k
    unfolding kept keep_lines_kind alive [symmetric]
    by (simp add: checked_def filter_map comp_def may_keep_def KEEP_PER_TRANSPORT_def conj_commute)
      (rule arg_cong [of _ _ "take 6"], rule filter_cong, auto)
  have "kind_of l \<in> kind_of ` set kept" if l: "l \<in> set lines" for l
  proof -
    have "filter (\<lambda>x. kind_of x = kind_of l) kept \<noteq> []"
      using l unfolding exact by (auto simp: filter_empty_conv list_ex_iff)
    then show ?thesis by (metis (mono_tags, lifting) filter_empty_conv image_eqI)
  qed
  moreover have "set kept \<subseteq> set lines" using sub by (metis set_nths_subset subseq_conv_nths)
  ultimately have "set (map kind_of kept) = set (map kind_of lines)" by auto
  then show ?thesis using sub exact by (simp add: kept_def keep_reachable_def)
qed

subsection \<open>Plans\<close>

lemma claim_props:
  assumes "claim claimed ps = (mine, claimed')"
  shows "claimed' = claimed \<union> set ps \<and> distinct mine \<and> set mine = set ps - claimed"
  using assms
proof (induction claimed ps arbitrary: mine rule: claim.induct)
  case (2 claimed p ps)
  show ?case
  proof (cases "p \<in> claimed")
    case True
    then show ?thesis using 2 by auto
  next
    case False
    then obtain mine' where "claim (insert p claimed) ps = (mine', claimed')" "mine = p # mine'"
      using "2.prems" by (auto split: prod.splits)
    then show ?thesis using False "2.IH"(2) [of mine'] by auto
  qed
qed simp

abbreviation spoken :: "transport list \<Rightarrow> string list" where
  "spoken ts \<equiv> concat (map tr_protocols ts)"

lemma claim_found_props:
  assumes "claim_found claimed found = (ts, claimed')"
  shows "claimed' = claimed \<union> set (spoken ts) \<and> set (spoken ts) = set (spoken found) - claimed
    \<and> distinct (spoken ts)"
  using assms
proof (induction claimed found arbitrary: ts rule: claim_found.induct)
  case (2 claimed one rest)
  obtain mine c where c: "claim claimed (tr_protocols one) = (mine, c)" by fastforce
  obtain ts' where ts': "claim_found c rest = (ts', claimed')"
      "ts = (if mine = [] then [] else [\<lparr>tr_protocols = mine, tr_path = tr_path one\<rparr>]) @ ts'"
    using "2.prems" c by (auto split: prod.splits)
  note this(2) and mine = claim_props [OF c] and IH = "2.IH" [OF c [symmetric] ts'(1)]
  moreover have "spoken ts = mine @ spoken ts'" using ts'(2) by simp
  ultimately show ?case by auto
qed simp

lemma spoken_narrow: "spoken (narrow used ts) = filter (\<lambda>p. p \<in> used) (spoken ts)"
proof (induction ts)
  case (Cons t ts)
  have "filter (\<lambda>p. p \<in> used) (tr_protocols t) = []" if "\<not> list_ex (\<lambda>p. p \<in> used) (tr_protocols t)"
    using that by (auto simp: filter_empty_conv list_ex_iff)
  then show ?case using Cons by (simp add: narrow_def)
qed (simp add: narrow_def)

lemma narrow_used: "t \<in> set (narrow used ts) \<Longrightarrow> tr_protocols t \<noteq> [] \<and> set (tr_protocols t) \<subseteq> used"
  by (auto simp: narrow_def list_ex_iff filter_empty_conv)

lemma plan_with_props:
  fixes lines extra found source
  defines "plan \<equiv> plan_with lines source extra found"
  shows "bp_lines plan = filter (\<lambda>l. \<forall>p. transport_of l = Some p \<longrightarrow> p \<in> set (spoken (extra @ found))) lines"
    and "set (spoken (bp_transports plan)) = set (List.map_filter transport_of (bp_lines plan))"
    and "distinct (spoken extra) \<Longrightarrow> distinct (spoken (bp_transports plan))"
    and "t \<in> set (bp_transports plan) \<Longrightarrow> tr_protocols t \<noteq> []"
    and "set (bp_missing plan) = set (List.map_filter transport_of lines) - set (spoken (extra @ found))"
proof -
  obtain ts claimed where cl: "claim_found (set (spoken extra)) found = (ts, claimed)" by fastforce
  note cf = claim_found_props [OF cl]
  then have claimed: "claimed = set (spoken (extra @ found))" by auto
  have lines: "bp_lines plan = kept_lines claimed lines"
    and ts: "bp_transports plan = narrow (set (List.map_filter transport_of (bp_lines plan))) (extra @ ts)"
    and missing: "bp_missing plan = missing_kinds claimed lines"
    using cl by (simp_all add: plan_def plan_with_def Let_def)
  show "bp_lines plan = filter (\<lambda>l. \<forall>p. transport_of l = Some p \<longrightarrow> p \<in> set (spoken (extra @ found))) lines"
    unfolding lines kept_lines_def claimed by (rule filter_cong) (auto split: option.splits)
  have "set (List.map_filter transport_of (bp_lines plan)) \<subseteq> claimed"
    unfolding lines kept_lines_def by (auto simp: map_filter_def split: option.splits)
  moreover have "claimed = set (spoken (extra @ ts))" using cf by auto
  ultimately show "set (spoken (bp_transports plan)) = set (List.map_filter transport_of (bp_lines plan))"
    by (subst ts) (auto simp only: spoken_narrow set_filter)
  show "distinct (spoken (bp_transports plan))" if "distinct (spoken extra)"
    using that cf by (subst ts) (auto simp only: spoken_narrow map_append concat_append distinct_append intro!: distinct_filter)
  show "tr_protocols t \<noteq> []" if "t \<in> set (bp_transports plan)"
    using narrow_used that by (subst (asm) ts) blast
  show "set (bp_missing plan) = set (List.map_filter transport_of lines) - set (spoken (extra @ found))"
    unfolding missing missing_kinds_def claimed by auto
qed

subsection \<open>Waves\<close>

lemma position_in_le: "position_in x ys \<le> length ys"
  by (induction ys) auto

lemma mset_partition:
  assumes "distinct ks" and "set (map f xs) \<subseteq> set ks"
  shows "mset (concat (map (\<lambda>k. filter (\<lambda>x. f x = k) xs) ks)) = mset xs"
  using assms
proof (induction ks arbitrary: xs)
  case (Cons k ks)
  let ?rest = "filter (\<lambda>x. f x \<noteq> k) xs"
  have "filter (\<lambda>x. f x = k') xs = filter (\<lambda>x. f x = k') ?rest" if "k' \<in> set ks" for k'
    using that Cons.prems(1) by (auto intro!: filter_cong)
  then have "map (\<lambda>k'. filter (\<lambda>x. f x = k') xs) ks = map (\<lambda>k'. filter (\<lambda>x. f x = k') ?rest) ks"
    by (meson map_cong)
  moreover have "mset (concat (map (\<lambda>k'. filter (\<lambda>x. f x = k') ?rest) ks)) = mset ?rest"
    using Cons.prems by (intro Cons.IH) auto
  ultimately have "mset (concat (map (\<lambda>k'. filter (\<lambda>x. f x = k') xs) (k # ks))) =
      mset (filter (\<lambda>x. f x = k) xs) + mset ?rest" by (simp only: list.map concat.simps mset_append)
  then show ?case by (metis (full_types) mset_filter multiset_partition)
qed simp

text \<open>The waves of a plan: one for every kind of its lines, in the order of the ranks.\<close>

lemma waves_names:
  assumes "waves plan worked \<noteq> []"
  obtains ks where "waves plan worked = map (wave_of plan) ks" and "distinct ks"
    and "set ks = kind_of ` set (bp_lines plan)" and "sorted (map (wave_rank worked) ks)" and "2 \<le> length ks"
proof -
  let ?names = "sort (remdups (map kind_of (bp_lines plan)))"
  have "waves plan worked = map (wave_of plan) (sort_key (wave_rank worked) ?names) \<and> 2 \<le> length ?names"
    using assms by (auto simp: waves_def Let_def split: if_splits)
  then show ?thesis by (intro that [of "sort_key (wave_rank worked) ?names"]) auto
qed

lemma fst_wave_of [simp]: "fst (wave_of plan k) = k"
  and lines_wave_of [simp]: "bp_lines (snd (wave_of plan k)) = filter (\<lambda>l. kind_of l = k) (bp_lines plan)"
  by (simp_all add: wave_of_def)

lemma wave_rank_other: "worked \<noteq> Some k \<Longrightarrow> wave_rank worked k = Suc (length PREFERENCE) + position_in k PREFERENCE"
  by (simp add: wave_rank_def)

lemma worked_first:
  assumes "sorted (map (wave_rank worked) ks)" and "worked = Some k" and "k \<in> set ks"
  shows "hd ks = k"
proof (rule ccontr)
  assume "hd ks \<noteq> k"
  then have "Suc (length PREFERENCE) \<le> wave_rank worked (hd ks)" using assms(2) wave_rank_other by auto
  moreover have "wave_rank worked (hd ks) \<le> wave_rank worked k"
    using assms(1,3) by (cases ks) auto
  moreover have "wave_rank worked k \<le> length PREFERENCE"
    using assms(2) position_in_le by (simp add: wave_rank_def)
  ultimately show False by simp
qed

lemma wave_speaks:
  assumes "plan = plan_with lines source extra found" and "l \<in> set (bp_lines plan)"
    and "transport_of l = Some p"
  shows "p \<in> set (spoken (bp_transports (snd (wave_of plan p))))"
proof -
  have "p \<in> set (List.map_filter transport_of (bp_lines plan))"
    using assms(2,3) by (force simp: map_filter_def)
  then have "p \<in> set (spoken (bp_transports plan))" using plan_with_props(2) assms(1) by blast
  then show ?thesis by (simp only: wave_of_def snd_conv bridge_plan.simps spoken_narrow) simp
qed

text \<open>
  C30. The bridges are tried kind by kind and none is left out. When a plan has several kinds of bridges, its
  waves are one for each kind: together they hold exactly the lines of the plan, every wave has lines of one
  kind, in their order, and a program for their transport and for no other. The kind that worked the last time
  comes first and the others follow in the order of preference. A line is in the plan exactly when it needs no
  transport or a program speaks it.
\<close>

theorem bridges_tried_kind_by_kind:
  assumes "plan = plan_with lines source extra found" and "waves plan worked = ws" and "ws \<noteq> []"
  shows "bp_lines plan = filter (\<lambda>l. \<forall>p. transport_of l = Some p \<longrightarrow> p \<in> set (spoken (extra @ found))) lines
    \<and> mset (concat (map (\<lambda>w. bp_lines (snd w)) ws)) = mset (bp_lines plan)
    \<and> 2 \<le> length ws \<and> distinct (map fst ws)
    \<and> (\<forall>w \<in> set ws. bp_lines (snd w) \<noteq> []
         \<and> bp_lines (snd w) = filter (\<lambda>l. kind_of l = fst w) (bp_lines plan)
         \<and> (\<forall>l \<in> set (bp_lines (snd w)). \<forall>p. transport_of l = Some p \<longrightarrow>
              (\<exists>t \<in> set (bp_transports (snd w)). p \<in> set (tr_protocols t)))
         \<and> (\<forall>t \<in> set (bp_transports (snd w)). set (tr_protocols t) = {fst w}))
    \<and> (\<forall>name. worked = Some name \<longrightarrow> name \<in> fst ` set ws \<longrightarrow> fst (hd ws) = name)
    \<and> sorted (map (\<lambda>w. position_in (fst w) PREFERENCE) (filter (\<lambda>w. worked \<noteq> Some (fst w)) ws))"
proof -
  obtain ks where ks: "ws = map (wave_of plan) ks" "distinct ks" "set ks = kind_of ` set (bp_lines plan)"
      "sorted (map (wave_rank worked) ks)" "2 \<le> length ks"
    using assms(2,3) waves_names by metis
  have names: "map fst ws = ks" by (simp add: ks(1) comp_def)
  have all: "mset (concat (map (\<lambda>w. bp_lines (snd w)) ws)) = mset (bp_lines plan)"
    using mset_partition [of ks kind_of "bp_lines plan"] ks(2,3) by (simp add: ks(1) comp_def)
  have some: "bp_lines (snd (wave_of plan k)) \<noteq> []" if "k \<in> set ks" for k
    using that ks(3) by (auto simp: filter_empty_conv)
  have speaks: "\<exists>t \<in> set (bp_transports (snd (wave_of plan k))). p \<in> set (tr_protocols t)"
    if "l \<in> set (bp_lines (snd (wave_of plan k)))" "transport_of l = Some p" for k l p
    using wave_speaks [OF assms(1) _ that(2)] that by (auto simp: kind_of_def)
  have only: "set (tr_protocols t) = {k}" if "t \<in> set (bp_transports (snd (wave_of plan k)))" for k t
    using narrow_used [of t "{k}" "bp_transports plan"] that by (cases "tr_protocols t") (auto simp: wave_of_def)
  have first: "fst (hd ws) = name" if "worked = Some name" "name \<in> fst ` set ws" for name
    using worked_first [OF ks(4) that(1)] that(2) names ks(5)
    by (metis hd_map list.size(3) list.set_map not_numeral_le_zero ks(1) fst_wave_of)
  have "sorted (map (wave_rank worked) (filter (\<lambda>k. worked \<noteq> Some k) ks))"
    using ks(4) by (rule sorted_filter)
  then have rest: "sorted (map (\<lambda>w. position_in (fst w) PREFERENCE) (filter (\<lambda>w. worked \<noteq> Some (fst w)) ws))"
    by (auto simp: ks(1) filter_map comp_def sorted_wrt_map wave_rank_other elim!: sorted_wrt_mono_rel [rotated])
  have waves: "\<forall>w \<in> set ws. bp_lines (snd w) \<noteq> []
      \<and> bp_lines (snd w) = filter (\<lambda>l. kind_of l = fst w) (bp_lines plan)
      \<and> (\<forall>l \<in> set (bp_lines (snd w)). \<forall>p. transport_of l = Some p \<longrightarrow>
           (\<exists>t \<in> set (bp_transports (snd w)). p \<in> set (tr_protocols t)))
      \<and> (\<forall>t \<in> set (bp_transports (snd w)). set (tr_protocols t) = {fst w})"
    using some speaks only unfolding ks(1) set_map ball_simps fst_wave_of by (metis lines_wave_of)
  have "2 \<le> length ws" "distinct (map fst ws)" using ks(2,5) names ks(1) by simp_all
  then show ?thesis
    using all waves first rest plan_with_props(1) [of lines source extra found] assms(1) by blast
qed

lemma sample_kinds:
  "transport_of ''obfs4 1.2.3.4:1 A'' = Some ''obfs4''" "transport_of ''1.2.3.4:80 A B'' = None"
proof -
  have "split_whitespace ''obfs4 1.2.3.4:1 A'' = [''obfs4'', ''1.2.3.4:1'', ''A'']"
      "split_whitespace ''1.2.3.4:80 A B'' = [''1.2.3.4:80'', ''A'', ''B'']"
    using split_whitespace_3 [of "''obfs4''" "''1.2.3.4:1''" "''A''"]
      split_whitespace_3 [of "''1.2.3.4:80''" "''A''" "''B''"] by (simp_all add: ascii_graphic_def)
  then show "transport_of ''obfs4 1.2.3.4:1 A'' = Some ''obfs4''" "transport_of ''1.2.3.4:80 A B'' = None"
    by (simp_all add: transport_of_def bridge_words_def eq_ignore_ascii_case_def to_ascii_lowercase_def
        ascii_upper_def ascii_digit_def contains_char to_lowercase_def)
qed

definition sample_plan :: bridge_plan where
  "sample_plan = plan_with [''1.2.3.4:80 A B'', ''obfs4 1.2.3.4:1 A''] ''test''
     [\<lparr>tr_protocols = [''obfs4''], tr_path = ''/usr/bin/lyrebird''\<rparr>] []"

lemma sample_plan_lines: "bp_lines sample_plan = [''1.2.3.4:80 A B'', ''obfs4 1.2.3.4:1 A'']"
  unfolding sample_plan_def plan_with_props(1) by (simp add: sample_kinds)

theorem bridges_tried_kind_by_kind_witness:
  "waves sample_plan (Some ''vanilla'') \<noteq> [] \<and> fst (hd (waves sample_plan (Some ''vanilla''))) = ''vanilla''
   \<and> mset (concat (map (\<lambda>w. bp_lines (snd w)) (waves sample_plan (Some ''vanilla'')))) = mset (bp_lines sample_plan)"
proof -
  have "map kind_of (bp_lines sample_plan) = [''vanilla'', ''obfs4'']"
    by (simp add: sample_plan_lines kind_of_def sample_kinds)
  then have ne: "waves sample_plan (Some ''vanilla'') \<noteq> []"
    and names: "fst ` set (waves sample_plan (Some ''vanilla'')) = {''vanilla'', ''obfs4''}"
    by (simp_all add: waves_def Let_def image_image insert_commute)
  note all = bridges_tried_kind_by_kind [OF sample_plan_def refl ne]
  have "fst (hd (waves sample_plan (Some ''vanilla''))) = ''vanilla''"
    by (rule all [THEN conjunct2, THEN conjunct2, THEN conjunct2, THEN conjunct2, THEN conjunct2, THEN conjunct1, rule_format])
      (simp_all add: names)
  then show ?thesis using ne all [THEN conjunct2, THEN conjunct1] by (intro conjI)
qed

theorem probing_keeps_every_kind_witness:
  "set (map kind_of (keep_reachable (\<lambda>_. False) [''1.2.3.4:80 A B'', ''obfs4 1.2.3.4:1 A''] None)) = {''vanilla'', ''obfs4''}"
  using probing_keeps_every_kind [of "\<lambda>_. False" "[''1.2.3.4:80 A B'', ''obfs4 1.2.3.4:1 A'']" "[]" undefined]
  by (simp add: kind_of_def sample_kinds)

end
