(* ===== verification/Tor_Props.thy ===== *)
theory Tor_Props
  imports Tor Bridges_Props
begin

text \<open>
  Properties of \<^verbatim>\<open>Tor\<close>: which bridges a start may use under which setting, how many starts there are, and how
  a start ends.
\<close>

subsection \<open>One stage\<close>

text \<open>A stage succeeds with the first try that succeeds, and only then; a refused configuration ends it.\<close>

primrec succeeds :: "'c try_result \<Rightarrow> bool" where
  "succeeds (Refused e) = False"
| "succeeds (Ended r) = (\<exists>c. r = Inr c)"
| "succeeds TimedOut = False"

primrec refused :: "'c try_result \<Rightarrow> bool" where
  "refused (Refused e) = True"
| "refused (Ended r) = False"
| "refused TimedOut = False"

lemma stage_loop_success:
  "stage_loop deadline run n left = Inr c \<longleftrightarrow>
     (\<exists>i \<le> left. run (n + i) = Ended (Inr c) \<and> (\<forall>j < i. \<not> succeeds (run (n + j)) \<and> \<not> refused (run (n + j))))"
proof (induction left arbitrary: n)
  case 0
  show ?case by (subst stage_loop.simps) (auto split: try_result.split sum.split)
next
  case (Suc left)
  have shift: "(\<exists>i \<le> Suc left. run (n + i) = Ended (Inr c) \<and> (\<forall>j < i. \<not> succeeds (run (n + j)) \<and> \<not> refused (run (n + j)))) \<longleftrightarrow>
      run n = Ended (Inr c) \<or>
      (\<not> succeeds (run n) \<and> \<not> refused (run n) \<and>
       (\<exists>i \<le> left. run (Suc n + i) = Ended (Inr c) \<and> (\<forall>j < i. \<not> succeeds (run (Suc n + j)) \<and> \<not> refused (run (Suc n + j)))))"
    (is "?L \<longleftrightarrow> ?R")
  proof
    assume ?L
    then obtain i where i: "i \<le> Suc left" "run (n + i) = Ended (Inr c)"
        "\<forall>j < i. \<not> succeeds (run (n + j)) \<and> \<not> refused (run (n + j))" by blast
    show ?R
    proof (cases i)
      case (Suc k)
      have "\<forall>j < k. \<not> succeeds (run (Suc n + j)) \<and> \<not> refused (run (Suc n + j))"
        using i(3) Suc by (metis Suc_less_eq add_Suc_shift)
      then show ?thesis using i Suc by auto
    qed (use i in simp)
  next
    assume ?R
    then show ?L
    proof
      assume "\<not> succeeds (run n) \<and> \<not> refused (run n) \<and>
       (\<exists>i \<le> left. run (Suc n + i) = Ended (Inr c) \<and> (\<forall>j < i. \<not> succeeds (run (Suc n + j)) \<and> \<not> refused (run (Suc n + j))))"
      then obtain i where i: "i \<le> left" "run (Suc n + i) = Ended (Inr c)" "\<not> succeeds (run n)" "\<not> refused (run n)"
          "\<forall>j < i. \<not> succeeds (run (Suc n + j)) \<and> \<not> refused (run (Suc n + j))" by blast
      have "\<not> succeeds (run (n + j)) \<and> \<not> refused (run (n + j))" if "j < Suc i" for j
        using i(3,4,5) that by (cases j) auto
      then show ?L using i(1,2) by (intro exI [of _ "Suc i"]) auto
    qed (auto intro!: exI [of _ 0])
  qed
  show ?case
    unfolding shift using Suc [of "Suc n"]
    by (subst stage_loop.simps) (auto split: try_result.split sum.split)
qed

lemma stage_success:
  "stage run s = Inr c \<longleftrightarrow>
     (\<exists>i \<ge> 1. i \<le> max 1 (ts_attempts s) \<and> run i = Ended (Inr c) \<and> (\<forall>j \<in> {1..<i}. \<not> succeeds (run j) \<and> \<not> refused (run j)))"
proof -
  have "(\<exists>i \<le> ts_attempts s - 1. run (1 + i) = Ended (Inr c) \<and> (\<forall>j < i. \<not> succeeds (run (1 + j)) \<and> \<not> refused (run (1 + j)))) \<longleftrightarrow>
      (\<exists>i \<ge> 1. i \<le> max 1 (ts_attempts s) \<and> run i = Ended (Inr c) \<and> (\<forall>j \<in> {1..<i}. \<not> succeeds (run j) \<and> \<not> refused (run j)))"
    (is "?L \<longleftrightarrow> ?R")
  proof
    assume ?L
    then obtain i where i: "i \<le> ts_attempts s - 1" "run (1 + i) = Ended (Inr c)"
        "\<forall>j < i. \<not> succeeds (run (1 + j)) \<and> \<not> refused (run (1 + j))" by blast
    have "\<not> succeeds (run j) \<and> \<not> refused (run j)" if "j \<in> {1..<1 + i}" for j
      using i(3) that by (cases j) auto
    then show ?R using i(1,2) by (intro exI [of _ "1 + i"]) auto
  next
    assume ?R
    then obtain i where i: "1 \<le> i" "i \<le> max 1 (ts_attempts s)" "run i = Ended (Inr c)"
        "\<forall>j \<in> {1..<i}. \<not> succeeds (run j) \<and> \<not> refused (run j)" by blast
    then show ?L by (intro exI [of _ "i - 1"]) auto
  qed
  then show ?thesis by (simp only: stage_def stage_loop_success)
qed

subsection \<open>The stages\<close>

text \<open>The stages are run in turn until one succeeds, and the result is a success exactly then.\<close>

fun in_turn :: "'c tor_io \<Rightarrow> nat \<Rightarrow> tor_stage list \<Rightarrow> aether_error + 'c \<Rightarrow> bool" where
  "in_turn io n [] r = isl r"
| "in_turn io n (s # ss) r =
     (case stage (to_try io n) s of
        Inr c \<Rightarrow> ss = [] \<and> r = Inr c
      | Inl _ \<Rightarrow> in_turn io (Suc n) ss r)"

lemma in_turn_append:
  "in_turn io n ss (Inl e) \<Longrightarrow> in_turn io (n + length ss) ss' r \<Longrightarrow> in_turn io n (ss @ ss') r"
  by (induction ss arbitrary: n) (auto split: sum.splits)

lemma in_turn_stage: "in_turn io n [s] (stage (to_try io n) s)"
  by (simp split: sum.split)

lemma try_waves_in_turn:
  assumes "try_waves env io n ws = (r, ss)"
  shows "(case r of Some (c, name) \<Rightarrow> in_turn io n ss (Inr c) \<and> ss \<noteq> [] \<and> ts_slot (last ss) = Some name
     | None \<Rightarrow> in_turn io n ss (Inl e)) \<and> length ss \<le> length ws"
  using assms
proof (induction env io n ws arbitrary: r ss rule: try_waves.induct)
  case (2 env io n name wave rest)
  show ?case
  proof (cases "stage (to_try io n) (wave_stage env io n name wave)")
    case (Inl e')
    obtain r' ss' where rest: "try_waves env io (Suc n) rest = (r', ss')" by fastforce
    then have "r = r'" "ss = wave_stage env io n name wave # ss'" using "2.prems" Inl by (auto simp: Let_def)
    then show ?thesis using "2.IH" [OF refl Inl rest] Inl by (auto split: option.splits)
  next
    case (Inr c)
    then show ?thesis using "2.prems" by (auto simp: Let_def wave_stage_def)
  qed
qed simp

text \<open>A plan that a stage may use: it has lines, and a program for every transport they need.\<close>

definition plan_ready :: "bridge_plan \<Rightarrow> bool" where
  "plan_ready plan \<longleftrightarrow>
     bp_lines plan \<noteq> []
     \<and> list_all (\<lambda>l. case transport_of l of
            Some p \<Rightarrow> list_ex (\<lambda>t. p \<in> set (tr_protocols t)) (bp_transports plan)
          | None \<Rightarrow> True) (bp_lines plan)"

lemma plan_with_ready:
  assumes "plan = plan_with lines source extra found" and "bp_lines plan \<noteq> []"
  shows "plan_ready plan"
proof -
  have "list_ex (\<lambda>t. p \<in> set (tr_protocols t)) (bp_transports plan)"
    if "l \<in> set (bp_lines plan)" "transport_of l = Some p" for l p
  proof -
    have "p \<in> set (List.map_filter transport_of (bp_lines plan))" using that by (force simp: map_filter_def)
    then show ?thesis using plan_with_props(2) [of lines source extra found] assms(1) by (auto simp: list_ex_iff)
  qed
  then show ?thesis using assms(2) by (auto simp: plan_ready_def list_all_iff split: option.split)
qed

lemma wave_ready:
  assumes "plan = plan_with lines source extra found" and "(name, wave) \<in> set (waves plan worked)"
    and "mset lines' = mset (bp_lines wave)"
  shows "plan_ready (wave\<lparr>bp_lines := lines'\<rparr>) \<and> set lines' \<subseteq> set (bp_lines plan)"
proof -
  have "waves plan worked \<noteq> []" using assms(2) by auto
  then obtain ks where ks: "waves plan worked = map (wave_of plan) ks" "set ks = kind_of ` set (bp_lines plan)"
    using waves_names by metis
  then have wave: "wave = snd (wave_of plan name)" "name \<in> set ks" using assms(2) by (auto simp: wave_of_def)
  have lines: "set lines' = set (bp_lines wave)" using assms(3) by (metis set_mset_mset)
  have "list_ex (\<lambda>t. p \<in> set (tr_protocols t)) (bp_transports wave)"
    if "l \<in> set lines'" "transport_of l = Some p" for l p
    using wave_speaks [OF assms(1) _ that(2)] that lines wave by (auto simp: list_ex_iff kind_of_def)
  moreover have "lines' \<noteq> []" using lines wave ks(2) by auto
  ultimately show ?thesis using lines wave(1) by (auto simp: plan_ready_def list_all_iff split: option.split)
qed

lemma try_waves_stages:
  assumes "try_waves env io n ws = (r, ss)" and "s \<in> set ss"
  shows "\<exists>n' name wave. (name, wave) \<in> set ws \<and> s = wave_stage env io n' name wave"
  using assms
proof (induction env io n ws arbitrary: r ss rule: try_waves.induct)
  case (2 env io n name wave rest)
  show ?case
  proof (cases "s = wave_stage env io n name wave")
    case False
    then obtain e r' ss' where "stage (to_try io n) (wave_stage env io n name wave) = Inl e"
        "try_waves env io (Suc n) rest = (r', ss')" "s \<in> set ss'"
      using "2.prems" by (auto simp: Let_def split: sum.splits prod.splits)
    then show ?thesis using "2.IH" [OF refl] by fastforce
  qed auto
qed simp

lemma set_waves_twice: "set (concat (map (replicate WAVE_TRIES) ws)) = set ws"
  by (auto simp: WAVE_TRIES_def)

lemma length_waves_twice: "length (concat (map (replicate WAVE_TRIES) ws)) = 2 * length ws"
  by (induction ws) (simp_all add: WAVE_TRIES_def)

text \<open>What a stage over bridges may use.\<close>

definition uses :: "string set \<Rightarrow> tor_stage \<Rightarrow> bool" where
  "uses lines s \<longleftrightarrow> (\<exists>plan. ts_plan s = Some plan \<and> plan_ready plan \<and> set (bp_lines plan) \<subseteq> lines)"

lemma auto_plan_is_plan: "\<exists>lines source. auto_plan env io through = plan_with lines source (manual_transports env) (to_found io)"
  by (auto simp: auto_plan_def split: prod.splits)

lemma over_bridges_props:
  assumes draws: "\<And>n place. to_draw io n place \<le> place"
    and run: "over_bridges env hint io through rounds n = (r, ss, kept)"
  shows "in_turn io n ss r" and "\<forall>s \<in> set ss. uses (set (bp_lines (auto_plan env io through))) s"
    and "kept = Some name \<Longrightarrow> ss \<noteq> [] \<and> ts_slot (last ss) = Some name \<and> (\<exists>c. r = Inr c)"
    and "length ss \<le> 2 * length (waves (auto_plan env io through) (recall (to_worked io))) + 1"
proof -
  define plan where "plan = auto_plan env io through"
  define ws where "ws = waves plan (recall (to_worked io))"
  obtain lines source where is_plan: "plan = plan_with lines source (manual_transports env) (to_found io)"
    using auto_plan_is_plan plan_def by metis
  obtain got ss' where tw: "try_waves env io n (concat (map (replicate WAVE_TRIES) ws)) = (got, ss')" by fastforce
  note turn = try_waves_in_turn [OF tw, unfolded length_waves_twice]
  define all where "all = \<lparr>ts_plan = Some plan, ts_attempts = rounds, ts_deadline = None, ts_stall = None, ts_slot = Some ''all''\<rparr>"
  have wave_uses: "uses (set (bp_lines plan)) s" if s: "s \<in> set ss'" for s
  proof -
    obtain n' k wave where w: "(k, wave) \<in> set ws" "s = wave_stage env io n' k wave"
      using try_waves_stages [OF tw s] set_waves_twice by metis
    show ?thesis
      using wave_ready [OF is_plan w(1) [unfolded ws_def] shuffle_permutes [of "to_draw io n'", OF draws]] w(2)
      by (auto simp: uses_def wave_stage_def)
  qed
  have result: "bp_lines plan = [] \<and> r = Inl (tor_blocked hint) \<and> ss = [] \<and> kept = None
      \<or> bp_lines plan \<noteq> [] \<and> (\<exists>c k. got = Some (c, k) \<and> r = Inr c \<and> ss = ss' \<and> kept = Some k)
      \<or> bp_lines plan \<noteq> [] \<and> got = None \<and> r = stage (to_try io (n + length ss')) all \<and> ss = ss' @ [all] \<and> kept = None"
    using run tw
    by (cases got) (auto simp: over_bridges_def try_each_transport_def plan_def ws_def all_def Let_def split: if_splits)
  show "in_turn io n ss r"
    using result turn in_turn_append [of io n ss' _ "[all]"] in_turn_stage [of io "n + length ss'" all] by auto
  have "uses (set (bp_lines plan)) all" if "bp_lines plan \<noteq> []"
    using plan_with_ready [OF is_plan that] by (simp add: uses_def all_def)
  then show "\<forall>s \<in> set ss. uses (set (bp_lines (auto_plan env io through))) s"
    using result wave_uses plan_def by auto
  show "kept = Some name \<Longrightarrow> ss \<noteq> [] \<and> ts_slot (last ss) = Some name \<and> (\<exists>c. r = Inr c)"
    using result turn by auto
  show "length ss \<le> 2 * length (waves (auto_plan env io through) (recall (to_worked io))) + 1"
    using result turn unfolding ws_def plan_def by auto
qed

text \<open>The stages of each setting.\<close>

lemma tor_establish_cases:
  assumes "tor_establish env hint io through rounds = (r, ss, kept)"
  obtains (manual) lines plan where "bridges env (to_read io) = BridgesManual lines"
      "plan = plan_with lines ''given by hand'' (manual_transports env) (to_found io)"
      "bp_lines plan = [] \<and> ss = [] \<and> isl r \<or>
       bp_lines plan \<noteq> [] \<and> (\<exists>s. ss = [s] \<and> ts_plan s = Some plan \<and> ts_attempts s = rounds \<and> r = stage (to_try io 0) s)"
      "kept = None"
  | (forced) "bridges env (to_read io) = BridgesAuto True" "over_bridges env hint io through rounds 0 = (r, ss, kept)"
  | (direct) s where "bridges env (to_read io) \<in> {BridgesDisabled, BridgesAuto False}" "ts_plan s = None"
      "ss = [s]" "r = stage (to_try io 0) s" "kept = None"
  | (falls_back) s e ss' where "bridges env (to_read io) = BridgesAuto False" "through = None" "ts_plan s = None"
      "ts_attempts s = 1" "ts_deadline s = Some (direct_probe env)" "stage (to_try io 0) s = Inl e" "ss = s # ss'"
      "over_bridges env hint io through rounds 1 = (r, ss', kept)"
proof (cases "bridges env (to_read io)")
  case BridgesDisabled
  then show ?thesis
    using assms by (intro direct [of "hd ss"]) (auto simp: tor_establish_def Let_def split: sum.splits)
next
  case (BridgesManual lines)
  then show ?thesis using assms by (intro manual) (auto simp: tor_establish_def Let_def needs_transport_def split: if_splits)
next
  case (BridgesAuto f)
  show ?thesis
  proof (cases f)
    case True
    then show ?thesis using BridgesAuto assms by (intro forced) (auto simp: tor_establish_def Let_def)
  next
    case False
    define s where "s = \<lparr>ts_plan = None, ts_attempts = (if through = None then 1 else rounds),
      ts_deadline = (if through = None then Some (direct_probe env) else None), ts_stall = None, ts_slot = Some ''direct''\<rparr>"
    obtain r' ss' kept' where ob: "over_bridges env hint io through rounds 1 = (r', ss', kept')" by (metis prod_cases3)
    have "(r, ss, kept) = (case stage (to_try io 0) s of
        Inr c \<Rightarrow> (Inr c, [s], None)
      | Inl e \<Rightarrow> if through \<noteq> None then (Inl e, [s], None) else (r', s # ss', kept'))"
      using assms BridgesAuto False ob by (cases through) (auto simp add: tor_establish_def s_def Let_def split: sum.splits)
    then show ?thesis
      using BridgesAuto False ob falls_back [of s _ ss'] direct [of s]
      by (cases "stage (to_try io 0) s"; cases through) (auto simp: s_def)
  qed
qed

text \<open>By the policy that the settings come to.\<close>

lemma tor_policy_respected:
  assumes "\<And>n place. to_draw io n place \<le> place"
    and "tor_establish env hint io through rounds = (r, stages, kept)"
  shows "(bridges env (to_read io) = BridgesDisabled \<longrightarrow> (\<forall>s \<in> set stages. ts_plan s = None))
    \<and> (bridges env (to_read io) = BridgesAuto True \<longrightarrow> (\<forall>s \<in> set stages. ts_plan s \<noteq> None))
    \<and> (\<forall>lines. bridges env (to_read io) = BridgesManual lines \<longrightarrow> (\<forall>s \<in> set stages. uses (set lines) s))
    \<and> (bridges env (to_read io) = BridgesAuto False \<longrightarrow> stages \<noteq> [] \<and> ts_plan (hd stages) = None \<and>
         (through \<noteq> None \<longrightarrow> (\<forall>s \<in> set stages. ts_plan s = None)))
    \<and> (\<forall>s \<in> set stages. ts_plan s = None \<or> uses UNIV s)
    \<and> in_turn io 0 stages r
    \<and> length stages \<le> 2 * length (waves (auto_plan env io through) (recall (to_worked io))) + 2
    \<and> (\<forall>name. kept = Some name \<longrightarrow> stages \<noteq> [] \<and> ts_slot (last stages) = Some name \<and> (\<exists>c. r = Inr c))"
  using assms(2)
proof (cases rule: tor_establish_cases)
  case (manual lines plan)
  have "set (bp_lines plan) \<subseteq> set lines" unfolding manual(2) plan_with_props(1) by auto
  then have "uses (set lines) s" if "s \<in> set stages" for s
    using manual(3) plan_with_ready [OF manual(2)] that by (auto simp: uses_def)
  moreover have "in_turn io 0 stages r" using manual(3) in_turn_stage [of io 0] by auto
  moreover have "uses UNIV s" if "uses A s" for A s using that by (auto simp: uses_def)
  ultimately show ?thesis using manual by auto
next
  case forced
  note ob = over_bridges_props [OF assms(1) forced(2)]
  have "ts_plan s \<noteq> None \<and> uses UNIV s" if "s \<in> set stages" for s using ob(2) that by (auto simp: uses_def)
  then show ?thesis using forced(1) ob(1,3,4) by auto
next
  case (direct s)
  then show ?thesis using in_turn_stage [of io 0 s] by auto
next
  case (falls_back s e ss')
  note ob = over_bridges_props [OF assms(1) falls_back(8)]
  have "uses UNIV s'" if "s' \<in> set ss'" for s' using ob(2) that by (auto simp: uses_def)
  then show ?thesis using falls_back ob(1,3,4) by auto
qed

text \<open>The value of the variable \<^verbatim>\<open>AETHER_TOR_BRIDGES\<close>, without the space around it.\<close>

definition bridge_setting :: "env \<Rightarrow> string" where
  "bridge_setting env = trim (case env ''AETHER_TOR_BRIDGES'' of Some v \<Rightarrow> v | None \<Rightarrow> [])"

lemma bridges_by_settings:
  fixes env :: env and read
  defines "word \<equiv> to_lowercase (bridge_setting env)" and "file \<equiv> bridges_from_file env read"
  shows "file \<noteq> [] \<Longrightarrow> bridges env read = BridgesManual
      (file @ (if word = [] \<or> word \<in> set off_words \<or> word \<in> set auto_words then []
               else read_bridge_lines (replace_char (CHR '';'') (CHR 0x0A) (bridge_setting env))))"
    and "file = [] \<Longrightarrow> word \<in> set off_words \<Longrightarrow> bridges env read = BridgesDisabled"
    and "file = [] \<Longrightarrow> word \<in> set auto_words \<Longrightarrow> bridges env read = BridgesAuto True"
    and "file = [] \<Longrightarrow> word \<notin> set off_words \<union> set auto_words \<Longrightarrow> bridges env read =
      (if word = [] \<or> bridge_entries (bridge_setting env) = [] then BridgesAuto False
       else BridgesManual (bridge_entries (bridge_setting env)))"
  by (auto simp: bridges_def bridge_setting_def word_def file_def off_words_def auto_words_def Let_def)

text \<open>
  C21. Tor is reached only in the ways the settings allow, the variable \<^verbatim>\<open>AETHER_TOR_BRIDGES\<close> and the bridge file
  (empty when none is named, when it cannot be read or holds no line). Without a bridge file: with one of the
  words for off no stage uses a bridge; with one of the words for auto no stage reaches the network without one; with
  lines in the variable every stage uses lines of those and no others; with neither, Tor is first tried
  without bridges, and through the tunnel only so. With a bridge file every stage uses lines of the file, or of the
  variable when it holds lines, and no others: this also when the variable says off, contrary to the help, which says of
  \<^verbatim>\<open>--no-tor-bridges\<close> that bridges are never used. Every stage over bridges has lines and a program for each transport
  they need. The stages are run in turn until one succeeds, the result is a success exactly then, there are at
  most two for each kind of bridge and two more, and a kind is remembered only when it succeeded.
\<close>

theorem tor_bridges_respected:
  fixes env :: env and io :: "'c tor_io"
  assumes "\<And>n place. to_draw io n place \<le> place"
    and "tor_establish env hint io through rounds = (r, stages, kept)"
  defines "word \<equiv> to_lowercase (bridge_setting env)" and "file \<equiv> bridges_from_file env (to_read io)"
  shows "(file = [] \<and> word \<in> {''off'', ''no'', ''0'', ''false'', ''none''} \<longrightarrow> (\<forall>s \<in> set stages. ts_plan s = None))
    \<and> (file = [] \<and> word \<in> {''auto'', ''on'', ''1'', ''yes'', ''true'', ''force''} \<longrightarrow> (\<forall>s \<in> set stages. ts_plan s \<noteq> None))
    \<and> (file = [] \<and> word \<notin> {[], ''off'', ''no'', ''0'', ''false'', ''none'', ''auto'', ''on'', ''1'', ''yes'', ''true'', ''force''} \<and>
        bridge_entries (bridge_setting env) \<noteq> [] \<longrightarrow>
        (\<forall>s \<in> set stages. uses (set (bridge_entries (bridge_setting env))) s))
    \<and> (file = [] \<and> word = [] \<longrightarrow> stages \<noteq> [] \<and> ts_plan (hd stages) = None \<and>
        (through \<noteq> None \<longrightarrow> (\<forall>s \<in> set stages. ts_plan s = None)))
    \<and> (file \<noteq> [] \<longrightarrow> (\<forall>s \<in> set stages. uses (set file \<union>
        (if word \<in> {[], ''off'', ''no'', ''0'', ''false'', ''none'', ''auto'', ''on'', ''1'', ''yes'', ''true'', ''force''} then {}
         else set (read_bridge_lines (replace_char (CHR '';'') (CHR 0x0A) (bridge_setting env))))) s))
    \<and> (\<forall>s \<in> set stages. ts_plan s = None \<or> uses UNIV s)
    \<and> in_turn io 0 stages r
    \<and> length stages \<le> 2 * length (waves (auto_plan env io through) (recall (to_worked io))) + 2
    \<and> (\<forall>name. kept = Some name \<longrightarrow> stages \<noteq> [] \<and> ts_slot (last stages) = Some name \<and> (\<exists>c. r = Inr c))"
proof -
  note policy = tor_policy_respected [OF assms(1,2)]
  note by_settings = bridges_by_settings [of env "to_read io", folded word_def file_def]
  note words = off_words_def auto_words_def
  have off: "\<forall>s \<in> set stages. ts_plan s = None" if "file = []" "word \<in> {''off'', ''no'', ''0'', ''false'', ''none''}"
    using policy by_settings(2) that by (simp add: words)
  have auto: "\<forall>s \<in> set stages. ts_plan s \<noteq> None" if "file = []" "word \<in> {''auto'', ''on'', ''1'', ''yes'', ''true'', ''force''}"
    using policy by_settings(3) that by (simp add: words)
  have named: "\<forall>s \<in> set stages. uses (set (bridge_entries (bridge_setting env))) s"
    if "file = []" "bridge_entries (bridge_setting env) \<noteq> []"
      "word \<notin> {[], ''off'', ''no'', ''0'', ''false'', ''none'', ''auto'', ''on'', ''1'', ''yes'', ''true'', ''force''}"
    using policy by_settings(4) that by (simp add: words)
  have plain: "stages \<noteq> [] \<and> ts_plan (hd stages) = None \<and> (through \<noteq> None \<longrightarrow> (\<forall>s \<in> set stages. ts_plan s = None))"
    if "file = []" "word = []"
    using policy by_settings(4) that by (simp add: words)
  have from_file: "\<forall>s \<in> set stages. uses (set file \<union>
      (if word \<in> {[], ''off'', ''no'', ''0'', ''false'', ''none'', ''auto'', ''on'', ''1'', ''yes'', ''true'', ''force''} then {}
       else set (read_bridge_lines (replace_char (CHR '';'') (CHR 0x0A) (bridge_setting env))))) s" if "file \<noteq> []"
  proof -
    have "word = [] \<or> word \<in> set off_words \<or> word \<in> set auto_words \<longleftrightarrow>
        word \<in> {[], ''off'', ''no'', ''0'', ''false'', ''none'', ''auto'', ''on'', ''1'', ''yes'', ''true'', ''force''}"
      by (simp add: words)
    moreover have "\<forall>s \<in> set stages. uses (set (file @
        (if word = [] \<or> word \<in> set off_words \<or> word \<in> set auto_words then []
         else read_bridge_lines (replace_char (CHR '';'') (CHR 0x0A) (bridge_setting env))))) s"
      by (rule policy [THEN conjunct2, THEN conjunct2, THEN conjunct1, THEN spec, THEN mp, OF by_settings(1) [OF that]])
    ultimately show ?thesis by (simp only: set_append if_distrib [of set] list.set)
  qed
  note rest = policy [THEN conjunct2, THEN conjunct2, THEN conjunct2, THEN conjunct2]
  show ?thesis
    by (rule conjI [OF impI conjI [OF impI conjI [OF impI conjI [OF impI conjI [OF impI rest]]]]])
      ((elim conjE)?, rule off auto named plain from_file; assumption)+
qed

definition sample_tor :: "nat tor_io" where
  "sample_tor =
     \<lparr>to_read = (\<lambda>_. None), to_saved = None,
      to_fetch = \<lparr>fi_now = 0, fi_later = 0, fi_client = False, fi_trace = None, fi_settings = (\<lambda>_. None),
                  fi_builtin = None, fi_relays = None, fi_draw = (\<lambda>_. 0)\<rparr>,
      to_answers = (\<lambda>_. True), to_found = [], to_worked = None, to_draw = (\<lambda>_ _. 0),
      to_try = (\<lambda>_ n. if n = 2 then Ended (Inr 7) else TimedOut)\<rparr>"

theorem tor_bridges_respected_witness:
  "let (r, stages, kept) = tor_establish (Map.empty(''AETHER_TOR_BRIDGES'' \<mapsto> ''off'')) [] sample_tor None 3
   in r = Inr 7 \<and> length stages = 1 \<and> list_all (\<lambda>s. ts_plan s = None) stages \<and> in_turn sample_tor 0 stages r"
proof -
  let ?env = "Map.empty(''AETHER_TOR_BRIDGES'' \<mapsto> ''off'') :: env"
  have trim: "trim ''off'' = ''off''" by (subst trim_graphic) (simp_all add: ascii_graphic_def)
  have word: "to_lowercase (bridge_setting ?env) = ''off''"
    by (simp add: bridge_setting_def trim to_lowercase_def to_ascii_lowercase_def ascii_upper_def)
  have no_file: "bridges_from_file ?env (to_read sample_tor) = []" by (simp add: bridges_from_file_def)
  have policy: "bridges ?env (to_read sample_tor) = BridgesDisabled"
    using bridges_by_settings(2) [OF no_file] word by (simp add: off_words_def)
  have tries: "stage (to_try sample_tor 0) s = Inr 7" if "ts_attempts s = 3" for s
    using that by (simp add: stage_def sample_tor_def stage_loop.simps eval_nat_numeral)
  obtain r stages kept where run: "tor_establish ?env [] sample_tor None 3 = (r, stages, kept)" by (metis prod_cases3)
  have draws: "to_draw sample_tor n place \<le> place" for n place by (simp add: sample_tor_def)
  note safe = tor_bridges_respected [OF draws run]
  have "r = Inr 7 \<and> length stages = 1" using run policy tries by (auto simp: tor_establish_def Let_def)
  moreover have "list_all (\<lambda>s. ts_plan s = None) stages" using safe [THEN conjunct1] no_file word by (simp add: list_all_iff)
  moreover have "in_turn sample_tor 0 stages r" using safe by blast
  ultimately show ?thesis using run by simp
qed

subsection \<open>Settings that overrule each other\<close>

text \<open>A bridge file is used even with bridges turned off.\<close>

lemma bridge_file_beats_off:
  assumes "bridges_from_file env read \<noteq> []" and "env ''AETHER_TOR_BRIDGES'' = Some ''off''"
  shows "bridges env read = BridgesManual (bridges_from_file env read)"
proof -
  have "trim ''off'' = ''off''" by (subst trim_graphic) (simp_all add: ascii_graphic_def)
  then show ?thesis
    using assms by (simp add: bridges_def to_lowercase_def to_ascii_lowercase_def ascii_upper_def off_words_def Let_def)
qed

text \<open>A transport that is given in capitals serves no line: the lines are compared in small letters.\<close>

lemma capital_transport_unused:
  assumes "\<forall>t \<in> set extra. \<forall>p \<in> set (tr_protocols t). to_lowercase p \<noteq> p"
  shows "bp_transports (plan_with lines source extra []) = [] \<and>
         bp_lines (plan_with lines source extra []) = filter (\<lambda>l. transport_of l = None) lines"
proof -
  let ?plan = "plan_with lines source extra []"
  have low: "to_lowercase p = p" if "transport_of l = Some p" for l p
    using that by (auto simp: transport_of_def split: list.splits if_splits)
  then have "p \<notin> set (spoken extra)" if "transport_of l = Some p" for l p using assms that by auto
  then have lines: "bp_lines ?plan = filter (\<lambda>l. transport_of l = None) lines"
    unfolding plan_with_props(1) by (auto intro!: filter_cong)
  have "set (spoken (bp_transports ?plan)) = {}"
    unfolding plan_with_props(2) lines by (auto simp: map_filter_def)
  then have "bp_transports ?plan = []" using plan_with_props(4) [of _ lines source extra "[]"] by fastforce
  with lines show ?thesis by simp
qed

end
