(* ===== verification/Spec2Isabelle.thy ===== *)
theory Spec2Isabelle
  imports Tunnel_H2_Loop Tunnel_Quic Netstack_Invariant Sniff_Props Fragment_Time Dns_Ech Routing_Props
    Socks_Dns Socks_Udp Upstream_Detour Upstream_Url Http_Proxy_Props Listener Netstack_Handles Wireguard_Props
    Wg_Prober_Props Tunnelping Lastconn Config_Props Egress Supervise_Wg Tunnel_Start_Props Cli Tor_Props
begin

text \<open>
  A verification library for the engine of Aether, the Rust crate under
  \<^verbatim>\<open>src/native/aether/aether/src\<close>. The Android application around it is not part of it.

  \<^bold>\<open>The program.\<close> Applications connect to a local SOCKS5 or HTTP proxy (\<^verbatim>\<open>socks.rs\<close>). The routing rules
  (\<^verbatim>\<open>routing.rs\<close>) block a connection, send it out directly or send it through the tunnel; for a target
  given as an address the name is read from the first bytes (\<^verbatim>\<open>sniff.rs\<close>). What goes through the tunnel
  is terminated by a user-space TCP/IP stack (\<^verbatim>\<open>netstack.rs\<close>), whose IP packets travel in a CONNECT-IP
  request (\<^verbatim>\<open>masque.rs\<close>) over HTTP/2 (\<^verbatim>\<open>masque_h2.rs\<close>) or QUIC (\<^verbatim>\<open>quic.rs\<close>), or in a WireGuard session
  (\<^verbatim>\<open>wireguard.rs\<close>) whose handshakes are hidden among decoys (\<^verbatim>\<open>noize.rs\<close>, \<^verbatim>\<open>aethernoize.rs\<close>). The TLS handshake of the HTTP/2
  carrier is fragmented (\<^verbatim>\<open>fragment.rs\<close>), the ECH configuration of the front comes from DNS (\<^verbatim>\<open>dns.rs\<close>), and
  the tunnel may itself be dialled through another proxy (\<^verbatim>\<open>upstream.rs\<close>). The gateway is the last one that
  worked (\<^verbatim>\<open>lastconn.rs\<close>) or the best one of a search (\<^verbatim>\<open>prober.rs\<close>, \<^verbatim>\<open>wg_prober.rs\<close>, \<^verbatim>\<open>tunnelping.rs\<close>), and the
  country of the exit may be restricted (\<^verbatim>\<open>exitloc.rs\<close>). The identity of the device is in a file (\<^verbatim>\<open>config.rs\<close>);
  sockets may carry a firewall mark (\<^verbatim>\<open>egress.rs\<close>). \<^verbatim>\<open>sysprofile.rs\<close> chooses sizes and \<^verbatim>\<open>stats.rs\<close> counts bytes.

  \<^bold>\<open>Shared theories.\<close>
  \<^item> \<^verbatim>\<open>Aether_Prelude\<close>: machine types, errors as sums, panics as values of \<open>run\<close>, slices, big-endian words.
  \<^item> \<^verbatim>\<open>Text\<close>, \<^verbatim>\<open>Net_Addr\<close>, \<^verbatim>\<open>Ip_Text\<close>: strings as their UTF-8 bytes with the operations of \<^verbatim>\<open>str\<close>, addresses as
    words, reading and printing addresses.
  \<^item> \<^verbatim>\<open>Channel\<close>: bounded queues between tasks (locale \<open>bounded_fifo\<close>).
  \<^item> \<^verbatim>\<open>Framing\<close>: incremental parsers (locale \<open>stream_parser\<close>): the messages of a stream do not depend on how
    it is cut. \<^verbatim>\<open>Head_End\<close>: the same for the first empty line of an HTTP head (locale \<open>head_search\<close>), which
    three readers of the program implement.
  \<^item> \<^verbatim>\<open>Scan_Loop\<close>: probes of which a bounded number is in flight, and a loop over them (locale \<open>scan_loop\<close>): it
    ends, and its invariant gives its result. \<^verbatim>\<open>Toml\<close>: records in files.

  \<^bold>\<open>Components.\<close> A component has a theory with its records and one definition per function, and one or
  more theories with what it promises.
  \<^item> \<^verbatim>\<open>Octets\<close>, \<^verbatim>\<open>Masque_Proto\<close>, \<^verbatim>\<open>Checksum\<close>: the byte cursor and variable-length integers, HTTP datagrams,
    capsules, the probe packet and its checksum. Datagrams round-trip; the probe packet is valid.
  \<^item> \<^verbatim>\<open>Tunnel_H2\<close>, \<^verbatim>\<open>Tunnel_H2_Loop\<close>: sender, receiver and event loop of the HTTP/2 carrier. Queued packets
    reach the peer complete and in order; readiness is reported once and, with the data check on, exactly when
    two pieces of the body have carried a packet; deadlines end the loop, except when the control channel is full.
  \<^item> \<^verbatim>\<open>Tunnel_Quic\<close>: datagrams and HTTP/3 events of the QUIC carrier.
  \<^item> \<^verbatim>\<open>Netstack_Credit\<close>, \<^verbatim>\<open>Netstack\<close>, \<^verbatim>\<open>Netstack_Backlog\<close>, \<^verbatim>\<open>Netstack_Service\<close>, \<^verbatim>\<open>Netstack_Run\<close>,
    \<^verbatim>\<open>Netstack_Props\<close>, \<^verbatim>\<open>Netstack_Invariant\<close>: uplink credit, device, flows, backlog, passes and loop. The
    socket set of smoltcp is the parameter record \<open>smol\<close>. No byte of a flow is lost or reordered, no flow
    holds up another (locales \<open>flow_sink\<close> and \<open>bounded_sink\<close>), every queue is served in every pass, the
    outstanding bytes are bounded by the budget and one write for every 20 seconds, over every interleaving of the
    writer and the stack, and an invariant holds in every reachable state of the loop.
  \<^item> \<^verbatim>\<open>Netstack_Handles\<close>: the settings of the stack and the handles it gives to applications. What an
    application writes through a handle reaches the flow of that handle in order, across the credit, the
    queue and the backlog; a dropped handle ends its flow.
  \<^item> \<^verbatim>\<open>Wireguard\<close>, \<^verbatim>\<open>Wireguard_Props\<close>: the tasks of the WireGuard carrier (reader, writer, timers, health
    check), the data plane probe and the verification of an endpoint; boringtun is the parameter record
    \<open>wg_lib\<close>. Every message of the carrier has the client identifier, sessions are replaced at most every three
    seconds, the reader sends exactly what the session hands out, the tunnel is declared dead exactly when its strikes run out, an endpoint is accepted only on evidence.
  \<^item> \<^verbatim>\<open>Random_Task\<close>, \<^verbatim>\<open>Noize\<close>, \<^verbatim>\<open>Aethernoize\<close>, \<^verbatim>\<open>Aethernoize_Props\<close>: tasks that draw random numbers, send, sleep
    and may panic, with rules for what they send; the obfuscation of QUIC and WireGuard. What is sent
    around a handshake has the numbers and sizes of the configuration, and within bounds that every profile keeps
    nothing panics.
  \<^item> \<^verbatim>\<open>Sniff\<close>, \<^verbatim>\<open>Sniff_Props\<close>, \<^verbatim>\<open>Tls_Hello\<close>: names from the first bytes. The server name of every well-formed
    ClientHello is found (locale \<open>tlv_scan\<close>); a name that is returned is canonical.
  \<^item> \<^verbatim>\<open>Fragment\<close>, \<^verbatim>\<open>Fragment_Props\<close>, \<^verbatim>\<open>Fragment_Split\<close>, \<^verbatim>\<open>Fragment_Time\<close>: the fragmenting stream keeps the byte
    stream (locale \<open>poll_sink\<close>), cuts inside the server name, and finishes.
  \<^item> \<^verbatim>\<open>Dns\<close>, \<^verbatim>\<open>Dns_Props\<close>, \<^verbatim>\<open>Dns_Ech\<close>: replies are accepted exactly when they answer the query, no message
    panics, the ECH parameter of a well-formed answer is found (locale \<open>rr_scan\<close>).
  \<^item> \<^verbatim>\<open>Routing\<close>, \<^verbatim>\<open>Routing_Props\<close>: rules from the environment and a file; the crates \<^verbatim>\<open>ipnet\<close> and \<^verbatim>\<open>regex\<close> are
    the parameter record \<open>route_lib\<close>. A domain rule covers exactly the domain and its subdomains.
  \<^item> \<^verbatim>\<open>Socks_Proto\<close>, \<^verbatim>\<open>Socks_Dns\<close>, \<^verbatim>\<open>Socks_Connect\<close>, \<^verbatim>\<open>Socks_Client\<close>, \<^verbatim>\<open>Socks_Udp\<close>: the SOCKS5 listener from the
    greeting to the relay, its resolver and its UDP associations (locale \<open>latched_relay\<close>). Routes are
    respected for connections and for datagrams, and an association serves one client.
  \<^item> \<^verbatim>\<open>Http_Proxy\<close>, \<^verbatim>\<open>Http_Proxy_Props\<close>: the HTTP listener. A plain request is forwarded completely, however
    its bytes arrive, and routes are respected.
  \<^item> \<^verbatim>\<open>Relay\<close>, \<^verbatim>\<open>Listener\<close>, \<^verbatim>\<open>Sysprofile\<close>: the copying loops (locale \<open>copy_loop\<close>), the linger time after a half
    close, the accept loop and its limit, the sizes of a machine. A relay terminates when it is quiet and
    never before; copies are in order; the limit of clients is an invariant.
  \<^item> \<^verbatim>\<open>Upstream\<close>, \<^verbatim>\<open>Upstream_Dial\<close>, \<^verbatim>\<open>Upstream_Detour\<close>, \<^verbatim>\<open>Upstream_Url\<close>: the proxy behind which the tunnel is
    dialled. Its client and the listener of \<^verbatim>\<open>socks.rs\<close> read each other; an HTTP answer is consumed exactly;
    the table of detours refines a list of sessions; a printed address is read back.
  \<^item> \<^verbatim>\<open>Prober\<close>, \<^verbatim>\<open>Prober_Props\<close>, \<^verbatim>\<open>Prober_Search\<close>, \<^verbatim>\<open>Wg_Prober\<close>, \<^verbatim>\<open>Wg_Prober_Props\<close>, \<^verbatim>\<open>Tunnelping\<close>: ranges, samples,
    candidates and the loops of the two searches, and the ping through a tunnel. The candidates are those
    that were asked for, both loops are instances of \<open>scan_loop\<close>, and their results are the best of the
    probes that were over.
  \<^item> \<^verbatim>\<open>Exitloc\<close>, \<^verbatim>\<open>Lastconn\<close>, \<^verbatim>\<open>Config\<close>, \<^verbatim>\<open>Config_Props\<close>, \<^verbatim>\<open>Egress\<close>: the policy for the exit and its watch, the ring
    of the last gateways, the configuration file and the mark of sockets. The policy decides exactly; the
    ring is the list of the last eight gateways of one carrier; the file is replaced as a whole whatever fails.
  \<^item> \<^verbatim>\<open>Hops\<close>, \<^verbatim>\<open>Hops_Props\<close>, \<^verbatim>\<open>Entry\<close>: the endpoints named in the settings, the candidates for an inner hop and the
    sizes of its datagrams; protocol, delays, profiles, paths and questions of \<^verbatim>\<open>lib.rs\<close>. The hops of a pair
    never stand on one address.
  \<^item> \<^verbatim>\<open>Supervise\<close>, \<^verbatim>\<open>Supervise_Props\<close>, \<^verbatim>\<open>Supervise_Wg\<close>: the four loops of \<^verbatim>\<open>lib.rs\<close> that keep a tunnel up, as rounds
    over a state; the locales \<open>endpoint_search\<close> and \<open>excluding_search\<close> are what they ask of the searches.
    Attempts on two hops have separate hops and keep those that were named; an endpoint that ended twice
    in a row rests.
  \<^item> \<^verbatim>\<open>Tunnel_Start\<close>, \<^verbatim>\<open>Tunnel_Start_Props\<close>: one run of each kind of tunnel as the list of what it starts,
    opens and aborts (locale \<open>tunnel_run\<close>). Listeners open only behind an accepted exit; of the tasks of a run
    that is over only the detached tasks of its stacks may be left, which nothing aborts.
  \<^item> \<^verbatim>\<open>Cli\<close>: the options of the command line (\<^verbatim>\<open>cli.rs\<close>) as a table of what they do to the environment, read
    argument by argument, and compared with the updates that the help says of the arguments.
  \<^item> \<^verbatim>\<open>Bridges\<close>, \<^verbatim>\<open>Bridges_Props\<close>: the bridges of the Tor client (\<^verbatim>\<open>bridges.rs\<close>): lines, services, relays, probes,
    the programs that speak the transports, plans and waves. Probing loses no kind of bridge and the waves hold
    exactly the lines of the plan.
  \<^item> \<^verbatim>\<open>Tor\<close>, \<^verbatim>\<open>Tor_Props\<close>: the settings of Tor, one start and the stages in which it is brought up (\<^verbatim>\<open>tor.rs\<close>). Which
    bridges a start may use follows from the variable and the bridge file, and the stages are bounded.

  \<^bold>\<open>How effects are modelled.\<close> A function that reads or writes sockets takes what the system answers as
  arguments (a list of reads, whether each write succeeds, the outcome of a lookup) and returns what it
  has written. A loop over a \<^verbatim>\<open>select\<close> is a step function over the event that fires, so a theorem about
  every list of events covers every interleaving; the loops of the netstack and of the HTTP/2 carrier, the
  writer and the stack at one credit, and the history of a file are inductive reachability relations. Random choices and clocks are arguments; a
  loop that draws until it has enough has the result None while the draws do not suffice, and is shown to
  return once they do. A file operation gives all the states that the disk goes through. Recursions are
  structural or have a measure (what is left of a buffer, of the reads, of the touches of a relay), so
  no fuel is needed. The one loop whose end depends on a library, the drain of the WireGuard reader, is a
  partial function that is shown to return for a session that drains. A dialogue that waits for ever has the result None, and the timeout around it gives
  its error. Lengths and positions are natural numbers, with the bound of \<^verbatim>\<open>usize\<close> where the code checks
  it; identifiers, ports, counters and header fields are words.

  \<^bold>\<open>Findings.\<close> Some theorems prove behaviour that is not what the code means to do: the resolver of
  \<^verbatim>\<open>socks.rs\<close> never accepts an answer for a name with a final dot; a sniffed connection that cannot be
  opened gets a second reply after the success reply; a gateway that refuses one target is bypassed and
  retired; a list of forbidden countries accepts an exit whose country is unknown; a bridge file is used even when
  bridges are turned off; and the flags of the three Tor lists add to the environment instead of beating it. Lemmas show that
  the validation timeout of the HTTP/2 carrier can block, that a plain WireGuard tunnel never meets a
  policy for its exit because it asks before its carrier runs, and that the verified mode does not keep
  the hops of a pair in different ranges.

  \<^bold>\<open>Not modelled.\<close> TLS, QUIC, HTTP/2, smoltcp and boringtun are libraries: what the engine uses of them is
  a parameter. Registration and accounts (\<^verbatim>\<open>account.rs\<close>, \<^verbatim>\<open>api.rs\<close>, \<^verbatim>\<open>apifront.rs\<close>, \<^verbatim>\<open>zerotrust.rs\<close>), the
  external program of \<^verbatim>\<open>psiphon.rs\<close> and the foreign function interface are left out. So are the HTTP calls
  and the searched directories of \<^verbatim>\<open>bridges.rs\<close>, the Tor library behind \<^verbatim>\<open>tor.rs\<close>, and socket options, log
  lines and telemetry in the files that are modelled.
\<close>

end
